(* ===== verification/Prelude.thy ===== *)
theory Prelude
  imports Main "HOL-Library.Word"
begin

unbundle bit_operations_syntax

text \<open>
  Shared vocabulary of the development: bytes and byte buffers, the fields of packed C
  structures (an offset and a length into a byte buffer), the three memory routines of
  \<^verbatim>\<open>kern/cmd56/compiler_defs.h\<close>, little-endian integers as the ARM stores them, and the
  lemmas that let the simplifier compute with them.  \<open>struct_fields\<close> collects the field
  descriptors of the packed structures and \<open>wf_lens\<close> the facts about buffer lengths.
\<close>

named_theorems struct_fields "offset and length of the fields of packed structures"
named_theorems wf_lens "lengths of buffers computed by the operations"

type_synonym u8 = "8 word"
type_synonym u16 = "16 word"
type_synonym u32 = "32 word"
type_synonym u64 = "64 word"
type_synonym bytes = "u8 list"

section \<open>Zeroed buffers\<close>

text \<open>
  \<open>zeros n\<close> is a buffer cleared by \<^verbatim>\<open>memset(p, 0x00, n)\<close>.  It is a constant of its
  own so that buffers of a few hundred bytes stay folded in proofs.
\<close>

definition zeros :: "nat \<Rightarrow> bytes" where
  "zeros n = replicate n 0"

lemma length_zeros [simp, wf_lens]: "length (zeros n) = n"
  by (simp add: zeros_def)

lemma nth_zeros [simp]: "i < n \<Longrightarrow> zeros n ! i = 0"
  by (simp add: zeros_def)

lemma take_zeros [simp]: "take m (zeros n) = zeros (min m n)"
  by (simp add: zeros_def)

lemma drop_zeros [simp]: "drop m (zeros n) = zeros (n - m)"
  by (simp add: zeros_def)

section \<open>Fields of packed structures\<close>

type_synonym field = "nat \<times> nat"

fun get_field :: "field \<Rightarrow> bytes \<Rightarrow> bytes" where
  "get_field (off, len) d = take len (drop off d)"

fun put_field :: "field \<Rightarrow> bytes \<Rightarrow> bytes \<Rightarrow> bytes" where
  "put_field (off, len) v d = take off d @ v @ drop (off + len) d"

fun in_bounds :: "field \<Rightarrow> bytes \<Rightarrow> bool" where
  "in_bounds (off, len) d \<longleftrightarrow> off + len \<le> length d"

fun disjoint_fields :: "field \<Rightarrow> field \<Rightarrow> bool" where
  "disjoint_fields (o1, l1) (o2, l2) \<longleftrightarrow> o1 + l1 \<le> o2 \<or> o2 + l2 \<le> o1"

declare get_field.simps [simp del] put_field.simps [simp del]

lemma length_put_field [simp, wf_lens]:
  "in_bounds f d \<Longrightarrow> length v = snd f \<Longrightarrow> length (put_field f v d) = length d"
  by (cases f) (auto simp: put_field.simps)

lemma length_get_field [simp, wf_lens]:
  "in_bounds f d \<Longrightarrow> length (get_field f d) = snd f"
  by (cases f) (auto simp: get_field.simps)

lemma get_put_same [simp]:
  "in_bounds f d \<Longrightarrow> length v = snd f \<Longrightarrow> get_field f (put_field f v d) = v"
  by (cases f) (auto simp: get_field.simps put_field.simps min_def)

lemma put_get_same [simp]: "in_bounds f d \<Longrightarrow> put_field f (get_field f d) d = d"
  by (cases f) (simp add: get_field.simps put_field.simps, metis append_take_drop_id drop_drop add.commute)

lemma put_put_same [simp]:
  "in_bounds f d \<Longrightarrow> length v = snd f \<Longrightarrow> put_field f w (put_field f v d) = put_field f w d"
  by (cases f) (auto simp: put_field.simps min_def)

lemma get_put_disjoint [simp]:
  assumes "disjoint_fields f g" "in_bounds g d" "length v = snd g"
  shows "get_field f (put_field g v d) = get_field f d"
proof (cases f, cases g)
  fix o1 l1 o2 l2
  assume fg: "f = (o1, l1)" "g = (o2, l2)"
  with assms have b: "o2 + l2 \<le> length d" and v: "length v = l2"
    and dj: "o1 + l1 \<le> o2 \<or> o2 + l2 \<le> o1" by auto
  from dj have "take l1 (drop o1 (take o2 d @ v @ drop (o2 + l2) d)) = take l1 (drop o1 d)"
  proof
    assume "o1 + l1 \<le> o2"
    with b have "take (o1 + l1) (take o2 d @ v @ drop (o2 + l2) d) = take (o1 + l1) d"
      by simp
    then show ?thesis by (simp only: take_drop add.commute [of l1 o1])
  next
    assume "o2 + l2 \<le> o1"
    with b v show ?thesis by simp
  qed
  with fg show ?thesis by (simp add: get_field.simps put_field.simps)
qed

text \<open>A field of a field: the bytes \<open>g\<close> of the sub-buffer \<open>f\<close>.\<close>

lemma get_field_get_field:
  "fst g + snd g \<le> snd f \<Longrightarrow> get_field g (get_field f d) = get_field (fst f + fst g, snd g) d"
  by (cases f; cases g) (simp add: get_field.simps drop_take min_def add.commute)

text \<open>Adjacent fields read as one.\<close>

lemma get_field_append:
  "get_field (a, l) b @ get_field (a + l, m) b = get_field (a, l + m) b"
  by (simp add: get_field.simps take_add add.commute)

lemma get_field_byte: "i < length b \<Longrightarrow> [b ! i] = get_field (i, 1) b"
  by (simp add: get_field.simps take_Suc_conv_app_nth hd_drop_conv_nth flip: Cons_nth_drop_Suc)

lemma get_field_all: "length b = n \<Longrightarrow> get_field (0, n) b = b"
  by (simp add: get_field.simps)

lemma put_field_all: "length b = n \<Longrightarrow> put_field (0, n) v b = v"
  by (simp add: put_field.simps)

section \<open>memcpy, memset and memcmp\<close>

text \<open>
  The loops of \<^verbatim>\<open>__impl_memcpy\<close>, \<^verbatim>\<open>__impl_memset\<close> and \<^verbatim>\<open>__impl_memcmp\<close>.  A
  destination pointer is a buffer with an offset.  The loop body is one \<open>list_update\<close>
  per byte, in the order of the code.
\<close>

definition impl_memcpy :: "bytes \<Rightarrow> nat \<Rightarrow> bytes \<Rightarrow> nat \<Rightarrow> nat \<Rightarrow> bytes" where
  "impl_memcpy buf boff src soff n = fold (\<lambda>i b. b[boff + i := src ! (soff + i)]) [0..<n] buf"

definition impl_memset :: "bytes \<Rightarrow> nat \<Rightarrow> u8 \<Rightarrow> nat \<Rightarrow> bytes" where
  "impl_memset buf boff c n = fold (\<lambda>i b. b[boff + i := c]) [0..<n] buf"

fun impl_memcmp :: "bytes \<Rightarrow> bytes \<Rightarrow> nat \<Rightarrow> int" where
  "impl_memcmp s1 s2 0 = 0"
| "impl_memcmp s1 s2 (Suc count) =
     (if s1 ! 0 \<noteq> s2 ! 0 then (if s1 ! 0 < s2 ! 0 then -1 else 1)
      else impl_memcmp (drop 1 s1) (drop 1 s2) count)"

lemma length_fold_update [simp]: "length (fold (\<lambda>i b. b[f i := g i]) is buf) = length buf"
  by (induction "is" arbitrary: buf) auto

lemma nth_fold_update:
  "n + off \<le> length buf \<Longrightarrow> j < length buf \<Longrightarrow>
   fold (\<lambda>i b. b[off + i := g i]) [0..<n] buf ! j =
     (if off \<le> j \<and> j < off + n then g (j - off) else buf ! j)"
proof (induction n arbitrary: j)
  case 0
  then show ?case by auto
next
  case (Suc n)
  then show ?case by (auto simp: nth_list_update less_Suc_eq)
qed

lemma nth_put_field:
  "off + len \<le> length d \<Longrightarrow> length v = len \<Longrightarrow> j < length d \<Longrightarrow>
   put_field (off, len) v d ! j = (if off \<le> j \<and> j < off + len then v ! (j - off) else d ! j)"
  by (auto simp: put_field.simps nth_append)

lemma impl_memcpy_field:
  assumes "boff + n \<le> length buf" "soff + n \<le> length src"
  shows "impl_memcpy buf boff src soff n = put_field (boff, n) (get_field (soff, n) src) buf"
proof (rule nth_equalityI)
  show "length (impl_memcpy buf boff src soff n) =
      length (put_field (boff, n) (get_field (soff, n) src) buf)"
    using assms by (simp add: impl_memcpy_def)
next
  fix j assume "j < length (impl_memcpy buf boff src soff n)"
  then show "impl_memcpy buf boff src soff n ! j =
      put_field (boff, n) (get_field (soff, n) src) buf ! j"
    using assms
    by (auto simp: impl_memcpy_def nth_fold_update nth_put_field get_field.simps)
qed

lemma impl_memset_field:
  assumes "boff + n \<le> length buf"
  shows "impl_memset buf boff c n = put_field (boff, n) (replicate n c) buf"
proof (rule nth_equalityI)
  show "length (impl_memset buf boff c n) = length (put_field (boff, n) (replicate n c) buf)"
    using assms by (simp add: impl_memset_def)
next
  fix j assume "j < length (impl_memset buf boff c n)"
  then show "impl_memset buf boff c n ! j = put_field (boff, n) (replicate n c) buf ! j"
    using assms by (auto simp: impl_memset_def nth_fold_update nth_put_field)
qed

lemma impl_memcmp_zero_iff:
  "n \<le> length a \<Longrightarrow> n \<le> length b \<Longrightarrow> impl_memcmp a b n = 0 \<longleftrightarrow> take n a = take n b"
proof (induction n arbitrary: a b)
  case 0
  then show ?case by simp
next
  case (Suc n)
  then obtain x a' y b' where "a = x # a'" "b = y # b'" by (cases a; cases b) auto
  with Suc show ?case by auto
qed

lemma memcmp_eq:
  "length a = n \<Longrightarrow> length b = n \<Longrightarrow> impl_memcmp a b n = 0 \<longleftrightarrow> a = b"
  by (simp add: impl_memcmp_zero_iff)

section \<open>Little-endian integers\<close>

definition le_bytes :: "nat \<Rightarrow> 'a::len word \<Rightarrow> bytes" where
  "le_bytes n w = map (\<lambda>i. ucast (drop_bit (8 * i) w)) [0..<n]"

fun le_word :: "bytes \<Rightarrow> 'a::len word" where
  "le_word [] = 0"
| "le_word (b # bs) = ucast b OR push_bit 8 (le_word bs)"

lemma length_le_bytes [simp, wf_lens]: "length (le_bytes n w) = n"
  by (simp add: le_bytes_def)

lemma bit_le_word:
  "bit (le_word bs :: 'a::len word) k \<longleftrightarrow>
     k < LENGTH('a) \<and> k div 8 < length bs \<and> bit (bs ! (k div 8)) (k mod 8)"
proof (induction bs arbitrary: k)
  case Nil
  then show ?case by simp
next
  case (Cons b bs)
  show ?case
  proof (cases "k < 8")
    case True
    then show ?thesis by (auto simp: bit_or_iff bit_ucast_iff bit_push_bit_iff)
  next
    case False
    then have "k div 8 = Suc ((k - 8) div 8)" "k mod 8 = (k - 8) mod 8"
      by (auto simp: le_div_geq le_mod_geq)
    with False show ?thesis
      by (auto simp: bit_or_iff bit_ucast_iff bit_push_bit_iff Cons.IH dest: bit_imp_le_length)
  qed
qed

lemma le_word_bytes [simp]:
  "LENGTH('a) \<le> 8 * n \<Longrightarrow> (le_word (le_bytes n (w :: 'a::len word)) :: 'a word) = w"
proof (rule bit_word_eqI)
  fix k assume n: "LENGTH('a) \<le> 8 * n" and k: "k < LENGTH('a)"
  then have "k div 8 < n" by auto
  with k show "bit (le_word (le_bytes n w) :: 'a word) k = bit w k"
    by (simp add: bit_le_word le_bytes_def bit_ucast_iff bit_drop_bit_eq)
qed

lemma le_bytes_word [simp]:
  assumes "length bs = n" "8 * n \<le> LENGTH('a)"
  shows "le_bytes n (le_word bs :: 'a::len word) = bs"
proof (rule nth_equalityI)
  show "length (le_bytes n (le_word bs :: 'a word)) = length bs" using assms by simp
next
  fix i assume "i < length (le_bytes n (le_word bs :: 'a word))"
  then have i: "i < n" by simp
  show "le_bytes n (le_word bs :: 'a word) ! i = bs ! i"
  proof (rule bit_word_eqI)
    fix k :: nat assume "k < LENGTH(8)"
    with i assms show "bit (le_bytes n (le_word bs :: 'a word) ! i) k = bit (bs ! i) k"
      by (simp add: le_bytes_def bit_ucast_iff bit_drop_bit_eq bit_le_word)
  qed
qed

section \<open>Byte order\<close>

text \<open>\<^verbatim>\<open>endian_swap\<close> is \<^verbatim>\<open>__builtin_bswap16\<close>.\<close>

definition endian_swap :: "u16 \<Rightarrow> u16" where
  "endian_swap x = push_bit 8 x OR drop_bit 8 x"

lemma endian_swap_swap [simp]: "endian_swap (endian_swap x) = x"
  by (rule bit_word_eqI)
     (auto simp: endian_swap_def bit_or_iff bit_push_bit_iff bit_drop_bit_eq dest: bit_imp_le_length)

section \<open>Exclusive or of buffers\<close>

definition xor_bytes :: "bytes \<Rightarrow> bytes \<Rightarrow> bytes" where
  "xor_bytes a b = map2 (XOR) a b"

lemma length_xor_bytes [simp, wf_lens]: "length (xor_bytes a b) = min (length a) (length b)"
  by (simp add: xor_bytes_def)

lemma nth_xor_bytes [simp]:
  "i < length a \<Longrightarrow> i < length b \<Longrightarrow> xor_bytes a b ! i = a ! i XOR b ! i"
  by (simp add: xor_bytes_def)

lemma xor_bytes_cancel [simp]:
  "length a \<le> length b \<Longrightarrow> xor_bytes (xor_bytes a b) b = a"
  by (rule nth_equalityI) (auto simp: xor.assoc)

lemma xor_bytes_zeros [simp]: "length a \<le> n \<Longrightarrow> xor_bytes a (zeros n) = a"
  by (rule nth_equalityI) auto

lemma xor_bytes_commute: "xor_bytes a b = xor_bytes b a"
  by (rule nth_equalityI) (auto simp: xor.commute)

lemma xor_bytes_assoc: "xor_bytes (xor_bytes a b) c = xor_bytes a (xor_bytes b c)"
  by (rule nth_equalityI) (auto simp: xor.assoc)

section \<open>Sixteen-byte blocks\<close>

lemma length_16_conv:
  assumes "length xs = 16"
  obtains a0 a1 a2 a3 a4 a5 a6 a7 a8 a9 a10 a11 a12 a13 a14 a15 where
    "xs = [a0, a1, a2, a3, a4, a5, a6, a7, a8, a9, a10, a11, a12, a13, a14, a15]"
proof -
  from assms have "xs = [xs!0, xs!1, xs!2, xs!3, xs!4, xs!5, xs!6, xs!7, xs!8, xs!9, xs!10,
      xs!11, xs!12, xs!13, xs!14, xs!15]"
    by (intro nth_equalityI) (auto simp: nth_Cons' less_Suc_eq numeral_eq_Suc)
  then show ?thesis by (rule that)
qed

end
