(* ===== verification/CString.thy ===== *)
theory CString
  imports Prelude
begin

text \<open>
  C strings: byte buffers read up to the first zero byte, and the routines of the C library
  the program uses on them.  \<open>cstr\<close> is a string literal with its terminator.
\<close>

definition cstr :: "string \<Rightarrow> bytes" where
  "cstr s = map of_char s @ [0]"

definition strlen :: "bytes \<Rightarrow> nat" where
  "strlen b = length (takeWhile (\<lambda>c. c \<noteq> 0) b)"

definition chars :: "bytes \<Rightarrow> bytes" where
  "chars b = takeWhile (\<lambda>c. c \<noteq> 0) b"

text \<open>\<^verbatim>\<open>strncpy(dst + off, src, n)\<close>: the characters of \<open>src\<close>, then zeros, \<open>n\<close> bytes in all.\<close>

definition strncpy :: "bytes \<Rightarrow> nat \<Rightarrow> bytes \<Rightarrow> nat \<Rightarrow> bytes" where
  "strncpy dst off src n =
     fold (\<lambda>i d. d[off + i := (if i < strlen src then src ! i else 0)]) [0..<n] dst"

lemma length_strncpy [simp, wf_lens]: "length (strncpy dst off src n) = length dst"
  by (simp add: strncpy_def)

lemma length_chars [simp]: "length (chars b) = strlen b"
  by (simp add: chars_def strlen_def)

lemma strlen_le: "strlen b \<le> length b"
  by (simp add: strlen_def length_takeWhile_le)

lemma nth_chars: "i < strlen b \<Longrightarrow> chars b ! i = b ! i"
  by (simp add: chars_def strlen_def takeWhile_nth)

lemma set_chars: "c \<in> set (chars b) \<Longrightarrow> c \<noteq> 0"
  by (auto simp: chars_def dest: set_takeWhileD)

lemma chars_nonzero: "i < strlen b \<Longrightarrow> b ! i \<noteq> 0"
  by (metis length_chars nth_chars nth_mem set_chars)

lemma nth_strncpy:
  "off + n \<le> length dst \<Longrightarrow> j < length dst \<Longrightarrow> strncpy dst off src n ! j =
     (if off \<le> j \<and> j < off + n then (if j - off < strlen src then src ! (j - off) else 0) else dst ! j)"
  unfolding strncpy_def by (subst nth_fold_update) (simp_all add: add.commute)

lemma strncpy_field:
  "off + n \<le> length dst \<Longrightarrow>
   strncpy dst off src n = put_field (off, n) (take n (chars src) @ zeros (n - strlen src)) dst"
  by (rule nth_equalityI)
     (auto simp: nth_strncpy nth_put_field nth_append nth_chars min_def)

text \<open>A buffer that begins with nonzero bytes and then a zero holds these bytes.\<close>

lemma chars_append_0: "(\<And>c. c \<in> set a \<Longrightarrow> c \<noteq> 0) \<Longrightarrow> chars (a @ 0 # b) = a"
  by (simp add: chars_def takeWhile_tail)

lemma strlen_append_0: "(\<And>c. c \<in> set a \<Longrightarrow> c \<noteq> 0) \<Longrightarrow> strlen (a @ 0 # b) = length a"
  using chars_append_0 [of a b] length_chars [of "a @ 0 # b"] by simp

text \<open>A terminated buffer is its characters, a zero and the rest.\<close>

lemma chars_split:
  assumes "strlen b < length b"
  shows "b = chars b @ 0 # drop (Suc (strlen b)) b"
proof -
  have b: "b = chars b @ drop (strlen b) b"
    by (metis chars_def strlen_def takeWhile_dropWhile_id dropWhile_eq_drop)
  have "b ! strlen b = 0"
    using assms nth_length_takeWhile [of "\<lambda>c. c \<noteq> 0" b] by (simp add: strlen_def)
  with assms have "drop (strlen b) b = 0 # drop (Suc (strlen b)) b"
    by (metis Cons_nth_drop_Suc)
  with b show ?thesis by simp
qed

end
