(* ===== verification/Packet.thy ===== *)
theory Packet
  imports CString
begin

text \<open>
  The packets of \<^verbatim>\<open>inc/Packet.h\<close>, with which the console announces a file or a patch of a
  file to the computer: 0x210 bytes, a two-byte magic that tells the kinds apart, and packed
  fields.
\<close>

definition PACKET_SIZE :: nat where "PACKET_SIZE = 0x210"
definition SEND_FILE_MAGIC :: u16 where "SEND_FILE_MAGIC = 38717"
definition PATCH_FILE_MAGIC :: u16 where "PATCH_FILE_MAGIC = 63215"

definition packet_magic :: field where [struct_fields]: "packet_magic = (0, 2)"

definition send_magic :: field where [struct_fields]: "send_magic = (0, 2)"
definition send_filename :: field where [struct_fields]: "send_filename = (2, 0x206)"
definition send_total_size :: field where [struct_fields]: "send_total_size = (0x208, 8)"

definition patch_magic :: field where [struct_fields]: "patch_magic = (0, 2)"
definition patch_offset :: field where [struct_fields]: "patch_offset = (2, 8)"
definition patch_patch_size :: field where [struct_fields]: "patch_patch_size = (0xA, 4)"
definition patch_patch_data :: field where [struct_fields]: "patch_patch_data = (0xE, 0x1B2)"
definition patch_filename :: field where [struct_fields]: "patch_filename = (0x1C0, 0x50)"

end
