(* ===== verification/Sha256.thy ===== *)
theory Sha256
  imports Prelude
begin

text \<open>
  \<^verbatim>\<open>app/sha256.h\<close> and \<^verbatim>\<open>sha256.c\<close>: the hash of all sectors that a PSV image carries.  The
  context is a record; \<open>sha256_update\<close> and \<open>sha256_final\<close> change it as the code does.  The
  second half states SHA-256 as FIPS 180-4 does and shows that the code computes it,
  however the message is cut into calls of \<^verbatim>\<open>sha256_update\<close>.
\<close>

section \<open>The code\<close>

definition ROTRIGHT :: "u32 \<Rightarrow> nat \<Rightarrow> u32" where
  "ROTRIGHT a b = drop_bit b a OR push_bit (32 - b) a"

definition CH :: "u32 \<Rightarrow> u32 \<Rightarrow> u32 \<Rightarrow> u32" where
  "CH x y z = (x AND y) XOR (NOT x AND z)"

definition MAJ :: "u32 \<Rightarrow> u32 \<Rightarrow> u32 \<Rightarrow> u32" where
  "MAJ x y z = (x AND y) XOR (x AND z) XOR (y AND z)"

definition EP0 :: "u32 \<Rightarrow> u32" where
  "EP0 x = ROTRIGHT x 2 XOR ROTRIGHT x 13 XOR ROTRIGHT x 22"

definition EP1 :: "u32 \<Rightarrow> u32" where
  "EP1 x = ROTRIGHT x 6 XOR ROTRIGHT x 11 XOR ROTRIGHT x 25"

definition SIG0 :: "u32 \<Rightarrow> u32" where
  "SIG0 x = ROTRIGHT x 7 XOR ROTRIGHT x 18 XOR drop_bit 3 x"

definition SIG1 :: "u32 \<Rightarrow> u32" where
  "SIG1 x = ROTRIGHT x 17 XOR ROTRIGHT x 19 XOR drop_bit 10 x"

definition sha_k :: "u32 list" where
  "sha_k = concat [
     [0x428a2f98, 0x71374491, 0xb5c0fbcf, 0xe9b5dba5, 0x3956c25b, 0x59f111f1, 0x923f82a4, 0xab1c5ed5],
     [0xd807aa98, 0x12835b01, 0x243185be, 0x550c7dc3, 0x72be5d74, 0x80deb1fe, 0x9bdc06a7, 0xc19bf174],
     [0xe49b69c1, 0xefbe4786, 0x0fc19dc6, 0x240ca1cc, 0x2de92c6f, 0x4a7484aa, 0x5cb0a9dc, 0x76f988da],
     [0x983e5152, 0xa831c66d, 0xb00327c8, 0xbf597fc7, 0xc6e00bf3, 0xd5a79147, 0x06ca6351, 0x14292967],
     [0x27b70a85, 0x2e1b2138, 0x4d2c6dfc, 0x53380d13, 0x650a7354, 0x766a0abb, 0x81c2c92e, 0x92722c85],
     [0xa2bfe8a1, 0xa81a664b, 0xc24b8b70, 0xc76c51a3, 0xd192e819, 0xd6990624, 0xf40e3585, 0x106aa070],
     [0x19a4c116, 0x1e376c08, 0x2748774c, 0x34b0bcb5, 0x391c0cb3, 0x4ed8aa4a, 0x5b9cca4f, 0x682e6ff3],
     [0x748f82ee, 0x78a5636f, 0x84c87814, 0x8cc70208, 0x90befffa, 0xa4506ceb, 0xbef9a3f7, 0xc67178f2]]"

record SHA256_CTX =
  sha_data :: bytes       \<comment> \<open>64 bytes\<close>
  sha_datalen :: u32
  sha_bitlen :: u64
  sha_state :: "u32 list" \<comment> \<open>8 words\<close>

text \<open>The message schedule array \<^verbatim>\<open>m\<close>, filled by the two loops.\<close>

definition sha_schedule :: "bytes \<Rightarrow> u32 list" where
  "sha_schedule data =
     (let m = map (\<lambda>i. push_bit 24 (ucast (data ! (4 * i))) OR push_bit 16 (ucast (data ! (4 * i + 1))) OR
                       push_bit 8 (ucast (data ! (4 * i + 2))) OR ucast (data ! (4 * i + 3))) [0..<16]
      in fold (\<lambda>i m. m @ [SIG1 (m ! (i - 2)) + m ! (i - 7) + SIG0 (m ! (i - 15)) + m ! (i - 16)]) [16..<64] m)"

type_synonym sha_regs = "u32 \<times> u32 \<times> u32 \<times> u32 \<times> u32 \<times> u32 \<times> u32 \<times> u32"

definition sha_round :: "u32 list \<Rightarrow> nat \<Rightarrow> sha_regs \<Rightarrow> sha_regs" where
  "sha_round m i r =
     (let (a, b, c, d, e, f, g, h) = r;
          t1 = h + EP1 e + CH e f g + sha_k ! i + m ! i;
          t2 = EP0 a + MAJ a b c
      in (t1 + t2, a, b, c, d + t1, e, f, g))"

definition sha256_transform :: "SHA256_CTX \<Rightarrow> bytes \<Rightarrow> SHA256_CTX" where
  "sha256_transform ctx data =
     (let m = sha_schedule data; s = sha_state ctx;
          (a, b, c, d, e, f, g, h) = fold (sha_round m) [0..<64]
            (s ! 0, s ! 1, s ! 2, s ! 3, s ! 4, s ! 5, s ! 6, s ! 7)
      in ctx\<lparr>sha_state := [s ! 0 + a, s ! 1 + b, s ! 2 + c, s ! 3 + d,
                           s ! 4 + e, s ! 5 + f, s ! 6 + g, s ! 7 + h]\<rparr>)"

definition sha256_init :: "SHA256_CTX \<Rightarrow> SHA256_CTX" where
  "sha256_init ctx = ctx\<lparr>sha_datalen := 0, sha_bitlen := 0,
     sha_state := [0x6a09e667, 0xbb67ae85, 0x3c6ef372, 0xa54ff53a,
                   0x510e527f, 0x9b05688c, 0x1f83d9ab, 0x5be0cd19]\<rparr>"

definition sha_update_byte :: "u8 \<Rightarrow> SHA256_CTX \<Rightarrow> SHA256_CTX" where
  "sha_update_byte b ctx =
     (let ctx = ctx\<lparr>sha_data := (sha_data ctx)[unat (sha_datalen ctx) := b]\<rparr>;
          ctx = ctx\<lparr>sha_datalen := sha_datalen ctx + 1\<rparr>
      in if sha_datalen ctx = 64
         then (let ctx = sha256_transform ctx (sha_data ctx);
                   ctx = ctx\<lparr>sha_bitlen := sha_bitlen ctx + 512\<rparr>
               in ctx\<lparr>sha_datalen := 0\<rparr>)
         else ctx)"

definition sha256_update :: "SHA256_CTX \<Rightarrow> bytes \<Rightarrow> nat \<Rightarrow> SHA256_CTX" where
  "sha256_update ctx data len = fold (\<lambda>i ctx. sha_update_byte (data ! i) ctx) [0..<len] ctx"

text \<open>The eight assignments of the bit length, last byte first.\<close>

definition sha_put_bitlen :: "u64 \<Rightarrow> bytes \<Rightarrow> bytes" where
  "sha_put_bitlen bitlen d =
     d[63 := ucast bitlen, 62 := ucast (drop_bit 8 bitlen), 61 := ucast (drop_bit 16 bitlen),
       60 := ucast (drop_bit 24 bitlen), 59 := ucast (drop_bit 32 bitlen), 58 := ucast (drop_bit 40 bitlen),
       57 := ucast (drop_bit 48 bitlen), 56 := ucast (drop_bit 56 bitlen)]"

definition sha_digest :: "u32 list \<Rightarrow> bytes \<Rightarrow> bytes" where
  "sha_digest s hash =
     fold (\<lambda>i h. h[i := ucast (drop_bit (24 - i * 8) (s ! 0) AND 0xff),
                   i + 4 := ucast (drop_bit (24 - i * 8) (s ! 1) AND 0xff),
                   i + 8 := ucast (drop_bit (24 - i * 8) (s ! 2) AND 0xff),
                   i + 12 := ucast (drop_bit (24 - i * 8) (s ! 3) AND 0xff),
                   i + 16 := ucast (drop_bit (24 - i * 8) (s ! 4) AND 0xff),
                   i + 20 := ucast (drop_bit (24 - i * 8) (s ! 5) AND 0xff),
                   i + 24 := ucast (drop_bit (24 - i * 8) (s ! 6) AND 0xff),
                   i + 28 := ucast (drop_bit (24 - i * 8) (s ! 7) AND 0xff)]) [0..<4] hash"

definition sha256_final :: "SHA256_CTX \<Rightarrow> bytes \<Rightarrow> SHA256_CTX \<times> bytes" where
  "sha256_final ctx hash =
     (let i = unat (sha_datalen ctx);
          ctx =
            (if i < 56
             then ctx\<lparr>sha_data := fold (\<lambda>j d. d[j := 0x00]) [i + 1..<56] ((sha_data ctx)[i := 0x80])\<rparr>
             else
               (let ctx = ctx\<lparr>sha_data := fold (\<lambda>j d. d[j := 0x00]) [i + 1..<64] ((sha_data ctx)[i := 0x80])\<rparr>;
                    ctx = sha256_transform ctx (sha_data ctx)
                in ctx\<lparr>sha_data := impl_memset (sha_data ctx) 0 0 56\<rparr>));
          ctx = ctx\<lparr>sha_bitlen := sha_bitlen ctx + ucast (sha_datalen ctx * 8)\<rparr>;
          ctx = ctx\<lparr>sha_data := sha_put_bitlen (sha_bitlen ctx) (sha_data ctx)\<rparr>;
          ctx = sha256_transform ctx (sha_data ctx)
      in (ctx, sha_digest (sha_state ctx) hash))"

section \<open>FIPS 180-4\<close>

text \<open>The functions of section 4.1.2, with rotations of words.\<close>

definition fips_Sigma0 :: "u32 \<Rightarrow> u32" where
  "fips_Sigma0 x = word_rotr 2 x XOR word_rotr 13 x XOR word_rotr 22 x"

definition fips_Sigma1 :: "u32 \<Rightarrow> u32" where
  "fips_Sigma1 x = word_rotr 6 x XOR word_rotr 11 x XOR word_rotr 25 x"

definition fips_sigma0 :: "u32 \<Rightarrow> u32" where
  "fips_sigma0 x = word_rotr 7 x XOR word_rotr 18 x XOR drop_bit 3 x"

definition fips_sigma1 :: "u32 \<Rightarrow> u32" where
  "fips_sigma1 x = word_rotr 17 x XOR word_rotr 19 x XOR drop_bit 10 x"

text \<open>Big-endian words, and the recursion of the message schedule (6.2.2, step 1).\<close>

definition be_bytes :: "nat \<Rightarrow> 'a::len word \<Rightarrow> bytes" where
  "be_bytes n w = rev (le_bytes n w)"

definition be_word :: "bytes \<Rightarrow> u32" where
  "be_word b = le_word (rev b)"

function fips_W :: "bytes \<Rightarrow> nat \<Rightarrow> u32" where
  "fips_W M t =
     (if t < 16 then be_word (get_field (4 * t, 4) M)
      else fips_sigma1 (fips_W M (t - 2)) + fips_W M (t - 7) + fips_sigma0 (fips_W M (t - 15)) + fips_W M (t - 16))"
  by pat_completeness auto
termination by (relation "measure snd") auto

declare fips_W.simps [simp del]

definition fips_round :: "bytes \<Rightarrow> nat \<Rightarrow> sha_regs \<Rightarrow> sha_regs" where
  "fips_round M t r =
     (let (a, b, c, d, e, f, g, h) = r;
          T1 = h + fips_Sigma1 e + CH e f g + sha_k ! t + fips_W M t;
          T2 = fips_Sigma0 a + MAJ a b c
      in (T1 + T2, a, b, c, d + T1, e, f, g))"

definition fips_compress :: "u32 list \<Rightarrow> bytes \<Rightarrow> u32 list" where
  "fips_compress H M =
     (let (a, b, c, d, e, f, g, h) = fold (fips_round M) [0..<64]
            (H ! 0, H ! 1, H ! 2, H ! 3, H ! 4, H ! 5, H ! 6, H ! 7)
      in [H ! 0 + a, H ! 1 + b, H ! 2 + c, H ! 3 + d, H ! 4 + e, H ! 5 + f, H ! 6 + g, H ! 7 + h])"

definition fips_H0 :: "u32 list" where
  "fips_H0 = [0x6a09e667, 0xbb67ae85, 0x3c6ef372, 0xa54ff53a,
              0x510e527f, 0x9b05688c, 0x1f83d9ab, 0x5be0cd19]"

text \<open>Padding (5.1.1), parsing into blocks of 64 bytes, and the digest.\<close>

definition fips_pad :: "bytes \<Rightarrow> bytes" where
  "fips_pad m = m @ [0x80] @ zeros ((119 - length m mod 64) mod 64) @ be_bytes 8 (of_nat (8 * length m) :: u64)"

function fips_blocks :: "u32 list \<Rightarrow> bytes \<Rightarrow> u32 list" where
  "fips_blocks H m = (if length m < 64 then H else fips_blocks (fips_compress H (take 64 m)) (drop 64 m))"
  by pat_completeness auto
termination by (relation "measure (\<lambda>(H, m). length m)") auto

declare fips_blocks.simps [simp del]

definition fips_sha256 :: "bytes \<Rightarrow> bytes" where
  "fips_sha256 m = concat (map (be_bytes 4) (fips_blocks fips_H0 (fips_pad m)))"

section \<open>The code computes SHA-256\<close>

lemma ROTRIGHT_rotr: "0 < n \<Longrightarrow> n < 32 \<Longrightarrow> ROTRIGHT x n = word_rotr n x"
proof (rule bit_word_eqI)
  fix k assume n: "0 < n" "n < 32" and "k < LENGTH(32)"
  then have k: "k < 32" by simp
  show "bit (ROTRIGHT x n) k = bit (word_rotr n x) k"
  proof (cases "k + n < 32")
    case True
    with n k show ?thesis
      by (auto simp: ROTRIGHT_def bit_or_iff bit_drop_bit_eq bit_push_bit_iff bit_word_rotr_iff add.commute
          dest: bit_imp_le_length)
  next
    case False
    then have "(k + n) mod 32 = k + n - 32" using n k by (simp add: le_mod_geq)
    moreover have "k - (32 - n) = k + n - 32" using n k False by simp
    ultimately show ?thesis using n k False
      by (auto simp: ROTRIGHT_def bit_or_iff bit_drop_bit_eq bit_push_bit_iff bit_word_rotr_iff add.commute
          dest: bit_imp_le_length)
  qed
qed

lemma sha_functions:
  "EP0 x = fips_Sigma0 x" "EP1 x = fips_Sigma1 x" "SIG0 x = fips_sigma0 x" "SIG1 x = fips_sigma1 x"
  by (simp_all add: EP0_def EP1_def SIG0_def SIG1_def fips_Sigma0_def fips_Sigma1_def fips_sigma0_def
      fips_sigma1_def ROTRIGHT_rotr)

lemma be_word_4: "be_word [a, b, c, d] =
   push_bit 24 (ucast a) OR push_bit 16 (ucast b) OR push_bit 8 (ucast c) OR ucast d"
  by (simp add: be_word_def push_bit_or or.assoc or.commute or.left_commute)

lemma sha_schedule_prefix:
  assumes "length M = 64" "n \<le> 64" "16 \<le> n"
  shows "fold (\<lambda>i m. m @ [SIG1 (m ! (i - 2)) + m ! (i - 7) + SIG0 (m ! (i - 15)) + m ! (i - 16)]) [16..<n]
      (map (fips_W M) [0..<16]) = map (fips_W M) [0..<n]"
  using assms(3,2)
proof (induction n rule: dec_induct)
  case base
  then show ?case by simp
next
  case (step n)
  then have "fips_W M n = SIG1 (fips_W M (n - 2)) + fips_W M (n - 7) + SIG0 (fips_W M (n - 15)) + fips_W M (n - 16)"
    by (subst fips_W.simps) (simp add: sha_functions)
  with step show ?case by simp
qed

lemma sha_schedule_eq:
  assumes "length M = 64"
  shows "sha_schedule M = map (fips_W M) [0..<64]"
proof -
  have W: "fips_W M i = push_bit 24 (ucast (M ! (4 * i))) OR push_bit 16 (ucast (M ! (4 * i + 1))) OR
      push_bit 8 (ucast (M ! (4 * i + 2))) OR ucast (M ! (4 * i + 3))" if "i < 16" for i
  proof -
    have "get_field (4 * i, 4) M = [M ! (4 * i), M ! (4 * i + 1), M ! (4 * i + 2), M ! (4 * i + 3)]"
      using that assms
      by (intro nth_equalityI) (auto simp: get_field.simps less_Suc_eq numeral_eq_Suc)
    with that show ?thesis by (simp add: fips_W.simps be_word_4)
  qed
  have "map (\<lambda>i. push_bit 24 (ucast (M ! (4 * i))) OR push_bit 16 (ucast (M ! (4 * i + 1))) OR
      push_bit 8 (ucast (M ! (4 * i + 2))) OR ucast (M ! (4 * i + 3))) [0..<16] = map (fips_W M) [0..<16]"
    by (intro map_cong refl) (simp only: W set_upt atLeastLessThan_iff)
  then show ?thesis
    unfolding sha_schedule_def Let_def
    by (simp only: sha_schedule_prefix [OF assms order_refl])
qed

lemma sha_round_eq: "length M = 64 \<Longrightarrow> i < 64 \<Longrightarrow> sha_round (sha_schedule M) i = fips_round M i"
  by (simp add: fun_eq_iff sha_round_def fips_round_def sha_schedule_eq sha_functions)

lemma sha256_transform_eq:
  assumes "length M = 64"
  shows "sha256_transform ctx M = ctx\<lparr>sha_state := fips_compress (sha_state ctx) M\<rparr>"
proof -
  have "fold (sha_round (sha_schedule M)) [0..<64] r = fold (fips_round M) [0..<64] r" for r
    using assms by (intro fold_cong) (auto simp: sha_round_eq)
  then show ?thesis
    by (simp add: sha256_transform_def fips_compress_def Let_def case_prod_unfold)
qed

text \<open>Blocks are consumed from the front; a message cut at a block boundary is hashed in two steps.\<close>

lemma fips_blocks_short: "length m < 64 \<Longrightarrow> fips_blocks H m = H"
  by (subst fips_blocks.simps) simp

lemma fips_blocks_one: "length b = 64 \<Longrightarrow> fips_blocks H (b @ m) = fips_blocks (fips_compress H b) m"
  by (subst fips_blocks.simps) simp

lemma fips_blocks_append:
  "length a mod 64 = 0 \<Longrightarrow> fips_blocks H (a @ m) = fips_blocks (fips_blocks H a) m"
proof (induction "length a" arbitrary: a H rule: less_induct)
  case less
  show ?case
  proof (cases "length a < 64")
    case True
    with less.prems have "a = []" by simp
    then show ?thesis by (simp add: fips_blocks_short)
  next
    case False
    let ?b = "take 64 a" and ?c = "drop 64 a"
    have b: "length ?b = 64" and c: "length ?c mod 64 = 0" "length ?c < length a"
      using False less.prems by (auto simp: le_mod_geq)
    have "fips_blocks H (a @ m) = fips_blocks (fips_compress H ?b) (?c @ m)"
      using fips_blocks_one [OF b, of H "?c @ m"] by (simp only: append.assoc [symmetric] append_take_drop_id)
    also have "\<dots> = fips_blocks (fips_blocks (fips_compress H ?b) ?c) m"
      by (rule less.hyps [OF c(2,1)])
    also have "fips_blocks (fips_compress H ?b) ?c = fips_blocks H a"
      using fips_blocks_one [OF b, of H ?c] by simp
    finally show ?thesis .
  qed
qed

lemma length_fips_compress [simp]: "length (fips_compress H M) = 8"
  by (simp add: fips_compress_def case_prod_unfold Let_def)

lemma length_fips_blocks: "length H = 8 \<Longrightarrow> length (fips_blocks H m) = 8"
proof (induction H m rule: fips_blocks.induct)
  case (1 H m)
  then show ?case by (subst fips_blocks.simps) simp
qed

text \<open>
  What a context holds after absorbing \<open>m\<close>: the hash value of the complete blocks, their
  length in bits and the remaining bytes.
\<close>

definition absorbed :: "SHA256_CTX \<Rightarrow> bytes \<Rightarrow> bool" where
  "absorbed ctx m \<longleftrightarrow> (\<exists>a t. m = a @ t \<and> length a mod 64 = 0 \<and> length t < 64 \<and>
     sha_datalen ctx = of_nat (length t) \<and> length (sha_data ctx) = 64 \<and> take (length t) (sha_data ctx) = t \<and>
     sha_bitlen ctx = of_nat (8 * length a) \<and> sha_state ctx = fips_blocks fips_H0 a)"

lemma absorbed_init: "length (sha_data ctx) = 64 \<Longrightarrow> absorbed (sha256_init ctx) []"
  by (simp add: absorbed_def sha256_init_def fips_H0_def fips_blocks_short)

lemma sha256_transform_select [simp]:
  "sha_data (sha256_transform ctx d) = sha_data ctx" "sha_datalen (sha256_transform ctx d) = sha_datalen ctx"
  "sha_bitlen (sha256_transform ctx d) = sha_bitlen ctx"
  by (simp_all add: sha256_transform_def Let_def case_prod_unfold)

lemma unat_small: "n < 2 ^ 32 \<Longrightarrow> unat (of_nat n :: u32) = n"
  by (simp add: unat_of_nat take_bit_nat_eq_self)

lemma absorbed_byte:
  assumes "absorbed ctx m"
  shows "absorbed (sha_update_byte b ctx) (m @ [b])"
proof -
  obtain a t where m: "m = a @ t" "length a mod 64 = 0" and t: "length t < 64"
    and ctx: "sha_datalen ctx = of_nat (length t)" "length (sha_data ctx) = 64"
      "take (length t) (sha_data ctx) = t" "sha_bitlen ctx = of_nat (8 * length a)"
      "sha_state ctx = fips_blocks fips_H0 a"
    using assms unfolding absorbed_def by (elim exE conjE) (rule that; assumption)
  let ?d = "(sha_data ctx)[length t := b]"
  have n: "unat (sha_datalen ctx) = length t"
    unfolding ctx(1) by (rule unat_small, rule less_trans [OF t]) simp
  have d: "length ?d = 64" "take (Suc (length t)) ?d = t @ [b]"
    using t ctx(2,3) by (simp_all add: take_Suc_conv_app_nth)
  have full: "sha_datalen ctx + 1 = 64 \<longleftrightarrow> length t = 63"
  proof -
    have "unat (of_nat (length t + 1) :: u32) = length t + 1"
      by (rule unat_small, rule less_trans [where y = 65]) (use t in simp_all)
    moreover have "sha_datalen ctx + 1 = of_nat (length t + 1)" using ctx(1) by simp
    ultimately show ?thesis by (simp only: word_unat_eq_iff) simp
  qed
  show ?thesis
  proof (cases "length t = 63")
    case True
    with d have db: "?d = t @ [b]" by simp
    have eq: "sha_update_byte b ctx = ctx\<lparr>sha_data := ?d, sha_datalen := 0, sha_bitlen := sha_bitlen ctx + 512,
        sha_state := fips_compress (sha_state ctx) (t @ [b])\<rparr>"
      using True full n db by (simp add: sha_update_byte_def Let_def sha256_transform_eq)
    have st: "fips_compress (sha_state ctx) (t @ [b]) = fips_blocks fips_H0 (a @ t @ [b])"
      using m(2) True ctx(5) fips_blocks_one [of "t @ [b]" _ "[]"] by (simp add: fips_blocks_append fips_blocks_short)
    have bl: "sha_bitlen ctx + 512 = of_nat (8 * length (a @ t @ [b]))"
      using True ctx(4) by (simp add: algebra_simps)
    have len: "length (a @ t @ [b]) mod 64 = 0"
      using True m(2) by (simp add: mod_simps)
    show ?thesis
      unfolding absorbed_def eq
      by (intro exI [of _ "a @ t @ [b]"] exI [of _ "[]"] conjI) (use m(1) len bl st d(1) in simp_all)
  next
    case False
    with t have "length t < 63" by simp
    then show ?thesis
      using full n m ctx d
      unfolding absorbed_def
      by (intro exI [of _ a] exI [of _ "t @ [b]"] conjI) (simp_all add: sha_update_byte_def Let_def)
  qed
qed

lemma absorbed_update:
  assumes "absorbed ctx m" "len \<le> length d"
  shows "absorbed (sha256_update ctx d len) (m @ take len d)"
  using assms(2)
proof (induction len)
  case 0
  then show ?case using assms(1) by (simp add: sha256_update_def)
next
  case (Suc len)
  then have "absorbed (sha_update_byte (d ! len) (sha256_update ctx d len)) ((m @ take len d) @ [d ! len])"
    by (intro absorbed_byte) simp
  then show ?case using Suc.prems by (simp add: sha256_update_def take_Suc_conv_app_nth)
qed

text \<open>The last block: padding in place, the bit length, and the digest.\<close>

lemma fold_zero_fill:
  "n \<le> k \<Longrightarrow> k \<le> length d \<Longrightarrow> fold (\<lambda>j d. d[j := 0]) [n..<k] d = take n d @ zeros (k - n) @ drop k d"
proof (induction k)
  case 0
  then show ?case by (simp add: zeros_def)
next
  case (Suc k)
  show ?case
  proof (cases "n = Suc k")
    case True
    then show ?thesis by (simp add: zeros_def)
  next
    case False
    with Suc have "n \<le> k" "drop k d = d ! k # drop (Suc k) d" by (simp_all add: Cons_nth_drop_Suc)
    moreover have "zeros (Suc k - n) = zeros (k - n) @ [0]"
      using \<open>n \<le> k\<close> by (simp add: zeros_def Suc_diff_le replicate_append_same [symmetric])
    ultimately show ?thesis
      using Suc by (simp add: list_update_append)
  qed
qed

lemma be_bytes_8: "be_bytes 8 (w :: u64) = [ucast (drop_bit 56 w), ucast (drop_bit 48 w), ucast (drop_bit 40 w),
   ucast (drop_bit 32 w), ucast (drop_bit 24 w), ucast (drop_bit 16 w), ucast (drop_bit 8 w), ucast w]"
  by (simp add: be_bytes_def le_bytes_def upt_rec)

lemma sha_put_bitlen_eq:
  assumes "length d = 64"
  shows "sha_put_bitlen w d = take 56 d @ be_bytes 8 w"
proof (rule nth_equalityI)
  show "length (sha_put_bitlen w d) = length (take 56 d @ be_bytes 8 w)"
    using assms by (simp add: sha_put_bitlen_def be_bytes_8)
next
  fix i assume "i < length (sha_put_bitlen w d)"
  then have "i < 64" using assms by (simp add: sha_put_bitlen_def)
  then have "i < 56 \<or> i = 56 \<or> i = 57 \<or> i = 58 \<or> i = 59 \<or> i = 60 \<or> i = 61 \<or> i = 62 \<or> i = 63" by linarith
  then show "sha_put_bitlen w d ! i = (take 56 d @ be_bytes 8 w) ! i"
    using assms by (elim disjE) (simp_all add: sha_put_bitlen_def be_bytes_8 nth_append)
qed

lemma sha_put_bitlen_append:
  "length x = 56 \<Longrightarrow> length y = 8 \<Longrightarrow> sha_put_bitlen w (x @ y) = x @ be_bytes 8 w"
  by (simp add: sha_put_bitlen_eq)

lemma be_bytes_4: "be_bytes 4 (w :: u32) =
   [ucast (drop_bit 24 w), ucast (drop_bit 16 w), ucast (drop_bit 8 w), ucast w]"
  by (simp add: be_bytes_def le_bytes_def upt_rec)

lemma ucast_mask_ff: "ucast (x AND 0xff :: u32) = (ucast x :: u8)"
proof -
  have "(0xff :: u32) = mask 8" by (simp add: mask_numeral)
  then show ?thesis by (simp add: bit_eq_iff bit_ucast_iff bit_and_iff bit_mask_iff)
qed

lemma upt_4: "[0..<4] = [0, 1, 2, 3 :: nat]"
  by (simp add: upt_rec)

lemma upt_32: "[0..<32] = [0, 1, 2, 3, 4, 5, 6, 7, 8, 9, 10, 11, 12, 13, 14, 15,
   16, 17, 18, 19, 20, 21, 22, 23, 24, 25, 26, 27, 28, 29, 30, 31 :: nat]"
  by (simp add: upt_rec)

lemma sha_digest_eq:
  assumes "length s = 8" "length hash = 32"
  shows "sha_digest s hash = concat (map (be_bytes 4) s)"
proof -
  have s: "s = [s ! 0, s ! 1, s ! 2, s ! 3, s ! 4, s ! 5, s ! 6, s ! 7]"
    using assms(1) by (intro nth_equalityI) (auto simp: nth_Cons' less_Suc_eq numeral_eq_Suc)
  obtain f where "hash = map f [0..<32]" using assms(2) map_nth [of hash] by metis
  then have "sha_digest s hash = concat (map (be_bytes 4) [s ! 0, s ! 1, s ! 2, s ! 3, s ! 4, s ! 5, s ! 6, s ! 7])"
    by (simp add: sha_digest_def be_bytes_4 upt_4 upt_32 ucast_mask_ff)
  with s show ?thesis by simp
qed

lemma zeros_append: "zeros m @ zeros n = zeros (m + n)"
  by (simp add: zeros_def replicate_add)

lemma sha_bitlen_total:
  assumes "length t < 64"
  shows "(of_nat (8 * length a) :: u64) + ucast ((of_nat (length t) :: u32) * 8) = of_nat (8 * length (a @ t))"
proof -
  have "(of_nat (length t) :: u32) * 8 = of_nat (8 * length t)" by simp
  moreover have "unat (of_nat (8 * length t) :: u32) = 8 * length t"
    by (rule unat_small, rule less_trans [where y = 512]) (use assms in simp_all)
  ultimately have "ucast ((of_nat (length t) :: u32) * 8) = (of_nat (8 * length t) :: u64)"
    by (metis of_nat_unat)
  then show ?thesis by (simp add: algebra_simps)
qed

lemma sha256_final_absorbed:
  assumes "absorbed ctx m" "length hash = 32"
  shows "snd (sha256_final ctx hash) = fips_sha256 m"
proof -
  obtain a t where m: "m = a @ t" "length a mod 64 = 0" and t: "length t < 64"
    and ctx: "sha_datalen ctx = of_nat (length t)" "length (sha_data ctx) = 64"
      "take (length t) (sha_data ctx) = t" "sha_bitlen ctx = of_nat (8 * length a)"
      "sha_state ctx = fips_blocks fips_H0 a"
    using assms(1) unfolding absorbed_def by (elim exE conjE) (rule that; assumption)
  let ?L = "be_bytes 8 (of_nat (8 * length m) :: u64)" and ?d = "(sha_data ctx)[length t := 0x80]"
  have n: "unat (sha_datalen ctx) = length t"
    unfolding ctx(1) by (rule unat_small, rule less_trans [OF t]) simp
  have bl: "sha_bitlen ctx + ucast (sha_datalen ctx * 8) = of_nat (8 * length m)"
    using sha_bitlen_total [OF t, of a] by (simp only: ctx(1,4) m(1))
  have tk: "take (Suc (length t)) ?d = t @ [0x80]" "length ?d = 64"
    using t ctx(2,3) by (simp_all add: take_Suc_conv_app_nth)
  have fill: "fold (\<lambda>j d. d[j := 0]) [length t + 1..<k] ?d = t @ [0x80] @ zeros (k - (length t + 1)) @ drop k ?d"
    if "length t < k" "k \<le> 64" for k
    using that tk fold_zero_fill [of "length t + 1" k ?d] by simp
  have mod: "length m mod 64 = length t" using m t by (simp add: mod_add_eq [symmetric])
  have L: "length ?L = 8" by (simp add: be_bytes_8)
  have H8: "length (fips_blocks fips_H0 x) = 8" for x by (rule length_fips_blocks) (simp add: fips_H0_def)
  have final: "fips_blocks fips_H0 (fips_pad m) = sha_state (fst (sha256_final ctx hash))"
  proof (cases "length t < 56")
    case True
    let ?B = "t @ [0x80] @ zeros (55 - length t) @ ?L"
    have B: "length ?B = 64" using True L by simp
    have "119 - length t = (55 - length t) + 64" using True by simp
    then have "(119 - length t) mod 64 = 55 - length t" using True by (simp only: mod_add_self2) simp
    then have pad: "fips_pad m = a @ ?B @ []"
      using mod m(1) by (simp add: fips_pad_def)
    have e: "fold (\<lambda>j d. d[j := 0]) [length t + 1..<56] ?d = (t @ [0x80] @ zeros (55 - length t)) @ drop 56 ?d"
      using fill [of 56] True by simp
    have "sha_put_bitlen (of_nat (8 * length m)) (fold (\<lambda>j d. d[j := 0]) [length t + 1..<56] ?d) = ?B"
      unfolding e using True tk(2) by (subst sha_put_bitlen_append) simp_all
    then have "sha_state (fst (sha256_final ctx hash)) = fips_compress (fips_blocks fips_H0 a) ?B"
      using True n bl B ctx(5) by (simp add: sha256_final_def Let_def sha256_transform_eq)
    then show ?thesis
      unfolding pad by (simp only: fips_blocks_append [OF m(2)] fips_blocks_one [OF B]) (simp add: fips_blocks_short)
  next
    case False
    let ?B1 = "t @ [0x80] @ zeros (63 - length t)" and ?B2 = "zeros 56 @ ?L"
    have B: "length ?B1 = 64" "length ?B2 = 64" using False t L by simp_all
    have "(119 - length t) mod 64 = (63 - length t) + 56" using False t by (simp add: mod_less)
    then have pad: "fips_pad m = a @ ?B1 @ ?B2 @ []"
      using mod m(1) zeros_append [of "63 - length t" 56] by (simp add: fips_pad_def)
    have b1: "fold (\<lambda>j d. d[j := 0]) [length t + 1..<64] ?d = ?B1"
      using fill [of 64] t tk(2) by simp
    have "impl_memset ?B1 0 0 56 = zeros 56 @ drop 56 ?B1"
      using B(1) by (simp add: impl_memset_field put_field.simps zeros_def)
    then have "sha_put_bitlen (of_nat (8 * length m)) (impl_memset ?B1 0 0 56) = ?B2"
      using B(1) by (simp add: sha_put_bitlen_eq)
    then have "sha_state (fst (sha256_final ctx hash)) =
        fips_compress (fips_compress (fips_blocks fips_H0 a) ?B1) ?B2"
      using False n bl B ctx(5) b1 by (simp add: sha256_final_def Let_def sha256_transform_eq del: append.simps)
    then show ?thesis
      unfolding pad by (simp only: fips_blocks_append [OF m(2)] fips_blocks_one [OF B(1)] fips_blocks_one [OF B(2)])
        (simp add: fips_blocks_short)
  qed
  have "snd (sha256_final ctx hash) = sha_digest (sha_state (fst (sha256_final ctx hash))) hash"
    by (simp add: sha256_final_def Let_def)
  with final H8 [of "fips_pad m"] assms(2) show ?thesis
    by (simp add: fips_sha256_def sha_digest_eq)
qed

section \<open>The constants\<close>

text \<open>
  FIPS 180-4 takes the constants from the fractional parts of the cube roots of the first
  sixty-four primes (4.2.2) and of the square roots of the first eight (5.3.3): \<open>w\<close> is the
  first 32 bits of the fraction of the root of \<open>p\<close> when \<open>n * 2 ^ 32 + w\<close>, with \<open>n\<close> the
  integral part, is the root of \<open>p\<close> times \<open>2 ^ 32\<close> rounded down.
\<close>

definition fips_primes :: "nat list" where
  "fips_primes = [2, 3, 5, 7, 11, 13, 17, 19, 23, 29, 31, 37, 41, 43, 47, 53, 59, 61, 67, 71, 73, 79, 83,
   89, 97, 101, 103, 107, 109, 113, 127, 131, 137, 139, 149, 151, 157, 163, 167, 173, 179,
   181, 191, 193, 197, 199, 211, 223, 227, 229, 233, 239, 241, 251, 257, 263, 269, 271, 277,
   281, 283, 293, 307, 311]"

definition root_bits :: "nat \<Rightarrow> nat \<Rightarrow> nat \<Rightarrow> u32 \<Rightarrow> bool" where
  "root_bits e n p w \<longleftrightarrow> (n * 2 ^ 32 + unat w) ^ e \<le> p * 2 ^ (32 * e) \<and> p * 2 ^ (32 * e) < (n * 2 ^ 32 + unat w + 1) ^ e"

definition int_root :: "nat \<Rightarrow> nat \<Rightarrow> nat" where
  "int_root e p =
     (if p < 2 ^ e then 1 else if p < 3 ^ e then 2 else if p < 4 ^ e then 3 else if p < 5 ^ e then 4
      else if p < 6 ^ e then 5 else 6)"

lemma sha_k_cube_roots: "list_all2 (\<lambda>p w. root_bits 3 (int_root 3 p) p w) fips_primes sha_k"
  by (simp add: fips_primes_def sha_k_def root_bits_def int_root_def)

lemma H0_square_roots: "list_all2 (\<lambda>p w. root_bits 2 (int_root 2 p) p w) (take 8 fips_primes) fips_H0"
  by (simp add: fips_primes_def fips_H0_def root_bits_def int_root_def)

section \<open>Properties\<close>

text \<open>C11: the digest of the code is SHA-256 of FIPS 180-4, however the message is cut into
  calls of \<^verbatim>\<open>sha256_update\<close> and whatever the context and the output held before.\<close>

theorem sha256_is_fips180:
  assumes "length (sha_data ctx) = 64" "length hash = 32"
  shows "snd (sha256_final (fold (\<lambda>d ctx. sha256_update ctx d (length d)) chunks (sha256_init ctx)) hash) =
    fips_sha256 (concat chunks)"
proof -
  have "absorbed ctx' m \<Longrightarrow> absorbed (fold (\<lambda>d ctx. sha256_update ctx d (length d)) chunks ctx') (m @ concat chunks)"
    for ctx' m
  proof (induction chunks arbitrary: ctx' m)
    case (Cons d chunks)
    have "absorbed (sha256_update ctx' d (length d)) (m @ d)"
      using absorbed_update [OF Cons.prems, of "length d" d] by simp
    from Cons.IH [OF this] show ?case by simp
  qed simp
  from sha256_final_absorbed [OF this [OF absorbed_init [OF assms(1)]] assms(2)] show ?thesis by simp
qed

theorem sha256_is_fips180_witness:
  "snd (sha256_final (fold (\<lambda>d ctx. sha256_update ctx d (length d)) [[0x61, 0x62], [0x63]]
      (sha256_init \<lparr>sha_data = zeros 64, sha_datalen = 0, sha_bitlen = 0, sha_state = []\<rparr>)) (zeros 32)) =
    fips_sha256 [0x61, 0x62, 0x63]"
  by (subst sha256_is_fips180) simp_all

text \<open>the round constants and the initial hash value of the code are those of FIPS 180-4:
  the first 32 bits of the fractions of the cube roots of the first 64 primes, and of the
  square roots of the first eight.\<close>

theorem sha256_constants:
  "length sha_k = 64 \<and> list_all2 (\<lambda>p w. root_bits 3 (int_root 3 p) p w) fips_primes sha_k \<and>
   list_all2 (\<lambda>p w. root_bits 2 (int_root 2 p) p w) (take 8 fips_primes) (sha_state (sha256_init ctx))"
  using sha_k_cube_roots H0_square_roots by (simp only: sha256_init_def fips_H0_def) (simp add: sha_k_def)

end
