(* ===== verification/Device.thy ===== *)
theory Device
  imports CString Sha256 "HOL-Library.Monad_Syntax"
begin

text \<open>
  \<^verbatim>\<open>app/device.h\<close>, \<^verbatim>\<open>device.c\<close> and the image headers of \<^verbatim>\<open>vci.h\<close>, \<^verbatim>\<open>psv.h\<close> and
  \<^verbatim>\<open>mbr.h\<close>: dumping, restoring and wiping a block device.  What the file calls outside
  itself (the kernel module's syscalls, the console's file and network functions) is the
  record \<open>dev_sys\<close> of functions on an environment \<open>'e\<close>; a read or a query is given the old
  contents of the buffer it fills.  The copy loop may run forever on a device that does,
  so it is a partial function.
\<close>

section \<open>Errors\<close>

definition SIZE_IS_ZERO :: int where "SIZE_IS_ZERO = -9584"
definition SIZE_NOT_MATCH :: int where "SIZE_NOT_MATCH = -9585"
definition SIZE_NO_SPACE :: int where "SIZE_NO_SPACE = -9686"
definition POINTER_WAS_NULL :: int where "POINTER_WAS_NULL = -1132"
definition INVALID_MAGIC :: int where "INVALID_MAGIC = -2329"
definition SFO_TOO_MANY_ENTRIES :: int where "SFO_TOO_MANY_ENTRIES = -253"
definition SFO_KEY_NOT_FOUND :: int where "SFO_KEY_NOT_FOUND = -2327"
definition KEYS_VERIFY_P18_FAILED :: int where "KEYS_VERIFY_P18_FAILED = -9588"
definition KEYS_VERIFY_P20_FAILED :: int where "KEYS_VERIFY_P20_FAILED = -9589"
definition KEYS_NOT_CAPTURED :: int where "KEYS_NOT_CAPTURED = -9587"
definition KERNEL_MODULE_FAILED_START :: int where "KERNEL_MODULE_FAILED_START = -120"
definition TOTAL_FILES_LESS_THAN_EQ_0 :: int where "TOTAL_FILES_LESS_THAN_EQ_0 = -920"
definition DEVICE_WHITELIST_FAILED :: int where "DEVICE_WHITELIST_FAILED = -128"
definition OK :: int where "OK = 0"

lemmas error_values = SIZE_IS_ZERO_def SIZE_NOT_MATCH_def SIZE_NO_SPACE_def POINTER_WAS_NULL_def
  INVALID_MAGIC_def SFO_TOO_MANY_ENTRIES_def SFO_KEY_NOT_FOUND_def KEYS_VERIFY_P18_FAILED_def
  KEYS_VERIFY_P20_FAILED_def KEYS_NOT_CAPTURED_def KERNEL_MODULE_FAILED_START_def
  TOTAL_FILES_LESS_THAN_EQ_0_def DEVICE_WHITELIST_FAILED_def OK_def

section \<open>Formats and state\<close>

datatype BackupFormat =
    BACKUP_FORMAT_VCI
  | BACKUP_FORMAT_VCI_TRIM
  | BACKUP_FORMAT_PSV
  | BACKUP_FORMAT_PSV_TRIM
  | BACKUP_FORMAT_RAW

definition FMT_IS_PSV :: "BackupFormat \<Rightarrow> bool" where
  "FMT_IS_PSV fmt \<longleftrightarrow> fmt = BACKUP_FORMAT_PSV \<or> fmt = BACKUP_FORMAT_PSV_TRIM"

definition FMT_IS_VCI :: "BackupFormat \<Rightarrow> bool" where
  "FMT_IS_VCI fmt \<longleftrightarrow> fmt = BACKUP_FORMAT_VCI \<or> fmt = BACKUP_FORMAT_VCI_TRIM"

definition FMT_IS_RAW :: "BackupFormat \<Rightarrow> bool" where
  "FMT_IS_RAW fmt \<longleftrightarrow> fmt = BACKUP_FORMAT_RAW"

definition FMT_IS_TRIM :: "BackupFormat \<Rightarrow> bool" where
  "FMT_IS_TRIM fmt \<longleftrightarrow> fmt = BACKUP_FORMAT_PSV_TRIM \<or> fmt = BACKUP_FORMAT_VCI_TRIM"

record NetworkInfo =
  ni_ip_address :: bytes
  ni_port :: u16

type_synonym 'e progress = "bytes \<Rightarrow> bytes \<Rightarrow> u64 \<Rightarrow> u64 \<Rightarrow> 'e \<Rightarrow> 'e"

record 'e BackupState =
  bs_block_device :: bytes
  bs_output_path :: bytes
  bs_total :: u64
  bs_device_size :: u64
  bs_trim_size :: u64
  bs_header_size :: u64
  bs_effective_size :: u64
  bs_have_sha :: bool
  bs_sha_ctx :: SHA256_CTX
  bs_rd_fd :: int
  bs_wr_fd :: int
  bs_format :: BackupFormat
  bs_keys :: "bytes option"
  bs_callback :: "'e progress option"
  bs_net_info :: "NetworkInfo option"

type_synonym 'e rd_func = "int \<Rightarrow> bytes \<Rightarrow> 'e \<Rightarrow> int \<times> bytes \<times> 'e"
type_synonym 'e wr_func = "int \<Rightarrow> bytes \<Rightarrow> 'e \<Rightarrow> int \<times> 'e"

definition SECTOR_SIZE :: nat where "SECTOR_SIZE = 0x200"
definition DEVICE_DUMP_BUFFER_SIZE :: nat where "DEVICE_DUMP_BUFFER_SIZE = SECTOR_SIZE * 0x100"

text \<open>The functions outside the file.\<close>

record 'e dev_sys =
  is_module_started :: "bytes \<Rightarrow> 'e \<Rightarrow> bool"
  kOpenDevice :: "bytes \<Rightarrow> int \<Rightarrow> 'e \<Rightarrow> int \<times> 'e"
  kReadDevice :: "'e rd_func"
  kWriteDevice :: "'e wr_func"
  kCloseDevice :: "int \<Rightarrow> 'e \<Rightarrow> 'e"
  kGetDeviceSize :: "bytes \<Rightarrow> u64 \<Rightarrow> 'e \<Rightarrow> int \<times> u64 \<times> 'e"
  kGetCartSecret :: "bytes \<Rightarrow> 'e \<Rightarrow> bytes \<times> 'e"
  kGetCartHash :: "bytes \<Rightarrow> 'e \<Rightarrow> bytes \<times> 'e"
  sceIoOpen :: "bytes \<Rightarrow> int \<Rightarrow> 'e \<Rightarrow> int \<times> 'e"
  sceIoRead :: "'e rd_func"
  sceIoWrite :: "'e wr_func"
  sceIoLseek :: "int \<Rightarrow> u64 \<Rightarrow> 'e \<Rightarrow> u64 \<times> 'e"
  sceIoClose :: "int \<Rightarrow> 'e \<Rightarrow> 'e"
  sceIoRemove :: "bytes \<Rightarrow> 'e \<Rightarrow> 'e"
  get_file_size :: "bytes \<Rightarrow> 'e \<Rightarrow> u64"
  make_directories_excluding_last :: "bytes \<Rightarrow> 'e \<Rightarrow> 'e"
  begin_connection :: "bytes \<Rightarrow> u16 \<Rightarrow> 'e \<Rightarrow> int \<times> 'e"
  end_connection :: "int \<Rightarrow> 'e \<Rightarrow> 'e"
  begin_file_send :: "int \<Rightarrow> bytes \<Rightarrow> u64 \<Rightarrow> 'e \<Rightarrow> int \<times> 'e"
  file_send_data :: "'e wr_func"
  send_file_patch :: "int \<Rightarrow> bytes \<Rightarrow> u32 \<Rightarrow> bytes \<Rightarrow> 'e \<Rightarrow> int \<times> 'e"

text \<open>Flags of the console's open calls, and the names the file passes on.\<close>

definition SCE_O_RDONLY :: int where "SCE_O_RDONLY = 0x0001"
definition SCE_O_WRONLY :: int where "SCE_O_WRONLY = 0x0002"
definition SCE_O_RDLOCK :: int where "SCE_O_RDLOCK = 0x0010"
definition SCE_O_WRLOCK :: int where "SCE_O_WRLOCK = 0x0020"
definition SCE_O_CREAT :: int where "SCE_O_CREAT = 0x0200"
definition SCE_O_TRUNC :: int where "SCE_O_TRUNC = 0x0400"

definition MAX_PATH :: nat where "MAX_PATH = 0x512"
definition KMODULE_NAME :: bytes where "KMODULE_NAME = cstr ''GcKernKit''"

section \<open>Sizes\<close>

definition MBR_MAGIC :: bytes where "MBR_MAGIC = cstr ''Sony Computer Entertainment Inc.''"

text \<open>Fields of \<^verbatim>\<open>SceMbr\<close> and of its seventeen-byte partition entries.\<close>

definition mbr_magic :: field where [struct_fields]: "mbr_magic = (0, 0x20)"
definition mbr_version :: field where [struct_fields]: "mbr_version = (0x20, 4)"
definition mbr_partitions :: nat where "mbr_partitions = 0x50"
definition sizeof_partition :: nat where "sizeof_partition = 17"
definition part_off :: field where [struct_fields]: "part_off = (0, 4)"
definition part_sz :: field where [struct_fields]: "part_sz = (4, 4)"
definition part_code :: field where [struct_fields]: "part_code = (8, 1)"

definition mbr_partition :: "bytes \<Rightarrow> nat \<Rightarrow> bytes" where
  "mbr_partition mbr i = get_field (mbr_partitions + sizeof_partition * i, sizeof_partition) mbr"

definition ScePartitionCode_EMPTY :: u8 where "ScePartitionCode_EMPTY = 0x00"

text \<open>One turn of the loop over partitions; the products are 32-bit.\<close>

definition mbr_loop_body :: "bytes \<Rightarrow> nat \<Rightarrow> u64 \<Rightarrow> u64" where
  "mbr_loop_body mbr i device_size =
     (let p = mbr_partition mbr i
      in if get_field part_code p ! 0 = ScePartitionCode_EMPTY then device_size
         else
           (let abs_offset = ucast ((le_word (get_field part_off p) :: u32) * of_nat SECTOR_SIZE) :: u64;
                abs_size = ucast ((le_word (get_field part_sz p) :: u32) * of_nat SECTOR_SIZE);
                total_sz = abs_offset + abs_size
            in if total_sz > device_size then total_sz else device_size))"

definition mbr_end :: "bytes \<Rightarrow> u64" where
  "mbr_end mbr = fold (mbr_loop_body mbr) [0..<0x10] 0"

definition mbr_valid :: "bytes \<Rightarrow> bool" where
  "mbr_valid mbr \<longleftrightarrow> impl_memcmp (get_field mbr_magic mbr) MBR_MAGIC 0x20 = 0 \<and>
     (le_word (get_field mbr_version mbr) :: u32) = 0x03"

definition get_device_size :: "'e dev_sys \<Rightarrow> bytes \<Rightarrow> u64 option \<Rightarrow> 'e \<Rightarrow> int \<times> u64 option \<times> 'e" where
  "get_device_size sys block_device sz e =
     (if \<not> is_module_started sys KMODULE_NAME e then (KERNEL_MODULE_FAILED_START, sz, e)
      else
        (case sz of
           None \<Rightarrow> (POINTER_WAS_NULL, None, e)
         | Some old \<Rightarrow> (let (res, n, e) = kGetDeviceSize sys block_device old e in (res, Some n, e))))"

text \<open>\<open>stk\<close> is the uninitialised \<^verbatim>\<open>SceMbr\<close>; \<^verbatim>\<open>sz\<close> is the result of the read as a size.\<close>

definition get_trimmed_size ::
  "bytes \<Rightarrow> 'e dev_sys \<Rightarrow> bytes \<Rightarrow> u64 option \<Rightarrow> 'e \<Rightarrow> int \<times> u64 option \<times> 'e" where
  "get_trimmed_size stk sys block_device sz e =
     (if \<not> is_module_started sys KMODULE_NAME e then (KERNEL_MODULE_FAILED_START, sz, e)
      else
        (case sz of
           None \<Rightarrow> (POINTER_WAS_NULL, None, e)
         | Some old \<Rightarrow>
             (let (dfd, e) = kOpenDevice sys block_device (SCE_O_RDONLY + SCE_O_RDLOCK) e
              in if dfd < 0 then (dfd, sz, e)
                 else
                   (let (rd, mbr, e) = kReadDevice sys dfd stk e;
                        device_size = (if rd = int SECTOR_SIZE \<and> mbr_valid mbr then mbr_end mbr else 0);
                        e = kCloseDevice sys dfd e
                    in if device_size \<le> 0 then (0, Some device_size, e)
                       else get_device_size sys block_device (Some old) e))))"

definition sizeof_PsvHeader :: nat where "sizeof_PsvHeader = 0x200"
definition sizeof_VciHeader :: nat where "sizeof_VciHeader = 0x200"

definition get_header_size :: "BackupFormat \<Rightarrow> u64 option \<Rightarrow> int \<times> u64 option" where
  "get_header_size format sz =
     (case sz of
        None \<Rightarrow> (POINTER_WAS_NULL, None)
      | Some _ \<Rightarrow>
          (case format of
             BACKUP_FORMAT_PSV_TRIM \<Rightarrow> (0, Some (of_nat sizeof_PsvHeader))
           | BACKUP_FORMAT_PSV \<Rightarrow> (0, Some (of_nat sizeof_PsvHeader))
           | BACKUP_FORMAT_VCI_TRIM \<Rightarrow> (0, Some (of_nat sizeof_VciHeader))
           | BACKUP_FORMAT_VCI \<Rightarrow> (0, Some (of_nat sizeof_VciHeader))
           | BACKUP_FORMAT_RAW \<Rightarrow> (0, Some 0)))"

definition get_effective_size ::
  "bytes \<Rightarrow> 'e dev_sys \<Rightarrow> bytes \<Rightarrow> BackupFormat \<Rightarrow> u64 option \<Rightarrow> 'e \<Rightarrow> int \<times> u64 option \<times> 'e" where
  "get_effective_size stk sys block_device format sz e =
     (let (res, header_size) = get_header_size format (Some 0)
      in if res < 0 then (res, sz, e)
         else if sz = None then (POINTER_WAS_NULL, None, e)
         else
           (let add = map_option (\<lambda>n. n + the header_size)
            in case format of
                 BACKUP_FORMAT_VCI \<Rightarrow> (let (res, sz, e) = get_device_size sys block_device sz e in (res, add sz, e))
               | BACKUP_FORMAT_PSV \<Rightarrow> (let (res, sz, e) = get_device_size sys block_device sz e in (res, add sz, e))
               | BACKUP_FORMAT_PSV_TRIM \<Rightarrow> (let (res, sz, e) = get_trimmed_size stk sys block_device sz e in (res, add sz, e))
               | BACKUP_FORMAT_VCI_TRIM \<Rightarrow> (let (res, sz, e) = get_trimmed_size stk sys block_device sz e in (res, add sz, e))
               | BACKUP_FORMAT_RAW \<Rightarrow> get_device_size sys block_device sz e))"

definition device_exist :: "'e dev_sys \<Rightarrow> bytes \<Rightarrow> 'e \<Rightarrow> u8 \<times> 'e" where
  "device_exist sys block_device e =
     (if \<not> is_module_started sys KMODULE_NAME e then (word_of_int KERNEL_MODULE_FAILED_START, e)
      else
        (let (dfd, e) = kOpenDevice sys block_device (SCE_O_RDONLY + SCE_O_RDLOCK) e
         in if dfd < 0 then (0, e) else (1, kCloseDevice sys dfd e)))"

section \<open>Image headers\<close>

text \<open>Fields of \<^verbatim>\<open>PsvHeader\<close> and \<^verbatim>\<open>VciHeader\<close>.\<close>

definition PSV_MAGIC :: bytes where "PSV_MAGIC = cstr ''PSV'' @ [0]"
definition PSV_VER :: u32 where "PSV_VER = 0x1"
definition PSV_FLAGS :: u32 where "PSV_FLAGS = 0x0"
definition psv_magic :: field where [struct_fields]: "psv_magic = (0, 4)"
definition psv_version :: field where [struct_fields]: "psv_version = (4, 4)"
definition psv_flags :: field where [struct_fields]: "psv_flags = (8, 4)"
definition psv_cart_secret :: field where [struct_fields]: "psv_cart_secret = (0xC, 0x20)"
definition psv_packet20_sha1 :: field where [struct_fields]: "psv_packet20_sha1 = (0x2C, 0x14)"
definition psv_all_sectors_sha256 :: field where
  [struct_fields]: "psv_all_sectors_sha256 = (0x40, 0x20)"
definition psv_image_size :: field where [struct_fields]: "psv_image_size = (0x60, 8)"
definition psv_image_offset :: field where [struct_fields]: "psv_image_offset = (0x68, 8)"

definition VCI_MAGIC :: bytes where "VCI_MAGIC = cstr ''VCI'' @ [0]"
definition VCI_MAJOR_VER :: u16 where "VCI_MAJOR_VER = 1"
definition VCI_MINOR_VER :: u16 where "VCI_MINOR_VER = 0"
definition vci_magic :: field where [struct_fields]: "vci_magic = (0, 4)"
definition vci_major_version :: field where [struct_fields]: "vci_major_version = (4, 2)"
definition vci_minor_version :: field where [struct_fields]: "vci_minor_version = (6, 2)"
definition vci_device_size :: field where [struct_fields]: "vci_device_size = (8, 8)"
definition vci_keys :: field where [struct_fields]: "vci_keys = (0x10, 0x40)"

text \<open>The result of writing \<open>n\<close> bytes, as the header writers report it.\<close>

definition written :: "nat \<Rightarrow> int \<Rightarrow> int" where
  "written n wr =
     (if wr = 0 then SIZE_IS_ZERO else if wr < 0 then wr
      else if wr \<noteq> int n then SIZE_NOT_MATCH else 0)"

definition create_psv_header ::
  "'e dev_sys \<Rightarrow> 'e wr_func \<Rightarrow> 'e BackupState \<Rightarrow> 'e \<Rightarrow> int \<times> 'e" where
  "create_psv_header sys wr_func state e =
     (let psv = zeros sizeof_PsvHeader;
          psv = put_field psv_magic (take 4 PSV_MAGIC) psv;
          psv = put_field psv_version (le_bytes 4 PSV_VER) psv;
          psv = put_field psv_flags (le_bytes 4 PSV_FLAGS) psv;
          (secret, e) = kGetCartSecret sys (get_field psv_cart_secret psv) e;
          psv = put_field psv_cart_secret secret psv;
          (hash, e) = kGetCartHash sys (get_field psv_packet20_sha1 psv) e;
          psv = put_field psv_packet20_sha1 hash psv;
          psv = put_field psv_all_sectors_sha256 (replicate 0x20 0xFF) psv;
          psv = put_field psv_image_size (le_bytes 8 (bs_device_size state)) psv;
          psv = put_field psv_image_offset (le_bytes 8 (of_nat (sizeof_PsvHeader div 0x200) :: u64)) psv;
          (wr, e) = wr_func (bs_wr_fd state) psv e
      in (written sizeof_PsvHeader wr, e))"

text \<open>The keys are read through the pointer; a null pointer has no meaning here.\<close>

definition create_vci_header ::
  "'e wr_func \<Rightarrow> 'e BackupState \<Rightarrow> 'e \<Rightarrow> int \<times> 'e" where
  "create_vci_header wr_func state e =
     (let vci = zeros sizeof_VciHeader;
          vci = put_field vci_magic (take 4 VCI_MAGIC) vci;
          vci = put_field vci_major_version (le_bytes 2 VCI_MAJOR_VER) vci;
          vci = put_field vci_minor_version (le_bytes 2 VCI_MINOR_VER) vci;
          vci = put_field vci_device_size (le_bytes 8 (bs_device_size state)) vci;
          vci = put_field vci_keys (the (bs_keys state)) vci;
          (wr, e) = wr_func (bs_wr_fd state) vci e
      in (written sizeof_VciHeader wr, e))"

definition create_header ::
  "'e dev_sys \<Rightarrow> 'e wr_func \<Rightarrow> 'e BackupState \<Rightarrow> 'e \<Rightarrow> int \<times> 'e" where
  "create_header sys wr_func state e =
     (case bs_format state of
        BACKUP_FORMAT_VCI \<Rightarrow> create_vci_header wr_func state e
      | BACKUP_FORMAT_VCI_TRIM \<Rightarrow> create_vci_header wr_func state e
      | BACKUP_FORMAT_PSV \<Rightarrow> create_psv_header sys wr_func state e
      | BACKUP_FORMAT_PSV_TRIM \<Rightarrow> create_psv_header sys wr_func state e
      | BACKUP_FORMAT_RAW \<Rightarrow> (0, e))"

text \<open>The digest buffer on the stack is overwritten whole.\<close>

definition finalize_psv_header :: "'e dev_sys \<Rightarrow> 'e BackupState \<Rightarrow> 'e \<Rightarrow> int \<times> 'e BackupState \<times> 'e" where
  "finalize_psv_header sys state e =
     (if FMT_IS_PSV (bs_format state) then
        (let (ctx, sha256_out) = sha256_final (bs_sha_ctx state) (zeros 0x20);
             state = state\<lparr>bs_sha_ctx := ctx\<rparr>;
             offset = of_nat (fst psv_all_sectors_sha256)
         in if bs_wr_fd state \<ge> 0 then
              (case bs_net_info state of
                 None \<Rightarrow>
                   (let (seek, e) = sceIoLseek sys (bs_wr_fd state) offset e
                    in if seek = offset then
                         (let (wr, e) = sceIoWrite sys (bs_wr_fd state) sha256_out e
                          in (written 0x20 wr, state, e))
                       else (SIZE_NOT_MATCH, state, e))
               | Some net \<Rightarrow>
                   (let (connection, e) = begin_connection sys (ni_ip_address net) (ni_port net) e
                    in if connection > 0 then
                         (let (res, e) = send_file_patch sys connection (bs_output_path state)
                                (ucast offset) sha256_out e;
                              e = end_connection sys connection e
                          in (if res \<ge> 0 then 1 else 0, state, e))
                       else (0, state, e)))
            else (0, state, e))
      else (0, state, e))"

section \<open>The copy loop\<close>

text \<open>
  One turn of the loop: \<open>Inl\<close> is a return out of it.  The static buffer is an argument
  and a result; what is hashed and written is its first \<open>rd\<close> bytes.
\<close>

definition device_access_step ::
  "'e rd_func \<Rightarrow> 'e wr_func \<Rightarrow> u64 \<Rightarrow> 'e BackupState \<times> bytes \<times> 'e \<Rightarrow>
   int \<times> 'e BackupState \<times> bytes \<times> 'e + 'e BackupState \<times> bytes \<times> 'e" where
  "device_access_step rd_func wr_func to_read = (\<lambda>(state, buf, e).
     (let (rd, buf, e) = rd_func (bs_rd_fd state) buf e
      in if rd = 0 then Inl (SIZE_IS_ZERO, state, buf, e)
         else if rd < 0 then Inl (rd, state, buf, e)
         else
           (let state = (if bs_have_sha state
                then state\<lparr>bs_sha_ctx := sha256_update (bs_sha_ctx state) buf (nat rd)\<rparr> else state);
                (wr, e) = wr_func (bs_wr_fd state) (take (nat rd) buf) e
            in if wr = 0 then Inl (SIZE_IS_ZERO, state, buf, e)
               else if wr < 0 then Inl (wr, state, buf, e)
               else
                 (let state = state\<lparr>bs_total := bs_total state + word_of_int wr\<rparr>;
                      e = (case bs_callback state of
                             None \<Rightarrow> e
                           | Some callback \<Rightarrow> callback (bs_block_device state) (bs_output_path state)
                               (bs_total state) to_read e)
                  in Inr (state, buf, e)))))"

partial_function (option) access_turns ::
  "'e rd_func \<Rightarrow> 'e wr_func \<Rightarrow> u64 \<Rightarrow> 'e BackupState \<times> bytes \<times> 'e \<Rightarrow>
   (int \<times> 'e BackupState \<times> bytes \<times> 'e) option" where
  "access_turns rd_func wr_func to_read s =
     (case device_access_step rd_func wr_func to_read s of
        Inl r \<Rightarrow> Some r
      | Inr s' \<Rightarrow> (if bs_total (fst s') < to_read then access_turns rd_func wr_func to_read s'
                   else Some (0, s')))"

definition device_access_loop ::
  "'e rd_func \<Rightarrow> 'e wr_func \<Rightarrow> 'e BackupState \<Rightarrow> bytes \<Rightarrow> 'e \<Rightarrow>
   (int \<times> 'e BackupState \<times> bytes \<times> 'e) option" where
  "device_access_loop rd_func wr_func state buf e =
     access_turns rd_func wr_func (bs_effective_size state - bs_header_size state) (state, buf, e)"

definition read_null :: "'e rd_func" where
  "read_null fd data e = (int (length data), zeros (length data), e)"

definition read_data_from_image :: "'e dev_sys \<Rightarrow> 'e rd_func" where
  "read_data_from_image sys fd data e =
     (let (rd, data, e) = sceIoRead sys fd data e
      in if rd < 0 then (rd, data, e)
         else
           (let size = length data;
                data = (if nat rd < size then put_field (nat rd, size - nat rd) (zeros (size - nat rd)) data
                        else data)
            in (int size, data, e)))"

definition write_data :: "'e dev_sys \<Rightarrow> 'e wr_func" where
  "write_data sys fd data e = sceIoWrite sys fd data e"

section \<open>Dumping, restoring and wiping\<close>

text \<open>
  \<open>memset(state, 0x00, sizeof(BackupState))\<close>: the file descriptors start as zero, which is
  a valid descriptor; the error paths that close "descriptors not negative" then close zero.
\<close>

definition cleared_sha :: SHA256_CTX where
  "cleared_sha = \<lparr>sha_data = zeros 64, sha_datalen = 0, sha_bitlen = 0, sha_state = replicate 8 0\<rparr>"

definition cleared_state :: "'e BackupState" where
  "cleared_state = \<lparr>bs_block_device = [], bs_output_path = [], bs_total = 0, bs_device_size = 0,
     bs_trim_size = 0, bs_header_size = 0, bs_effective_size = 0, bs_have_sha = False,
     bs_sha_ctx = cleared_sha, bs_rd_fd = 0, bs_wr_fd = 0, bs_format = BACKUP_FORMAT_VCI,
     bs_keys = None, bs_callback = None, bs_net_info = None\<rparr>"

definition setup_state ::
  "bytes \<Rightarrow> 'e dev_sys \<Rightarrow> bytes \<Rightarrow> bytes \<Rightarrow> BackupFormat \<Rightarrow> bytes option \<Rightarrow> NetworkInfo option \<Rightarrow>
   'e progress option \<Rightarrow> 'e \<Rightarrow> int \<times> 'e BackupState \<times> 'e" where
  "setup_state stk sys block_device output_path format keys net_info callback e =
     (let state = cleared_state\<lparr>bs_block_device := block_device, bs_output_path := output_path\<rparr>;
          (res, n, e) = get_device_size sys block_device (Some (bs_device_size state)) e;
          state = state\<lparr>bs_device_size := the n\<rparr>
      in if res < 0 then (res, state, e) else
     (let (res, n, e) = get_trimmed_size stk sys block_device (Some (bs_trim_size state)) e;
          state = state\<lparr>bs_trim_size := the n\<rparr>
      in if res < 0 then (res, state, e) else
     (let (res, n) = get_header_size format (Some (bs_header_size state));
          state = state\<lparr>bs_header_size := the n\<rparr>
      in if res < 0 then (res, state, e) else
     (let (res, n, e) = get_effective_size stk sys block_device format (Some (bs_effective_size state)) e;
          state = state\<lparr>bs_effective_size := the n\<rparr>
      in if res < 0 then (res, state, e) else
     (let state = state\<lparr>bs_format := format, bs_keys := keys, bs_net_info := net_info,
             bs_callback := callback, bs_have_sha := FMT_IS_PSV format\<rparr>;
          state = (if bs_have_sha state then state\<lparr>bs_sha_ctx := sha256_init (bs_sha_ctx state)\<rparr> else state)
      in (res, state, e))))))"

text \<open>What follows the label \<^verbatim>\<open>error\<close> of the two dumps.\<close>

definition dump_net_exit ::
  "'e dev_sys \<Rightarrow> int \<times> 'e BackupState \<times> bytes \<times> 'e \<Rightarrow> int \<times> bytes \<times> 'e" where
  "dump_net_exit sys = (\<lambda>(res, state, buf, e).
     (let e = (if bs_wr_fd state \<ge> 0 then end_connection sys (bs_wr_fd state) e else e);
          e = (if bs_rd_fd state \<ge> 0 then kCloseDevice sys (bs_rd_fd state) e else e)
      in (res, buf, e)))"

definition dump_phys_exit ::
  "'e dev_sys \<Rightarrow> int \<times> 'e BackupState \<times> bytes \<times> 'e \<Rightarrow> int \<times> bytes \<times> 'e" where
  "dump_phys_exit sys = (\<lambda>(res, state, buf, e).
     (let e = (if bs_wr_fd state \<ge> 0 then sceIoClose sys (bs_wr_fd state) e else e);
          e = (if bs_rd_fd state \<ge> 0 then kCloseDevice sys (bs_rd_fd state) e else e);
          e = (if res < 0 then sceIoRemove sys (bs_output_path state) e else e)
      in (res, buf, e)))"

text \<open>The last steps of both dumps, from the copy loop on.\<close>

definition dump_body ::
  "'e dev_sys \<Rightarrow> 'e wr_func \<Rightarrow> 'e BackupState \<Rightarrow> bytes \<Rightarrow> 'e \<Rightarrow>
   (int \<times> 'e BackupState \<times> bytes \<times> 'e) option" where
  "dump_body sys wr_func state buf e =
     do { (res, state, buf, e) \<leftarrow> device_access_loop (kReadDevice sys) wr_func state buf e;
          if res < 0 then Some (res, state, buf, e)
          else if FMT_IS_PSV (bs_format state)
          then (let (res, state, e) = finalize_psv_header sys state e in Some (res, state, buf, e))
          else Some (res, state, buf, e) }"

definition dump_device_network ::
  "'e dev_sys \<Rightarrow> NetworkInfo \<Rightarrow> 'e BackupState \<Rightarrow> bytes \<Rightarrow> 'e \<Rightarrow> (int \<times> bytes \<times> 'e) option" where
  "dump_device_network sys net state buf e =
     map_option (dump_net_exit sys)
      (let (fd, e) = kOpenDevice sys (bs_block_device state) (SCE_O_RDONLY + SCE_O_RDLOCK) e;
           state = state\<lparr>bs_rd_fd := fd\<rparr>
       in if bs_rd_fd state < 0 then Some (bs_rd_fd state, state, buf, e) else
      (let (fd, e) = begin_connection sys (ni_ip_address net) (ni_port net) e;
           state = state\<lparr>bs_wr_fd := fd\<rparr>
       in if bs_wr_fd state < 0 then Some (bs_wr_fd state, state, buf, e) else
      (let (res, e) = begin_file_send sys (bs_wr_fd state) (bs_output_path state) (bs_effective_size state) e
       in if res < 0 then Some (res, state, buf, e) else
      (let (res, e) = create_header sys (file_send_data sys) state e
       in if res < 0 then Some (res, state, buf, e)
          else dump_body sys (file_send_data sys) state buf e))))"

text \<open>The check after opening the device tests the descriptor of the file, still zero.\<close>

definition dump_device_phys ::
  "'e dev_sys \<Rightarrow> 'e BackupState \<Rightarrow> bytes \<Rightarrow> 'e \<Rightarrow> (int \<times> bytes \<times> 'e) option" where
  "dump_device_phys sys state buf e =
     map_option (dump_phys_exit sys)
      (let e = make_directories_excluding_last sys (bs_output_path state) e;
           (fd, e) = kOpenDevice sys (bs_block_device state) (SCE_O_RDONLY + SCE_O_RDLOCK) e;
           state = state\<lparr>bs_rd_fd := fd\<rparr>
       in if bs_wr_fd state < 0 then Some (bs_rd_fd state, state, buf, e) else
      (let (fd, e) = sceIoOpen sys (bs_output_path state) (SCE_O_WRONLY + SCE_O_CREAT + SCE_O_TRUNC) e;
           state = state\<lparr>bs_wr_fd := fd\<rparr>
       in if bs_wr_fd state < 0 then Some (bs_wr_fd state, state, buf, e) else
      (let (res, e) = create_header sys (write_data sys) state e
       in if res < 0 then Some (res, state, buf, e)
          else dump_body sys (write_data sys) state buf e)))"

definition dump_device ::
  "bytes \<Rightarrow> 'e dev_sys \<Rightarrow> bytes \<Rightarrow> bytes \<Rightarrow> BackupFormat \<Rightarrow> bytes option \<Rightarrow> NetworkInfo option \<Rightarrow>
   'e progress option \<Rightarrow> bytes \<Rightarrow> 'e \<Rightarrow> (int \<times> bytes \<times> 'e) option" where
  "dump_device stk sys block_device output_path format keys net_info callback buf e =
     (if \<not> is_module_started sys KMODULE_NAME e then Some (KERNEL_MODULE_FAILED_START, buf, e)
      else
        (let (res, state, e) = setup_state stk sys block_device output_path format keys net_info callback e
         in if res < 0 then Some (res, buf, e)
            else
              (case bs_net_info state of
                 None \<Rightarrow> dump_device_phys sys state buf e
               | Some net \<Rightarrow> dump_device_network sys net state buf e)))"

text \<open>\<^verbatim>\<open>DEVICE_WHITELIST_CHECK\<close> of \<^verbatim>\<open>inc/GcToolKit.h\<close>: the names that pass it.\<close>

definition device_whitelisted :: "bytes \<Rightarrow> bool" where
  "device_whitelisted dev \<longleftrightarrow> impl_memcmp dev (cstr ''sdstor0:gcd'') 11 = 0"

definition restore_exit ::
  "'e dev_sys \<Rightarrow> int \<times> 'e BackupState \<times> bytes \<times> 'e \<Rightarrow> int \<times> bytes \<times> 'e" where
  "restore_exit sys = (\<lambda>(res, state, buf, e).
     (let e = (if bs_rd_fd state \<ge> 0 then sceIoClose sys (bs_rd_fd state) e else e);
          e = (if bs_wr_fd state \<ge> 0 then kCloseDevice sys (bs_wr_fd state) e else e)
      in (res, buf, e)))"

definition restore_device ::
  "bytes \<Rightarrow> 'e dev_sys \<Rightarrow> bytes \<Rightarrow> bytes \<Rightarrow> 'e progress option \<Rightarrow> bytes \<Rightarrow> 'e \<Rightarrow> (int \<times> bytes \<times> 'e) option" where
  "restore_device stk sys block_device input_data callback buf e =
     (if \<not> is_module_started sys KMODULE_NAME e then Some (KERNEL_MODULE_FAILED_START, buf, e)
      else if \<not> device_whitelisted block_device then Some (DEVICE_WHITELIST_FAILED, buf, e)
      else map_option (restore_exit sys)
        (let (res, state, e) =
               setup_state stk sys block_device input_data BACKUP_FORMAT_RAW None None callback e
         in if res < 0 then Some (res, state, buf, e)
            else if bs_effective_size state < get_file_size sys input_data e
            then Some (SIZE_NO_SPACE, state, buf, e) else
        (let (fd, e) = sceIoOpen sys input_data SCE_O_RDONLY e;
             state = state\<lparr>bs_rd_fd := fd\<rparr>
         in if bs_rd_fd state < 0 then Some (bs_rd_fd state, state, buf, e) else
        (let (fd, e) = kOpenDevice sys block_device (SCE_O_WRONLY + SCE_O_WRLOCK) e;
             state = state\<lparr>bs_wr_fd := fd\<rparr>
         in if bs_wr_fd state < 0 then Some (bs_rd_fd state, state, buf, e)
            else device_access_loop (read_data_from_image sys) (kWriteDevice sys) state buf e))))"

definition wipe_exit ::
  "'e dev_sys \<Rightarrow> int \<times> 'e BackupState \<times> bytes \<times> 'e \<Rightarrow> int \<times> bytes \<times> 'e" where
  "wipe_exit sys = (\<lambda>(res, state, buf, e).
     (let e = (if bs_wr_fd state \<ge> 0 then kCloseDevice sys (bs_wr_fd state) e else e)
      in (res, buf, e)))"

definition wipe_device ::
  "bytes \<Rightarrow> 'e dev_sys \<Rightarrow> bytes \<Rightarrow> 'e progress option \<Rightarrow> bytes \<Rightarrow> 'e \<Rightarrow> (int \<times> bytes \<times> 'e) option" where
  "wipe_device stk sys block_device callback buf e =
     (if \<not> is_module_started sys KMODULE_NAME e then Some (KERNEL_MODULE_FAILED_START, buf, e)
      else if \<not> device_whitelisted block_device then Some (DEVICE_WHITELIST_FAILED, buf, e)
      else map_option (wipe_exit sys)
        (let (res, state, e) =
               setup_state stk sys block_device (cstr ''the void'') BACKUP_FORMAT_RAW None None callback e
         in if res < 0 then Some (res, state, buf, e) else
        (let (fd, e) = kOpenDevice sys block_device (SCE_O_WRONLY + SCE_O_WRLOCK) e;
             state = state\<lparr>bs_wr_fd := fd\<rparr>
         in if bs_wr_fd state < 0 then Some (bs_wr_fd state, state, buf, e)
            else device_access_loop read_null (kWriteDevice sys) state buf e)))"

end
