(* ===== verification/Net.thy ===== *)
theory Net
  imports Packet Device
begin

text \<open>
  \<^verbatim>\<open>app/net.c\<close>: the network modules, the connections to the computer, and the packets sent
  over them.  The network functions of the system are the record \<open>net_sys\<close> on an environment
  \<open>'e\<close>.
\<close>

section \<open>The system\<close>

record SceNetSockaddrIn =
  sin_len :: nat
  sin_family :: nat
  sin_port :: u16
  sin_addr :: u32

record 'e net_sys =
  sceSysmoduleLoadModule :: "'e \<Rightarrow> int \<times> 'e"
  sceSysmoduleUnloadModule :: "'e \<Rightarrow> 'e"
  sceNetInit :: "nat \<Rightarrow> 'e \<Rightarrow> int \<times> 'e"
  sceNetTerm :: "'e \<Rightarrow> 'e"
  sceNetCtlInit :: "'e \<Rightarrow> int \<times> 'e"
  sceNetCtlTerm :: "'e \<Rightarrow> 'e"
  sceNetCtlInetGetState :: "int \<Rightarrow> 'e \<Rightarrow> int"
  sceNetInetPton :: "bytes \<Rightarrow> 'e \<Rightarrow> int \<times> u32"
  sceNetHtons :: "u16 \<Rightarrow> u16"
  sceNetSocket :: "bytes \<Rightarrow> 'e \<Rightarrow> int \<times> 'e"
  sceNetConnect :: "int \<Rightarrow> SceNetSockaddrIn \<Rightarrow> 'e \<Rightarrow> int \<times> 'e"
  sceNetSend :: "int \<Rightarrow> bytes \<Rightarrow> 'e \<Rightarrow> int \<times> 'e"
  sceNetShutdown :: "int \<Rightarrow> 'e \<Rightarrow> int \<times> 'e"
  sceNetSocketClose :: "int \<Rightarrow> 'e \<Rightarrow> int \<times> 'e"

definition SCE_NET_AF_INET :: nat where "SCE_NET_AF_INET = 2"
definition SCE_NETCTL_STATE_CONNECTED :: int where "SCE_NETCTL_STATE_CONNECTED = 3"
definition sizeof_SceNetSockaddrIn :: nat where "sizeof_SceNetSockaddrIn = 16"
definition sizeof_memory :: nat where "sizeof_memory = 16 * 1024"

section \<open>Packets\<close>

definition send_packet_of :: "bytes \<Rightarrow> u64 \<Rightarrow> bytes" where
  "send_packet_of filename file_size =
     (let packet = zeros PACKET_SIZE;
          packet = put_field send_magic (le_bytes 2 SEND_FILE_MAGIC) packet;
          packet = strncpy packet (fst send_filename) filename (snd send_filename - 1)
      in put_field send_total_size (le_bytes 8 file_size) packet)"

definition begin_file_send :: "'e net_sys \<Rightarrow> int \<Rightarrow> bytes \<Rightarrow> u64 \<Rightarrow> 'e \<Rightarrow> int \<times> 'e" where
  "begin_file_send sys socket filename file_size e =
     sceNetSend sys socket (send_packet_of filename file_size) e"

text \<open>\<open>data\<close> holds at least \<open>size\<close> bytes.\<close>

definition patch_packet_of :: "bytes \<Rightarrow> u32 \<Rightarrow> bytes \<Rightarrow> u32 \<Rightarrow> bytes" where
  "patch_packet_of filename offset data size_arg =
     (let size_arg = (if size_arg > of_nat (snd patch_patch_data) then of_nat (snd patch_patch_data) else size_arg);
          packet = zeros PACKET_SIZE;
          packet = put_field patch_magic (le_bytes 2 PATCH_FILE_MAGIC) packet;
          packet = put_field patch_offset (le_bytes 8 (ucast offset :: u64)) packet;
          packet = put_field patch_patch_size (le_bytes 4 size_arg) packet;
          packet = put_field (fst patch_patch_data, unat size_arg) (take (unat size_arg) data) packet
      in strncpy packet (fst patch_filename) filename (snd patch_filename - 1))"

definition send_file_patch :: "'e net_sys \<Rightarrow> int \<Rightarrow> bytes \<Rightarrow> u32 \<Rightarrow> bytes \<Rightarrow> u32 \<Rightarrow> 'e \<Rightarrow> int \<times> 'e" where
  "send_file_patch sys socket filename offset data size_arg e =
     sceNetSend sys socket (patch_packet_of filename offset data size_arg) e"

definition file_send_data :: "'e net_sys \<Rightarrow> int \<Rightarrow> bytes \<Rightarrow> 'e \<Rightarrow> int \<times> 'e" where
  "file_send_data sys connection data e = sceNetSend sys connection data e"

section \<open>Starting and stopping\<close>

text \<open>The static flag is the first component of the state.  A step that was not reached counts as failed.\<close>

definition net_unwind :: "'e net_sys \<Rightarrow> int \<Rightarrow> int \<Rightarrow> int \<Rightarrow> 'e \<Rightarrow> 'e" where
  "net_unwind sys load_module net_init net_ctl_init e =
     (let e = (if net_ctl_init \<ge> 0 then sceNetCtlTerm sys e else e);
          e = (if net_init \<ge> 0 then sceNetTerm sys e else e)
      in (if load_module \<ge> 0 then sceSysmoduleUnloadModule sys e else e))"

definition init_network :: "'e net_sys \<Rightarrow> bool \<times> 'e \<Rightarrow> int \<times> bool \<times> 'e" where
  "init_network sys = (\<lambda>(network_initalized, e).
     (let (load_module, e) = sceSysmoduleLoadModule sys e
      in if load_module < 0 then (load_module, network_initalized, net_unwind sys load_module (-1) (-1) e) else
      (let (net_init, e) = sceNetInit sys sizeof_memory e
       in if net_init < 0 then (net_init, network_initalized, net_unwind sys load_module net_init (-1) e) else
      (let (net_ctl_init, e) = sceNetCtlInit sys e
       in if net_ctl_init < 0 then (net_ctl_init, network_initalized, net_unwind sys load_module net_init net_ctl_init e)
          else (0, True, e)))))"

definition term_network :: "'e net_sys \<Rightarrow> bool \<times> 'e \<Rightarrow> bool \<times> 'e" where
  "term_network sys = (\<lambda>(network_initalized, e).
     (False, sceSysmoduleUnloadModule sys (sceNetTerm sys (sceNetCtlTerm sys e))))"

definition is_connected :: "'e net_sys \<Rightarrow> bool \<times> 'e \<Rightarrow> bool" where
  "is_connected sys = (\<lambda>(network_initalized, e).
     (if \<not> network_initalized then False
      else sceNetCtlInetGetState sys 0 e = SCE_NETCTL_STATE_CONNECTED))"

definition check_ip_address_valid :: "'e net_sys \<Rightarrow> bytes \<Rightarrow> 'e \<Rightarrow> bool" where
  "check_ip_address_valid sys ip_address e = (let (res, _) = sceNetInetPton sys ip_address e in \<not> res < 0)"

section \<open>Connections\<close>

definition connection_error :: "'e net_sys \<Rightarrow> int \<Rightarrow> int \<Rightarrow> int \<Rightarrow> 'e \<Rightarrow> int \<times> 'e" where
  "connection_error sys res socket connection e =
     (let e = (if connection \<ge> 0 then snd (sceNetShutdown sys socket e) else e);
          e = (if socket \<ge> 0 then snd (sceNetSocketClose sys socket e) else e)
      in (res, e))"

definition begin_connection :: "'e net_sys \<Rightarrow> bytes \<Rightarrow> u16 \<Rightarrow> 'e \<Rightarrow> int \<times> 'e" where
  "begin_connection sys ip_address port e =
     (let (socket, e) = sceNetSocket sys (cstr ''filesocket'') e
      in if socket < 0 then connection_error sys socket socket (-1) e else
      (let sin = \<lparr>sin_len = sizeof_SceNetSockaddrIn, sin_family = SCE_NET_AF_INET, sin_port = 0, sin_addr = 0\<rparr>;
           (res, addr) = sceNetInetPton sys ip_address e;
           sin = sin\<lparr>sin_addr := addr\<rparr>
       in if res < 0 then connection_error sys res socket (-1) e else
      (let sin = sin\<lparr>sin_port := sceNetHtons sys port\<rparr>;
           (connection, e) = sceNetConnect sys socket sin e
       in if connection < 0 then connection_error sys connection socket connection e
          else (socket, e))))"

definition end_connection :: "'e net_sys \<Rightarrow> int \<Rightarrow> 'e \<Rightarrow> int \<times> 'e" where
  "end_connection sys socket e =
     (let (res, e) = sceNetShutdown sys socket e
      in if res < 0 then (res, e) else
      (let (res, e) = sceNetSocketClose sys socket e
       in if res < 0 then (res, e) else (0, e)))"

section \<open>Lemmas\<close>

lemma init_network_result:
  "init_network sys (flag, e) = (res, flag', e') \<Longrightarrow> res \<le> 0 \<and> (res = 0 \<longrightarrow> flag') \<and> (res < 0 \<longrightarrow> flag' = flag)"
  by (auto simp: init_network_def Let_def split: prod.splits if_splits)

text \<open>A failed start of the network gives back exactly what it had taken, in reverse order.\<close>

lemma init_network_unwinds:
  assumes "init_network sys (flag, e) = (res, flag', e')" "res < 0"
  obtains (module) l e1 where "sceSysmoduleLoadModule sys e = (l, e1)" "l < 0" "e' = e1"
  | (net) l e1 n e2 where "sceSysmoduleLoadModule sys e = (l, e1)" "sceNetInit sys sizeof_memory e1 = (n, e2)" "n < 0"
      "e' = sceSysmoduleUnloadModule sys e2"
  | (ctl) l e1 n e2 c e3 where "sceSysmoduleLoadModule sys e = (l, e1)" "sceNetInit sys sizeof_memory e1 = (n, e2)"
      "sceNetCtlInit sys e2 = (c, e3)" "c < 0" "e' = sceSysmoduleUnloadModule sys (sceNetTerm sys e3)"
  using assms by (auto simp: init_network_def net_unwind_def Let_def split: prod.splits if_splits)

lemma begin_connection_result:
  "begin_connection sys ip port e = (res, e') \<Longrightarrow> 0 \<le> res \<Longrightarrow>
   \<exists>e1. sceNetSocket sys (cstr ''filesocket'') e = (res, e1)"
  by (auto simp: begin_connection_def connection_error_def Let_def split: prod.splits if_splits)

text \<open>What the fields of the packets hold.\<close>

lemma length_send_packet [simp]: "length (send_packet_of name n) = PACKET_SIZE"
  by (simp add: send_packet_of_def Let_def struct_fields PACKET_SIZE_def)

lemma send_packet_fields:
  "get_field packet_magic (send_packet_of name n) = le_bytes 2 SEND_FILE_MAGIC"
  "get_field send_total_size (send_packet_of name n) = le_bytes 8 n"
  "get_field send_filename (send_packet_of name n) = take 0x205 (chars name) @ zeros (0x206 - min 0x205 (strlen name))"
proof -
  let ?p = "put_field (0, 2) (le_bytes 2 SEND_FILE_MAGIC) (zeros PACKET_SIZE)"
  have s: "send_packet_of name n = put_field (0x208, 8) (le_bytes 8 n)
      (put_field (2, 0x205) (take 0x205 (chars name) @ zeros (0x205 - strlen name)) ?p)"
    by (simp add: send_packet_of_def Let_def struct_fields strncpy_field PACKET_SIZE_def)
  show "get_field packet_magic (send_packet_of name n) = le_bytes 2 SEND_FILE_MAGIC"
    "get_field send_total_size (send_packet_of name n) = le_bytes 8 n"
    unfolding s by (simp_all add: struct_fields PACKET_SIZE_def min_def)
  show "get_field send_filename (send_packet_of name n) = take 0x205 (chars name) @ zeros (0x206 - min 0x205 (strlen name))"
    unfolding s send_filename_def
    by (simp add: get_field.simps put_field.simps PACKET_SIZE_def min_def zeros_def flip: replicate_add)
qed

lemma length_patch_packet [simp]: "length data = n \<Longrightarrow> n \<le> 0x1B2 \<Longrightarrow>
   length (patch_packet_of name off data (of_nat n)) = PACKET_SIZE"
  by (simp add: patch_packet_of_def Let_def struct_fields PACKET_SIZE_def word_less_nat_alt unat_of_nat take_bit_nat_eq_self)

lemma patch_packet_fields:
  assumes "length data = n" "n \<le> 0x1B2"
    and p_def: "p = patch_packet_of name off data (of_nat n)"
  shows "get_field packet_magic p = le_bytes 2 PATCH_FILE_MAGIC"
    and "get_field patch_offset p = le_bytes 8 (ucast off :: u64)"
    and "get_field patch_patch_size p = le_bytes 4 (of_nat n :: u32)"
    and "take n (get_field patch_patch_data p) = data"
    and "get_field patch_filename p = take 0x4F (chars name) @ zeros (0x50 - min 0x4F (strlen name))"
proof -
  have n: "unat (of_nat n :: u32) = n" "\<not> (of_nat n :: u32) > of_nat (snd patch_patch_data)"
    using assms(2) by (simp_all add: unat_of_nat take_bit_nat_eq_self word_less_nat_alt patch_patch_data_def)
  let ?p = "put_field patch_patch_size (le_bytes 4 (of_nat n :: u32))
      (put_field patch_offset (le_bytes 8 (ucast off :: u64)) (put_field patch_magic (le_bytes 2 PATCH_FILE_MAGIC) (zeros PACKET_SIZE)))"
  let ?q = "put_field (0xE, n) data ?p"
  have lp: "length ?p = 0x210" by (simp add: struct_fields PACKET_SIZE_def)
  have lq: "length ?q = 0x210" using assms(1,2) lp by simp
  have s: "p = put_field (0x1C0, 0x4F) (take 0x4F (chars name) @ zeros (0x4F - strlen name)) ?q"
    unfolding p_def patch_packet_of_def Let_def
    using n assms(1) lq by (simp add: strncpy_field patch_filename_def patch_patch_data_def)
  have pre: "get_field f p = get_field f ?p" if "fst f + snd f \<le> 0xE" for f
    unfolding s using that assms(1,2) lp lq by (cases f) (simp add: min_def)
  show "get_field packet_magic p = le_bytes 2 PATCH_FILE_MAGIC" "get_field patch_offset p = le_bytes 8 (ucast off :: u64)"
    "get_field patch_patch_size p = le_bytes 4 (of_nat n :: u32)"
    by (subst pre; simp add: struct_fields PACKET_SIZE_def)+
  have "get_field patch_patch_data p = get_field patch_patch_data ?q"
    unfolding s using lq by (simp add: patch_patch_data_def min_def)
  moreover have "take n (get_field (0xE, 0x1B2) ?q) = get_field (0xE, n) ?q" using assms(2) by (simp add: get_field.simps min_def)
  ultimately show "take n (get_field patch_patch_data p) = data"
    using assms(1,2) lp by (simp add: patch_patch_data_def)
  have "get_field (0x20F, 1) p = get_field (0x20F, 1) ?q"
    unfolding s using lq by (simp add: min_def)
  also have "\<dots> = get_field (0x20F, 1) ?p" using assms(1,2) lp by simp
  also have "\<dots> = get_field (0x20F, 1) (zeros PACKET_SIZE)" by (simp add: struct_fields PACKET_SIZE_def)
  also have "\<dots> = [0]" by (simp add: get_field.simps PACKET_SIZE_def zeros_def)
  finally have "get_field (0x1C0 + 0x4F, 1) p = [0]" by simp
  moreover have "get_field (0x1C0, 0x50) p = get_field (0x1C0, 0x4F) p @ get_field (0x1C0 + 0x4F, 1) p"
    using get_field_append [of "0x1C0" "0x4F" p 1] by simp
  moreover have "get_field (0x1C0, 0x4F) p = take 0x4F (chars name) @ zeros (0x4F - strlen name)"
    unfolding s using lq by (simp add: min_def)
  moreover have "zeros (0x4F - strlen name) @ [0] = zeros (0x50 - min 0x4F (strlen name))"
    by (simp add: zeros_def replicate_append_same min_def flip: replicate_Suc) arith
  ultimately show "get_field patch_filename p = take 0x4F (chars name) @ zeros (0x50 - min 0x4F (strlen name))"
    by (simp add: patch_filename_def)
qed

end
