(* ===== verification/PcServer.thy ===== *)
theory PcServer
  imports Packet
begin

text \<open>
  \<^verbatim>\<open>pc/main.c\<close>: the server on the computer that receives dumps.  A connection is the sequence
  of what its reads return; a connection without reads left is one the console has closed,
  whose reads return zero for ever.  The files of the working directory are a map from names
  to contents.
\<close>

section \<open>Names\<close>

definition IS_ASCII :: "u8 \<Rightarrow> bool" where
  "IS_ASCII c \<longleftrightarrow> c < 0x7F"

definition illegal :: "u8 \<Rightarrow> bool" where
  "illegal c \<longleftrightarrow> c \<in> set (map of_char [CHR ''/'', CHR 0x5C, CHR '':'', CHR ''?'', CHR ''*'', CHR 0x22, CHR ''|'',
     CHR ''>'', CHR 0x0A, CHR 0x0D, CHR ''<''])"

definition remove_illegal_at :: "nat \<Rightarrow> bytes \<Rightarrow> bytes" where
  "remove_illegal_at i str =
     (if \<not> IS_ASCII (str ! i) then str else if illegal (str ! i) then str[i := 0x20] else str)"

definition remove_illegal_chars :: "bytes \<Rightarrow> bytes" where
  "remove_illegal_chars str = fold remove_illegal_at [0..<strlen str] str"

section \<open>Sockets and files\<close>

datatype sock_read = Data bytes | Failed

type_synonym connection = "sock_read list"

fun READ_SOCKET :: "connection \<Rightarrow> nat \<Rightarrow> int \<times> bytes \<times> connection" where
  "READ_SOCKET [] n = (0, [], [])"
| "READ_SOCKET (Failed # c) n = (-1, [], c)"
| "READ_SOCKET (Data d # c) n =
     (if length d \<le> n then (int (length d), d, c) else (int n, take n d, Data (drop n d) # c))"

type_synonym files = "bytes \<rightharpoonup> bytes"

text \<open>Writing behind the end of a file fills the gap with zeros; writing nothing does not.\<close>

definition file_put :: "nat \<Rightarrow> bytes \<Rightarrow> bytes \<Rightarrow> bytes" where
  "file_put off data b =
     (if data = [] then b else put_field (off, length data) data (b @ zeros (off - length b)))"

section \<open>Receiving\<close>

text \<open>The buffer is an array of pointers; pointers have eight bytes.\<close>

definition WORKBUF_SIZE :: nat where "WORKBUF_SIZE = 0x20000"
definition sizeof_work_buffer :: nat where "sizeof_work_buffer = WORKBUF_SIZE * 8"

text \<open>
  A failed read is written as the largest size there is, from a buffer of one megabyte: no
  outcome of the C program is defined then.
\<close>

datatype 'a outcome = Done 'a | Undefined

partial_function (option) recv_loop :: "u64 \<Rightarrow> connection \<Rightarrow> u64 \<Rightarrow> bytes \<Rightarrow> bytes outcome option" where
  "recv_loop total_size conn total_read out =
     (case READ_SOCKET conn sizeof_work_buffer of
        (rd, data, conn') \<Rightarrow>
          if rd < 0 then Some Undefined
          else if total_read + word_of_int rd < total_size
               then recv_loop total_size conn' (total_read + word_of_int rd) (out @ data)
               else Some (Done (out @ data)))"

text \<open>\<open>behind\<close> is the stack behind the packet, which a patch larger than its field is read from.\<close>

definition receive_file :: "(bytes \<Rightarrow> bool) \<Rightarrow> bytes \<Rightarrow> connection \<Rightarrow> files \<Rightarrow> files outcome option" where
  "receive_file can_create sendfile conn fs =
     (let name_f = (get_field send_filename sendfile)[snd send_filename - 1 := 0];
          name = chars (remove_illegal_chars name_f)
      in if can_create name then
           map_option (\<lambda>r. case r of Done b \<Rightarrow> Done (fs(name \<mapsto> b)) | Undefined \<Rightarrow> Undefined)
             (recv_loop (le_word (get_field send_total_size sendfile)) conn 0 [])
         else Some (Done fs))"

definition receive_patch :: "bytes \<Rightarrow> bytes \<Rightarrow> files \<Rightarrow> files outcome" where
  "receive_patch behind patchfile fs =
     (let name_f = remove_illegal_chars ((get_field patch_filename patchfile)[snd patch_filename - 1 := 0]);
          patchfile = put_field patch_filename name_f patchfile;
          name = chars name_f;
          n = unat (le_word (get_field patch_patch_size patchfile) :: u32);
          offset = le_word (get_field patch_offset patchfile) :: u64;
          source = drop (fst patch_patch_data) patchfile @ behind
      in case fs name of
           None \<Rightarrow> Done fs
         | Some b \<Rightarrow>
             if sint offset < 0 then Done fs
             else if length source < n then Undefined
             else Done (fs(name \<mapsto> file_put (unat offset) (take n source) b)))"

definition receive_packets :: "(bytes \<Rightarrow> bool) \<Rightarrow> bytes \<Rightarrow> connection \<Rightarrow> files \<Rightarrow> files outcome option" where
  "receive_packets can_create behind conn fs =
     (let packet_data = zeros PACKET_SIZE; (rd, data, conn) = READ_SOCKET conn PACKET_SIZE
      in if rd = -1 then Some (Done fs)
         else if rd = int PACKET_SIZE then
           (let packet_data = put_field (0, PACKET_SIZE) data packet_data;
                magic = (le_word (get_field packet_magic packet_data) :: u16)
            in if magic = SEND_FILE_MAGIC then receive_file can_create packet_data conn fs
               else if magic = PATCH_FILE_MAGIC then Some (receive_patch behind packet_data fs)
               else Some (Done fs))
         else Some (Done fs))"

text \<open>The accept loop, one connection after the other.\<close>

fun serve :: "(bytes \<Rightarrow> bool) \<Rightarrow> bytes \<Rightarrow> connection list \<Rightarrow> files \<Rightarrow> files outcome option" where
  "serve can_create behind [] fs = Some (Done fs)"
| "serve can_create behind (conn # conns) fs =
     (case receive_packets can_create behind conn fs of
        Some (Done fs) \<Rightarrow> serve can_create behind conns fs
      | r \<Rightarrow> r)"

section \<open>Lemmas\<close>

text \<open>What the name of a received file becomes.\<close>

definition clean :: "u8 \<Rightarrow> u8" where
  "clean c = (if IS_ASCII c \<and> illegal c then 0x20 else c)"

lemma clean_0 [simp]: "clean 0 = 0" "clean c = 0 \<longleftrightarrow> c = 0"
  by (auto simp: clean_def illegal_def)

lemma clean_step: "n < length s \<Longrightarrow> remove_illegal_at n s = s[n := clean (s ! n)]"
  by (simp add: clean_def remove_illegal_at_def)

lemma fold_clean:
  "n \<le> length str \<Longrightarrow>
   fold remove_illegal_at [0..<n] str = map clean (take n str) @ drop n str"
proof (induction n)
  case (Suc n)
  let ?s = "map clean (take n str) @ drop n str"
  from Suc.prems have n: "n < length str" by simp
  then have "?s ! n = str ! n" by (simp add: nth_append)
  moreover have "?s[n := x] = map clean (take n str) @ x # drop (Suc n) str" for x
  proof -
    have "drop n str = str ! n # drop (Suc n) str" using n by (rule Cons_nth_drop_Suc [symmetric])
    then show ?thesis using n by (simp only: list_update_append length_map length_take) simp
  qed
  moreover have "fold remove_illegal_at [0..<Suc n] str = ?s[n := clean (?s ! n)]"
    using Suc n clean_step [of n ?s] by simp
  ultimately show ?case using n by (simp add: take_Suc_conv_app_nth)
qed simp

lemma remove_illegal_chars_eq:
  "remove_illegal_chars str = map clean (take (strlen str) str) @ drop (strlen str) str"
  using strlen_le [of str] by (simp add: remove_illegal_chars_def fold_clean)

lemma chars_take: "chars str = take (strlen str) str"
  unfolding chars_def strlen_def by (rule takeWhile_eq_take)

lemma chars_remove_illegal: "chars (remove_illegal_chars str) = map clean (chars str)"
proof -
  have r: "remove_illegal_chars str = map clean (chars str) @ drop (strlen str) str"
    by (simp add: remove_illegal_chars_eq flip: chars_take)
  have nz: "c \<noteq> 0" if "c \<in> set (map clean (chars str))" for c
    using that set_chars [of _ str] by auto
  show ?thesis
  proof (cases "strlen str < length str")
    case True
    then have "drop (strlen str) str = 0 # drop (Suc (strlen str)) str"
      using chars_split [OF True] by (metis append_eq_conv_conj length_chars)
    then show ?thesis unfolding r by (simp only:) (rule chars_append_0, rule nz)
  next
    case False
    then have d: "drop (strlen str) str = []" by simp
    have "takeWhile (\<lambda>c. c \<noteq> 0) (map clean (chars str)) = map clean (chars str)"
      unfolding takeWhile_eq_all_conv using nz by blast
    then show ?thesis unfolding r d append_Nil2 by (simp only: chars_def [of "map clean (chars str)"])
  qed
qed

lemma length_remove_illegal [simp]: "length (remove_illegal_chars str) = length str"
  using strlen_le [of str] by (simp add: remove_illegal_chars_eq)

text \<open>The chunks of a stream, as the reads of the server return them.\<close>

definition chunked :: "bytes \<Rightarrow> bytes list \<Rightarrow> bool" where
  "chunked stream cs \<longleftrightarrow> concat cs = stream \<and> (\<forall>c \<in> set cs. c \<noteq> [] \<and> length c \<le> sizeof_work_buffer)"

text \<open>A connection that is closed early is read for ever.\<close>

lemma recv_loop_returns_open: "recv_loop total_size conn total_read out = Some r \<Longrightarrow> conn = [] \<longrightarrow> \<not> total_read < total_size"
proof (induction rule: recv_loop.raw_induct [rotated, consumes 1])
  case (1 recv_loop total_size conn total_read out r)
  then show ?case by (auto split: if_splits)
qed

lemma recv_loop_closed: "total_read < total_size \<Longrightarrow> recv_loop total_size [] total_read out = None"
  using recv_loop_returns_open [of total_size "[]" total_read out] by (cases "recv_loop total_size [] total_read out") auto

lemma recv_loop_short:
  assumes "concat cs = stream" "\<forall>c \<in> set cs. c \<noteq> [] \<and> length c \<le> sizeof_work_buffer"
    and "unat total_read + length stream < unat total_size"
  shows "recv_loop total_size (map Data cs) total_read out = None"
  using assms
proof (induction cs arbitrary: stream total_read out)
  case Nil
  then show ?case by (simp add: recv_loop_closed word_less_nat_alt)
next
  case (Cons c cs)
  let ?t = "total_read + word_of_int (int (length c))"
  have "unat total_read + length c < 2 ^ 64"
    using Cons.prems(1,3) unsigned_less [of total_size, where 'a = nat] by auto
  then have t: "unat ?t = unat total_read + length c"
    by (simp add: unat_word_ariths unat_of_nat)
  have read: "READ_SOCKET (map Data (c # cs)) sizeof_work_buffer = (int (length c), c, map Data cs)"
    using Cons.prems(2) by simp
  have lt: "?t < total_size" using Cons.prems(1,3) t by (auto simp: word_less_nat_alt)
  have "recv_loop total_size (map Data cs) ?t (out @ c) = None"
    using Cons.prems t by (intro Cons.IH [OF refl]) auto
  then show ?case
    using lt by (subst recv_loop.simps, subst read) simp
qed

text \<open>Pieces of any size: a read that is given more than it asked for leaves the rest.\<close>

definition in_pieces :: "bytes \<Rightarrow> connection \<Rightarrow> bool" where
  "in_pieces stream conn \<longleftrightarrow> (\<exists>cs. conn = map Data cs \<and> concat cs = stream \<and> [] \<notin> set cs)"

lemma cutI: "concat cs = stream \<Longrightarrow> [] \<notin> set cs \<Longrightarrow> in_pieces stream (map Data cs)"
  by (auto simp: in_pieces_def)

lemma read_cut:
  assumes "in_pieces stream conn" "stream \<noteq> []" "0 < n"
  obtains k conn' where "READ_SOCKET conn n = (int k, take k stream, conn')" "0 < k" "k \<le> n" "k \<le> length stream"
    "in_pieces (drop k stream) conn'"
proof -
  from assms(1) obtain cs where cs: "conn = map Data cs" "concat cs = stream" "[] \<notin> set cs" by (auto simp: in_pieces_def)
  with assms(2) obtain c r where c: "cs = c # r" "c \<noteq> []" by (cases cs) auto
  show thesis
  proof (cases "length c \<le> n")
    case True
    with c cs show ?thesis by (intro that [of "length c" "map Data r"]) (auto intro: cutI)
  next
    case False
    then have "drop n c \<noteq> []" "n \<le> length c" by simp_all
    with c cs assms(3) False show ?thesis
      by (intro that [of n "map Data (drop n c # r)"] cutI) auto
  qed
qed

lemma recv_loop_cut:
  "in_pieces stream conn \<Longrightarrow> stream \<noteq> [] \<Longrightarrow> unat total_read + length stream = unat total_size \<Longrightarrow>
   recv_loop total_size conn total_read out = Some (Done (out @ stream))"
proof (induction "length stream" arbitrary: stream conn total_read out rule: less_induct)
  case less
  have "0 < sizeof_work_buffer" by (simp add: sizeof_work_buffer_def WORKBUF_SIZE_def)
  from read_cut [OF less.prems(1,2) this] obtain k conn' where
    read: "READ_SOCKET conn sizeof_work_buffer = (int k, take k stream, conn')" and
    k: "0 < k" "k \<le> length stream" and rest: "in_pieces (drop k stream) conn'" by metis
  let ?t = "total_read + word_of_int (int k)"
  have "unat total_read + k < 2 ^ 64"
    using less.prems(3) k(2) unsigned_less [of total_size, where 'a = nat] by auto
  then have t: "unat ?t = unat total_read + k" by (simp add: unat_word_ariths unat_of_nat)
  show ?case
  proof (cases "k = length stream")
    case True
    then have "\<not> ?t < total_size" using less.prems(3) t by (simp add: word_less_nat_alt)
    then show ?thesis using True by (subst recv_loop.simps, subst read) simp
  next
    case False
    then have lt: "?t < total_size" using less.prems(3) k(2) unfolding word_less_nat_alt t by linarith
    have "recv_loop total_size conn' ?t (out @ take k stream) = Some (Done ((out @ take k stream) @ drop k stream))"
      using False k less.prems(3) t by (intro less.hyps rest) simp_all
    then show ?thesis using lt by (subst recv_loop.simps, subst read) simp
  qed
qed

text \<open>The first read returns a whole packet.\<close>

definition header_whole :: "connection \<Rightarrow> bool" where
  "header_whole conn \<longleftrightarrow> fst (READ_SOCKET conn PACKET_SIZE) = int PACKET_SIZE"

lemma whole_header_read:
  assumes "in_pieces (p @ content) conn" "length p = PACKET_SIZE" "header_whole conn"
  obtains conn' where "READ_SOCKET conn PACKET_SIZE = (int PACKET_SIZE, p, conn')" "in_pieces content conn'"
proof -
  have "p @ content \<noteq> []" "0 < PACKET_SIZE" using assms(2) by (auto simp: PACKET_SIZE_def)
  from read_cut [OF assms(1) this] obtain k conn' where
    "READ_SOCKET conn PACKET_SIZE = (int k, take k (p @ content), conn')" "in_pieces (drop k (p @ content)) conn'" by metis
  with assms(2,3) show thesis by (intro that) (auto simp: header_whole_def)
qed

lemma split_header_dropped:
  "in_pieces stream conn \<Longrightarrow> stream \<noteq> [] \<Longrightarrow> \<not> header_whole conn \<Longrightarrow> receive_packets can_create behind conn fs = Some (Done fs)"
  by (auto simp: receive_packets_def header_whole_def Let_def split: prod.split)

text \<open>A whole upload, cut into reads that keep its packet in one piece.\<close>

definition delivers :: "bytes \<Rightarrow> connection \<Rightarrow> bool" where
  "delivers stream conn \<longleftrightarrow>
     (\<exists>cs. conn = Data (take PACKET_SIZE stream) # map Data cs \<and> chunked (drop PACKET_SIZE stream) cs)"

text \<open>The name in a packet's field, terminated and cleaned.\<close>

lemma cleaned_name:
  assumes "field = name @ zeros (n - length name)" "0 \<notin> set name" "length name < n"
  shows "chars (remove_illegal_chars (field[n - 1 := 0])) = map clean name"
proof -
  obtain k where k: "n - length name = Suc k" "n - 1 - length name = k" using assms(3) by (cases "n - length name") auto
  have "field[n - 1 := 0] = name @ zeros (Suc k)"
    unfolding assms(1) using assms(3) k by (intro nth_equalityI) (auto simp: nth_list_update nth_append)
  moreover have "zeros (Suc k) = 0 # zeros k" by (simp add: zeros_def)
  moreover have "chars (name @ 0 # zeros k) = name" using assms(2) by (intro chars_append_0) auto
  ultimately show ?thesis by (simp only: chars_remove_illegal)
qed

lemma receive_upload:
  assumes d: "in_pieces (p @ content) conn" "header_whole conn" and p: "length p = PACKET_SIZE"
    and magic: "get_field packet_magic p = le_bytes 2 SEND_FILE_MAGIC"
    and name_f: "get_field send_filename p = name @ zeros (0x206 - length name)" "0 \<notin> set name" "length name \<le> 0x205"
    and total: "get_field send_total_size p = le_bytes 8 (of_nat (length content) :: u64)"
    and c: "content \<noteq> []" "length content < 2 ^ 64" and ok: "can_create (map clean name)"
  shows "receive_packets can_create behind conn fs = Some (Done (fs(map clean name \<mapsto> content)))"
proof -
  obtain conn' where read: "READ_SOCKET conn PACKET_SIZE = (int PACKET_SIZE, p, conn')" and cs: "in_pieces content conn'"
    by (rule whole_header_read [OF d(1) p d(2)])
  have pk: "put_field (0, PACKET_SIZE) p (zeros PACKET_SIZE) = p" by (rule put_field_all) simp
  have m: "(le_word (get_field packet_magic p) :: u16) = SEND_FILE_MAGIC" by (simp add: magic le_word_bytes)
  have nm: "chars (remove_illegal_chars ((get_field send_filename p)[snd send_filename - 1 := 0])) = map clean name"
    by (rule cleaned_name) (use name_f in \<open>simp_all add: send_filename_def\<close>)
  have "recv_loop (of_nat (length content)) conn' 0 [] = Some (Done ([] @ content))"
    by (rule recv_loop_cut [OF cs c(1)]) (use c in \<open>simp add: unat_of_nat take_bit_nat_eq_self\<close>)
  then show ?thesis
    unfolding receive_packets_def Let_def read prod.case pk m receive_file_def nm
    using ok by (simp add: total le_word_bytes PACKET_SIZE_def)
qed

lemma receive_patch_ok:
  assumes d: "in_pieces p conn" "header_whole conn" and p: "length p = PACKET_SIZE"
    and magic: "get_field packet_magic p = le_bytes 2 PATCH_FILE_MAGIC"
    and name_f: "get_field patch_filename p = name @ zeros (0x50 - length name)" "0 \<notin> set name" "length name \<le> 0x4F"
    and off: "get_field patch_offset p = le_bytes 8 (of_nat off :: u64)" "off < 2 ^ 63"
    and n: "get_field patch_patch_size p = le_bytes 4 (of_nat (length content) :: u32)" "length content \<le> 0x1B2"
    and content: "take (length content) (get_field patch_patch_data p) = content"
    and b: "fs (map clean name) = Some b" "off + length content \<le> length b" "content \<noteq> []"
  shows "receive_packets can_create behind conn fs = Some (Done (fs(map clean name \<mapsto> put_field (off, length content) content b)))"
proof -
  obtain conn' where read: "READ_SOCKET conn PACKET_SIZE = (int PACKET_SIZE, p, conn')"
    using whole_header_read [of p "[]" conn] d p by auto
  have pk: "put_field (0, PACKET_SIZE) p (zeros PACKET_SIZE) = p" by (rule put_field_all) simp
  have m: "(le_word (get_field packet_magic p) :: u16) = PATCH_FILE_MAGIC" by (simp add: magic le_word_bytes)
  let ?nf = "remove_illegal_chars ((get_field patch_filename p)[snd patch_filename - 1 := 0])"
  have nm: "chars ?nf = map clean name"
    by (rule cleaned_name) (use name_f in \<open>simp_all add: patch_filename_def\<close>)
  have nl: "length ?nf = 0x50" using p by (simp add: patch_filename_def PACKET_SIZE_def)
  let ?p = "put_field patch_filename ?nf p"
  have fld: "get_field patch_patch_size ?p = get_field patch_patch_size p" "get_field patch_offset ?p = get_field patch_offset p"
      "get_field patch_patch_data ?p = get_field patch_patch_data p"
    using p nl by (simp_all add: struct_fields PACKET_SIZE_def)
  have un: "unat (of_nat (length content) :: u32) = length content" "unat (of_nat off :: u64) = off"
    using n(2) off(2) by (simp_all add: unat_of_nat take_bit_nat_eq_self)
  have "\<not> bit (unat (of_nat off :: u64)) 63" using off(2) by (simp add: un bit_iff_odd)
  then have pos: "\<not> sint (of_nat off :: u64) < 0"
    using bit_last_iff [of "of_nat off :: u64"] by (simp add: bit_unsigned_iff)
  have src: "take (length content) (drop (fst patch_patch_data) ?p @ behind) = content"
  proof -
    have "take (length content) (take 0x1B2 (drop 0xE ?p)) = content"
      using content fld(3) by (simp add: patch_patch_data_def get_field.simps)
    moreover have "length content \<le> length (drop 0xE ?p)" using n(2) p nl by (simp add: patch_filename_def PACKET_SIZE_def)
    ultimately show ?thesis using n(2) by (simp add: patch_patch_data_def min_def)
  qed
  have "receive_patch behind p fs = Done (fs(map clean name \<mapsto> put_field (off, length content) content b))"
    unfolding receive_patch_def Let_def nm fld off n b option.case
    using un pos src b n(2) p nl
    by (simp add: le_word_bytes file_put_def patch_filename_def patch_patch_data_def PACKET_SIZE_def zeros_def [of 0])
  then show ?thesis
    unfolding receive_packets_def Let_def read prod.case pk m
    by (simp add: PACKET_SIZE_def SEND_FILE_MAGIC_def PATCH_FILE_MAGIC_def)
qed

lemma recv_loop_ends:
  assumes "concat cs = stream" "\<forall>c \<in> set cs. c \<noteq> [] \<and> length c \<le> sizeof_work_buffer"
    and "unat total_size \<le> unat total_read + length stream" "unat total_read + length stream < 2 ^ 64"
  shows "\<exists>b. recv_loop total_size (map Data cs) total_read out = Some (Done b)"
  using assms
proof (induction cs arbitrary: stream total_read out)
  case Nil
  then have "\<not> total_read < total_size" by (simp add: word_less_nat_alt)
  then show ?case by (subst recv_loop.simps) simp
next
  case (Cons c cs)
  let ?t = "total_read + word_of_int (int (length c))"
  have "unat total_read + length c < 2 ^ 64" using Cons.prems(1,4) by auto
  then have t: "unat ?t = unat total_read + length c" by (simp add: unat_word_ariths unat_of_nat)
  have read: "READ_SOCKET (map Data (c # cs)) sizeof_work_buffer = (int (length c), c, map Data cs)"
    using Cons.prems(2) by simp
  show ?case
  proof (cases "?t < total_size")
    case True
    have "\<exists>b. recv_loop total_size (map Data cs) ?t (out @ c) = Some (Done b)"
      using Cons.prems t by (intro Cons.IH [OF refl]) auto
    with True show ?thesis by (subst recv_loop.simps, subst read) simp
  next
    case False
    then show ?thesis by (subst recv_loop.simps, subst read) simp
  qed
qed

text \<open>C27: The thread that receives a file returns if and only if the console sent at least as many
  bytes as it announced: when a dump is broken off, the server reads the closed connection for
  ever.\<close>

theorem upload_ends_iff_complete:
  assumes d: "delivers (p @ content) conn" and p: "length p = PACKET_SIZE" and len: "length content < 2 ^ 64"
    and magic: "get_field packet_magic p = le_bytes 2 SEND_FILE_MAGIC"
    and ok: "can_create (chars (remove_illegal_chars ((get_field send_filename p)[snd send_filename - 1 := 0])))"
  shows "receive_packets can_create behind conn fs \<noteq> None \<longleftrightarrow>
    unat (le_word (get_field send_total_size p) :: u64) \<le> length content"
proof -
  from d p obtain cs where conn: "conn = Data p # map Data cs" and cs: "chunked content cs"
    by (auto simp: delivers_def)
  let ?n = "le_word (get_field send_total_size p) :: u64"
  have "recv_loop ?n (map Data cs) 0 [] \<noteq> None \<longleftrightarrow> unat ?n \<le> length content"
    using recv_loop_ends [of cs content ?n 0 "[]"] recv_loop_short [of cs content 0 ?n "[]"] cs len
    by (cases "unat ?n \<le> length content") (auto simp: chunked_def)
  moreover have "READ_SOCKET conn PACKET_SIZE = (int PACKET_SIZE, p, map Data cs)" using p by (simp add: conn)
  moreover have "put_field (0, PACKET_SIZE) p (zeros PACKET_SIZE) = p" by (rule put_field_all) simp
  ultimately show ?thesis
    using ok by (simp add: receive_packets_def receive_file_def Let_def magic PACKET_SIZE_def)
qed

theorem upload_ends_iff_complete_witness:
  "receive_packets (\<lambda>n. True) [] [Data (put_field send_total_size (le_bytes 8 (3 :: u64))
      (put_field send_magic (le_bytes 2 SEND_FILE_MAGIC) (zeros PACKET_SIZE))), Data [1, 2]] Map.empty = None"
proof -
  let ?p = "put_field send_total_size (le_bytes 8 (3 :: u64)) (put_field send_magic (le_bytes 2 SEND_FILE_MAGIC) (zeros PACKET_SIZE))"
  have p: "length ?p = PACKET_SIZE" "get_field packet_magic ?p = le_bytes 2 SEND_FILE_MAGIC"
    "(le_word (get_field send_total_size ?p) :: u64) = 3"
    by (simp_all add: struct_fields PACKET_SIZE_def)
  have "chunked [1, 2] [[1, 2 :: u8]]" by (simp add: chunked_def sizeof_work_buffer_def WORKBUF_SIZE_def)
  then have "delivers (?p @ [1, 2]) [Data ?p, Data [1, 2]]"
    using p(1) unfolding delivers_def by (intro exI [of _ "[[1, 2]]"]) simp
  from upload_ends_iff_complete [OF this p(1) _ p(2), where can_create = "\<lambda>n. True" and behind = "[]" and fs = Map.empty]
  show ?thesis by (simp add: p(3))
qed

end
