(* ===== verification/Dump.thy ===== *)
theory Dump
  imports Device "HOL-Library.Stream" "HOL-Library.Extended_Nat"
begin

text \<open>
  What the copy loop of \<^verbatim>\<open>app/device.c\<close> promises: on a source that delivers a stream of
  bytes and a sink that stores what it is given, it ends, reports success, and has copied
  (and hashed) the bytes asked for.  The contract of the source is the locale
  \<open>block_source\<close>; the dumps, the restore and the wipe are instances of it.
\<close>

section \<open>Sources and sinks\<close>

text \<open>
  \<open>src\<close> is what the source has still to deliver, \<open>left\<close> how much of it can be read before
  the end; \<open>out\<close> is what the sink has stored and \<open>room\<close> how much more it takes.
\<close>

definition block_sink ::
  "'e wr_func \<Rightarrow> int \<Rightarrow> ('e \<Rightarrow> bool) \<Rightarrow> ('e \<Rightarrow> u8 stream) \<Rightarrow> ('e \<Rightarrow> enat) \<Rightarrow> ('e \<Rightarrow> bytes) \<Rightarrow> ('e \<Rightarrow> enat) \<Rightarrow> bool" where
  "block_sink wr wfd ok src left out room \<longleftrightarrow>
     (\<forall>e data. ok e \<and> data \<noteq> [] \<and> length data \<le> DEVICE_DUMP_BUFFER_SIZE \<and> 0 < room e \<longrightarrow>
       (\<exists>k e'. wr wfd data e = (int k, e') \<and> enat k = min (enat (length data)) (room e) \<and> ok e' \<and>
          out e' = out e @ take k data \<and> room e' = room e - enat k \<and> src e' = src e \<and> left e' = left e))"

definition quiet ::
  "'e progress option \<Rightarrow> ('e \<Rightarrow> bool) \<Rightarrow> ('e \<Rightarrow> u8 stream) \<Rightarrow> ('e \<Rightarrow> enat) \<Rightarrow> ('e \<Rightarrow> bytes) \<Rightarrow> ('e \<Rightarrow> enat) \<Rightarrow> bool" where
  "quiet cb ok src left out room \<longleftrightarrow>
     (\<forall>f a b c d e. cb = Some f \<and> ok e \<longrightarrow> ok (f a b c d e) \<and> src (f a b c d e) = src e \<and>
        left (f a b c d e) = left e \<and> out (f a b c d e) = out e \<and> room (f a b c d e) = room e)"

lemma enat_diff_le: "enat d \<le> x \<Longrightarrow> m \<le> d \<Longrightarrow> enat (d - m) \<le> x - enat m"
  by (cases x) auto

lemma enat_diff_diff: "enat m \<le> x \<Longrightarrow> enat n \<le> x - enat m \<Longrightarrow> enat (m + n) \<le> x \<and> x - enat m - enat n = x - enat (m + n)"
  by (cases x) auto

lemma enat_diff_eq: "enat m \<le> x \<Longrightarrow> x - enat m = enat n \<Longrightarrow> x = enat (m + n)"
  by (cases x) auto

locale block_source =
  fixes rd :: "'e rd_func" and rfd :: int and ok :: "'e \<Rightarrow> bool" and src :: "'e \<Rightarrow> u8 stream"
    and left :: "'e \<Rightarrow> enat" and out :: "'e \<Rightarrow> bytes" and room :: "'e \<Rightarrow> enat"
  assumes read: "ok e \<Longrightarrow> length buf = DEVICE_DUMP_BUFFER_SIZE \<Longrightarrow> 0 < left e \<Longrightarrow>
    \<exists>n e'. rd rfd buf e = (int n, stake n (src e) @ drop n buf, e') \<and> 0 < n \<and> n \<le> DEVICE_DUMP_BUFFER_SIZE \<and>
      enat n \<le> left e \<and> ok e' \<and> src e' = sdrop n (src e) \<and> left e' = left e - enat n \<and>
      out e' = out e \<and> room e' = room e"
begin

lemma turn:
  assumes sink: "block_sink wr wfd ok src left out room" and cb: "quiet (bs_callback st) ok src left out room"
    and e: "ok e" "length buf = DEVICE_DUMP_BUFFER_SIZE" "0 < left e" "0 < room e"
    and fds: "bs_rd_fd st = rfd" "bs_wr_fd st = wfd"
    and sha: "bs_have_sha st \<longrightarrow> absorbed (bs_sha_ctx st) msg"
  shows "\<exists>r m st' buf' e'. device_access_step rd wr to_read (st, buf, e) = Inr (st', buf', e') \<and>
    0 < m \<and> m \<le> r \<and> r \<le> DEVICE_DUMP_BUFFER_SIZE \<and> enat r \<le> left e \<and> enat m \<le> room e \<and>
    (m = r \<or> room e = enat m) \<and> ok e' \<and> length buf' = DEVICE_DUMP_BUFFER_SIZE \<and>
    src e' = sdrop r (src e) \<and> left e' = left e - enat r \<and> out e' = out e @ stake m (src e) \<and>
    room e' = room e - enat m \<and> (bs_have_sha st \<longrightarrow> absorbed (bs_sha_ctx st') (msg @ stake r (src e))) \<and>
    st' = st\<lparr>bs_total := bs_total st + of_nat m, bs_sha_ctx := bs_sha_ctx st'\<rparr>"
proof -
  from read [OF e(1-3)] obtain r e1 where
    r: "rd rfd buf e = (int r, stake r (src e) @ drop r buf, e1)" "0 < r" "r \<le> DEVICE_DUMP_BUFFER_SIZE"
      "enat r \<le> left e" and e1: "ok e1" "src e1 = sdrop r (src e)" "left e1 = left e - enat r" "out e1 = out e"
      "room e1 = room e"
    by blast
  let ?buf = "stake r (src e) @ drop r buf" and ?data = "stake r (src e)"
  let ?st = "if bs_have_sha st then st\<lparr>bs_sha_ctx := sha256_update (bs_sha_ctx st) ?buf r\<rparr> else st"
  have "?data \<noteq> []" "length ?data \<le> DEVICE_DUMP_BUFFER_SIZE" using r(2,3) by (cases r, simp_all)+
  with sink e1 e(4) obtain m e2 where
    m: "wr wfd ?data e1 = (int m, e2)" "enat m = min (enat r) (room e)" and
    e2: "ok e2" "out e2 = out e @ take m ?data" "room e2 = room e - enat m" "src e2 = src e1" "left e2 = left e1"
    unfolding block_sink_def by (metis length_stake)
  let ?e3 = "case bs_callback st of None \<Rightarrow> e2 | Some f \<Rightarrow>
      f (bs_block_device st) (bs_output_path st) (bs_total st + of_nat m) to_read e2"
  obtain e3 where e3_def: "e3 = ?e3" by blast
  then have e3: "ok e3 \<and> src e3 = src e2 \<and> left e3 = left e2 \<and> out e3 = out e2 \<and> room e3 = room e2"
    using cb e2(1) by (auto simp: quiet_def split: option.split)
  have m_r: "m \<le> r" "0 < m" "m = r \<or> room e = enat m" "enat m \<le> room e"
    using m(2) r(2) e(4) by (cases "room e"; auto simp: min_def zero_enat_def split: if_splits)+
  obtain st' where st'_def: "st' = ?st\<lparr>bs_total := bs_total st + of_nat m\<rparr>" by blast
  have step: "device_access_step rd wr to_read (st, buf, e) = Inr (st', ?buf, e3)"
    unfolding e3_def st'_def using r(1,2) m(1) m_r(2) fds
    by (cases "bs_callback st"; simp add: device_access_step_def Let_def)
  have buf: "length ?buf = DEVICE_DUMP_BUFFER_SIZE" using e(2) r(3) by simp
  have "absorbed (sha256_update (bs_sha_ctx st) ?buf r) (msg @ take r ?buf)" if "bs_have_sha st"
    by (rule absorbed_update [OF sha [rule_format, OF that]]) simp
  then have abs: "bs_have_sha st \<longrightarrow> absorbed (bs_sha_ctx st') (msg @ ?data)"
    by (simp add: st'_def)
  have st: "st' = st\<lparr>bs_total := bs_total st + of_nat m, bs_sha_ctx := bs_sha_ctx st'\<rparr>"
    by (simp add: st'_def)
  have out: "out e3 = out e @ stake m (src e)" using e3 e2(2) m_r(1) by (simp add: take_stake min_absorb1)
  have "ok e3" "src e3 = sdrop r (src e)" "left e3 = left e - enat r" "room e3 = room e - enat m"
    using e1 e2 e3 by simp_all
  with step m_r r(3,4) buf out abs st show ?thesis by blast
qed

lemma turns:
  assumes sink: "block_sink wr wfd ok src left out room"
    and N: "unat (to_read :: u64) + DEVICE_DUMP_BUFFER_SIZE \<le> 2 ^ 64"
  shows "d = unat to_read - unat (bs_total st) \<Longrightarrow> 0 < d \<Longrightarrow> enat d \<le> left e \<Longrightarrow> enat d \<le> room e \<Longrightarrow>
    ok e \<Longrightarrow> length buf = DEVICE_DUMP_BUFFER_SIZE \<Longrightarrow> quiet (bs_callback st) ok src left out room \<Longrightarrow>
    bs_rd_fd st = rfd \<Longrightarrow> bs_wr_fd st = wfd \<Longrightarrow> (bs_have_sha st \<longrightarrow> absorbed (bs_sha_ctx st) msg) \<Longrightarrow>
    \<exists>r m st' buf' e'. access_turns rd wr to_read (st, buf, e) = Some (0, st', buf', e') \<and>
      d \<le> m \<and> m \<le> r \<and> r < d + DEVICE_DUMP_BUFFER_SIZE \<and> enat r \<le> left e \<and> enat m \<le> room e \<and>
      (m = r \<or> room e = enat m) \<and> ok e' \<and> length buf' = DEVICE_DUMP_BUFFER_SIZE \<and>
      src e' = sdrop r (src e) \<and> left e' = left e - enat r \<and> out e' = out e @ stake m (src e) \<and>
      room e' = room e - enat m \<and> (bs_have_sha st \<longrightarrow> absorbed (bs_sha_ctx st') (msg @ stake r (src e))) \<and>
      st' = st\<lparr>bs_total := bs_total st + of_nat m, bs_sha_ctx := bs_sha_ctx st'\<rparr>"
proof (induction d arbitrary: st buf e msg rule: less_induct)
  case (less d)
  from less.prems(2-4) have pos: "0 < left e" "0 < room e" by (cases "left e"; cases "room e"; simp add: zero_enat_def)+
  obtain r m st1 buf1 e1 where
    step: "device_access_step rd wr to_read (st, buf, e) = Inr (st1, buf1, e1)"
    and m: "0 < m" "m \<le> r" "r \<le> DEVICE_DUMP_BUFFER_SIZE" "enat r \<le> left e" "enat m \<le> room e"
      "m = r \<or> room e = enat m"
    and e1: "ok e1" "length buf1 = DEVICE_DUMP_BUFFER_SIZE" "src e1 = sdrop r (src e)" "left e1 = left e - enat r"
      "out e1 = out e @ stake m (src e)" "room e1 = room e - enat m"
    and abs: "bs_have_sha st \<longrightarrow> absorbed (bs_sha_ctx st1) (msg @ stake r (src e))"
    and st1: "st1 = st\<lparr>bs_total := bs_total st + of_nat m, bs_sha_ctx := bs_sha_ctx st1\<rparr>"
    using turn [OF sink less.prems(7,5,6) pos less.prems(8,9,10), of to_read]
    by (elim exE conjE) (rule that; assumption)
  have total: "unat (bs_total st1) = unat (bs_total st) + m"
  proof -
    have "unat (bs_total st) + m < 2 ^ 64" using less.prems(1,2) m(2,3) N by linarith
    then have "unat (bs_total st + of_nat m) = unat (bs_total st) + m"
      by (simp add: unat_word_ariths unat_of_nat take_bit_nat_eq_self mod_simps)
    then show ?thesis by (subst st1) simp
  qed
  show ?case
  proof (cases "d \<le> m")
    case True
    then have "\<not> bs_total st1 < to_read" using total less.prems(1) by (simp add: word_less_nat_alt)
    then have run: "access_turns rd wr to_read (st, buf, e) = Some (0, st1, buf1, e1)"
      by (subst access_turns.simps) (simp add: step)
    have "r < d + DEVICE_DUMP_BUFFER_SIZE" using m(3) less.prems(2) by linarith
    with run True m e1 abs st1 show ?thesis by blast
  next
    case False
    then have lt: "bs_total st1 < to_read" using total less.prems(1) by (simp add: word_less_nat_alt)
    then have run: "access_turns rd wr to_read (st, buf, e) = access_turns rd wr to_read (st1, buf1, e1)"
      by (subst access_turns.simps) (simp add: step)
    have mr: "m = r" using m(6) False less.prems(4) by auto
    have f1: "bs_callback st1 = bs_callback st" "bs_rd_fd st1 = bs_rd_fd st" "bs_wr_fd st1 = bs_wr_fd st"
        "bs_have_sha st1 = bs_have_sha st"
      by (subst st1, simp)+
    have left1: "enat (d - m) \<le> left e1"
      unfolding e1(4) mr [symmetric] using less.prems(3) False by (intro enat_diff_le) simp_all
    have room1: "enat (d - m) \<le> room e1"
      unfolding e1(6) using less.prems(4) False by (intro enat_diff_le) simp_all
    have "d - m < d" "d - m = unat to_read - unat (bs_total st1)" "0 < d - m"
      using m(1) False less.prems(1,2) total by simp_all
    note d = this
    have q: "quiet (bs_callback st1) ok src left out room" "bs_rd_fd st1 = rfd" "bs_wr_fd st1 = wfd"
      "bs_have_sha st1 \<longrightarrow> absorbed (bs_sha_ctx st1) (msg @ stake r (src e))"
      using less.prems(7-9) abs f1 by simp_all
    from less.IH [OF d left1 room1 e1(1,2) q] obtain r2 m2 st2 buf2 e2 where
      run2: "access_turns rd wr to_read (st1, buf1, e1) = Some (0, st2, buf2, e2)"
      and m2: "d - m \<le> m2" "m2 \<le> r2" "r2 < d - m + DEVICE_DUMP_BUFFER_SIZE" "enat r2 \<le> left e1"
        "enat m2 \<le> room e1" "m2 = r2 \<or> room e1 = enat m2"
      and e2: "ok e2" "length buf2 = DEVICE_DUMP_BUFFER_SIZE" "src e2 = sdrop r2 (src e1)"
        "left e2 = left e1 - enat r2" "out e2 = out e1 @ stake m2 (src e1)" "room e2 = room e1 - enat m2"
      and abs2: "bs_have_sha st1 \<longrightarrow> absorbed (bs_sha_ctx st2) ((msg @ stake r (src e)) @ stake r2 (src e1))"
      and st2: "st2 = st1\<lparr>bs_total := bs_total st1 + of_nat m2, bs_sha_ctx := bs_sha_ctx st2\<rparr>"
      by (elim exE conjE) (rule that; assumption)
    have st: "st2 = st\<lparr>bs_total := bs_total st + of_nat (m + m2), bs_sha_ctx := bs_sha_ctx st2\<rparr>"
      by (subst st2, subst st1, subst (2) st1) (simp add: add.assoc)
    have l: "enat (r + r2) \<le> left e" "left e2 = left e - enat (r + r2)"
      using enat_diff_diff [OF m(4) m2(4) [unfolded e1(4)]] e2(4) e1(4) by simp_all
    have ro: "enat (m + m2) \<le> room e" "room e2 = room e - enat (m + m2)"
      using enat_diff_diff [OF m(5) m2(5) [unfolded e1(6)]] e2(6) e1(6) by simp_all
    have eq: "m + m2 = r + r2 \<or> room e = enat (m + m2)"
      using m2(6) enat_diff_eq [OF m(5)] e1(6) mr by auto
    have sr: "src e2 = sdrop (r + r2) (src e)" "out e2 = out e @ stake (m + m2) (src e)"
        "bs_have_sha st \<longrightarrow> absorbed (bs_sha_ctx st2) (msg @ stake (r + r2) (src e))"
      using e2(3,5) e1(3,5) abs2 [unfolded f1] mr by (simp_all add: sdrop_add flip: stake_add)
    have ineq: "d \<le> m + m2" "m + m2 \<le> r + r2" "r + r2 < d + DEVICE_DUMP_BUFFER_SIZE"
      using m2(1-3) mr False by linarith+
    from run run2 ineq l ro eq sr st e2(1,2) show ?thesis by (metis (no_types))
  qed
qed

lemma loop:
  assumes "block_sink wr wfd ok src left out room" "quiet (bs_callback st) ok src left out room"
    and "d = unat (bs_effective_size st - bs_header_size st)" "0 < d" "d + DEVICE_DUMP_BUFFER_SIZE \<le> 2 ^ 64"
    and "bs_total st = 0" "enat d \<le> left e" "enat d \<le> room e" "ok e" "length buf = DEVICE_DUMP_BUFFER_SIZE"
    and "bs_rd_fd st = rfd" "bs_wr_fd st = wfd" "bs_have_sha st \<longrightarrow> absorbed (bs_sha_ctx st) []"
  obtains r m st' buf' e' where "device_access_loop rd wr st buf e = Some (0, st', buf', e')"
    "d \<le> m" "m \<le> r" "r < d + DEVICE_DUMP_BUFFER_SIZE" "enat r \<le> left e" "enat m \<le> room e" "m = r \<or> room e = enat m"
    "ok e'" "length buf' = DEVICE_DUMP_BUFFER_SIZE" "out e' = out e @ stake m (src e)" "room e' = room e - enat m"
    "bs_have_sha st \<longrightarrow> absorbed (bs_sha_ctx st') (stake r (src e))"
    "st' = st\<lparr>bs_total := of_nat m, bs_sha_ctx := bs_sha_ctx st'\<rparr>"
  unfolding device_access_loop_def
  using turns [of wr wfd "bs_effective_size st - bs_header_size st" d st e buf "[]"] assms
  by simp metis

end

text \<open>\<^verbatim>\<open>read_null\<close> never ends and delivers zeros.\<close>

interpretation null: block_source read_null fd ok "\<lambda>_. sconst 0" "\<lambda>_. \<infinity>" out room
  for fd and ok :: "'e \<Rightarrow> bool" and out room
proof
  fix e :: 'e and buf :: bytes
  assume "ok e" "length buf = DEVICE_DUMP_BUFFER_SIZE"
  moreover have "sdrop n (sconst 0) = (sconst 0 :: u8 stream)" for n by (induction n) simp_all
  moreover have "stake n (sconst 0) = zeros n" for n by (rule nth_equalityI) (simp_all add: stake_nth)
  ultimately show "\<exists>n e'. read_null fd buf e = (int n, stake n (sconst 0) @ drop n buf, e') \<and> 0 < n \<and>
      n \<le> DEVICE_DUMP_BUFFER_SIZE \<and> enat n \<le> \<infinity> \<and> ok e' \<and> sconst 0 = sdrop n (sconst (0 :: u8)) \<and>
      \<infinity> = \<infinity> - enat n \<and> out e' = out e \<and> room e' = room e"
    by (intro exI [of _ DEVICE_DUMP_BUFFER_SIZE] exI [of _ e])
       (simp add: read_null_def DEVICE_DUMP_BUFFER_SIZE_def SECTOR_SIZE_def)
qed

section \<open>The card and the image file\<close>

text \<open>
  What a caller sees of the card, of the file at the path of the image, and of the values
  the kernel module keeps; \<open>view e\<close> reads them off the environment.
\<close>

record io_view =
  sectors :: bytes
  sec_pos :: nat
  cart_secret :: bytes
  cart_hash :: bytes
  img :: "bytes option"
  img_pos :: nat

text \<open>The documented behaviour of the driver on the card \<open>dev\<close>, opened as \<open>dfd\<close>.\<close>

definition card_driver :: "'e dev_sys \<Rightarrow> bytes \<Rightarrow> int \<Rightarrow> ('e \<Rightarrow> 'z io_view_scheme) \<Rightarrow> bool" where
  "card_driver sys dev dfd view \<longleftrightarrow>
     0 \<le> dfd \<and> (\<forall>e. is_module_started sys KMODULE_NAME e) \<and>
     (\<forall>flags e. \<exists>e'. kOpenDevice sys dev flags e = (dfd, e') \<and> view e' = (view e)\<lparr>sec_pos := 0\<rparr>) \<and>
     (\<forall>buf e. \<exists>e'. let v = view e; n = min (length buf) (length (sectors v) - sec_pos v) in
        kReadDevice sys dfd buf e = (int n, get_field (sec_pos v, n) (sectors v) @ drop n buf, e') \<and>
        view e' = v\<lparr>sec_pos := sec_pos v + n\<rparr>) \<and>
     (\<forall>data e. \<exists>e'. let v = view e; n = min (length data) (length (sectors v) - sec_pos v) in
        kWriteDevice sys dfd data e = (int n, e') \<and>
        view e' = v\<lparr>sectors := put_field (sec_pos v, n) (take n data) (sectors v), sec_pos := sec_pos v + n\<rparr>) \<and>
     (\<forall>e. view (kCloseDevice sys dfd e) = view e) \<and>
     (\<forall>old e. \<exists>e' p. kGetDeviceSize sys dev old e = (0, of_nat (length (sectors (view e))), e') \<and>
        view e' = (view e)\<lparr>sec_pos := p\<rparr>) \<and>
     (\<forall>old e. \<exists>e'. kGetCartSecret sys old e = (cart_secret (view e), e') \<and> view e' = view e) \<and>
     (\<forall>old e. \<exists>e'. kGetCartHash sys old e = (cart_hash (view e), e') \<and> view e' = view e)"

text \<open>The documented behaviour of the file \<open>path\<close>, opened as \<open>ffd\<close>.\<close>

definition image_file :: "'e dev_sys \<Rightarrow> bytes \<Rightarrow> int \<Rightarrow> ('e \<Rightarrow> 'z io_view_scheme) \<Rightarrow> bool" where
  "image_file sys path ffd view \<longleftrightarrow>
     0 \<le> ffd \<and> (\<forall>e. view (make_directories_excluding_last sys path e) = view e) \<and>
     (\<forall>e. \<exists>e'. sceIoOpen sys path (SCE_O_WRONLY + SCE_O_CREAT + SCE_O_TRUNC) e = (ffd, e') \<and>
        view e' = (view e)\<lparr>img := Some [], img_pos := 0\<rparr>) \<and>
     (\<forall>e. img (view e) \<noteq> None \<longrightarrow>
        (\<exists>e'. sceIoOpen sys path SCE_O_RDONLY e = (ffd, e') \<and> view e' = (view e)\<lparr>img_pos := 0\<rparr>)) \<and>
     (\<forall>buf e b. img (view e) = Some b \<longrightarrow> (\<exists>e'. let v = view e; n = min (length buf) (length b - img_pos v) in
        sceIoRead sys ffd buf e = (int n, get_field (img_pos v, n) b @ drop n buf, e') \<and>
        view e' = v\<lparr>img_pos := img_pos v + n\<rparr>)) \<and>
     (\<forall>data e b. img (view e) = Some b \<and> img_pos (view e) \<le> length b \<longrightarrow> (\<exists>e'. let v = view e in
        sceIoWrite sys ffd data e = (int (length data), e') \<and>
        view e' = v\<lparr>img := Some (put_field (img_pos v, length data) data b),
                    img_pos := img_pos v + length data\<rparr>)) \<and>
     (\<forall>n e. \<exists>e'. sceIoLseek sys ffd n e = (n, e') \<and> view e' = (view e)\<lparr>img_pos := unat n\<rparr>) \<and>
     (\<forall>e. view (sceIoClose sys ffd e) = view e) \<and>
     (\<forall>e. view (sceIoRemove sys path e) = (view e)\<lparr>img := None\<rparr>) \<and>
     (\<forall>e b. img (view e) = Some b \<longrightarrow> get_file_size sys path e = of_nat (length b))"

text \<open>A progress callback leaves both alone.\<close>

definition unobtrusive :: "'e progress option \<Rightarrow> ('e \<Rightarrow> 'z io_view_scheme) \<Rightarrow> bool" where
  "unobtrusive cb view \<longleftrightarrow> (\<forall>f a b c d e. cb = Some f \<longrightarrow> view (f a b c d e) = view e)"

lemma card_driver_facts:
  assumes "card_driver sys dev dfd view"
  shows "0 \<le> dfd" "is_module_started sys KMODULE_NAME e"
    "\<exists>e'. kOpenDevice sys dev flags e = (dfd, e') \<and> view e' = (view e)\<lparr>sec_pos := 0\<rparr>"
    "view (kCloseDevice sys dfd e) = view e"
    "\<exists>e' p. kGetDeviceSize sys dev old e = (0, of_nat (length (sectors (view e))), e') \<and> view e' = (view e)\<lparr>sec_pos := p\<rparr>"
    "\<exists>e'. kGetCartSecret sys buf e = (cart_secret (view e), e') \<and> view e' = view e"
    "\<exists>e'. kGetCartHash sys buf e = (cart_hash (view e), e') \<and> view e' = view e"
    "n = min (length buf) (length (sectors (view e)) - sec_pos (view e)) \<Longrightarrow>
     \<exists>e'. kReadDevice sys dfd buf e = (int n, get_field (sec_pos (view e), n) (sectors (view e)) @ drop n buf, e') \<and>
       view e' = (view e)\<lparr>sec_pos := sec_pos (view e) + n\<rparr>"
    "n = min (length data) (length (sectors (view e)) - sec_pos (view e)) \<Longrightarrow>
     \<exists>e'. kWriteDevice sys dfd data e = (int n, e') \<and>
       view e' = (view e)\<lparr>sectors := put_field (sec_pos (view e), n) (take n data) (sectors (view e)),
         sec_pos := sec_pos (view e) + n\<rparr>"
  using assms unfolding card_driver_def Let_def by blast+

lemma image_file_facts:
  assumes "image_file sys path ffd view"
  shows "0 \<le> ffd" "view (make_directories_excluding_last sys path e) = view e"
    "\<exists>e'. sceIoOpen sys path (SCE_O_WRONLY + SCE_O_CREAT + SCE_O_TRUNC) e = (ffd, e') \<and>
       view e' = (view e)\<lparr>img := Some [], img_pos := 0\<rparr>"
    "img (view e) = Some b \<Longrightarrow>
     \<exists>e'. sceIoOpen sys path SCE_O_RDONLY e = (ffd, e') \<and> view e' = (view e)\<lparr>img_pos := 0\<rparr>"
    "img (view e) = Some b \<Longrightarrow> n = min (length buf) (length b - img_pos (view e)) \<Longrightarrow>
     \<exists>e'. sceIoRead sys ffd buf e = (int n, get_field (img_pos (view e), n) b @ drop n buf, e') \<and>
       view e' = (view e)\<lparr>img_pos := img_pos (view e) + n\<rparr>"
    "img (view e) = Some b \<Longrightarrow> img_pos (view e) \<le> length b \<Longrightarrow>
     \<exists>e'. sceIoWrite sys ffd data e = (int (length data), e') \<and>
       view e' = (view e)\<lparr>img := Some (put_field (img_pos (view e), length data) data b),
         img_pos := img_pos (view e) + length data\<rparr>"
    "\<exists>e'. sceIoLseek sys ffd off e = (off, e') \<and> view e' = (view e)\<lparr>img_pos := unat off\<rparr>"
    "view (sceIoClose sys ffd e) = view e"
    "img (view e) = Some b \<Longrightarrow> get_file_size sys path e = of_nat (length b)"
  using assms unfolding image_file_def Let_def by blast+

section \<open>Setting up\<close>

lemma get_device_size_ok:
  assumes "card_driver sys dev dfd view"
  obtains e' p where "get_device_size sys dev (Some n) e = (0, Some (of_nat (length (sectors (view e)))), e')"
    "view e' = (view e)\<lparr>sec_pos := p\<rparr>"
proof -
  from card_driver_facts(5) [OF assms] obtain e' p where
    "kGetDeviceSize sys dev n e = (0, of_nat (length (sectors (view e))), e')" "view e' = (view e)\<lparr>sec_pos := p\<rparr>"
    by blast
  with card_driver_facts(2) [OF assms] show ?thesis by (intro that [of e']) (simp_all add: get_device_size_def)
qed

text \<open>
  The size of a trimmed image: the partition table decides whether it is computed, never
  what it is.
\<close>

definition mbr_used :: "bytes \<Rightarrow> bool" where
  "mbr_used c \<longleftrightarrow> SECTOR_SIZE \<le> length c \<and> mbr_valid (take SECTOR_SIZE c) \<and> mbr_end (take SECTOR_SIZE c) \<noteq> 0"

definition trimmed :: "bytes \<Rightarrow> u64" where
  "trimmed c = (if mbr_used c then of_nat (length c) else 0)"

lemma get_trimmed_size_ok:
  assumes drv: "card_driver sys dev dfd view" and stk: "length stk = SECTOR_SIZE"
  obtains e' p where "get_trimmed_size stk sys dev (Some n) e = (0, Some (trimmed (sectors (view e))), e')"
    "view e' = (view e)\<lparr>sec_pos := p\<rparr>"
proof -
  let ?c = "sectors (view e)"
  define k where "k = min SECTOR_SIZE (length ?c)"
  from card_driver_facts(3) [OF drv] obtain e1 where
    e1: "kOpenDevice sys dev (SCE_O_RDONLY + SCE_O_RDLOCK) e = (dfd, e1)" "view e1 = (view e)\<lparr>sec_pos := 0\<rparr>" by blast
  then have "k = min (length stk) (length (sectors (view e1)) - sec_pos (view e1))" by (simp add: k_def stk)
  from card_driver_facts(8) [OF drv this] obtain e2 where
    e2: "kReadDevice sys dfd stk e1 = (int k, get_field (0, k) ?c @ drop k stk, e2)"
      "view e2 = (view e)\<lparr>sec_pos := k\<rparr>"
    using e1(2) by auto
  let ?mbr = "get_field (0, k) ?c @ drop k stk" and ?e3 = "kCloseDevice sys dfd e2"
  have e3: "view ?e3 = (view e)\<lparr>sec_pos := k\<rparr>" using card_driver_facts(4) [OF drv] e2(2) by simp
  let ?sz = "if int k = int SECTOR_SIZE \<and> mbr_valid ?mbr then mbr_end ?mbr else 0"
  have mbr: "?mbr = take SECTOR_SIZE ?c" if "k = SECTOR_SIZE"
    using that stk by (simp add: k_def get_field.simps)
  have used: "\<not> ?sz \<le> 0 \<longleftrightarrow> mbr_used ?c"
    using mbr unfolding mbr_used_def by (auto simp: k_def min_def)
  have run: "get_trimmed_size stk sys dev (Some n) e =
      (if ?sz \<le> 0 then (0, Some ?sz, ?e3) else get_device_size sys dev (Some n) ?e3)"
    using card_driver_facts(1,2) [OF drv] e1(1) e2(1) by (simp add: get_trimmed_size_def Let_def)
  show ?thesis
  proof (cases "mbr_used ?c")
    case False
    with used run have "get_trimmed_size stk sys dev (Some n) e = (0, Some (trimmed ?c), ?e3)"
      by (simp add: trimmed_def)
    with e3 show ?thesis by (rule that [rotated])
  next
    case True
    with used run have run: "get_trimmed_size stk sys dev (Some n) e = get_device_size sys dev (Some n) ?e3"
      by simp
    obtain e4 p where "get_device_size sys dev (Some n) ?e3 = (0, Some (of_nat (length ?c)), e4)"
        "view e4 = (view e)\<lparr>sec_pos := p\<rparr>"
      by (rule get_device_size_ok [OF drv, of n ?e3]) (use e3 in simp)
    with run True show ?thesis by (intro that [of e4 p]) (simp_all add: trimmed_def)
  qed
qed

definition header_bytes :: "BackupFormat \<Rightarrow> nat" where
  "header_bytes fmt = (if FMT_IS_RAW fmt then 0 else 0x200)"

definition copied_size :: "BackupFormat \<Rightarrow> bytes \<Rightarrow> u64" where
  "copied_size fmt c = (if FMT_IS_TRIM fmt then trimmed c else of_nat (length c))"

lemma get_effective_size_ok:
  assumes drv: "card_driver sys dev dfd view" and stk: "length stk = SECTOR_SIZE"
  obtains e' p where "get_effective_size stk sys dev fmt (Some n) e =
      (0, Some (copied_size fmt (sectors (view e)) + of_nat (header_bytes fmt)), e')"
    "view e' = (view e)\<lparr>sec_pos := p\<rparr>"
proof -
  obtain e1 q where e1: "get_device_size sys dev (Some n) e = (0, Some (of_nat (length (sectors (view e)))), e1)"
    "view e1 = (view e)\<lparr>sec_pos := q\<rparr>" by (rule get_device_size_ok [OF drv])
  obtain e2 p where e2: "get_trimmed_size stk sys dev (Some n) e = (0, Some (trimmed (sectors (view e))), e2)"
    "view e2 = (view e)\<lparr>sec_pos := p\<rparr>" by (rule get_trimmed_size_ok [OF drv stk])
  from e1 e2 show ?thesis
    by (intro that [of "if FMT_IS_TRIM fmt then e2 else e1" "if FMT_IS_TRIM fmt then p else q"])
       (cases fmt; simp add: get_effective_size_def get_header_size_def copied_size_def header_bytes_def FMT_IS_RAW_def
          FMT_IS_TRIM_def sizeof_PsvHeader_def sizeof_VciHeader_def)+
qed

definition started_state ::
  "bytes \<Rightarrow> bytes \<Rightarrow> BackupFormat \<Rightarrow> bytes option \<Rightarrow> NetworkInfo option \<Rightarrow> 'e progress option \<Rightarrow> bytes \<Rightarrow> 'e BackupState" where
  "started_state dev path fmt keys net cb c = cleared_state\<lparr>bs_block_device := dev, bs_output_path := path,
     bs_device_size := of_nat (length c), bs_trim_size := trimmed c, bs_header_size := of_nat (header_bytes fmt),
     bs_effective_size := copied_size fmt c + of_nat (header_bytes fmt), bs_format := fmt, bs_keys := keys,
     bs_net_info := net, bs_callback := cb, bs_have_sha := FMT_IS_PSV fmt,
     bs_sha_ctx := (if FMT_IS_PSV fmt then sha256_init cleared_sha else cleared_sha)\<rparr>"

lemma setup_state_ok:
  assumes drv: "card_driver sys dev dfd view" and stk: "length stk = SECTOR_SIZE"
  obtains e' p where "setup_state stk sys dev path fmt keys net cb e =
      (0, started_state dev path fmt keys net cb (sectors (view e)), e')"
    "view e' = (view e)\<lparr>sec_pos := p\<rparr>"
proof -
  let ?c = "sectors (view e)"
  obtain e1 r where e1: "get_device_size sys dev (Some 0) e = (0, Some (of_nat (length ?c)), e1)"
    "view e1 = (view e)\<lparr>sec_pos := r\<rparr>" by (rule get_device_size_ok [OF drv])
  obtain e2 p where e2: "get_trimmed_size stk sys dev (Some 0) e1 = (0, Some (trimmed ?c), e2)"
    "view e2 = (view e)\<lparr>sec_pos := p\<rparr>" by (rule get_trimmed_size_ok [OF drv stk, of 0 e1]) (use e1(2) in simp)
  obtain e3 q where e3: "get_effective_size stk sys dev fmt (Some 0) e2 =
      (0, Some (copied_size fmt ?c + of_nat (header_bytes fmt)), e3)" "view e3 = (view e)\<lparr>sec_pos := q\<rparr>"
    by (rule get_effective_size_ok [OF drv stk, of fmt 0 e2]) (use e2(2) in simp)
  have h: "get_header_size fmt (Some 0) = (0, Some (of_nat (header_bytes fmt)))"
    by (cases fmt; simp add: get_header_size_def header_bytes_def FMT_IS_RAW_def sizeof_PsvHeader_def sizeof_VciHeader_def)
  have "setup_state stk sys dev path fmt keys net cb e = (0, started_state dev path fmt keys net cb ?c, e3)"
    using e1(1) e2(1) e3(1) h by (simp add: setup_state_def started_state_def cleared_state_def Let_def)
  with e3(2) show ?thesis by (rule that [rotated])
qed

section \<open>The card and the image file as sources and sinks\<close>

lemma buffer_size: "DEVICE_DUMP_BUFFER_SIZE = 0x20000"
  by (simp add: DEVICE_DUMP_BUFFER_SIZE_def SECTOR_SIZE_def)

definition card_ok :: "bytes option \<Rightarrow> nat \<Rightarrow> 'z io_view_scheme \<Rightarrow> bool" where
  "card_ok i n v \<longleftrightarrow> length (sectors v) = n \<and> sec_pos v \<le> n \<and> img v = i"

definition image_ok :: "bytes \<Rightarrow> 'z io_view_scheme \<Rightarrow> bool" where
  "image_ok c v \<longleftrightarrow> sectors v = c \<and> sec_pos v \<le> length c \<and> (\<exists>b. img v = Some b \<and> img_pos v = length b)"

lemma card_sink:
  assumes drv: "card_driver sys dev dfd view" and left: "\<And>e. left e = \<infinity>"
  shows "block_sink (kWriteDevice sys) dfd (\<lambda>e. card_ok i n (view e)) (\<lambda>e. S (img_pos (view e))) left
    (\<lambda>e. take (sec_pos (view e)) (sectors (view e))) (\<lambda>e. enat (n - sec_pos (view e)))"
  unfolding block_sink_def
proof (intro allI impI, elim conjE)
  fix e and data :: bytes
  assume ok: "card_ok i n (view e)" and "data \<noteq> []"
  define k where "k = min (length data) (length (sectors (view e)) - sec_pos (view e))"
  from card_driver_facts(9) [OF drv this] obtain e' where
    w: "kWriteDevice sys dfd data e = (int k, e')" and
    v: "view e' = (view e)\<lparr>sectors := put_field (sec_pos (view e), k) (take k data) (sectors (view e)),
         sec_pos := sec_pos (view e) + k\<rparr>" by blast
  have k: "sec_pos (view e) + k \<le> length (sectors (view e))" "k \<le> length data" "k = min (length data) (n - sec_pos (view e))"
    using ok unfolding k_def card_ok_def by auto
  then have "take (sec_pos (view e) + k) (sectors (view e')) =
      take (sec_pos (view e)) (sectors (view e)) @ take k data"
    by (simp add: v put_field.simps)
  moreover have "length (sectors (view e')) = length (sectors (view e))" using k(1,2) by (simp add: v)
  ultimately show "\<exists>k e'. kWriteDevice sys dfd data e = (int k, e') \<and>
      enat k = min (enat (length data)) (enat (n - sec_pos (view e))) \<and> card_ok i n (view e') \<and>
      take (sec_pos (view e')) (sectors (view e')) = take (sec_pos (view e)) (sectors (view e)) @ take k data \<and>
      enat (n - sec_pos (view e')) = enat (n - sec_pos (view e)) - enat k \<and>
      S (img_pos (view e')) = S (img_pos (view e)) \<and> left e' = left e"
    using w ok k by (intro exI [of _ k] exI [of _ e']) (simp add: v card_ok_def left)
qed

lemma card_source:
  assumes drv: "card_driver sys dev dfd view"
  shows "block_source (kReadDevice sys) dfd (\<lambda>e. image_ok c (view e)) (\<lambda>e. drop (sec_pos (view e)) c @- sconst 0)
    (\<lambda>e. enat (length c - sec_pos (view e))) (\<lambda>e. the (img (view e))) (\<lambda>_. \<infinity>)"
proof
  fix e and buf :: bytes
  assume ok: "image_ok c (view e)" and buf: "length buf = DEVICE_DUMP_BUFFER_SIZE" and
    left: "0 < enat (length c - sec_pos (view e))"
  define k where "k = min (length buf) (length (sectors (view e)) - sec_pos (view e))"
  from card_driver_facts(8) [OF drv this] obtain e' where
    r: "kReadDevice sys dfd buf e = (int k, get_field (sec_pos (view e), k) (sectors (view e)) @ drop k buf, e')"
      "view e' = (view e)\<lparr>sec_pos := sec_pos (view e) + k\<rparr>" by blast
  have k: "0 < k" "k \<le> DEVICE_DUMP_BUFFER_SIZE" "sec_pos (view e) + k \<le> length c" "sectors (view e) = c"
    using ok buf left by (auto simp: k_def image_ok_def buffer_size zero_enat_def)
  have "image_ok c (view e')" using ok k r(2) by (auto simp: image_ok_def)
  moreover have "stake k (drop (sec_pos (view e)) c @- sconst 0) = get_field (sec_pos (view e), k) c"
    using k(3) by (simp add: stake_shift get_field.simps)
  moreover have "sdrop k (drop (sec_pos (view e)) c @- sconst 0) = drop (sec_pos (view e')) c @- sconst 0"
    using k(3) r(2) by (simp add: sdrop_shift add.commute)
  ultimately show "\<exists>n e'. kReadDevice sys dfd buf e =
        (int n, stake n (drop (sec_pos (view e)) c @- sconst 0) @ drop n buf, e') \<and> 0 < n \<and>
        n \<le> DEVICE_DUMP_BUFFER_SIZE \<and> enat n \<le> enat (length c - sec_pos (view e)) \<and> image_ok c (view e') \<and>
        drop (sec_pos (view e')) c @- sconst 0 = sdrop n (drop (sec_pos (view e)) c @- sconst 0) \<and>
        enat (length c - sec_pos (view e')) = enat (length c - sec_pos (view e)) - enat n \<and>
        the (img (view e')) = the (img (view e)) \<and> \<infinity> = (\<infinity> :: enat)"
    using r k by (intro exI [of _ k] exI [of _ e']) simp
qed

text \<open>A writer that appends to the image: the open file, or a connection that carries it.\<close>

definition appends :: "'e wr_func \<Rightarrow> int \<Rightarrow> ('e \<Rightarrow> 'z io_view_scheme) \<Rightarrow> bool" where
  "appends wr wfd view \<longleftrightarrow>
     (\<forall>data e b. img (view e) = Some b \<and> img_pos (view e) = length b \<longrightarrow>
        (\<exists>e'. wr wfd data e = (int (length data), e') \<and>
           view e' = (view e)\<lparr>img := Some (b @ data), img_pos := length b + length data\<rparr>))"

lemma image_appends: "image_file sys path ffd view \<Longrightarrow> appends (write_data sys) ffd view"
  unfolding appends_def write_data_def
proof (intro allI impI, elim conjE)
  fix e b and data :: bytes
  assume io: "image_file sys path ffd view" and b: "img (view e) = Some b" "img_pos (view e) = length b"
  then show "\<exists>e'. sceIoWrite sys ffd data e = (int (length data), e') \<and>
      view e' = (view e)\<lparr>img := Some (b @ data), img_pos := length b + length data\<rparr>"
    using image_file_facts(6) [OF io b(1), of data] by (auto simp: put_field.simps)
qed

lemma image_sink:
  assumes wr: "appends wr wfd view"
  shows "block_sink wr wfd (\<lambda>e. image_ok c (view e)) (\<lambda>e. S (sec_pos (view e))) (\<lambda>e. L (sec_pos (view e)))
    (\<lambda>e. the (img (view e))) (\<lambda>_. \<infinity>)"
  unfolding block_sink_def
proof (intro allI impI, elim conjE)
  fix e and data :: bytes
  assume ok: "image_ok c (view e)"
  then obtain b where b: "img (view e) = Some b" "img_pos (view e) = length b" by (auto simp: image_ok_def)
  with wr [unfolded appends_def] obtain e' where
    "wr wfd data e = (int (length data), e')"
    "view e' = (view e)\<lparr>img := Some (b @ data), img_pos := length b + length data\<rparr>"
    by blast
  with ok b show "\<exists>k e'. wr wfd data e = (int k, e') \<and> enat k = min (enat (length data)) \<infinity> \<and>
      image_ok c (view e') \<and> the (img (view e')) = the (img (view e)) @ take k data \<and> (\<infinity> :: enat) = \<infinity> - enat k \<and>
      S (sec_pos (view e')) = S (sec_pos (view e)) \<and> L (sec_pos (view e')) = L (sec_pos (view e))"
    by (intro exI [of _ "length data"] exI [of _ e']) (simp add: image_ok_def)
qed

lemma image_source:
  assumes io: "image_file sys path ffd view"
  shows "block_source (read_data_from_image sys) ffd (\<lambda>e. card_ok (Some b) n (view e))
    (\<lambda>e. drop (img_pos (view e)) b @- sconst 0) (\<lambda>_. \<infinity>)
    (\<lambda>e. take (sec_pos (view e)) (sectors (view e))) (\<lambda>e. enat (n - sec_pos (view e)))"
proof
  fix e and buf :: bytes
  assume ok: "card_ok (Some b) n (view e)" and buf: "length buf = DEVICE_DUMP_BUFFER_SIZE"
  let ?p = "img_pos (view e)"
  define k where "k = min (length buf) (length b - ?p)"
  from ok have "img (view e) = Some b" by (simp add: card_ok_def)
  from image_file_facts(5) [OF io this k_def] obtain e' where
    r: "sceIoRead sys ffd buf e = (int k, get_field (?p, k) b @ drop k buf, e')"
      "view e' = (view e)\<lparr>img_pos := ?p + k\<rparr>" by blast
  let ?out = "put_field (k, length buf - k) (zeros (length buf - k)) (get_field (?p, k) b @ drop k buf)"
  have k: "k \<le> length buf" "k \<le> length b - ?p" "k < length buf \<Longrightarrow> k = length b - ?p" by (auto simp: k_def)
  have zs: "stake j (sconst 0) = zeros j" for j by (rule nth_equalityI) simp_all
  have bytes: "?out = stake (length buf) (drop ?p b @- sconst 0)" if "k < length buf"
    using that k by (simp add: put_field.simps get_field.simps stake_shift zs del: stake_siterate)
  have full: "get_field (?p, k) b = stake (length buf) (drop ?p b @- sconst 0)" if "\<not> k < length buf"
    using that k by (simp add: get_field.simps stake_shift)
  have len: "length (get_field (?p, k) b) = k" using k(2) by (simp add: get_field.simps)
  have run: "read_data_from_image sys ffd buf e =
      (int (length buf), stake (length buf) (drop ?p b @- sconst 0), e')"
    using r(1) k(1,2) bytes full len by (cases "k < length buf") (simp_all add: read_data_from_image_def Let_def)
  have "sdrop (length buf) (drop ?p b @- sconst 0) = drop (img_pos (view e')) b @- sconst 0"
    using k r(2) by (cases "k < length buf") (simp_all add: sdrop_shift add.commute)
  moreover have "card_ok (Some b) n (view e')" using ok r(2) by (simp add: card_ok_def)
  ultimately show "\<exists>m e'. read_data_from_image sys ffd buf e =
        (int m, stake m (drop (img_pos (view e)) b @- sconst 0) @ drop m buf, e') \<and> 0 < m \<and>
        m \<le> DEVICE_DUMP_BUFFER_SIZE \<and> enat m \<le> \<infinity> \<and> card_ok (Some b) n (view e') \<and>
        drop (img_pos (view e')) b @- sconst 0 = sdrop m (drop (img_pos (view e)) b @- sconst 0) \<and>
        \<infinity> = \<infinity> - enat m \<and>
        take (sec_pos (view e')) (sectors (view e')) = take (sec_pos (view e)) (sectors (view e)) \<and>
        enat (n - sec_pos (view e')) = enat (n - sec_pos (view e))"
    using run r(2) buf by (intro exI [of _ "length buf"] exI [of _ e']) (simp add: buffer_size)
qed

lemmas state_fields = started_state_def cleared_state_def header_bytes_def copied_size_def FMT_IS_RAW_def
  FMT_IS_TRIM_def FMT_IS_PSV_def

section \<open>Wiping\<close>

text \<open>C14: wiping a whitelisted card that answers ends, reports success and leaves zeros in every
  byte of the card, whatever its size; the image file is not touched.\<close>

theorem wipe_zeroes_card:
  assumes drv: "card_driver sys dev dfd view" and dev: "device_whitelisted dev"
    and stk: "length stk = SECTOR_SIZE" and buf: "length buf = DEVICE_DUMP_BUFFER_SIZE"
    and card: "sectors (view e) \<noteq> []" "length (sectors (view e)) + DEVICE_DUMP_BUFFER_SIZE \<le> 2 ^ 64"
    and cb: "unobtrusive cb view"
  shows "\<exists>buf' e'. wipe_device stk sys dev cb buf e = Some (0, buf', e') \<and>
    sectors (view e') = zeros (length (sectors (view e))) \<and> img (view e') = img (view e)"
proof -
  define n where "n = length (sectors (view e))"
  let ?st0 = "started_state dev (cstr ''the void'') BACKUP_FORMAT_RAW None None cb (sectors (view e))"
  obtain e1 p where e1: "setup_state stk sys dev (cstr ''the void'') BACKUP_FORMAT_RAW None None cb e = (0, ?st0, e1)"
    "view e1 = (view e)\<lparr>sec_pos := p\<rparr>" by (rule setup_state_ok [OF drv stk])
  from card_driver_facts(3) [OF drv] obtain e2 where
    e2: "kOpenDevice sys dev (SCE_O_WRONLY + SCE_O_WRLOCK) e1 = (dfd, e2)" "view e2 = (view e)\<lparr>sec_pos := 0\<rparr>"
    using e1(2) by (metis io_view.update_convs(2) io_view.surjective)
  let ?st = "?st0\<lparr>bs_wr_fd := dfd\<rparr>"
  have sink: "block_sink (kWriteDevice sys) dfd (\<lambda>e. card_ok (img (view e2)) n (view e)) (\<lambda>_. sconst 0) (\<lambda>_. \<infinity>)
      (\<lambda>e. take (sec_pos (view e)) (sectors (view e))) (\<lambda>e. enat (n - sec_pos (view e)))"
    by (rule card_sink [OF drv, where S = "\<lambda>_. sconst 0"]) simp
  have "unat (of_nat n :: u64) = n" using card(2) by (simp add: n_def buffer_size unat_of_nat take_bit_nat_eq_self)
  then have d: "n = unat (bs_effective_size ?st - bs_header_size ?st)" by (simp add: state_fields n_def)
  have ok: "card_ok (img (view e2)) n (view e2)" by (simp add: card_ok_def e2(2) n_def)
  have q: "quiet (bs_callback ?st) (\<lambda>e. card_ok (img (view e2)) n (view e)) (\<lambda>_. sconst 0) (\<lambda>_. \<infinity>)
      (\<lambda>e. take (sec_pos (view e)) (sectors (view e))) (\<lambda>e. enat (n - sec_pos (view e)))"
    using cb by (simp add: state_fields quiet_def unobtrusive_def)
  obtain r m st' buf' e3 where
    run: "device_access_loop read_null (kWriteDevice sys) ?st buf e2 = Some (0, st', buf', e3)"
    and m: "n \<le> m" "enat m \<le> enat (n - sec_pos (view e2))" and ok3: "card_ok (img (view e2)) n (view e3)"
    and out: "take (sec_pos (view e3)) (sectors (view e3)) =
        take (sec_pos (view e2)) (sectors (view e2)) @ stake m (sconst 0)"
    and st': "st' = ?st\<lparr>bs_total := of_nat m, bs_sha_ctx := bs_sha_ctx st'\<rparr>"
    by (rule null.loop [OF sink q d _ _ _ _ _ ok buf, where fd = 0])
       (use card in \<open>simp_all add: n_def state_fields e2(2)\<close>)
  have "m = n" using m e2(2) by simp
  then have "take (sec_pos (view e3)) (sectors (view e3)) = zeros n"
    unfolding out e2(2) by (intro nth_equalityI) simp_all
  moreover from arg_cong [OF this, of length] ok3 have "sec_pos (view e3) = n" by (simp add: card_ok_def)
  ultimately have zs: "sectors (view e3) = zeros n" using ok3 by (simp add: card_ok_def)
  have "wipe_device stk sys dev cb buf e = Some (wipe_exit sys (0, st', buf', e3))"
    using dev card_driver_facts(1,2) [OF drv] e1(1) e2(1) run
    by (simp add: wipe_device_def Let_def)
  moreover have "bs_wr_fd st' = dfd" by (subst st') simp
  ultimately show ?thesis
    using card_driver_facts(1,4) [OF drv] zs ok3 e2(2) n_def by (simp add: wipe_exit_def card_ok_def)
qed

section \<open>Restoring\<close>

text \<open>C13: restoring an image that fits ends, reports success, and the card then holds the image
  followed by zeros up to the end of the card; the image file keeps its contents.\<close>

theorem restore_writes_image:
  assumes drv: "card_driver sys dev dfd view" and io: "image_file sys path ffd view"
    and dev: "device_whitelisted dev" and stk: "length stk = SECTOR_SIZE"
    and buf: "length buf = DEVICE_DUMP_BUFFER_SIZE" and cb: "unobtrusive cb view"
    and card: "sectors (view e) \<noteq> []" "length (sectors (view e)) + DEVICE_DUMP_BUFFER_SIZE \<le> 2 ^ 64"
    and img: "img (view e) = Some b" "length b \<le> length (sectors (view e))"
  shows "\<exists>buf' e'. restore_device stk sys dev path cb buf e = Some (0, buf', e') \<and>
    sectors (view e') = b @ zeros (length (sectors (view e)) - length b) \<and> img (view e') = Some b"
proof -
  define n where "n = length (sectors (view e))"
  let ?st0 = "started_state dev path BACKUP_FORMAT_RAW None None cb (sectors (view e))"
  let ?S = "\<lambda>p. drop p b @- sconst 0"
  obtain e1 p where e1: "setup_state stk sys dev path BACKUP_FORMAT_RAW None None cb e = (0, ?st0, e1)"
    "view e1 = (view e)\<lparr>sec_pos := p\<rparr>" by (rule setup_state_ok [OF drv stk])
  have "img (view e1) = Some b" using img(1) e1(2) by simp
  from image_file_facts(4) [OF io this] obtain e2 where
    e2: "sceIoOpen sys path SCE_O_RDONLY e1 = (ffd, e2)" "view e2 = (view e)\<lparr>sec_pos := p, img_pos := 0\<rparr>"
    using e1(2) by auto
  from card_driver_facts(3) [OF drv, of "SCE_O_WRONLY + SCE_O_WRLOCK" e2] obtain e3 where
    e3: "kOpenDevice sys dev (SCE_O_WRONLY + SCE_O_WRLOCK) e2 = (dfd, e3)"
    "view e3 = (view e)\<lparr>sec_pos := 0, img_pos := 0\<rparr>" using e2(2) by auto
  let ?st = "?st0\<lparr>bs_rd_fd := ffd, bs_wr_fd := dfd\<rparr>"
  have sink: "block_sink (kWriteDevice sys) dfd (\<lambda>e. card_ok (Some b) n (view e)) (\<lambda>e. ?S (img_pos (view e))) (\<lambda>_. \<infinity>)
      (\<lambda>e. take (sec_pos (view e)) (sectors (view e))) (\<lambda>e. enat (n - sec_pos (view e)))"
    by (rule card_sink [OF drv]) simp
  have un: "unat (of_nat k :: u64) = k" if "k \<le> n" for k
    using card(2) that by (simp add: n_def buffer_size unat_of_nat take_bit_nat_eq_self)
  then have d: "n = unat (bs_effective_size ?st - bs_header_size ?st)" by (simp add: state_fields n_def)
  have ok: "card_ok (Some b) n (view e3)" using img(1) by (simp add: card_ok_def e3(2) n_def)
  have q: "quiet (bs_callback ?st) (\<lambda>e. card_ok (Some b) n (view e)) (\<lambda>e. ?S (img_pos (view e))) (\<lambda>_. \<infinity>)
      (\<lambda>e. take (sec_pos (view e)) (sectors (view e))) (\<lambda>e. enat (n - sec_pos (view e)))"
    using cb by (simp add: state_fields quiet_def unobtrusive_def)
  obtain r m st' buf' e4 where
    run: "device_access_loop (read_data_from_image sys) (kWriteDevice sys) ?st buf e3 = Some (0, st', buf', e4)"
    and m: "n \<le> m" "enat m \<le> enat (n - sec_pos (view e3))" and ok4: "card_ok (Some b) n (view e4)"
    and out: "take (sec_pos (view e4)) (sectors (view e4)) =
        take (sec_pos (view e3)) (sectors (view e3)) @ stake m (?S (img_pos (view e3)))"
    and st': "st' = ?st\<lparr>bs_total := of_nat m, bs_sha_ctx := bs_sha_ctx st'\<rparr>"
    by (rule block_source.loop [OF image_source [OF io] sink q d _ _ _ _ _ ok buf])
       (use card in \<open>simp_all add: n_def state_fields e3(2)\<close>)
  have "m = n" using m e3(2) by simp
  moreover have zs: "stake j (sconst 0) = zeros j" for j by (rule nth_equalityI) simp_all
  ultimately have eq: "take (sec_pos (view e4)) (sectors (view e4)) = b @ zeros (n - length b)"
    unfolding out e3(2) using img(2) n_def by (simp add: stake_shift del: stake_siterate)
  moreover from arg_cong [OF this, of length] ok4 img(2) n_def have "sec_pos (view e4) = n" by (simp add: card_ok_def)
  ultimately have zs: "sectors (view e4) = b @ zeros (n - length b)" using ok4 by (simp add: card_ok_def)
  have "get_file_size sys path e1 = of_nat (length b)"
    by (rule image_file_facts(9) [OF io]) (use img e1(2) in simp)
  then have "\<not> bs_effective_size ?st0 < get_file_size sys path e1"
    using un img(2) n_def by (simp add: state_fields word_less_nat_alt)
  then have "restore_device stk sys dev path cb buf e = Some (restore_exit sys (0, st', buf', e4))"
    using dev card_driver_facts(1,2) [OF drv] image_file_facts(1) [OF io] e1(1) e2(1) e3(1) run
    by (simp add: restore_device_def Let_def)
  moreover have "bs_wr_fd st' = dfd" "bs_rd_fd st' = ffd" by (subst st', simp)+
  ultimately show ?thesis
    using card_driver_facts(1,4) [OF drv] image_file_facts(1,8) [OF io] zs ok4 n_def
    by (simp add: restore_exit_def card_ok_def)
qed

text \<open>a restore or a wipe of a device whose name is not on the whitelist, and any operation
  without the kernel module, returns its error code and does nothing at all.\<close>

theorem guards_before_access:
  "(\<not> is_module_started sys KMODULE_NAME e \<longrightarrow>
      dump_device stk sys dev path fmt keys net cb buf e = Some (KERNEL_MODULE_FAILED_START, buf, e) \<and>
      restore_device stk sys dev path cb buf e = Some (KERNEL_MODULE_FAILED_START, buf, e) \<and>
      wipe_device stk sys dev cb buf e = Some (KERNEL_MODULE_FAILED_START, buf, e)) \<and>
   (is_module_started sys KMODULE_NAME e \<and> \<not> device_whitelisted dev \<longrightarrow>
      restore_device stk sys dev path cb buf e = Some (DEVICE_WHITELIST_FAILED, buf, e) \<and>
      wipe_device stk sys dev cb buf e = Some (DEVICE_WHITELIST_FAILED, buf, e))"
  by (simp add: dump_device_def restore_device_def wipe_device_def)

text \<open>an image larger than the card is refused before anything is written.  The descriptors
  have not been opened, but the cleared state holds zeros, so descriptor zero is closed twice.\<close>

theorem restore_refuses_large_image:
  assumes drv: "card_driver sys dev dfd view" and io: "image_file sys path ffd view"
    and dev: "device_whitelisted dev" and stk: "length stk = SECTOR_SIZE"
    and img: "img (view e) = Some b" "length (sectors (view e)) < length b" "length b < 2 ^ 64"
  shows "\<exists>e'. restore_device stk sys dev path cb buf e =
      Some (SIZE_NO_SPACE, buf, kCloseDevice sys 0 (sceIoClose sys 0 e')) \<and>
    sectors (view e') = sectors (view e) \<and> img (view e') = img (view e)"
proof -
  let ?st = "started_state dev path BACKUP_FORMAT_RAW None None cb (sectors (view e))"
  obtain e1 p where e1: "setup_state stk sys dev path BACKUP_FORMAT_RAW None None cb e = (0, ?st, e1)"
    "view e1 = (view e)\<lparr>sec_pos := p\<rparr>" by (rule setup_state_ok [OF drv stk])
  have "get_file_size sys path e1 = of_nat (length b)"
    by (rule image_file_facts(9) [OF io]) (use img e1(2) in simp)
  then have "bs_effective_size ?st < get_file_size sys path e1"
    using img by (simp add: state_fields word_less_nat_alt unat_of_nat take_bit_nat_eq_self)
  then have "restore_device stk sys dev path cb buf e =
      Some (SIZE_NO_SPACE, buf, kCloseDevice sys 0 (sceIoClose sys 0 e1))"
    using dev card_driver_facts(2) [OF drv] e1(1)
    by (simp add: restore_device_def Let_def restore_exit_def state_fields)
  with e1(2) show ?thesis by auto
qed

section \<open>Dumping\<close>

text \<open>The image formats, as their readers expect them: \<open>image_header\<close> and then the card.\<close>

definition psv_image_header :: "bytes \<Rightarrow> bytes \<Rightarrow> bytes \<Rightarrow> nat \<Rightarrow> bytes" where
  "psv_image_header secret hash sha n =
     [0x50, 0x53, 0x56, 0] @ [1, 0, 0, 0] @ [0, 0, 0, 0] @ secret @ hash @ sha @
     le_bytes 8 (of_nat n :: u64) @ [1, 0, 0, 0, 0, 0, 0, 0] @ zeros 0x190"

definition vci_image_header :: "bytes \<Rightarrow> nat \<Rightarrow> bytes" where
  "vci_image_header keys n =
     [0x56, 0x43, 0x49, 0] @ [1, 0] @ [0, 0] @ le_bytes 8 (of_nat n :: u64) @ keys @ zeros 0x1B0"

definition image_header :: "BackupFormat \<Rightarrow> bytes \<Rightarrow> 'z io_view_scheme \<Rightarrow> bytes \<Rightarrow> bytes" where
  "image_header fmt keys v sha =
     (if FMT_IS_PSV fmt then psv_image_header (cart_secret v) (cart_hash v) sha (length (sectors v))
      else if FMT_IS_VCI fmt then vci_image_header keys (length (sectors v)) else [])"

text \<open>Appending the next field of a header that is zero from there on.\<close>

lemma put_next:
  "length pre = off \<Longrightarrow> length v = len \<Longrightarrow> len \<le> n \<Longrightarrow>
   put_field (off, len) v (pre @ zeros n) = (pre @ v) @ zeros (n - len)"
  by (simp add: put_field.simps)

lemma put_first: "length v = len \<Longrightarrow> len \<le> n \<Longrightarrow> put_field (0, len) v (zeros n) = v @ zeros (n - len)"
  by (simp add: put_field.simps)

lemma put_inside:
  "length pre = off \<Longrightarrow> length old = len \<Longrightarrow> put_field (off, len) v (pre @ old @ post) = pre @ v @ post"
  by (simp add: put_field.simps)

lemma written_all: "0 < n \<Longrightarrow> written n (int n) = 0"
  by (simp add: written_def)

lemma le_one: "le_bytes 4 (1 :: u32) = [1, 0, 0, 0]" "le_bytes 4 (0 :: u32) = [0, 0, 0, 0]"
  "le_bytes 2 (1 :: u16) = [1, 0]" "le_bytes 2 (0 :: u16) = [0, 0]" "le_bytes 8 (1 :: u64) = [1, 0, 0, 0, 0, 0, 0, 0]"
  by (simp_all add: le_bytes_def upt_rec numeral_eq_Suc)

lemma image_write:
  assumes wr: "appends wr ffd view" and v: "img (view e) = Some []" "img_pos (view e) = 0"
  obtains e' where "wr ffd data e = (int (length data), e')"
    "view e' = (view e)\<lparr>img := Some data, img_pos := length data\<rparr>"
  using wr [unfolded appends_def, rule_format, of e "[]" data] v by auto

lemma psv_fields:
  assumes "length secret = 0x20" "length hash = 0x14"
  shows "put_field psv_image_offset (le_bytes 8 (of_nat (0x200 div 0x200) :: u64))
    (put_field psv_image_size (le_bytes 8 (of_nat n :: u64))
    (put_field psv_all_sectors_sha256 (replicate 0x20 0xFF)
    (put_field psv_packet20_sha1 hash
    (put_field psv_cart_secret secret
    (put_field psv_flags (le_bytes 4 PSV_FLAGS)
    (put_field psv_version (le_bytes 4 PSV_VER)
    (put_field psv_magic (take 4 PSV_MAGIC) (zeros 0x200)))))))) =
    psv_image_header secret hash (replicate 0x20 0xFF) n"
proof -
  have magic: "take 4 PSV_MAGIC = [0x50, 0x53, 0x56, 0]" by (simp add: PSV_MAGIC_def cstr_def)
  have m: "put_field psv_magic (take 4 PSV_MAGIC) (zeros 0x200) = [0x50, 0x53, 0x56, 0] @ zeros 0x1FC"
    unfolding magic psv_magic_def by (subst put_first) simp_all
  show ?thesis
    unfolding m
    by (simp add: struct_fields put_next assms PSV_VER_def PSV_FLAGS_def del: append_Cons append_Nil append_assoc)
       (simp add: psv_image_header_def le_one)
qed

lemma create_psv_header_ok:
  assumes drv: "card_driver sys dev dfd view" and wr: "appends wr ffd view"
    and len: "length (cart_secret (view e)) = 0x20" "length (cart_hash (view e)) = 0x14"
    and st: "bs_wr_fd st = ffd" "bs_device_size st = of_nat n" and v: "img (view e) = Some []" "img_pos (view e) = 0"
  obtains e' where "create_psv_header sys wr st e = (0, e')"
    "view e' = (view e)\<lparr>img := Some (psv_image_header (cart_secret (view e)) (cart_hash (view e)) (replicate 0x20 0xFF) n),
       img_pos := 0x200\<rparr>"
proof -
  let ?h = "psv_image_header (cart_secret (view e)) (cart_hash (view e)) (replicate 0x20 0xFF) n"
  let ?p1 = "put_field psv_flags (le_bytes 4 PSV_FLAGS)
      (put_field psv_version (le_bytes 4 PSV_VER) (put_field psv_magic (take 4 PSV_MAGIC) (zeros 0x200)))"
  let ?p2 = "put_field psv_cart_secret (cart_secret (view e)) ?p1"
  from card_driver_facts(6) [OF drv, of "get_field psv_cart_secret ?p1" e] obtain e1 where
    e1: "kGetCartSecret sys (get_field psv_cart_secret ?p1) e = (cart_secret (view e), e1)" "view e1 = view e" by blast
  from card_driver_facts(7) [OF drv, of "get_field psv_packet20_sha1 ?p2" e1] obtain e2 where
    e2: "kGetCartHash sys (get_field psv_packet20_sha1 ?p2) e1 = (cart_hash (view e), e2)" "view e2 = view e"
    using e1(2) by auto
  obtain e3 where e3: "wr ffd ?h e2 = (int (length ?h), e3)"
      "view e3 = (view e)\<lparr>img := Some ?h, img_pos := length ?h\<rparr>"
    by (rule image_write [OF wr, of e2 ?h]) (use e2(2) v in simp_all)
  have h: "length ?h = 0x200" using len by (simp add: psv_image_header_def)
  have "create_psv_header sys wr st e = (0, e3)"
    unfolding create_psv_header_def Let_def sizeof_PsvHeader_def e1(1) e2(1) prod.case psv_fields [OF len, of n] st e3(1) h
    by (simp add: written_def)
  then show ?thesis using e3(2) h by (intro that) simp_all
qed

lemma vci_fields:
  assumes "length keys = 0x40"
  shows "put_field vci_keys keys
    (put_field vci_device_size (le_bytes 8 (of_nat n :: u64))
    (put_field vci_minor_version (le_bytes 2 VCI_MINOR_VER)
    (put_field vci_major_version (le_bytes 2 VCI_MAJOR_VER)
    (put_field vci_magic (take 4 VCI_MAGIC) (zeros 0x200))))) = vci_image_header keys n"
proof -
  have magic: "take 4 VCI_MAGIC = [0x56, 0x43, 0x49, 0]" by (simp add: VCI_MAGIC_def cstr_def)
  have m: "put_field vci_magic (take 4 VCI_MAGIC) (zeros 0x200) = [0x56, 0x43, 0x49, 0] @ zeros 0x1FC"
    unfolding magic vci_magic_def by (subst put_first) simp_all
  show ?thesis
    unfolding m
    by (simp add: struct_fields put_next assms VCI_MAJOR_VER_def VCI_MINOR_VER_def del: append_Cons append_Nil append_assoc)
       (simp add: vci_image_header_def le_one)
qed

lemma create_vci_header_ok:
  assumes wr: "appends wr ffd view" and keys: "bs_keys st = Some keys" "length keys = 0x40"
    and st: "bs_wr_fd st = ffd" "bs_device_size st = of_nat n" and v: "img (view e) = Some []" "img_pos (view e) = 0"
  obtains e' where "create_vci_header wr st e = (0, e')"
    "view e' = (view e)\<lparr>img := Some (vci_image_header keys n), img_pos := 0x200\<rparr>"
proof -
  let ?h = "vci_image_header keys n"
  obtain e3 where e3: "wr ffd ?h e = (int (length ?h), e3)"
      "view e3 = (view e)\<lparr>img := Some ?h, img_pos := length ?h\<rparr>"
    by (rule image_write [OF wr v, of ?h])
  have h: "length ?h = 0x200" using keys by (simp add: vci_image_header_def)
  have "create_vci_header wr st e = (0, e3)"
    unfolding create_vci_header_def Let_def sizeof_VciHeader_def keys(1) option.sel vci_fields [OF keys(2), of n] st e3(1) h
    by (simp add: written_def)
  then show ?thesis using e3(2) h by (intro that) simp_all
qed

definition header_ready :: "BackupFormat \<Rightarrow> bytes \<Rightarrow> 'z io_view_scheme \<Rightarrow> bool" where
  "header_ready fmt keys v \<longleftrightarrow>
     (FMT_IS_PSV fmt \<longrightarrow> length (cart_secret v) = 0x20 \<and> length (cart_hash v) = 0x14) \<and>
     (FMT_IS_VCI fmt \<longrightarrow> length keys = 0x40)"

lemma create_header_ok:
  assumes drv: "card_driver sys dev dfd view" and wr: "appends wr ffd view"
    and ready: "header_ready (bs_format st) keys (view e)" and keys: "bs_keys st = Some keys"
    and st: "bs_wr_fd st = ffd" "bs_device_size st = of_nat (length (sectors (view e)))"
    and v: "img (view e) = Some []" "img_pos (view e) = 0"
  obtains e' where "create_header sys wr st e = (0, e')"
    "view e' = (view e)\<lparr>img := Some (image_header (bs_format st) keys (view e) (replicate 0x20 0xFF)),
       img_pos := header_bytes (bs_format st)\<rparr>"
proof (cases "FMT_IS_PSV (bs_format st)")
  case True
  with ready have "length (cart_secret (view e)) = 0x20" "length (cart_hash (view e)) = 0x14"
    by (simp_all add: header_ready_def)
  then obtain e' where "create_psv_header sys wr st e = (0, e')"
    "view e' = (view e)\<lparr>img := Some (psv_image_header (cart_secret (view e)) (cart_hash (view e)) (replicate 0x20 0xFF)
       (length (sectors (view e)))), img_pos := 0x200\<rparr>"
    by (rule create_psv_header_ok [OF drv wr _ _ st v])
  with True show ?thesis
    by (intro that [of e']) (cases "bs_format st"; simp add: create_header_def image_header_def header_bytes_def
        FMT_IS_RAW_def FMT_IS_PSV_def)+
next
  case psv: False
  show ?thesis
  proof (cases "FMT_IS_VCI (bs_format st)")
    case True
    with ready have "length keys = 0x40" by (simp add: header_ready_def)
    then obtain e' where "create_vci_header wr st e = (0, e')"
      "view e' = (view e)\<lparr>img := Some (vci_image_header keys (length (sectors (view e)))), img_pos := 0x200\<rparr>"
      by (rule create_vci_header_ok [OF wr keys _ st v])
    with True show ?thesis
      by (intro that [of e']) (cases "bs_format st"; simp add: create_header_def image_header_def header_bytes_def
          FMT_IS_RAW_def FMT_IS_PSV_def FMT_IS_VCI_def)+
  next
    case False
    with psv have "bs_format st = BACKUP_FORMAT_RAW"
      by (cases "bs_format st") (auto simp: FMT_IS_PSV_def FMT_IS_VCI_def)
    then show ?thesis using v
      by (intro that [of e])
         (simp_all add: create_header_def image_header_def header_bytes_def FMT_IS_RAW_def FMT_IS_PSV_def FMT_IS_VCI_def)
  qed
qed

lemma length_sha256: "length (fips_sha256 m) = 0x20"
proof -
  have "length (fips_blocks fips_H0 (fips_pad m)) = 8" by (simp add: length_fips_blocks fips_H0_def)
  then show ?thesis
    by (simp add: fips_sha256_def be_bytes_def length_concat comp_def sum_list_triv)
qed

lemma finalize_psv_header_ok:
  assumes io: "image_file sys path ffd view" and abs: "absorbed (bs_sha_ctx st) c"
    and st: "FMT_IS_PSV (bs_format st)" "bs_net_info st = None" "bs_wr_fd st = ffd"
    and v: "img (view e) = Some (psv_image_header secret hash (replicate 0x20 0xFF) n @ c)"
    and len: "length secret = 0x20" "length hash = 0x14"
  obtains ctx e' where "finalize_psv_header sys st e = (0, st\<lparr>bs_sha_ctx := ctx\<rparr>, e')"
    "view e' = (view e)\<lparr>img := Some (psv_image_header secret hash (fips_sha256 c) n @ c), img_pos := 0x60\<rparr>"
proof -
  obtain ctx where fin: "sha256_final (bs_sha_ctx st) (zeros 0x20) = (ctx, fips_sha256 c)"
    using sha256_final_absorbed [OF abs, of "zeros 0x20"] by (cases "sha256_final (bs_sha_ctx st) (zeros 0x20)") simp
  from image_file_facts(7) [OF io, of "0x40" e] obtain e1 where
    e1: "sceIoLseek sys ffd 0x40 e = (0x40, e1)" "view e1 = (view e)\<lparr>img_pos := 0x40\<rparr>" by auto
  let ?h = "psv_image_header secret hash (replicate 0x20 0xFF) n" and ?h' = "psv_image_header secret hash (fips_sha256 c) n"
  have "img (view e1) = Some (?h @ c)" "img_pos (view e1) \<le> length (?h @ c)"
    using v e1(2) len by (simp_all add: psv_image_header_def)
  from image_file_facts(6) [OF io this, of "fips_sha256 c"] obtain e2 where
    e2: "sceIoWrite sys ffd (fips_sha256 c) e1 = (int 0x20, e2)"
      "view e2 = (view e)\<lparr>img := Some (put_field (0x40, 0x20) (fips_sha256 c) (?h @ c)), img_pos := 0x60\<rparr>"
    using e1(2) by (auto simp: length_sha256)
  have "put_field (0x40, 0x20) (fips_sha256 c)
      (([0x50, 0x53, 0x56, 0] @ [1, 0, 0, 0] @ [0, 0, 0, 0] @ secret @ hash) @ replicate 0x20 0xFF @
       le_bytes 8 (of_nat n :: u64) @ [1, 0, 0, 0, 0, 0, 0, 0] @ zeros 0x190 @ c) = ?h' @ c"
    by (subst put_inside) (simp_all add: len psv_image_header_def)
  then have h': "put_field (0x40, 0x20) (fips_sha256 c) (?h @ c) = ?h' @ c"
    by (simp add: psv_image_header_def)
  have "finalize_psv_header sys st e = (0, st\<lparr>bs_sha_ctx := ctx\<rparr>, e2)"
    using st image_file_facts(1) [OF io] fin e1(1) e2(1)
    by (simp add: finalize_psv_header_def Let_def psv_all_sectors_sha256_def written_def)
  with e2(2) h' show ?thesis by (intro that) simp_all
qed

lemma length_image_header:
  "header_ready fmt keys v \<Longrightarrow> length (image_header fmt keys v (replicate 0x20 0xFF)) = header_bytes fmt"
  by (cases fmt; simp add: header_ready_def image_header_def header_bytes_def FMT_IS_PSV_def FMT_IS_VCI_def
      FMT_IS_RAW_def psv_image_header_def vci_image_header_def)

text \<open>The copy loop of a dump: the file grows by the card, and the card is hashed.\<close>

lemma copy_card:
  assumes drv: "card_driver sys dev dfd view" and wr: "appends wr ffd view"
    and buf: "length buf = DEVICE_DUMP_BUFFER_SIZE" and cb: "unobtrusive (bs_callback st) view"
    and c: "c \<noteq> []" "length c + DEVICE_DUMP_BUFFER_SIZE \<le> 2 ^ 64"
    and d: "length c = unat (bs_effective_size st - bs_header_size st)" and tot: "bs_total st = 0"
    and ok: "image_ok c (view e)" and pos: "sec_pos (view e) = 0"
    and fds: "bs_rd_fd st = dfd" "bs_wr_fd st = ffd"
    and abs0: "bs_have_sha st \<longrightarrow> absorbed (bs_sha_ctx st) []"
  obtains st' buf' e' where "device_access_loop (kReadDevice sys) wr st buf e = Some (0, st', buf', e')"
    "img (view e') = Some (the (img (view e)) @ c)" "sectors (view e') = c"
    "bs_have_sha st \<longrightarrow> absorbed (bs_sha_ctx st') c"
    "st' = st\<lparr>bs_total := of_nat (length c), bs_sha_ctx := bs_sha_ctx st'\<rparr>"
proof -
  have q: "quiet (bs_callback st) (\<lambda>e. image_ok c (view e)) (\<lambda>e. drop (sec_pos (view e)) c @- sconst 0)
      (\<lambda>e. enat (length c - sec_pos (view e))) (\<lambda>e. the (img (view e))) (\<lambda>_. \<infinity>)"
    using cb by (simp add: quiet_def unobtrusive_def)
  obtain r m st' buf' e' where
    run: "device_access_loop (kReadDevice sys) wr st buf e = Some (0, st', buf', e')"
    and m: "length c \<le> m" "m \<le> r" "enat r \<le> enat (length c - sec_pos (view e))" and ok': "image_ok c (view e')"
    and out: "the (img (view e')) = the (img (view e)) @ stake m (drop (sec_pos (view e)) c @- sconst 0)"
    and sha: "bs_have_sha st \<longrightarrow> absorbed (bs_sha_ctx st') (stake r (drop (sec_pos (view e)) c @- sconst 0))"
    and st': "st' = st\<lparr>bs_total := of_nat m, bs_sha_ctx := bs_sha_ctx st'\<rparr>"
    by (rule block_source.loop [OF card_source [OF drv] image_sink [OF wr] q d _ _ tot _ _ ok buf fds abs0])
       (use c pos in simp_all)
  have "m = length c" "r = length c" using m pos by simp_all
  with out sha ok' pos st' show ?thesis
    by (intro that [OF run]) (auto simp: stake_shift image_ok_def)
qed

lemma dump_body_ok:
  assumes drv: "card_driver sys dev dfd view" and io: "image_file sys path ffd view"
    and buf: "length buf = DEVICE_DUMP_BUFFER_SIZE" and cb: "unobtrusive (bs_callback st) view"
    and c: "sectors v \<noteq> []" "length (sectors v) + DEVICE_DUMP_BUFFER_SIZE \<le> 2 ^ 64"
    and d: "length (sectors v) = unat (bs_effective_size st - bs_header_size st)" and tot: "bs_total st = 0"
    and ready: "header_ready (bs_format st) keys v"
    and ve: "view e = v\<lparr>sec_pos := 0, img := Some (image_header (bs_format st) keys v (replicate 0x20 0xFF)),
        img_pos := header_bytes (bs_format st)\<rparr>"
    and st: "bs_rd_fd st = dfd" "bs_wr_fd st = ffd" "bs_have_sha st = FMT_IS_PSV (bs_format st)" "bs_net_info st = None"
    and abs0: "bs_have_sha st \<longrightarrow> absorbed (bs_sha_ctx st) []"
  obtains st' buf' e' where "dump_body sys (write_data sys) st buf e = Some (0, st', buf', e')"
    "img (view e') = Some (image_header (bs_format st) keys v (fips_sha256 (sectors v)) @ sectors v)"
    "sectors (view e') = sectors v" "bs_rd_fd st' = dfd" "bs_wr_fd st' = ffd"
proof -
  let ?h = "image_header (bs_format st) keys v (replicate 0x20 0xFF)"
  have ok: "image_ok (sectors v) (view e)" using ready by (simp add: ve image_ok_def length_image_header)
  obtain st1 buf1 e1 where
    run: "device_access_loop (kReadDevice sys) (write_data sys) st buf e = Some (0, st1, buf1, e1)"
    and e1: "img (view e1) = Some (?h @ sectors v)" "sectors (view e1) = sectors v"
      "bs_have_sha st \<longrightarrow> absorbed (bs_sha_ctx st1) (sectors v)"
    and st1: "st1 = st\<lparr>bs_total := of_nat (length (sectors v)), bs_sha_ctx := bs_sha_ctx st1\<rparr>"
    by (rule copy_card [OF drv image_appends [OF io] buf cb c d tot ok _ st(1,2) abs0]) (simp_all add: ve)
  have f: "bs_format st1 = bs_format st" "bs_net_info st1 = None" "bs_rd_fd st1 = dfd" "bs_wr_fd st1 = ffd"
    by (subst st1, simp add: st)+
  show ?thesis
  proof (cases "FMT_IS_PSV (bs_format st)")
    case False
    with run e1 f show ?thesis
      by (intro that [of st1 buf1 e1]) (simp_all add: dump_body_def image_header_def)
  next
    case True
    with ready have len: "length (cart_secret v) = 0x20" "length (cart_hash v) = 0x14" by (simp_all add: header_ready_def)
    from True e1(1) have "img (view e1) = Some (psv_image_header (cart_secret v) (cart_hash v) (replicate 0x20 0xFF)
        (length (sectors v)) @ sectors v)" by (simp add: image_header_def)
    from finalize_psv_header_ok [OF io _ _ f(2,4) this len] e1(3) True st(3) f(1)
    obtain ctx e2 where fin: "finalize_psv_header sys st1 e1 = (0, st1\<lparr>bs_sha_ctx := ctx\<rparr>, e2)"
      "view e2 = (view e1)\<lparr>img := Some (psv_image_header (cart_secret v) (cart_hash v) (fips_sha256 (sectors v))
         (length (sectors v)) @ sectors v), img_pos := 0x60\<rparr>" by auto
    then have "dump_body sys (write_data sys) st buf e = Some (0, st1\<lparr>bs_sha_ctx := ctx\<rparr>, buf1, e2)"
      using True run f(1) by (simp add: dump_body_def)
    then show ?thesis
      by (rule that) (use True fin(2) e1(2) f in \<open>simp_all add: image_header_def\<close>)
  qed
qed

lemma dump_to_file:
  assumes drv: "card_driver sys dev dfd view" and io: "image_file sys path ffd view"
    and stk: "length stk = SECTOR_SIZE" and buf: "length buf = DEVICE_DUMP_BUFFER_SIZE"
    and cb: "unobtrusive cb view" and ready: "header_ready fmt keys (view e)"
    and card: "sectors (view e) \<noteq> []" "length (sectors (view e)) + DEVICE_DUMP_BUFFER_SIZE \<le> 2 ^ 64"
    and trim: "\<not> FMT_IS_TRIM fmt"
  shows "\<exists>buf' e'. dump_device stk sys dev path fmt (Some keys) None cb buf e = Some (0, buf', e') \<and>
    img (view e') = Some (image_header fmt keys (view e) (fips_sha256 (sectors (view e))) @ sectors (view e)) \<and>
    sectors (view e') = sectors (view e)"
proof -
  let ?c = "sectors (view e)" and ?v = "view e"
  let ?st0 = "started_state dev path fmt (Some keys) None cb ?c"
  obtain e1 p where e1: "setup_state stk sys dev path fmt (Some keys) None cb e = (0, ?st0, e1)"
    "view e1 = ?v\<lparr>sec_pos := p\<rparr>" by (rule setup_state_ok [OF drv stk])
  let ?e2 = "make_directories_excluding_last sys path e1"
  have e2: "view ?e2 = ?v\<lparr>sec_pos := p\<rparr>" using image_file_facts(2) [OF io] e1(2) by simp
  from card_driver_facts(3) [OF drv, of "SCE_O_RDONLY + SCE_O_RDLOCK" ?e2] obtain e3 where
    e3: "kOpenDevice sys dev (SCE_O_RDONLY + SCE_O_RDLOCK) ?e2 = (dfd, e3)" "view e3 = ?v\<lparr>sec_pos := 0\<rparr>"
    using e2 by auto
  from image_file_facts(3) [OF io, of e3] obtain e4 where
    e4: "sceIoOpen sys path (SCE_O_WRONLY + SCE_O_CREAT + SCE_O_TRUNC) e3 = (ffd, e4)"
      "view e4 = ?v\<lparr>sec_pos := 0, img := Some [], img_pos := 0\<rparr>" using e3(2) by auto
  let ?st = "?st0\<lparr>bs_rd_fd := dfd, bs_wr_fd := ffd\<rparr>" and ?h = "image_header fmt keys ?v (replicate 0x20 0xFF)"
  have hd: "image_header fmt keys (view e4) sha = image_header fmt keys ?v sha" for sha
    by (simp add: e4(2) image_header_def)
  obtain e5 where e5: "create_header sys (write_data sys) ?st e4 = (0, e5)"
      "view e5 = ?v\<lparr>sec_pos := 0, img := Some ?h, img_pos := header_bytes fmt\<rparr>"
    by (rule create_header_ok [OF drv image_appends [OF io], of ?st keys e4])
       (use ready e4(2) hd in \<open>simp_all add: started_state_def header_ready_def\<close>)
  have "unat (of_nat (length ?c) :: u64) = length ?c"
    using card(2) by (simp add: buffer_size unat_of_nat take_bit_nat_eq_self)
  then have d: "length ?c = unat (bs_effective_size ?st - bs_header_size ?st)"
    using trim by (simp add: started_state_def cleared_state_def copied_size_def trimmed_def)
  obtain st' buf' e6 where
    run: "dump_body sys (write_data sys) ?st buf e5 = Some (0, st', buf', e6)"
    and e6: "img (view e6) = Some (image_header fmt keys ?v (fips_sha256 ?c) @ ?c)" "sectors (view e6) = ?c"
    and st': "bs_rd_fd st' = dfd" "bs_wr_fd st' = ffd"
    by (rule dump_body_ok [OF drv io buf _ card d, of keys e5])
       (use cb ready e5(2) in \<open>simp_all add: started_state_def cleared_state_def absorbed_init cleared_sha_def\<close>)
  have "dump_device stk sys dev path fmt (Some keys) None cb buf e = Some (dump_phys_exit sys (0, st', buf', e6))"
    using card_driver_facts(2) [OF drv] image_file_facts(1) [OF io] e1(1) e3(1) e4(1) e5(1) run
    by (simp add: dump_device_def dump_device_phys_def Let_def started_state_def cleared_state_def)
  then show ?thesis
    using st' card_driver_facts(1,4) [OF drv] image_file_facts(1,8) [OF io] e6 by (simp add: dump_phys_exit_def)
qed

text \<open>C12: a dump to a file in one of the untrimmed formats (\<^verbatim>\<open>.vci\<close>, \<^verbatim>\<open>.psv\<close>, \<^verbatim>\<open>.img\<close>), on a card and a
  file that answer as documented, ends and reports success; the file is then the header of
  the format and every byte of the card, the header of a \<^verbatim>\<open>.psv\<close> carrying the SHA-256 of the
  card, and the card is as it was.\<close>

theorem dump_makes_image:
  assumes drv: "card_driver sys dev dfd view" and io: "image_file sys path ffd view"
    and stk: "length stk = SECTOR_SIZE" and buf: "length buf = DEVICE_DUMP_BUFFER_SIZE"
    and cb: "unobtrusive cb view" and ready: "header_ready fmt keys (view e)"
    and card: "sectors (view e) \<noteq> []" "length (sectors (view e)) + DEVICE_DUMP_BUFFER_SIZE \<le> 2 ^ 64"
    and trim: "\<not> FMT_IS_TRIM fmt"
  shows "\<exists>buf' e'. dump_device stk sys dev path fmt (Some keys) None cb buf e = Some (0, buf', e') \<and>
    img (view e') = Some (image_header fmt keys (view e) (fips_sha256 (sectors (view e))) @ sectors (view e)) \<and>
    sectors (view e') = sectors (view e)"
  by (rule dump_to_file [OF assms])

section \<open>Failures\<close>

text \<open>the size of a trimmed image is never taken from the partition table: when the table is
  present and not empty the size is that of the whole card, and otherwise it is zero.\<close>

theorem trimmed_size_is_all_or_nothing:
  assumes "card_driver sys dev dfd view" "length stk = SECTOR_SIZE"
  shows "\<exists>e' p. get_trimmed_size stk sys dev (Some n) e =
      (0, Some (if mbr_used (sectors (view e)) then of_nat (length (sectors (view e))) else 0), e') \<and>
    view e' = (view e)\<lparr>sec_pos := p\<rparr>"
  by (rule get_trimmed_size_ok [OF assms, of n e]) (auto simp: trimmed_def)

lemma access_step_frame:
  "(case device_access_step rd wr to_read (st, buf, e) of
      Inl (res, st', _) \<Rightarrow> res < 0 \<and> bs_output_path st' = bs_output_path st \<and> bs_net_info st' = bs_net_info st \<and> bs_format st' = bs_format st
    | Inr (st', _) \<Rightarrow> bs_output_path st' = bs_output_path st \<and> bs_net_info st' = bs_net_info st \<and> bs_format st' = bs_format st)"
  by (simp add: device_access_step_def Let_def error_values split: prod.split)

lemma access_turns_result:
  "access_turns rd wr to_read s = Some y \<Longrightarrow>
   bs_output_path (fst (snd y)) = bs_output_path (fst s) \<and> bs_net_info (fst (snd y)) = bs_net_info (fst s) \<and>
   bs_format (fst (snd y)) = bs_format (fst s) \<and> (fst y < 0 \<or> fst y = 0 \<and> to_read \<le> bs_total (fst (snd y)))"
proof (induction rule: access_turns.raw_induct [rotated, consumes 1])
  case (1 turns rd wr to_read s y)
  obtain st buf e where s: "s = (st, buf, e)" by (cases s)
  show ?case
  proof (cases "device_access_step rd wr to_read s")
    case (Inl r)
    with 1(2) access_step_frame [where rd = rd and wr = wr and to_read = to_read and st = st and buf = buf and e = e] show ?thesis by (simp add: s split: prod.splits)
  next
    case (Inr s')
    with 1(2) access_step_frame [where rd = rd and wr = wr and to_read = to_read and st = st and buf = buf and e = e] 1(1) [of rd wr to_read s' y] show ?thesis
      by (cases s') (auto simp: s not_less split: if_splits)
  qed
qed

text \<open>whatever the device and the file do, the copy loop returns an error code below zero or it
  returns zero with at least the bytes asked for counted as written.\<close>

theorem loop_zero_means_all_counted:
  assumes "device_access_loop rd wr st buf e = Some (res, st', buf', e')"
  shows "res < 0 \<or> res = 0 \<and> bs_effective_size st - bs_header_size st \<le> bs_total st'"
  using access_turns_result [OF assms [unfolded device_access_loop_def]] by simp

text \<open>a write that stores only part of the block counts what it stored and goes on to the next
  block: the rest of the block is read and hashed, but it is not written again.\<close>

theorem short_write_is_accepted:
  assumes "rd (bs_rd_fd st) buf e = (r, buf1, e1)" "0 < r"
    and "wr (bs_wr_fd st) (take (nat r) buf1) e1 = (w, e2)" "0 < w" "w < r"
    and "bs_callback st = None"
  shows "\<exists>st'. device_access_step rd wr to_read (st, buf, e) = Inr (st', buf1, e2) \<and>
    bs_total st' = bs_total st + word_of_int w \<and>
    bs_sha_ctx st' = (if bs_have_sha st then sha256_update (bs_sha_ctx st) buf1 (nat r) else bs_sha_ctx st)"
  using assms by (simp add: device_access_step_def Let_def)

lemma finalize_frame: "bs_output_path (fst (snd (finalize_psv_header sys st e))) = bs_output_path st"
  by (simp add: finalize_psv_header_def Let_def split: prod.split option.split)

lemma dump_body_frame:
  assumes "dump_body sys wr st buf e = Some (res, st', buf', e')"
  shows "bs_output_path st' = bs_output_path st"
proof -
  from assms obtain r st1 buf1 e1 where
    run: "access_turns (kReadDevice sys) wr (bs_effective_size st - bs_header_size st) (st, buf, e) =
        Some (r, st1, buf1, e1)"
    and st1: "st' = st1 \<or> st' = fst (snd (finalize_psv_header sys st1 e1))"
    unfolding dump_body_def device_access_loop_def
    by (auto simp: bind_eq_Some_conv Let_def split: if_splits prod.splits)
  with access_turns_result [OF run] finalize_frame [of sys st1 e1] show ?thesis by auto
qed

lemma failed_phys_ends_in_remove:
  assumes run: "dump_device_phys sys st buf e = Some (res, buf', e')" and res: "res < 0"
  obtains e2 where "e' = sceIoRemove sys (bs_output_path st) e2"
proof -
  from run obtain r st1 buf1 e1 where
    "dump_phys_exit sys (r, st1, buf1, e1) = (res, buf', e')" "bs_output_path st1 = bs_output_path st"
    unfolding dump_device_phys_def
    by (fastforce simp: Let_def dest: dump_body_frame split: if_splits prod.splits)
  then show thesis using res that by (auto simp: dump_phys_exit_def Let_def)
qed

text \<open>The kernel calls that only read the card do not touch \<open>file\<close>; the setup makes no others.\<close>

definition reading_leaves :: "'e dev_sys \<Rightarrow> ('e \<Rightarrow> 'a) \<Rightarrow> bool" where
  "reading_leaves sys file \<longleftrightarrow>
     (\<forall>dev flags e. file (snd (kOpenDevice sys dev flags e)) = file e) \<and>
     (\<forall>fd buf e. file (snd (snd (kReadDevice sys fd buf e))) = file e) \<and>
     (\<forall>fd e. file (kCloseDevice sys fd e) = file e) \<and>
     (\<forall>dev old e. file (snd (snd (kGetDeviceSize sys dev old e))) = file e)"

lemma get_device_size_leaves:
  "reading_leaves sys file \<Longrightarrow> file (snd (snd (get_device_size sys dev sz e))) = file e"
  by (simp add: reading_leaves_def get_device_size_def Let_def case_prod_unfold split: option.split)

lemma get_trimmed_size_leaves:
  "reading_leaves sys file \<Longrightarrow> file (snd (snd (get_trimmed_size stk sys dev sz e))) = file e"
  by (simp add: get_trimmed_size_def Let_def case_prod_unfold get_device_size_leaves split: option.split)
     (simp add: reading_leaves_def)

lemma get_effective_size_leaves:
  "reading_leaves sys file \<Longrightarrow> file (snd (snd (get_effective_size stk sys dev fmt sz e))) = file e"
  by (simp add: get_effective_size_def Let_def case_prod_unfold get_device_size_leaves get_trimmed_size_leaves
      split: BackupFormat.split)

lemma setup_state_leaves:
  "reading_leaves sys file \<Longrightarrow> file (snd (snd (setup_state stk sys dev path fmt keys net cb e))) = file e"
  by (simp add: setup_state_def Let_def case_prod_unfold get_device_size_leaves get_trimmed_size_leaves
      get_effective_size_leaves)

lemma setup_state_fields:
  "0 \<le> fst (setup_state stk sys dev path fmt keys net cb e) \<Longrightarrow>
   bs_output_path (fst (snd (setup_state stk sys dev path fmt keys net cb e))) = path \<and>
   bs_net_info (fst (snd (setup_state stk sys dev path fmt keys net cb e))) = net"
  by (simp add: setup_state_def cleared_state_def Let_def case_prod_unfold split: if_split_asm)

text \<open>C15: a dump to a file that returns an error leaves no file behind, whichever step failed
  once the sizes of the card were known: opening the card or the output, writing the header,
  reading, writing, or patching the hash, with whatever results the calls have.  When the
  module is not there or a size cannot be read, the file of that name is as it was before
  the call.  All that is assumed is that \<^verbatim>\<open>sceIoRemove\<close> removes the file and that the calls
  that read the card do not touch it.\<close>

theorem failed_dump_removes_image:
  assumes rm: "\<forall>e. file (sceIoRemove sys path e) = None" and card: "reading_leaves sys file"
    and run: "dump_device stk sys dev path fmt keys None cb buf e = Some (res, buf', e')" and res: "res < 0"
  shows "file e' =
    (if is_module_started sys KMODULE_NAME e \<and> 0 \<le> fst (setup_state stk sys dev path fmt keys None cb e)
     then None else file e)"
proof (cases "is_module_started sys KMODULE_NAME e \<and> 0 \<le> fst (setup_state stk sys dev path fmt keys None cb e)")
  case False
  with run have "e' = e \<or> e' = snd (snd (setup_state stk sys dev path fmt keys None cb e))"
    by (auto simp: dump_device_def Let_def case_prod_unfold split: if_splits)
  with False setup_state_leaves [OF card] show ?thesis by auto
next
  case True
  obtain r st e1 where s: "setup_state stk sys dev path fmt keys None cb e = (r, st, e1)" by (metis prod_cases3)
  with True setup_state_fields [of stk sys dev path fmt keys None cb e]
  have st: "0 \<le> r" "bs_output_path st = path" "bs_net_info st = None" by simp_all
  with run s True have "dump_device_phys sys st buf e1 = Some (res, buf', e')" by (simp add: dump_device_def)
  then obtain e2 where "e' = sceIoRemove sys path e2"
    using failed_phys_ends_in_remove [OF _ res] st(2) by metis
  with rm True show ?thesis by simp
qed

section \<open>Witnesses\<close>

text \<open>
  A console that consists of what it shows: one card, one image file, and every descriptor
  the one of the card (1) or of the file (2).
\<close>

definition plain_read :: "bytes \<Rightarrow> nat \<Rightarrow> bytes \<Rightarrow> nat \<times> bytes" where
  "plain_read content pos buf =
     (let n = min (length buf) (length content - pos) in (n, get_field (pos, n) content @ drop n buf))"

definition console_on_view :: "'z io_view_scheme dev_sys" where
  "console_on_view =
     \<lparr>is_module_started = (\<lambda>m v. True),
      kOpenDevice = (\<lambda>d f v. (1, v\<lparr>sec_pos := 0\<rparr>)),
      kReadDevice = (\<lambda>fd buf v. let (n, buf') = plain_read (sectors v) (sec_pos v) buf
         in (int n, buf', v\<lparr>sec_pos := sec_pos v + n\<rparr>)),
      kWriteDevice = (\<lambda>fd data v. let n = min (length data) (length (sectors v) - sec_pos v)
         in (int n, v\<lparr>sectors := put_field (sec_pos v, n) (take n data) (sectors v), sec_pos := sec_pos v + n\<rparr>)),
      kCloseDevice = (\<lambda>fd v. v),
      kGetDeviceSize = (\<lambda>d old v. (0, of_nat (length (sectors v)), v)),
      kGetCartSecret = (\<lambda>buf v. (cart_secret v, v)),
      kGetCartHash = (\<lambda>buf v. (cart_hash v, v)),
      sceIoOpen = (\<lambda>p f v. (2, if f = SCE_O_RDONLY then v\<lparr>img_pos := 0\<rparr> else v\<lparr>img := Some [], img_pos := 0\<rparr>)),
      sceIoRead = (\<lambda>fd buf v. let (n, buf') = plain_read (the (img v)) (img_pos v) buf
         in (int n, buf', v\<lparr>img_pos := img_pos v + n\<rparr>)),
      sceIoWrite = (\<lambda>fd data v. (int (length data), v\<lparr>img := Some (put_field (img_pos v, length data) data (the (img v))),
         img_pos := img_pos v + length data\<rparr>)),
      sceIoLseek = (\<lambda>fd n v. (n, v\<lparr>img_pos := unat n\<rparr>)),
      sceIoClose = (\<lambda>fd v. v),
      sceIoRemove = (\<lambda>p v. v\<lparr>img := None\<rparr>),
      get_file_size = (\<lambda>p v. of_nat (length (the (img v)))),
      make_directories_excluding_last = (\<lambda>p v. v),
      begin_connection = (\<lambda>ip port v. (-1, v)),
      end_connection = (\<lambda>fd v. v),
      begin_file_send = (\<lambda>fd p n v. (-1, v)),
      file_send_data = (\<lambda>fd data v. (-1, v)),
      send_file_patch = (\<lambda>fd p off data v. (-1, v))\<rparr>"

definition plain_console :: "io_view dev_sys" where
  "plain_console = console_on_view"

definition plain_start :: io_view where
  "plain_start = \<lparr>sectors = [1, 2, 3, 4, 5], sec_pos = 3, cart_secret = replicate 32 7, cart_hash = replicate 20 9,
     img = Some [6, 7], img_pos = 1\<rparr>"

definition gcd_entire :: bytes where "gcd_entire = cstr ''sdstor0:gcd-lp-ign-entire''"

lemma sec_pos_self: "\<exists>p. (v :: 'z io_view_scheme) = v\<lparr>sec_pos := p\<rparr>"
  by (rule exI [of _ "sec_pos v"]) simp

lemma view_card: "card_driver console_on_view gcd_entire 1 (\<lambda>v. v)"
  by (simp add: card_driver_def console_on_view_def plain_read_def Let_def sec_pos_self)

lemma plain_card: "card_driver plain_console gcd_entire 1 (\<lambda>v. v)"
  unfolding plain_console_def by (rule view_card)

lemma plain_file: "image_file plain_console p 2 (\<lambda>v. v)"
  by (auto simp: image_file_def plain_console_def console_on_view_def plain_read_def Let_def SCE_O_RDONLY_def SCE_O_WRONLY_def
      SCE_O_CREAT_def SCE_O_TRUNC_def)

lemma gcd_whitelisted: "device_whitelisted gcd_entire"
  by (simp add: device_whitelisted_def gcd_entire_def cstr_def numeral_eq_Suc)

lemma plain_quiet: "unobtrusive None (\<lambda>v. v)"
  by (simp add: unobtrusive_def)

lemma plain_sizes:
  "sectors plain_start \<noteq> []" "length (sectors plain_start) + DEVICE_DUMP_BUFFER_SIZE \<le> 2 ^ 64"
  by (simp_all add: plain_start_def buffer_size)

theorem wipe_zeroes_card_witness:
  "\<exists>buf' e'. wipe_device (zeros SECTOR_SIZE) plain_console gcd_entire None (zeros DEVICE_DUMP_BUFFER_SIZE) plain_start =
      Some (0, buf', e') \<and> sectors e' = zeros (length (sectors plain_start)) \<and> img e' = img plain_start"
  by (rule wipe_zeroes_card [OF plain_card gcd_whitelisted length_zeros length_zeros plain_sizes plain_quiet])

theorem restore_writes_image_witness:
  "\<exists>buf' e'. restore_device (zeros SECTOR_SIZE) plain_console gcd_entire (cstr ''ux0:x'') None
      (zeros DEVICE_DUMP_BUFFER_SIZE) plain_start = Some (0, buf', e') \<and> sectors e' = [6, 7, 0, 0, 0]"
  using restore_writes_image [OF plain_card plain_file gcd_whitelisted length_zeros length_zeros plain_quiet plain_sizes,
      of "[6, 7]" "cstr ''ux0:x''"]
  by (auto simp: plain_start_def zeros_def numeral_eq_Suc)

theorem dump_makes_image_witness:
  "\<exists>buf' e'. dump_device (zeros SECTOR_SIZE) plain_console gcd_entire (cstr ''ux0:x'') BACKUP_FORMAT_PSV
      (Some (zeros 64)) None None (zeros DEVICE_DUMP_BUFFER_SIZE) plain_start = Some (0, buf', e') \<and>
    img e' = Some (psv_image_header (replicate 32 7) (replicate 20 9) (fips_sha256 (sectors plain_start))
      (length (sectors plain_start)) @ sectors plain_start)"
  using dump_makes_image [OF plain_card plain_file length_zeros length_zeros plain_quiet _ plain_sizes,
      of BACKUP_FORMAT_PSV "zeros 64" "cstr ''ux0:x''"]
  by (auto simp: header_ready_def plain_start_def image_header_def FMT_IS_PSV_def FMT_IS_VCI_def FMT_IS_TRIM_def)

theorem guards_before_access_witness:
  "wipe_device (zeros SECTOR_SIZE) plain_console (cstr ''sdstor0:int-lp-ign-os'') None [] plain_start =
     Some (DEVICE_WHITELIST_FAILED, [], plain_start)"
proof -
  have "is_module_started plain_console KMODULE_NAME plain_start" by (simp add: plain_console_def console_on_view_def)
  moreover have "\<not> device_whitelisted (cstr ''sdstor0:int-lp-ign-os'')"
    by (simp add: device_whitelisted_def cstr_def numeral_eq_Suc)
  ultimately show ?thesis using guards_before_access [of plain_console plain_start] by blast
qed

theorem restore_refuses_large_image_witness:
  "\<exists>e'. restore_device (zeros SECTOR_SIZE) plain_console gcd_entire (cstr ''ux0:x'') None [] (plain_start\<lparr>img := Some (zeros 6)\<rparr>) =
      Some (SIZE_NO_SPACE, [], e')"
  using restore_refuses_large_image [OF plain_card plain_file gcd_whitelisted length_zeros,
      of "plain_start\<lparr>img := Some (zeros 6)\<rparr>" "zeros 6" "cstr ''ux0:x''"]
  by (auto simp: plain_start_def)

theorem trimmed_size_is_all_or_nothing_witness:
  "\<exists>e'. get_trimmed_size (zeros SECTOR_SIZE) plain_console gcd_entire (Some 0) plain_start = (0, Some 0, e')"
  using trimmed_size_is_all_or_nothing [OF plain_card length_zeros, of 0 plain_start]
  by (auto simp: mbr_used_def plain_start_def SECTOR_SIZE_def)

theorem loop_zero_means_all_counted_witness:
  "bs_effective_size (cleared_state :: unit BackupState) - bs_header_size (cleared_state :: unit BackupState) \<le>
     bs_total ((cleared_state :: unit BackupState)\<lparr>bs_total := 3\<rparr>)"
proof -
  have "device_access_loop (\<lambda>fd b e. (3, b, e)) (\<lambda>fd d e. (3, e)) (cleared_state :: unit BackupState) [1, 2, 3] () =
      Some (0, cleared_state\<lparr>bs_total := 3\<rparr>, [1, 2, 3], ())"
    by (simp add: device_access_loop_def access_turns.simps device_access_step_def Let_def cleared_state_def)
  from loop_zero_means_all_counted [OF this] show ?thesis by simp
qed

theorem short_write_is_accepted_witness:
  "\<exists>st'. device_access_step (\<lambda>fd b e. (3, b, e)) (\<lambda>fd d e. (1, e)) 3 (cleared_state :: unit BackupState, [1, 2, 3], ()) =
      Inr (st', [1, 2, 3], ()) \<and> bs_total st' = 1"
proof -
  have "bs_callback (cleared_state :: unit BackupState) = None" "bs_total (cleared_state :: unit BackupState) = 0"
    by (simp_all add: cleared_state_def)
  with short_write_is_accepted [of "\<lambda>fd b e. (3, b, e)" "cleared_state :: unit BackupState" "[1, 2, 3]" "()" 3
      "[1, 2, 3]" "()" "\<lambda>fd d e. (1, e)" 1 "()" 3]
  show ?thesis by auto
qed

text \<open>A console whose card is read and whose medium is full.\<close>

theorem failed_dump_removes_image_witness:
  "\<exists>buf' e'. dump_device (zeros SECTOR_SIZE) (plain_console\<lparr>sceIoWrite := \<lambda>fd data v. (-5, v)\<rparr>) gcd_entire
      (cstr ''ux0:x'') BACKUP_FORMAT_RAW None None None [0] plain_start = Some (-5, buf', e') \<and> img e' = None"
proof -
  let ?sys = "plain_console\<lparr>sceIoWrite := \<lambda>fd data v. (-5, v)\<rparr>"
  have rm: "\<forall>e. img (sceIoRemove ?sys (cstr ''ux0:x'') e) = None" "reading_leaves ?sys img"
    by (simp_all add: reading_leaves_def plain_console_def console_on_view_def Let_def case_prod_unfold)
  have drv: "card_driver ?sys gcd_entire 1 (\<lambda>v. v)"
    using plain_card by (simp add: card_driver_def)
  obtain e1 p where s: "setup_state (zeros SECTOR_SIZE) ?sys gcd_entire (cstr ''ux0:x'') BACKUP_FORMAT_RAW None None None
      plain_start = (0, started_state gcd_entire (cstr ''ux0:x'') BACKUP_FORMAT_RAW None None None (sectors plain_start), e1)"
    "e1 = plain_start\<lparr>sec_pos := p\<rparr>" by (rule setup_state_ok [OF drv length_zeros])
  have "\<exists>buf' e'. dump_device (zeros SECTOR_SIZE) ?sys gcd_entire (cstr ''ux0:x'') BACKUP_FORMAT_RAW None None None [0]
      plain_start = Some (-5, buf', e')"
    using s(1) card_driver_facts(2) [OF drv]
    by (simp add: dump_device_def dump_device_phys_def create_header_def dump_body_def device_access_loop_def
        access_turns.simps device_access_step_def dump_phys_exit_def started_state_def cleared_state_def s(2)
        plain_console_def console_on_view_def plain_read_def plain_start_def FMT_IS_PSV_def write_data_def Let_def)
  then obtain buf' e' where run: "dump_device (zeros SECTOR_SIZE) ?sys gcd_entire (cstr ''ux0:x'') BACKUP_FORMAT_RAW None
      None None [0] plain_start = Some (-5, buf', e')" by blast
  with failed_dump_removes_image [OF rm run] s(1) card_driver_facts(2) [OF drv] show ?thesis by auto
qed

end
