(* ===== verification/NetDump.thy ===== *)
theory NetDump
  imports Net PcServer Dump
begin

text \<open>
  A dump over the network, from the card to the file on the computer: the dump of
  \<^verbatim>\<open>app/device.c\<close> over the functions of \<^verbatim>\<open>app/net.c\<close>, and the server of \<^verbatim>\<open>pc/main.c\<close> at the
  other end.
\<close>

section \<open>The application's network calls\<close>

definition net_calls :: "'e net_sys \<Rightarrow> 'e dev_sys \<Rightarrow> 'e dev_sys" where
  "net_calls nsys base = base\<lparr>
     dev_sys.begin_connection := begin_connection nsys,
     dev_sys.end_connection := (\<lambda>socket e. snd (end_connection nsys socket e)),
     dev_sys.begin_file_send := begin_file_send nsys,
     dev_sys.file_send_data := file_send_data nsys,
     dev_sys.send_file_patch :=
       (\<lambda>socket filename offset data. send_file_patch nsys socket filename offset data (of_nat (length data)))\<rparr>"

text \<open>The connections opened so far, in order, and what was sent over each.\<close>

record wire_view = io_view +
  wire :: "(int \<times> bytes) list"

definition server_address :: "'e net_sys \<Rightarrow> u16 \<Rightarrow> u32 \<Rightarrow> SceNetSockaddrIn" where
  "server_address sys port addr =
     \<lparr>sin_len = sizeof_SceNetSockaddrIn, sin_family = SCE_NET_AF_INET, sin_port = sceNetHtons sys port, sin_addr = addr\<rparr>"

text \<open>
  The documented behaviour of the sockets towards a server that listens at \<open>addr\<close>: sockets
  are positive, a connection starts empty, and what is sent on it arrives in order.
\<close>

definition net_stack :: "'e net_sys \<Rightarrow> NetworkInfo \<Rightarrow> ('e \<Rightarrow> wire_view) \<Rightarrow> bool" where
  "net_stack sys net view \<longleftrightarrow>
     (\<forall>e. \<exists>s e'. sceNetSocket sys (cstr ''filesocket'') e = (s, e') \<and> 0 < s \<and> view e' = view e) \<and>
     (\<exists>addr. (\<forall>e. \<exists>r. sceNetInetPton sys (ni_ip_address net) e = (r, addr) \<and> 0 \<le> r) \<and>
        (\<forall>s e. \<exists>c e'. sceNetConnect sys s (server_address sys (ni_port net) addr) e = (c, e') \<and> 0 \<le> c \<and>
           view e' = (view e)\<lparr>wire := wire (view e) @ [(s, [])]\<rparr>)) \<and>
     (\<forall>s data e xs b. wire (view e) = xs @ [(s, b)] \<longrightarrow>
        (\<exists>e'. sceNetSend sys s data e = (int (length data), e') \<and>
           view e' = (view e)\<lparr>wire := xs @ [(s, b @ data)]\<rparr>)) \<and>
     (\<forall>s e. \<exists>r e'. sceNetShutdown sys s e = (r, e') \<and> 0 \<le> r \<and> view e' = view e) \<and>
     (\<forall>s e. \<exists>r e'. sceNetSocketClose sys s e = (r, e') \<and> 0 \<le> r \<and> view e' = view e)"

lemma connected:
  assumes "net_stack sys net view"
  obtains s e' where "begin_connection sys (ni_ip_address net) (ni_port net) e = (s, e')" "0 < s"
    "view e' = (view e)\<lparr>wire := wire (view e) @ [(s, [])]\<rparr>"
proof -
  from assms obtain s e1 where s: "sceNetSocket sys (cstr ''filesocket'') e = (s, e1)" "0 < s" "view e1 = view e"
    unfolding net_stack_def by blast
  from assms obtain addr where p: "\<And>e. \<exists>r. sceNetInetPton sys (ni_ip_address net) e = (r, addr) \<and> 0 \<le> r"
    and c: "\<And>s e. \<exists>c e'. sceNetConnect sys s (server_address sys (ni_port net) addr) e = (c, e') \<and> 0 \<le> c \<and>
      view e' = (view e)\<lparr>wire := wire (view e) @ [(s, [])]\<rparr>"
    unfolding net_stack_def by (elim exE conjE) (rule that; blast)
  from p [of e1] obtain r where r: "sceNetInetPton sys (ni_ip_address net) e1 = (r, addr)" "0 \<le> r" by blast
  from c [of s e1] obtain k e2 where k: "sceNetConnect sys s (server_address sys (ni_port net) addr) e1 = (k, e2)" "0 \<le> k"
    "view e2 = (view e)\<lparr>wire := wire (view e) @ [(s, [])]\<rparr>" using s(3) by auto
  have "begin_connection sys (ni_ip_address net) (ni_port net) e = (s, e2)"
    using s(1,2) r k(1,2) by (simp add: begin_connection_def Let_def server_address_def)
  then show ?thesis using s(2) k(3) by (rule that)
qed

lemma sent:
  assumes "net_stack sys net view" "wire (view e) = xs @ [(s, b)]"
  obtains e' where "sceNetSend sys s data e = (int (length data), e')"
    "view e' = (view e)\<lparr>wire := xs @ [(s, b @ data)]\<rparr>"
  using assms unfolding net_stack_def by blast

lemma ended:
  assumes "net_stack sys net view"
  shows "view (snd (end_connection sys s e)) = view e"
proof -
  from assms obtain r e1 where r: "sceNetShutdown sys s e = (r, e1)" "0 \<le> r" "view e1 = view e"
    unfolding net_stack_def by blast
  from assms obtain q e2 where q: "sceNetSocketClose sys s e1 = (q, e2)" "0 \<le> q" "view e2 = view e1"
    unfolding net_stack_def by blast
  from r q show ?thesis by (simp add: end_connection_def)
qed

section \<open>The connection as the image\<close>

text \<open>What was sent behind the packet of the only connection plays the part of the image file.\<close>

definition conn_view :: "bytes \<Rightarrow> int \<Rightarrow> wire_view \<Rightarrow> io_view" where
  "conn_view p s v =
     (let i = (case wire v of [(t, b)] \<Rightarrow> if t = s \<and> take (length p) b = p then Some (drop (length p) b) else None
               | _ \<Rightarrow> None)
      in \<lparr>sectors = sectors v, sec_pos = sec_pos v, cart_secret = cart_secret v, cart_hash = cart_hash v,
          img = i, img_pos = (case i of None \<Rightarrow> 0 | Some b \<Rightarrow> length b)\<rparr>)"

lemma conn_view_simps [simp]:
  "sectors (conn_view p s v) = sectors v" "sec_pos (conn_view p s v) = sec_pos v"
  "cart_secret (conn_view p s v) = cart_secret v" "cart_hash (conn_view p s v) = cart_hash v"
  "conn_view p s (v\<lparr>sec_pos := k\<rparr>) = (conn_view p s v)\<lparr>sec_pos := k\<rparr>"
  "conn_view p s (v\<lparr>sectors := c\<rparr>) = (conn_view p s v)\<lparr>sectors := c\<rparr>"
  by (simp_all add: conn_view_def Let_def)

lemma conn_view_wire:
  "wire v = [(s, p @ b)] \<Longrightarrow>
   img (conn_view p s v) = Some b \<and> img_pos (conn_view p s v) = length b"
  by (simp add: conn_view_def Let_def)

lemma conn_view_img:
  assumes "img (conn_view p s v) = Some b"
  shows "wire v = [(s, p @ b)]"
proof -
  from assms obtain w where "wire v = [(s, w)]" "take (length p) w = p" "b = drop (length p) w"
    by (auto simp: conn_view_def Let_def split: list.splits prod.splits if_splits)
  then show ?thesis by (metis append_take_drop_id)
qed

lemma conn_card_driver:
  assumes "card_driver sys dev dfd view"
  shows "card_driver sys dev dfd (\<lambda>e. conn_view p s (view e))"
  unfolding card_driver_def Let_def
proof (intro conjI allI)
  show "0 \<le> dfd" by (rule card_driver_facts(1) [OF assms])
  show "is_module_started sys KMODULE_NAME e" for e by (rule card_driver_facts(2) [OF assms])
  show "\<exists>e'. kOpenDevice sys dev flags e = (dfd, e') \<and> conn_view p s (view e') = (conn_view p s (view e))\<lparr>sec_pos := 0\<rparr>" for flags e
    using card_driver_facts(3) [OF assms, of flags e] by auto
  show "conn_view p s (view (kCloseDevice sys dfd e)) = conn_view p s (view e)" for e
    by (simp add: card_driver_facts(4) [OF assms])
  show "\<exists>e' k. kGetDeviceSize sys dev old e = (0, of_nat (length (sectors (conn_view p s (view e)))), e') \<and>
      conn_view p s (view e') = (conn_view p s (view e))\<lparr>sec_pos := k\<rparr>" for old e
    using card_driver_facts(5) [OF assms, of old e] by auto
  show "\<exists>e'. kGetCartSecret sys old e = (cart_secret (conn_view p s (view e)), e') \<and> conn_view p s (view e') = conn_view p s (view e)" for old e
    using card_driver_facts(6) [OF assms, of old e] by auto
  show "\<exists>e'. kGetCartHash sys old e = (cart_hash (conn_view p s (view e)), e') \<and> conn_view p s (view e') = conn_view p s (view e)" for old e
    using card_driver_facts(7) [OF assms, of old e] by auto
  fix buf e
  show "\<exists>e'. kReadDevice sys dfd buf e =
      (int (min (length buf) (length (sectors (conn_view p s (view e))) - sec_pos (conn_view p s (view e)))),
       get_field (sec_pos (conn_view p s (view e)),
         min (length buf) (length (sectors (conn_view p s (view e))) - sec_pos (conn_view p s (view e))))
         (sectors (conn_view p s (view e))) @
       drop (min (length buf) (length (sectors (conn_view p s (view e))) - sec_pos (conn_view p s (view e)))) buf, e') \<and>
      conn_view p s (view e') = (conn_view p s (view e))\<lparr>sec_pos := sec_pos (conn_view p s (view e)) +
        min (length buf) (length (sectors (conn_view p s (view e))) - sec_pos (conn_view p s (view e)))\<rparr>"
    using card_driver_facts(8) [OF assms refl, of buf e] by auto
  show "\<exists>e'. kWriteDevice sys dfd buf e =
      (int (min (length buf) (length (sectors (conn_view p s (view e))) - sec_pos (conn_view p s (view e)))), e') \<and>
      conn_view p s (view e') = (conn_view p s (view e))\<lparr>sectors :=
        put_field (sec_pos (conn_view p s (view e)),
          min (length buf) (length (sectors (conn_view p s (view e))) - sec_pos (conn_view p s (view e))))
          (take (min (length buf) (length (sectors (conn_view p s (view e))) - sec_pos (conn_view p s (view e)))) buf)
          (sectors (conn_view p s (view e))),
        sec_pos := sec_pos (conn_view p s (view e)) +
          min (length buf) (length (sectors (conn_view p s (view e))) - sec_pos (conn_view p s (view e)))\<rparr>"
    using card_driver_facts(9) [OF assms refl, of buf e] by auto
qed

lemma conn_appends:
  assumes "net_stack nsys net view"
  shows "appends (file_send_data nsys) s (\<lambda>e. conn_view p s (view e))"
  unfolding appends_def
proof (intro allI impI, elim conjE)
  fix data e b assume "img (conn_view p s (view e)) = Some b"
  then have w: "wire (view e) = [] @ [(s, p @ b)]" using conn_view_img by simp
  obtain e' where e': "sceNetSend nsys s data e = (int (length data), e')"
    "view e' = (view e)\<lparr>wire := [] @ [(s, (p @ b) @ data)]\<rparr>" by (rule sent [OF assms w])
  have "conn_view p s (view e') = (conn_view p s (view e))\<lparr>img := Some (b @ data), img_pos := length b + length data\<rparr>"
    using w by (simp add: e'(2) conn_view_def Let_def)
  with e'(1) show "\<exists>e'. file_send_data nsys s data e = (int (length data), e') \<and>
      conn_view p s (view e') = (conn_view p s (view e))\<lparr>img := Some (b @ data), img_pos := length b + length data\<rparr>"
    by (auto simp: file_send_data_def)
qed

section \<open>What goes over the wire\<close>

lemma net_calls_simps [simp]:
  "dev_sys.begin_connection (net_calls n b) = begin_connection n"
  "dev_sys.end_connection (net_calls n b) = (\<lambda>socket e. snd (end_connection n socket e))"
  "dev_sys.begin_file_send (net_calls n b) = begin_file_send n"
  "dev_sys.file_send_data (net_calls n b) = file_send_data n"
  "dev_sys.send_file_patch (net_calls n b) =
     (\<lambda>socket filename offset data. send_file_patch n socket filename offset data (of_nat (length data)))"
  by (simp_all add: net_calls_def)

definition hash_patch :: "bytes \<Rightarrow> bytes \<Rightarrow> bytes" where
  "hash_patch path c = patch_packet_of path 0x40 (fips_sha256 c) 0x20"

lemma finalize_over_network:
  assumes net: "net_stack nsys net view" and abs: "absorbed (bs_sha_ctx st) c"
    and st: "FMT_IS_PSV (bs_format st)" "bs_net_info st = Some net" "0 \<le> bs_wr_fd st"
  obtains ctx t e' where "finalize_psv_header (net_calls nsys base) st e = (1, st\<lparr>bs_sha_ctx := ctx\<rparr>, e')"
    "view e' = (view e)\<lparr>wire := wire (view e) @ [(t, hash_patch (bs_output_path st) c)]\<rparr>"
proof -
  obtain ctx where fin: "sha256_final (bs_sha_ctx st) (zeros 0x20) = (ctx, fips_sha256 c)"
    using sha256_final_absorbed [OF abs, of "zeros 0x20"] by (cases "sha256_final (bs_sha_ctx st) (zeros 0x20)") simp
  obtain t e1 where t: "begin_connection nsys (ni_ip_address net) (ni_port net) e = (t, e1)" "0 < t"
    "view e1 = (view e)\<lparr>wire := wire (view e) @ [(t, [])]\<rparr>" by (rule connected [OF net])
  let ?p = "hash_patch (bs_output_path st) c"
  have "wire (view e1) = wire (view e) @ [(t, [])]" by (simp add: t(3))
  from sent [OF net this, of ?p] obtain e2 where e2: "sceNetSend nsys t ?p e1 = (int (length ?p), e2)"
    "view e2 = (view e1)\<lparr>wire := wire (view e) @ [(t, [] @ ?p)]\<rparr>" by blast
  have p: "send_file_patch nsys t (bs_output_path st) 0x40 (fips_sha256 c) (of_nat (length (fips_sha256 c))) e1 = (int (length ?p), e2)"
    using e2(1) by (simp add: send_file_patch_def hash_patch_def length_sha256)
  have "finalize_psv_header (net_calls nsys base) st e =
      (1, st\<lparr>bs_sha_ctx := ctx\<rparr>, snd (end_connection nsys t e2))"
    using st fin t(1,2) p by (simp add: finalize_psv_header_def Let_def psv_all_sectors_sha256_def)
  moreover have "view (snd (end_connection nsys t e2)) = (view e)\<lparr>wire := wire (view e) @ [(t, ?p)]\<rparr>"
    using ended [OF net] e2(2) t(3) by simp
  ultimately show ?thesis by (rule that)
qed

lemma started_fields:
  "bs_block_device (started_state dev path fmt keys net cb c) = dev"
  "bs_output_path (started_state dev path fmt keys net cb c) = path"
  "bs_net_info (started_state dev path fmt keys net cb c) = net"
  by (simp_all add: started_state_def)

definition upload_packet :: "BackupFormat \<Rightarrow> bytes \<Rightarrow> bytes \<Rightarrow> bytes" where
  "upload_packet fmt path c = send_packet_of path (of_nat (header_bytes fmt + length c))"

lemma network_dump_traffic:
  assumes drv: "card_driver (net_calls nsys base) dev dfd view" and net: "net_stack nsys net view"
    and stk: "length stk = SECTOR_SIZE" and buf: "length buf = DEVICE_DUMP_BUFFER_SIZE"
    and cb: "unobtrusive cb view" and ready: "header_ready fmt keys (view e)" and wire: "wire (view e) = []"
    and card: "sectors (view e) \<noteq> []" "length (sectors (view e)) + DEVICE_DUMP_BUFFER_SIZE \<le> 2 ^ 64"
    and trim: "FMT_IS_TRIM fmt \<longrightarrow> mbr_used (sectors (view e))"
  obtains res buf' e' s t where
    "dump_device stk (net_calls nsys base) dev path fmt (Some keys) (Some net) cb buf e = Some (res, buf', e')" "0 \<le> res"
    "wire (view e') = (s, upload_packet fmt path (sectors (view e)) @
        image_header fmt keys (view e) (replicate 0x20 0xFF) @ sectors (view e)) #
      (if FMT_IS_PSV fmt then [(t, hash_patch path (sectors (view e)))] else [])"
proof -
  let ?sys = "net_calls nsys base" and ?c = "sectors (view e)" and ?v = "view e"
  let ?start = "started_state dev path fmt (Some keys) (Some net) cb ?c"
  obtain e1 p where e1: "setup_state stk ?sys dev path fmt (Some keys) (Some net) cb e = (0, ?start, e1)"
    "view e1 = ?v\<lparr>sec_pos := p\<rparr>" by (rule setup_state_ok [OF drv stk])
  from card_driver_facts(3) [OF drv, of "SCE_O_RDONLY + SCE_O_RDLOCK" e1] obtain e2 where
    e2: "kOpenDevice ?sys dev (SCE_O_RDONLY + SCE_O_RDLOCK) e1 = (dfd, e2)" "view e2 = ?v\<lparr>sec_pos := 0\<rparr>"
    using e1(2) by auto
  obtain s e3 where e3: "begin_connection nsys (ni_ip_address net) (ni_port net) e2 = (s, e3)" "0 < s"
    "view e3 = (view e2)\<lparr>wire := wire (view e2) @ [(s, [])]\<rparr>" by (rule connected [OF net])
  let ?st = "?start\<lparr>bs_rd_fd := dfd, bs_wr_fd := s\<rparr>"
  have cl: "unat (of_nat (length ?c) :: u64) = length ?c"
    using card(2) by (simp add: buffer_size unat_of_nat take_bit_nat_eq_self)
  have size_eq: "copied_size fmt ?c = of_nat (length ?c)"
    using trim by (simp add: copied_size_def trimmed_def)
  then have eff: "bs_effective_size ?st = of_nat (header_bytes fmt + length ?c)"
    by (simp add: started_state_def cleared_state_def)
  let ?p = "upload_packet fmt path ?c"
  have "wire (view e3) = [] @ [(s, [])]" by (simp add: e3(3) e2(2) wire)
  from sent [OF net this, of ?p] obtain e4 where
    e4: "sceNetSend nsys s ?p e3 = (int (length ?p), e4)" "view e4 = (view e3)\<lparr>wire := [] @ [(s, [] @ ?p)]\<rparr>"
    by blast
  let ?w = "\<lambda>e. conn_view ?p s (view e)"
  have drv': "card_driver ?sys dev dfd ?w" by (rule conn_card_driver [OF drv])
  have app: "appends (file_send_data nsys) s ?w" by (rule conn_appends [OF net])
  have w4: "view e4 = ?v\<lparr>sec_pos := 0, wire := [(s, ?p)]\<rparr>" by (simp add: e4(2) e3(3) e2(2))
  have i4: "img (?w e4) = Some []" "img_pos (?w e4) = 0"
    using conn_view_wire [of "view e4" s ?p "[]"] by (simp_all add: w4)
  have hd: "image_header fmt keys (?w e4) sha = image_header fmt keys ?v sha" for sha
    by (simp add: w4 image_header_def)
  let ?h = "image_header fmt keys ?v (replicate 0x20 0xFF)"
  obtain e5 where e5: "create_header ?sys (file_send_data nsys) ?st e4 = (0, e5)"
      "?w e5 = (?w e4)\<lparr>img := Some ?h, img_pos := header_bytes fmt\<rparr>"
    by (rule create_header_ok [OF drv' app, of ?st keys e4])
       (use ready i4 hd w4 in \<open>simp_all add: started_state_def header_ready_def\<close>)
  have s5: "sectors (?w e5) = ?c" "sec_pos (?w e5) = 0" "img (?w e5) = Some ?h" "img_pos (?w e5) = length ?h"
    by (simp_all only: e5(2)) (use ready w4 in \<open>simp_all add: length_image_header\<close>)
  have cb': "unobtrusive (bs_callback ?st) ?w"
    using cb by (simp add: unobtrusive_def started_state_def)
  have d: "length ?c = unat (bs_effective_size ?st - bs_header_size ?st)"
    using cl size_eq by (simp add: started_state_def cleared_state_def)
  obtain st6 buf6 e6 where
    run: "device_access_loop (kReadDevice ?sys) (file_send_data nsys) ?st buf e5 = Some (0, st6, buf6, e6)"
    and e6: "img (?w e6) = Some (?h @ ?c)" "bs_have_sha ?st \<longrightarrow> absorbed (bs_sha_ctx st6) ?c"
    and st6: "st6 = ?st\<lparr>bs_total := of_nat (length ?c), bs_sha_ctx := bs_sha_ctx st6\<rparr>"
    by (rule copy_card [OF drv' app buf cb' card d, of e5])
       (use s5 in \<open>simp_all add: started_state_def cleared_state_def cleared_sha_def absorbed_init image_ok_def\<close>)
  have w6: "wire (view e6) = [(s, ?p @ ?h @ ?c)]" by (rule conn_view_img [OF e6(1)])
  have f: "bs_format st6 = fmt" "bs_net_info st6 = Some net" "bs_rd_fd st6 = dfd" "bs_wr_fd st6 = s" "bs_output_path st6 = path"
    by (subst st6, simp add: started_state_def)+
  have dump: "dump_device stk ?sys dev path fmt (Some keys) (Some net) cb buf e =
      map_option (dump_net_exit ?sys) (dump_body ?sys (file_send_data nsys) ?st buf e5)"
  proof -
    have "bs_effective_size ?start = of_nat (header_bytes fmt + length ?c)" using eff by simp
    then have "begin_file_send nsys s path (bs_effective_size ?start) e3 = (int (length ?p), e4)"
      using e4(1) by (simp only: begin_file_send_def upload_packet_def)
    then have "dump_device_network ?sys net ?start buf e1 =
        map_option (dump_net_exit ?sys) (dump_body ?sys (file_send_data nsys) ?st buf e5)"
      using e2(1) e3(1,2) e5(1) card_driver_facts(1) [OF drv]
      by (simp add: dump_device_network_def Let_def started_fields)
    then show ?thesis
      using card_driver_facts(2) [OF drv] e1(1) by (simp add: dump_device_def Let_def started_fields)
  qed
  have last: "view (dev_sys.kCloseDevice ?sys dfd (snd (end_connection nsys s e'))) = view e'" for e'
    by (simp add: card_driver_facts(4) [OF drv] ended [OF net])
  show ?thesis
  proof (cases "FMT_IS_PSV fmt")
    case False
    then have "dump_body ?sys (file_send_data nsys) ?st buf e5 = Some (0, st6, buf6, e6)"
      using run f(1) by (simp add: dump_body_def)
    then show ?thesis
      using dump f e3(2) card_driver_facts(1) [OF drv] last [of e6] w6 False
      by (intro that [of 0 buf6 "dev_sys.kCloseDevice ?sys dfd (snd (end_connection nsys s e6))" s]) (auto simp: dump_net_exit_def)
  next
    case True
    then have "absorbed (bs_sha_ctx st6) ?c" using e6(2) by (simp add: started_state_def)
    then obtain ctx t e7 where
      fin: "finalize_psv_header ?sys st6 e6 = (1, st6\<lparr>bs_sha_ctx := ctx\<rparr>, e7)"
      and e7: "view e7 = (view e6)\<lparr>wire := wire (view e6) @ [(t, hash_patch (bs_output_path st6) ?c)]\<rparr>"
      by (rule finalize_over_network [OF net, where base = base]) (use True f e3(2) in simp_all)
    have "dump_body ?sys (file_send_data nsys) ?st buf e5 = Some (1, st6\<lparr>bs_sha_ctx := ctx\<rparr>, buf6, e7)"
      using True run f(1) fin by (simp add: dump_body_def)
    then show ?thesis
      using dump f e3(2) card_driver_facts(1) [OF drv] last [of e7] e7 w6 True
      by (intro that [of 1 buf6 "dev_sys.kCloseDevice ?sys dfd (snd (end_connection nsys s e7))" s t]) (auto simp: dump_net_exit_def)
  qed
qed

section \<open>From the card to the computer\<close>

lemma patched_header:
  assumes "length secret = 0x20" "length hash = 0x14"
  shows "put_field (0x40, 0x20) (fips_sha256 c) (psv_image_header secret hash (replicate 0x20 0xFF) n @ d) =
    psv_image_header secret hash (fips_sha256 c) n @ d"
proof -
  have "put_field (0x40, 0x20) (fips_sha256 c)
      (([0x50, 0x53, 0x56, 0] @ [1, 0, 0, 0] @ [0, 0, 0, 0] @ secret @ hash) @ replicate 0x20 0xFF @
       le_bytes 8 (of_nat n :: u64) @ [1, 0, 0, 0, 0, 0, 0, 0] @ zeros 0x190 @ d) = psv_image_header secret hash (fips_sha256 c) n @ d"
    by (subst put_inside) (simp_all add: assms psv_image_header_def)
  then show ?thesis by (simp add: psv_image_header_def)
qed

definition pc_name :: "bytes \<Rightarrow> bytes" where
  "pc_name path = map clean (chars path)"

definition deliveries :: "(int \<times> bytes) list \<Rightarrow> connection list \<Rightarrow> bool" where
  "deliveries w conns \<longleftrightarrow> list_all2 (\<lambda>(s, stream) conn. in_pieces stream conn) w conns"

lemma upload_received:
  assumes d: "in_pieces (upload_packet fmt path c @ h @ c) conn" "header_whole conn" and h: "length h = header_bytes fmt" and c: "c \<noteq> []"
    and len: "length c + 0x20000 \<le> 2 ^ 64" and path: "strlen path \<le> 0x205" and ok: "can_create (pc_name path)"
  shows "receive_packets can_create behind conn fs = Some (Done (fs(pc_name path \<mapsto> h @ c)))"
  unfolding pc_name_def
proof (rule receive_upload [OF d(1,2)])
  let ?p = "upload_packet fmt path c"
  show "length ?p = PACKET_SIZE" "get_field packet_magic ?p = le_bytes 2 SEND_FILE_MAGIC"
    by (simp_all add: upload_packet_def send_packet_fields)
  show "get_field send_filename ?p = chars path @ zeros (0x206 - length (chars path))"
    using path by (simp add: upload_packet_def send_packet_fields min_def)
  show "0 \<notin> set (chars path)" using set_chars by blast
  show "length (chars path) \<le> 0x205" using path by simp
  show "get_field send_total_size ?p = le_bytes 8 (of_nat (length (h @ c)) :: u64)"
    by (simp add: upload_packet_def send_packet_fields h)
  show "h @ c \<noteq> []" using c by simp
  show "length (h @ c) < 2 ^ 64" using len h by (cases fmt) (simp_all add: header_bytes_def FMT_IS_RAW_def)
  show "can_create (map clean (chars path))" using ok by (simp add: pc_name_def)
qed

lemma patch_received:
  assumes d: "in_pieces (hash_patch path c) conn" "header_whole conn" and path: "strlen path \<le> 0x4F"
    and b: "fs (pc_name path) = Some b" "0x60 \<le> length b"
  shows "receive_packets can_create behind conn fs =
    Some (Done (fs(pc_name path \<mapsto> put_field (0x40, 0x20) (fips_sha256 c) b)))"
proof -
  have l: "length (fips_sha256 c) = 0x20" by (rule length_sha256)
  have p: "hash_patch path c = patch_packet_of path 0x40 (fips_sha256 c) (of_nat 0x20)" by (simp add: hash_patch_def)
  note f = patch_packet_fields [OF l _ p]
  have "receive_packets can_create behind conn fs =
      Some (Done (fs(map clean (chars path) \<mapsto> put_field (0x40, length (fips_sha256 c)) (fips_sha256 c) b)))"
  proof (rule receive_patch_ok [OF d(1,2)])
    show "length (hash_patch path c) = PACKET_SIZE" unfolding p by (rule length_patch_packet) (simp_all add: l)
    show "get_field packet_magic (hash_patch path c) = le_bytes 2 PATCH_FILE_MAGIC" by (rule f(1)) simp
    show "get_field patch_filename (hash_patch path c) = chars path @ zeros (0x50 - length (chars path))"
      using f(5) path by (simp add: min_def)
    show "0 \<notin> set (chars path)" using set_chars by blast
    show "length (chars path) \<le> 0x4F" using path by simp
    show "get_field patch_offset (hash_patch path c) = le_bytes 8 (of_nat 0x40 :: u64)" using f(2) by simp
    show "get_field patch_patch_size (hash_patch path c) = le_bytes 4 (of_nat (length (fips_sha256 c)) :: u32)"
      using f(3) by (simp add: l)
    show "take (length (fips_sha256 c)) (get_field patch_patch_data (hash_patch path c)) = fips_sha256 c"
      using f(4) by (simp add: l)
    show "fs (map clean (chars path)) = Some b" using b(1) by (simp add: pc_name_def)
    show "(0x40 :: nat) < 2 ^ 63" by simp
    have "fips_sha256 c \<noteq> []" using l by auto
    then show "length (fips_sha256 c) \<le> 0x1B2" "0x40 + length (fips_sha256 c) \<le> length b" "fips_sha256 c \<noteq> []"
      using b(2) by (simp_all add: l)
  qed
  then show ?thesis by (simp add: l pc_name_def)
qed

text \<open>A patch of a file that is not there changes nothing, however its packet arrives.\<close>

lemma patch_without_file:
  assumes d: "in_pieces (hash_patch path c) conn" and path: "strlen path \<le> 0x4F" and none: "fs (pc_name path) = None"
  shows "receive_packets can_create behind conn fs = Some (Done fs)"
proof (cases "header_whole conn")
  case False
  have "length (hash_patch path c) = PACKET_SIZE"
    unfolding hash_patch_def
    using length_patch_packet [where data = "fips_sha256 c" and n = "0x20"] by (simp add: length_sha256)
  then have "hash_patch path c \<noteq> []" by (auto simp: PACKET_SIZE_def)
  from split_header_dropped [OF d this False] show ?thesis .
next
  case True
  have l: "length (fips_sha256 c) = 0x20" by (rule length_sha256)
  have p: "hash_patch path c = patch_packet_of path 0x40 (fips_sha256 c) (of_nat 0x20)" by (simp add: hash_patch_def)
  have len: "length (hash_patch path c) = PACKET_SIZE" unfolding p by (rule length_patch_packet) (simp_all add: l)
  obtain conn' where read: "READ_SOCKET conn PACKET_SIZE = (int PACKET_SIZE, hash_patch path c, conn')"
    using whole_header_read [of "hash_patch path c" "[]" conn] d len True by auto
  have pk: "put_field (0, PACKET_SIZE) (hash_patch path c) (zeros PACKET_SIZE) = hash_patch path c"
    by (rule put_field_all) simp
  have m: "(le_word (get_field packet_magic (hash_patch path c)) :: u16) = PATCH_FILE_MAGIC"
    using patch_packet_fields(1) [OF l _ p] by (simp add: le_word_bytes)
  have nm: "chars (remove_illegal_chars ((get_field patch_filename (hash_patch path c))[snd patch_filename - 1 := 0])) =
      pc_name path"
    unfolding pc_name_def
    by (rule cleaned_name) (use patch_packet_fields(5) [OF l _ p] path set_chars in
      \<open>auto simp: min_def patch_filename_def\<close>)
  show ?thesis
    unfolding receive_packets_def Let_def read prod.case pk m receive_patch_def nm none
    by (simp add: PACKET_SIZE_def SEND_FILE_MAGIC_def PATCH_FILE_MAGIC_def)
qed


section \<open>A console and a network\<close>

definition plain_net :: "wire_view net_sys" where
  "plain_net =
     \<lparr>sceSysmoduleLoadModule = (\<lambda>e. (0, e)), sceSysmoduleUnloadModule = (\<lambda>e. e), sceNetInit = (\<lambda>n e. (0, e)),
      sceNetTerm = (\<lambda>e. e), sceNetCtlInit = (\<lambda>e. (0, e)), sceNetCtlTerm = (\<lambda>e. e),
      sceNetCtlInetGetState = (\<lambda>s e. 3), sceNetInetPton = (\<lambda>ip e. (1, 0x0100007F)), sceNetHtons = endian_swap,
      sceNetSocket = (\<lambda>name e. (int (length (wire e)) + 1, e)),
      sceNetConnect = (\<lambda>s sin e. (0, e\<lparr>wire := wire e @ [(s, [])]\<rparr>)),
      sceNetSend = (\<lambda>s data e. (int (length data), e\<lparr>wire := butlast (wire e) @ [(s, snd (last (wire e)) @ data)]\<rparr>)),
      sceNetShutdown = (\<lambda>s e. (0, e)), sceNetSocketClose = (\<lambda>s e. (0, e))\<rparr>"

definition plain_wire_start :: wire_view where
  "plain_wire_start = \<lparr>sectors = [1, 2, 3, 4, 5], sec_pos = 3, cart_secret = replicate 32 7, cart_hash = replicate 20 9,
     img = None, img_pos = 0, wire = []\<rparr>"

lemma plain_net_card: "card_driver (net_calls plain_net console_on_view) gcd_entire 1 (\<lambda>v. v)"
proof -
  have "card_driver (console_on_view :: wire_view dev_sys) gcd_entire 1 (\<lambda>v. v)" by (rule view_card)
  then show ?thesis by (simp add: card_driver_def net_calls_def)
qed

lemma plain_net_stack: "net_stack plain_net net (\<lambda>v. v)"
  by (simp add: net_stack_def plain_net_def server_address_def)


end
