(* ===== verification/Paths.thy ===== *)
theory Paths
  imports Device
begin

text \<open>
  \<^verbatim>\<open>app/io.c\<close>: files, directories, paths and partitions of the application.  The system calls
  are the record \<open>io_sys\<close> on an environment \<open>'e\<close>.  Text is in buffers of bytes with a zero
  terminator.
\<close>

section \<open>The system\<close>

record dirent =
  d_name :: bytes
  d_size :: u64
  d_isdir :: bool

record 'e io_sys =
  sceIoGetstat :: "bytes \<Rightarrow> 'e \<Rightarrow> int \<times> u64"
  sceIoDopen :: "bytes \<Rightarrow> 'e \<Rightarrow> int \<times> 'e"
  sceIoDread :: "int \<Rightarrow> 'e \<Rightarrow> int \<times> dirent \<times> 'e"
  sceIoDclose :: "int \<Rightarrow> 'e \<Rightarrow> int \<times> 'e"
  sceIoOpen :: "bytes \<Rightarrow> int \<Rightarrow> 'e \<Rightarrow> int \<times> 'e"
  sceIoRead :: "int \<Rightarrow> bytes \<Rightarrow> 'e \<Rightarrow> int \<times> bytes \<times> 'e"
  sceIoWrite :: "int \<Rightarrow> bytes \<Rightarrow> 'e \<Rightarrow> int \<times> 'e"
  sceIoClose :: "int \<Rightarrow> 'e \<Rightarrow> int \<times> 'e"
  sceIoMkdir :: "bytes \<Rightarrow> 'e \<Rightarrow> 'e"
  sceIoDevctl_free :: "bytes \<Rightarrow> 'e \<Rightarrow> int \<times> u64"
  vshIoMount :: "nat \<Rightarrow> int \<Rightarrow> 'e \<Rightarrow> int \<times> 'e"
  vshIoUmount :: "nat \<Rightarrow> int \<Rightarrow> 'e \<Rightarrow> 'e"
  sceKernelDelayThread :: "nat \<Rightarrow> 'e \<Rightarrow> 'e"
  malloc_ok :: "u64 \<Rightarrow> 'e \<Rightarrow> bool"


section \<open>Existence and partitions\<close>

definition file_exist :: "'e io_sys \<Rightarrow> bytes \<Rightarrow> 'e \<Rightarrow> bool" where
  "file_exist sys path e = (let (res, _) = sceIoGetstat sys path e in res \<ge> 0)"

definition read_first_filename ::
  "'e io_sys \<Rightarrow> bytes \<Rightarrow> bytes option \<Rightarrow> nat \<Rightarrow> 'e \<Rightarrow> int \<times> bytes option \<times> 'e" where
  "read_first_filename sys path output out_size e =
     (let (dfd, e) = sceIoDopen sys path e
      in if dfd < 0 then (dfd, output, e)
         else
           (let (res, ent, e) = sceIoDread sys dfd e;
                output = (if res \<ge> 0 then map_option (\<lambda>b. strncpy b 0 (d_name ent) out_size) output else output);
                (_, e) = sceIoDclose sys dfd e
            in (res, output, e)))"

definition check_partition :: "'e io_sys \<Rightarrow> bytes \<Rightarrow> 'e \<Rightarrow> bool \<times> 'e" where
  "check_partition sys part e =
     (if file_exist sys part e then
        (let (res, _, e) = read_first_filename sys part None 1 e in (res \<ge> 0, e))
      else (False, e))"

fun wait_turns :: "'e io_sys \<Rightarrow> bytes \<Rightarrow> nat \<Rightarrow> 'e \<Rightarrow> 'e" where
  "wait_turns sys part 0 e = e"
| "wait_turns sys part (Suc n) e =
     (if file_exist sys part e then e
      else wait_turns sys part n (sceKernelDelayThread sys 5000 e))"

definition wait_for_partition :: "'e io_sys \<Rightarrow> bytes \<Rightarrow> 'e \<Rightarrow> bool \<times> 'e" where
  "wait_for_partition sys part e =
     (let e = wait_turns sys part 30 e in (file_exist sys part e, e))"

definition mount_partition :: "'e io_sys \<Rightarrow> nat \<Rightarrow> int \<Rightarrow> 'e \<Rightarrow> int \<times> 'e" where
  "mount_partition sys dev permission e = vshIoMount sys dev permission e"

definition mount_uma :: "'e io_sys \<Rightarrow> 'e \<Rightarrow> int \<times> 'e" where "mount_uma sys e = mount_partition sys 0xF00 2 e"
definition mount_xmc :: "'e io_sys \<Rightarrow> 'e \<Rightarrow> int \<times> 'e" where "mount_xmc sys e = mount_partition sys 0xE00 2 e"
definition mount_imc :: "'e io_sys \<Rightarrow> 'e \<Rightarrow> int \<times> 'e" where "mount_imc sys e = mount_partition sys 0xD00 2 e"
definition mount_gro0 :: "'e io_sys \<Rightarrow> 'e \<Rightarrow> int \<times> 'e" where "mount_gro0 sys e = mount_partition sys 0x900 1 e"
definition mount_grw0 :: "'e io_sys \<Rightarrow> 'e \<Rightarrow> int \<times> 'e" where "mount_grw0 sys e = mount_partition sys 0xA00 2 e"

definition umount_gro0 :: "'e io_sys \<Rightarrow> 'e \<Rightarrow> 'e" where "umount_gro0 sys e = vshIoUmount sys 0x900 1 (vshIoUmount sys 0x900 0 e)"
definition umount_grw0 :: "'e io_sys \<Rightarrow> 'e \<Rightarrow> 'e" where "umount_grw0 sys e = vshIoUmount sys 0xA00 1 (vshIoUmount sys 0xA00 0 e)"
definition umount_uma :: "'e io_sys \<Rightarrow> 'e \<Rightarrow> 'e" where "umount_uma sys e = vshIoUmount sys 0xF00 1 (vshIoUmount sys 0xF00 0 e)"
definition umount_xmc :: "'e io_sys \<Rightarrow> 'e \<Rightarrow> 'e" where "umount_xmc sys e = vshIoUmount sys 0xE00 1 (vshIoUmount sys 0xE00 0 e)"
definition umount_imc :: "'e io_sys \<Rightarrow> 'e \<Rightarrow> 'e" where "umount_imc sys e = vshIoUmount sys 0xD00 1 (vshIoUmount sys 0xD00 0 e)"

definition umount_devices :: "'e io_sys \<Rightarrow> 'e \<Rightarrow> 'e" where
  "umount_devices sys e = umount_xmc sys (umount_uma sys e)"

definition mount_gamecart :: "'e io_sys \<Rightarrow> 'e \<Rightarrow> 'e" where
  "mount_gamecart sys e =
     (let e = (if \<not> file_exist sys (cstr ''gro0:'') e then
                 (let (res, e) = mount_gro0 sys e
                  in if res \<ge> 0 then snd (wait_for_partition sys (cstr ''gro0:'') e) else e)
               else e)
      in if \<not> file_exist sys (cstr ''grw0:'') e then
           (let (res, e) = mount_grw0 sys e
            in if res \<ge> 0 then snd (wait_for_partition sys (cstr ''grw0:'') e) else e)
         else e)"

definition mount_devices :: "'e io_sys \<Rightarrow> 'e \<Rightarrow> 'e" where
  "mount_devices sys e =
     (let (res, e) = mount_uma sys e;
          e = (if res \<ge> 0 then snd (wait_for_partition sys (cstr ''uma0:'') e) else e);
          (res, e) = mount_xmc sys e
      in if res \<ge> 0 then snd (wait_for_partition sys (cstr ''xmc0:'') e) else e)"

section \<open>Listing a directory\<close>

record SearchFilter =
  max_filesize :: u64
  file_only :: bool
  match_extension :: bytes

definition to_lower :: "u8 \<Rightarrow> u8" where
  "to_lower c = (if 0x41 \<le> c \<and> c \<le> 0x5A then c + 0x20 else c)"

definition strcasecmp_eq :: "bytes \<Rightarrow> bytes \<Rightarrow> bool" where
  "strcasecmp_eq a b \<longleftrightarrow> map to_lower (chars a) = map to_lower (chars b)"

text \<open>
  The comparison starts as many bytes before the end of the name as the extension has, which
  for a shorter name is before the name: \<open>front\<close> is the memory in front of it, the file
  status of the entry.
\<close>

definition extension_matches :: "bytes \<Rightarrow> bytes \<Rightarrow> bytes \<Rightarrow> bool" where
  "extension_matches front name extension =
     strcasecmp_eq (drop (length front + strlen name - strlen extension) (front @ name)) extension"

definition passes_filter :: "bytes \<Rightarrow> SearchFilter option \<Rightarrow> dirent \<Rightarrow> bool" where
  "passes_filter front filter_p ent =
     (case filter_p of
        None \<Rightarrow> True
      | Some f \<Rightarrow>
          if d_size ent > max_filesize f then False
          else if file_only f \<and> d_isdir ent then False
          else if match_extension f ! 0 \<noteq> of_char (CHR ''*'')
          then extension_matches front (d_name ent) (match_extension f)
          else True)"

text \<open>
  The loop: \<open>Inl\<close> is a failed read, whose code is stored in the inner variable \<^verbatim>\<open>res\<close> and so
  is not the code returned.
\<close>

fun list_turns ::
  "'e io_sys \<Rightarrow> bytes \<Rightarrow> SearchFilter option \<Rightarrow> int \<Rightarrow> nat \<Rightarrow> bytes \<times> nat \<times> 'e \<Rightarrow>
   (bytes \<times> nat \<times> 'e) + (bytes \<times> nat \<times> 'e)" where
  "list_turns sys front filter_p dfd 0 s = Inr s"
| "list_turns sys front filter_p dfd (Suc n) (out, found, e) =
     (let (res, ent, e) = sceIoDread sys dfd e
      in if res < 0 then Inl (out, found, e)
         else if res = 0 then Inr (out, found, e)
         else if d_name ent ! 0 = 0 then Inr (out, found, e)
         else if \<not> passes_filter front filter_p ent then list_turns sys front filter_p dfd n (out, found, e)
         else list_turns sys front filter_p dfd n
                (strncpy out (found * MAX_PATH) (d_name ent) (MAX_PATH - 1), found + 1, e))"

definition get_files_in_folder ::
  "'e io_sys \<Rightarrow> bytes \<Rightarrow> bytes \<Rightarrow> bytes \<Rightarrow> SearchFilter option \<Rightarrow> nat \<Rightarrow> 'e \<Rightarrow> int \<times> bytes \<times> nat \<times> 'e" where
  "get_files_in_folder sys front folder out_filenames filter_p max_files e =
     (let out = put_field (0, MAX_PATH * max_files) (zeros (MAX_PATH * max_files)) out_filenames;
          (dfd, e) = sceIoDopen sys folder e
      in if dfd < 0 then (dfd, out, 0, e)
         else
           (case list_turns sys front filter_p dfd max_files (out, 0, e) of
              Inl (out, found, e) \<Rightarrow>
                (let (_, e) = (if dfd \<ge> 0 then sceIoDclose sys dfd e else (0, e)) in (-1, out, found, e))
            | Inr (out, found, e) \<Rightarrow>
                (let (res, e) = sceIoDclose sys dfd e
                 in if res > 0 then
                      (let (_, e) = (if dfd \<ge> 0 then sceIoDclose sys dfd e else (0, e)) in (res, out, found, e))
                    else (0, out, found, e))))"

section \<open>Files\<close>

definition get_file_size :: "'e io_sys \<Rightarrow> bytes \<Rightarrow> 'e \<Rightarrow> u64" where
  "get_file_size sys filepath e = (let (res, st_size) = sceIoGetstat sys filepath e in if res \<ge> 0 then st_size else 0)"

text \<open>The data buffer has the size asked for; sizes are 32-bit on the console.\<close>

definition read_file :: "'e io_sys \<Rightarrow> bytes \<Rightarrow> bytes \<Rightarrow> 'e \<Rightarrow> int \<times> bytes \<times> 'e" where
  "read_file sys path data e =
     (let (fd, e) = sceIoOpen sys path SCE_O_RDONLY e;
          (res, data, e) =
            (if fd > 0 then
               (let (res, data', e) = sceIoRead sys fd data e
                in (if res < 0 then res
                    else if (word_of_int res :: u32) \<noteq> of_nat (length data) then SIZE_NOT_MATCH else res, data', e))
             else (-1, data, e))
      in (res, data, snd (sceIoClose sys fd e)))"

fun slash :: "u8 \<Rightarrow> bool" where
  "slash c \<longleftrightarrow> c = of_char (CHR ''/'') \<or> c = of_char (CHR 0x5C)"

declare slash.simps [simp del]

definition last_slash :: "bytes \<Rightarrow> nat" where
  "last_slash path = fold (\<lambda>i l. if slash (path ! i) then i else l) [0..<strlen path] 0"

definition extract_dirname :: "bytes \<Rightarrow> bytes \<Rightarrow> int \<times> bytes" where
  "extract_dirname path dir_name =
     (let dir_name = strncpy dir_name 0 path (length dir_name - 1);
          l = last_slash path
      in (int l, dir_name[l := 0]))"

definition make_directory_at :: "'e io_sys \<Rightarrow> bytes \<Rightarrow> nat \<Rightarrow> 'e \<Rightarrow> 'e" where
  "make_directory_at sys path i e =
     (if slash (path ! i) then
        (let dir_name = zeros MAX_PATH;
             dir_name = strncpy dir_name 0 path i
         in if \<not> file_exist sys dir_name e then sceIoMkdir sys dir_name e else e)
      else e)"

definition make_directories :: "'e io_sys \<Rightarrow> bytes \<Rightarrow> 'e \<Rightarrow> 'e" where
  "make_directories sys path e =
     (if file_exist sys path e then e
      else sceIoMkdir sys path (fold (make_directory_at sys path) [0..<strlen path] e))"

text \<open>\<open>stk\<close> is the uninitialised buffer of MAX_PATH bytes.\<close>

definition make_directories_excluding_last :: "bytes \<Rightarrow> 'e io_sys \<Rightarrow> bytes \<Rightarrow> 'e \<Rightarrow> 'e" where
  "make_directories_excluding_last stk sys filepath e =
     (let (_, dir_name) = extract_dirname filepath stk in make_directories sys dir_name e)"

definition write_file :: "bytes \<Rightarrow> 'e io_sys \<Rightarrow> bytes \<Rightarrow> bytes \<Rightarrow> 'e \<Rightarrow> int \<times> 'e" where
  "write_file stk sys path data e =
     (let e = make_directories_excluding_last stk sys path e;
          (wfd, e) = sceIoOpen sys path (SCE_O_WRONLY + SCE_O_CREAT) e;
          (res, e) =
            (if wfd < 0 then (wfd, e)
             else if wfd > 0 then
               (let (res, e) = sceIoWrite sys wfd data e
                in (if res < 0 then res
                    else if (word_of_int res :: u32) \<noteq> of_nat (length data) then SIZE_NOT_MATCH else res, e))
             else (-1, e))
      in (res, snd (sceIoClose sys wfd e)))"

text \<open>
  A step that fails returns the size of the file, cut to an int; success and a failed
  allocation return zero.
\<close>

definition copy_file :: "bytes \<Rightarrow> bytes \<Rightarrow> 'e io_sys \<Rightarrow> bytes \<Rightarrow> bytes \<Rightarrow> 'e \<Rightarrow> int \<times> 'e" where
  "copy_file stk heap sys path new_path e =
     (let file_size = get_file_size sys path e
      in if malloc_ok sys file_size e then
           (let (rd, data, e) = read_file sys path (take (unat file_size) heap) e
            in if (word_of_int rd :: u64) \<noteq> file_size then (sint (ucast file_size :: u32), e)
               else
                 (let (wr, e) = write_file stk sys new_path data e
                  in if (word_of_int wr :: u64) \<noteq> file_size then (sint (ucast file_size :: u32), e)
                     else (0, e)))
         else (0, e))"

definition get_free_space :: "'e io_sys \<Rightarrow> bytes \<Rightarrow> 'e \<Rightarrow> u64" where
  "get_free_space sys device e =
     (if chars device = chars (cstr ''host0:'') then 0xFFFFFFFFFFFFFFFF
      else (let (res, free_size) = sceIoDevctl_free sys device e in if res < 0 then 0 else free_size))"

section \<open>Names\<close>

definition change_extension :: "bytes \<Rightarrow> nat \<Rightarrow> bytes \<Rightarrow> bytes" where
  "change_extension path path_length new_extension =
     (let len = min (strlen path) path_length
      in case List.find (\<lambda>i. path ! i = of_char (CHR ''.'')) [0..<len] of
           None \<Rightarrow> path
         | Some i \<Rightarrow> strncpy path i new_extension (path_length - i))"

definition illegal_char :: "u8 \<Rightarrow> bool" where
  "illegal_char c \<longleftrightarrow> c \<in> set (map of_char [CHR ''/'', CHR 0x5C, CHR '':'', CHR ''?'', CHR ''*'', CHR 0x22, CHR ''|'',
     CHR ''>'', CHR 0x0A, CHR 0x0D, CHR ''<''])"

definition remove_illegal_chars :: "bytes \<Rightarrow> bytes" where
  "remove_illegal_chars str =
     fold (\<lambda>i s. if illegal_char (s ! i) then s[i := 0x20] else s) [0..<strlen str] str"

section \<open>Listings\<close>

text \<open>A directory with the entries \<open>es\<close>, read through the handle \<open>dfd\<close>; \<open>unread\<close> are those still to come.\<close>

definition directory :: "'e io_sys \<Rightarrow> bytes \<Rightarrow> int \<Rightarrow> dirent list \<Rightarrow> ('e \<Rightarrow> dirent list) \<Rightarrow> bool" where
  "directory sys folder dfd es unread \<longleftrightarrow>
     0 \<le> dfd \<and> (\<forall>x \<in> set es. d_name x ! 0 \<noteq> 0) \<and>
     (\<forall>e. \<exists>e'. sceIoDopen sys folder e = (dfd, e') \<and> unread e' = es) \<and>
     (\<forall>e. case unread e of
        [] \<Rightarrow> \<exists>x e'. sceIoDread sys dfd e = (0, x, e') \<and> unread e' = []
      | x # xs \<Rightarrow> \<exists>e'. sceIoDread sys dfd e = (1, x, e') \<and> unread e' = xs) \<and>
     (\<forall>e. fst (sceIoDclose sys dfd e) = 0)"

text \<open>The names in the slots of the output array.\<close>

definition slot :: "bytes \<Rightarrow> nat \<Rightarrow> bytes" where
  "slot out k = get_field (k * MAX_PATH, MAX_PATH) out"

definition stored_name :: "bytes \<Rightarrow> bytes" where
  "stored_name name = take (MAX_PATH - 1) (chars name)"

lemma slots_disjoint: "j \<noteq> k \<Longrightarrow> disjoint_fields (j * MAX_PATH, MAX_PATH) (k * MAX_PATH, MAX_PATH - 1)"
proof -
  assume "j \<noteq> k"
  then consider "Suc j \<le> k" | "Suc k \<le> j" by linarith
  then show ?thesis
  proof cases
    case 1
    then have "Suc j * MAX_PATH \<le> k * MAX_PATH" by (rule mult_le_mono1)
    then show ?thesis by simp
  next
    case 2
    then have "Suc k * MAX_PATH \<le> j * MAX_PATH" by (rule mult_le_mono1)
    then show ?thesis by (simp add: MAX_PATH_def)
  qed
qed

lemma slot_bounds: "k < n \<Longrightarrow> length out = MAX_PATH * n \<Longrightarrow> in_bounds (k * MAX_PATH, MAX_PATH) out"
proof -
  assume "k < n" "length out = MAX_PATH * n"
  moreover from this have "Suc k * MAX_PATH \<le> n * MAX_PATH" by (intro mult_le_mono1) simp
  ultimately show ?thesis by (simp add: mult.commute)
qed

lemma store_name:
  assumes "k < n" "length out = MAX_PATH * n" "slot out k = zeros MAX_PATH"
    and out'_def: "out' = strncpy out (k * MAX_PATH) name (MAX_PATH - 1)"
  shows "chars (slot out' k) = stored_name name" "j \<noteq> k \<Longrightarrow> slot out' j = slot out j" "length out' = length out"
proof -
  let ?v = "take (MAX_PATH - 1) (chars name) @ zeros (MAX_PATH - 1 - strlen name)"
  have b: "k * MAX_PATH + MAX_PATH \<le> length out" using slot_bounds [OF assms(1,2)] by simp
  then have o': "out' = put_field (k * MAX_PATH, MAX_PATH - 1) ?v out"
    unfolding out'_def by (intro strncpy_field) (simp add: MAX_PATH_def)
  have v: "length ?v = MAX_PATH - 1" by (simp add: min_def) arith
  have "slot out' k = get_field (k * MAX_PATH, MAX_PATH - 1) out' @ get_field (k * MAX_PATH + (MAX_PATH - 1), 1) out'"
    unfolding slot_def using get_field_append [of "k * MAX_PATH" "MAX_PATH - 1" out' 1] by (simp add: MAX_PATH_def)
  also have "get_field (k * MAX_PATH, MAX_PATH - 1) out' = ?v" unfolding o' using b v by (intro get_put_same) simp_all
  also have "get_field (k * MAX_PATH + (MAX_PATH - 1), 1) out' = get_field (k * MAX_PATH + (MAX_PATH - 1), 1) out"
    unfolding o' using b v by (intro get_put_disjoint) simp_all
  also have "\<dots> = [0]"
  proof -
    have "get_field (k * MAX_PATH + (MAX_PATH - 1), 1) out = get_field (MAX_PATH - 1, 1) (slot out k)"
      unfolding slot_def by (simp add: get_field_get_field MAX_PATH_def)
    then show ?thesis unfolding assms(3) by (simp add: get_field.simps MAX_PATH_def zeros_def)
  qed
  finally have s: "slot out' k = take (MAX_PATH - 1) (chars name) @ zeros (MAX_PATH - 1 - strlen name) @ [0]" by simp
  have "zeros (MAX_PATH - 1 - strlen name) @ [0] = 0 # zeros (MAX_PATH - 1 - strlen name)"
    by (simp add: zeros_def replicate_append_same)
  moreover have "c \<noteq> 0" if "c \<in> set (take (MAX_PATH - 1) (chars name))" for c
    using that set_chars by (auto dest: in_set_takeD)
  ultimately show "chars (slot out' k) = stored_name name"
    unfolding s stored_name_def by (simp only:) (rule chars_append_0, blast)
  show "j \<noteq> k \<Longrightarrow> slot out' j = slot out j"
    unfolding slot_def o' using b v by (intro get_put_disjoint slots_disjoint) simp_all
  show "length out' = length out" unfolding out'_def by simp
qed

lemma directory_reads:
  assumes "directory sys folder dfd es unread"
  shows "unread e = [] \<Longrightarrow> \<exists>x e'. sceIoDread sys dfd e = (0, x, e') \<and> unread e' = []"
    and "unread e = x # xs \<Longrightarrow> \<exists>e'. sceIoDread sys dfd e = (1, x, e') \<and> unread e' = xs"
proof -
  have "case unread e of
      [] \<Rightarrow> \<exists>x e'. sceIoDread sys dfd e = (0, x, e') \<and> unread e' = []
    | x # xs \<Rightarrow> \<exists>e'. sceIoDread sys dfd e = (1, x, e') \<and> unread e' = xs"
    using assms unfolding directory_def by blast
  then show "unread e = [] \<Longrightarrow> \<exists>x e'. sceIoDread sys dfd e = (0, x, e') \<and> unread e' = []"
    "unread e = x # xs \<Longrightarrow> \<exists>e'. sceIoDread sys dfd e = (1, x, e') \<and> unread e' = xs" by simp_all
qed

lemma list_turns_all:
  assumes dir: "directory sys folder dfd es unread"
  shows "unread e = xs \<Longrightarrow> set xs \<subseteq> set es \<Longrightarrow> length out = MAX_PATH * m \<Longrightarrow> found + n \<le> m \<Longrightarrow>
    (\<forall>j. found \<le> j \<and> j < m \<longrightarrow> slot out j = zeros MAX_PATH) \<Longrightarrow>
    \<exists>out' e'. list_turns sys front f dfd n (out, found, e) =
      Inr (out', found + length (filter (passes_filter front f) (take n xs)), e') \<and>
      (\<forall>j < found. slot out' j = slot out j) \<and>
      (\<forall>j < length (filter (passes_filter front f) (take n xs)).
         chars (slot out' (found + j)) = stored_name (d_name (filter (passes_filter front f) (take n xs) ! j)))"
proof (induction n arbitrary: xs out found e)
  case 0
  then show ?case by auto
next
  case (Suc n)
  show ?case
  proof (cases xs)
    case Nil
    with Suc.prems(1) directory_reads(1) [OF dir, of e] obtain x e' where "sceIoDread sys dfd e = (0, x, e')" by blast
    with Nil show ?thesis by auto
  next
    case (Cons x ys)
    with Suc.prems(1) directory_reads(2) [OF dir, of e x ys] obtain e1 where
      r: "sceIoDread sys dfd e = (1, x, e1)" "unread e1 = ys" by blast
    have x: "d_name x ! 0 \<noteq> 0" using Cons Suc.prems(2) dir by (auto simp: directory_def)
    have ys: "set ys \<subseteq> set es" using Cons Suc.prems(2) by simp
    show ?thesis
    proof (cases "passes_filter front f x")
      case False
      have "found + n \<le> m" using Suc.prems(4) by simp
      from Suc.IH [OF r(2) ys Suc.prems(3) this Suc.prems(5)] Cons r(1) x False show ?thesis by simp
    next
      case True
      let ?out = "strncpy out (found * MAX_PATH) (d_name x) (MAX_PATH - 1)"
      have k: "found < m" using Suc.prems(4) by simp
      then have "slot out found = zeros MAX_PATH" using Suc.prems(5) by simp
      note st = store_name [OF k Suc.prems(3) this refl, where name = "d_name x"]
      have b: "length ?out = MAX_PATH * m" "(found + 1) + n \<le> m" "\<forall>j. found + 1 \<le> j \<and> j < m \<longrightarrow> slot ?out j = zeros MAX_PATH"
        using st(2) Suc.prems(3,4,5) by auto
      from Suc.IH [OF r(2) ys b] obtain out' e' where
        run: "list_turns sys front f dfd n (?out, found + 1, e1) =
          Inr (out', found + 1 + length (filter (passes_filter front f) (take n ys)), e')"
        and old: "\<forall>j < found + 1. slot out' j = slot ?out j"
        and new: "\<forall>j < length (filter (passes_filter front f) (take n ys)).
          chars (slot out' (found + 1 + j)) = stored_name (d_name (filter (passes_filter front f) (take n ys) ! j))"
        by blast
      have "chars (slot out' (found + j)) = stored_name (d_name ((x # filter (passes_filter front f) (take n ys)) ! j))"
        if "j < Suc (length (filter (passes_filter front f) (take n ys)))" for j
        using that old new st(1) by (cases j) auto
      moreover have "\<forall>j < found. slot out' j = slot out j" using old st(2) by auto
      ultimately show ?thesis using run r(1) x True Cons by auto
    qed
  qed
qed

lemma slot_zeros: "j < m \<Longrightarrow> slot (zeros (MAX_PATH * m)) j = zeros MAX_PATH"
proof -
  assume "j < m"
  then have "Suc j * MAX_PATH \<le> m * MAX_PATH" by (intro mult_le_mono1) simp
  then have "min MAX_PATH (MAX_PATH * m - j * MAX_PATH) = MAX_PATH" by (simp add: mult.commute)
  then show ?thesis by (simp add: slot_def get_field.simps)
qed

text \<open>Listing a directory reports success and fills the output array, slot by slot, with the
  names, cut to the slot, of the entries that pass the filter among the first entries of the
  directory, as many as the array has slots; entries that the filter drops count against that
  number too.\<close>

theorem listing_is_filtered_prefix:
  assumes dir: "directory sys folder dfd es unread" and out: "length out = MAX_PATH * m"
    and chosen: "chosen = filter (passes_filter front f) (take m es)"
  shows "\<exists>out' e'. get_files_in_folder sys front folder out f m e = (0, out', length chosen, e') \<and>
    (\<forall>k < length chosen. chars (slot out' k) = stored_name (d_name (chosen ! k)))"
proof -
  from dir obtain e1 where o: "sceIoDopen sys folder e = (dfd, e1)" "unread e1 = es" and d: "0 \<le> dfd"
    unfolding directory_def by blast
  have z: "put_field (0, MAX_PATH * m) (zeros (MAX_PATH * m)) out = zeros (MAX_PATH * m)"
    by (rule put_field_all [OF out])
  from list_turns_all [OF dir o(2), of "zeros (MAX_PATH * m)" m 0 m front f] obtain out' e2 where
    run: "list_turns sys front f dfd m (zeros (MAX_PATH * m), 0, e1) = Inr (out', length chosen, e2)"
    and names: "\<forall>k < length chosen. chars (slot out' k) = stored_name (d_name (chosen ! k))"
    unfolding chosen by (auto simp: slot_zeros)
  have "fst (sceIoDclose sys dfd e2) = 0" using dir by (simp add: directory_def)
  then obtain e3 where "sceIoDclose sys dfd e2 = (0, e3)" by (cases "sceIoDclose sys dfd e2") simp
  with o(1) d run z have "get_files_in_folder sys front folder out f m e = (0, out', length chosen, e3)"
    by (simp add: get_files_in_folder_def)
  with names show ?thesis by blast
qed

section \<open>Directories\<close>

text \<open>The directory part of a name, if it has a slash.\<close>

definition parent :: "bytes \<Rightarrow> bytes option" where
  "parent p = (case [i \<leftarrow> [0..<length p]. slash (p ! i)] of [] \<Rightarrow> None | is \<Rightarrow> Some (take (last is) p))"

text \<open>A tree of directories: one is created where its parent exists, and nowhere else.\<close>

definition tree :: "'e io_sys \<Rightarrow> ('e \<Rightarrow> bytes set) \<Rightarrow> bool" where
  "tree sys dirs \<longleftrightarrow>
     (\<forall>p e. file_exist sys p e \<longleftrightarrow> chars p \<in> dirs e) \<and>
     (\<forall>p e. dirs (sceIoMkdir sys p e) =
        (case parent (chars p) of
           None \<Rightarrow> dirs e
         | Some q \<Rightarrow> if q \<in> dirs e then insert (chars p) (dirs e) else dirs e))"

definition ancestors_in :: "bytes \<Rightarrow> bytes set \<Rightarrow> bool" where
  "ancestors_in p D \<longleftrightarrow> (\<forall>i < length p. slash (p ! i) \<longrightarrow> take i p \<in> D)"

definition root_in :: "bytes \<Rightarrow> bytes set \<Rightarrow> bool" where
  "root_in p D \<longleftrightarrow> (\<forall>i < length p. slash (p ! i) \<and> (\<forall>j < i. \<not> slash (p ! j)) \<longrightarrow> take i p \<in> D)"

lemma parent_None: "parent p = None \<longleftrightarrow> (\<forall>i < length p. \<not> slash (p ! i))"
proof -
  have "parent p = None \<longleftrightarrow> [i \<leftarrow> [0..<length p]. slash (p ! i)] = []"
    by (simp add: parent_def split: list.split)
  then show ?thesis by (simp add: filter_empty_conv Ball_def)
qed

lemma parent_Some:
  assumes "parent p = Some q"
  obtains i where "i < length p" "slash (p ! i)" "q = take i p"
proof -
  let ?is = "[i \<leftarrow> [0..<length p]. slash (p ! i)]"
  from assms have "?is \<noteq> []" "q = take (last ?is) p" by (auto simp: parent_def split: list.splits)
  moreover from this(1) have "last ?is \<in> set ?is" by (rule last_in_set)
  ultimately show ?thesis by (intro that [of "last ?is"]) auto
qed

lemma tree_facts:
  assumes "tree sys dirs"
  shows "file_exist sys p e \<longleftrightarrow> chars p \<in> dirs e" "dirs e \<subseteq> dirs (sceIoMkdir sys p e)"
    "parent (chars p) = Some q \<Longrightarrow> q \<in> dirs e \<Longrightarrow> chars p \<in> dirs (sceIoMkdir sys p e)"
  using assms unfolding tree_def by (auto split: option.split)

text \<open>The directory that is made next has its ancestors, which were made front.\<close>

lemma mkdir_in_order:
  assumes t: "tree sys dirs" and p: "chars b = take i p" "i \<le> length p" "i < length p \<longrightarrow> slash (p ! i)"
    and front: "\<forall>j < i. slash (p ! j) \<longrightarrow> take j p \<in> dirs e"
    and root: "root_in p (dirs e)" and i: "i = length p \<longrightarrow> (\<exists>j < i. slash (p ! j)) \<or> p \<in> dirs e"
    and new: "\<not> file_exist sys b e"
  shows "take i p \<in> dirs (sceIoMkdir sys b e)"
proof (cases "parent (take i p)")
  case None
  then have no: "\<forall>j < i. \<not> slash (p ! j)" using p(2) by (auto simp: parent_None)
  then have "take i p \<in> dirs e"
    using p(2,3) root i by (cases "i < length p") (auto simp: root_in_def)
  then show ?thesis using new tree_facts(1) [OF t] p(1) by simp
next
  case (Some q)
  then obtain j where j: "j < length (take i p)" "slash (take i p ! j)" "q = take j (take i p)" by (rule parent_Some)
  from j(1) have "j < i" by simp
  with j have "slash (p ! j)" "q = take j p" by simp_all
  note j = \<open>j < i\<close> this
  with front j have "q \<in> dirs e" by blast
  with tree_facts(3) [OF t, of b q e] Some p(1) show ?thesis by simp
qed

lemma make_directory_at_mono: "tree sys dirs \<Longrightarrow> dirs e \<subseteq> dirs (make_directory_at sys p i e)"
  using tree_facts(2) by (fastforce simp: make_directory_at_def Let_def)

lemma chars_strncpy_zeros:
  assumes "i \<le> strlen p" "i < MAX_PATH"
  shows "chars (strncpy (zeros MAX_PATH) 0 p i) = take i (chars p)"
proof -
  have "strncpy (zeros MAX_PATH) 0 p i = put_field (0, i) (take i (chars p) @ zeros (i - strlen p)) (zeros MAX_PATH)"
    using assms by (intro strncpy_field) simp
  also have "\<dots> = take i (chars p) @ zeros (MAX_PATH - i)"
    using assms by (simp add: put_field.simps zeros_def)
  also have "zeros (MAX_PATH - i) = 0 # zeros (MAX_PATH - i - 1)" using assms(2) by (simp add: zeros_def flip: replicate_Suc)
  finally show ?thesis
    using set_chars by (simp only:) (rule chars_append_0, auto dest: in_set_takeD)
qed

lemma directories_made:
  assumes t: "tree sys dirs" and p: "strlen p < MAX_PATH" and root: "root_in (chars p) (dirs e)"
  shows "n \<le> strlen p \<Longrightarrow> dirs e \<subseteq> dirs (fold (make_directory_at sys p) [0..<n] e) \<and>
    (\<forall>i < n. slash (chars p ! i) \<longrightarrow> take i (chars p) \<in> dirs (fold (make_directory_at sys p) [0..<n] e))"
proof (induction n)
  case (Suc n)
  let ?e = "fold (make_directory_at sys p) [0..<n] e" and ?P = "chars p"
  have IH: "dirs e \<subseteq> dirs ?e" "\<forall>i < n. slash (?P ! i) \<longrightarrow> take i ?P \<in> dirs ?e" using Suc by simp_all
  have n: "n < strlen p" using Suc.prems by simp
  have mono: "dirs ?e \<subseteq> dirs (make_directory_at sys p n ?e)" by (rule make_directory_at_mono [OF t])
  have "take n ?P \<in> dirs (make_directory_at sys p n ?e)" if sl: "slash (?P ! n)"
  proof -
    let ?b = "strncpy (zeros MAX_PATH) 0 p n"
    have b: "chars ?b = take n ?P" by (rule chars_strncpy_zeros) (use n p in simp_all)
    have sp: "slash (p ! n)" using sl n by (simp add: nth_chars)
    show ?thesis
    proof (cases "file_exist sys ?b ?e")
      case True
      then show ?thesis using sp b tree_facts(1) [OF t] by (simp add: make_directory_at_def)
    next
      case False
      have "root_in ?P (dirs ?e)" using root IH(1) by (auto simp: root_in_def)
      from mkdir_in_order [OF t b _ _ IH(2) this _ False] False sp sl n show ?thesis
        by (simp add: make_directory_at_def)
    qed
  qed
  with mono IH show ?case by (auto simp: less_Suc_eq)
qed simp

lemma last_slash_max:
  "n \<le> length path \<Longrightarrow>
   (let l = fold (\<lambda>i l. if slash (path ! i) then i else l) [0..<n] 0
    in (l < n \<or> n = 0 \<and> l = 0) \<and> (\<forall>i < n. slash (path ! i) \<longrightarrow> i \<le> l \<and> slash (path ! l)))"
proof (induction n)
  case (Suc n)
  then show ?case by (auto simp: Let_def less_Suc_eq)
qed simp

lemma extract_dirname_chars:
  assumes "strlen path < MAX_PATH" "length stk = MAX_PATH"
  shows "chars (snd (extract_dirname path stk)) = take (last_slash path) (chars path)"
proof -
  let ?l = "last_slash path"
  have l: "?l \<le> strlen path"
    using last_slash_max [of "strlen path" path] strlen_le [of path] by (auto simp: last_slash_def Let_def)
  let ?d = "strncpy stk 0 path (length stk - 1)"
  have d: "take ?l ?d = take ?l (chars path)"
    using l assms by (intro nth_equalityI) (auto simp: nth_strncpy nth_chars)
  have "?d[?l := 0] = take ?l (chars path) @ 0 # drop (Suc ?l) ?d"
    using l assms d by (simp add: upd_conv_take_nth_drop)
  moreover have "chars (take ?l (chars path) @ 0 # drop (Suc ?l) ?d) = take ?l (chars path)"
    using set_chars by (intro chars_append_0) (auto dest: in_set_takeD)
  ultimately show ?thesis by (simp add: extract_dirname_def Let_def)
qed

text \<open>C28: Before a file is written, every directory on its path exists: if the root of the path
  exists and the tree is closed, make_directories_excluding_last leaves all ancestors of the
  path in the tree, creating the missing ones parents first.\<close>

theorem ancestors_are_created:
  assumes t: "tree sys dirs" and path: "strlen path < MAX_PATH" and stk: "length stk = MAX_PATH"
    and root: "root_in (chars path) (dirs e)" and closed: "\<forall>p \<in> dirs e. ancestors_in p (dirs e)"
  shows "ancestors_in (chars path) (dirs (make_directories_excluding_last stk sys path e))"
proof -
  let ?l = "last_slash path" and ?P = "chars path"
  let ?b = "snd (extract_dirname path stk)"
  have b: "chars ?b = take ?l ?P" by (rule extract_dirname_chars [OF path stk])
  have ls: "?l \<le> strlen path" "\<forall>i < strlen path. slash (?P ! i) \<longrightarrow> i \<le> ?l \<and> ?l < strlen path \<and> slash (?P ! ?l)"
    using last_slash_max [of "strlen path" path] strlen_le [of path] by (auto simp: last_slash_def Let_def nth_chars)
  let ?D = "take ?l ?P"
  have sl: "strlen ?b = ?l" using ls(1) b by (metis length_chars length_take min.absorb2)
  let ?e' = "make_directories sys ?b e"
  have made_D: "?D \<in> dirs ?e' \<and> ancestors_in ?D (dirs ?e')" if ex: "\<exists>i < strlen path. slash (?P ! i)"
  proof (cases "file_exist sys ?b e")
    case True
    then show ?thesis using tree_facts(1) [OF t] b closed by (auto simp: make_directories_def)
  next
    case False
    let ?f = "fold (make_directory_at sys ?b) [0..<strlen ?b] e"
    have rD: "root_in ?D (dirs e)" using root ls(1) by (auto simp: root_in_def)
    have "strlen ?b < MAX_PATH" "root_in (chars ?b) (dirs e)" using sl ls(1) path rD b by simp_all
    from directories_made [OF t this, of "strlen ?b"] have
      made: "dirs e \<subseteq> dirs ?f" "\<forall>i < ?l. slash (?D ! i) \<longrightarrow> take i ?D \<in> dirs ?f" by (simp_all add: b sl)
    have anc: "ancestors_in ?D (dirs (sceIoMkdir sys ?b ?f))"
      using made(2) tree_facts(2) [OF t, of ?f ?b] ls(1) by (auto simp: ancestors_in_def)
    have "?D \<in> dirs (sceIoMkdir sys ?b ?f)"
    proof (cases "file_exist sys ?b ?f")
      case True
      then have "?D \<in> dirs ?f" using tree_facts(1) [OF t, of ?b ?f] b by simp
      then show ?thesis by (rule subsetD [OF tree_facts(2) [OF t]])
    next
      case new: False
      have rf: "root_in ?D (dirs ?f)" using rD made(1) by (auto simp: root_in_def)
      have c: "chars ?b = take (length ?D) ?D" using b ls(1) by (simp add: min_absorb2)
      have last_case: "(\<exists>j < length ?D. slash (?D ! j)) \<or> ?D \<in> dirs ?f"
      proof (cases "\<exists>j < length ?D. slash (?D ! j)")
        case no: False
        have "slash (?P ! ?l)" "?l < length ?P" using ls(2) ex by auto
        moreover have "\<forall>j < ?l. \<not> slash (?P ! j)" using no ls(1) by auto
        ultimately have "?D \<in> dirs e" using root by (auto simp: root_in_def)
        with made(1) show ?thesis by blast
      qed simp
      from mkdir_in_order [OF t c _ _ _ rf _ new] made(2) ls(1) last_case show ?thesis by auto
    qed
    with anc show ?thesis using False by (simp add: make_directories_def)
  qed
  have e': "make_directories_excluding_last stk sys path e = ?e'"
    by (simp add: make_directories_excluding_last_def case_prod_unfold Let_def)
  show ?thesis
    unfolding ancestors_in_def length_chars e'
  proof (intro allI impI)
    fix i assume i: "i < strlen path" "slash (?P ! i)"
    then have "\<exists>i < strlen path. slash (?P ! i)" by (intro exI [of _ i] conjI)
    note D = conjunct1 [OF made_D [OF this]] conjunct2 [OF made_D [OF this]]
    show "take i ?P \<in> dirs ?e'"
    proof (cases "i = ?l")
      case False
      with ls(2) i have "i < ?l" by fastforce
      then have "take i ?D \<in> dirs ?e'" using D(2) i ls(1) by (simp add: ancestors_in_def)
      with \<open>i < ?l\<close> show ?thesis by (simp add: min_def)
    qed (use D in simp)
  qed
qed

text \<open>Two directories and a tree of directories to list and to extend.\<close>

definition small_disk :: "(dirent list \<times> bytes set) io_sys" where
  "small_disk =
     \<lparr>sceIoGetstat = (\<lambda>p (es, D). (if chars p \<in> D then 0 else -1, 0)),
      sceIoDopen = (\<lambda>p (es, D). (3, ([\<lparr>d_name = cstr ''a.vci'', d_size = 7, d_isdir = False\<rparr>,
         \<lparr>d_name = cstr ''b'', d_size = 0, d_isdir = True\<rparr>], D))),
      sceIoDread = (\<lambda>fd (es, D). case es of [] \<Rightarrow> (0, \<lparr>d_name = [0], d_size = 0, d_isdir = False\<rparr>, ([], D))
         | x # xs \<Rightarrow> (1, x, (xs, D))),
      sceIoDclose = (\<lambda>fd s. (0, s)), sceIoOpen = (\<lambda>p f s. (-1, s)), sceIoRead = (\<lambda>fd b s. (-1, b, s)),
      sceIoWrite = (\<lambda>fd b s. (-1, s)), sceIoClose = (\<lambda>fd s. (0, s)),
      sceIoMkdir = (\<lambda>p (es, D). (es, case parent (chars p) of None \<Rightarrow> D
         | Some q \<Rightarrow> if q \<in> D then insert (chars p) D else D)),
      sceIoDevctl_free = (\<lambda>p s. (0, 0)), vshIoMount = (\<lambda>i p s. (0, s)), vshIoUmount = (\<lambda>i p s. s),
      sceKernelDelayThread = (\<lambda>n s. s), malloc_ok = (\<lambda>n s. True)\<rparr>"

lemma small_directory:
  "directory small_disk folder 3 [\<lparr>d_name = cstr ''a.vci'', d_size = 7, d_isdir = False\<rparr>,
     \<lparr>d_name = cstr ''b'', d_size = 0, d_isdir = True\<rparr>] fst"
  by (auto simp: directory_def small_disk_def cstr_def split: list.split)

lemma small_tree: "tree small_disk snd"
  by (auto simp: tree_def small_disk_def file_exist_def split: prod.split option.split)

theorem listing_is_filtered_prefix_witness:
  "\<exists>out' e'. get_files_in_folder small_disk (zeros 32) (cstr ''ux0:'') (zeros (MAX_PATH * 5))
      (Some \<lparr>max_filesize = 10, file_only = True, match_extension = cstr ''*''\<rparr>) 5 ([], {}) = (0, out', 1, e') \<and>
    chars (slot out' 0) = stored_name (cstr ''a.vci'')"
  using listing_is_filtered_prefix [OF small_directory length_zeros refl, where front = "zeros 32" and m = 5 and
      f = "Some \<lparr>max_filesize = 10, file_only = True, match_extension = cstr ''*''\<rparr>"]
  by (simp add: passes_filter_def cstr_def)

theorem ancestors_are_created_witness:
  "ancestors_in (chars (cstr ''u:/a/b''))
     (snd (make_directories_excluding_last (zeros MAX_PATH) small_disk (cstr ''u:/a/b'') ([], {chars (cstr ''u:'')})))"
proof (rule ancestors_are_created [OF small_tree])
  have c: "chars (cstr ''u:/a/b'') = [117, 58, 47, 97, 47, 98]" "chars (cstr ''u:'') = [117, 58]"
    by (simp_all add: chars_def cstr_def)
  show "strlen (cstr ''u:/a/b'') < MAX_PATH" by (simp add: strlen_def cstr_def MAX_PATH_def)
  show "root_in (chars (cstr ''u:/a/b'')) (snd ([], {chars (cstr ''u:'')}))"
    by (auto simp: root_in_def c slash.simps less_Suc_eq)
  show "\<forall>p \<in> snd ([], {chars (cstr ''u:'')}). ancestors_in p (snd ([], {chars (cstr ''u:'')}))"
    by (auto simp: ancestors_in_def c slash.simps less_Suc_eq)
qed simp

end
