(* ===== verification/Config.thy ===== *)
theory Config
  imports Paths
begin

text \<open>
  \<^verbatim>\<open>app/config.c\<close>: the settings of the application, their defaults, and the file they are kept in.
  The settings are a C structure written to the file as it lies in memory; the size of its
  two enumerations depends on the compiler and is the argument \<open>es\<close>, one or four bytes.
\<close>

section \<open>The settings\<close>

definition CONFIG_SAVE_LOCATION :: bytes where "CONFIG_SAVE_LOCATION = cstr ''savedata0:/config.bin''"
definition DEFAULT_IP :: bytes where "DEFAULT_IP = cstr ''192.168.1.0''"
definition DEFAULT_PORT :: u16 where "DEFAULT_PORT = 46327"
definition DEFAULT_FOLDER_NAME :: bytes where "DEFAULT_FOLDER_NAME = cstr ''bak''"
definition GCTK_MAJOR_VERISON :: u16 where "GCTK_MAJOR_VERISON = 1"
definition GCTK_MINOR_VERSION :: u16 where "GCTK_MINOR_VERSION = 0"

definition MUSIC_USE_SYSTEM_SETTING :: u32 where "MUSIC_USE_SYSTEM_SETTING = 0"
definition MUSIC_ENABLE :: u32 where "MUSIC_ENABLE = 1"
definition MUSIC_DISABLE :: u32 where "MUSIC_DISABLE = 2"
definition CONFIRM_USE_SYSTEM_SETTING :: u32 where "CONFIRM_USE_SYSTEM_SETTING = 0"
definition CONFIRM_CIRCLE :: u32 where "CONFIRM_CIRCLE = 1"
definition CONFIRM_CROSS :: u32 where "CONFIRM_CROSS = 2"

record GcConfig =
  major_version :: u16
  minor_version :: u16
  ip_address :: bytes
  port :: u16
  backup_folder :: bytes
  music_setting :: u32
  confirm_setting :: u32

definition cfg_major :: field where [struct_fields]: "cfg_major = (0, 2)"
definition cfg_minor :: field where [struct_fields]: "cfg_minor = (2, 2)"
definition cfg_ip :: field where [struct_fields]: "cfg_ip = (4, 16)"
definition cfg_port :: field where [struct_fields]: "cfg_port = (20, 2)"
definition cfg_folder :: field where [struct_fields]: "cfg_folder = (22, MAX_PATH)"
definition cfg_music :: "nat \<Rightarrow> field" where [struct_fields]: "cfg_music es = (22 + MAX_PATH, es)"
definition cfg_confirm :: "nat \<Rightarrow> field" where [struct_fields]: "cfg_confirm es = (22 + MAX_PATH + es, es)"
definition sizeof_GcConfig :: "nat \<Rightarrow> nat" where "sizeof_GcConfig es = 22 + MAX_PATH + 2 * es"

definition config_bytes :: "nat \<Rightarrow> GcConfig \<Rightarrow> bytes" where
  "config_bytes es c = le_bytes 2 (major_version c) @ le_bytes 2 (minor_version c) @ ip_address c @
     le_bytes 2 (port c) @ backup_folder c @ le_bytes es (music_setting c) @ le_bytes es (confirm_setting c)"

definition config_of_bytes :: "nat \<Rightarrow> bytes \<Rightarrow> GcConfig" where
  "config_of_bytes es b =
     \<lparr>major_version = le_word (get_field cfg_major b), minor_version = le_word (get_field cfg_minor b),
      ip_address = get_field cfg_ip b, port = le_word (get_field cfg_port b), backup_folder = get_field cfg_folder b,
      music_setting = le_word (get_field (cfg_music es) b), confirm_setting = le_word (get_field (cfg_confirm es) b)\<rparr>"

section \<open>Reading the settings\<close>

text \<open>The registry query gives a code and a number; the answer is an int used as a truth value.\<close>

definition is_music_enabled :: "GcConfig \<Rightarrow> ('e \<Rightarrow> int \<times> int) \<Rightarrow> 'e \<Rightarrow> int" where
  "is_music_enabled CONFIG sceRegMgrGetKeyInt_bgm e =
     (if music_setting CONFIG = MUSIC_USE_SYSTEM_SETTING then
        (let (res, bgm) = sceRegMgrGetKeyInt_bgm e in if res < 0 then 0 else bgm)
      else if music_setting CONFIG = MUSIC_ENABLE then 1
      else if music_setting CONFIG = MUSIC_DISABLE then 0
      else 0)"

definition is_circle_confirm :: "GcConfig \<Rightarrow> ('e \<Rightarrow> int \<times> int) \<Rightarrow> 'e \<Rightarrow> bool" where
  "is_circle_confirm CONFIG sceRegMgrGetKeyInt_assign e =
     (if confirm_setting CONFIG = CONFIRM_USE_SYSTEM_SETTING then
        (let (res, cross_confirm) = sceRegMgrGetKeyInt_assign e in if res < 0 then False else cross_confirm = 0)
      else if confirm_setting CONFIG = CONFIRM_CIRCLE then True
      else if confirm_setting CONFIG = CONFIRM_CROSS then False
      else False)"

section \<open>Loading and saving\<close>

definition save_config :: "bytes \<Rightarrow> nat \<Rightarrow> 'e io_sys \<Rightarrow> GcConfig \<Rightarrow> 'e \<Rightarrow> int \<times> 'e" where
  "save_config stk es sys CONFIG e = write_file stk sys CONFIG_SAVE_LOCATION (config_bytes es CONFIG) e"

definition default_config :: GcConfig where
  "default_config =
     \<lparr>major_version = GCTK_MAJOR_VERISON, minor_version = GCTK_MINOR_VERSION,
      ip_address = strncpy (zeros 16) 0 DEFAULT_IP 16, port = DEFAULT_PORT,
      backup_folder = strncpy (zeros MAX_PATH) 0 DEFAULT_FOLDER_NAME MAX_PATH,
      music_setting = MUSIC_USE_SYSTEM_SETTING, confirm_setting = CONFIRM_USE_SYSTEM_SETTING\<rparr>"

definition reset_config :: "bytes \<Rightarrow> nat \<Rightarrow> 'e io_sys \<Rightarrow> 'e \<Rightarrow> GcConfig \<times> 'e" where
  "reset_config stk es sys e = (default_config, snd (save_config stk es sys default_config e))"

definition init_config :: "bytes \<Rightarrow> nat \<Rightarrow> 'e io_sys \<Rightarrow> GcConfig \<Rightarrow> 'e \<Rightarrow> GcConfig \<times> 'e" where
  "init_config stk es sys CONFIG e =
     (let (CONFIG, e) = (if \<not> file_exist sys CONFIG_SAVE_LOCATION e then reset_config stk es sys e else (CONFIG, e));
          (wr, data, e) = read_file sys CONFIG_SAVE_LOCATION (config_bytes es CONFIG) e;
          CONFIG = config_of_bytes es data
      in if (word_of_int wr :: u32) \<noteq> of_nat (sizeof_GcConfig es) \<or> major_version CONFIG < GCTK_MAJOR_VERISON
         then reset_config stk es sys e else (CONFIG, e))"

section \<open>The file keeps the settings\<close>

text \<open>Settings that fit the structure.\<close>

definition config_ok :: "nat \<Rightarrow> GcConfig \<Rightarrow> bool" where
  "config_ok es c \<longleftrightarrow> (es = 1 \<or> es = 4) \<and> length (ip_address c) = 16 \<and> length (backup_folder c) = MAX_PATH \<and>
     music_setting c < 256 \<and> confirm_setting c < 256"

lemma enum_bytes: "es = 1 \<or> es = 4 \<Longrightarrow> w < 256 \<Longrightarrow> (le_word (le_bytes es (w :: u32)) :: u32) = w"
proof (elim disjE)
  assume "es = 1" "w < 256"
  moreover from \<open>w < 256\<close> have "(ucast (ucast w :: u8) :: u32) = w"
    by (intro word_unat_eq_iff [THEN iffD2]) (simp add: unsigned_ucast_eq take_bit_eq_mod word_less_nat_alt unat_mod)
  ultimately show ?thesis by (simp add: le_bytes_def)
qed simp

lemma length_config_bytes: "config_ok es c \<Longrightarrow> length (config_bytes es c) = sizeof_GcConfig es"
  by (simp add: config_bytes_def config_ok_def sizeof_GcConfig_def)

lemma config_of_config_bytes: "config_ok es c \<Longrightarrow> config_of_bytes es (config_bytes es c) = c"
  by (auto simp: config_of_bytes_def config_bytes_def config_ok_def struct_fields get_field.simps enum_bytes)

text \<open>What the system promises of the file \<open>p\<close>: \<open>store\<close> is its content.  It is not truncated when it is written.\<close>

definition keeps_file :: "'e io_sys \<Rightarrow> bytes \<Rightarrow> ('e \<Rightarrow> bytes option) \<Rightarrow> bool" where
  "keeps_file sys p store \<longleftrightarrow>
     (\<forall>e. fst (sceIoGetstat sys p e) \<ge> 0 \<longleftrightarrow> store e \<noteq> None) \<and>
     (\<forall>q e. store (sceIoMkdir sys q e) = store e) \<and>
     (\<forall>fd e. store (snd (sceIoClose sys fd e)) = store e) \<and>
     (\<forall>e c. store e = Some c \<longrightarrow> (\<exists>fd e1. sceIoOpen sys p SCE_O_RDONLY e = (fd, e1) \<and> 0 < fd \<and>
        (\<forall>buf. \<exists>e2. sceIoRead sys fd buf e1 =
           (int (min (length buf) (length c)), take (length buf) c @ drop (length c) buf, e2) \<and> store e2 = Some c))) \<and>
     (\<forall>e. \<exists>fd e1. sceIoOpen sys p (SCE_O_WRONLY + SCE_O_CREAT) e = (fd, e1) \<and> 0 < fd \<and>
        (\<forall>data. \<exists>e2. sceIoWrite sys fd data e1 = (int (length data), e2) \<and>
           store e2 = Some (data @ (case store e of None \<Rightarrow> [] | Some c \<Rightarrow> drop (length data) c))))"

lemma keeps_file_mkdir:
  assumes "keeps_file sys p store"
  shows "store (make_directories_excluding_last stk sys q e) = store e"
proof -
  have m: "store (sceIoMkdir sys d e) = store e" for d e using assms by (simp add: keeps_file_def)
  have at: "store (make_directory_at sys d i e) = store e" for d i e
    by (simp add: make_directory_at_def Let_def m)
  have "store (fold (make_directory_at sys d) is e) = store e" for d "is" e
    by (induction "is" arbitrary: e) (simp_all add: at)
  then show ?thesis
    by (simp add: make_directories_excluding_last_def make_directories_def m case_prod_unfold Let_def)
qed

lemma write_file_stores:
  assumes k: "keeps_file sys p store" and d: "length data < 2 ^ 31"
  shows "\<exists>e'. write_file stk sys p data e = (int (length data), e') \<and>
    store e' = Some (data @ (case store e of None \<Rightarrow> [] | Some c \<Rightarrow> drop (length data) c))"
proof -
  let ?e = "make_directories_excluding_last stk sys p e"
  obtain fd e1 where o: "sceIoOpen sys p (SCE_O_WRONLY + SCE_O_CREAT) ?e = (fd, e1)" "0 < fd"
    and w: "\<forall>data. \<exists>e2. sceIoWrite sys fd data e1 = (int (length data), e2) \<and>
        store e2 = Some (data @ (case store ?e of None \<Rightarrow> [] | Some c \<Rightarrow> drop (length data) c))"
    using k unfolding keeps_file_def by blast
  obtain e2 where w: "sceIoWrite sys fd data e1 = (int (length data), e2)"
      "store e2 = Some (data @ (case store ?e of None \<Rightarrow> [] | Some c \<Rightarrow> drop (length data) c))"
    using w by blast
  have "store (snd (sceIoClose sys fd e2)) = store e2" using k by (simp add: keeps_file_def)
  with o w keeps_file_mkdir [OF k] show ?thesis by (simp add: write_file_def)
qed

lemma read_file_stored:
  assumes k: "keeps_file sys p store" and c: "store e = Some c" and buf: "length buf < 2 ^ 31"
  shows "\<exists>res e'. read_file sys p buf e = (res, take (length buf) c @ drop (length c) buf, e') \<and> store e' = Some c \<and>
    res = (if length buf \<le> length c then int (length buf) else SIZE_NOT_MATCH)"
proof -
  obtain fd e1 where o: "sceIoOpen sys p SCE_O_RDONLY e = (fd, e1)" "0 < fd"
    and r: "\<forall>buf. \<exists>e2. sceIoRead sys fd buf e1 =
      (int (min (length buf) (length c)), take (length buf) c @ drop (length c) buf, e2) \<and> store e2 = Some c"
    using k c unfolding keeps_file_def by blast
  obtain e2 where r: "sceIoRead sys fd buf e1 = (int (min (length buf) (length c)), take (length buf) c @ drop (length c) buf, e2)"
    "store e2 = Some c" using r by blast
  have "(of_nat (min (length buf) (length c)) :: u32) = of_nat (length buf) \<longleftrightarrow> length buf \<le> length c"
    using buf by (auto simp: word_unat_eq_iff unat_of_nat)
  moreover have "store (snd (sceIoClose sys fd e2)) = store e2" using k by (simp add: keeps_file_def)
  ultimately show ?thesis using o r by (simp add: read_file_def)
qed

lemma default_config_ok: "es = 1 \<or> es = 4 \<Longrightarrow> config_ok es default_config"
  by (simp add: config_ok_def default_config_def MUSIC_USE_SYSTEM_SETTING_def CONFIRM_USE_SYSTEM_SETTING_def)

lemma config_small: "config_ok es c \<Longrightarrow> length (config_bytes es c) < 2 ^ 31"
  by (auto simp: length_config_bytes sizeof_GcConfig_def MAX_PATH_def config_ok_def)

lemma reset_config_stores:
  assumes "keeps_file sys CONFIG_SAVE_LOCATION store" "es = 1 \<or> es = 4"
  shows "\<exists>e' rest. reset_config stk es sys e = (default_config, e') \<and> store e' = Some (config_bytes es default_config @ rest)"
  using write_file_stores [OF assms(1) config_small [OF default_config_ok [OF assms(2)]], of stk e]
  by (auto simp: reset_config_def save_config_def)

lemma init_config_reads:
  assumes k: "keeps_file sys CONFIG_SAVE_LOCATION store" and c: "config_ok es c" "1 \<le> major_version c" and c0: "config_ok es c0"
    and st: "store e = Some (config_bytes es c @ rest)"
  shows "\<exists>e'. init_config stk es sys c0 e = (c, e') \<and> store e' = store e"
proof -
  have ex: "file_exist sys CONFIG_SAVE_LOCATION e" using k st by (auto simp: keeps_file_def file_exist_def case_prod_unfold)
  have l: "length (config_bytes es c0) = sizeof_GcConfig es" "length (config_bytes es c) = sizeof_GcConfig es"
    using c(1) c0 by (simp_all add: length_config_bytes)
  obtain e' where r: "read_file sys CONFIG_SAVE_LOCATION (config_bytes es c0) e = (int (sizeof_GcConfig es), config_bytes es c, e')"
    "store e' = store e"
    using read_file_stored [OF k st config_small [OF c0]] l st by auto
  have "\<not> major_version c < GCTK_MAJOR_VERISON" using c(2) unfolding GCTK_MAJOR_VERISON_def by (simp only: not_less)
  with ex r show ?thesis by (simp add: init_config_def config_of_config_bytes [OF c(1)])
qed

text \<open>C25: Settings survive: what is saved is what the next start loads, whatever the file held before.  The first
  start, without a file, gives the default settings and saves them, and so does a file that is too short
  or of an older major version.\<close>

theorem config_survives:
  assumes k: "keeps_file sys CONFIG_SAVE_LOCATION store" and c0: "config_ok es c0"
  shows "(config_ok es c \<and> 1 \<le> major_version c \<longrightarrow>
      fst (save_config stk es sys c e) = int (sizeof_GcConfig es) \<and>
      fst (init_config stk' es sys c0 (snd (save_config stk es sys c e))) = c) \<and>
    (store e = None \<or> (\<exists>b. store e = Some b \<and>
        (length b < sizeof_GcConfig es \<or> (le_word (get_field cfg_major b) :: u16) < GCTK_MAJOR_VERISON)) \<longrightarrow>
      (\<exists>e' rest. init_config stk' es sys c0 e = (default_config, e') \<and> store e' = Some (config_bytes es default_config @ rest)))"
proof (intro conjI impI)
  assume c: "config_ok es c \<and> 1 \<le> major_version c"
  have "length (config_bytes es c) = sizeof_GcConfig es" using c by (simp add: length_config_bytes)
  with write_file_stores [OF k config_small, of es c stk e] c obtain e1 rest where
    w: "save_config stk es sys c e = (int (sizeof_GcConfig es), e1)" "store e1 = Some (config_bytes es c @ rest)"
    by (auto simp: save_config_def)
  from w(1) show "fst (save_config stk es sys c e) = int (sizeof_GcConfig es)" by simp
  from init_config_reads [OF k _ _ c0 w(2), of stk'] c obtain e2 where "init_config stk' es sys c0 e1 = (c, e2)" by blast
  with w(1) show "fst (init_config stk' es sys c0 (snd (save_config stk es sys c e))) = c" by simp
next
  have es: "es = 1 \<or> es = 4" using c0 by (simp add: config_ok_def)
  note d = default_config_ok [OF es]
  have v: "1 \<le> major_version default_config" by (simp add: default_config_def GCTK_MAJOR_VERISON_def)
  assume missing: "store e = None \<or> (\<exists>b. store e = Some b \<and>
        (length b < sizeof_GcConfig es \<or> (le_word (get_field cfg_major b) :: u16) < GCTK_MAJOR_VERISON))"
  show "\<exists>e' rest. init_config stk' es sys c0 e = (default_config, e') \<and> store e' = Some (config_bytes es default_config @ rest)"
  proof (cases "store e")
    case None
    then have nex: "\<not> file_exist sys CONFIG_SAVE_LOCATION e" using k by (auto simp: keeps_file_def file_exist_def case_prod_unfold)
    obtain e1 rest where r: "reset_config stk' es sys e = (default_config, e1)" "store e1 = Some (config_bytes es default_config @ rest)"
      using reset_config_stores [OF k es] by blast
    obtain e2 where i: "init_config stk' es sys default_config e1 = (default_config, e2)" "store e2 = store e1"
      using init_config_reads [OF k d v d r(2)] by blast
    have "file_exist sys CONFIG_SAVE_LOCATION e1" using k r(2) by (auto simp: keeps_file_def file_exist_def case_prod_unfold)
    then have "init_config stk' es sys c0 e = init_config stk' es sys default_config e1"
      using nex r(1) by (simp add: init_config_def)
    with i r(2) show ?thesis by auto
  next
    case (Some b)
    note b = Some
    have old: "length b < sizeof_GcConfig es \<or> (le_word (get_field cfg_major b) :: u16) < GCTK_MAJOR_VERISON"
      using missing b by simp
    have ex: "file_exist sys CONFIG_SAVE_LOCATION e" using k b by (auto simp: keeps_file_def file_exist_def case_prod_unfold)
    have l: "length (config_bytes es c0) = sizeof_GcConfig es" using c0 by (simp add: length_config_bytes)
    obtain res data e1 where r: "read_file sys CONFIG_SAVE_LOCATION (config_bytes es c0) e = (res, data, e1)"
      "res = (if sizeof_GcConfig es \<le> length b then int (sizeof_GcConfig es) else SIZE_NOT_MATCH)"
      "data = take (sizeof_GcConfig es) b @ drop (length b) (config_bytes es c0)"
      using read_file_stored [OF k b config_small [OF c0]] l by auto
    have "(word_of_int res :: u32) \<noteq> of_nat (sizeof_GcConfig es) \<or> major_version (config_of_bytes es data) < GCTK_MAJOR_VERISON"
    proof (cases "sizeof_GcConfig es \<le> length b")
      case True
      then have "get_field cfg_major data = get_field cfg_major b"
        using r(3) by (simp add: cfg_major_def get_field.simps sizeof_GcConfig_def MAX_PATH_def min_def)
      with True old show ?thesis by (simp add: config_of_bytes_def)
    next
      case False
      have "(word_of_int SIZE_NOT_MATCH :: u32) \<noteq> of_nat (sizeof_GcConfig es)"
        using es by (auto simp: error_values sizeof_GcConfig_def MAX_PATH_def)
      with False r(2) show ?thesis by simp
    qed
    with ex r(1) have "init_config stk' es sys c0 e = reset_config stk' es sys e1" by (simp add: init_config_def)
    with reset_config_stores [OF k es] show ?thesis by metis
  qed
qed

text \<open>A disk with one file.\<close>

definition one_file :: "bytes option io_sys" where
  "one_file =
     \<lparr>sceIoGetstat = (\<lambda>p s. (if s = None then -1 else 0, 0)), sceIoDopen = (\<lambda>p s. (-1, s)),
      sceIoDread = (\<lambda>fd s. (0, \<lparr>d_name = [0], d_size = 0, d_isdir = False\<rparr>, s)), sceIoDclose = (\<lambda>fd s. (0, s)),
      sceIoOpen = (\<lambda>p f s. (1, s)),
      sceIoRead = (\<lambda>fd buf s. case s of None \<Rightarrow> (-1, buf, s)
        | Some c \<Rightarrow> (int (min (length buf) (length c)), take (length buf) c @ drop (length c) buf, s)),
      sceIoWrite = (\<lambda>fd data s. (int (length data), Some (data @ (case s of None \<Rightarrow> [] | Some c \<Rightarrow> drop (length data) c)))),
      sceIoClose = (\<lambda>fd s. (0, s)), sceIoMkdir = (\<lambda>p s. s), sceIoDevctl_free = (\<lambda>p s. (0, 0)),
      vshIoMount = (\<lambda>i p s. (0, s)), vshIoUmount = (\<lambda>i p s. s), sceKernelDelayThread = (\<lambda>n s. s), malloc_ok = (\<lambda>n s. True)\<rparr>"

theorem config_survives_witness:
  "fst (init_config (zeros MAX_PATH) 4 one_file default_config
      (snd (save_config (zeros MAX_PATH) 4 one_file (default_config\<lparr>port := 80\<rparr>) (Some [1, 2, 3])))) = default_config\<lparr>port := 80\<rparr> \<and>
   fst (init_config (zeros MAX_PATH) 4 one_file (default_config\<lparr>port := 80\<rparr>) (Some [1, 2, 3])) = default_config"
proof -
  have k: "keeps_file one_file CONFIG_SAVE_LOCATION (\<lambda>s. s)"
    by (simp add: keeps_file_def one_file_def)
  have ok: "config_ok 4 default_config" "config_ok 4 (default_config\<lparr>port := 80\<rparr>)"
    using default_config_ok [of 4] by (simp_all add: config_ok_def)
  have v: "1 \<le> major_version default_config" by (simp add: default_config_def GCTK_MAJOR_VERISON_def)
  have "length [1, 2, 3 :: u8] < sizeof_GcConfig 4" by (simp add: sizeof_GcConfig_def)
  then show ?thesis
    using config_survives [OF k ok(1), of "default_config\<lparr>port := 80\<rparr>" "zeros MAX_PATH" "Some [1, 2, 3]" "zeros MAX_PATH"]
      config_survives [OF k ok(2), of default_config "zeros MAX_PATH" "Some [1, 2, 3]" "zeros MAX_PATH"] ok v by auto
qed

end
