(* ===== verification/Menu.thy ===== *)
theory Menu
  imports Paths
begin

text \<open>
  The buttons of \<^verbatim>\<open>app/ctrl.c\<close> and the option machine of \<^verbatim>\<open>app/menu.c\<close>: the array of
  options, the search for the first and last option, the loop of the \<^verbatim>\<open>PROCESS_MENU\<close> macro, the
  options of every menu, and the choice of a file from a window of a list.  A menu is a
  function from the selected position and the window to the conditions of its options and the
  window it leaves; what it draws is not modelled.
\<close>

section \<open>Buttons\<close>

definition SCE_CTRL_SELECT :: u32 where "SCE_CTRL_SELECT = 0x1"
definition SCE_CTRL_START :: u32 where "SCE_CTRL_START = 0x8"
definition SCE_CTRL_UP :: u32 where "SCE_CTRL_UP = 0x10"
definition SCE_CTRL_RIGHT :: u32 where "SCE_CTRL_RIGHT = 0x20"
definition SCE_CTRL_DOWN :: u32 where "SCE_CTRL_DOWN = 0x40"
definition SCE_CTRL_LEFT :: u32 where "SCE_CTRL_LEFT = 0x80"
definition SCE_CTRL_LTRIGGER :: u32 where "SCE_CTRL_LTRIGGER = 0x100"
definition SCE_CTRL_RTRIGGER :: u32 where "SCE_CTRL_RTRIGGER = 0x200"
definition SCE_CTRL_TRIANGLE :: u32 where "SCE_CTRL_TRIANGLE = 0x1000"
definition SCE_CTRL_CIRCLE :: u32 where "SCE_CTRL_CIRCLE = 0x2000"
definition SCE_CTRL_CROSS :: u32 where "SCE_CTRL_CROSS = 0x4000"
definition SCE_CTRL_SQUARE :: u32 where "SCE_CTRL_SQUARE = 0x8000"

definition buttons :: "u32 list" where
  "buttons = [SCE_CTRL_SELECT, SCE_CTRL_START, SCE_CTRL_UP, SCE_CTRL_RIGHT, SCE_CTRL_DOWN, SCE_CTRL_LEFT,
     SCE_CTRL_LTRIGGER, SCE_CTRL_RTRIGGER, SCE_CTRL_TRIANGLE, SCE_CTRL_CIRCLE, SCE_CTRL_CROSS, SCE_CTRL_SQUARE]"

text \<open>The buttons that confirm and cancel, swapped by the configuration.\<close>

record ctrl_state =
  SCE_CTRL_CONFIRM :: u32
  SCE_CTRL_CANCEL :: u32

definition init_ctrl :: "bool \<Rightarrow> ctrl_state" where
  "init_ctrl is_circle_confirm =
     (if is_circle_confirm then \<lparr>SCE_CTRL_CONFIRM = SCE_CTRL_CIRCLE, SCE_CTRL_CANCEL = SCE_CTRL_CROSS\<rparr>
      else \<lparr>SCE_CTRL_CONFIRM = SCE_CTRL_CROSS, SCE_CTRL_CANCEL = SCE_CTRL_CIRCLE\<rparr>)"

definition BLOCK_DEVICE_GC :: bytes where "BLOCK_DEVICE_GC = cstr ''sdstor0:gcd-lp-ign-entire''"
definition BLOCK_DEVICE_MEDIAID :: bytes where "BLOCK_DEVICE_MEDIAID = cstr ''sdstor0:gcd-lp-act-mediaid''"
definition BLOCK_DEVICE_GRW0 :: bytes where "BLOCK_DEVICE_GRW0 = cstr ''sdstor0:gcd-lp-ign-gamerw''"

definition released :: "u32 \<Rightarrow> u32 \<Rightarrow> u32" where
  "released prev pad = prev XOR (pad AND prev)"

text \<open>
  A key is a button that was held at one look at the pad and is not at the next.  Without a
  card every wait for a key ends with the cancel button.
\<close>

partial_function (option) get_key_from ::
  "('e \<Rightarrow> u32 \<times> 'e) \<Rightarrow> 'e dev_sys \<Rightarrow> ('e \<Rightarrow> 'e) \<Rightarrow> ctrl_state \<Rightarrow> u32 \<Rightarrow> 'e \<Rightarrow> (u32 \<times> 'e) option" where
  "get_key_from peek dsys delay ctrl prev e =
     (case peek e of
        (pad, e) \<Rightarrow>
          (case List.find (\<lambda>b. released prev pad AND b \<noteq> 0) buttons of
             Some b \<Rightarrow> Some (b, e)
           | None \<Rightarrow>
               (case device_exist dsys BLOCK_DEVICE_GC e of
                  (present, e) \<Rightarrow>
                    if present = 0 then Some (SCE_CTRL_CANCEL ctrl, e)
                    else get_key_from peek dsys delay ctrl pad (delay e))))"

definition get_key ::
  "('e \<Rightarrow> u32 \<times> 'e) \<Rightarrow> 'e dev_sys \<Rightarrow> ('e \<Rightarrow> 'e) \<Rightarrow> ctrl_state \<Rightarrow> 'e \<Rightarrow> (u32 \<times> 'e) option" where
  "get_key peek dsys delay ctrl e = get_key_from peek dsys delay ctrl 0 e"

section \<open>The option array\<close>

definition BUFFER_SIZE :: nat where "BUFFER_SIZE = 0x1028"

text \<open>
  \<^verbatim>\<open>DEFOPT\<close> clears the array and one \<^verbatim>\<open>ADDOPT\<close> per option sets its entry.  \<open>behind\<close> is
  the byte behind the array, which the search for the last option starts at.
\<close>

definition set_options :: "bool list \<Rightarrow> bytes" where
  "set_options conds = map of_bool conds @ zeros (BUFFER_SIZE - length conds)"

function first_from :: "bytes \<Rightarrow> nat \<Rightarrow> nat" where
  "first_from opts i = (if opts ! i \<noteq> 1 \<and> i < BUFFER_SIZE then first_from opts (i + 1) else i)"
  by pat_completeness auto
termination by (relation "measure (\<lambda>(opts, i). BUFFER_SIZE - i)") auto

definition CALC_FIRST_OPTION :: "bytes \<Rightarrow> nat" where
  "CALC_FIRST_OPTION opts = first_from opts 0"

fun last_from :: "bytes \<Rightarrow> nat \<Rightarrow> nat" where
  "last_from opts 0 = 0"
| "last_from opts (Suc i) = (if opts ! Suc i \<noteq> 1 then last_from opts i else Suc i)"

definition CALC_LAST_OPTION :: "bytes \<Rightarrow> nat" where
  "CALC_LAST_OPTION opts = last_from opts BUFFER_SIZE"

function up_from :: "bytes \<Rightarrow> int \<Rightarrow> int" where
  "up_from opts selected =
     (if selected - 1 > 0 \<and> opts ! nat (selected - 1) = 0 then up_from opts (selected - 1) else selected - 1)"
  by pat_completeness auto
termination by (relation "measure (\<lambda>(opts, s). nat s)") auto

function down_from :: "bytes \<Rightarrow> int \<Rightarrow> int" where
  "down_from opts selected =
     (if selected + 1 < int BUFFER_SIZE \<and> opts ! nat (selected + 1) = 0 then down_from opts (selected + 1)
      else selected + 1)"
  by pat_completeness auto
termination by (relation "measure (\<lambda>(opts, s). nat (int BUFFER_SIZE - s))") auto

declare first_from.simps [simp del] up_from.simps [simp del] down_from.simps [simp del]

section \<open>The menu loop\<close>

definition OP_CANCELED :: int where "OP_CANCELED = -9530"
definition WINDOW_SIZE :: int where "WINDOW_SIZE = 19"

text \<open>
  One turn after the key: \<open>Inl\<close> leaves the loop, with the return out of the function that
  the macro is in, or with the selected position.
\<close>

definition menu_turn :: "ctrl_state \<Rightarrow> u32 \<Rightarrow> bytes \<Rightarrow> int \<Rightarrow> int \<Rightarrow> int \<Rightarrow> (int + int) + (int \<times> int)" where
  "menu_turn ctrls ctrl opts total_options selected window =
     (let first_option = int (CALC_FIRST_OPTION opts);
          last_option = int (CALC_LAST_OPTION opts);
          move = (\<lambda>selected.
            (let (selected, window) =
                   (if selected > last_option then (last_option, if total_options > WINDOW_SIZE then window + 1 else window)
                    else (selected, window))
             in if selected < first_option
                then (first_option, if window \<noteq> first_option then window - 1 else window)
                else (selected, window)))
      in if ctrl = SCE_CTRL_UP then Inr (move (up_from opts selected))
         else if ctrl = SCE_CTRL_DOWN then Inr (move (down_from opts selected))
         else if ctrl = SCE_CTRL_CANCEL ctrls then Inl (Inl OP_CANCELED)
         else if ctrl = SCE_CTRL_CONFIRM ctrls then Inl (Inr selected)
         else Inr (move selected))"

type_synonym menu = "int \<Rightarrow> int \<Rightarrow> bool list \<times> int"

partial_function (option) menu_loop ::
  "('e \<Rightarrow> (u32 \<times> 'e) option) \<Rightarrow> ctrl_state \<Rightarrow> u8 \<Rightarrow> menu \<Rightarrow> int \<Rightarrow> int \<Rightarrow> 'e \<Rightarrow> ((int + int) \<times> 'e) option" where
  "menu_loop key ctrls behind func selected window e =
     (case func selected window of
        (conds, window) \<Rightarrow>
          Option.bind (key e) (\<lambda>(ctrl, e).
            case menu_turn ctrls ctrl (set_options conds @ [behind]) (int (length conds)) selected window of
              Inl r \<Rightarrow> Some (r, e)
            | Inr (selected, window) \<Rightarrow> menu_loop key ctrls behind func selected window e))"

definition PROCESS_MENU ::
  "('e \<Rightarrow> (u32 \<times> 'e) option) \<Rightarrow> ctrl_state \<Rightarrow> u8 \<Rightarrow> menu \<Rightarrow> 'e \<Rightarrow> ((int + int) \<times> 'e) option" where
  "PROCESS_MENU key ctrls behind func e =
     (let (conds, window) = func 0 0;
          selected = int (CALC_FIRST_OPTION (set_options conds @ [behind]))
      in menu_loop key ctrls behind func selected window e)"

section \<open>The menus\<close>

text \<open>The conditions of the options in the order of the code; the window is left alone.\<close>

definition draw_select_backup_format :: menu where
  "draw_select_backup_format selected window = ([True, True, True, True, True], window)"

definition draw_gc_options :: "bool \<Rightarrow> bool \<Rightarrow> menu" where
  "draw_gc_options has_grw0 has_mediaid selected window =
     ([True, True, has_mediaid, has_mediaid, has_mediaid, has_grw0, has_grw0, has_grw0, True], window)"

definition draw_select_input_location :: "bool \<Rightarrow> bool \<Rightarrow> bool \<Rightarrow> bool \<Rightarrow> menu" where
  "draw_select_input_location have_ux0 have_xmc have_usb have_host0 selected window =
     ([have_ux0, have_xmc, have_usb, have_host0, True], window)"

definition draw_select_output_location :: "bool \<Rightarrow> bool \<Rightarrow> bool \<Rightarrow> bool \<Rightarrow> bool \<Rightarrow> menu" where
  "draw_select_output_location have_ux0 have_xmc have_usb have_host0 save_network selected window =
     ([have_ux0, have_xmc, have_usb, have_host0, save_network, True, True], window)"

definition draw_network_settings :: menu where
  "draw_network_settings selected window = ([True, True, True], window)"

definition draw_format_confirm_menu :: menu where
  "draw_format_confirm_menu selected window = ([True, True, True], window)"

text \<open>
  The window of the file list, and the files its loop adds options for: at most twenty, from
  the window on.
\<close>

definition file_window :: "int \<Rightarrow> int \<Rightarrow> int" where
  "file_window total_files window =
     (if window > total_files mod WINDOW_SIZE - 1 then total_files mod WINDOW_SIZE - 1 else window)"

definition files_shown :: "int \<Rightarrow> int \<Rightarrow> int list" where
  "files_shown total_files window = takeWhile (\<lambda>i. i < total_files) [window..window + WINDOW_SIZE]"

definition draw_select_file :: "int \<Rightarrow> menu" where
  "draw_select_file total_files selected window =
     (let window = file_window total_files window
      in (map (\<lambda>i. True) (files_shown total_files window), window))"

section \<open>The option machine\<close>

definition offered :: "bool list \<Rightarrow> int \<Rightarrow> bool" where
  "offered conds s \<longleftrightarrow> 0 \<le> s \<and> nat s < length conds \<and> conds ! nat s"

text \<open>A menu whose array has room for its options and that offers at least one.\<close>

definition proper :: "bool list \<Rightarrow> u8 \<Rightarrow> bool" where
  "proper conds behind \<longleftrightarrow> length conds \<le> BUFFER_SIZE \<and> True \<in> set conds \<and> behind \<noteq> 1"

lemma option_entry:
  assumes "proper conds behind" "i < BUFFER_SIZE"
  shows "(set_options conds @ [behind]) ! i = of_bool (offered conds (int i))"
  using assms by (auto simp: set_options_def nth_append offered_def proper_def)

lemma option_behind: "proper conds behind \<Longrightarrow> (set_options conds @ [behind]) ! BUFFER_SIZE = behind"
  by (simp add: set_options_def nth_append proper_def)

lemma offered_bound: "proper conds behind \<Longrightarrow> offered conds s \<Longrightarrow> 0 \<le> s \<and> s < int BUFFER_SIZE"
  by (auto simp: offered_def proper_def)

lemma first_from_least:
  assumes "proper conds behind" "offered conds (int j)" "i \<le> j"
  shows "offered conds (int (first_from (set_options conds @ [behind]) i)) \<and>
    (\<forall>k. i \<le> k \<and> offered conds (int k) \<longrightarrow> first_from (set_options conds @ [behind]) i \<le> k)"
  using assms(3)
proof (induction "j - i" arbitrary: i)
  case 0
  with assms(2) have o: "offered conds (int i)" by simp
  then have "i < BUFFER_SIZE" using offered_bound [OF assms(1) o] by simp
  with o option_entry [OF assms(1)] show ?case by (subst (1 2) first_from.simps) simp
next
  case (Suc d)
  have j: "j < BUFFER_SIZE" using offered_bound [OF assms(1,2)] by simp
  with Suc have i: "i < BUFFER_SIZE" by simp
  show ?case
  proof (cases "offered conds (int i)")
    case True
    with i option_entry [OF assms(1)] show ?thesis by (subst (1 2) first_from.simps) simp
  next
    case False
    with i option_entry [OF assms(1)] have step: "first_from (set_options conds @ [behind]) i = first_from (set_options conds @ [behind]) (i + 1)"
      by (subst first_from.simps) simp
    have "\<forall>k. i \<le> k \<and> offered conds (int k) \<longrightarrow> i + 1 \<le> k"
      using False by (metis Suc_eq_plus1 Suc_leI le_neq_implies_less)
    with Suc.hyps(1) [of "i + 1"] Suc.hyps(2) show ?thesis unfolding step by auto
  qed
qed

lemma last_from_greatest:
  assumes "proper conds behind" "offered conds (int j)" "j \<le> i" "i \<le> BUFFER_SIZE"
  shows "offered conds (int (last_from (set_options conds @ [behind]) i)) \<and>
    (\<forall>k \<le> i. offered conds (int k) \<longrightarrow> k \<le> last_from (set_options conds @ [behind]) i)"
  using assms(3,4)
proof (induction i)
  case 0
  then show ?case using assms(2) by simp
next
  case (Suc i)
  show ?case
  proof (cases "Suc i < BUFFER_SIZE \<and> offered conds (int (Suc i))")
    case True
    then show ?thesis using option_entry [OF assms(1), of "Suc i"] by (simp del: of_nat_Suc)
  next
    case False
    have n: "(set_options conds @ [behind]) ! Suc i \<noteq> 1"
    proof (cases "Suc i < BUFFER_SIZE")
      case True
      with False option_entry [OF assms(1), of "Suc i"] show ?thesis by (simp del: of_nat_Suc)
    next
      case no: False
      then have "Suc i = BUFFER_SIZE" using Suc.prems(2) by simp
      then show ?thesis using option_behind [OF assms(1)] assms(1) by (simp add: proper_def)
    qed
    have no: "\<not> offered conds (int (Suc i))" using False offered_bound [OF assms(1), of "int (Suc i)"] by auto
    then have "j \<le> i" using Suc.prems(1) assms(2) by (metis le_SucE)
    with Suc n no show ?thesis by (auto simp: le_Suc_eq simp del: of_nat_Suc)
  qed
qed

lemma proper_offers:
  assumes "proper conds behind"
  obtains j where "offered conds (int j)"
  using assms by (auto simp: proper_def in_set_conv_nth offered_def)

lemma first_option:
  assumes "proper conds behind"
  shows "offered conds (int (CALC_FIRST_OPTION (set_options conds @ [behind])))"
    "offered conds s \<Longrightarrow> int (CALC_FIRST_OPTION (set_options conds @ [behind])) \<le> s"
proof -
  obtain j where j: "offered conds (int j)" by (rule proper_offers [OF assms])
  note f = first_from_least [OF assms j, of 0]
  from f show "offered conds (int (CALC_FIRST_OPTION (set_options conds @ [behind])))" by (simp add: CALC_FIRST_OPTION_def)
  assume s: "offered conds s"
  then obtain k where "s = int k" by (metis offered_def zero_le_imp_eq_int)
  with s f show "int (CALC_FIRST_OPTION (set_options conds @ [behind])) \<le> s" by (auto simp: CALC_FIRST_OPTION_def)
qed

lemma last_option:
  assumes "proper conds behind"
  shows "offered conds (int (CALC_LAST_OPTION (set_options conds @ [behind])))"
    "offered conds s \<Longrightarrow> s \<le> int (CALC_LAST_OPTION (set_options conds @ [behind]))"
proof -
  obtain j where j: "offered conds (int j)" by (rule proper_offers [OF assms])
  have "j \<le> BUFFER_SIZE" using offered_bound [OF assms j] by simp
  note f = last_from_greatest [OF assms j this order.refl]
  from f show "offered conds (int (CALC_LAST_OPTION (set_options conds @ [behind])))" by (simp add: CALC_LAST_OPTION_def)
  assume s: "offered conds s"
  then obtain k where k: "s = int k" by (metis offered_def zero_le_imp_eq_int)
  then have "k \<le> BUFFER_SIZE" using offered_bound [OF assms s] by simp
  with s k f show "s \<le> int (CALC_LAST_OPTION (set_options conds @ [behind]))" by (auto simp: CALC_LAST_OPTION_def)
qed

lemma up_from_result:
  assumes "proper conds behind" "s \<le> int BUFFER_SIZE"
  shows "up_from (set_options conds @ [behind]) s < s \<and>
    (up_from (set_options conds @ [behind]) s \<le> 0 \<or> offered conds (up_from (set_options conds @ [behind]) s))"
  using assms(2)
proof (induction "set_options conds @ [behind]" s rule: up_from.induct)
  case (1 s)
  have e: "s - 1 > 0 \<Longrightarrow> (set_options conds @ [behind]) ! nat (s - 1) = of_bool (offered conds (s - 1))"
    using option_entry [OF assms(1), of "nat (s - 1)"] 1(2) by simp
  show ?case
  proof (cases "s - 1 > 0 \<and> (set_options conds @ [behind]) ! nat (s - 1) = 0")
    case True
    with 1 show ?thesis by (subst (1 2 3) up_from.simps) auto
  next
    case False
    with e show ?thesis by (subst (1 2 3) up_from.simps) auto
  qed
qed

lemma down_from_result:
  assumes "proper conds behind" "0 \<le> s" "s < int BUFFER_SIZE"
  shows "s < down_from (set_options conds @ [behind]) s \<and>
    (down_from (set_options conds @ [behind]) s = int BUFFER_SIZE \<or> offered conds (down_from (set_options conds @ [behind]) s))"
  using assms(2,3)
proof (induction "set_options conds @ [behind]" s rule: down_from.induct)
  case (1 s)
  have e: "s + 1 < int BUFFER_SIZE \<Longrightarrow> (set_options conds @ [behind]) ! nat (s + 1) = of_bool (offered conds (s + 1))"
    using option_entry [OF assms(1), of "nat (s + 1)"] 1(2) by simp
  show ?case
  proof (cases "s + 1 < int BUFFER_SIZE \<and> (set_options conds @ [behind]) ! nat (s + 1) = 0")
    case True
    with 1 show ?thesis by (subst (1 2 3) down_from.simps) auto
  next
    case False
    with e 1(3) show ?thesis by (subst (1 2 3) down_from.simps) auto
  qed
qed

text \<open>An offered position stays offered, whatever the key.\<close>

lemma menu_turn_offered:
  assumes p: "proper conds behind" and s: "offered conds s"
    and t: "menu_turn ctrls k (set_options conds @ [behind]) n s w = Inr (s', w')"
  shows "offered conds s'"
proof -
  let ?o = "set_options conds @ [behind]"
  note f = first_option [OF p] and l = last_option [OF p]
  have b: "0 \<le> s" "s < int BUFFER_SIZE" using offered_bound [OF p s] by simp_all
  have fl: "int (CALC_FIRST_OPTION ?o) \<le> int (CALC_LAST_OPTION ?o)" by (rule f(2) [OF l(1)])
  have up: "up_from ?o s \<le> 0 \<or> offered conds (up_from ?o s)"
    using up_from_result [OF p, of s] b by simp
  have zero: "r \<le> 0 \<Longrightarrow> \<not> r < int (CALC_FIRST_OPTION ?o) \<Longrightarrow> offered conds r" for r
    using f(1) by (metis of_nat_0_le_iff order.antisym not_le order.trans)
  have down: "down_from ?o s = int BUFFER_SIZE \<or> offered conds (down_from ?o s)"
    using down_from_result [OF p b] by simp
  have last_small: "int (CALC_LAST_OPTION ?o) < int BUFFER_SIZE" using offered_bound [OF p l(1)] by simp
  from t show ?thesis
    using f l s fl up zero [of "up_from ?o s"] down last_small
    by (auto simp: menu_turn_def Let_def split: if_splits)
qed

section \<open>Keys and states\<close>

text \<open>Keys from a list; a list without keys left is a pad that nobody touches.\<close>

fun next_key :: "u32 list \<Rightarrow> (u32 \<times> u32 list) option" where
  "next_key [] = None"
| "next_key (k # ks) = Some (k, ks)"

lemma button_values:
  "SCE_CTRL_CONFIRM (init_ctrl b) \<noteq> SCE_CTRL_UP" "SCE_CTRL_CONFIRM (init_ctrl b) \<noteq> SCE_CTRL_DOWN"
  "SCE_CTRL_CANCEL (init_ctrl b) \<noteq> SCE_CTRL_UP" "SCE_CTRL_CANCEL (init_ctrl b) \<noteq> SCE_CTRL_DOWN"
  "SCE_CTRL_CONFIRM (init_ctrl b) \<noteq> SCE_CTRL_CANCEL (init_ctrl b)" "SCE_CTRL_UP \<noteq> SCE_CTRL_DOWN"
  by (simp_all add: init_ctrl_def SCE_CTRL_UP_def SCE_CTRL_DOWN_def SCE_CTRL_CROSS_def SCE_CTRL_CIRCLE_def)

text \<open>The answer of a menu: cancelled, or an option that it offers.\<close>

definition good_answer :: "bool list \<Rightarrow> int + int \<Rightarrow> bool" where
  "good_answer conds r \<longleftrightarrow> (case r of Inl c \<Rightarrow> c = OP_CANCELED | Inr s \<Rightarrow> offered conds s)"

lemma menu_turn_ends:
  "k = SCE_CTRL_CANCEL (init_ctrl b) \<Longrightarrow> menu_turn (init_ctrl b) k opts n s w = Inl (Inl OP_CANCELED)"
  "k = SCE_CTRL_CONFIRM (init_ctrl b) \<Longrightarrow> menu_turn (init_ctrl b) k opts n s w = Inl (Inr s)"
  using button_values by (simp_all add: menu_turn_def Let_def)

lemma menu_turn_left:
  "menu_turn ctrls k opts n s w = Inl r \<Longrightarrow> r = Inl OP_CANCELED \<or> r = Inr s"
  by (auto simp: menu_turn_def Let_def split: if_splits)

lemma menu_loop_answers:
  assumes func: "\<And>s w. fst (func s w) = conds" and p: "proper conds behind"
  shows "offered conds s \<Longrightarrow> SCE_CTRL_CONFIRM (init_ctrl b) \<in> set ks \<or> SCE_CTRL_CANCEL (init_ctrl b) \<in> set ks \<Longrightarrow>
    \<exists>r rest. menu_loop next_key (init_ctrl b) behind func s w ks = Some (r, rest) \<and> good_answer conds r"
proof (induction ks arbitrary: s w)
  case (Cons k ks)
  obtain w1 where fw: "func s w = (conds, w1)" using func [of s w] by (cases "func s w") simp
  let ?t = "menu_turn (init_ctrl b) k (set_options conds @ [behind]) (int (length conds)) s w1"
  show ?case
  proof (cases ?t)
    case (Inl r)
    then have "good_answer conds r" using menu_turn_left [OF Inl] Cons.prems(1) by (auto simp: good_answer_def)
    with Inl fw show ?thesis by (subst menu_loop.simps) simp
  next
    case (Inr sw)
    obtain s' w' where sw: "sw = (s', w')" by (cases sw)
    have "k \<noteq> SCE_CTRL_CONFIRM (init_ctrl b)" "k \<noteq> SCE_CTRL_CANCEL (init_ctrl b)"
      using Inr menu_turn_ends [of k b] by auto
    then have ks: "SCE_CTRL_CONFIRM (init_ctrl b) \<in> set ks \<or> SCE_CTRL_CANCEL (init_ctrl b) \<in> set ks"
      using Cons.prems(2) by auto
    have "offered conds s'" using menu_turn_offered [OF p Cons.prems(1)] Inr sw by blast
    from Cons.IH [OF this ks] Inr sw fw show ?thesis by (subst menu_loop.simps) simp
  qed
qed simp

text \<open>The states a menu reaches under any keys.\<close>

inductive menu_reaches :: "ctrl_state \<Rightarrow> u8 \<Rightarrow> menu \<Rightarrow> int \<Rightarrow> int \<Rightarrow> bool" for ctrls behind func where
  reach_start: "func 0 0 = (conds, w) \<Longrightarrow>
     menu_reaches ctrls behind func (int (CALC_FIRST_OPTION (set_options conds @ [behind]))) w"
| reach_turn: "menu_reaches ctrls behind func s w \<Longrightarrow> func s w = (conds, w1) \<Longrightarrow>
     menu_turn ctrls k (set_options conds @ [behind]) (int (length conds)) s w1 = Inr (s', w') \<Longrightarrow>
     menu_reaches ctrls behind func s' w'"

text \<open>The loop only returns positions that are reached.\<close>

lemma menu_loop_reached:
  "menu_loop key ctrls behind func s w e = Some y \<Longrightarrow> menu_reaches ctrls behind func s w \<Longrightarrow>
   fst y = Inr t \<Longrightarrow> \<exists>v. menu_reaches ctrls behind func t v"
proof (induction rule: menu_loop.raw_induct [rotated, consumes 1])
  case (1 menu_loop key ctrls behind func s w e y)
  obtain conds w1 where fw: "func s w = (conds, w1)" by (cases "func s w")
  with 1(2) obtain k e1 where k: "key e = Some (k, e1)" by (cases "key e") auto
  show ?case
  proof (cases "menu_turn ctrls k (set_options conds @ [behind]) (int (length conds)) s w1")
    case (Inl r)
    with 1(2,4) fw k have "menu_turn ctrls k (set_options conds @ [behind]) (int (length conds)) s w1 = Inl (Inr t)" by auto
    then have "t = s" using menu_turn_left by fastforce
    with 1(3) show ?thesis by blast
  next
    case (Inr sw)
    obtain s' w' where sw: "sw = (s', w')" by (cases sw)
    have "menu_reaches ctrls behind func s' w'" by (rule reach_turn [OF 1(3) fw Inr [unfolded sw]])
    with 1(1) [of key ctrls behind func s' w' e1 y] 1(2,4) fw k Inr sw show ?thesis by auto
  qed
qed

section \<open>A cursor over the offered options\<close>

text \<open>What the option machine promises: a cursor that moves to the neighbouring offered option.\<close>

definition next_offered :: "bool list \<Rightarrow> int \<Rightarrow> int" where
  "next_offered conds s = (case List.find (offered conds) [s + 1..int (length conds) - 1] of Some t \<Rightarrow> t | None \<Rightarrow> s)"

definition prev_offered :: "bool list \<Rightarrow> int \<Rightarrow> int" where
  "prev_offered conds s = (case List.find (offered conds) (rev [0..s - 1]) of Some t \<Rightarrow> t | None \<Rightarrow> s)"

fun cursor :: "ctrl_state \<Rightarrow> bool list \<Rightarrow> int \<Rightarrow> u32 list \<Rightarrow> ((int + int) \<times> u32 list) option" where
  "cursor ctrls conds s [] = None"
| "cursor ctrls conds s (k # ks) =
     (if k = SCE_CTRL_UP then cursor ctrls conds (prev_offered conds s) ks
      else if k = SCE_CTRL_DOWN then cursor ctrls conds (next_offered conds s) ks
      else if k = SCE_CTRL_CANCEL ctrls then Some (Inl OP_CANCELED, ks)
      else if k = SCE_CTRL_CONFIRM ctrls then Some (Inr s, ks)
      else cursor ctrls conds s ks)"

lemma find_upto:
  assumes "P t" "a \<le> t" "t \<le> b" "\<And>u. a \<le> u \<Longrightarrow> u < t \<Longrightarrow> \<not> P u"
  shows "List.find P [a..b] = Some t"
  unfolding find_Some_iff
  by (intro exI [of _ "nat (t - a)"]) (use assms in auto)

lemma find_rev_upto:
  assumes "P t" "a \<le> t" "t \<le> b" "\<And>u. t < u \<Longrightarrow> u \<le> b \<Longrightarrow> \<not> P u"
  shows "List.find P (rev [a..b]) = Some t"
  unfolding find_Some_iff
  by (intro exI [of _ "nat (b - t)"]) (use assms in \<open>auto simp: rev_nth nat_diff_distrib of_nat_diff\<close>)

lemma find_hit: "List.find P xs = Some x \<Longrightarrow> x \<in> set xs \<and> P x"
  by (auto simp: find_Some_iff)

lemma next_offered_next:
  "offered conds t \<Longrightarrow> s < t \<Longrightarrow> (\<And>u. s < u \<Longrightarrow> u < t \<Longrightarrow> \<not> offered conds u) \<Longrightarrow> next_offered conds s = t"
  unfolding next_offered_def by (subst find_upto [of _ t]) (auto simp: offered_def)

lemma next_offered_none: "(\<And>u. s < u \<Longrightarrow> \<not> offered conds u) \<Longrightarrow> next_offered conds s = s"
  unfolding next_offered_def by (auto split: option.splits dest!: find_hit)

lemma prev_offered_prev:
  "offered conds t \<Longrightarrow> t < s \<Longrightarrow> (\<And>u. t < u \<Longrightarrow> u < s \<Longrightarrow> \<not> offered conds u) \<Longrightarrow> prev_offered conds s = t"
  unfolding prev_offered_def by (subst find_rev_upto [of _ t]) (auto simp: offered_def)

lemma prev_offered_none: "(\<And>u. u < s \<Longrightarrow> \<not> offered conds u) \<Longrightarrow> prev_offered conds s = s"
  unfolding prev_offered_def by (auto split: option.splits dest!: find_hit)

text \<open>The searches of the code skip nothing.\<close>

lemma up_from_skips:
  assumes "proper conds behind" "s \<le> int BUFFER_SIZE"
  shows "up_from (set_options conds @ [behind]) s < u \<Longrightarrow> u < s \<Longrightarrow> \<not> offered conds u"
  using assms(2)
proof (induction "set_options conds @ [behind]" s arbitrary: u rule: up_from.induct)
  case (1 s)
  have e: "s - 1 > 0 \<Longrightarrow> (set_options conds @ [behind]) ! nat (s - 1) = of_bool (offered conds (s - 1))"
    using option_entry [OF assms(1), of "nat (s - 1)"] 1(4) by simp
  show ?case
  proof (cases "s - 1 > 0 \<and> (set_options conds @ [behind]) ! nat (s - 1) = 0")
    case True
    with e have "\<not> offered conds (s - 1)" by auto
    moreover have "up_from (set_options conds @ [behind]) (s - 1) < u" using 1(2) True by (subst (asm) up_from.simps) auto
    ultimately show ?thesis using 1(1) [OF True, of u] 1(3,4) by (cases "u = s - 1") auto
  next
    case False
    then show ?thesis using 1(2,3) by (subst (asm) up_from.simps) auto
  qed
qed

lemma down_from_skips:
  assumes "proper conds behind" "0 \<le> s" "s < int BUFFER_SIZE"
  shows "s < u \<Longrightarrow> u < down_from (set_options conds @ [behind]) s \<Longrightarrow> \<not> offered conds u"
  using assms(2,3)
proof (induction "set_options conds @ [behind]" s arbitrary: u rule: down_from.induct)
  case (1 s)
  have e: "s + 1 < int BUFFER_SIZE \<Longrightarrow> (set_options conds @ [behind]) ! nat (s + 1) = of_bool (offered conds (s + 1))"
    using option_entry [OF assms(1), of "nat (s + 1)"] 1(4) by simp
  show ?case
  proof (cases "s + 1 < int BUFFER_SIZE \<and> (set_options conds @ [behind]) ! nat (s + 1) = 0")
    case True
    with e have "\<not> offered conds (s + 1)" by auto
    moreover have "u < down_from (set_options conds @ [behind]) (s + 1)" using 1(3) True by (subst (asm) down_from.simps) auto
    ultimately show ?thesis using 1(1) [OF True, of u] 1(2,4) True by (cases "u = s + 1") auto
  next
    case False
    then show ?thesis using 1(2,3) by (subst (asm) down_from.simps) auto
  qed
qed

text \<open>One turn moves the cursor; only the window depends on more than the options.\<close>

lemma menu_turn_up:
  assumes p: "proper conds behind" and s: "offered conds s"
  shows "\<exists>w'. menu_turn ctrls SCE_CTRL_UP (set_options conds @ [behind]) n s w = Inr (prev_offered conds s, w')"
proof -
  let ?o = "set_options conds @ [behind]"
  let ?u = "up_from ?o s"
  note f = first_option [OF p] and l = last_option [OF p]
  have b: "0 \<le> s" "s \<le> int BUFFER_SIZE" using offered_bound [OF p s] by simp_all
  note r = up_from_result [OF p b(2)] and k = up_from_skips [OF p b(2)]
  have ul: "\<not> int (CALC_LAST_OPTION ?o) < ?u" using l(2) [OF s] r by simp
  show ?thesis
  proof (cases "?u < int (CALC_FIRST_OPTION ?o)")
    case True
    have "\<not> offered conds u" if "u < s" for u using that True f(2) [of u] k [of u] by auto
    then have "prev_offered conds s = s" by (rule prev_offered_none)
    moreover have "int (CALC_FIRST_OPTION ?o) = s"
      using f(2) [OF s] f(1) \<open>\<And>u. u < s \<Longrightarrow> \<not> offered conds u\<close> [of "int (CALC_FIRST_OPTION ?o)"] by linarith
    ultimately show ?thesis using True ul by (simp add: menu_turn_def Let_def)
  next
    case False
    have "offered conds ?u"
    proof (cases "?u \<le> 0")
      case True
      with False have "?u = int (CALC_FIRST_OPTION ?o)" by simp
      with f(1) show ?thesis by simp
    qed (use r in simp)
    then have "prev_offered conds s = ?u" using r k by (intro prev_offered_prev) auto
    with False ul show ?thesis by (simp add: menu_turn_def Let_def)
  qed
qed

lemma menu_turn_down:
  assumes p: "proper conds behind" and s: "offered conds s"
  shows "menu_turn ctrls SCE_CTRL_DOWN (set_options conds @ [behind]) n s w =
    Inr (next_offered conds s, if (\<exists>u > s. offered conds u) \<or> n \<le> WINDOW_SIZE then w else w + 1)"
proof -
  let ?o = "set_options conds @ [behind]"
  let ?d = "down_from ?o s"
  note f = first_option [OF p] and l = last_option [OF p]
  have b: "0 \<le> s" "s < int BUFFER_SIZE" using offered_bound [OF p s] by simp_all
  note r = down_from_result [OF p b] and k = down_from_skips [OF p b]
  have last_small: "int (CALC_LAST_OPTION ?o) < int BUFFER_SIZE" using offered_bound [OF p l(1)] by simp
  have fl: "int (CALC_FIRST_OPTION ?o) \<le> int (CALC_LAST_OPTION ?o)" by (rule f(2) [OF l(1)])
  have fd: "int (CALC_FIRST_OPTION ?o) < ?d" using f(2) [OF s] r by simp
  show ?thesis
  proof (cases "int (CALC_LAST_OPTION ?o) < ?d")
    case True
    have no: "\<not> offered conds u" if "s < u" for u using that True l(2) [of u] k [of u] by auto
    have "int (CALC_LAST_OPTION ?o) = s" using l(2) [OF s] l(1) no [of "int (CALC_LAST_OPTION ?o)"] by linarith
    with True fl no next_offered_none [OF no] show ?thesis
      by (auto simp: menu_turn_def Let_def SCE_CTRL_UP_def SCE_CTRL_DOWN_def)
  next
    case False
    with r last_small have o: "offered conds ?d" by auto
    then have "next_offered conds s = ?d" using r k by (intro next_offered_next) auto
    with False fd o r show ?thesis by (auto simp: menu_turn_def Let_def SCE_CTRL_UP_def SCE_CTRL_DOWN_def)
  qed
qed

lemma menu_turn_idle:
  assumes p: "proper conds behind" and s: "offered conds s"
    and k: "k \<noteq> SCE_CTRL_UP" "k \<noteq> SCE_CTRL_DOWN" "k \<noteq> SCE_CTRL_CANCEL ctrls" "k \<noteq> SCE_CTRL_CONFIRM ctrls"
  shows "menu_turn ctrls k (set_options conds @ [behind]) n s w = Inr (s, w)"
  using first_option(2) [OF p s] last_option(2) [OF p s] k by (simp add: menu_turn_def Let_def)

lemma next_offered_offered: "offered conds s \<Longrightarrow> offered conds (next_offered conds s)"
  by (auto simp: next_offered_def split: option.splits dest!: find_hit)

lemma prev_offered_offered: "offered conds s \<Longrightarrow> offered conds (prev_offered conds s)"
  by (auto simp: prev_offered_def split: option.splits dest!: find_hit)

lemma menu_loop_cursor:
  assumes func: "\<And>s w. fst (func s w) = conds" and p: "proper conds behind"
  shows "offered conds s \<Longrightarrow>
    menu_loop next_key (init_ctrl b) behind func s w ks = cursor (init_ctrl b) conds s ks"
proof (induction ks arbitrary: s w)
  case Nil
  then show ?case by (subst menu_loop.simps) (simp split: prod.split)
next
  case (Cons k ks)
  note b = button_values
  obtain w1 where fw: "func s w = (conds, w1)" using func [of s w] by (cases "func s w") simp
  consider "k = SCE_CTRL_UP" | "k = SCE_CTRL_DOWN" | "k = SCE_CTRL_CANCEL (init_ctrl b)" | "k = SCE_CTRL_CONFIRM (init_ctrl b)"
    | "k \<noteq> SCE_CTRL_UP" "k \<noteq> SCE_CTRL_DOWN" "k \<noteq> SCE_CTRL_CANCEL (init_ctrl b)" "k \<noteq> SCE_CTRL_CONFIRM (init_ctrl b)"
    by blast
  then show ?case
  proof cases
    case 1
    then obtain w' where "menu_turn (init_ctrl b) k (set_options conds @ [behind]) (int (length conds)) s w1 =
        Inr (prev_offered conds s, w')"
      using menu_turn_up [OF p Cons.prems] by blast
    with fw 1 Cons.IH [OF prev_offered_offered [OF Cons.prems]] show ?thesis by (subst menu_loop.simps) simp
  next
    case 2
    with fw b(6) menu_turn_down [OF p Cons.prems] Cons.IH [OF next_offered_offered [OF Cons.prems]]
    show ?thesis by (subst menu_loop.simps) simp
  next
    case 3
    with fw b menu_turn_ends(1) [OF 3] show ?thesis by (subst menu_loop.simps) simp
  next
    case 4
    with fw b menu_turn_ends(2) [OF 4] show ?thesis by (subst menu_loop.simps) simp
  next
    case 5
    with fw menu_turn_idle [OF p Cons.prems 5] Cons.IH [OF Cons.prems] show ?thesis by (subst menu_loop.simps) simp
  qed
qed

lemma first_option_find:
  assumes p: "proper conds behind"
  shows "List.find (offered conds) [0..int (length conds) - 1] = Some (int (CALC_FIRST_OPTION (set_options conds @ [behind])))"
  using first_option [OF p] by (intro find_upto) (auto simp: offered_def not_le [symmetric])

text \<open>C29: For every menu whose options do not depend on the position (all but the list of files)
  and that offers an option, the option machine does what its user expects: the cursor starts at
  the first option offered, up and down move it to the neighbouring option offered and keep it
  at the ends, other keys do nothing, cancel ends the menu with \<open>OP_CANCELED\<close> and confirm with the
  option under the cursor, which is one that is offered; and the menu goes on exactly as long
  as neither was pressed.  The byte behind the array is read by the search for the last option and is
  asked not to be one.\<close>

theorem menu_is_cursor:
  assumes "\<And>s w. fst (func s w) = conds" and "proper conds behind"
  shows "\<exists>first. List.find (offered conds) [0..int (length conds) - 1] = Some first \<and>
      PROCESS_MENU next_key (init_ctrl b) behind func ks = cursor (init_ctrl b) conds first ks \<and>
      (PROCESS_MENU next_key (init_ctrl b) behind func ks = None \<longleftrightarrow>
        SCE_CTRL_CONFIRM (init_ctrl b) \<notin> set ks \<and> SCE_CTRL_CANCEL (init_ctrl b) \<notin> set ks) \<and>
      (\<forall>r rest. PROCESS_MENU next_key (init_ctrl b) behind func ks = Some (r, rest) \<longrightarrow> good_answer conds r)"
proof -
  let ?first = "int (CALC_FIRST_OPTION (set_options conds @ [behind]))"
  have o: "offered conds ?first" by (rule first_option(1) [OF assms(2)])
  have run: "PROCESS_MENU next_key (init_ctrl b) behind func ks = cursor (init_ctrl b) conds ?first ks"
    using assms(1) [of 0 0] by (simp add: PROCESS_MENU_def Let_def split_beta menu_loop_cursor [OF assms o])
  have ends: "cursor (init_ctrl b) conds s ks = None \<longleftrightarrow>
      SCE_CTRL_CONFIRM (init_ctrl b) \<notin> set ks \<and> SCE_CTRL_CANCEL (init_ctrl b) \<notin> set ks" for s
    using button_values by (induction ks arbitrary: s) auto
  have good: "offered conds s \<Longrightarrow> cursor (init_ctrl b) conds s ks = Some (r, rest) \<Longrightarrow> good_answer conds r" for s r rest
  proof (induction ks arbitrary: s)
    case (Cons k ks)
    then show ?case
      using Cons.IH [OF prev_offered_offered [OF Cons.prems(1)]] Cons.IH [OF next_offered_offered [OF Cons.prems(1)]]
      by (auto simp: good_answer_def split: if_splits)
  qed simp
  show ?thesis using first_option_find [OF assms(2)] run ends good [OF o] by auto
qed

text \<open>The menu of a card without writable partition and with a media id, walked down twice and confirmed.\<close>

theorem menu_is_cursor_witness:
  "PROCESS_MENU next_key (init_ctrl False) 0 (draw_gc_options False True)
     [SCE_CTRL_DOWN, SCE_CTRL_DOWN, SCE_CTRL_DOWN, SCE_CTRL_DOWN, SCE_CTRL_DOWN, SCE_CTRL_CROSS] =
   Some (Inr 8, [])"
proof -
  let ?c = "[True, True, True, True, True, False, False, False, True]"
  let ?ks = "[SCE_CTRL_DOWN, SCE_CTRL_DOWN, SCE_CTRL_DOWN, SCE_CTRL_DOWN, SCE_CTRL_DOWN, SCE_CTRL_CROSS]"
  have p: "proper ?c 0" by (simp add: proper_def BUFFER_SIZE_def)
  obtain first where f: "List.find (offered ?c) [0..int (length ?c) - 1] = Some first"
    "PROCESS_MENU next_key (init_ctrl False) 0 (draw_gc_options False True) ?ks = cursor (init_ctrl False) ?c first ?ks"
    using menu_is_cursor [of "draw_gc_options False True" ?c 0 False ?ks] p
    by (auto simp: draw_gc_options_def)
  have "[0..8::int] = [0, 1, 2, 3, 4, 5, 6, 7, 8]" by code_simp
  with f(1) have z: "first = 0" by (simp add: offered_def)
  have "cursor (init_ctrl False) ?c 0 ?ks = Some (Inr 8, [])" by code_simp
  with f(2) z show ?thesis by simp
qed

section \<open>The list of files\<close>

lemma files_shown_upto: "files_shown n w = [w..min (w + WINDOW_SIZE) (n - 1)]"
proof -
  have "takeWhile (\<lambda>i. i < n) [a..b] = [a..min b (n - 1)]" for a b :: int
  proof (induction a b rule: upto.induct)
    case (1 a b)
    show ?case
    proof (cases "a \<le> b \<and> a < n")
      case True
      with 1 show ?thesis by (simp add: upto_rec1)
    next
      case False
      then show ?thesis by (cases "a \<le> b") (simp_all add: upto_rec1)
    qed
  qed
  then show ?thesis by (simp add: files_shown_def)
qed

lemma draw_select_file_conds:
  "0 \<le> n - file_window n w \<Longrightarrow> draw_select_file n s w = (replicate (nat (min 20 (n - file_window n w))) True, file_window n w)"
  by (simp add: draw_select_file_def Let_def files_shown_upto WINDOW_SIZE_def map_replicate_const min_def)

lemma offered_all [simp]: "offered (replicate k True) s \<longleftrightarrow> 0 \<le> s \<and> s < int k"
  by (auto simp: offered_def)

lemma proper_all: "0 < k \<Longrightarrow> k \<le> BUFFER_SIZE \<Longrightarrow> behind \<noteq> 1 \<Longrightarrow> proper (replicate k True) behind"
  by (simp add: proper_def)

text \<open>The file under the cursor, as it is drawn, against the file of that number, which is taken.\<close>

definition file_drawn :: "int \<Rightarrow> int \<Rightarrow> int \<Rightarrow> int" where
  "file_drawn n s w = files_shown n (file_window n w) ! nat s"

lemma file_drawn_value:
  "0 \<le> s \<Longrightarrow> s \<le> WINDOW_SIZE \<Longrightarrow> file_window n w + s < n \<Longrightarrow> file_drawn n s w = file_window n w + s"
  by (simp add: file_drawn_def files_shown_upto WINDOW_SIZE_def)

text \<open>Lists that never scroll: the window stays at the first file.\<close>

lemma list_does_not_scroll:
  assumes n: "1 \<le> n" "n < WINDOW_SIZE \<or> n mod WINDOW_SIZE = 1" and b: "behind \<noteq> 1"
  shows "menu_reaches (init_ctrl c) behind (draw_select_file n) s w \<Longrightarrow>
    0 \<le> s \<and> s < min 20 n \<and> 0 \<le> w \<and> file_window n w = 0"
proof (induction rule: menu_reaches.induct)
  have w0: "file_window n 0 = 0" using n by (auto simp: file_window_def WINDOW_SIZE_def)
  have d: "draw_select_file n s w = (replicate (nat (min 20 n)) True, 0)" if "file_window n w = 0" for s w
    using that n draw_select_file_conds [of n w] by simp
  have p: "proper (replicate (nat (min 20 n)) True) behind" using n b by (intro proper_all) (auto simp: BUFFER_SIZE_def)
  {
    case (reach_start conds w)
    then have cw: "conds = replicate (nat (min 20 n)) True" "w = 0" using d [OF w0, of 0] by simp_all
    show ?case using first_option(1) [OF p] w0 n unfolding cw by auto
  next
    case (reach_turn s w conds w1 k s' w')
    then have cw: "conds = replicate (nat (min 20 n)) True" "w1 = 0" using d [of w s] by simp_all
    have s: "offered (replicate (nat (min 20 n)) True) s" using reach_turn.IH by simp
    have z: "CALC_FIRST_OPTION (set_options (replicate (nat (min 20 n)) True) @ [behind]) = 0"
      using first_option(2) [OF p, of 0] n by simp
    have "w' = 0 \<or> n > WINDOW_SIZE \<and> w' = 1"
      using reach_turn.hyps(3) z n by (auto simp: cw menu_turn_def Let_def WINDOW_SIZE_def split: if_splits)
    moreover have "file_window n 1 = 0" if "n > WINDOW_SIZE" using that n(2) by (simp add: file_window_def)
    moreover have "offered (replicate (nat (min 20 n)) True) s'"
      by (rule menu_turn_offered [OF p s reach_turn.hyps(3) [unfolded cw]])
    ultimately show ?case using w0 n by auto
  }
qed

text \<open>Lists that scroll: twenty steps down reach a state that draws another file.\<close>

lemma list_scrolls:
  assumes n: "WINDOW_SIZE < n" "2 \<le> n mod WINDOW_SIZE" and b: "behind \<noteq> 1"
  shows "menu_reaches (init_ctrl c) behind (draw_select_file n) 19 1"
proof -
  let ?c = "replicate 20 True"
  have n20: "21 \<le> n"
  proof (rule ccontr)
    assume "\<not> 21 \<le> n"
    with n(1) have "n = 20" by (simp add: WINDOW_SIZE_def)
    with n(2) show False by (simp add: WINDOW_SIZE_def)
  qed
  have w0: "file_window n 0 = 0" using n by (simp add: file_window_def)
  then have d: "draw_select_file n s 0 = (?c, 0)" for s
    using n20 draw_select_file_conds [of n 0] by simp
  have p: "proper ?c behind" using b by (intro proper_all) (auto simp: BUFFER_SIZE_def)
  have z: "CALC_FIRST_OPTION (set_options ?c @ [behind]) = 0" using first_option(2) [OF p, of 0] by simp
  have "menu_reaches (init_ctrl c) behind (draw_select_file n) (int i) 0" if "i \<le> 19" for i
    using that
  proof (induction i)
    case 0
    show ?case using reach_start [where func = "draw_select_file n" and ctrls = "init_ctrl c" and behind = behind, OF d] by (simp add: z)
  next
    case (Suc i)
    have o: "offered ?c (int i)" using Suc.prems by simp
    have "next_offered ?c (int i) = int (Suc i)" using Suc.prems by (intro next_offered_next) auto
    moreover have "\<exists>u > int i. offered ?c u" using Suc.prems by (intro exI [of _ "int (Suc i)"]) auto
    ultimately have "menu_turn (init_ctrl c) SCE_CTRL_DOWN (set_options ?c @ [behind]) (int (length ?c)) (int i) 0 = Inr (int (Suc i), 0)"
      using menu_turn_down [OF p o, of "init_ctrl c" "int (length ?c)" 0] by simp
    moreover have "menu_reaches (init_ctrl c) behind (draw_select_file n) (int i) 0" using Suc by simp
    ultimately show ?case using reach_turn [where func = "draw_select_file n" and s = "int i" and w = 0, OF _ d] by blast
  qed
  from this [of 19] have r: "menu_reaches (init_ctrl c) behind (draw_select_file n) 19 0" by simp
  have o: "offered ?c 19" by simp
  have "next_offered ?c 19 = 19" by (intro next_offered_none) auto
  then have "menu_turn (init_ctrl c) SCE_CTRL_DOWN (set_options ?c @ [behind]) (int (length ?c)) 19 0 = Inr (19, 1)"
    using menu_turn_down [OF p o, of "init_ctrl c" "int (length ?c)" 0] by (auto simp: WINDOW_SIZE_def)
  then show ?thesis by (rule reach_turn [where func = "draw_select_file n", OF r d])
qed

text \<open>C30: The file the user sees under the cursor is the file the choice returns, in every state the
  list of a folder reaches under any keys, exactly when the list has fewer than nineteen files or its length
  is one more than a multiple of nineteen.  With any other length it can be another one: the
  position is that in the window, and is used as that in the list; and for a multiple of nineteen the
  window starts before the list.\<close>

theorem file_choice:
  assumes "1 \<le> n" and "behind \<noteq> 1"
  shows "(\<forall>s w. menu_reaches (init_ctrl c) behind (draw_select_file n) s w \<longrightarrow> file_drawn n s w = s) \<longleftrightarrow>
      n < WINDOW_SIZE \<or> n mod WINDOW_SIZE = 1"
proof
  assume "n < WINDOW_SIZE \<or> n mod WINDOW_SIZE = 1"
  from list_does_not_scroll [OF assms(1) this assms(2)]
  show "\<forall>s w. menu_reaches (init_ctrl c) behind (draw_select_file n) s w \<longrightarrow> file_drawn n s w = s"
    by (force simp: file_drawn_value WINDOW_SIZE_def)
next
  assume all: "\<forall>s w. menu_reaches (init_ctrl c) behind (draw_select_file n) s w \<longrightarrow> file_drawn n s w = s"
  show "n < WINDOW_SIZE \<or> n mod WINDOW_SIZE = 1"
  proof (rule ccontr)
    assume no: "\<not> ?thesis"
    then have n: "19 \<le> n" "n mod 19 \<noteq> 1" by (simp_all add: WINDOW_SIZE_def)
    show False
    proof (cases "n mod 19 = 0")
      case True
      then have w: "file_window n 0 = -1" "file_window n (-1) = -1" by (simp_all add: file_window_def WINDOW_SIZE_def)
      have d: "draw_select_file n 0 0 = (replicate 20 True, -1)"
        using w(1) n draw_select_file_conds [of n 0] by simp
      have p: "proper (replicate 20 True) behind" using assms(2) by (intro proper_all) (auto simp: BUFFER_SIZE_def)
      have z: "CALC_FIRST_OPTION (set_options (replicate 20 True) @ [behind]) = 0" using first_option(2) [OF p, of 0] by simp
      have "menu_reaches (init_ctrl c) behind (draw_select_file n) 0 (-1)"
        using reach_start [where func = "draw_select_file n" and ctrls = "init_ctrl c" and behind = behind, OF d] by (simp add: z)
      then have "file_drawn n 0 (-1) = 0" using all by blast
      with file_drawn_value [of 0 n "-1"] w n show False by (simp add: WINDOW_SIZE_def)
    next
      case False
      have "0 \<le> n mod 19" by simp
      with False n have m: "2 \<le> n mod WINDOW_SIZE" by (simp add: WINDOW_SIZE_def)
      moreover have "WINDOW_SIZE < n"
      proof (rule ccontr)
        assume "\<not> ?thesis"
        with n have "n = 19" by (simp add: WINDOW_SIZE_def)
        with False show False by simp
      qed
      ultimately have "file_drawn n 19 1 = 19" using all list_scrolls [OF _ _ assms(2)] by blast
      moreover have "file_window n 1 = 1" using m by (simp add: file_window_def)
      moreover have "21 \<le> n"
      proof (rule ccontr)
        assume "\<not> ?thesis"
        with \<open>WINDOW_SIZE < n\<close> have "n = 20" by (simp add: WINDOW_SIZE_def)
        with m show False by (simp add: WINDOW_SIZE_def)
      qed
      ultimately show False using file_drawn_value [of 19 n 1] by (simp add: WINDOW_SIZE_def)
    qed
  qed
qed

text \<open>Twenty-five files.\<close>

theorem file_choice_witness:
  "\<exists>s w. menu_reaches (init_ctrl False) 0 (draw_select_file 25) s w \<and> file_drawn 25 s w \<noteq> s"
  using file_choice [of 25 0 False] by (simp add: WINDOW_SIZE_def)

end
