(* ===== verification/Sfo.thy ===== *)
theory Sfo
  imports Paths
begin

text \<open>
  \<^verbatim>\<open>app/sfo.c\<close>, the reader of the parameter file of a game, and \<^verbatim>\<open>app/gameinfo.c\<close>, which
  names a card after it.  The second half builds parameter files and shows that the reader finds
  in them what was put in, and what becomes of cards without one.
\<close>

section \<open>The file format\<close>

text \<open>Fields of \<^verbatim>\<open>GcSfoHeader\<close> and \<^verbatim>\<open>GcSfoKey\<close>.\<close>

definition sfo_magic :: field where [struct_fields]: "sfo_magic = (0, 4)"
definition sfo_version :: field where [struct_fields]: "sfo_version = (4, 4)"
definition sfo_key_offset :: field where [struct_fields]: "sfo_key_offset = (8, 4)"
definition sfo_value_offset :: field where [struct_fields]: "sfo_value_offset = (12, 4)"
definition sfo_count :: field where [struct_fields]: "sfo_count = (16, 4)"
definition sizeof_GcSfoHeader :: nat where "sizeof_GcSfoHeader = 20"

definition key_name_offset :: field where [struct_fields]: "key_name_offset = (0, 2)"
definition key_alignment :: field where [struct_fields]: "key_alignment = (2, 1)"
definition key_type :: field where [struct_fields]: "key_type = (3, 1)"
definition key_value_size :: field where [struct_fields]: "key_value_size = (4, 4)"
definition key_total_size :: field where [struct_fields]: "key_total_size = (8, 4)"
definition key_data_offset :: field where [struct_fields]: "key_data_offset = (12, 4)"
definition sizeof_GcSfoKey :: nat where "sizeof_GcSfoKey = 16"

definition PSF_TYPE_STR :: u8 where "PSF_TYPE_STR = 2"
definition SFO_MAGIC :: bytes where "SFO_MAGIC = 0 # map of_char ''PSF''"

section \<open>The reader\<close>

definition strncmp_eq :: "bytes \<Rightarrow> bytes \<Rightarrow> nat \<Rightarrow> bool" where
  "strncmp_eq a b n \<longleftrightarrow> take n (chars a @ [0]) = take n (chars b @ [0])"

text \<open>
  The loop over the keys, \<open>n\<close> of them left.  \<open>mem\<close> is the buffer and what lies behind it on the
  heap, which strings that are not terminated run into; \<open>key_name\<close> and \<open>key_value\<close> are the
  two stack buffers, whose last byte is never written.  \<open>Inl\<close> is a code, \<open>Inr\<close> the value found.
\<close>

fun sfo_turns ::
  "bytes \<Rightarrow> u64 \<Rightarrow> bytes \<Rightarrow> bytes \<Rightarrow> bytes \<Rightarrow> u32 \<Rightarrow> bytes \<Rightarrow> bytes \<Rightarrow> nat \<Rightarrow> u32 \<Rightarrow> int + bytes" where
  "sfo_turns mem sfo_size header key_name key_value ptr sfo_key out_key 0 out_key_size = Inl SFO_KEY_NOT_FOUND"
| "sfo_turns mem sfo_size header key_name key_value ptr sfo_key out_key (Suc n) out_key_size =
     (if ucast ptr > sfo_size then Inl SIZE_NOT_MATCH
      else
        (let s_key = get_field (unat ptr, sizeof_GcSfoKey) mem;
             ptr = ptr + of_nat sizeof_GcSfoKey
         in if get_field key_type s_key ! 0 \<noteq> PSF_TYPE_STR
            then sfo_turns mem sfo_size header key_name key_value ptr sfo_key out_key n out_key_size
            else
              (let name_offset = le_word (get_field sfo_key_offset header) + ucast (le_word (get_field key_name_offset s_key) :: u16) :: u32
               in if ucast name_offset > sfo_size then Inl SIZE_NOT_MATCH
                  else
                    (let data_offset = le_word (get_field sfo_value_offset header) + le_word (get_field key_data_offset s_key) :: u32
                     in if ucast data_offset > sfo_size then Inl SIZE_NOT_MATCH
                        else
                          (let key_name = strncpy key_name 0 (drop (unat name_offset) mem) 63;
                               key_value = strncpy key_value 0 (drop (unat data_offset) mem) 63
                           in if strncmp_eq key_name sfo_key (unat out_key_size)
                              then Inr (strncpy out_key 0 key_value (unat (out_key_size - 1)))
                              else sfo_turns mem sfo_size header key_name key_value ptr sfo_key out_key n out_key_size)))))"

text \<open>What follows the reading of the file: the checks of the header and the loop.\<close>

definition sfo_find ::
  "bytes \<Rightarrow> bytes \<Rightarrow> bytes \<Rightarrow> u64 \<Rightarrow> bytes \<Rightarrow> bytes \<Rightarrow> bytes \<Rightarrow> u32 \<Rightarrow> int + bytes" where
  "sfo_find key_name key_value behind sfo_size sfo_buffer sfo_key out_key out_key_size =
     (if sfo_size \<le> of_nat sizeof_GcSfoHeader then Inl SIZE_NOT_MATCH
      else
        (let header = get_field (0, sizeof_GcSfoHeader) sfo_buffer;
             count = le_word (get_field sfo_count header) :: u32
         in if impl_memcmp (get_field sfo_magic header) SFO_MAGIC 4 \<noteq> 0 then Inl INVALID_MAGIC
            else if count > 200 then Inl SFO_TOO_MANY_ENTRIES
            else if sfo_size < of_nat sizeof_GcSfoHeader + of_nat sizeof_GcSfoKey * ucast count then Inl SIZE_NOT_MATCH
            else sfo_turns (sfo_buffer @ behind) sfo_size header key_name key_value (of_nat sizeof_GcSfoHeader)
                   sfo_key out_key (unat count) out_key_size))"

text \<open>
  \<open>stk\<close> holds the two stack buffers and the heap behind the allocation.  The descriptor is set to
  zero once it was closed; the exit closes it when it is positive.
\<close>

record sfo_stack =
  stk_key_name :: bytes
  stk_key_value :: bytes
  heap_behind :: bytes

definition sfo_exit :: "'e io_sys \<Rightarrow> int \<Rightarrow> 'e \<Rightarrow> 'e" where
  "sfo_exit sys sfo_fd e = (if sfo_fd > 0 then snd (sceIoClose sys sfo_fd e) else e)"

definition read_sfo_key ::
  "sfo_stack \<Rightarrow> 'e io_sys \<Rightarrow> bytes \<Rightarrow> bytes \<Rightarrow> bytes \<Rightarrow> u32 \<Rightarrow> 'e \<Rightarrow> int \<times> bytes \<times> 'e" where
  "read_sfo_key stk sys sfo_file sfo_key out_key out_key_size e =
     (let sfo_size = get_file_size sys sfo_file e
      in if sfo_size = 0 then (0, out_key, e)
         else if \<not> malloc_ok sys (ucast (ucast sfo_size :: u32)) e then (POINTER_WAS_NULL, out_key, e)
         else
           (let (sfo_fd, e) = sceIoOpen sys sfo_file SCE_O_RDONLY e
            in if sfo_fd < 0 then (sfo_fd, out_key, e)
               else
                 (let (rd, sfo_buffer, e) = sceIoRead sys sfo_fd (zeros (unat (ucast sfo_size :: u32))) e
                  in if (word_of_int rd :: u64) \<noteq> sfo_size then (SIZE_NOT_MATCH, out_key, sfo_exit sys sfo_fd e)
                     else
                       (let (closed, e) = sceIoClose sys sfo_fd e;
                            sfo_fd = (if closed \<ge> 0 then 0 else sfo_fd)
                        in case sfo_find (stk_key_name stk) (stk_key_value stk) (heap_behind stk) sfo_size sfo_buffer
                                  sfo_key out_key out_key_size of
                             Inl res \<Rightarrow> (res, out_key, sfo_exit sys sfo_fd e)
                           | Inr value \<Rightarrow> (OK, value, sfo_exit sys sfo_fd e)))))"

section \<open>The name of a card\<close>

definition TITLE_ID_SIZE :: nat where "TITLE_ID_SIZE = 12"
definition DEFAULT_TITLEID :: bytes where "DEFAULT_TITLEID = cstr ''NPXS99999''"
definition DEFAULT_TITLE :: bytes where "DEFAULT_TITLE = cstr ''UNKNOWN''"

text \<open>\<^verbatim>\<open>snprintf\<close> into a buffer: the text cut to one byte less than the size, and its terminator.\<close>

definition snprintf :: "bytes \<Rightarrow> nat \<Rightarrow> bytes \<Rightarrow> bytes" where
  "snprintf dst bound text = put_field (0, Suc (min (bound - 1) (length text))) (take (bound - 1) text @ [0]) dst"

definition param_sfo_path :: "bytes \<Rightarrow> bytes \<Rightarrow> bytes" where
  "param_sfo_path stk title_id =
     snprintf stk MAX_PATH (map of_char ''gro0:/app/'' @ chars title_id @ map of_char ''/sce_sys/param.sfo'')"

text \<open>\<open>path_stk\<close> is the uninitialised path buffer; the sizes of both results are \<open>length\<close>.\<close>

definition read_gameinfo ::
  "sfo_stack \<Rightarrow> bytes \<Rightarrow> 'e io_sys \<Rightarrow> bytes \<Rightarrow> bytes \<Rightarrow> u32 \<Rightarrow> 'e \<Rightarrow> int \<times> bytes \<times> bytes \<times> 'e" where
  "read_gameinfo stk path_stk sys title_id title len e =
     (let (_, e) = wait_for_partition sys (cstr ''gro0:'') e;
          (res, id_out, e) = read_first_filename sys (cstr ''gro0:/app'') (Some title_id) TITLE_ID_SIZE e;
          title_id = the id_out;
          (res, title_id, title, e) =
            (if res \<ge> 0 then
               (let path = param_sfo_path path_stk title_id;
                    (res, title, e) = read_sfo_key stk sys path (cstr ''STITLE'') title (len - 1) e;
                    (res, title, e) =
                      (if res = SFO_KEY_NOT_FOUND then read_sfo_key stk sys path (cstr ''TITLE'') title (len - 1) e
                       else (res, title, e));
                    (_, title_id, e) = read_sfo_key stk sys path (cstr ''TITLE_ID'') title_id (len - 1) e
                in (res, title_id, title, e))
             else (res, title_id, title, e))
      in if res < 0
         then (res, strncpy title_id 0 DEFAULT_TITLEID (unat (len - 1)), strncpy title 0 DEFAULT_TITLE (unat (len - 1)), e)
         else (res, title_id, title, e))"

section \<open>Parameter files\<close>

text \<open>
  What a parameter file is: a header, an index of entries, the names and the values.  An entry
  is its type, its name and its value, of which strings are terminated.
\<close>

type_synonym sfo_entry = "u8 \<times> bytes \<times> bytes"

definition index_entry :: "nat \<Rightarrow> nat \<Rightarrow> sfo_entry \<Rightarrow> bytes" where
  "index_entry n d = (\<lambda>(t, k, v). le_bytes 2 (of_nat n :: u16) @ [4, t] @ le_bytes 4 (of_nat (length v) :: u32) @
     le_bytes 4 (of_nat (Suc (length v)) :: u32) @ le_bytes 4 (of_nat d :: u32))"

definition sfo_names :: "sfo_entry list \<Rightarrow> bytes" where
  "sfo_names es = concat (map (\<lambda>(t, k, v). k @ [0]) es)"

definition sfo_values :: "sfo_entry list \<Rightarrow> bytes" where
  "sfo_values es = concat (map (\<lambda>(t, k, v). v @ [0]) es)"

fun sfo_index :: "nat \<Rightarrow> nat \<Rightarrow> sfo_entry list \<Rightarrow> bytes" where
  "sfo_index n d [] = []"
| "sfo_index n d (x # es) = index_entry n d x @ sfo_index (n + length (sfo_names [x])) (d + length (sfo_values [x])) es"

definition sfo_header :: "sfo_entry list \<Rightarrow> bytes" where
  "sfo_header es = SFO_MAGIC @ le_bytes 4 (0x101 :: u32) @ le_bytes 4 (of_nat (20 + 16 * length es) :: u32) @
     le_bytes 4 (of_nat (20 + 16 * length es + length (sfo_names es)) :: u32) @ le_bytes 4 (of_nat (length es) :: u32)"

definition sfo_image :: "sfo_entry list \<Rightarrow> bytes" where
  "sfo_image es = sfo_header es @ sfo_index 0 0 es @ sfo_names es @ sfo_values es"

text \<open>Entries the reader has room for: names and values without zeros that fit its buffers.\<close>

definition sfo_ok :: "sfo_entry list \<Rightarrow> bool" where
  "sfo_ok es \<longleftrightarrow> 0 < length es \<and> length es \<le> 200 \<and>
     (\<forall>(t, k, v) \<in> set es. 0 \<notin> set k \<and> 0 \<notin> set v \<and> length k \<le> 62 \<and> length v \<le> 2 ^ 20)"

definition sfo_lookup :: "sfo_entry list \<Rightarrow> bytes \<Rightarrow> bytes option" where
  "sfo_lookup es key = map_option (\<lambda>(t, k, v). v) (List.find (\<lambda>(t, k, v). t = PSF_TYPE_STR \<and> k = key) es)"

lemma length_index_entry [simp]: "length (index_entry n d x) = 16"
  by (cases x) (simp add: index_entry_def)

lemma length_sfo_index [simp]: "length (sfo_index n d es) = 16 * length es"
  by (induction es arbitrary: n d) simp_all

lemma length_sfo_header [simp]: "length (sfo_header es) = 20"
  by (simp add: sfo_header_def SFO_MAGIC_def)

lemma sfo_names_append [simp]: "sfo_names (a @ b) = sfo_names a @ sfo_names b"
  by (simp add: sfo_names_def)

lemma sfo_values_append [simp]: "sfo_values (a @ b) = sfo_values a @ sfo_values b"
  by (simp add: sfo_values_def)

lemma sfo_index_append:
  "sfo_index n d (a @ b) = sfo_index n d a @ sfo_index (n + length (sfo_names a)) (d + length (sfo_values a)) b"
  by (induction a arbitrary: n d) (simp_all add: sfo_names_def sfo_values_def add.assoc)

lemma sfo_names_Cons: "sfo_names ((t, k, v) # es) = k @ 0 # sfo_names es"
  by (simp add: sfo_names_def)

lemma sfo_values_Cons: "sfo_values ((t, k, v) # es) = v @ 0 # sfo_values es"
  by (simp add: sfo_values_def)

lemma index_entry_fields:
  assumes "n < 2 ^ 16" "d < 2 ^ 32"
  shows "get_field key_type (index_entry n d (t, k, v)) = [t]"
    "(le_word (get_field key_name_offset (index_entry n d (t, k, v))) :: u16) = of_nat n"
    "(le_word (get_field key_data_offset (index_entry n d (t, k, v))) :: u32) = of_nat d"
  by (simp_all add: index_entry_def struct_fields get_field.simps)

lemma header_fields:
  "get_field sfo_magic (sfo_header es) = SFO_MAGIC"
  "(le_word (get_field sfo_key_offset (sfo_header es)) :: u32) = of_nat (20 + 16 * length es)"
  "(le_word (get_field sfo_value_offset (sfo_header es)) :: u32) = of_nat (20 + 16 * length es + length (sfo_names es))"
  "(le_word (get_field sfo_count (sfo_header es)) :: u32) = of_nat (length es)"
  by (simp_all add: sfo_header_def SFO_MAGIC_def struct_fields get_field.simps del: of_nat_add of_nat_mult)

lemma names_short:
  assumes "sfo_ok es"
  shows "length (sfo_names es) \<le> 63 * length es" "length (sfo_values es) \<le> (2 ^ 20 + 1) * length es"
proof -
  have "\<forall>(t, k, v) \<in> set xs. length k \<le> 62 \<and> length v \<le> 2 ^ 20 \<Longrightarrow>
      length (sfo_names xs) \<le> 63 * length xs \<and> length (sfo_values xs) \<le> (2 ^ 20 + 1) * length xs" for xs :: "sfo_entry list"
  proof (induction xs)
    case (Cons x xs)
    then show ?case by (cases x) (simp add: sfo_names_Cons sfo_values_Cons)
  qed (simp add: sfo_names_def sfo_values_def)
  moreover have "\<forall>(t, k, v) \<in> set es. length k \<le> 62 \<and> length v \<le> 2 ^ 20" using assms by (auto simp: sfo_ok_def)
  ultimately show "length (sfo_names es) \<le> 63 * length es" "length (sfo_values es) \<le> (2 ^ 20 + 1) * length es" by blast+
qed

text \<open>What a string copied out of the file reads as.\<close>

lemma chars_strncpy_room:
  assumes "strlen src < n" "n \<le> length dst"
  shows "chars (strncpy dst 0 src n) = chars src"
proof -
  have "strncpy dst 0 src n = put_field (0, n) (take n (chars src) @ zeros (n - strlen src)) dst"
    using assms by (intro strncpy_field) simp
  also have "\<dots> = chars src @ zeros (n - strlen src) @ drop n dst" using assms(1) by (simp add: put_field.simps)
  also have "zeros (n - strlen src) = 0 # zeros (n - strlen src - 1)" using assms(1) by (simp add: zeros_def flip: replicate_Suc)
  finally show ?thesis using set_chars by (simp only: append_Cons) (rule chars_append_0, blast)
qed

lemma chars_strncpy_terminated:
  assumes "0 \<notin> set k" "length k < n" "n \<le> length dst"
  shows "chars (strncpy dst 0 (k @ 0 # rest) n) = k"
proof -
  have c: "chars (k @ 0 # rest) = k" using assms(1) by (intro chars_append_0) auto
  then have "strlen (k @ 0 # rest) = length k" by (metis length_chars)
  with chars_strncpy_room [of "k @ 0 # rest" n dst] c assms show ?thesis by simp
qed

lemma strncmp_eq_chars:
  assumes "strlen b < n"
  shows "strncmp_eq a b n \<longleftrightarrow> chars a = chars b"
proof
  assume "strncmp_eq a b n"
  then have t: "take n (chars a @ [0]) = chars b @ [0]" using assms by (simp add: strncmp_eq_def)
  have "length (chars a) < n"
  proof (rule ccontr)
    assume "\<not> length (chars a) < n"
    with t have "take n (chars a) = chars b @ [0]" by simp
    then have "0 \<in> set (chars a)" by (metis in_set_takeD in_set_conv_decomp)
    with set_chars show False by blast
  qed
  with t show "chars a = chars b" by simp
qed (simp add: strncmp_eq_def)

lemma get_field_middle: "length a = i \<Longrightarrow> length b = n \<Longrightarrow> get_field (i, n) (a @ b @ c) = b"
  by (simp add: get_field.simps)

lemma image_size: "sfo_ok es \<Longrightarrow> length (sfo_image es) < 2 ^ 31 \<and> 20 + 16 * length es + length (sfo_names es) < 2 ^ 16"
  using names_short [of es] by (simp add: sfo_image_def sfo_ok_def)

text \<open>The parts of a file around one of its entries.\<close>

lemma image_split:
  assumes es: "es = done @ (t, k, v) # rest"
    and x_def: "x = index_entry (length (sfo_names done)) (length (sfo_values done)) (t, k, v)"
  shows "\<exists>c. sfo_image es @ behind = (sfo_header es @ sfo_index 0 0 done) @ x @ c"
    "\<exists>c. sfo_image es @ behind = (sfo_header es @ sfo_index 0 0 es @ sfo_names done) @ k @ 0 # c"
    "\<exists>c. sfo_image es @ behind = (sfo_header es @ sfo_index 0 0 es @ sfo_names es @ sfo_values done) @ v @ 0 # c"
  by (simp_all add: sfo_image_def es x_def sfo_index_append sfo_names_Cons sfo_values_Cons)

lemma sfo_turns_finds:
  assumes ok: "sfo_ok es" and sz: "sfo_size = of_nat (length (sfo_image es))"
    and key: "strlen key < unat osz"
  shows "es = done @ rest \<Longrightarrow> length kn = 64 \<Longrightarrow> length kv = 64 \<Longrightarrow>
    (case sfo_lookup rest (chars key) of
       None \<Rightarrow> sfo_turns (sfo_image es @ behind) sfo_size (sfo_header es) kn kv (of_nat (20 + 16 * length done)) key out (length rest) osz = Inl SFO_KEY_NOT_FOUND
     | Some v \<Rightarrow> \<exists>kv'. sfo_turns (sfo_image es @ behind) sfo_size (sfo_header es) kn kv (of_nat (20 + 16 * length done)) key out (length rest) osz =
           Inr (strncpy out 0 kv' (unat (osz - 1))) \<and> (length v \<le> 62 \<longrightarrow> chars kv' = v))"
proof (induction rest arbitrary: "done" kn kv)
  case Nil
  then show ?case by (simp add: sfo_lookup_def)
next
  case (Cons x rest)
  obtain t k v where x: "x = (t, k, v)" by (cases x)
  let ?mem = "sfo_image es @ behind" and ?N = "length (sfo_names done)" and ?D = "length (sfo_values done)"
  let ?e = "index_entry ?N ?D (t, k, v)"
  let ?ptr = "of_nat (20 + 16 * length done) :: u32"
  have es: "es = done @ (t, k, v) # rest" using Cons.prems(1) x by simp
  note small = image_size [OF ok]
  have len: "length (sfo_image es) = 20 + 16 * length es + length (sfo_names es) + length (sfo_values es)"
    by (simp add: sfo_image_def)
  have N: "?N \<le> length (sfo_names es)" and D: "?D \<le> length (sfo_values es)" and p: "16 * length done + 16 \<le> 16 * length es"
    using es by simp_all
  have un: "unat (of_nat i :: u32) = i" if "i < 2 ^ 31" for i
    using that by (simp add: unat_of_nat)
  have up: "ucast (of_nat i :: u32) = (of_nat i :: u64)" if "i < 2 ^ 31" for i
  proof (rule word_unat_eq_iff [THEN iffD2])
    have "unat (ucast (of_nat i :: u32) :: u64) = unat (of_nat i :: u32)" using that by (simp add: unsigned_ucast_eq take_bit_eq_mod unat_of_nat)
    also have "\<dots> = unat (of_nat i :: u64)" using un [OF that] that by (simp add: unat_of_nat)
    finally show "unat (ucast (of_nat i :: u32) :: u64) = unat (of_nat i :: u64)" .
  qed
  have inside: "\<not> (ucast (of_nat i :: u32) > sfo_size)" if "i \<le> length (sfo_image es)" for i
  proof -
    have "i < 2 ^ 31" using that small by simp
    moreover have "(of_nat i :: u64) \<le> of_nat (length (sfo_image es))"
      using that small by (simp add: word_le_nat_alt unat_of_nat)
    ultimately show ?thesis by (simp add: up sz)
  qed
  have uN: "ucast (of_nat ?N :: u16) = (of_nat ?N :: u32)"
  proof (rule word_unat_eq_iff [THEN iffD2])
    have "?N < 2 ^ 16" using N small by simp
    then show "unat (ucast (of_nat ?N :: u16) :: u32) = unat (of_nat ?N :: u32)"
      by (simp add: unsigned_ucast_eq take_bit_eq_mod unat_of_nat)
  qed
  obtain c1 where c1: "?mem = (sfo_header es @ sfo_index 0 0 done) @ ?e @ c1" using image_split(1) [OF es refl] by blast
  obtain c2 where c2: "?mem = (sfo_header es @ sfo_index 0 0 es @ sfo_names done) @ k @ 0 # c2" using image_split(2) [OF es refl] by blast
  obtain c3 where c3: "?mem = (sfo_header es @ sfo_index 0 0 es @ sfo_names es @ sfo_values done) @ v @ 0 # c3"
    using image_split(3) [OF es refl] by blast
  let ?no = "20 + 16 * length es + ?N" and ?do = "20 + 16 * length es + length (sfo_names es) + ?D"
  have entry: "get_field (unat ?ptr, sizeof_GcSfoKey) ?mem = ?e"
    unfolding c1 using p small len
    by (intro get_field_middle) (simp_all add: un sizeof_GcSfoKey_def del: of_nat_add of_nat_mult)
  have name: "drop (unat (of_nat ?no :: u32)) ?mem = k @ 0 # c2"
    unfolding c2 using N small len by (simp add: un del: of_nat_add of_nat_mult)
  have val: "drop (unat (of_nat ?do :: u32)) ?mem = v @ 0 # c3"
    unfolding c3 using D small len by (simp add: un del: of_nat_add of_nat_mult)
  have kv_ok: "0 \<notin> set k" "0 \<notin> set v" "length k \<le> 62" using ok es by (auto simp: sfo_ok_def)
  have bounds: "?N < 2 ^ 16" "?D < 2 ^ 32" using N D small len by simp_all
  note fields = index_entry_fields [OF bounds, of t k v]
  have next_ptr: "?ptr + of_nat sizeof_GcSfoKey = of_nat (20 + 16 * length (done @ [x]))" by (simp add: sizeof_GcSfoKey_def)
  have no: "(le_word (get_field sfo_key_offset (sfo_header es)) :: u32) + ucast (le_word (get_field key_name_offset ?e) :: u16) = of_nat ?no"
    unfolding fields header_fields uN by simp
  have d_o: "(le_word (get_field sfo_value_offset (sfo_header es)) :: u32) + le_word (get_field key_data_offset ?e) = of_nat ?do"
    unfolding fields header_fields by simp
  have es': "es = (done @ [x]) @ rest" using Cons.prems(1) by simp
  let ?kn = "strncpy kn 0 (k @ 0 # c2) 63" and ?kv = "strncpy kv 0 (v @ 0 # c3) 63"
  have kn: "chars ?kn = k" using kv_ok Cons.prems(2) by (intro chars_strncpy_terminated) simp_all
  have kv: "length v \<le> 62 \<longrightarrow> chars ?kv = v" using kv_ok Cons.prems(3) by (auto intro!: chars_strncpy_terminated)
  have in1: "\<not> (ucast ?ptr > sfo_size)" by (rule inside) (use p len in simp)
  have in2: "\<not> (ucast (of_nat ?no :: u32) > sfo_size)" by (rule inside) (use N len in simp)
  have in3: "\<not> (ucast (of_nat ?do :: u32) > sfo_size)" by (rule inside) (use D len in simp)
  have step: "sfo_turns ?mem sfo_size (sfo_header es) kn kv ?ptr key out (length (x # rest)) osz =
      (if t \<noteq> PSF_TYPE_STR then sfo_turns ?mem sfo_size (sfo_header es) kn kv (of_nat (20 + 16 * length (done @ [x]))) key out (length rest) osz
       else if k = chars key then Inr (strncpy out 0 ?kv (unat (osz - 1)))
       else sfo_turns ?mem sfo_size (sfo_header es) ?kn ?kv (of_nat (20 + 16 * length (done @ [x]))) key out (length rest) osz)"
    using in1 in2 in3
    by (simp only: list.size sfo_turns.simps Let_def entry fields(1) no d_o name val next_ptr strncmp_eq_chars [OF key] kn
        if_False nth_Cons_0 Suc_eq_plus1 [symmetric] add_Suc_right add_0_right)
  show ?case
  proof (cases "t = PSF_TYPE_STR \<and> k = chars key")
    case True
    then show ?thesis unfolding step using kv by (auto simp: sfo_lookup_def x)
  next
    case False
    then have "sfo_lookup (x # rest) (chars key) = sfo_lookup rest (chars key)" by (auto simp: sfo_lookup_def x)
    then show ?thesis unfolding step
      using False Cons.IH [OF es' Cons.prems(2,3)] Cons.IH [OF es', of ?kn ?kv] Cons.prems(2,3) by auto
  qed
qed

text \<open>A system with a file of this name that can be read whole.\<close>

definition serves :: "'e io_sys \<Rightarrow> bytes \<Rightarrow> bytes \<Rightarrow> bool" where
  "serves sys name content \<longleftrightarrow>
     (\<forall>p e. chars p = name \<longrightarrow> get_file_size sys p e = of_nat (length content)) \<and>
     (\<forall>n e. malloc_ok sys n e) \<and>
     (\<forall>p e. chars p = name \<longrightarrow> (\<exists>fd e1. sceIoOpen sys p SCE_O_RDONLY e = (fd, e1) \<and> 0 \<le> fd \<and>
        (\<forall>buf. length buf = length content \<longrightarrow> (\<exists>e2. sceIoRead sys fd buf e1 = (int (length content), content, e2)))))"

definition stack_ok :: "sfo_stack \<Rightarrow> bool" where
  "stack_ok stk \<longleftrightarrow> length (stk_key_name stk) = 64 \<and> length (stk_key_value stk) = 64"

lemma sfo_find_image:
  assumes ok: "sfo_ok es" and stk: "length kn = 64" "length kv = 64" and key: "strlen key < unat osz"
  shows "case sfo_lookup es (chars key) of
      None \<Rightarrow> sfo_find kn kv behind (of_nat (length (sfo_image es))) (sfo_image es) key out osz = Inl SFO_KEY_NOT_FOUND
    | Some v \<Rightarrow> \<exists>kv'. sfo_find kn kv behind (of_nat (length (sfo_image es))) (sfo_image es) key out osz =
        Inr (strncpy out 0 kv' (unat (osz - 1))) \<and> (length v \<le> 62 \<longrightarrow> chars kv' = v)"
proof -
  let ?n = "length (sfo_image es)"
  have len: "?n = 20 + 16 * length es + length (sfo_names es) + length (sfo_values es)" by (simp add: sfo_image_def)
  have ne: "0 < length es" "length es \<le> 200" using ok by (simp_all add: sfo_ok_def)
  have small: "?n < 2 ^ 31" using image_size [OF ok] by simp
  have h: "get_field (0, sizeof_GcSfoHeader) (sfo_image es) = sfo_header es"
    by (simp add: sfo_image_def get_field.simps sizeof_GcSfoHeader_def)
  have n64: "unat (of_nat ?n :: u64) = ?n" using small by (simp add: unat_of_nat)
  have c1: "\<not> (of_nat ?n :: u64) \<le> of_nat sizeof_GcSfoHeader"
    unfolding word_le_nat_alt n64 using len ne by (simp add: sizeof_GcSfoHeader_def)
  have un: "unat (of_nat (length es) :: u32) = length es" using ne by (simp add: unat_of_nat)
  have c2: "\<not> (of_nat (length es) :: u32) > 200" using ne by (simp add: word_less_nat_alt un)
  have "ucast (of_nat (length es) :: u32) = (of_nat (length es) :: u64)"
    by (rule word_unat_eq_iff [THEN iffD2]) (use ne in \<open>simp add: unsigned_ucast_eq take_bit_eq_mod unat_of_nat\<close>)
  then have "of_nat sizeof_GcSfoHeader + of_nat sizeof_GcSfoKey * ucast (of_nat (length es) :: u32) = (of_nat (20 + 16 * length es) :: u64)"
    by (simp add: sizeof_GcSfoHeader_def sizeof_GcSfoKey_def)
  then have c3: "\<not> (of_nat ?n :: u64) < of_nat sizeof_GcSfoHeader + of_nat sizeof_GcSfoKey * ucast (of_nat (length es) :: u32)"
    unfolding word_less_nat_alt n64 using len ne by (simp add: unat_of_nat del: of_nat_add of_nat_mult)
  have m: "impl_memcmp SFO_MAGIC SFO_MAGIC 4 = 0" by (simp add: memcmp_eq SFO_MAGIC_def)
  have run: "sfo_find kn kv behind (of_nat ?n) (sfo_image es) key out osz =
      sfo_turns (sfo_image es @ behind) (of_nat ?n) (sfo_header es) kn kv (of_nat (20 + 16 * length ([] :: sfo_entry list))) key out (length es) osz"
    unfolding sfo_find_def Let_def h header_fields using c1 c2 c3 m by (simp add: un sizeof_GcSfoHeader_def)
  show ?thesis unfolding run by (rule sfo_turns_finds [OF ok refl key _ stk]) simp
qed

text \<open>C31: A parameter file is read as it was written: for every list of entries the file format has
  room for, looking up a name in the file built from them returns success and the value of the first string
  entry of that name, and \<open>SFO_KEY_NOT_FOUND\<close> with the output untouched when there is none.  Values are
  promised up to the 62 bytes of the buffer on the stack that fit the output.\<close>

theorem parameter_found:
  assumes ok: "sfo_ok es" and srv: "serves sys (chars file) (sfo_image es)" and stk: "stack_ok stk"
    and key: "strlen key < unat osz" and out: "unat osz \<le> Suc (length out)"
  shows "\<exists>res out' e'. read_sfo_key stk sys file key out osz e = (res, out', e') \<and>
    (case sfo_lookup es (chars key) of
       None \<Rightarrow> res = SFO_KEY_NOT_FOUND \<and> out' = out
     | Some v \<Rightarrow> res = OK \<and> (length v \<le> 62 \<and> Suc (length v) < unat osz \<longrightarrow> chars out' = v))"
proof -
  let ?n = "length (sfo_image es)"
  have small: "?n < 2 ^ 31" using image_size [OF ok] by simp
  have pos: "0 < ?n" using ok by (simp add: sfo_image_def)
  have nz: "(of_nat ?n :: u64) \<noteq> 0" using small pos by (simp add: word_unat_eq_iff unat_of_nat)
  have cut: "unat (ucast (of_nat ?n :: u64) :: u32) = ?n" using small by (simp add: unsigned_ucast_eq take_bit_eq_mod unat_of_nat)
  obtain fd e1 where o: "sceIoOpen sys file SCE_O_RDONLY e = (fd, e1)" "0 \<le> fd"
    and rd: "\<forall>buf. length buf = ?n \<longrightarrow> (\<exists>e2. sceIoRead sys fd buf e1 = (int ?n, sfo_image es, e2))"
    using srv unfolding serves_def by blast
  obtain e2 where r: "sceIoRead sys fd (zeros ?n) e1 = (int ?n, sfo_image es, e2)" using rd length_zeros by blast
  obtain cl e3 where cl: "sceIoClose sys fd e2 = (cl, e3)" by (cases "sceIoClose sys fd e2")
  have sz: "get_file_size sys file e = of_nat ?n" "malloc_ok sys m e" for m using srv by (auto simp: serves_def)
  let ?f = "sfo_find (stk_key_name stk) (stk_key_value stk) (heap_behind stk) (of_nat ?n) (sfo_image es) key out osz"
  have run: "read_sfo_key stk sys file key out osz e =
      (case ?f of Inl res \<Rightarrow> (res, out, sfo_exit sys (if cl \<ge> 0 then 0 else fd) e3)
       | Inr value \<Rightarrow> (OK, value, sfo_exit sys (if cl \<ge> 0 then 0 else fd) e3))"
    using o r cl nz by (simp add: read_sfo_key_def sz Let_def cut)
  have "length (stk_key_name stk) = 64" "length (stk_key_value stk) = 64" using stk by (simp_all add: stack_ok_def)
  note f = sfo_find_image [OF ok this key, of "heap_behind stk" out]
  have osz: "unat (osz - 1) = unat osz - 1" using key by (simp add: unat_sub_if_size word_le_nat_alt)
  show ?thesis
  proof (cases "sfo_lookup es (chars key)")
    case None
    with f run show ?thesis by simp
  next
    case (Some v)
    with f obtain kv' where "?f = Inr (strncpy out 0 kv' (unat (osz - 1)))" and kv': "length v \<le> 62 \<longrightarrow> chars kv' = v" by auto
    moreover have "chars (strncpy out 0 kv' (unat (osz - 1))) = v" if "length v \<le> 62" "Suc (length v) < unat osz"
    proof -
      have "chars kv' = v" using kv' that by simp
      moreover from this have "strlen kv' = length v" by (metis length_chars)
      ultimately show ?thesis using that osz out by (simp add: chars_strncpy_room)
    qed
    ultimately show ?thesis using run Some by simp
  qed
qed

section \<open>Names of cards\<close>

text \<open>The folder of applications on a card and its first entry.\<close>

definition first_app :: "'e io_sys \<Rightarrow> bytes \<Rightarrow> bool" where
  "first_app sys name \<longleftrightarrow>
     (\<forall>e. \<exists>dfd e1 r ent e2. sceIoDopen sys (cstr ''gro0:/app'') e = (dfd, e1) \<and> 0 \<le> dfd \<and>
        sceIoDread sys dfd e1 = (r, ent, e2) \<and> 0 \<le> r \<and> chars (d_name ent) = name)"

definition param_sfo :: "bytes \<Rightarrow> bytes" where
  "param_sfo title_id = map of_char ''gro0:/app/'' @ title_id @ map of_char ''/sce_sys/param.sfo''"

lemma param_sfo_path_chars:
  assumes "length stk = MAX_PATH" "strlen title_id \<le> 64"
  shows "chars (param_sfo_path stk title_id) = param_sfo (chars title_id)"
proof -
  let ?t = "param_sfo (chars title_id)"
  have l: "length ?t \<le> MAX_PATH - 1" using assms(2) by (simp add: param_sfo_def MAX_PATH_def)
  have "param_sfo_path stk title_id = ?t @ 0 # drop (Suc (length ?t)) stk"
    unfolding param_sfo_path_def snprintf_def param_sfo_def [symmetric] using l by (simp add: put_field.simps)
  moreover have "c \<noteq> 0" if "c \<in> set ?t" for c
    using that set_chars by (auto simp: param_sfo_def)
  ultimately show ?thesis using chars_append_0 by simp
qed

lemma first_app_read:
  assumes "first_app sys name" "length name < TITLE_ID_SIZE" "length title_id = 64"
  shows "\<exists>r title_id' e'. read_first_filename sys (cstr ''gro0:/app'') (Some title_id) TITLE_ID_SIZE e = (r, Some title_id', e') \<and>
    0 \<le> r \<and> chars title_id' = name \<and> length title_id' = 64"
proof -
  obtain dfd e1 r ent e2 where o: "sceIoDopen sys (cstr ''gro0:/app'') e = (dfd, e1)" "0 \<le> dfd"
    "sceIoDread sys dfd e1 = (r, ent, e2)" "0 \<le> r" and n: "chars (d_name ent) = name"
    using assms(1) unfolding first_app_def by blast
  obtain c e3 where c: "sceIoDclose sys dfd e2 = (c, e3)" by (cases "sceIoDclose sys dfd e2")
  have "strlen (d_name ent) < TITLE_ID_SIZE" using n assms(2) by (metis length_chars)
  then have "chars (strncpy title_id 0 (d_name ent) TITLE_ID_SIZE) = name"
    using n assms(3) by (simp add: chars_strncpy_room TITLE_ID_SIZE_def)
  with o c assms(3) show ?thesis by (simp add: read_first_filename_def)
qed

lemma chars_cstr: "\<forall>c \<in> set s. of_char c \<noteq> (0 :: u8) \<Longrightarrow> chars (cstr s) = map of_char s"
  unfolding cstr_def by (subst chars_append_0) auto

lemma sfo_strings [simp]:
  "strlen (cstr ''STITLE'') = 6" "strlen (cstr ''TITLE'') = 5" "strlen (cstr ''TITLE_ID'') = 8"
  "strlen DEFAULT_TITLEID = 9" "strlen DEFAULT_TITLE = 7"
  by (simp_all add: strlen_def cstr_def DEFAULT_TITLEID_def DEFAULT_TITLE_def)

text \<open>The title of a game: its short title, or its title.\<close>

definition title_of :: "sfo_entry list \<Rightarrow> bytes option" where
  "title_of es = (case sfo_lookup es (chars (cstr ''STITLE'')) of
     None \<Rightarrow> sfo_lookup es (chars (cstr ''TITLE'')) | Some v \<Rightarrow> Some v)"

lemma length_read_sfo_key:
  "read_sfo_key stk sys file key out osz e = (res, out', e') \<Longrightarrow> length out' = length out"
proof -
  have "length v = length out" if "sfo_turns mem n h kn kv ptr key out k osz = Inr v" for mem n h kn kv ptr k v
    using that by (induction k arbitrary: kn kv ptr) (auto simp: Let_def split: if_splits)
  then have "length v = length out" if "sfo_find kn kv behind n buf key out osz = Inr v" for kn kv behind n buf v
    using that by (auto simp: sfo_find_def Let_def split: if_splits)
  then show "read_sfo_key stk sys file key out osz e = (res, out', e') \<Longrightarrow> length out' = length out"
    by (auto simp: read_sfo_key_def Let_def split: if_splits prod.splits sum.splits)
qed

text \<open>The name of a card.  When the folder of applications has a first entry with a parameter file, the
  title is the short title or else the title in it, and the identifier that in the file or else the
  name of the folder; without any title the code of the lookup is returned and the names are
  \<open>NPXS99999\<close> and \<open>UNKNOWN\<close>.  When that file is missing, though, zero is returned, which is success,
  and the title is left as it was: an uninitialised buffer in all callers.\<close>

theorem card_name:
  assumes stk: "stack_ok stk" "length path_stk = MAX_PATH" "length title_id = 64" "length title = 64"
    and app: "first_app sys name" "length name < TITLE_ID_SIZE"
  shows "(sfo_ok es \<and> serves sys (param_sfo name) (sfo_image es) \<longrightarrow>
      (\<exists>res id' title' e'. read_gameinfo stk path_stk sys title_id title 64 e = (res, id', title', e') \<and>
        (case title_of es of
           None \<Rightarrow> res = SFO_KEY_NOT_FOUND \<and> chars id' = chars DEFAULT_TITLEID \<and> chars title' = chars DEFAULT_TITLE
         | Some v \<Rightarrow> res = OK \<and> (length v < 62 \<longrightarrow> chars title' = v) \<and>
             (case sfo_lookup es (chars (cstr ''TITLE_ID'')) of
                None \<Rightarrow> chars id' = name
              | Some i \<Rightarrow> length i < 62 \<longrightarrow> chars id' = i)))) \<and>
    ((\<forall>p e. get_file_size sys p e = 0) \<longrightarrow>
      (\<exists>id' e'. read_gameinfo stk path_stk sys title_id title 64 e = (0, id', title, e') \<and> chars id' = name))"
proof -
  obtain b e0 where w: "wait_for_partition sys (cstr ''gro0:'') e = (b, e0)" by (cases "wait_for_partition sys (cstr ''gro0:'') e")
  obtain r tid e1 where f: "read_first_filename sys (cstr ''gro0:/app'') (Some title_id) TITLE_ID_SIZE e0 = (r, Some tid, e1)"
    and r: "0 \<le> r" and tid: "chars tid = name" "length tid = 64"
    using first_app_read [OF app stk(3)] by blast
  let ?p = "param_sfo_path path_stk tid"
  have "strlen tid \<le> 64" using tid(2) strlen_le [of tid] by simp
  then have p: "chars ?p = param_sfo name" using param_sfo_path_chars [OF stk(2)] tid(1) by simp
  have nf: "SFO_KEY_NOT_FOUND < 0" "OK = 0" by (simp_all add: error_values)
  show ?thesis
  proof (intro conjI impI)
    assume "sfo_ok es \<and> serves sys (param_sfo name) (sfo_image es)"
    then have ok: "sfo_ok es" and srv: "serves sys (chars ?p) (sfo_image es)" using p by simp_all
    have u: "unat (64 - 1 :: u32) = 63" by simp
    note found = parameter_found [OF ok srv stk(1), where osz = "64 - 1", unfolded u]
    obtain r1 t1 e2 where s1: "read_sfo_key stk sys ?p (cstr ''STITLE'') title (64 - 1) e1 = (r1, t1, e2)"
      by (cases "read_sfo_key stk sys ?p (cstr ''STITLE'') title (64 - 1) e1")
    have l1: "length t1 = 64" using length_read_sfo_key [OF s1] stk(4) by simp
    obtain r2 t2 e3 where s2: "(if r1 = SFO_KEY_NOT_FOUND then read_sfo_key stk sys ?p (cstr ''TITLE'') t1 (64 - 1) e2
        else (r1, t1, e2)) = (r2, t2, e3)"
      by (cases "if r1 = SFO_KEY_NOT_FOUND then read_sfo_key stk sys ?p (cstr ''TITLE'') t1 (64 - 1) e2 else (r1, t1, e2)")
    obtain r3 i3 e4 where s3: "read_sfo_key stk sys ?p (cstr ''TITLE_ID'') tid (64 - 1) e3 = (r3, i3, e4)"
      by (cases "read_sfo_key stk sys ?p (cstr ''TITLE_ID'') tid (64 - 1) e3")
    have l2: "length t2 = 64" using s2 l1 length_read_sfo_key by (fastforce split: if_splits)
    have l3: "length i3 = 64" using length_read_sfo_key [OF s3] tid(2) by simp
    have run: "read_gameinfo stk path_stk sys title_id title 64 e =
        (if r2 < 0 then (r2, strncpy i3 0 DEFAULT_TITLEID 63, strncpy t2 0 DEFAULT_TITLE 63, e4) else (r2, i3, t2, e4))"
      using r by (simp only: read_gameinfo_def Let_def w f s1 s2 s3 option.sel prod.case if_True u split: if_split)
    have t1: "case sfo_lookup es (chars (cstr ''STITLE'')) of None \<Rightarrow> r1 = SFO_KEY_NOT_FOUND \<and> t1 = title
        | Some v \<Rightarrow> r1 = OK \<and> (length v \<le> 62 \<and> Suc (length v) < 63 \<longrightarrow> chars t1 = v)"
      using found [of "cstr ''STITLE''" title e1] s1 stk(4) by auto
    have t2: "case title_of es of None \<Rightarrow> r2 = SFO_KEY_NOT_FOUND
        | Some v \<Rightarrow> r2 = OK \<and> (length v < 62 \<longrightarrow> chars t2 = v)"
      using t1 s2 found [of "cstr ''TITLE''" t1 e2] l1 nf
      by (auto simp: title_of_def split: option.splits if_splits)
    have t3: "case sfo_lookup es (chars (cstr ''TITLE_ID'')) of None \<Rightarrow> i3 = tid
        | Some v \<Rightarrow> length v < 62 \<longrightarrow> chars i3 = v"
      using found [of "cstr ''TITLE_ID''" tid e3] s3 tid(2) by (auto split: option.splits)
    show "\<exists>res id' title' e'. read_gameinfo stk path_stk sys title_id title 64 e = (res, id', title', e') \<and>
        (case title_of es of
           None \<Rightarrow> res = SFO_KEY_NOT_FOUND \<and> chars id' = chars DEFAULT_TITLEID \<and> chars title' = chars DEFAULT_TITLE
         | Some v \<Rightarrow> res = OK \<and> (length v < 62 \<longrightarrow> chars title' = v) \<and>
             (case sfo_lookup es (chars (cstr ''TITLE_ID'')) of
                None \<Rightarrow> chars id' = name
              | Some i \<Rightarrow> length i < 62 \<longrightarrow> chars id' = i))"
      unfolding run using t2 t3 tid(1) nf l2 l3 by (auto simp: chars_strncpy_room split: option.splits)
  next
    assume none: "\<forall>p e. get_file_size sys p e = 0"
    have z: "read_sfo_key stk sys q k out osz e = (0, out, e)" for q k out osz e
      using none by (simp add: read_sfo_key_def)
    have "read_gameinfo stk path_stk sys title_id title 64 e = (0, tid, title, e1)"
      using r nf by (simp add: read_gameinfo_def w f z)
    with tid(1) show "\<exists>id' e'. read_gameinfo stk path_stk sys title_id title 64 e = (0, id', title, e') \<and> chars id' = name"
      by blast
  qed
qed

text \<open>A card with one application, whose parameter file has three entries, and one without the file.\<close>

definition minecraft :: "sfo_entry list" where
  "minecraft = [(4, map of_char ''TITLE'', [1]), (2, map of_char ''TITLE'', map of_char ''Minecraft''),
     (2, map of_char ''TITLE_ID'', map of_char ''PCSG10023'')]"

definition game_card :: "bytes \<Rightarrow> unit io_sys" where
  "game_card content =
     \<lparr>sceIoGetstat = (\<lambda>p s. (0, of_nat (length content))),
      sceIoDopen = (\<lambda>p s. (3, s)), sceIoDread = (\<lambda>fd s. (1, \<lparr>d_name = cstr ''PCSG1'', d_size = 0, d_isdir = True\<rparr>, s)),
      sceIoDclose = (\<lambda>fd s. (0, s)), sceIoOpen = (\<lambda>p f s. (4, s)),
      sceIoRead = (\<lambda>fd b s. (int (length content), content, s)),
      sceIoWrite = (\<lambda>fd b s. (-1, s)), sceIoClose = (\<lambda>fd s. (0, s)), sceIoMkdir = (\<lambda>p s. s),
      sceIoDevctl_free = (\<lambda>p s. (0, 0)), vshIoMount = (\<lambda>i p s. (0, s)), vshIoUmount = (\<lambda>i p s. s),
      sceKernelDelayThread = (\<lambda>n s. s), malloc_ok = (\<lambda>n s. True)\<rparr>"

definition sfo_zeros :: sfo_stack where
  "sfo_zeros = \<lparr>stk_key_name = zeros 64, stk_key_value = zeros 64, heap_behind = []\<rparr>"

lemma sfo_keys: "chars (cstr ''TITLE'') = map of_char ''TITLE''" "chars (cstr ''STITLE'') = map of_char ''STITLE''"
    "chars (cstr ''TITLE_ID'') = map of_char ''TITLE_ID''"
  by (rule chars_cstr, simp)+

lemma minecraft_ok: "sfo_ok minecraft"
  by (simp add: sfo_ok_def minecraft_def)

lemma game_card_serves: "serves (game_card content) name content"
  by (simp add: serves_def game_card_def get_file_size_def)

lemma minecraft_keys:
  "sfo_lookup minecraft (chars (cstr ''TITLE'')) = Some (map of_char ''Minecraft'')"
  "sfo_lookup minecraft (chars (cstr ''STITLE'')) = None"
  "sfo_lookup minecraft (chars (cstr ''TITLE_ID'')) = Some (map of_char ''PCSG10023'')"
  unfolding sfo_keys by (simp_all add: sfo_lookup_def minecraft_def PSF_TYPE_STR_def)

theorem parameter_found_witness:
  "\<exists>out' e'. read_sfo_key sfo_zeros (game_card (sfo_image minecraft)) (cstr ''p'') (cstr ''TITLE'') (zeros 64) 63 () = (OK, out', e') \<and>
    chars out' = map of_char ''Minecraft''"
  using parameter_found [OF minecraft_ok game_card_serves, of sfo_zeros "cstr ''TITLE''" 63 "zeros 64" "cstr ''p''" "()"]
  by (auto simp: stack_ok_def sfo_zeros_def minecraft_keys)

theorem card_name_witness:
  "(\<exists>id' title' e'. read_gameinfo sfo_zeros (zeros MAX_PATH) (game_card (sfo_image minecraft)) (zeros 64) (zeros 64) 64 () =
      (OK, id', title', e') \<and> chars title' = map of_char ''Minecraft'' \<and> chars id' = map of_char ''PCSG10023'') \<and>
   (\<exists>id' e'. read_gameinfo sfo_zeros (zeros MAX_PATH) (game_card []) (zeros 64) (replicate 64 0x41) 64 () =
      (0, id', replicate 64 0x41, e') \<and> chars id' = map of_char ''PCSG1'')"
proof -
  have app: "first_app (game_card c) (map of_char ''PCSG1'')" for c
    by (simp add: first_app_def game_card_def chars_cstr)
  have stk: "stack_ok sfo_zeros" by (simp add: stack_ok_def sfo_zeros_def)
  have sh: "length (map of_char ''PCSG1'' :: bytes) < TITLE_ID_SIZE" by (simp add: TITLE_ID_SIZE_def)
  note card = card_name [OF stk length_zeros length_zeros _ app sh]
  have one: "title_of minecraft = Some (map of_char ''Minecraft'')" by (simp add: title_of_def minecraft_keys)
  show ?thesis
    using card [of "zeros 64" minecraft "sfo_image minecraft" "()"] card [of "replicate 64 0x41" minecraft "[]" "()"]
      minecraft_ok game_card_serves
    by (simp add: one minecraft_keys) (simp add: game_card_def get_file_size_def)
qed

end
