(* ===== verification/Utf.thy ===== *)
theory Utf
  imports Prelude
begin

text \<open>
  The text conversions of \<^verbatim>\<open>app/ime.c\<close>, which take the title and the initial text of the
  on-screen keyboard to UTF-16 and what was typed back to UTF-8.  Texts are arrays with a
  zero terminator, here as lists that contain it; the result includes its terminator.
\<close>

section \<open>Conversions\<close>

text \<open>The branches write one to four bytes; C computes in \<^verbatim>\<open>int\<close>, which holds every value here.\<close>

definition utf8_of_unit2 :: "u16 \<Rightarrow> bytes" where
  "utf8_of_unit2 c = [ucast (drop_bit 6 c AND 0xFF OR 0xC0), ucast (c AND 0x3F OR 0x80)]"

definition utf8_of_unit3 :: "u16 \<Rightarrow> bytes" where
  "utf8_of_unit3 c =
     [ucast (drop_bit 12 c AND 0xF OR 0xE0), ucast (drop_bit 6 c AND 0x3F OR 0x80), ucast (c AND 0x3F OR 0x80)]"

definition utf8_of_pair :: "u16 \<Rightarrow> u16 \<Rightarrow> bytes" where
  "utf8_of_pair c d =
     (let c = (ucast c :: u32); d = (ucast d :: u32)
      in [ucast (drop_bit 8 (c + 64) AND 0x3 OR 0xF0), ucast ((drop_bit 2 c + 16) AND 0x3F OR 0x80),
          ucast (drop_bit 4 c AND 0x30 OR 0x80 OR (push_bit 2 d AND 0xF)), ucast (d AND 0x3F OR 0x80)])"

fun utf16_to_utf8 :: "u16 list \<Rightarrow> bytes" where
  "utf16_to_utf8 [] = [0]"
| "utf16_to_utf8 (c # src) =
     (if c = 0 then [0]
      else if c AND 0xFF80 = 0 then ucast (c AND 0xFF) # utf16_to_utf8 src
      else if c AND 0xF800 = 0 then utf8_of_unit2 c @ utf16_to_utf8 src
      else
        (case src of
           d # src' \<Rightarrow>
             (if c AND 0xFC00 = 0xD800 \<and> d AND 0xFC00 = 0xDC00 then utf8_of_pair c d @ utf16_to_utf8 src'
              else utf8_of_unit3 c @ utf16_to_utf8 src)
         | [] \<Rightarrow> utf8_of_unit3 c @ utf16_to_utf8 src))"

definition unit_of_utf8_2 :: "u8 \<Rightarrow> u8 \<Rightarrow> u16" where
  "unit_of_utf8_2 a b = push_bit 6 (ucast a AND 0x1F) OR (ucast b AND 0x3F)"

definition unit_of_utf8_3 :: "u8 \<Rightarrow> u8 \<Rightarrow> u8 \<Rightarrow> u16" where
  "unit_of_utf8_3 a b c = push_bit 12 (ucast a AND 0x0F) OR push_bit 6 (ucast b AND 0x3F) OR (ucast c AND 0x3F)"

text \<open>A byte of a truncated sequence behind the end of the array reads as zero here.\<close>

definition byte_at :: "bytes \<Rightarrow> nat \<Rightarrow> u8" where
  "byte_at s i = (if i < length s then s ! i else 0)"

function utf8_to_utf16 :: "bytes \<Rightarrow> u16 list" where
  "utf8_to_utf16 [] = [0]"
| "utf8_to_utf16 (a # src) =
     (if a = 0 then [0]
      else if a AND 0xE0 = 0xE0
      then unit_of_utf8_3 a (byte_at src 0) (byte_at src 1) # utf8_to_utf16 (drop 2 src)
      else if a AND 0xC0 = 0xC0
      then unit_of_utf8_2 a (byte_at src 0) # utf8_to_utf16 (drop 1 src)
      else ucast a # utf8_to_utf16 src)"
  by pat_completeness auto
termination by (relation "measure length") auto

section \<open>Lemmas\<close>

lemma mask_bits: "(c :: u16) AND m = 0 \<Longrightarrow> bit m n \<Longrightarrow> \<not> bit c n"
  by (metis bit_and_iff bit_0_eq bot_apply bot_bool_def)

lemma u16_eqI:
  assumes "list_all (\<lambda>n. bit a n = bit b n) [0, 1, 2, 3, 4, 5, 6, 7, 8, 9, 10, 11, 12, 13, 14, 15]"
  shows "a = (b :: u16)"
proof (rule bit_word_eqI)
  fix n assume "n < LENGTH(16)"
  then have "n \<in> set [0, 1, 2, 3, 4, 5, 6, 7, 8, 9, 10, 11, 12, 13, 14, 15]"
    by (simp add: eval_nat_numeral less_Suc_eq disj_ac)
  with assms show "bit a n = bit b n" by (simp only: list_all_iff)
qed

lemma mask_FF80: "c AND 0xFF80 = 0 \<Longrightarrow> list_all (\<lambda>n. \<not> bit c n) [7, 8, 9, 10, 11, 12, 13, 14, 15]"
  for c :: u16
  using mask_bits [of c "0xFF80"] by simp

lemma mask_F800: "c AND 0xF800 = 0 \<Longrightarrow> list_all (\<lambda>n. \<not> bit c n) [11, 12, 13, 14, 15]"
  for c :: u16
  using mask_bits [of c "0xF800"] by simp

lemma unit1_bits: "c AND 0xFF80 = 0 \<Longrightarrow> ucast (ucast (c AND 0xFF) :: u8) = (c :: u16)"
  by (drule mask_FF80, rule u16_eqI) (simp add: bit_ucast_iff bit_and_iff)

lemma unit2_bits:
  "c AND 0xF800 = 0 \<Longrightarrow> unit_of_utf8_2 (utf8_of_unit2 c ! 0) (utf8_of_unit2 c ! 1) = c"
  by (drule mask_F800, rule u16_eqI)
     (simp add: unit_of_utf8_2_def utf8_of_unit2_def bit_ucast_iff bit_and_iff bit_or_iff
       bit_push_bit_iff bit_drop_bit_eq)

lemma unit3_bits:
  "unit_of_utf8_3 (utf8_of_unit3 c ! 0) (utf8_of_unit3 c ! 1) (utf8_of_unit3 c ! 2) = c"
  by (rule u16_eqI)
     (simp add: unit_of_utf8_3_def utf8_of_unit3_def bit_ucast_iff bit_and_iff bit_or_iff
       bit_push_bit_iff bit_drop_bit_eq)

lemma unit1_ascii: "c AND 0xFF80 = 0 \<Longrightarrow> \<not> bit (ucast (c AND 0xFF) :: u8) 7" for c :: u16
  by (drule mask_FF80) (simp add: bit_ucast_iff bit_and_iff)

lemma unit1_nonzero: "c AND 0xFF80 = 0 \<Longrightarrow> c \<noteq> 0 \<Longrightarrow> (ucast (c AND 0xFF) :: u8) \<noteq> 0" for c :: u16
  using unit1_bits [of c] by auto

text \<open>How the decoder classifies a lead byte.\<close>

lemma lead_ascii:
  assumes "\<not> bit (a :: u8) 7" shows "a AND 0xE0 \<noteq> 0xE0" "a AND 0xC0 \<noteq> 0xC0"
proof -
  have "bit (a AND 0xE0) 7 \<noteq> bit (0xE0 :: u8) 7" "bit (a AND 0xC0) 7 \<noteq> bit (0xC0 :: u8) 7"
    using assms by (simp_all add: bit_and_iff)
  then show "a AND 0xE0 \<noteq> 0xE0" "a AND 0xC0 \<noteq> 0xC0" by auto
qed

lemma u8_eqI:
  assumes "list_all (\<lambda>n. bit a n = bit b n) [0, 1, 2, 3, 4, 5, 6, 7]"
  shows "a = (b :: u8)"
proof (rule bit_word_eqI)
  fix n assume "n < LENGTH(8)"
  then have "n \<in> set [0, 1, 2, 3, 4, 5, 6, 7]" by (simp add: eval_nat_numeral less_Suc_eq disj_ac)
  with assms show "bit a n = bit b n" by (simp only: list_all_iff)
qed

lemma lead2:
  assumes "c AND 0xF800 = 0"
  shows "utf8_of_unit2 c ! 0 \<noteq> 0" "utf8_of_unit2 c ! 0 AND 0xE0 \<noteq> 0xE0" "utf8_of_unit2 c ! 0 AND 0xC0 = 0xC0"
proof -
  note c = mask_F800 [OF assms]
  have "bit (utf8_of_unit2 c ! 0) 7" "bit (utf8_of_unit2 c ! 0 AND 0xE0) 5 \<noteq> bit (0xE0 :: u8) 5"
    using c by (simp_all add: utf8_of_unit2_def bit_and_iff bit_or_iff bit_ucast_iff bit_drop_bit_eq)
  then show "utf8_of_unit2 c ! 0 \<noteq> 0" "utf8_of_unit2 c ! 0 AND 0xE0 \<noteq> 0xE0" by auto
  show "utf8_of_unit2 c ! 0 AND 0xC0 = 0xC0"
    by (rule u8_eqI) (simp add: utf8_of_unit2_def bit_and_iff bit_or_iff bit_ucast_iff bit_drop_bit_eq)
qed

lemma lead3: "utf8_of_unit3 c ! 0 \<noteq> 0" "utf8_of_unit3 c ! 0 AND 0xE0 = 0xE0"
proof -
  have "bit (utf8_of_unit3 c ! 0) 7"
    by (simp add: utf8_of_unit3_def bit_and_iff bit_or_iff bit_ucast_iff bit_drop_bit_eq)
  then show "utf8_of_unit3 c ! 0 \<noteq> 0" by auto
  show "utf8_of_unit3 c ! 0 AND 0xE0 = 0xE0"
    by (rule u8_eqI) (simp add: utf8_of_unit3_def bit_and_iff bit_or_iff bit_ucast_iff bit_drop_bit_eq)
qed

lemma lead4:
  "utf8_of_pair c d ! 0 \<noteq> 0" "utf8_of_pair c d ! 0 AND 0xE0 = 0xE0"
  "utf8_of_pair c d ! 3 \<noteq> 0" "utf8_of_pair c d ! 3 AND 0xE0 \<noteq> 0xE0" "utf8_of_pair c d ! 3 AND 0xC0 \<noteq> 0xC0"
proof -
  have "bit (utf8_of_pair c d ! 0) 7" "bit (utf8_of_pair c d ! 3) 7"
    "bit (utf8_of_pair c d ! 3 AND 0xE0) 6 \<noteq> bit (0xE0 :: u8) 6"
    "bit (utf8_of_pair c d ! 3 AND 0xC0) 6 \<noteq> bit (0xC0 :: u8) 6"
    by (simp_all add: utf8_of_pair_def Let_def bit_and_iff bit_or_iff bit_ucast_iff bit_drop_bit_eq)
  then show "utf8_of_pair c d ! 0 \<noteq> 0" "utf8_of_pair c d ! 3 \<noteq> 0"
    "utf8_of_pair c d ! 3 AND 0xE0 \<noteq> 0xE0" "utf8_of_pair c d ! 3 AND 0xC0 \<noteq> 0xC0" by auto
  show "utf8_of_pair c d ! 0 AND 0xE0 = 0xE0"
    by (rule u8_eqI) (simp add: utf8_of_pair_def Let_def bit_and_iff bit_or_iff bit_ucast_iff bit_drop_bit_eq)
qed

text \<open>Decoding what one branch of the encoder wrote.\<close>

lemma unfold2: "utf8_of_unit2 c = [utf8_of_unit2 c ! 0, utf8_of_unit2 c ! 1]"
  by (simp add: utf8_of_unit2_def)

lemma unfold3: "utf8_of_unit3 c = [utf8_of_unit3 c ! 0, utf8_of_unit3 c ! 1, utf8_of_unit3 c ! 2]"
  by (simp add: utf8_of_unit3_def numeral_2_eq_2)

lemma unfold4:
  "utf8_of_pair c d = [utf8_of_pair c d ! 0, utf8_of_pair c d ! 1, utf8_of_pair c d ! 2, utf8_of_pair c d ! 3]"
  by (simp add: utf8_of_pair_def Let_def numeral_2_eq_2 numeral_3_eq_3)

lemma decode1:
  "c AND 0xFF80 = 0 \<Longrightarrow> c \<noteq> 0 \<Longrightarrow> utf8_to_utf16 (ucast (c AND 0xFF) # s) = c # utf8_to_utf16 s" for c :: u16
  using unit1_nonzero [of c] lead_ascii [OF unit1_ascii [of c]] unit1_bits [of c] by simp

lemma decode2: "c AND 0xF800 = 0 \<Longrightarrow> utf8_to_utf16 (utf8_of_unit2 c @ s) = c # utf8_to_utf16 s"
  by (subst unfold2) (simp add: lead2 byte_at_def unit2_bits [simplified])

lemma decode3: "utf8_to_utf16 (utf8_of_unit3 c @ s) = c # utf8_to_utf16 s"
  by (subst unfold3) (simp add: lead3 byte_at_def unit3_bits [simplified])

definition misread_pair :: "u16 \<Rightarrow> u16 \<Rightarrow> u16 list" where
  "misread_pair c d =
     [unit_of_utf8_3 (utf8_of_pair c d ! 0) (utf8_of_pair c d ! 1) (utf8_of_pair c d ! 2),
      ucast (utf8_of_pair c d ! 3)]"

lemma decode4: "utf8_to_utf16 (utf8_of_pair c d @ s) = misread_pair c d @ utf8_to_utf16 s"
  by (subst unfold4) (simp add: lead4 byte_at_def misread_pair_def)

text \<open>
  What a text becomes when it is written as UTF-8 and read back: a surrogate pair comes back
  as two units of other values, everything else is kept.
\<close>

fun reread :: "u16 list \<Rightarrow> u16 list" where
  "reread (c # d # us) =
     (if c AND 0xFC00 = 0xD800 \<and> d AND 0xFC00 = 0xDC00 then misread_pair c d @ reread us
      else c # reread (d # us))"
| "reread us = us"

fun has_pair :: "u16 list \<Rightarrow> bool" where
  "has_pair (c # d # us) \<longleftrightarrow> (c AND 0xFC00 = 0xD800 \<and> d AND 0xFC00 = 0xDC00) \<or> has_pair (d # us)"
| "has_pair us \<longleftrightarrow> False"

lemma reread_no_pair: "\<not> has_pair us \<Longrightarrow> reread us = us"
  by (induction us rule: reread.induct) auto

lemma high_surrogate_not_short:
  assumes "c AND 0xFC00 = (0xD800 :: u16)" shows "c AND 0xFF80 \<noteq> 0" "c AND 0xF800 \<noteq> 0"
proof -
  have "bit (c AND 0xFC00) 15" using assms by simp
  then have "bit (c AND 0xFF80) 15" "bit (c AND 0xF800) 15" by (simp_all add: bit_and_iff)
  then show "c AND 0xFF80 \<noteq> 0" "c AND 0xF800 \<noteq> 0" by auto
qed

lemma encode_pair:
  assumes "c AND 0xFC00 = 0xD800" "d AND 0xFC00 = 0xDC00"
  shows "utf16_to_utf8 (c # d # us) = utf8_of_pair c d @ utf16_to_utf8 us"
proof -
  from assms have "c \<noteq> 0" by auto
  with assms high_surrogate_not_short [OF assms(1)] show ?thesis by simp
qed

lemma encode_single:
  assumes "c \<noteq> 0" "\<not> (c AND 0xFC00 = 0xD800 \<and> d AND 0xFC00 = 0xDC00)"
  shows "utf8_to_utf16 (utf16_to_utf8 (c # d # us)) = c # utf8_to_utf16 (utf16_to_utf8 (d # us))"
proof -
  consider "c AND 0xFF80 = 0" | "c AND 0xFF80 \<noteq> 0" "c AND 0xF800 = 0" | "c AND 0xFF80 \<noteq> 0" "c AND 0xF800 \<noteq> 0"
    by blast
  then show ?thesis
  proof cases
    case 1
    then have "utf16_to_utf8 (c # d # us) = ucast (c AND 0xFF) # utf16_to_utf8 (d # us)"
      using assms by (subst utf16_to_utf8.simps) simp
    with decode1 [OF 1 assms(1)] show ?thesis by (simp only:)
  next
    case 2
    then have "utf16_to_utf8 (c # d # us) = utf8_of_unit2 c @ utf16_to_utf8 (d # us)"
      using assms by (subst utf16_to_utf8.simps) simp
    with 2 show ?thesis by (simp only: decode2)
  next
    case 3
    then have "utf16_to_utf8 (c # d # us) = utf8_of_unit3 c @ utf16_to_utf8 (d # us)"
      using assms by (subst utf16_to_utf8.simps) (simp only: if_False list.case)
    then show ?thesis by (simp only: decode3)
  qed
qed

lemma decode_encode:
  "0 \<notin> set us \<Longrightarrow> utf8_to_utf16 (utf16_to_utf8 (us @ [0])) = reread us @ [0]"
proof (induction us rule: reread.induct)
  case (1 c d us)
  show ?case
  proof (cases "c AND 0xFC00 = 0xD800 \<and> d AND 0xFC00 = 0xDC00")
    case True
    with 1 show ?thesis by (simp add: encode_pair decode4 del: utf16_to_utf8.simps utf8_to_utf16.simps)
  next
    case False
    with 1 have "reread (c # d # us) = c # reread (d # us)" by (simp only: reread.simps if_False)
    with 1 False encode_single [of c d "us @ [0]"] show ?thesis
      by (simp del: utf16_to_utf8.simps utf8_to_utf16.simps reread.simps)
  qed
next
  fix c :: u16
  assume "0 \<notin> set [c]"
  then show "utf8_to_utf16 (utf16_to_utf8 ([c] @ [0])) = reread [c] @ [0]"
    using encode_single [of c 0 "[]"] by simp
qed simp

lemma length_reread: "length (reread us) = length us"
  by (induction us rule: reread.induct) (auto simp: misread_pair_def)

text \<open>The last byte of a pair is read as a unit of one byte, so never as the surrogate it was.\<close>

lemma misread_pair_differs: "d AND 0xFC00 = 0xDC00 \<Longrightarrow> misread_pair c d \<noteq> [c, d]"
proof
  assume d: "d AND 0xFC00 = 0xDC00" and "misread_pair c d = [c, d]"
  then have "d = ucast (utf8_of_pair c d ! 3)" by (simp add: misread_pair_def)
  then have "bit d 15 = bit (ucast (utf8_of_pair c d ! 3) :: u16) 15" by simp
  moreover have "bit (d AND 0xFC00) 15" using d by simp
  ultimately show False
    using bit_imp_le_length [of "utf8_of_pair c d ! 3" 15] by (simp add: bit_ucast_iff bit_and_iff)
qed

lemma reread_pair: "has_pair us \<Longrightarrow> reread us \<noteq> us"
proof (induction us rule: reread.induct)
  case (1 c d us)
  show ?case
  proof (cases "c AND 0xFC00 = 0xD800 \<and> d AND 0xFC00 = 0xDC00")
    case True
    then have "reread (c # d # us) = misread_pair c d @ reread us" by simp
    moreover have "length (misread_pair c d) = length [c, d]" by (simp add: misread_pair_def)
    ultimately show ?thesis
      using misread_pair_differs [of d c] True append_eq_append_conv [of "misread_pair c d" "[c, d]" "reread us" us]
      by (simp only: append_Cons append_Nil) blast
  next
    case False
    then have "reread (c # d # us) = c # reread (d # us)" by (simp only: reread.simps if_False)
    moreover have "has_pair (d # us)" using 1(3) False by (simp only: has_pair.simps) blast
    ultimately show ?thesis using 1(2) [OF False] by simp
  qed
qed simp_all

lemma utf16_to_utf8_Cons:
  "utf16_to_utf8 (c # d # s) =
     (if c = 0 then [0]
      else if c AND 0xFF80 = 0 then ucast (c AND 0xFF) # utf16_to_utf8 (d # s)
      else if c AND 0xF800 = 0 then utf8_of_unit2 c @ utf16_to_utf8 (d # s)
      else if c AND 0xFC00 = 0xD800 \<and> d AND 0xFC00 = 0xDC00 then utf8_of_pair c d @ utf16_to_utf8 s
      else utf8_of_unit3 c @ utf16_to_utf8 (d # s))"
  by (simp only: utf16_to_utf8.simps(2) [of c "d # s"] list.case)

lemma utf8_lengths:
  "length (utf8_of_unit2 c) = 2" "length (utf8_of_unit3 c) = 3" "length (utf8_of_pair c d) = 4"
  by (simp_all add: utf8_of_unit2_def utf8_of_unit3_def utf8_of_pair_def Let_def)

lemma utf16_to_utf8_step:
  "length (utf16_to_utf8 (c # d # s)) \<le> 3 + length (utf16_to_utf8 (d # s)) \<or>
   length (utf16_to_utf8 (c # d # s)) \<le> 4 + length (utf16_to_utf8 s)"
  by (simp only: utf16_to_utf8_Cons) (simp add: utf8_lengths del: utf16_to_utf8.simps)

lemma utf16_to_utf8_length: "length (utf16_to_utf8 us) \<le> 3 * length us + 1"
proof (induction us rule: length_induct)
  case (1 us)
  then have IH: "length (utf16_to_utf8 vs) \<le> 3 * length vs + 1" if "length vs < length us" for vs
    using that by blast
  show ?case
  proof (cases us)
    case us: (Cons c vs)
    show ?thesis
    proof (cases vs)
      case Nil
      with us show ?thesis by (simp add: utf8_lengths)
    next
      case (Cons d s)
      with us IH [of "d # s"] IH [of s] utf16_to_utf8_step [of c d s] show ?thesis
        by (simp del: utf16_to_utf8.simps) linarith
    qed
  qed simp
qed

lemma utf16_to_utf8_long_units:
  "length (utf16_to_utf8 (replicate n 0x800 @ [0])) = 3 * n + 1"
proof (induction n)
  case (Suc n)
  obtain d us where r: "replicate n 0x800 @ [0] = d # (us :: u16 list)" by (cases n) auto
  have "length (utf16_to_utf8 (0x800 # d # us)) = 3 + length (utf16_to_utf8 (d # us))"
    by (simp only: utf16_to_utf8_Cons) (simp add: utf8_lengths del: utf16_to_utf8.simps)
  with Suc r show ?case by (simp del: utf16_to_utf8.simps)
qed simp

section \<open>The keyboard dialog\<close>

datatype ime_type = SCE_IME_TYPE_DEFAULT | SCE_IME_TYPE_NUMBER

record SceImeDialogParam =
  ime_sdkVersion :: u32
  ime_supportedLanguages :: u32
  ime_languagesForced :: bool
  ime_type_of :: ime_type
  ime_title :: "u16 list"
  ime_maxTextLength :: nat
  ime_initialText :: "u16 list"

definition init_ime_dialog :: "bytes \<Rightarrow> bytes \<Rightarrow> nat \<Rightarrow> ime_type \<Rightarrow> SceImeDialogParam" where
  "init_ime_dialog title initial_text max_text_length type =
     \<lparr>ime_sdkVersion = 0x03150021, ime_supportedLanguages = 0x0001FFFF, ime_languagesForced = True,
      ime_type_of = type, ime_title = utf8_to_utf16 title, ime_maxTextLength = max_text_length,
      ime_initialText = utf8_to_utf16 initial_text\<rparr>"

text \<open>
  One turn of the waiting loops: the status of the dialog, the button of its result and the
  text it left in the input buffer.  The dialog itself is a parameter that answers the
  parameters it is started with by the sequence of turns; a sequence without a finished turn
  is a loop that is still running.
\<close>

record ime_poll =
  poll_status :: nat
  poll_close :: bool
  poll_text :: "u16 list"

definition IME_DIALOG_RESULT_FINISHED :: nat where
  "IME_DIALOG_RESULT_FINISHED = 2"

fun ime_wait :: "ime_poll list \<Rightarrow> ime_poll option" where
  "ime_wait [] = None"
| "ime_wait (p # ps) = (if poll_status p = IME_DIALOG_RESULT_FINISHED then Some p else ime_wait ps)"

definition osl_osk_get_text :: "u16 list \<Rightarrow> bytes" where
  "osl_osk_get_text ime_input_text_utf16 = utf16_to_utf8 ime_input_text_utf16"

definition open_ime ::
  "(SceImeDialogParam \<Rightarrow> ime_poll list) \<Rightarrow> bytes \<Rightarrow> bytes \<Rightarrow> nat \<Rightarrow> bytes option" where
  "open_ime dialog title text max_len =
     (case ime_wait (dialog (init_ime_dialog title text max_len SCE_IME_TYPE_DEFAULT)) of
        None \<Rightarrow> None
      | Some p \<Rightarrow> Some (if poll_close p then text else osl_osk_get_text (poll_text p)))"

text \<open>The formatting and parsing of numbers by the C library.\<close>

fun decimal :: "nat \<Rightarrow> bytes" where
  "decimal n = (if n < 10 then [of_nat (48 + n)] else decimal (n div 10) @ [of_nat (48 + n mod 10)])"

declare decimal.simps [simp del]

definition is_digit :: "u8 \<Rightarrow> bool" where
  "is_digit c \<longleftrightarrow> 48 \<le> c \<and> c \<le> 57"

fun atoi_digits :: "int \<Rightarrow> bytes \<Rightarrow> int" where
  "atoi_digits n [] = n"
| "atoi_digits n (c # s) = (if is_digit c then atoi_digits (10 * n + (uint c - 48)) s else n)"

fun atoi :: "bytes \<Rightarrow> int" where
  "atoi [] = 0"
| "atoi (c # s) =
     (if c = 32 \<or> 9 \<le> c \<and> c \<le> 13 then atoi s
      else if c = 45 then - atoi_digits 0 s
      else if c = 43 then atoi_digits 0 s
      else atoi_digits 0 (c # s))"

text \<open>The number is clamped to sixteen bits.\<close>

definition stored :: "int \<Rightarrow> u16" where
  "stored a = (let num = (word_of_int a :: u32) in if num > 0xFFFF then 0xFFFF else ucast num)"

definition open_ime_short ::
  "(SceImeDialogParam \<Rightarrow> ime_poll list) \<Rightarrow> bytes \<Rightarrow> u16 \<Rightarrow> u16 option" where
  "open_ime_short dialog title number =
     (let number_txt = decimal (unat number) @ [0]
      in case ime_wait (dialog (init_ime_dialog title number_txt 5 SCE_IME_TYPE_NUMBER)) of
           None \<Rightarrow> None
         | Some p \<Rightarrow>
             Some (if poll_close p then number else stored (atoi (osl_osk_get_text (poll_text p)))))"

lemma digit_byte: "n < 10 \<Longrightarrow> is_digit (of_nat (48 + n)) \<and> uint (of_nat (48 + n) :: u8) = 48 + int n"
  by (simp add: is_digit_def word_le_nat_alt uint_nat unat_word_ariths unat_of_nat)

lemma atoi_digits_decimal: "atoi_digits 0 (decimal n @ [0]) = int n"
proof -
  have gen: "atoi_digits a (decimal n @ s) = atoi_digits (a * 10 ^ length (decimal n) + int n) s" for a s
  proof (induction n arbitrary: a s rule: decimal.induct)
    case (1 n)
    show ?case
    proof (cases "n < 10")
      case True
      with digit_byte [OF True] show ?thesis by (subst (1 2) decimal.simps) (simp add: algebra_simps)
    next
      case False
      have m: "n mod 10 < 10" by simp
      have e: "int n = 10 * int (n div 10) + int (n mod 10)"
        by (metis mult_div_mod_eq of_nat_add of_nat_mult of_nat_numeral)
      from False 1 digit_byte [OF m] show ?thesis
        by (subst (1 2) decimal.simps) (simp add: e algebra_simps del: of_nat_add of_nat_mult of_nat_div of_nat_mod)
    qed
  qed
  show ?thesis by (simp add: gen is_digit_def)
qed

lemma decimal_ascii: "c \<in> set (decimal n) \<Longrightarrow> is_digit c"
proof (induction n rule: decimal.induct)
  case (1 n)
  have "set (decimal n) \<subseteq> insert (of_nat (48 + n mod 10)) (if n < 10 then {} else set (decimal (n div 10)))"
    by (subst decimal.simps) (auto simp del: of_nat_add)
  moreover have "is_digit (of_nat (48 + n mod 10))" using digit_byte [of "n mod 10"] by simp
  ultimately show ?case using 1 by (cases "n < 10") auto
qed

lemma digit_range: "is_digit c \<longleftrightarrow> 48 \<le> unat c \<and> unat c \<le> 57"
  by (simp add: is_digit_def word_le_nat_alt)

lemma digit_ascii: "is_digit c \<Longrightarrow> \<not> bit c 7"
proof -
  assume "is_digit c"
  then have "unat c div 2 ^ 7 = 0" by (simp add: digit_range)
  then have "\<not> bit (unat c) 7" by (simp add: bit_iff_odd)
  then show "\<not> bit c 7" by (simp add: bit_unsigned_iff)
qed

text \<open>Digits as units of the keyboard.\<close>

definition keyed :: "bytes \<Rightarrow> u16 list" where
  "keyed s = map ucast s @ [0]"

lemma keyed_of_digits: "\<forall>c \<in> set s. is_digit c \<Longrightarrow> utf8_to_utf16 (s @ [0]) = keyed s"
proof (induction s)
  case (Cons c s)
  then have "c \<noteq> 0" "c AND 0xE0 \<noteq> 0xE0" "c AND 0xC0 \<noteq> 0xC0"
    using lead_ascii [OF digit_ascii] by (auto simp: is_digit_def)
  with Cons show ?case by (simp add: keyed_def)
qed (simp add: keyed_def)

lemma digit_unit:
  assumes "is_digit c"
  shows "(ucast c :: u16) \<noteq> 0" "(ucast c :: u16) AND 0xFF80 = 0" "ucast ((ucast c :: u16) AND 0xFF) = c"
proof -
  have b: "\<not> bit c 7" using digit_ascii [OF assms] .
  show "ucast ((ucast c :: u16) AND 0xFF) = c"
    by (rule u8_eqI) (simp add: bit_ucast_iff bit_and_iff)
  with assms show "(ucast c :: u16) \<noteq> 0" by (auto simp: is_digit_def)
  have h: "bit c n \<Longrightarrow> n < 7" for n
    using b bit_imp_le_length [of c n] by (cases "n = 7") auto
  show "(ucast c :: u16) AND 0xFF80 = 0"
  proof (rule u16_eqI)
    have "\<not> bit c 8" "\<not> bit c 9" "\<not> bit c 10" "\<not> bit c 11" "\<not> bit c 12" "\<not> bit c 13" "\<not> bit c 14" "\<not> bit c 15"
      using h by fastforce+
    with b show "list_all (\<lambda>n. bit ((ucast c :: u16) AND 0xFF80) n = bit (0 :: u16) n)
      [0, 1, 2, 3, 4, 5, 6, 7, 8, 9, 10, 11, 12, 13, 14, 15]"
      by (simp add: bit_and_iff bit_ucast_iff)
  qed
qed

lemma digits_of_keyed: "\<forall>c \<in> set s. is_digit c \<Longrightarrow> utf16_to_utf8 (keyed s) = s @ [0]"
proof (induction s)
  case (Cons c s)
  then have "utf16_to_utf8 (keyed (c # s)) = c # utf16_to_utf8 (keyed s)"
    using digit_unit [of c] by (simp add: keyed_def)
  with Cons show ?case by simp
qed (simp add: keyed_def)

lemma decimal_nonempty: "decimal n \<noteq> []"
  by (subst decimal.simps) simp

lemma atoi_decimal: "atoi (decimal n @ [0]) = int n"
proof -
  obtain c s where d: "decimal n = c # s" using decimal_nonempty [of n] by (cases "decimal n") auto
  with decimal_ascii [of c n] have "is_digit c" by simp
  then have "\<not> (c = 32 \<or> 9 \<le> c \<and> c \<le> 13)" "c \<noteq> 45" "c \<noteq> 43"
    by (auto simp: digit_range word_le_nat_alt)
  then have "atoi (decimal n @ [0]) = atoi_digits 0 (decimal n @ [0])"
    unfolding d append_Cons atoi.simps by (simp only: if_False)
  then show ?thesis by (simp only: atoi_digits_decimal)
qed

text \<open>The number stored for a decimal number that was typed.\<close>

lemma stored_number:
  assumes "n < 2 ^ 31"
  shows "stored (int n) = of_nat (min n 65535)"
proof -
  have u: "unat (of_nat n :: u32) = n" using assms by (simp add: unat_of_nat)
  then have "(of_nat n :: u32) > 0xFFFF \<longleftrightarrow> n > 65535" by (simp add: word_less_nat_alt)
  moreover have "(ucast (of_nat n :: u32) :: u16) = of_nat n"
    using u by (metis of_nat_unat)
  ultimately show ?thesis by (auto simp: stored_def min_def)
qed

lemma ime_text_length:
  assumes "ime_wait (dialog (init_ime_dialog title text max_len SCE_IME_TYPE_DEFAULT)) = Some p"
    and "\<not> poll_close p" "poll_text p = us @ [0]" "length us \<le> max_len"
  shows "\<exists>t. open_ime dialog title text max_len = Some t \<and> length t \<le> 3 * (max_len + 1) + 1 \<and>
             (us = replicate max_len 0x800 \<longrightarrow> length t = 3 * max_len + 1)"
  using assms utf16_to_utf8_length [of "us @ [0]"] utf16_to_utf8_long_units [of max_len]
  by (auto simp: open_ime_def osl_osk_get_text_def)

section \<open>Properties\<close>

text \<open>C23: Writing a UTF-16 text as UTF-8 and reading it back keeps every unit except surrogate
  pairs, which come back as two other units: the four-byte form that utf16_to_utf8 writes is
  read by utf8_to_utf16 as a three-byte form and a stray byte. The text is therefore restored
  exactly when it has no surrogate pair.\<close>

theorem text_conversion_roundtrip:
  assumes "0 \<notin> set us"
  shows "utf8_to_utf16 (utf16_to_utf8 (us @ [0])) = reread us @ [0] \<and>
         (utf8_to_utf16 (utf16_to_utf8 (us @ [0])) = us @ [0] \<longleftrightarrow> \<not> has_pair us)"
  using decode_encode [OF assms] reread_no_pair reread_pair by auto

theorem text_conversion_roundtrip_witness:
  "utf8_to_utf16 (utf16_to_utf8 ([0x41, 0xE9, 0x3042] @ [0])) = [0x41, 0xE9, 0x3042, 0] \<and>
   utf8_to_utf16 (utf16_to_utf8 ([0xD83D, 0xDE00] @ [0])) \<noteq> [0xD83D, 0xDE00] @ [0]"
  using text_conversion_roundtrip [of "[0x41, 0xE9, 0x3042]"]
    conjunct2 [OF text_conversion_roundtrip [of "[0xD83D, 0xDE00]"]]
  by (simp del: utf16_to_utf8.simps utf8_to_utf16.simps append.simps)

text \<open>The keyboard for numbers keeps the number when it is closed or confirmed as it was
  offered, and stores the number typed, limited to 65535, for every decimal number of an int.\<close>

theorem keyboard_number:
  assumes "ime_wait (dialog (init_ime_dialog title (decimal (unat number) @ [0]) 5 SCE_IME_TYPE_NUMBER)) = Some p"
  shows "(poll_close p \<or> poll_text p = utf8_to_utf16 (decimal (unat number) @ [0]) \<longrightarrow>
            open_ime_short dialog title number = Some number) \<and>
         (\<not> poll_close p \<and> n < 2 ^ 31 \<and> poll_text p = keyed (decimal n) \<longrightarrow>
            open_ime_short dialog title number = Some (of_nat (min n 65535)))"
proof -
  have typed: "open_ime_short dialog title number = Some (of_nat (min k 65535))"
    if "\<not> poll_close p" "k < 2 ^ 31" "poll_text p = keyed (decimal k)" for k
    using that assms digits_of_keyed [of "decimal k"] decimal_ascii [of _ k] stored_number [of k]
    by (simp add: open_ime_short_def osl_osk_get_text_def atoi_decimal Let_def)
  have "unat number < 2 ^ 31" "min (unat number) 65535 = unat number"
    using unsigned_less [of number, where 'a = nat] by auto
  with typed [of "unat number"] keyed_of_digits [of "decimal (unat number)"] decimal_ascii [of _ "unat number"]
  have "\<not> poll_close p \<Longrightarrow> poll_text p = utf8_to_utf16 (decimal (unat number) @ [0]) \<Longrightarrow>
        open_ime_short dialog title number = Some number" by simp
  moreover have "poll_close p \<Longrightarrow> open_ime_short dialog title number = Some number"
    using assms by (simp add: open_ime_short_def Let_def)
  ultimately show ?thesis using typed [of n] by blast
qed

theorem keyboard_number_witness:
  "open_ime_short (\<lambda>param. [\<lparr>poll_status = 1, poll_close = False, poll_text = []\<rparr>,
       \<lparr>poll_status = 2, poll_close = False, poll_text = ime_initialText param\<rparr>]) [0] 46000 = Some 46000"
  using keyboard_number [where number = 46000 and title = "[0]" and n = 0 and
      dialog = "\<lambda>param. [\<lparr>poll_status = 1, poll_close = False, poll_text = []\<rparr>,
       \<lparr>poll_status = 2, poll_close = False, poll_text = ime_initialText param\<rparr>]" and
      p = "\<lparr>poll_status = 2, poll_close = False, poll_text = utf8_to_utf16 (decimal 46000 @ [0])\<rparr>"]
  by (simp add: init_ime_dialog_def IME_DIALOG_RESULT_FINISHED_def del: utf8_to_utf16.simps)

end
