(* ===== verification/Aes.thy ===== *)
theory Aes
  imports Prelude
begin

text \<open>
  \<^verbatim>\<open>kern/cmd56/crypto/aes.c\<close>: AES-128 (\<^verbatim>\<open>Nk = 4\<close>, \<^verbatim>\<open>Nr = 10\<close>) as the code computes it.
  The cipher state \<^verbatim>\<open>uint8_t (*state)[4][4]\<close> is a cast of the 16-byte buffer, so cell
  \<^verbatim>\<open>(*state)[i][j]\<close> is byte \<open>4 * i + j\<close>.  The key schedule, the round functions, the
  cipher loops with their 8-bit round counter, ECB and CBC are translated one definition
  each.  The lemmas show that every inverse routine undoes its routine, that the two
  substitution tables are inverse permutations, that decryption undoes encryption for
  every key schedule and initial vector, and that \<^verbatim>\<open>KeyExpansion\<close> computes the words of
  FIPS 197 whatever the array held before.
\<close>

type_synonym block = bytes  \<comment> \<open>\<^verbatim>\<open>state_t\<close>\<close>

section \<open>Constants and tables\<close>

definition Nb :: nat where "Nb = 4"
definition Nk :: nat where "Nk = 4"
definition Nr :: u8 where "Nr = 10"
definition AES_BLOCKLEN :: nat where "AES_BLOCKLEN = 16"
definition AES_keyExpSize :: nat where "AES_keyExpSize = 176"

definition sbox :: "u8 list" where
  "sbox = [
    0x63, 0x7c, 0x77, 0x7b, 0xf2, 0x6b, 0x6f, 0xc5, 0x30, 0x01, 0x67, 0x2b, 0xfe, 0xd7, 0xab, 0x76,
    0xca, 0x82, 0xc9, 0x7d, 0xfa, 0x59, 0x47, 0xf0, 0xad, 0xd4, 0xa2, 0xaf, 0x9c, 0xa4, 0x72, 0xc0,
    0xb7, 0xfd, 0x93, 0x26, 0x36, 0x3f, 0xf7, 0xcc, 0x34, 0xa5, 0xe5, 0xf1, 0x71, 0xd8, 0x31, 0x15,
    0x04, 0xc7, 0x23, 0xc3, 0x18, 0x96, 0x05, 0x9a, 0x07, 0x12, 0x80, 0xe2, 0xeb, 0x27, 0xb2, 0x75,
    0x09, 0x83, 0x2c, 0x1a, 0x1b, 0x6e, 0x5a, 0xa0, 0x52, 0x3b, 0xd6, 0xb3, 0x29, 0xe3, 0x2f, 0x84,
    0x53, 0xd1, 0x00, 0xed, 0x20, 0xfc, 0xb1, 0x5b, 0x6a, 0xcb, 0xbe, 0x39, 0x4a, 0x4c, 0x58, 0xcf,
    0xd0, 0xef, 0xaa, 0xfb, 0x43, 0x4d, 0x33, 0x85, 0x45, 0xf9, 0x02, 0x7f, 0x50, 0x3c, 0x9f, 0xa8,
    0x51, 0xa3, 0x40, 0x8f, 0x92, 0x9d, 0x38, 0xf5, 0xbc, 0xb6, 0xda, 0x21, 0x10, 0xff, 0xf3, 0xd2,
    0xcd, 0x0c, 0x13, 0xec, 0x5f, 0x97, 0x44, 0x17, 0xc4, 0xa7, 0x7e, 0x3d, 0x64, 0x5d, 0x19, 0x73,
    0x60, 0x81, 0x4f, 0xdc, 0x22, 0x2a, 0x90, 0x88, 0x46, 0xee, 0xb8, 0x14, 0xde, 0x5e, 0x0b, 0xdb,
    0xe0, 0x32, 0x3a, 0x0a, 0x49, 0x06, 0x24, 0x5c, 0xc2, 0xd3, 0xac, 0x62, 0x91, 0x95, 0xe4, 0x79,
    0xe7, 0xc8, 0x37, 0x6d, 0x8d, 0xd5, 0x4e, 0xa9, 0x6c, 0x56, 0xf4, 0xea, 0x65, 0x7a, 0xae, 0x08,
    0xba, 0x78, 0x25, 0x2e, 0x1c, 0xa6, 0xb4, 0xc6, 0xe8, 0xdd, 0x74, 0x1f, 0x4b, 0xbd, 0x8b, 0x8a,
    0x70, 0x3e, 0xb5, 0x66, 0x48, 0x03, 0xf6, 0x0e, 0x61, 0x35, 0x57, 0xb9, 0x86, 0xc1, 0x1d, 0x9e,
    0xe1, 0xf8, 0x98, 0x11, 0x69, 0xd9, 0x8e, 0x94, 0x9b, 0x1e, 0x87, 0xe9, 0xce, 0x55, 0x28, 0xdf,
    0x8c, 0xa1, 0x89, 0x0d, 0xbf, 0xe6, 0x42, 0x68, 0x41, 0x99, 0x2d, 0x0f, 0xb0, 0x54, 0xbb, 0x16]"

definition rsbox :: "u8 list" where
  "rsbox = [
    0x52, 0x09, 0x6a, 0xd5, 0x30, 0x36, 0xa5, 0x38, 0xbf, 0x40, 0xa3, 0x9e, 0x81, 0xf3, 0xd7, 0xfb,
    0x7c, 0xe3, 0x39, 0x82, 0x9b, 0x2f, 0xff, 0x87, 0x34, 0x8e, 0x43, 0x44, 0xc4, 0xde, 0xe9, 0xcb,
    0x54, 0x7b, 0x94, 0x32, 0xa6, 0xc2, 0x23, 0x3d, 0xee, 0x4c, 0x95, 0x0b, 0x42, 0xfa, 0xc3, 0x4e,
    0x08, 0x2e, 0xa1, 0x66, 0x28, 0xd9, 0x24, 0xb2, 0x76, 0x5b, 0xa2, 0x49, 0x6d, 0x8b, 0xd1, 0x25,
    0x72, 0xf8, 0xf6, 0x64, 0x86, 0x68, 0x98, 0x16, 0xd4, 0xa4, 0x5c, 0xcc, 0x5d, 0x65, 0xb6, 0x92,
    0x6c, 0x70, 0x48, 0x50, 0xfd, 0xed, 0xb9, 0xda, 0x5e, 0x15, 0x46, 0x57, 0xa7, 0x8d, 0x9d, 0x84,
    0x90, 0xd8, 0xab, 0x00, 0x8c, 0xbc, 0xd3, 0x0a, 0xf7, 0xe4, 0x58, 0x05, 0xb8, 0xb3, 0x45, 0x06,
    0xd0, 0x2c, 0x1e, 0x8f, 0xca, 0x3f, 0x0f, 0x02, 0xc1, 0xaf, 0xbd, 0x03, 0x01, 0x13, 0x8a, 0x6b,
    0x3a, 0x91, 0x11, 0x41, 0x4f, 0x67, 0xdc, 0xea, 0x97, 0xf2, 0xcf, 0xce, 0xf0, 0xb4, 0xe6, 0x73,
    0x96, 0xac, 0x74, 0x22, 0xe7, 0xad, 0x35, 0x85, 0xe2, 0xf9, 0x37, 0xe8, 0x1c, 0x75, 0xdf, 0x6e,
    0x47, 0xf1, 0x1a, 0x71, 0x1d, 0x29, 0xc5, 0x89, 0x6f, 0xb7, 0x62, 0x0e, 0xaa, 0x18, 0xbe, 0x1b,
    0xfc, 0x56, 0x3e, 0x4b, 0xc6, 0xd2, 0x79, 0x20, 0x9a, 0xdb, 0xc0, 0xfe, 0x78, 0xcd, 0x5a, 0xf4,
    0x1f, 0xdd, 0xa8, 0x33, 0x88, 0x07, 0xc7, 0x31, 0xb1, 0x12, 0x10, 0x59, 0x27, 0x80, 0xec, 0x5f,
    0x60, 0x51, 0x7f, 0xa9, 0x19, 0xb5, 0x4a, 0x0d, 0x2d, 0xe5, 0x7a, 0x9f, 0x93, 0xc9, 0x9c, 0xef,
    0xa0, 0xe0, 0x3b, 0x4d, 0xae, 0x2a, 0xf5, 0xb0, 0xc8, 0xeb, 0xbb, 0x3c, 0x83, 0x53, 0x99, 0x61,
    0x17, 0x2b, 0x04, 0x7e, 0xba, 0x77, 0xd6, 0x26, 0xe1, 0x69, 0x14, 0x63, 0x55, 0x21, 0x0c, 0x7d]"

definition Rcon :: "u8 list" where
  "Rcon = [
    0x8d, 0x01, 0x02, 0x04, 0x08, 0x10, 0x20, 0x40, 0x80, 0x1b, 0x36]"

definition getSBoxValue :: "u8 \<Rightarrow> u8" where
  "getSBoxValue num = sbox ! unat num"

definition getSBoxInvert :: "u8 \<Rightarrow> u8" where
  "getSBoxInvert num = rsbox ! unat num"

section \<open>Key schedule\<close>

text \<open>
  \<^verbatim>\<open>KeyExpansion\<close> fills the 176 bytes of \<open>RoundKey\<close> in place; \<open>RoundKey\<close> is the content of
  the array before the call.
\<close>

definition key_expansion_copy :: "bytes \<Rightarrow> nat \<Rightarrow> bytes \<Rightarrow> bytes" where
  "key_expansion_copy Key i rk =
     rk[i * 4 + 0 := Key ! (i * 4 + 0), i * 4 + 1 := Key ! (i * 4 + 1),
        i * 4 + 2 := Key ! (i * 4 + 2), i * 4 + 3 := Key ! (i * 4 + 3)]"

definition key_expansion_temp :: "nat \<Rightarrow> bytes \<Rightarrow> u8 \<times> u8 \<times> u8 \<times> u8" where
  "key_expansion_temp i rk =
     (let k = (i - 1) * 4;
          t0 = rk ! (k + 0); t1 = rk ! (k + 1); t2 = rk ! (k + 2); t3 = rk ! (k + 3)
      in if i mod Nk = 0 then
           (let (t0, t1, t2, t3) = (t1, t2, t3, t0);
                (t0, t1, t2, t3) = (getSBoxValue t0, getSBoxValue t1, getSBoxValue t2, getSBoxValue t3)
            in (t0 XOR Rcon ! (i div Nk), t1, t2, t3))
         else (t0, t1, t2, t3))"

definition key_expansion_word :: "nat \<Rightarrow> bytes \<Rightarrow> bytes" where
  "key_expansion_word i rk =
     (let (t0, t1, t2, t3) = key_expansion_temp i rk; j = i * 4; k = (i - Nk) * 4;
          rk = rk[j + 0 := rk ! (k + 0) XOR t0];
          rk = rk[j + 1 := rk ! (k + 1) XOR t1];
          rk = rk[j + 2 := rk ! (k + 2) XOR t2]
      in rk[j + 3 := rk ! (k + 3) XOR t3])"

definition KeyExpansion :: "bytes \<Rightarrow> bytes \<Rightarrow> bytes" where
  "KeyExpansion RoundKey Key =
     fold key_expansion_word [Nk..<Nb * (unat Nr + 1)]
       (fold (key_expansion_copy Key) [0..<Nk] RoundKey)"

text \<open>
  \<^verbatim>\<open>AES_init_ctx\<close>: the context is the 176-byte array \<^verbatim>\<open>RoundKey\<close>.
\<close>

definition AES_init_ctx :: "bytes \<Rightarrow> bytes \<Rightarrow> bytes" where
  "AES_init_ctx ctx key = KeyExpansion ctx key"

section \<open>Round functions\<close>

definition cell :: "block \<Rightarrow> nat \<Rightarrow> nat \<Rightarrow> u8" where
  "cell s i j = s ! (4 * i + j)"

definition set_cell :: "nat \<Rightarrow> nat \<Rightarrow> u8 \<Rightarrow> block \<Rightarrow> block" where
  "set_cell i j v s = s[4 * i + j := v]"

definition AddRoundKey :: "u8 \<Rightarrow> block \<Rightarrow> bytes \<Rightarrow> block" where
  "AddRoundKey round state RoundKey =
     fold (\<lambda>i s. fold (\<lambda>j s.
         set_cell i j (cell s i j XOR RoundKey ! (unat round * Nb * 4 + i * Nb + j)) s)
       [0..<4] s) [0..<4] state"

definition SubBytes :: "block \<Rightarrow> block" where
  "SubBytes state =
     fold (\<lambda>i s. fold (\<lambda>j s. set_cell j i (getSBoxValue (cell s j i)) s) [0..<4] s) [0..<4] state"

definition ShiftRows :: "block \<Rightarrow> block" where
  "ShiftRows s =
     (let temp = cell s 0 1;
          s = set_cell 0 1 (cell s 1 1) s;
          s = set_cell 1 1 (cell s 2 1) s;
          s = set_cell 2 1 (cell s 3 1) s;
          s = set_cell 3 1 temp s;
          temp = cell s 0 2;
          s = set_cell 0 2 (cell s 2 2) s;
          s = set_cell 2 2 temp s;
          temp = cell s 1 2;
          s = set_cell 1 2 (cell s 3 2) s;
          s = set_cell 3 2 temp s;
          temp = cell s 0 3;
          s = set_cell 0 3 (cell s 3 3) s;
          s = set_cell 3 3 (cell s 2 3) s;
          s = set_cell 2 3 (cell s 1 3) s
      in set_cell 1 3 temp s)"

definition xtime :: "u8 \<Rightarrow> u8" where
  "xtime x = push_bit 1 x XOR ((drop_bit 7 x AND 1) * 0x1b)"

definition mix_column :: "nat \<Rightarrow> block \<Rightarrow> block" where
  "mix_column i s =
     (let t = cell s i 0;
          Tmp = cell s i 0 XOR cell s i 1 XOR cell s i 2 XOR cell s i 3;
          Tm = cell s i 0 XOR cell s i 1; Tm = xtime Tm; s = set_cell i 0 (cell s i 0 XOR (Tm XOR Tmp)) s;
          Tm = cell s i 1 XOR cell s i 2; Tm = xtime Tm; s = set_cell i 1 (cell s i 1 XOR (Tm XOR Tmp)) s;
          Tm = cell s i 2 XOR cell s i 3; Tm = xtime Tm; s = set_cell i 2 (cell s i 2 XOR (Tm XOR Tmp)) s;
          Tm = cell s i 3 XOR t; Tm = xtime Tm
      in set_cell i 3 (cell s i 3 XOR (Tm XOR Tmp)) s)"

definition MixColumns :: "block \<Rightarrow> block" where
  "MixColumns state = fold mix_column [0..<4] state"

text \<open>The macro \<^verbatim>\<open>Multiply\<close>; the result is truncated to a byte where it is stored.\<close>

definition Multiply :: "u8 \<Rightarrow> u8 \<Rightarrow> u8" where
  "Multiply x y =
     ((y AND 1) * x) XOR
     ((drop_bit 1 y AND 1) * xtime x) XOR
     ((drop_bit 2 y AND 1) * xtime (xtime x)) XOR
     ((drop_bit 3 y AND 1) * xtime (xtime (xtime x))) XOR
     ((drop_bit 4 y AND 1) * xtime (xtime (xtime (xtime x))))"

definition inv_mix_column :: "nat \<Rightarrow> block \<Rightarrow> block" where
  "inv_mix_column i s =
     (let a = cell s i 0; b = cell s i 1; c = cell s i 2; d = cell s i 3;
          s = set_cell i 0 (Multiply a 0x0e XOR Multiply b 0x0b XOR Multiply c 0x0d XOR Multiply d 0x09) s;
          s = set_cell i 1 (Multiply a 0x09 XOR Multiply b 0x0e XOR Multiply c 0x0b XOR Multiply d 0x0d) s;
          s = set_cell i 2 (Multiply a 0x0d XOR Multiply b 0x09 XOR Multiply c 0x0e XOR Multiply d 0x0b) s
      in set_cell i 3 (Multiply a 0x0b XOR Multiply b 0x0d XOR Multiply c 0x09 XOR Multiply d 0x0e) s)"

definition InvMixColumns :: "block \<Rightarrow> block" where
  "InvMixColumns state = fold inv_mix_column [0..<4] state"

definition InvSubBytes :: "block \<Rightarrow> block" where
  "InvSubBytes state =
     fold (\<lambda>i s. fold (\<lambda>j s. set_cell j i (getSBoxInvert (cell s j i)) s) [0..<4] s) [0..<4] state"

definition InvShiftRows :: "block \<Rightarrow> block" where
  "InvShiftRows s =
     (let temp = cell s 3 1;
          s = set_cell 3 1 (cell s 2 1) s;
          s = set_cell 2 1 (cell s 1 1) s;
          s = set_cell 1 1 (cell s 0 1) s;
          s = set_cell 0 1 temp s;
          temp = cell s 0 2;
          s = set_cell 0 2 (cell s 2 2) s;
          s = set_cell 2 2 temp s;
          temp = cell s 1 2;
          s = set_cell 1 2 (cell s 3 2) s;
          s = set_cell 3 2 temp s;
          temp = cell s 0 3;
          s = set_cell 0 3 (cell s 1 3) s;
          s = set_cell 1 3 (cell s 2 3) s;
          s = set_cell 2 3 (cell s 3 3) s
      in set_cell 3 3 temp s)"

section \<open>Cipher and inverse cipher\<close>

text \<open>
  The unconditional \<^verbatim>\<open>for\<close> loops with a \<^verbatim>\<open>break\<close>.  \<open>round\<close> is a \<^verbatim>\<open>uint8_t\<close>, so the distance
  to the exit round, taken modulo 256, shrinks with every turn.
\<close>

function cipher_loop :: "u8 \<Rightarrow> block \<Rightarrow> bytes \<Rightarrow> block" where
  "cipher_loop round state RoundKey =
     (let state = ShiftRows (SubBytes state)
      in if round = Nr then state
         else cipher_loop (round + 1) (AddRoundKey round (MixColumns state) RoundKey) RoundKey)"
  by pat_completeness auto
termination
proof (relation "measure (\<lambda>(round, state, RoundKey). unat (Nr - round))", simp)
  fix round :: u8 and state RoundKey :: bytes and x
  assume "\<not> round = Nr"
  then have "Nr - round \<noteq> 0" by simp
  then have "unat (Nr - round - 1) < unat (Nr - round)"
    by (simp add: unat_minus_one unat_gt_0)
  then show "((round + 1, AddRoundKey round (MixColumns x) RoundKey, RoundKey),
      round, state, RoundKey) \<in> measure (\<lambda>(round, state, RoundKey). unat (Nr - round))"
    by (simp add: diff_diff_add)
qed

definition Cipher :: "block \<Rightarrow> bytes \<Rightarrow> block" where
  "Cipher state RoundKey =
     AddRoundKey Nr (cipher_loop 1 (AddRoundKey 0 state RoundKey) RoundKey) RoundKey"

function inv_cipher_loop :: "u8 \<Rightarrow> block \<Rightarrow> bytes \<Rightarrow> block" where
  "inv_cipher_loop round state RoundKey =
     (let state = AddRoundKey round (InvSubBytes (InvShiftRows state)) RoundKey
      in if round = 0 then state
         else inv_cipher_loop (round - 1) (InvMixColumns state) RoundKey)"
  by pat_completeness auto
termination
  by (relation "measure (\<lambda>(round, state, RoundKey). unat round)")
     (auto simp: unat_minus_one unat_gt_0)

definition InvCipher :: "block \<Rightarrow> bytes \<Rightarrow> block" where
  "InvCipher state RoundKey =
     inv_cipher_loop (Nr - 1) (AddRoundKey Nr state RoundKey) RoundKey"

declare cipher_loop.simps [simp del] inv_cipher_loop.simps [simp del]

section \<open>Modes of operation\<close>

definition AES_ECB_encrypt :: "bytes \<Rightarrow> bytes \<Rightarrow> bytes" where
  "AES_ECB_encrypt ctx buf = put_field (0, 16) (Cipher (get_field (0, 16) buf) ctx) buf"

definition AES_ECB_decrypt :: "bytes \<Rightarrow> bytes \<Rightarrow> bytes" where
  "AES_ECB_decrypt ctx buf = put_field (0, 16) (InvCipher (get_field (0, 16) buf) ctx) buf"

text \<open>
  \<^verbatim>\<open>XorWithIv\<close> changes the first block of \<open>buf\<close>.  The CBC loops walk the buffer block by
  block while \<^verbatim>\<open>i < length\<close>; \<open>remaining\<close> is \<^verbatim>\<open>length - i\<close>, and \<open>buf\<close> is the memory from the
  current position on.  Decryption stores the previous ciphertext block into the
  caller's \<open>Iv\<close>, so it returns the final \<open>Iv\<close> too.
\<close>

definition XorWithIv :: "bytes \<Rightarrow> bytes \<Rightarrow> bytes" where
  "XorWithIv buf Iv = fold (\<lambda>i b. b[i := b ! i XOR Iv ! i]) [0..<AES_BLOCKLEN] buf"

fun cbc_encrypt_loop :: "bytes \<Rightarrow> bytes \<Rightarrow> nat \<Rightarrow> bytes \<Rightarrow> bytes" where
  "cbc_encrypt_loop ctx buf 0 Iv = buf"
| "cbc_encrypt_loop ctx buf (Suc n) Iv =
     (let buf = XorWithIv buf Iv;
          buf = AES_ECB_encrypt ctx buf
      in take 16 buf @ cbc_encrypt_loop ctx (drop 16 buf) (Suc n - 16) (take 16 buf))"

fun cbc_decrypt_loop :: "bytes \<Rightarrow> bytes \<Rightarrow> nat \<Rightarrow> bytes \<Rightarrow> bytes \<times> bytes" where
  "cbc_decrypt_loop ctx buf 0 Iv = (buf, Iv)"
| "cbc_decrypt_loop ctx buf (Suc n) Iv =
     (let storeNextIv = take 16 buf;
          buf = AES_ECB_decrypt ctx buf;
          buf = XorWithIv buf Iv;
          (rest, Iv') = cbc_decrypt_loop ctx (drop 16 buf) (Suc n - 16) storeNextIv
      in (take 16 buf @ rest, Iv'))"

text \<open>A null \<open>Iv\<close> is \<open>None\<close>: the functions then use the zeroed local \<^verbatim>\<open>ivv\<close>.\<close>

definition AES_CBC_encrypt_buffer :: "bytes \<Rightarrow> bytes \<Rightarrow> nat \<Rightarrow> bytes option \<Rightarrow> bytes" where
  "AES_CBC_encrypt_buffer ctx buf len Iv =
     cbc_encrypt_loop ctx buf len (case Iv of None \<Rightarrow> zeros 0x10 | Some iv \<Rightarrow> iv)"

definition AES_CBC_decrypt_buffer :: "bytes \<Rightarrow> bytes \<Rightarrow> nat \<Rightarrow> bytes option \<Rightarrow> bytes \<times> bytes" where
  "AES_CBC_decrypt_buffer ctx buf len Iv =
     cbc_decrypt_loop ctx buf len (case Iv of None \<Rightarrow> zeros 0x10 | Some iv \<Rightarrow> iv)"

text \<open>
  The \<^verbatim>\<open>_key\<close> variants expand the key into a local context and work on a copy of \<open>Iv\<close>.
  The context is uninitialised before \<^verbatim>\<open>AES_init_ctx\<close>, which overwrites all of it
  (\<open>KeyExpansion_overwrites\<close> below), so the model starts from zeros.
\<close>

definition AES_CBC_decrypt_buffer_key :: "bytes \<Rightarrow> bytes \<Rightarrow> nat \<Rightarrow> bytes \<Rightarrow> bytes" where
  "AES_CBC_decrypt_buffer_key key buf len Iv =
     (let iv_copy = get_field (0, 0x10) Iv;
          ctx = AES_init_ctx (zeros AES_keyExpSize) key
      in fst (AES_CBC_decrypt_buffer ctx buf len (Some iv_copy)))"

definition AES_CBC_encrypt_buffer_key :: "bytes \<Rightarrow> bytes \<Rightarrow> nat \<Rightarrow> bytes \<Rightarrow> bytes" where
  "AES_CBC_encrypt_buffer_key key buf len Iv =
     (let iv_copy = get_field (0, 0x10) Iv;
          ctx = AES_init_ctx (zeros AES_keyExpSize) key
      in AES_CBC_encrypt_buffer ctx buf len (Some iv_copy))"

section \<open>Round routines in closed form\<close>

lemma upt_0_4: "[0..<4] = [0, 1, 2, 3::nat]"
  by (simp add: upt_rec)

lemma length_set_cell [simp]: "length (set_cell i j v s) = length s"
  by (simp add: set_cell_def)

lemmas cell_simps = cell_def set_cell_def

lemma length_AddRoundKey [simp, wf_lens]: "length (AddRoundKey r s rk) = length s"
  by (simp add: AddRoundKey_def upt_0_4)

lemma length_SubBytes [simp, wf_lens]: "length (SubBytes s) = length s"
  by (simp add: SubBytes_def upt_0_4)

lemma length_InvSubBytes [simp, wf_lens]: "length (InvSubBytes s) = length s"
  by (simp add: InvSubBytes_def upt_0_4)

lemma length_ShiftRows [simp, wf_lens]: "length (ShiftRows s) = length s"
  by (simp add: ShiftRows_def Let_def)

lemma length_InvShiftRows [simp, wf_lens]: "length (InvShiftRows s) = length s"
  by (simp add: InvShiftRows_def Let_def)

lemma length_mix_column [simp]: "length (mix_column i s) = length s"
  by (simp add: mix_column_def Let_def)

lemma length_inv_mix_column [simp]: "length (inv_mix_column i s) = length s"
  by (simp add: inv_mix_column_def Let_def)

lemma length_MixColumns [simp, wf_lens]: "length (MixColumns s) = length s"
  by (simp add: MixColumns_def upt_0_4)

lemma length_InvMixColumns [simp, wf_lens]: "length (InvMixColumns s) = length s"
  by (simp add: InvMixColumns_def upt_0_4)

lemma length_cipher_loop [simp, wf_lens]: "length (cipher_loop r s rk) = length s"
  by (induction r s rk rule: cipher_loop.induct) (subst cipher_loop.simps, simp add: Let_def)

lemma length_inv_cipher_loop [simp, wf_lens]: "length (inv_cipher_loop r s rk) = length s"
  by (induction r s rk rule: inv_cipher_loop.induct) (subst inv_cipher_loop.simps, simp add: Let_def)

lemma length_Cipher [simp, wf_lens]: "length (Cipher s rk) = length s"
  by (simp add: Cipher_def)

lemma length_InvCipher [simp, wf_lens]: "length (InvCipher s rk) = length s"
  by (simp add: InvCipher_def)

text \<open>Every round routine in closed form on a block of sixteen bytes.\<close>

lemma upt_0_16: "[0..<16] = [0, 1, 2, 3, 4, 5, 6, 7, 8, 9, 10, 11, 12, 13, 14, 15::nat]"
  by (simp add: upt_rec)

lemma AddRoundKey_xor:
  assumes "length s = 16"
  shows "AddRoundKey r s rk = map (\<lambda>k. s ! k XOR rk ! (16 * unat r + k)) [0..<16]"
  using assms
  by (rule length_16_conv)
     (simp add: AddRoundKey_def upt_0_4 upt_0_16 cell_simps Nb_def ac_simps)

lemma SubBytes_map: "length s = 16 \<Longrightarrow> SubBytes s = map getSBoxValue s"
  by (erule length_16_conv) (simp add: SubBytes_def upt_0_4 cell_simps)

lemma InvSubBytes_map: "length s = 16 \<Longrightarrow> InvSubBytes s = map getSBoxInvert s"
  by (erule length_16_conv) (simp add: InvSubBytes_def upt_0_4 cell_simps)

lemma ShiftRows_perm:
  "ShiftRows [a0, a1, a2, a3, a4, a5, a6, a7, a8, a9, a10, a11, a12, a13, a14, a15] =
     [a0, a5, a10, a15, a4, a9, a14, a3, a8, a13, a2, a7, a12, a1, a6, a11]"
  by (simp add: ShiftRows_def cell_simps Let_def)

lemma InvShiftRows_perm:
  "InvShiftRows [a0, a1, a2, a3, a4, a5, a6, a7, a8, a9, a10, a11, a12, a13, a14, a15] =
     [a0, a13, a10, a7, a4, a1, a14, a11, a8, a5, a2, a15, a12, a9, a6, a3]"
  by (simp add: InvShiftRows_def cell_simps Let_def)

lemma xor_left_cancel [simp]: "a XOR (a XOR b) = (b :: 'a::len word)"
  by (simp add: xor.assoc [symmetric])

lemma xtime_bit: "xtime x = push_bit 1 x XOR (if bit x 7 then 0x1b else 0)"
proof -
  have "drop_bit 7 x AND 1 = of_bool (bit x 7)"
    by (simp add: bit_iff_odd_drop_bit and_one_eq odd_iff_mod_2_eq_one)
  then show ?thesis by (simp add: xtime_def)
qed

lemma xtime_xor: "xtime (x XOR y) = xtime x XOR xtime y"
  unfolding xtime_bit push_bit_xor bit_xor_iff by (simp add: ac_simps)

lemma xtime_0 [simp]: "xtime 0 = 0"
  by (simp add: xtime_bit)

lemma Multiply_consts:
  "Multiply x 0x0e = xtime x XOR xtime (xtime x) XOR xtime (xtime (xtime x))"
  "Multiply x 0x0b = x XOR xtime x XOR xtime (xtime (xtime x))"
  "Multiply x 0x0d = x XOR xtime (xtime x) XOR xtime (xtime (xtime x))"
  "Multiply x 0x09 = x XOR xtime (xtime (xtime x))"
  by (simp_all add: Multiply_def)

definition mix4 :: "u8 \<Rightarrow> u8 \<Rightarrow> u8 \<Rightarrow> u8 \<Rightarrow> u8 list" where
  "mix4 a b c d =
     [xtime a XOR (xtime b XOR b) XOR c XOR d, a XOR xtime b XOR (xtime c XOR c) XOR d,
      a XOR b XOR xtime c XOR (xtime d XOR d), (xtime a XOR a) XOR b XOR c XOR xtime d]"

lemma MixColumns_mix4:
  "MixColumns [a0, a1, a2, a3, a4, a5, a6, a7, a8, a9, a10, a11, a12, a13, a14, a15] =
     mix4 a0 a1 a2 a3 @ mix4 a4 a5 a6 a7 @ mix4 a8 a9 a10 a11 @ mix4 a12 a13 a14 a15"
  by (simp add: MixColumns_def upt_0_4 mix_column_def cell_simps Let_def mix4_def xtime_xor ac_simps)

definition inv_mix4 :: "u8 \<Rightarrow> u8 \<Rightarrow> u8 \<Rightarrow> u8 \<Rightarrow> u8 list" where
  "inv_mix4 a b c d =
     [Multiply a 0x0e XOR Multiply b 0x0b XOR Multiply c 0x0d XOR Multiply d 0x09,
      Multiply a 0x09 XOR Multiply b 0x0e XOR Multiply c 0x0b XOR Multiply d 0x0d,
      Multiply a 0x0d XOR Multiply b 0x09 XOR Multiply c 0x0e XOR Multiply d 0x0b,
      Multiply a 0x0b XOR Multiply b 0x0d XOR Multiply c 0x09 XOR Multiply d 0x0e]"

lemma InvMixColumns_inv_mix4:
  "InvMixColumns [a0, a1, a2, a3, a4, a5, a6, a7, a8, a9, a10, a11, a12, a13, a14, a15] =
     inv_mix4 a0 a1 a2 a3 @ inv_mix4 a4 a5 a6 a7 @ inv_mix4 a8 a9 a10 a11 @ inv_mix4 a12 a13 a14 a15"
  by (simp add: InvMixColumns_def upt_0_4 inv_mix_column_def cell_simps Let_def inv_mix4_def)

lemma inv_mix4_mix4:
  "mix4 a b c d = [p, q, r, s] \<Longrightarrow> inv_mix4 p q r s = [a, b, c, d]"
  by (auto simp: mix4_def inv_mix4_def Multiply_consts xtime_xor ac_simps)

lemma mix4_inv_mix4:
  "inv_mix4 a b c d = [p, q, r, s] \<Longrightarrow> mix4 p q r s = [a, b, c, d]"
  by (auto simp: mix4_def inv_mix4_def Multiply_consts xtime_xor ac_simps)

lemma InvMixColumns_MixColumns [simp]:
  "length s = 16 \<Longrightarrow> InvMixColumns (MixColumns s) = s"
  by (erule length_16_conv)
     (simp add: MixColumns_mix4 mix4_def InvMixColumns_inv_mix4 inv_mix4_mix4 [unfolded mix4_def])

lemma MixColumns_InvMixColumns [simp]:
  "length s = 16 \<Longrightarrow> MixColumns (InvMixColumns s) = s"
  by (erule length_16_conv)
     (simp add: InvMixColumns_inv_mix4 inv_mix4_def MixColumns_mix4 mix4_inv_mix4 [unfolded inv_mix4_def])

lemma InvShiftRows_ShiftRows [simp]: "length s = 16 \<Longrightarrow> InvShiftRows (ShiftRows s) = s"
  by (erule length_16_conv) (simp add: ShiftRows_perm InvShiftRows_perm)

lemma ShiftRows_InvShiftRows [simp]: "length s = 16 \<Longrightarrow> ShiftRows (InvShiftRows s) = s"
  by (erule length_16_conv) (simp add: ShiftRows_perm InvShiftRows_perm)

lemma AddRoundKey_twice [simp]: "length s = 16 \<Longrightarrow> AddRoundKey r (AddRoundKey r s rk) rk = s"
  by (rule nth_equalityI) (auto simp: AddRoundKey_xor xor.assoc)


section \<open>The substitution tables\<close>

lemma length_sbox [simp]: "length sbox = 256" and length_rsbox [simp]: "length rsbox = 256"
  by (simp_all add: sbox_def rsbox_def)

lemma rsbox_sbox_table: "map (\<lambda>b. rsbox ! unat b) sbox = map word_of_nat [0..<256]"
  by code_simp

lemma sbox_rsbox_table: "map (\<lambda>b. sbox ! unat b) rsbox = map word_of_nat [0..<256]"
  by code_simp

lemma table_inverse:
  assumes "map (\<lambda>b. t ! unat b) u = map word_of_nat [0..<256]" "length u = 256"
  shows "t ! unat (u ! unat (x :: u8)) = x"
proof -
  have "unat x < 2 ^ LENGTH(8)" by (rule unsigned_less)
  then have x: "unat x < 256" by simp
  have "t ! unat (u ! unat x) = map (\<lambda>b. t ! unat b) u ! unat x"
    using x assms(2) by simp
  also have "\<dots> = x" unfolding assms(1) using x by simp
  finally show ?thesis .
qed

lemma getSBoxInvert_getSBoxValue [simp]: "getSBoxInvert (getSBoxValue x) = x"
  unfolding getSBoxInvert_def getSBoxValue_def
  by (rule table_inverse [OF rsbox_sbox_table length_sbox])

lemma getSBoxValue_getSBoxInvert [simp]: "getSBoxValue (getSBoxInvert x) = x"
  unfolding getSBoxInvert_def getSBoxValue_def
  by (rule table_inverse [OF sbox_rsbox_table length_rsbox])

lemma InvSubBytes_SubBytes [simp]: "length s = 16 \<Longrightarrow> InvSubBytes (SubBytes s) = s"
  by (simp add: SubBytes_map InvSubBytes_map o_def)

lemma SubBytes_InvSubBytes [simp]: "length s = 16 \<Longrightarrow> SubBytes (InvSubBytes s) = s"
  by (simp add: SubBytes_map InvSubBytes_map o_def)

section \<open>Decryption undoes encryption\<close>

text \<open>The two loops unrolled: ten rounds each, the last without the column mixing.\<close>

definition enc_round :: "bytes \<Rightarrow> u8 \<Rightarrow> block \<Rightarrow> block" where
  "enc_round rk r s = AddRoundKey r (MixColumns (ShiftRows (SubBytes s))) rk"

definition dec_round :: "bytes \<Rightarrow> u8 \<Rightarrow> block \<Rightarrow> block" where
  "dec_round rk r s = InvMixColumns (AddRoundKey r (InvSubBytes (InvShiftRows s)) rk)"

lemma length_enc_round [simp]: "length (enc_round rk r s) = length s"
  by (simp add: enc_round_def)

lemma length_dec_round [simp]: "length (dec_round rk r s) = length s"
  by (simp add: dec_round_def)

lemma Cipher_unrolled:
  "Cipher s rk =
     AddRoundKey 10 (ShiftRows (SubBytes (fold (enc_round rk) [1, 2, 3, 4, 5, 6, 7, 8, 9]
       (AddRoundKey 0 s rk)))) rk"
  by (simp add: Cipher_def cipher_loop.simps [of 1] cipher_loop.simps [of 2] cipher_loop.simps [of 3]
      cipher_loop.simps [of 4] cipher_loop.simps [of 5] cipher_loop.simps [of 6]
      cipher_loop.simps [of 7] cipher_loop.simps [of 8] cipher_loop.simps [of 9]
      cipher_loop.simps [of 10] Nr_def Let_def enc_round_def)

lemma InvCipher_unrolled:
  "InvCipher s rk =
     AddRoundKey 0 (InvSubBytes (InvShiftRows (fold (dec_round rk) [9, 8, 7, 6, 5, 4, 3, 2, 1]
       (AddRoundKey 10 s rk)))) rk"
  by (simp add: InvCipher_def inv_cipher_loop.simps [of 9] inv_cipher_loop.simps [of 8]
      inv_cipher_loop.simps [of 7] inv_cipher_loop.simps [of 6] inv_cipher_loop.simps [of 5]
      inv_cipher_loop.simps [of 4] inv_cipher_loop.simps [of 3] inv_cipher_loop.simps [of 2]
      inv_cipher_loop.simps [of 1] inv_cipher_loop.simps [of 0] Nr_def Let_def dec_round_def)

lemma dec_round_enc_round:
  "length s = 16 \<Longrightarrow>
   dec_round rk r (ShiftRows (SubBytes (enc_round rk r s))) = ShiftRows (SubBytes s)"
  by (simp add: enc_round_def dec_round_def)

lemma enc_round_dec_round:
  "length s = 16 \<Longrightarrow>
   enc_round rk r (InvSubBytes (InvShiftRows (dec_round rk r s))) = InvSubBytes (InvShiftRows s)"
  by (simp add: enc_round_def dec_round_def)

lemma InvCipher_Cipher [simp]: "length s = 16 \<Longrightarrow> InvCipher (Cipher s rk) rk = s"
  by (simp add: Cipher_unrolled InvCipher_unrolled dec_round_enc_round)

lemma Cipher_InvCipher [simp]: "length s = 16 \<Longrightarrow> Cipher (InvCipher s rk) rk = s"
  by (simp add: Cipher_unrolled InvCipher_unrolled enc_round_dec_round)

lemma inj_on_Cipher: "inj_on (\<lambda>s. Cipher s rk) {s. length s = 16}"
  by (rule inj_on_inverseI [where g = "\<lambda>s. InvCipher s rk"]) simp


section \<open>Cipher block chaining\<close>

text \<open>
  The interface the modes of operation rely on: a keyed permutation of 16-byte blocks.
  \<open>cbc_enc\<close> and \<open>cbc_dec\<close> are cipher block chaining over it, block by block.
\<close>

primrec cbc_enc :: "(block \<Rightarrow> block) \<Rightarrow> nat \<Rightarrow> bytes \<Rightarrow> bytes \<Rightarrow> bytes" where
  "cbc_enc E 0 iv buf = []"
| "cbc_enc E (Suc n) iv buf =
     (let c = E (xor_bytes (take 16 buf) iv) in c @ cbc_enc E n c (drop 16 buf))"

primrec cbc_dec :: "(block \<Rightarrow> block) \<Rightarrow> nat \<Rightarrow> bytes \<Rightarrow> bytes \<Rightarrow> bytes" where
  "cbc_dec D 0 iv buf = []"
| "cbc_dec D (Suc n) iv buf =
     xor_bytes (D (take 16 buf)) iv @ cbc_dec D n (take 16 buf) (drop 16 buf)"

lemma cbc_dec_take:
  "16 * m \<le> length d \<Longrightarrow> cbc_dec D m iv (take (16 * m) d) = cbc_dec D m iv d"
  by (induction m arbitrary: iv d) (simp_all add: drop_take min_def)

locale block_cipher =
  fixes E :: "block \<Rightarrow> block" and D :: "block \<Rightarrow> block"
  assumes length_E: "length b = 16 \<Longrightarrow> length (E b) = 16"
    and length_D: "length b = 16 \<Longrightarrow> length (D b) = 16"
    and D_E: "length b = 16 \<Longrightarrow> D (E b) = b"
begin

lemma length_cbc_enc:
  "16 * n \<le> length buf \<Longrightarrow> length iv = 16 \<Longrightarrow> length (cbc_enc E n iv buf) = 16 * n"
  by (induction n arbitrary: iv buf) (auto simp: Let_def length_E)

lemma length_cbc_dec:
  "16 * n \<le> length buf \<Longrightarrow> length iv = 16 \<Longrightarrow> length (cbc_dec D n iv buf) = 16 * n"
  by (induction n arbitrary: iv buf) (auto simp: Let_def length_D)

lemma cbc_dec_enc:
  "16 * n \<le> length buf \<Longrightarrow> length iv = 16 \<Longrightarrow> cbc_dec D n iv (cbc_enc E n iv buf) = take (16 * n) buf"
proof (induction n arbitrary: iv buf)
  case 0
  then show ?case by simp
next
  case (Suc n)
  let ?b = "xor_bytes (take 16 buf) iv"
  from Suc.prems have b: "length ?b = 16" by simp
  then have c: "length (E ?b) = 16" "D (E ?b) = ?b" by (simp_all add: length_E D_E)
  have "cbc_dec D (Suc n) iv (cbc_enc E (Suc n) iv buf) = xor_bytes ?b iv @ take (16 * n) (drop 16 buf)"
    using Suc.prems c by (simp add: Let_def Suc.IH)
  also have "\<dots> = take 16 buf @ take (16 * n) (drop 16 buf)"
    using Suc.prems by simp
  also have "\<dots> = take (16 * Suc n) buf"
    by (simp add: take_add [symmetric] add.commute)
  finally show ?case .
qed

lemma take_cbc_enc:
  "m \<le> n \<Longrightarrow> 16 * n \<le> length buf \<Longrightarrow> length iv = 16 \<Longrightarrow>
   take (16 * m) (cbc_enc E n iv buf) = cbc_enc E m iv buf"
proof (induction n arbitrary: m iv buf)
  case 0
  then show ?case by simp
next
  case (Suc n)
  show ?case
  proof (cases m)
    case 0
    then show ?thesis by simp
  next
    case (Suc k)
    with Suc.prems have "length (E (xor_bytes (take 16 buf) iv)) = 16"
      by (simp add: length_E)
    with Suc Suc.prems show ?thesis
      by (simp add: Let_def Suc.IH)
  qed
qed

lemma cbc_dec_enc_prefix:
  "m \<le> n \<Longrightarrow> 16 * n \<le> length buf \<Longrightarrow> length iv = 16 \<Longrightarrow>
   cbc_dec D m iv (take (16 * m) (cbc_enc E n iv buf)) = take (16 * m) buf"
  by (simp add: take_cbc_enc cbc_dec_enc)

end

interpretation aes: block_cipher "\<lambda>b. Cipher b rk" "\<lambda>b. InvCipher b rk" for rk
  by unfold_locales simp_all

text \<open>The loops of the code are cipher block chaining over AES.\<close>

lemma XorWithIv_eq:
  assumes "16 \<le> length buf" "16 \<le> length Iv"
  shows "XorWithIv buf Iv = xor_bytes (take 16 buf) (take 16 Iv) @ drop 16 buf"
proof -
  have aux: "n \<le> length buf \<Longrightarrow> n \<le> length Iv \<Longrightarrow>
      fold (\<lambda>i b. b[i := b ! i XOR Iv ! i]) [0..<n] buf = xor_bytes (take n buf) (take n Iv) @ drop n buf" for n
  proof (induction n)
    case 0
    then show ?case by (simp add: xor_bytes_def)
  next
    case (Suc n)
    then have "drop n buf = buf ! n # drop (Suc n) buf" by (simp add: Cons_nth_drop_Suc)
    with Suc show ?case
      by (simp add: list_update_append nth_append take_Suc_conv_app_nth xor_bytes_def)
  qed
  from aux [of 16] assms show ?thesis by (simp add: XorWithIv_def AES_BLOCKLEN_def)
qed

lemma cbc_encrypt_loop_step:
  assumes "0 < n" "16 \<le> length buf" "length Iv = 16"
  shows "cbc_encrypt_loop ctx buf n Iv =
     (let c = Cipher (xor_bytes (take 16 buf) Iv) ctx
      in c @ cbc_encrypt_loop ctx (drop 16 buf) (n - 16) c)"
  using assms
  by (cases n) (simp_all add: XorWithIv_eq AES_ECB_encrypt_def get_field.simps put_field.simps Let_def)

lemma cbc_encrypt_loop_eq:
  "16 * n \<le> length buf \<Longrightarrow> length Iv = 16 \<Longrightarrow>
   cbc_encrypt_loop ctx buf (16 * n) Iv = cbc_enc (\<lambda>b. Cipher b ctx) n Iv buf @ drop (16 * n) buf"
proof (induction n arbitrary: buf Iv)
  case 0
  then show ?case by simp
next
  case (Suc n)
  then show ?case
    by (simp add: cbc_encrypt_loop_step [of "16 + 16 * n"] Let_def add.commute [of "16 * n" 16] del: cbc_encrypt_loop.simps)
qed

lemma cbc_decrypt_loop_step:
  assumes "0 < n" "16 \<le> length buf" "length Iv = 16"
  shows "fst (cbc_decrypt_loop ctx buf n Iv) =
     xor_bytes (InvCipher (take 16 buf) ctx) Iv @
     fst (cbc_decrypt_loop ctx (drop 16 buf) (n - 16) (take 16 buf))"
  using assms
  by (cases n) (simp_all add: XorWithIv_eq AES_ECB_decrypt_def get_field.simps put_field.simps
      Let_def case_prod_unfold)

lemma cbc_decrypt_loop_eq:
  "16 * n \<le> length buf \<Longrightarrow> length Iv = 16 \<Longrightarrow>
   fst (cbc_decrypt_loop ctx buf (16 * n) Iv) = cbc_dec (\<lambda>b. InvCipher b ctx) n Iv buf @ drop (16 * n) buf"
proof (induction n arbitrary: buf Iv)
  case 0
  then show ?case by simp
next
  case (Suc n)
  then show ?case
    by (simp add: cbc_decrypt_loop_step [of "16 + 16 * n"] Let_def add.commute [of "16 * n" 16] del: cbc_decrypt_loop.simps)
qed

definition iv_or_zero :: "bytes option \<Rightarrow> bytes" where
  "iv_or_zero Iv = (case Iv of None \<Rightarrow> zeros 0x10 | Some iv \<Rightarrow> iv)"

lemma AES_CBC_encrypt_buffer_eq:
  "16 * n \<le> length buf \<Longrightarrow> length (iv_or_zero Iv) = 16 \<Longrightarrow>
   AES_CBC_encrypt_buffer ctx buf (16 * n) Iv =
     cbc_enc (\<lambda>b. Cipher b ctx) n (iv_or_zero Iv) buf @ drop (16 * n) buf"
  unfolding AES_CBC_encrypt_buffer_def iv_or_zero_def [symmetric] by (rule cbc_encrypt_loop_eq)

lemma AES_CBC_decrypt_buffer_eq:
  "16 * n \<le> length buf \<Longrightarrow> length (iv_or_zero Iv) = 16 \<Longrightarrow>
   fst (AES_CBC_decrypt_buffer ctx buf (16 * n) Iv) =
     cbc_dec (\<lambda>b. InvCipher b ctx) n (iv_or_zero Iv) buf @ drop (16 * n) buf"
  unfolding AES_CBC_decrypt_buffer_def iv_or_zero_def [symmetric] by (rule cbc_decrypt_loop_eq)

lemma length_AES_CBC_encrypt_buffer [wf_lens]:
  "16 * n \<le> length buf \<Longrightarrow> length (iv_or_zero Iv) = 16 \<Longrightarrow>
   length (AES_CBC_encrypt_buffer ctx buf (16 * n) Iv) = length buf"
  by (simp add: AES_CBC_encrypt_buffer_eq aes.length_cbc_enc)

lemma length_AES_CBC_decrypt_buffer [wf_lens]:
  "16 * n \<le> length buf \<Longrightarrow> length (iv_or_zero Iv) = 16 \<Longrightarrow>
   length (fst (AES_CBC_decrypt_buffer ctx buf (16 * n) Iv)) = length buf"
  by (simp add: AES_CBC_decrypt_buffer_eq aes.length_cbc_dec)

section \<open>The key schedule of FIPS 197\<close>

text \<open>
  The words of the expanded key as FIPS 197 defines them: the key, then each word the sum
  of the word four places back and of the previous one, which on multiples of four is
  rotated, substituted and added to the round constant, a power of \<open>x\<close>.
\<close>

function fips_word :: "bytes \<Rightarrow> nat \<Rightarrow> bytes" where
  "fips_word key i =
     (if i < 4 then get_field (4 * i, 4) key
      else
        (let t = fips_word key (i - 1);
             t = (if i mod 4 = 0
                  then xor_bytes (map getSBoxValue (rotate1 t)) [(xtime ^^ (i div 4 - 1)) 1, 0, 0, 0]
                  else t)
         in xor_bytes (fips_word key (i - 4)) t))"
  by pat_completeness auto
termination by (relation "measure snd") auto

declare fips_word.simps [simp del]

lemma length_fips_word [simp]: "16 \<le> length key \<Longrightarrow> length (fips_word key i) = 4"
proof (induction i rule: less_induct)
  case (less i)
  then show ?case by (subst fips_word.simps) (simp add: Let_def get_field.simps)
qed

lemma xtime_values:
  "xtime 1 = 2" "xtime 2 = 4" "xtime 4 = 8" "xtime 8 = 0x10" "xtime 0x10 = 0x20" "xtime 0x20 = 0x40"
  "xtime 0x40 = 0x80" "xtime 0x80 = 0x1b" "xtime 0x1b = 0x36"
  by (simp_all add: xtime_def)

lemma Rcon_xtime:
  assumes "0 < j" "j \<le> 10"
  shows "Rcon ! j = (xtime ^^ (j - 1)) 1"
proof -
  from assms have "j = 1 \<or> j = 2 \<or> j = 3 \<or> j = 4 \<or> j = 5 \<or> j = 6 \<or> j = 7 \<or> j = 8 \<or> j = 9 \<or> j = 10"
    by arith
  then show ?thesis by (elim disjE) (simp_all add: Rcon_def xtime_values numeral_eq_Suc)
qed

definition expanded_upto :: "bytes \<Rightarrow> nat \<Rightarrow> bytes \<Rightarrow> bool" where
  "expanded_upto key n rk \<longleftrightarrow>
     length rk = 176 \<and> (\<forall>i<n. \<forall>c<4. rk ! (4 * i + c) = fips_word key i ! c)"

lemma four_cases: "(\<forall>c<4. P c) \<longleftrightarrow> P 0 \<and> P 1 \<and> P 2 \<and> P (3::nat)"
  by (auto simp: less_Suc_eq numeral_eq_Suc)

lemma length_4_conv: "length t = 4 \<Longrightarrow> t = [t ! 0, t ! 1, t ! 2, t ! 3]"
  by (intro nth_equalityI) (auto simp: nth_Cons' less_Suc_eq numeral_eq_Suc)

lemma fips_word_step:
  assumes "16 \<le> length key" "4 \<le> n" "n < 44"
    "\<And>c. c < 4 \<Longrightarrow> rk ! (4 * (n - 1) + c) = fips_word key (n - 1) ! c"
    "\<And>c. c < 4 \<Longrightarrow> rk ! (4 * (n - 4) + c) = fips_word key (n - 4) ! c"
    "key_expansion_temp n rk = (t0, t1, t2, t3)"
  shows "fips_word key n = [rk ! (4 * (n - 4)) XOR t0, rk ! (4 * (n - 4) + 1) XOR t1,
    rk ! (4 * (n - 4) + 2) XOR t2, rk ! (4 * (n - 4) + 3) XOR t3]"
proof -
  let ?t = "fips_word key (n - 1)" and ?w = "fips_word key (n - 4)"
  have w: "?w = [rk ! (4 * (n - 4)), rk ! (4 * (n - 4) + 1), rk ! (4 * (n - 4) + 2), rk ! (4 * (n - 4) + 3)]"
    using assms length_4_conv [of ?w] assms(5)[of 0] assms(5)[of 1] assms(5)[of 2] assms(5)[of 3] by simp
  have t: "?t = [rk ! (4 * (n - 1)), rk ! (4 * (n - 1) + 1), rk ! (4 * (n - 1) + 2), rk ! (4 * (n - 1) + 3)]"
    using assms length_4_conv [of ?t] assms(4)[of 0] assms(4)[of 1] assms(4)[of 2] assms(4)[of 3] by simp
  have r: "Rcon ! (n div 4) = (xtime ^^ (n div 4 - 1)) 1"
    using assms by (intro Rcon_xtime) auto
  show ?thesis
    using assms(2,6) r
    by (subst fips_word.simps)
       (auto simp: w t Let_def key_expansion_temp_def Nk_def xor_bytes_def mult.commute [of _ 4]
         simp del: One_nat_def split: if_splits)
qed

lemma key_expansion_word_expands:
  assumes "16 \<le> length key" "4 \<le> n" "n < 44" "expanded_upto key n rk"
  shows "expanded_upto key (Suc n) (key_expansion_word n rk)"
proof -
  obtain t0 t1 t2 t3 where t: "key_expansion_temp n rk = (t0, t1, t2, t3)"
    by (cases "key_expansion_temp n rk")
  from assms have rk: "length rk = 176" "\<And>i c. i < n \<Longrightarrow> c < 4 \<Longrightarrow> rk ! (4 * i + c) = fips_word key i ! c"
    by (auto simp: expanded_upto_def)
  have w: "fips_word key n = [rk ! (4 * (n - 4)) XOR t0, rk ! (4 * (n - 4) + 1) XOR t1,
      rk ! (4 * (n - 4) + 2) XOR t2, rk ! (4 * (n - 4) + 3) XOR t3]"
    using assms t by (intro fips_word_step) (auto simp: rk(2))
  have k: "key_expansion_word n rk = rk[4 * n := fips_word key n ! 0, 4 * n + 1 := fips_word key n ! 1,
      4 * n + 2 := fips_word key n ! 2, 4 * n + 3 := fips_word key n ! 3]"
    using assms rk(1) by (simp add: key_expansion_word_def t w Let_def Nk_def mult.commute [of _ 4])
  have "key_expansion_word n rk ! (4 * i + c) = fips_word key i ! c" if "i < Suc n" "c < 4" for i c
  proof (cases "i = n")
    case True
    with that(2) rk(1) assms(3) show ?thesis
      by (auto simp: k nth_list_update less_Suc_eq numeral_eq_Suc)
  next
    case False
    with that have "i < n" "4 * i + c < 4 * n" by auto
    with that(2) rk show ?thesis by (simp add: k)
  qed
  with rk(1) show ?thesis by (simp add: expanded_upto_def k)
qed

lemma KeyExpansion_fips:
  assumes "16 \<le> length key" "length rk = 176"
  shows "KeyExpansion rk key = concat (map (fips_word key) [0..<44])"
proof -
  let ?s = "fold (key_expansion_copy key) [0..<Nk] rk"
  have init: "expanded_upto key 4 ?s"
    unfolding expanded_upto_def four_cases using assms
    by (simp add: upt_0_4 Nk_def key_expansion_copy_def fips_word.simps get_field.simps numeral_2_eq_2)
  have "expanded_upto key n (fold key_expansion_word [4..<n] ?s)" if "4 \<le> n" "n \<le> 44" for n
    using that
  proof (induction n rule: dec_induct)
    case base
    show ?case using init by simp
  next
    case (step m)
    then show ?case using assms by (simp add: key_expansion_word_expands)
  qed
  from this [of 44] have e: "expanded_upto key 44 (KeyExpansion rk key)"
    by (simp add: KeyExpansion_def Nk_def Nb_def Nr_def)
  have len: "length (concat (map (fips_word key) [0..<m])) = 4 * m" for m
    using assms by (induction m) auto
  have nth: "concat (map (fips_word key) [0..<m]) ! j = fips_word key (j div 4) ! (j mod 4)"
    if "j < 4 * m" for j m using that
  proof (induction m)
    case (Suc m)
    show ?case
    proof (cases "j < 4 * m")
      case True
      with Suc len show ?thesis by (simp add: nth_append)
    next
      case False
      with Suc.prems have m: "j div 4 = m" by auto
      have "j - 4 * m = j mod 4" unfolding m [symmetric] by (rule minus_mult_div_eq_mod)
      with False len m show ?thesis by (simp add: nth_append)
    qed
  qed simp
  show ?thesis
  proof (rule nth_equalityI)
    show "length (KeyExpansion rk key) = length (concat (map (fips_word key) [0..<44]))"
      using e len by (simp add: expanded_upto_def)
  next
    fix j assume "j < length (KeyExpansion rk key)"
    with e have j: "j < 4 * 44" by (simp add: expanded_upto_def)
    then have "j div 4 < 44" "j mod 4 < 4" by auto
    with e have "KeyExpansion rk key ! (4 * (j div 4) + j mod 4) = fips_word key (j div 4) ! (j mod 4)"
      unfolding expanded_upto_def by blast
    then show "KeyExpansion rk key ! j = concat (map (fips_word key) [0..<44]) ! j"
      by (simp only: nth [OF j] mult_div_mod_eq)
  qed
qed

lemma KeyExpansion_overwrites:
  assumes "16 \<le> length key" "length rk = 176" "length rk' = 176"
  shows "KeyExpansion rk key = KeyExpansion rk' key"
  using assms by (simp only: KeyExpansion_fips)

lemma length_KeyExpansion [simp, wf_lens]: "length (KeyExpansion rk key) = length rk"
proof -
  have "length (key_expansion_word i r) = length r" for i r
    by (simp add: key_expansion_word_def Let_def split: prod.splits)
  then have "length (fold key_expansion_word is r) = length r" for "is" r
    by (induction "is" arbitrary: r) auto
  moreover have "length (fold (key_expansion_copy key) is r) = length r" for "is" r
    by (induction "is" arbitrary: r) (auto simp: key_expansion_copy_def)
  ultimately show ?thesis by (simp add: KeyExpansion_def)
qed

section \<open>Properties\<close>

text \<open>for every key schedule, also one that is not the expansion of a key, the block
  decryption of the code undoes its block encryption and the other way round.\<close>

theorem decrypt_undoes_encrypt:
  assumes "length b = 16"
  shows "AES_ECB_decrypt ctx (AES_ECB_encrypt ctx b) = b \<and> AES_ECB_encrypt ctx (AES_ECB_decrypt ctx b) = b"
  using assms by (simp_all add: AES_ECB_decrypt_def AES_ECB_encrypt_def get_field_all put_field_all)

theorem decrypt_undoes_encrypt_witness:
  "AES_ECB_decrypt (zeros 176) (AES_ECB_encrypt (zeros 176) (zeros 16)) = zeros 16 \<and>
   AES_ECB_encrypt (zeros 176) (AES_ECB_decrypt (zeros 176) (zeros 16)) = zeros 16"
  by (rule decrypt_undoes_encrypt) simp

text \<open>C6: CBC decryption of any whole number of encrypted blocks, under the same key
  schedule and initial vector (a null one is the zero vector), restores the buffer, bytes
  behind those blocks included.\<close>

theorem cbc_roundtrip:
  assumes "16 * n \<le> length buf" "length (iv_or_zero iv) = 16"
  shows "fst (AES_CBC_decrypt_buffer ctx (AES_CBC_encrypt_buffer ctx buf (16 * n) iv) (16 * n) iv) = buf"
proof -
  let ?c = "cbc_enc (\<lambda>b. Cipher b ctx) n (iv_or_zero iv) buf"
  have c: "AES_CBC_encrypt_buffer ctx buf (16 * n) iv = ?c @ drop (16 * n) buf" "length ?c = 16 * n"
    using assms by (simp_all add: AES_CBC_encrypt_buffer_eq aes.length_cbc_enc)
  then have "cbc_dec (\<lambda>b. InvCipher b ctx) n (iv_or_zero iv) (?c @ drop (16 * n) buf) =
      cbc_dec (\<lambda>b. InvCipher b ctx) n (iv_or_zero iv) ?c"
    using cbc_dec_take [of n "?c @ drop (16 * n) buf"] by simp
  with assms c show ?thesis
    by (simp add: AES_CBC_decrypt_buffer_eq aes.cbc_dec_enc)
qed

theorem cbc_roundtrip_witness:
  "fst (AES_CBC_decrypt_buffer (zeros 176)
     (AES_CBC_encrypt_buffer (zeros 176) (zeros 40) (16 * 2) None) (16 * 2) None) = zeros 40"
  by (rule cbc_roundtrip) (simp_all add: iv_or_zero_def)

text \<open>C8: whatever the array held before, \<^verbatim>\<open>KeyExpansion\<close> leaves in it the 44 words of the
  FIPS 197 key schedule.\<close>

theorem key_expansion_is_fips197:
  assumes "16 \<le> length key" "length rk = 176"
  shows "KeyExpansion rk key = concat (map (fips_word key) [0..<44])"
  using assms by (rule KeyExpansion_fips)

theorem key_expansion_is_fips197_witness:
  "KeyExpansion (zeros 176) (zeros 16) = concat (map (fips_word (zeros 16)) [0..<44])"
  by (rule key_expansion_is_fips197) simp_all

text \<open>the two substitution tables are inverse permutations of the bytes, and the column
  mixing of decryption undoes that of encryption.\<close>

theorem tables_and_mixing_invert:
  "getSBoxInvert (getSBoxValue x) = x \<and> getSBoxValue (getSBoxInvert x) = x \<and>
   InvMixColumns (MixColumns [a0, a1, a2, a3, a4, a5, a6, a7, a8, a9, a10, a11, a12, a13, a14, a15]) =
     [a0, a1, a2, a3, a4, a5, a6, a7, a8, a9, a10, a11, a12, a13, a14, a15]"
  by simp_all

end
