(* ===== verification/AesCmac.thy ===== *)
theory AesCmac
  imports Aes
begin

text \<open>
  \<^verbatim>\<open>kern/cmd56/crypto/aes_cmac.c\<close>: AES-CMAC.  The code's routines are translated one by
  one; the specification is RFC 4493, with the subkeys computed on 128-bit words.  The code
  agrees with the RFC on messages of one or more complete blocks.  An incomplete last block behind a complete
  one is padded after the previous ciphertext block has been added, which gives another value unless the bytes the
  padding overwrites are zero; and the empty message gives sixteen zero bytes.
\<close>

section \<open>The code\<close>

definition AES_BLOCKSIZE :: nat where "AES_BLOCKSIZE = 16"

definition left_shift :: "bytes \<Rightarrow> bytes \<Rightarrow> bytes" where
  "left_shift dest src =
     fst (fold (\<lambda>i (dest, overflow).
            let dest = dest[i := push_bit 1 (src ! i)];
                dest = dest[i := dest ! i OR overflow]
            in (dest, drop_bit 7 (src ! i) AND 1)) (rev [0..<16]) (dest, 0))"

definition add_padding :: "bytes \<Rightarrow> nat \<Rightarrow> bytes" where
  "add_padding block len = (fold (\<lambda>i b. b[i := 0]) [len..<AES_BLOCKSIZE] block)[len := 0x80]"

definition block_xor_triple :: "bytes \<Rightarrow> bytes \<Rightarrow> bytes \<Rightarrow> bytes" where
  "block_xor_triple a b c = fold (\<lambda>i c. c[i := a ! i XOR b ! i]) [0..<AES_BLOCKSIZE] c"

text \<open>The output arrays are fully overwritten; the model starts them from zeros.\<close>

definition gen_subkey :: "bytes \<Rightarrow> bytes \<times> bytes" where
  "gen_subkey aes_ctx =
     (let L = AES_ECB_encrypt aes_ctx (zeros 16);
          subkey_1 = left_shift (zeros 16) L;
          subkey_1 = (if L ! 0 AND 0x80 \<noteq> 0 then subkey_1[15 := subkey_1 ! 15 XOR 0x87] else subkey_1);
          subkey_2 = left_shift (zeros 16) subkey_1;
          subkey_2 = (if subkey_1 ! 0 AND 0x80 \<noteq> 0 then subkey_2[15 := subkey_2 ! 15 XOR 0x87] else subkey_2)
      in (subkey_1, subkey_2))"

text \<open>
  The loop of \<^verbatim>\<open>AES_CMAC_buffer\<close>: \<open>input\<close> is the memory from the current block on,
  \<open>remaining\<close> is \<^verbatim>\<open>length - i\<close>, and the last argument is \<^verbatim>\<open>previous_block_ciphertext\<close>.
\<close>

function cmac_loop :: "bytes \<Rightarrow> bytes \<Rightarrow> bytes \<Rightarrow> bytes \<Rightarrow> nat \<Rightarrow> bytes \<Rightarrow> bytes" where
  "cmac_loop aes_ctx subkey_1 subkey_2 input remaining previous =
     (if remaining = 0 then previous
      else let temp = block_xor_triple input previous (zeros 16);
               temp = (if remaining = AES_BLOCKSIZE then block_xor_triple temp subkey_1 temp
                       else if remaining < AES_BLOCKSIZE
                            then (let temp = add_padding temp remaining
                                  in block_xor_triple temp subkey_2 temp)
                       else temp);
               temp = AES_ECB_encrypt aes_ctx temp
           in cmac_loop aes_ctx subkey_1 subkey_2 (drop AES_BLOCKSIZE input)
                (remaining - AES_BLOCKSIZE) temp)"
  by pat_completeness auto
termination
  by (relation "measure (\<lambda>(aes_ctx, subkey_1, subkey_2, input, remaining, previous). remaining)")
     (auto simp: AES_BLOCKSIZE_def)

declare cmac_loop.simps [simp del]

definition AES_CMAC_buffer :: "bytes \<Rightarrow> bytes \<Rightarrow> nat \<Rightarrow> bytes" where
  "AES_CMAC_buffer aes_ctx input len =
     (let (subkey_1, subkey_2) = gen_subkey aes_ctx
      in cmac_loop aes_ctx subkey_1 subkey_2 input len (zeros AES_BLOCKSIZE))"

definition AES_CMAC_buffer_key :: "bytes \<Rightarrow> bytes \<Rightarrow> nat \<Rightarrow> bytes" where
  "AES_CMAC_buffer_key key input len =
     (let ctx = AES_init_ctx (zeros AES_keyExpSize) key in AES_CMAC_buffer ctx input len)"

section \<open>RFC 4493\<close>

text \<open>Big-endian 128-bit words, the RFC's reading of a block.\<close>

definition be128 :: "bytes \<Rightarrow> 128 word" where
  "be128 b = le_word (rev b)"

definition of_be128 :: "128 word \<Rightarrow> bytes" where
  "of_be128 w = rev (le_bytes 16 w)"

definition rfc_double :: "128 word \<Rightarrow> 128 word" where
  "rfc_double w = (if bit w 127 then push_bit 1 w XOR 0x87 else push_bit 1 w)"

definition rfc_K1 :: "(block \<Rightarrow> block) \<Rightarrow> bytes" where
  "rfc_K1 E = of_be128 (rfc_double (be128 (E (zeros 16))))"

definition rfc_K2 :: "(block \<Rightarrow> block) \<Rightarrow> bytes" where
  "rfc_K2 E = of_be128 (rfc_double (rfc_double (be128 (E (zeros 16)))))"

text \<open>Step 4 of the RFC: the last block, complete or padded with \<open>10\<^sup>i\<close>.\<close>

definition rfc_last :: "(block \<Rightarrow> block) \<Rightarrow> bytes \<Rightarrow> bytes" where
  "rfc_last E m = (if length m = 16 then xor_bytes m (rfc_K1 E)
     else xor_bytes (m @ [0x80] @ zeros (15 - length m)) (rfc_K2 E))"

function rfc_mac :: "(block \<Rightarrow> block) \<Rightarrow> bytes \<Rightarrow> bytes \<Rightarrow> bytes" where
  "rfc_mac E x m =
     (if length m \<le> 16 then E (xor_bytes (rfc_last E m) x)
      else rfc_mac E (E (xor_bytes (take 16 m) x)) (drop 16 m))"
  by pat_completeness auto
termination
  by (relation "measure (\<lambda>(E, x, m). length m)") auto

declare rfc_mac.simps [simp del]

definition rfc4493_cmac :: "(block \<Rightarrow> block) \<Rightarrow> bytes \<Rightarrow> bytes" where
  "rfc4493_cmac E m = rfc_mac E (zeros 16) m"

section \<open>The code computes the RFC\<close>

lemma fold_xor_update:
  "n \<le> length c \<Longrightarrow> n \<le> length a \<Longrightarrow> n \<le> length b \<Longrightarrow>
   fold (\<lambda>i c. c[i := a ! i XOR b ! i]) [0..<n] c = xor_bytes (take n a) (take n b) @ drop n c"
proof (induction n)
  case 0
  then show ?case by (simp add: xor_bytes_def)
next
  case (Suc n)
  then have "drop n c = c ! n # drop (Suc n) c" by (simp add: Cons_nth_drop_Suc)
  with Suc show ?case
    by (simp add: list_update_append take_Suc_conv_app_nth xor_bytes_def)
qed

lemma block_xor_triple_eq:
  "length c = 16 \<Longrightarrow> 16 \<le> length a \<Longrightarrow> 16 \<le> length b \<Longrightarrow>
   block_xor_triple a b c = xor_bytes (take 16 a) (take 16 b)"
  by (simp add: block_xor_triple_def AES_BLOCKSIZE_def fold_xor_update)

text \<open>A message that ends inside the block: the bytes after its end do not matter once padded.\<close>

lemma length_block_xor_triple [simp, wf_lens]: "length (block_xor_triple a b c) = length c"
  by (simp add: block_xor_triple_def)

lemma nth_block_xor_triple:
  "length c = 16 \<Longrightarrow> i < 16 \<Longrightarrow> block_xor_triple a b c ! i = a ! i XOR b ! i"
  using nth_fold_update [of 16 0 c i "\<lambda>i. a ! i XOR b ! i"]
  by (simp add: block_xor_triple_def AES_BLOCKSIZE_def)

lemma length_add_padding [simp, wf_lens]: "length (add_padding b n) = length b"
  by (simp add: add_padding_def)

lemma add_padding_eq:
  assumes "length b = 16" "n < 16"
  shows "add_padding b n = take n b @ [0x80] @ zeros (15 - n)"
proof -
  have aux: "m \<le> length b \<Longrightarrow> fold (\<lambda>i b. b[i := 0]) [n..<m] b = take n b @ zeros (min m (length b) - n) @ drop (max n m) b" for m
  proof (induction m)
    case 0
    then show ?case by (simp add: zeros_def)
  next
    case (Suc m)
    show ?case
    proof (cases "n \<le> m")
      case True
      then have "drop m b = b ! m # drop (Suc m) b"
        using Suc.prems by (simp add: Cons_nth_drop_Suc)
      with True Suc show ?thesis
        by (simp add: list_update_append min_def max_def zeros_def Suc_diff_le replicate_append_same)
    next
      case False
      then have "fold (\<lambda>i b. b[i := 0]) [n..<Suc m] b = b" by (cases "n = Suc m") auto
      with False Suc.prems show ?thesis
        by (cases "n = Suc m") (auto simp: zeros_def max_def)
    qed
  qed
  from assms have z: "zeros (16 - n) = 0 # zeros (15 - n)"
    by (cases "16 - n") (auto simp: zeros_def)
  from aux [of 16] assms show ?thesis
    by (simp add: add_padding_def AES_BLOCKSIZE_def list_update_append z)
qed


lemma left_shift_fold:
  assumes "length src = 16" "length dest = 16"
  shows "left_shift dest src = map (\<lambda>i. push_bit 1 (src ! i) OR
           (if i = 15 then 0 else drop_bit 7 (src ! Suc i) AND 1)) [0..<16]"
  using assms
  by (elim length_16_conv) (simp add: left_shift_def upt_0_16 Let_def)

lemma length_left_shift [simp, wf_lens]:
  "length src = 16 \<Longrightarrow> length dest = 16 \<Longrightarrow> length (left_shift dest src) = 16"
  by (simp add: left_shift_fold)

lemma bit_be128: "length b = 16 \<Longrightarrow> k < 128 \<Longrightarrow> bit (be128 b) k \<longleftrightarrow> bit (b ! (15 - k div 8)) (k mod 8)"
  by (auto simp: be128_def bit_le_word rev_nth)

lemma be128_of_be128 [simp]: "be128 (of_be128 w) = w"
  by (simp add: be128_def of_be128_def)

lemma of_be128_be128 [simp]: "length b = 16 \<Longrightarrow> of_be128 (be128 b) = b"
  by (simp add: be128_def of_be128_def)

lemma length_of_be128 [simp, wf_lens]: "length (of_be128 w) = 16"
  by (simp add: of_be128_def)

lemma nth_left_shift:
  "length src = 16 \<Longrightarrow> length dest = 16 \<Longrightarrow> i < 16 \<Longrightarrow>
   left_shift dest src ! i = push_bit 1 (src ! i) OR (if i = 15 then 0 else drop_bit 7 (src ! Suc i) AND 1)"
  by (simp add: left_shift_fold)

lemma be128_left_shift:
  assumes "length src = 16" "length dest = 16"
  shows "be128 (left_shift dest src) = push_bit 1 (be128 src)"
proof (rule bit_word_eqI)
  fix k assume "k < LENGTH(128)"
  then have k: "k < 128" by simp
  define j t where "j = k div 8" and "t = k mod 8"
  then have kjt: "k = 8 * j + t" "t < 8" "j < 16" using k by auto
  have lhs: "bit (be128 (left_shift dest src)) k \<longleftrightarrow> bit (left_shift dest src ! (15 - j)) t"
    using assms k by (simp add: bit_be128 j_def t_def)
  have low: "bit (push_bit 1 (x :: u8)) t \<longleftrightarrow> 0 < t \<and> bit x (t - 1)" for x
    using kjt(2) unfolding bit_push_bit_iff by (auto dest: bit_imp_le_length)
  have carry: "bit (if j = 0 then 0 else drop_bit 7 (x :: u8) AND 1) t \<longleftrightarrow> j \<noteq> 0 \<and> t = 0 \<and> bit x 7" for x
    by (auto simp: bit_and_iff bit_drop_bit_eq bit_1_iff)
  have nth: "left_shift dest src ! (15 - j) =
      push_bit 1 (src ! (15 - j)) OR (if j = 0 then 0 else drop_bit 7 (src ! (16 - j)) AND 1)"
    using assms kjt(3) by (simp add: nth_left_shift Suc_diff_le [symmetric])
  have rhs: "bit (push_bit 1 (be128 src)) k \<longleftrightarrow> 0 < k \<and> bit (be128 src) (k - 1)"
    using k unfolding bit_push_bit_iff by auto
  show "bit (be128 (left_shift dest src)) k = bit (push_bit 1 (be128 src)) k"
  proof (cases "t = 0")
    case False
    then have "k - 1 = 8 * j + (t - 1)" "t - 1 < 8" using kjt by simp_all
    then have "(k - 1) div 8 = j" "(k - 1) mod 8 = t - 1" by simp_all
    with False kjt k assms show ?thesis
      unfolding lhs rhs nth bit_or_iff low carry by (simp add: bit_be128)
  next
    case True
    show ?thesis
    proof (cases j)
      case 0
      with True show ?thesis unfolding lhs rhs nth bit_or_iff low carry using kjt by simp
    next
      case (Suc p)
      with True kjt have "k - 1 = 8 * p + 7" by simp
      then have "(k - 1) div 8 = p" "(k - 1) mod 8 = 7" by auto
      with True Suc kjt k assms show ?thesis
        unfolding lhs rhs nth bit_or_iff low carry by (simp add: bit_be128)
    qed
  qed
qed

lemma be128_last_xor:
  assumes "length b = 16"
  shows "be128 (b[15 := b ! 15 XOR 0x87]) = be128 b XOR 0x87"
proof (rule bit_word_eqI)
  fix k assume "k < LENGTH(128)"
  then have k: "k < 128" by simp
  have *: "bit (0x87 :: 128 word) k \<longleftrightarrow> k \<in> {0, 1, 2, 7}"
    using k by (auto simp: bit_numeral_rec numeral_eq_Suc less_Suc_eq split: nat.splits)
  have **: "bit (0x87 :: u8) j \<longleftrightarrow> j \<in> {0, 1, 2, 7}" for j
    by (auto simp: bit_numeral_rec numeral_eq_Suc less_Suc_eq split: nat.splits)
  show "bit (be128 (b[15 := b ! 15 XOR 0x87])) k = bit (be128 b XOR 0x87) k"
  proof (cases "k < 8")
    case True
    with assms show ?thesis
      by (simp add: bit_be128 bit_xor_iff * **)
  next
    case False
    then have "0 < k div 8" "\<not> bit (0x87 :: 128 word) k" using * by auto
    with False assms k show ?thesis
      by (simp add: bit_be128 bit_xor_iff nth_list_update)
  qed
qed

lemma msb_be128: "length b = 16 \<Longrightarrow> bit (be128 b) 127 \<longleftrightarrow> b ! 0 AND 0x80 \<noteq> 0"
proof -
  assume "length b = 16"
  then have "bit (be128 b) 127 \<longleftrightarrow> bit (b ! 0) 7" by (simp add: bit_be128)
  also have "\<dots> \<longleftrightarrow> b ! 0 AND 0x80 \<noteq> 0"
    using and_exp_eq_0_iff_not_bit [of "b ! 0" 7] by simp
  finally show ?thesis .
qed

text \<open>One step of the subkey generation is doubling in GF(2^128).\<close>

lemma subkey_step:
  assumes "length b = 16"
  shows "(let s = left_shift (zeros 16) b
          in if b ! 0 AND 0x80 \<noteq> 0 then s[15 := s ! 15 XOR 0x87] else s) =
         of_be128 (rfc_double (be128 b))"
proof -
  let ?s = "left_shift (zeros 16) b"
  have l: "length ?s = 16" using assms by simp
  have "of_be128 (rfc_double (be128 b)) =
      of_be128 (be128 (if b ! 0 AND 0x80 \<noteq> 0 then ?s[15 := ?s ! 15 XOR 0x87] else ?s))"
    using assms l unfolding rfc_double_def msb_be128 [OF assms]
    by (simp only: be128_last_xor be128_left_shift length_zeros if_distrib [of be128])
  also have "\<dots> = (if b ! 0 AND 0x80 \<noteq> 0 then ?s[15 := ?s ! 15 XOR 0x87] else ?s)"
    using l by simp
  finally show ?thesis by (simp only: Let_def)
qed

lemma AES_ECB_encrypt_block [simp]: "length b = 16 \<Longrightarrow> AES_ECB_encrypt ctx b = Cipher b ctx"
  by (simp add: AES_ECB_encrypt_def get_field.simps put_field.simps)

lemma gen_subkey_eq:
  "gen_subkey ctx = (rfc_K1 (\<lambda>b. Cipher b ctx), rfc_K2 (\<lambda>b. Cipher b ctx))"
proof -
  let ?L = "Cipher (zeros 16) ctx"
  have 1: "(let s = left_shift (zeros 16) ?L
            in if ?L ! 0 AND 0x80 \<noteq> 0 then s[15 := s ! 15 XOR 0x87] else s) = rfc_K1 (\<lambda>b. Cipher b ctx)"
    unfolding rfc_K1_def by (rule subkey_step) simp
  have 2: "(let K1 = rfc_K1 (\<lambda>b. Cipher b ctx); s = left_shift (zeros 16) K1
            in if K1 ! 0 AND 0x80 \<noteq> 0 then s[15 := s ! 15 XOR 0x87] else s) = rfc_K2 (\<lambda>b. Cipher b ctx)"
    unfolding Let_def subkey_step [unfolded Let_def, of "rfc_K1 (\<lambda>b. Cipher b ctx)"] rfc_K1_def rfc_K2_def
    by (subst subkey_step [unfolded Let_def]) simp_all
  show ?thesis
    unfolding gen_subkey_def using 1 2 by (simp only: Let_def AES_ECB_encrypt_block length_zeros)
qed

lemma length_rfc_K1 [simp]: "length (rfc_K1 E) = 16" and length_rfc_K2 [simp]: "length (rfc_K2 E) = 16"
  by (simp_all add: rfc_K1_def rfc_K2_def)

lemma length_rfc_mac:
  "(\<And>b. length b = 16 \<Longrightarrow> length (E b) = 16) \<Longrightarrow> length x = 16 \<Longrightarrow> length (rfc_mac E x m) = 16"
proof (induction E x m rule: rfc_mac.induct)
  case (1 E x m)
  then show ?case by (subst rfc_mac.simps) (auto simp: rfc_last_def)
qed


lemma cmac_loop_full:
  assumes "16 < n" "length prev = 16" "16 \<le> length input"
  shows "cmac_loop ctx k1 k2 input n prev =
     cmac_loop ctx k1 k2 (drop 16 input) (n - 16) (Cipher (xor_bytes (take 16 input) prev) ctx)"
  using assms by (subst cmac_loop.simps) (simp add: AES_BLOCKSIZE_def block_xor_triple_eq Let_def)

lemma cmac_loop_last_full:
  assumes "length prev = 16" "16 \<le> length input" "length k1 = 16"
  shows "cmac_loop ctx k1 k2 input 16 prev =
     Cipher (xor_bytes (xor_bytes (take 16 input) prev) k1) ctx"
  using assms
  by (subst cmac_loop.simps)
     (simp add: AES_BLOCKSIZE_def block_xor_triple_eq Let_def cmac_loop.simps [of _ _ _ _ 0])

lemma take_block_xor_triple:
  "n \<le> 16 \<Longrightarrow> n \<le> length a \<Longrightarrow> n \<le> length b \<Longrightarrow>
   take n (block_xor_triple a b (zeros 16)) = xor_bytes (take n a) (take n b)"
  by (rule nth_equalityI) (auto simp: nth_block_xor_triple)

lemma cmac_loop_last_partial:
  assumes "length prev = 16" "0 < n" "n < 16" "n \<le> length input" "length k2 = 16"
  shows "cmac_loop ctx k1 k2 input n prev =
     Cipher (xor_bytes (xor_bytes (take n input) (take n prev) @ [0x80] @ zeros (15 - n)) k2) ctx"
  using assms
  by (subst cmac_loop.simps)
     (simp add: AES_BLOCKSIZE_def Let_def add_padding_eq take_block_xor_triple block_xor_triple_eq
       cmac_loop.simps [of _ _ _ _ 0])

lemma cmac_loop_rfc_mac:
  assumes "0 < n" "n mod 16 = 0" "n \<le> length input" "length prev = 16"
  shows "cmac_loop ctx (rfc_K1 (\<lambda>b. Cipher b ctx)) k2 input n prev =
         rfc_mac (\<lambda>b. Cipher b ctx) prev (take n input)"
  using assms
proof (induction n arbitrary: input prev rule: less_induct)
  case (less n)
  show ?case
  proof (cases "n = 16")
    case True
    with less.prems show ?thesis
      by (subst rfc_mac.simps)
         (simp add: cmac_loop_last_full rfc_last_def xor_bytes_assoc xor_bytes_commute [of prev])
  next
    case False
    with less.prems have n: "16 < n" "(n - 16) mod 16 = 0" by (auto simp: le_mod_geq)
    then have "cmac_loop ctx (rfc_K1 (\<lambda>b. Cipher b ctx)) k2 (drop 16 input) (n - 16)
        (Cipher (xor_bytes (take 16 input) prev) ctx) =
      rfc_mac (\<lambda>b. Cipher b ctx) (Cipher (xor_bytes (take 16 input) prev) ctx) (take (n - 16) (drop 16 input))"
      using less.prems by (intro less.IH) auto
    with n less.prems show ?thesis
      by (subst rfc_mac.simps) (simp add: cmac_loop_full drop_take min_def)
  qed
qed

section \<open>Incomplete last blocks\<close>

text \<open>
  \<^verbatim>\<open>add_padding\<close> runs after the previous ciphertext block has been added, so it overwrites
  the part of the sum behind the end of the message.  RFC 4493 pads first.  The two
  differ as soon as there is a previous block whose tail is not zero.
\<close>

primrec cbc_chain :: "(block \<Rightarrow> block) \<Rightarrow> nat \<Rightarrow> bytes \<Rightarrow> bytes \<Rightarrow> bytes" where
  "cbc_chain E 0 x m = x"
| "cbc_chain E (Suc n) x m = cbc_chain E n (E (xor_bytes (take 16 m) x)) (drop 16 m)"

lemma length_cbc_chain:
  "length x = 16 \<Longrightarrow> 16 * n \<le> length m \<Longrightarrow> length (cbc_chain (\<lambda>b. Cipher b ctx) n x m) = 16"
  by (induction n arbitrary: x m) auto

lemma cmac_loop_chain:
  assumes "0 < r" "16 * n + r \<le> length input" "length x = 16"
  shows "cmac_loop ctx k1 k2 input (16 * n + r) x =
     cmac_loop ctx k1 k2 (drop (16 * n) input) r (cbc_chain (\<lambda>b. Cipher b ctx) n x input)"
  using assms
proof (induction n arbitrary: input x)
  case 0
  then show ?case by simp
next
  case (Suc n)
  then show ?case
    by (simp add: cmac_loop_full add.commute)
qed

lemma rfc_mac_chain:
  assumes "0 < r" "16 * n + r = length m" "length x = 16"
  shows "rfc_mac (\<lambda>b. Cipher b ctx) x m =
     rfc_mac (\<lambda>b. Cipher b ctx) (cbc_chain (\<lambda>b. Cipher b ctx) n x m) (drop (16 * n) m)"
  using assms
proof (induction n arbitrary: m x)
  case 0
  then show ?case by simp
next
  case (Suc n)
  then show ?case
    by (subst rfc_mac.simps) (simp add: add.commute)
qed

lemma cbc_chain_take:
  "16 * n \<le> k \<Longrightarrow> cbc_chain E n x (take k m) = cbc_chain E n x m"
  by (induction n arbitrary: x m k) (auto simp: min_def drop_take)

lemma xor_bytes_eq_left_iff:
  "length p = length x \<Longrightarrow> p = xor_bytes p x \<longleftrightarrow> x = zeros (length x)"
proof -
  assume l: "length p = length x"
  have w: "a = a XOR b \<longleftrightarrow> b = 0" for a b :: u8
    by (metis xor_left_cancel xor.right_neutral)
  have "p = xor_bytes p x \<longleftrightarrow> (\<forall>i<length x. p ! i = p ! i XOR x ! i)"
    using l by (auto simp: list_eq_iff_nth_eq)
  also have "\<dots> \<longleftrightarrow> (\<forall>i<length x. x ! i = 0)" unfolding w ..
  also have "\<dots> \<longleftrightarrow> x = zeros (length x)" by (auto simp: list_eq_iff_nth_eq)
  finally show ?thesis .
qed

lemma partial_block_eq_iff:
  assumes "length b = r" "r < 16" "length prev = 16" "length k2 = 16"
  shows "Cipher (xor_bytes (xor_bytes b (take r prev) @ [0x80] @ zeros (15 - r)) k2) ctx =
         Cipher (xor_bytes (xor_bytes (b @ [0x80] @ zeros (15 - r)) k2) prev) ctx
         \<longleftrightarrow> drop r prev = zeros (16 - r)"
proof -
  let ?p = "[0x80] @ zeros (15 - r)"
  have lp: "length ?p = 16 - r" using assms by simp
  have split: "xor_bytes (b @ ?p) prev = xor_bytes b (take r prev) @ xor_bytes ?p (drop r prev)"
    using assms by (subst append_take_drop_id [of r prev, symmetric])
      (simp only: xor_bytes_def zip_append length_take min.absorb1 less_imp_le map_append)
  have "xor_bytes (xor_bytes (b @ ?p) k2) prev = xor_bytes (xor_bytes (b @ ?p) prev) k2"
    by (simp only: xor_bytes_assoc xor_bytes_commute [of k2])
  moreover have "length (xor_bytes b (take r prev) @ ?p) = 16" using assms by simp
  ultimately have "?thesis \<longleftrightarrow> (xor_bytes (xor_bytes b (take r prev) @ ?p) k2 =
      xor_bytes (xor_bytes (b @ ?p) prev) k2 \<longleftrightarrow> drop r prev = zeros (16 - r))"
    using assms by (simp add: inj_on_eq_iff [OF inj_on_Cipher])
  moreover have "xor_bytes u k2 = xor_bytes v k2 \<longleftrightarrow> u = v" if "length u = 16" "length v = 16" for u v
    using that assms(4) xor_bytes_cancel by (metis order_refl)
  moreover have "?p = xor_bytes ?p (drop r prev) \<longleftrightarrow> drop r prev = zeros (16 - r)"
    using xor_bytes_eq_left_iff [of ?p "drop r prev"] lp assms by simp
  ultimately show ?thesis using assms split by simp
qed

lemma length_AES_CMAC_buffer [simp, wf_lens]: "length (AES_CMAC_buffer ctx input len) = 16"
proof -
  have "length prev = 16 \<Longrightarrow> length (cmac_loop ctx k1 k2 input n prev) = 16" for k1 k2 n prev
  proof (induction n arbitrary: input prev rule: less_induct)
    case (less n)
    show ?case
    proof (cases "n = 0")
      case True
      with less.prems show ?thesis by (simp add: cmac_loop.simps [of _ _ _ _ 0])
    next
      case False
      with less show ?thesis by (subst cmac_loop.simps) (simp add: AES_BLOCKSIZE_def Let_def)
    qed
  qed
  then show ?thesis by (simp add: AES_CMAC_buffer_def AES_BLOCKSIZE_def split: prod.splits)
qed

lemma AES_CMAC_buffer_full_blocks:
  assumes "0 < len" "len mod 16 = 0" "len \<le> length input"
  shows "AES_CMAC_buffer ctx input len = rfc4493_cmac (\<lambda>b. Cipher b ctx) (take len input)"
  using assms
  by (simp add: AES_CMAC_buffer_def gen_subkey_eq rfc4493_cmac_def AES_BLOCKSIZE_def cmac_loop_rfc_mac)

section \<open>Properties\<close>

text \<open>C7: \<^verbatim>\<open>AES_CMAC_buffer\<close> is the AES-CMAC of RFC 4493 on every message of complete blocks,
  the only lengths LibCmd56 uses.\<close>

theorem cmac_is_rfc4493:
  assumes "0 < len" "len mod 16 = 0" "len \<le> length input"
  shows "AES_CMAC_buffer ctx input len = rfc4493_cmac (\<lambda>b. Cipher b ctx) (take len input)"
  using assms by (rule AES_CMAC_buffer_full_blocks)

theorem cmac_is_rfc4493_witness:
  "AES_CMAC_buffer (zeros 176) (zeros 48) 32 = rfc4493_cmac (\<lambda>b. Cipher b (zeros 176)) (take 32 (zeros 48))"
  by (rule cmac_is_rfc4493) simp_all

text \<open>on a message that ends inside its last block, after at least one complete block,
  the code's MAC equals the RFC's exactly when the bytes of the previous ciphertext block
  that the padding overwrites are all zero; otherwise it is another value.\<close>

theorem cmac_partial_last_block:
  assumes "0 < n" "0 < r" "r < 16" "16 * n + r \<le> length input"
  shows "AES_CMAC_buffer ctx input (16 * n + r) =
      rfc4493_cmac (\<lambda>b. Cipher b ctx) (take (16 * n + r) input) \<longleftrightarrow>
    drop r (cbc_chain (\<lambda>b. Cipher b ctx) n (zeros 16) input) = zeros (16 - r)"
proof -
  let ?E = "\<lambda>b. Cipher b ctx" and ?m = "take (16 * n + r) input"
  let ?prev = "cbc_chain ?E n (zeros 16) input" and ?b = "take r (drop (16 * n) input)"
  have prev: "length ?prev = 16" "length ?b = r" using assms by (simp_all add: length_cbc_chain)
  have code: "AES_CMAC_buffer ctx input (16 * n + r) =
      Cipher (xor_bytes (xor_bytes ?b (take r ?prev) @ [0x80] @ zeros (15 - r)) (rfc_K2 ?E)) ctx"
    using assms prev by (simp add: AES_CMAC_buffer_def gen_subkey_eq AES_BLOCKSIZE_def
        cmac_loop_chain cmac_loop_last_partial)
  have "rfc4493_cmac ?E ?m = rfc_mac ?E ?prev ?b"
    using assms by (simp add: rfc4493_cmac_def rfc_mac_chain [where n = n and r = r]
        cbc_chain_take drop_take)
  also have "\<dots> = Cipher (xor_bytes (xor_bytes (?b @ [0x80] @ zeros (15 - r)) (rfc_K2 ?E)) ?prev) ctx"
    using assms prev by (subst rfc_mac.simps) (simp add: rfc_last_def)
  finally show ?thesis
    unfolding code using assms prev by (simp only: partial_block_eq_iff length_rfc_K2)
qed

theorem cmac_partial_last_block_witness:
  "AES_CMAC_buffer (zeros 176) (zeros 32) (16 * 1 + 1) =
      rfc4493_cmac (\<lambda>b. Cipher b (zeros 176)) (take (16 * 1 + 1) (zeros 32)) \<longleftrightarrow>
    drop 1 (cbc_chain (\<lambda>b. Cipher b (zeros 176)) 1 (zeros 16) (zeros 32)) = zeros (16 - 1)"
  by (rule cmac_partial_last_block) simp_all

text \<open>The MAC of the empty message is sixteen zero bytes, whatever the key: the loop
  never runs, where RFC 4493 processes one padded block.\<close>

lemma cmac_empty_message: "AES_CMAC_buffer ctx input 0 = zeros 16"
  by (simp add: AES_CMAC_buffer_def gen_subkey_eq AES_BLOCKSIZE_def cmac_loop.simps [of _ _ _ _ 0])


end
