(* ===== verification/Cmd56.thy ===== *)
theory Cmd56
  imports AesCmac
begin

text \<open>
  \<^verbatim>\<open>kern/cmd56/cmd56.h\<close> and \<^verbatim>\<open>cmd56.c\<close>: the 0x200-byte request and response packets of the
  CMD56 protocol, the layout of the command payloads inside their \<^verbatim>\<open>data\<close> arrays, and the
  three routines that start a packet or report an error.  A packet is a record with the
  fields of the packed structure; \<open>request_bytes\<close> and \<open>request_of_bytes\<close> are the pointer
  casts between the structure and the byte buffer on the wire.
\<close>

section \<open>Constants\<close>

definition CMD56_MAGIC :: bytes where
  "CMD56_MAGIC = [
     0xDD, 0x10, 0x25, 0x44, 0x15, 0x23, 0xFD, 0xC0, 0xF9, 0xE9, 0x15, 0x26, 0xDC, 0x2A, 0xE0, 0x84,
     0xA9, 0x03, 0xA2, 0x97, 0xD4, 0xBB, 0xF8, 0x52, 0xD3, 0xD4, 0x94, 0x2C, 0x89, 0x03, 0xCC, 0x77]"

definition GC_LOCKED :: u16 where "GC_LOCKED = 0xFF"
definition GC_UNLOCKED :: u16 where "GC_UNLOCKED = 0x00"

definition CMD_START :: u8 where "CMD_START = 0xC4"
definition CMD_GET_STATUS :: u8 where "CMD_GET_STATUS = 0xC2"
definition CMD_GENERATE_SESSION_KEY :: u8 where "CMD_GENERATE_SESSION_KEY = 0xA1"
definition CMD_EXCHANGE_SHARED_RANDOM :: u8 where "CMD_EXCHANGE_SHARED_RANDOM = 0xA2"
definition CMD_EXCHANGE_SECONDARY_KEY_AND_VERIFY_SESSION :: u8 where
  "CMD_EXCHANGE_SECONDARY_KEY_AND_VERIFY_SESSION = 0xA3"
definition CMD_VERIFY_SECONDARY_KEY :: u8 where "CMD_VERIFY_SECONDARY_KEY = 0xA4"
definition CMD_GET_P18_KEY_AND_CMAC_SIGNATURE :: u8 where "CMD_GET_P18_KEY_AND_CMAC_SIGNATURE = 0xB1"
definition CMD_GET_P20_KEY_AND_CMAC_SIGNATURE :: u8 where "CMD_GET_P20_KEY_AND_CMAC_SIGNATURE = 0xC1"

lemmas cmd_defs = CMD_START_def CMD_GET_STATUS_def CMD_GENERATE_SESSION_KEY_def
  CMD_EXCHANGE_SHARED_RANDOM_def CMD_EXCHANGE_SECONDARY_KEY_AND_VERIFY_SESSION_def
  CMD_VERIFY_SECONDARY_KEY_def CMD_GET_P18_KEY_AND_CMAC_SIGNATURE_def
  CMD_GET_P20_KEY_AND_CMAC_SIGNATURE_def

section \<open>Structures\<close>

record cmd56_keys =
  packet20_key :: bytes  \<comment> \<open>0x20 bytes\<close>
  packet18_key :: bytes  \<comment> \<open>0x20 bytes\<close>

record shared_random =
  vita_part :: bytes  \<comment> \<open>0x10 bytes\<close>
  cart_part :: bytes  \<comment> \<open>0x10 bytes\<close>

definition keys_bytes :: "cmd56_keys \<Rightarrow> bytes" where
  "keys_bytes k = packet20_key k @ packet18_key k"

definition shared_random_bytes :: "shared_random \<Rightarrow> bytes" where
  "shared_random_bytes r = vita_part r @ cart_part r"

definition shared_random_of_bytes :: "bytes \<Rightarrow> shared_random" where
  "shared_random_of_bytes b = \<lparr>vita_part = take 0x10 b, cart_part = take 0x10 (drop 0x10 b)\<rparr>"

record cmd56_request =
  rq_magic :: bytes                  \<comment> \<open>0x20 bytes\<close>
  rq_expected_response_code :: u32
  rq_request_size :: u32
  rq_expected_response_size :: u32
  rq_command :: u8
  rq_unknown_host_value :: u8
  rq_additional_data_size :: u8
  rq_data :: bytes                   \<comment> \<open>0x1d1 bytes\<close>

text \<open>
  \<open>rs_overrun\<close> is not a field of the structure: it counts the bytes that were
  written behind the end of the response.  Every write into \<open>data\<close> keeps it up to date:
  \<open>cmd56_response_error\<close> here, and \<open>put_resp\<close> and \<open>encrypt_resp\<close>, through which the handlers
  of the card write.
\<close>

record cmd56_response =
  rs_response_code :: u32
  rs_additional_data_size :: u32
  rs_response_size :: u16
  rs_error_code :: u8
  rs_data :: bytes                   \<comment> \<open>0x1f5 bytes\<close>
  rs_overrun :: nat

definition sizeof_request :: nat where "sizeof_request = 0x200"
definition sizeof_response :: nat where "sizeof_response = 0x200"
definition sizeof_request_data :: nat where "sizeof_request_data = 0x1d1"
definition sizeof_response_data :: nat where "sizeof_response_data = 0x1f5"

lemmas packet_sizes = sizeof_request_def sizeof_response_def sizeof_request_data_def
  sizeof_response_data_def

definition wf_request :: "cmd56_request \<Rightarrow> bool" where
  "wf_request r \<longleftrightarrow> length (rq_magic r) = 0x20 \<and> length (rq_data r) = sizeof_request_data"

definition wf_response :: "cmd56_response \<Rightarrow> bool" where
  "wf_response r \<longleftrightarrow> length (rs_data r) = sizeof_response_data"

definition request_bytes :: "cmd56_request \<Rightarrow> bytes" where
  "request_bytes r = rq_magic r @ le_bytes 4 (rq_expected_response_code r) @
     le_bytes 4 (rq_request_size r) @ le_bytes 4 (rq_expected_response_size r) @
     [rq_command r, rq_unknown_host_value r, rq_additional_data_size r] @ rq_data r"

definition request_of_bytes :: "bytes \<Rightarrow> cmd56_request" where
  "request_of_bytes b = \<lparr>
     rq_magic = get_field (0, 0x20) b,
     rq_expected_response_code = le_word (get_field (0x20, 4) b),
     rq_request_size = le_word (get_field (0x24, 4) b),
     rq_expected_response_size = le_word (get_field (0x28, 4) b),
     rq_command = b ! 0x2c,
     rq_unknown_host_value = b ! 0x2d,
     rq_additional_data_size = b ! 0x2e,
     rq_data = get_field (0x2f, sizeof_request_data) b\<rparr>"

definition response_bytes :: "cmd56_response \<Rightarrow> bytes" where
  "response_bytes r = le_bytes 4 (rs_response_code r) @ le_bytes 4 (rs_additional_data_size r) @
     le_bytes 2 (rs_response_size r) @ [rs_error_code r] @ rs_data r"

definition response_of_bytes :: "bytes \<Rightarrow> cmd56_response" where
  "response_of_bytes b = \<lparr>
     rs_response_code = le_word (get_field (0, 4) b),
     rs_additional_data_size = le_word (get_field (4, 4) b),
     rs_response_size = le_word (get_field (8, 2) b),
     rs_error_code = b ! 0xa,
     rs_data = get_field (0xb, sizeof_response_data) b,
     rs_overrun = 0\<rparr>"

section \<open>Payloads: fields inside \<open>data\<close>\<close>

text \<open>Requests.\<close>

definition esr_req_key_id :: field where [struct_fields]: "esr_req_key_id = (0, 2)"
definition esr_req_shared_rand_vita :: field where [struct_fields]: "esr_req_shared_rand_vita = (2, 0x10)"
definition esk_req_secondary_key :: field where [struct_fields]: "esk_req_secondary_key = (0, 0x10)"
definition esk_req_challenge_bytes :: field where [struct_fields]: "esk_req_challenge_bytes = (0x10, 0x20)"
definition vsk_req_challenge_bytes :: field where [struct_fields]: "vsk_req_challenge_bytes = (0, 0x10)"
definition p18_req_challenge_bytes :: field where [struct_fields]: "p18_req_challenge_bytes = (0, 0x10)"
definition p18_req_pad0 :: field where [struct_fields]: "p18_req_pad0 = (0x10, 0xF)"
definition p18_req_type :: field where [struct_fields]: "p18_req_type = (0x1F, 1)"
definition p18_req_cmac_signature :: field where [struct_fields]: "p18_req_cmac_signature = (0x20, 0x10)"
definition p20_req_challenge_bytes :: field where [struct_fields]: "p20_req_challenge_bytes = (0, 0x10)"

definition sizeof_esr_req :: nat where [struct_fields]: "sizeof_esr_req = 0x12"
definition sizeof_esk_req :: nat where [struct_fields]: "sizeof_esk_req = 0x30"
definition sizeof_vsk_req :: nat where [struct_fields]: "sizeof_vsk_req = 0x10"
definition sizeof_p18_req :: nat where [struct_fields]: "sizeof_p18_req = 0x30"
definition sizeof_p20_req :: nat where [struct_fields]: "sizeof_p20_req = 0x10"

text \<open>Responses.\<close>

definition start_resp_start :: field where [struct_fields]: "start_resp_start = (0, 0x10)"
definition status_resp_status :: field where [struct_fields]: "status_resp_status = (0, 2)"
definition gsk_resp_unk0 :: field where [struct_fields]: "gsk_resp_unk0 = (0, 2)"
definition gsk_resp_key_id :: field where [struct_fields]: "gsk_resp_key_id = (2, 2)"
definition gsk_resp_unk1 :: field where [struct_fields]: "gsk_resp_unk1 = (4, 2)"
definition gsk_resp_unk2 :: field where [struct_fields]: "gsk_resp_unk2 = (6, 2)"
definition gsk_resp_cart_random :: field where [struct_fields]: "gsk_resp_cart_random = (8, 0x20)"
definition esr_resp_shared_rand_cart :: field where [struct_fields]: "esr_resp_shared_rand_cart = (0, 0x10)"
definition esr_resp_shared_rand_vita :: field where [struct_fields]: "esr_resp_shared_rand_vita = (0x10, 0x10)"
definition vsk_resp_challenge_bytes :: field where [struct_fields]: "vsk_resp_challenge_bytes = (8, 0x10)"
definition vsk_resp_cart_random :: field where [struct_fields]: "vsk_resp_cart_random = (0x18, 0x20)"
definition p18_resp_challenge_bytes :: field where [struct_fields]: "p18_resp_challenge_bytes = (0, 0x10)"
definition p18_resp_p18_key :: field where [struct_fields]: "p18_resp_p18_key = (0x10, 0x20)"
definition p18_resp_cmac_signature :: field where [struct_fields]: "p18_resp_cmac_signature = (0x30, 0x10)"
definition p20_resp_challenge_bytes :: field where [struct_fields]: "p20_resp_challenge_bytes = (8, 0x10)"
definition p20_resp_p20_key :: field where [struct_fields]: "p20_resp_p20_key = (0x18, 0x20)"
definition p20_resp_cmac_signature :: field where [struct_fields]: "p20_resp_cmac_signature = (0x40, 0x10)"

definition sizeof_start_resp :: nat where [struct_fields]: "sizeof_start_resp = 0x10"
definition sizeof_status_resp :: nat where [struct_fields]: "sizeof_status_resp = 2"
definition sizeof_gsk_resp :: nat where [struct_fields]: "sizeof_gsk_resp = 0x28"
definition sizeof_esr_resp :: nat where [struct_fields]: "sizeof_esr_resp = 0x20"
definition sizeof_vsk_resp :: nat where [struct_fields]: "sizeof_vsk_resp = 0x40"
definition sizeof_p18_resp :: nat where [struct_fields]: "sizeof_p18_resp = 0x40"
definition sizeof_p20_resp :: nat where [struct_fields]: "sizeof_p20_resp = 0x50"

text \<open>The macros \<^verbatim>\<open>calc_size\<close> and \<^verbatim>\<open>make_int24\<close> (bytes promoted to \<^verbatim>\<open>int\<close>).\<close>

definition calc_size :: "nat \<Rightarrow> nat" where
  "calc_size sz = sz + 0x3"

definition make_int24 :: "u8 \<Rightarrow> u8 \<Rightarrow> u8 \<Rightarrow> u32" where
  "make_int24 b1 b2 b3 = push_bit 16 (ucast b3) OR push_bit 8 (ucast b2) OR push_bit 0 (ucast b1)"

section \<open>Starting and failing packets\<close>

definition zero_request :: cmd56_request where
  "zero_request = \<lparr>rq_magic = zeros 0x20, rq_expected_response_code = 0, rq_request_size = 0,
     rq_expected_response_size = 0, rq_command = 0, rq_unknown_host_value = 0,
     rq_additional_data_size = 0, rq_data = zeros sizeof_request_data\<rparr>"

definition zero_response :: cmd56_response where
  "zero_response = \<lparr>rs_response_code = 0, rs_additional_data_size = 0, rs_response_size = 0,
     rs_error_code = 0, rs_data = zeros sizeof_response_data, rs_overrun = 0\<rparr>"

definition cmd56_request_start ::
  "cmd56_request \<Rightarrow> u8 \<Rightarrow> u8 \<Rightarrow> u32 \<Rightarrow> u32 \<Rightarrow> cmd56_request" where
  "cmd56_request_start request cmd additional_data_size expected_response_size expected_response_code =
     (let request = zero_request;
          request = request\<lparr>rq_magic := CMD56_MAGIC\<rparr>;
          request = request\<lparr>rq_command := cmd\<rparr>;
          request = request\<lparr>rq_expected_response_code := expected_response_code\<rparr>;
          request = request\<lparr>rq_expected_response_size := expected_response_size\<rparr>;
          request = request\<lparr>rq_additional_data_size := additional_data_size\<rparr>
      in request\<lparr>rq_request_size := ucast additional_data_size\<rparr>)"

definition cmd56_response_start :: "cmd56_request \<Rightarrow> cmd56_response \<Rightarrow> cmd56_response" where
  "cmd56_response_start request_buffer response =
     (let response = zero_response;
          response = response\<lparr>rs_response_code := rq_expected_response_code request_buffer\<rparr>;
          response = response\<lparr>rs_additional_data_size := 0\<rparr>;
          response = response\<lparr>rs_response_size :=
            endian_swap (if rq_expected_response_size request_buffer > of_nat sizeof_response
                         then of_nat sizeof_response
                         else ucast (rq_expected_response_size request_buffer))\<rparr>
      in response\<lparr>rs_error_code := 0\<rparr>)"

text \<open>
  \<^verbatim>\<open>memset(response->data, 0xFF, size)\<close> fills the first \<open>size\<close> bytes of \<open>data\<close> and, when
  \<open>size\<close> exceeds the 0x1f5 bytes of the array, the memory behind the response.
\<close>

definition cmd56_response_error :: "cmd56_response \<Rightarrow> u8 \<Rightarrow> cmd56_response" where
  "cmd56_response_error response error =
     (let response = response\<lparr>rs_error_code := error\<rparr>;
          response = response\<lparr>rs_response_code := ucast error\<rparr>;
          sz = unat (endian_swap (rs_response_size response))
      in response\<lparr>rs_data := impl_memset (rs_data response) 0 0xFF (min sz sizeof_response_data),
                  rs_overrun := max (rs_overrun response) (sz - sizeof_response_data)\<rparr>)"

section \<open>Well-formed packets and the wire format\<close>

lemma length_CMD56_MAGIC [simp, wf_lens]: "length CMD56_MAGIC = 0x20"
  by (simp add: CMD56_MAGIC_def)

lemma wf_zero_request [simp]: "wf_request zero_request"
  by (simp add: wf_request_def zero_request_def)

lemma wf_request_start [simp]: "wf_request (cmd56_request_start r c a s e)"
  by (simp add: wf_request_def cmd56_request_start_def zero_request_def)

lemma wf_zero_response [simp]: "wf_response zero_response"
  by (simp add: wf_response_def zero_response_def)

lemma wf_response_start [simp]: "wf_response (cmd56_response_start q r)"
  by (simp add: wf_response_def cmd56_response_start_def zero_response_def)

lemma length_impl_memset [simp, wf_lens]: "length (impl_memset b off c n) = length b"
  by (simp add: impl_memset_def)

lemma wf_response_error [simp]: "wf_response r \<Longrightarrow> wf_response (cmd56_response_error r e)"
  by (simp add: wf_response_def cmd56_response_error_def Let_def)

lemma length_request_bytes [simp, wf_lens]: "wf_request r \<Longrightarrow> length (request_bytes r) = sizeof_request"
  by (simp add: request_bytes_def wf_request_def packet_sizes)

lemma length_response_bytes [simp, wf_lens]: "wf_response r \<Longrightarrow> length (response_bytes r) = sizeof_response"
  by (simp add: response_bytes_def wf_response_def packet_sizes)

lemma wf_request_of_bytes [simp]: "length b = sizeof_request \<Longrightarrow> wf_request (request_of_bytes b)"
  by (simp add: wf_request_def request_of_bytes_def packet_sizes)

lemma wf_response_of_bytes [simp]: "length b = sizeof_response \<Longrightarrow> wf_response (response_of_bytes b)"
  by (simp add: wf_response_def response_of_bytes_def packet_sizes)


lemma request_of_request_bytes:
  assumes "wf_request r"
  shows "request_of_bytes (request_bytes r) = r"
proof (cases r)
  case (fields m c s e cmd u a d)
  with assms have "length m = 0x20" "length d = sizeof_request_data" by (simp_all add: wf_request_def)
  with fields show ?thesis
    by (simp add: request_of_bytes_def request_bytes_def get_field.simps nth_append)
qed

lemma request_bytes_of_bytes:
  assumes "length b = sizeof_request"
  shows "request_bytes (request_of_bytes b) = b"
proof -
  have app: "get_field (i, l) b @ get_field (i + l, m) b = get_field (i, l + m) b" for i l m
    by (rule get_field_append)
  have "[b ! 44, b ! 45, b ! 46] = [b ! 44] @ [b ! 45] @ [b ! 46]" by simp
  also have "\<dots> = get_field (44, 1) b @ get_field (45, 1) b @ get_field (46, 1) b"
    using assms by (simp only: get_field_byte packet_sizes)
  also have "\<dots> = get_field (44, 3) b"
    using app [of 45 1 1] app [of 44 1 2] by (simp add: numeral_eq_Suc)
  finally have "[b ! 44, b ! 45, b ! 46] = get_field (44, 3) b" .
  then show ?thesis
    using assms app [of 44 3 465] app [of 40 4 468] app [of 36 4 472]
      app [of 32 4 476] app [of 0 32 480]
    by (simp add: request_bytes_def request_of_bytes_def packet_sizes get_field_all)
qed

lemma response_of_response_bytes:
  assumes "wf_response r" "rs_overrun r = 0"
  shows "response_of_bytes (response_bytes r) = r"
proof (cases r)
  case (fields c a s e d n)
  with assms have "length d = sizeof_response_data" "n = 0" by (simp_all add: wf_response_def)
  with fields show ?thesis
    by (simp add: response_of_bytes_def response_bytes_def get_field.simps nth_append)
qed

lemma response_bytes_of_bytes:
  assumes "length b = sizeof_response"
  shows "response_bytes (response_of_bytes b) = b"
proof -
  have app: "get_field (i, l) b @ get_field (i + l, m) b = get_field (i, l + m) b" for i l m
    by (rule get_field_append)
  show ?thesis
    using assms app [of 10 1 501] app [of 8 2 502] app [of 4 4 504] app [of 0 4 508]
      get_field_byte [of 10 b]
    by (simp add: response_bytes_def response_of_bytes_def packet_sizes get_field_all)
qed

text \<open>
  What a transport of packets relies on: casting a well-formed structure to its bytes and
  back is the identity, in both directions.
\<close>

locale packet_layout =
  fixes to_bytes :: "'a \<Rightarrow> bytes" and of_bytes :: "bytes \<Rightarrow> 'a" and wf :: "'a \<Rightarrow> bool"
    and total :: nat
  assumes of_to: "wf x \<Longrightarrow> of_bytes (to_bytes x) = x"
    and to_of: "length b = total \<Longrightarrow> to_bytes (of_bytes b) = b"
    and length_to: "wf x \<Longrightarrow> length (to_bytes x) = total"
    and wf_of: "length b = total \<Longrightarrow> wf (of_bytes b)"
begin

lemma to_bytes_inject: "wf x \<Longrightarrow> wf y \<Longrightarrow> to_bytes x = to_bytes y \<Longrightarrow> x = y"
  using of_to by metis

lemma bij_of_bytes: "bij_betw of_bytes {b. length b = total} {x. wf x}"
  by (rule bij_betw_byWitness [where f' = to_bytes]) (auto simp: of_to to_of length_to wf_of)

end

interpretation request: packet_layout request_bytes request_of_bytes wf_request sizeof_request
  by unfold_locales (simp_all add: request_of_request_bytes request_bytes_of_bytes)

interpretation response: packet_layout response_bytes response_of_bytes
    "\<lambda>r. wf_response r \<and> rs_overrun r = 0" sizeof_response
  by unfold_locales
     (simp_all add: response_of_response_bytes response_bytes_of_bytes, simp add: response_of_bytes_def)

section \<open>The size field of a response\<close>

lemma response_size_start:
  "unat (endian_swap (rs_response_size (cmd56_response_start q r))) =
     min (unat (rq_expected_response_size q)) 0x200"
proof (cases "rq_expected_response_size q > 0x200")
  case True
  then have "unat (0x200 :: u32) < unat (rq_expected_response_size q)"
    by (simp only: word_less_nat_alt)
  with True show ?thesis
    by (simp add: cmd56_response_start_def zero_response_def packet_sizes)
next
  case False
  then have "unat (rq_expected_response_size q) \<le> unat (0x200 :: u32)"
    by (simp only: word_le_nat_alt not_less)
  with False show ?thesis
    by (simp add: cmd56_response_start_def zero_response_def packet_sizes unsigned_ucast_eq unsigned_take_bit_eq take_bit_nat_eq_self)
qed

section \<open>Properties\<close>

text \<open>the wire format.  Reading 0x200 bytes as a packet and writing the packet gives the
  bytes back, for requests and for responses.\<close>

theorem packet_wire_format:
  assumes "length b = 0x200"
  shows "request_bytes (request_of_bytes b) = b \<and> response_bytes (response_of_bytes b) = b"
  using assms request.to_of [of b] response.to_of [of b] by (simp add: packet_sizes)

theorem packet_wire_format_witness:
  "request_bytes (request_of_bytes (zeros 0x200)) = zeros 0x200 \<and>
   response_bytes (response_of_bytes (zeros 0x200)) = zeros 0x200"
  by (rule packet_wire_format) simp

end
