(* ===== verification/Cmd56Sm.thy ===== *)
theory Cmd56Sm
  imports Cmd56
begin

text \<open>
  \<^verbatim>\<open>kern/cmd56/cmd56_sm.h\<close> and \<^verbatim>\<open>cmd56_sm.c\<close>: the key derivation of the security
  coprocessor, the CMAC over a payload, the pseudo random generator and the two macros
  \<^verbatim>\<open>or_w_80\<close> and \<^verbatim>\<open>rand_bytes_or_w_80\<close>.  The static \<^verbatim>\<open>rand_state\<close> of the generator is
  passed and returned explicitly.  The build without \<^verbatim>\<open>USE_PS3_MODE\<close> is modelled.
\<close>

section \<open>Keys\<close>

definition PROTOTYPE_KEY_ID1 :: u16 where "PROTOTYPE_KEY_ID1 = 0x8001"
definition PROTOTYPE_KEY_ID2 :: u16 where "PROTOTYPE_KEY_ID2 = 0x8002"
definition PROTOTYPE_KEY_ID3 :: u16 where "PROTOTYPE_KEY_ID3 = 0x8003"
definition RETAIL_KEY_ID :: u16 where "RETAIL_KEY_ID = 0x1"

lemmas key_ids = PROTOTYPE_KEY_ID1_def PROTOTYPE_KEY_ID2_def PROTOTYPE_KEY_ID3_def RETAIL_KEY_ID_def

definition BIGMAC_KEY_0x348 :: bytes where
  "BIGMAC_KEY_0x348 = [
     0xC0, 0x26, 0x28, 0x14, 0x13, 0xFA, 0x46, 0x2C, 0xCD, 0xEE, 0xD4, 0xBD, 0x6D, 0x08, 0xC3, 0x7C,
     0xA6, 0xC9, 0x32, 0x2A, 0xBD, 0x4C, 0x40, 0xAD, 0xE7, 0x2A, 0x0F, 0x54, 0x4F, 0x40, 0x13, 0xAD]"

definition GCAUTHMGR_0x8001_KEY :: bytes where
  "GCAUTHMGR_0x8001_KEY = [
     0xCB, 0x80, 0x8D, 0x14, 0x02, 0x62, 0x53, 0x17, 0x25, 0x24, 0xD8, 0xA1, 0xf5, 0x1D, 0x35, 0xC7]"

definition GCAUTHMGR_0x8002_KEY :: bytes where
  "GCAUTHMGR_0x8002_KEY = [
     0x56, 0xB6, 0x7b, 0xE1, 0x00, 0x03, 0xB4, 0x3B, 0xB8, 0x24, 0xD7, 0x06, 0xEE, 0x93, 0x59, 0x9D]"

definition GCAUTHMGR_0x8003_KEY :: bytes where
  "GCAUTHMGR_0x8003_KEY = [
     0xE8, 0xBD, 0xDA, 0xFb, 0xF4, 0xA3, 0xB9, 0x9B, 0x54, 0x56, 0x2C, 0x68, 0x21, 0xD8, 0x05, 0x1E]"

definition GCAUTHMGR_0x1_KEY :: bytes where
  "GCAUTHMGR_0x1_KEY = [
     0x72, 0x50, 0x6A, 0x4B, 0xA8, 0x36, 0xC8, 0x76, 0xC4, 0x48, 0x40, 0x70, 0x1F, 0x0E, 0xA1, 0x02]"

definition GCAUTHMGR_0x1_IV :: bytes where
  "GCAUTHMGR_0x1_IV = [
     0x8b, 0x14, 0xc8, 0xa1, 0xe9, 0x6f, 0x30, 0xa7, 0xf1, 0x01, 0xa9, 0x6a, 0x30, 0x33, 0xc5, 0x5b]"

text \<open>
  The key id reaches the function as an \<^verbatim>\<open>int\<close>.  The result is the return value and the
  contents of \<^verbatim>\<open>session_key_out\<close>, which an invalid id leaves as it was.
\<close>

definition session_keyseed :: "int \<Rightarrow> bytes option" where
  "session_keyseed key_id =
     (if key_id = uint PROTOTYPE_KEY_ID1 then Some GCAUTHMGR_0x8001_KEY
      else if key_id = uint PROTOTYPE_KEY_ID2 then Some GCAUTHMGR_0x8002_KEY
      else if key_id = uint PROTOTYPE_KEY_ID3 then Some GCAUTHMGR_0x8003_KEY
      else if key_id = uint RETAIL_KEY_ID then Some GCAUTHMGR_0x1_KEY
      else None)"

definition derive_session_key :: "bytes \<Rightarrow> bytes \<Rightarrow> int \<Rightarrow> int \<times> bytes" where
  "derive_session_key session_key_out cart_random key_id =
     (case session_keyseed key_id of
        None \<Rightarrow> (0, session_key_out)
      | Some keyseed \<Rightarrow>
          (let session_key_out = AES_CMAC_buffer_key keyseed cart_random 0x20;
               session_key_out =
                 (if key_id = 0x1
                  then AES_CBC_decrypt_buffer_key BIGMAC_KEY_0x348 session_key_out 0x10 GCAUTHMGR_0x1_IV
                  else session_key_out)
           in (1, session_key_out)))"

section \<open>Payload encryption and authentication\<close>

definition encrypt_cbc_zero_iv :: "bytes \<Rightarrow> bytes \<Rightarrow> nat \<Rightarrow> bytes" where
  "encrypt_cbc_zero_iv ctx data len = AES_CBC_encrypt_buffer ctx data len None"

definition decrypt_cbc_zero_iv :: "bytes \<Rightarrow> bytes \<Rightarrow> nat \<Rightarrow> bytes" where
  "decrypt_cbc_zero_iv ctx data len = fst (AES_CBC_decrypt_buffer ctx data len None)"

definition do_cmd56_cmac_hash :: "bytes \<Rightarrow> bytes \<Rightarrow> u32 \<Rightarrow> nat \<Rightarrow> bytes" where
  "do_cmd56_cmac_hash ctx data header sz =
     (let cmac_input = zeros 0x50;
          cmac_input = impl_memcpy cmac_input 0 (le_bytes 4 header) 0 0x3;
          cmac_input = impl_memcpy cmac_input 0x10 data 0 sz
      in AES_CMAC_buffer ctx cmac_input (sz + 0x10))"

section \<open>Random numbers\<close>

definition rand_state_init :: bytes where
  "rand_state_init = [0x54, 0x52, 0x41, 0x4E, 0x53, 0x20, 0x52, 0x49, 0x47, 0x48, 0x54, 0x53, 0x21, 0x21, 0x21, 0x21]"

definition rand_seed :: "bytes \<Rightarrow> bytes \<Rightarrow> nat \<Rightarrow> bytes" where
  "rand_seed rand_state seed sz =
     (let seed_size = (if sz < 0x10 then sz else 0x10)
      in fold (\<lambda>i s. s[i mod 0x10 := s ! (i mod 0x10) XOR seed ! i]) [0..<seed_size] rand_state)"

text \<open>\<open>rand_bytes\<close> returns the bytes written to \<^verbatim>\<open>buf\<close>; its argument is \<^verbatim>\<open>size - i\<close>.\<close>

fun rand_bytes :: "bytes \<Rightarrow> nat \<Rightarrow> bytes \<times> bytes" where
  "rand_bytes rand_state 0 = ([], rand_state)"
| "rand_bytes rand_state (Suc n) =
     (let copy_size = (if Suc n < 0x10 then Suc n else 0x10);
          rand_state = AES_CBC_encrypt_buffer_key rand_state rand_state 0x10 rand_state;
          (rest, rand_state') = rand_bytes rand_state (Suc n - 0x10)
      in (take copy_size rand_state @ rest, rand_state'))"

declare rand_bytes.simps [simp del]

text \<open>\<^verbatim>\<open>i % limit\<close> converts \<^verbatim>\<open>limit\<close> to unsigned; a zero limit has no value.\<close>

definition rand_uint32 :: "bytes \<Rightarrow> int \<Rightarrow> (u32 \<times> bytes) option" where
  "rand_uint32 rand_state limit =
     (let (b, rand_state') = rand_bytes rand_state 4;
          l = word_of_int limit
      in if l = 0 then None else Some (le_word b mod l, rand_state'))"

definition or_w_80 :: "bytes \<Rightarrow> nat \<Rightarrow> bytes" where
  "or_w_80 buf sz = fold (\<lambda>k b. b[0x10 * k := b ! (0x10 * k) OR 0x80]) [0..<(sz + 0xF) div 0x10] buf"

definition rand_bytes_or_w_80 :: "bytes \<Rightarrow> nat \<Rightarrow> bytes \<times> bytes" where
  "rand_bytes_or_w_80 rand_state sz =
     (let (buf, rand_state') = rand_bytes rand_state sz in (or_w_80 buf sz, rand_state'))"

section \<open>Lengths\<close>

lemma length_key_constants [simp, wf_lens]:
  "length BIGMAC_KEY_0x348 = 0x20" "length GCAUTHMGR_0x8001_KEY = 0x10"
  "length GCAUTHMGR_0x8002_KEY = 0x10" "length GCAUTHMGR_0x8003_KEY = 0x10"
  "length GCAUTHMGR_0x1_KEY = 0x10" "length GCAUTHMGR_0x1_IV = 0x10" "length rand_state_init = 0x10"
  by (simp_all add: BIGMAC_KEY_0x348_def GCAUTHMGR_0x8001_KEY_def GCAUTHMGR_0x8002_KEY_def
      GCAUTHMGR_0x8003_KEY_def GCAUTHMGR_0x1_KEY_def GCAUTHMGR_0x1_IV_def rand_state_init_def)

lemma iv_or_zero_None [simp]: "iv_or_zero None = zeros 16"
  by (simp add: iv_or_zero_def)

lemma iv_or_zero_Some [simp]: "iv_or_zero (Some iv) = iv"
  by (simp add: iv_or_zero_def)

lemma encrypt_cbc_zero_iv_eq:
  "16 * n \<le> length d \<Longrightarrow>
   encrypt_cbc_zero_iv ctx d (16 * n) = cbc_enc (\<lambda>b. Cipher b ctx) n (zeros 16) d @ drop (16 * n) d"
  by (simp add: encrypt_cbc_zero_iv_def AES_CBC_encrypt_buffer_eq)

lemma decrypt_cbc_zero_iv_eq:
  "16 * n \<le> length d \<Longrightarrow>
   decrypt_cbc_zero_iv ctx d (16 * n) = cbc_dec (\<lambda>b. InvCipher b ctx) n (zeros 16) d @ drop (16 * n) d"
  by (simp add: decrypt_cbc_zero_iv_def AES_CBC_decrypt_buffer_eq)

lemma length_encrypt_cbc_zero_iv [simp, wf_lens]:
  "16 * n \<le> length d \<Longrightarrow> length (encrypt_cbc_zero_iv ctx d (16 * n)) = length d"
  by (simp add: encrypt_cbc_zero_iv_eq aes.length_cbc_enc)

lemma length_decrypt_cbc_zero_iv [simp, wf_lens]:
  "16 * n \<le> length d \<Longrightarrow> length (decrypt_cbc_zero_iv ctx d (16 * n)) = length d"
  by (simp add: decrypt_cbc_zero_iv_eq aes.length_cbc_dec)

lemma length_AES_CBC_encrypt_buffer_key:
  "16 \<le> length b \<Longrightarrow> length iv = 16 \<Longrightarrow> length (AES_CBC_encrypt_buffer_key key b 16 iv) = length b"
  using length_AES_CBC_encrypt_buffer [of 1]
  by (simp add: AES_CBC_encrypt_buffer_key_def Let_def get_field_all)

lemma length_AES_CBC_decrypt_buffer_key:
  "16 \<le> length b \<Longrightarrow> length iv = 16 \<Longrightarrow> length (AES_CBC_decrypt_buffer_key key b 16 iv) = length b"
  using length_AES_CBC_decrypt_buffer [of 1]
  by (simp add: AES_CBC_decrypt_buffer_key_def Let_def get_field_all)

lemma length_rand_bytes [simp, wf_lens]:
  "length st = 16 \<Longrightarrow> length (fst (rand_bytes st n)) = n"
  "length st = 16 \<Longrightarrow> length (snd (rand_bytes st n)) = 16"
proof -
  have "length st = 16 \<Longrightarrow> length (fst (rand_bytes st n)) = n \<and> length (snd (rand_bytes st n)) = 16"
  proof (induction st n rule: rand_bytes.induct)
    case (2 st n)
    then show ?case
      by (simp add: rand_bytes.simps Let_def case_prod_unfold length_AES_CBC_encrypt_buffer_key)
  qed (simp add: rand_bytes.simps)
  then show "length st = 16 \<Longrightarrow> length (fst (rand_bytes st n)) = n"
    "length st = 16 \<Longrightarrow> length (snd (rand_bytes st n)) = 16" by blast+
qed

lemma length_rand_seed [simp, wf_lens]: "length (rand_seed st seed n) = length st"
proof -
  have "length (fold (\<lambda>i s. s[i mod 0x10 := s ! (i mod 0x10) XOR seed ! i]) is s) = length s" for "is" s
    by (induction "is" arbitrary: s) auto
  then show ?thesis by (simp add: rand_seed_def Let_def)
qed

lemma length_or_w_80 [simp, wf_lens]: "length (or_w_80 buf n) = length buf"
proof -
  have "length (fold (\<lambda>k b. b[0x10 * k := b ! (0x10 * k) OR 0x80]) ks b) = length b" for ks b
    by (induction ks arbitrary: b) (auto simp: Let_def)
  then show ?thesis by (simp add: or_w_80_def)
qed

lemma length_rand_bytes_or_w_80 [simp, wf_lens]:
  "length st = 16 \<Longrightarrow> length (fst (rand_bytes_or_w_80 st n)) = n"
  "length st = 16 \<Longrightarrow> length (snd (rand_bytes_or_w_80 st n)) = 16"
  by (simp_all add: rand_bytes_or_w_80_def case_prod_unfold Let_def)

lemma length_do_cmd56_cmac_hash [simp, wf_lens]: "length (do_cmd56_cmac_hash ctx d h n) = 16"
  by (simp add: do_cmd56_cmac_hash_def Let_def)

section \<open>Encryption, decryption and authentication of prefixes\<close>

text \<open>The receiver may decrypt fewer blocks than the sender encrypted.\<close>

lemma decrypt_encrypt_prefix:
  assumes "m \<le> n" "16 * n \<le> length d" "16 * m \<le> length d'"
    and "take (16 * m) d' = take (16 * m) (encrypt_cbc_zero_iv ctx d (16 * n))"
  shows "take (16 * m) (decrypt_cbc_zero_iv ctx d' (16 * m)) = take (16 * m) d"
proof -
  let ?E = "\<lambda>b. Cipher b ctx" and ?D = "\<lambda>b. InvCipher b ctx"
  have "take (16 * m) d' = take (16 * m) (cbc_enc ?E n (zeros 16) d)"
    using assms by (simp add: encrypt_cbc_zero_iv_eq aes.length_cbc_enc)
  then have "cbc_dec ?D m (zeros 16) d' = take (16 * m) d"
    using assms by (metis aes.cbc_dec_enc_prefix cbc_dec_take length_zeros)
  then show ?thesis using assms by (simp add: decrypt_cbc_zero_iv_eq aes.length_cbc_dec)
qed

lemma drop_decrypt_cbc_zero_iv [simp]:
  "16 * n \<le> length d \<Longrightarrow> drop (16 * n) (decrypt_cbc_zero_iv ctx d (16 * n)) = drop (16 * n) d"
  by (simp add: decrypt_cbc_zero_iv_eq aes.length_cbc_dec)

lemma drop_encrypt_cbc_zero_iv [simp]:
  "16 * n \<le> length d \<Longrightarrow> drop (16 * n) (encrypt_cbc_zero_iv ctx d (16 * n)) = drop (16 * n) d"
  by (simp add: encrypt_cbc_zero_iv_eq aes.length_cbc_enc)

text \<open>The authenticated message: three header bytes, padding up to one block, the payload.\<close>

lemma cmac_input_eq:
  assumes "sz \<le> length data" "sz \<le> 0x40"
  shows "take (sz + 0x10) (impl_memcpy (impl_memcpy (zeros 0x50) 0 (le_bytes 4 (header :: u32)) 0 3) 0x10 data 0 sz) =
     le_bytes 3 header @ zeros 13 @ take sz data"
proof -
  have "take 3 (le_bytes 4 header) = le_bytes 3 header"
    by (simp add: le_bytes_def take_map)
  with assms show ?thesis
    by (simp add: impl_memcpy_field get_field.simps put_field.simps)
qed

lemma do_cmd56_cmac_hash_eq:
  assumes "sz mod 16 = 0" "sz \<le> length data" "sz \<le> 0x40"
  shows "do_cmd56_cmac_hash ctx data header sz =
     rfc4493_cmac (\<lambda>b. Cipher b ctx) (le_bytes 3 header @ zeros 13 @ take sz data)"
proof -
  have "length (impl_memcpy (impl_memcpy (zeros 0x50) 0 (le_bytes 4 header) 0 3) 0x10 data 0 sz) = 0x50"
    by (simp add: impl_memcpy_def)
  with assms cmac_input_eq [OF assms(2,3), of header] show ?thesis
    by (simp add: do_cmd56_cmac_hash_def Let_def AES_CMAC_buffer_full_blocks)
qed

lemma do_cmd56_cmac_hash_cong:
  assumes "take sz d = take sz d'" "sz \<le> length d" "sz \<le> length d'" "sz mod 16 = 0" "sz \<le> 0x40"
  shows "do_cmd56_cmac_hash ctx d h sz = do_cmd56_cmac_hash ctx d' h sz"
  using assms by (simp add: do_cmd56_cmac_hash_eq)

section \<open>The 0x80 mask\<close>

lemma or_w_80_16: "or_w_80 b 0x10 = b[0 := b ! 0 OR 0x80]"
  by (simp add: or_w_80_def)

lemma or_w_80_32: "or_w_80 b 0x20 = b[0 := b ! 0 OR 0x80, 0x10 := b ! 0x10 OR 0x80]"
  by (simp add: or_w_80_def upt_rec)

lemma drop_1_or_w_80 [simp]: "drop (Suc 0) (or_w_80 b 0x10) = drop (Suc 0) b"
  by (simp add: or_w_80_16)

lemma or_80_idem [simp]: "(x OR 0x80) OR 0x80 = (x OR 0x80 :: u8)"
  by (simp add: or.assoc)

lemma or_w_80_idem [simp]: "or_w_80 (or_w_80 b 0x10) 0x10 = or_w_80 b 0x10"
  by (cases b) (simp_all add: or_w_80_16 or.assoc)

lemma or_w_80_append:
  "length a = 0x10 \<Longrightarrow> length b = 0x10 \<Longrightarrow> or_w_80 (a @ b) 0x20 = or_w_80 a 0x10 @ or_w_80 b 0x10"
  by (simp add: or_w_80_32 or_w_80_16 nth_append list_update_append)

lemma nth_0_or_w_80 [simp]: "0 < length b \<Longrightarrow> or_w_80 b 0x10 ! 0 = b ! 0 OR 0x80"
  by (simp add: or_w_80_16)

section \<open>Session keys\<close>

definition key_schedule :: "bytes \<Rightarrow> bytes" where
  "key_schedule key = AES_init_ctx (zeros AES_keyExpSize) key"

lemma AES_init_ctx_eq: "16 \<le> length key \<Longrightarrow> length ctx = 176 \<Longrightarrow> AES_init_ctx ctx key = key_schedule key"
  unfolding key_schedule_def AES_init_ctx_def
  by (rule KeyExpansion_overwrites) (simp_all add: AES_keyExpSize_def)

lemma length_AES_init_ctx [simp, wf_lens]: "length (AES_init_ctx ctx key) = length ctx"
  by (simp add: AES_init_ctx_def)

lemma length_key_schedule [simp, wf_lens]: "length (key_schedule key) = 176"
  by (simp add: key_schedule_def AES_keyExpSize_def)

lemma length_derive_session_key [simp, wf_lens]:
  "length key_out = 0x10 \<Longrightarrow> length (snd (derive_session_key key_out cart_random key_id)) = 0x10"
  by (simp add: derive_session_key_def AES_CMAC_buffer_key_def Let_def
      length_AES_CBC_decrypt_buffer_key split: option.splits)

lemma derive_session_key_out:
  "fst (derive_session_key key_out cart_random key_id) = 1 \<Longrightarrow>
   derive_session_key key_out' cart_random key_id = derive_session_key key_out cart_random key_id"
  by (simp add: derive_session_key_def split: option.splits)

section \<open>Properties\<close>

text \<open>the authentication code of a payload is the RFC 4493 MAC, under the session's key
  schedule, of one header block followed by the payload.\<close>

theorem payload_mac_is_rfc4493:
  assumes "sz mod 16 = 0" "sz \<le> length data" "sz \<le> 0x40"
  shows "do_cmd56_cmac_hash ctx data header sz =
     rfc4493_cmac (\<lambda>b. Cipher b ctx) (le_bytes 3 header @ zeros 13 @ take sz data)"
  using assms by (rule do_cmd56_cmac_hash_eq)

theorem payload_mac_is_rfc4493_witness:
  "do_cmd56_cmac_hash (zeros 176) (zeros 0x1f5) 0x1234 0x30 =
     rfc4493_cmac (\<lambda>b. Cipher b (zeros 176)) (le_bytes 3 (0x1234 :: u32) @ zeros 13 @ take 0x30 (zeros 0x1f5))"
  by (rule payload_mac_is_rfc4493) simp_all

text \<open>key derivation fails exactly on unknown key ids, leaving the output alone; on a
  prototype id the session key is the RFC 4493 MAC of the cart's random under the id's
  key, and on the retail id that MAC is deciphered under the 0x348 key and the fixed
  initial vector.\<close>

theorem session_key_derivation:
  assumes "0x20 \<le> length cart_random"
  shows "derive_session_key key_out cart_random key_id =
     (case session_keyseed key_id of
        None \<Rightarrow> (0, key_out)
      | Some seed \<Rightarrow>
          (let mac = rfc4493_cmac (\<lambda>b. Cipher b (key_schedule seed)) (take 0x20 cart_random)
           in (1, if key_id = 1
                  then xor_bytes (InvCipher mac (key_schedule BIGMAC_KEY_0x348)) GCAUTHMGR_0x1_IV
                  else mac)))"
proof -
  have mac: "AES_CMAC_buffer_key seed cart_random 0x20 =
      rfc4493_cmac (\<lambda>b. Cipher b (key_schedule seed)) (take 0x20 cart_random)" for seed
    using assms by (simp add: AES_CMAC_buffer_key_def key_schedule_def Let_def AES_CMAC_buffer_full_blocks)
  have "length (AES_CMAC_buffer_key seed cart_random 0x20) = 16" for seed
    by (simp add: AES_CMAC_buffer_key_def Let_def)
  then have dec: "AES_CBC_decrypt_buffer_key k (AES_CMAC_buffer_key seed cart_random 0x20) 0x10 GCAUTHMGR_0x1_IV =
      xor_bytes (InvCipher (AES_CMAC_buffer_key seed cart_random 0x20) (key_schedule k)) GCAUTHMGR_0x1_IV" for k seed
    using AES_CBC_decrypt_buffer_eq [where n = 1]
    by (simp add: AES_CBC_decrypt_buffer_key_def key_schedule_def Let_def get_field_all)
  show ?thesis
    by (simp add: derive_session_key_def Let_def dec [unfolded mac] mac split: option.splits)
qed

theorem session_key_derivation_witness:
  "derive_session_key (zeros 16) (zeros 32) 1 =
     (1, xor_bytes (InvCipher (rfc4493_cmac (\<lambda>b. Cipher b (key_schedule GCAUTHMGR_0x1_KEY)) (zeros 32))
            (key_schedule BIGMAC_KEY_0x348)) GCAUTHMGR_0x1_IV)"
  by (subst session_key_derivation) (simp_all add: session_keyseed_def key_ids)

end
