(* ===== verification/Ident.thy ===== *)
theory Ident
  imports Device Cmd56Sm
begin

text \<open>
  \<^verbatim>\<open>app/gc_ident.c\<close> and \<^verbatim>\<open>app/err.c\<close>: the identification registers of a card, the names of vendors,
  device types and key groups, the date a card was made, and the messages of error codes.
\<close>

section \<open>The card identification register\<close>

text \<open>\<^verbatim>\<open>EmmcCardId\<close> is packed; three of its fields are bit fields that share a byte with padding.\<close>

record EmmcCardId =
  cid_unused :: bool
  crc7 :: u8
  manufacture_date :: u8
  serial_number :: u32
  revision :: u8
  product_name :: bytes
  oem_id :: u8
  device_type :: u8
  cid_reserved :: u8
  vendor :: u8

definition CARD_ID_SIZE :: nat where "CARD_ID_SIZE = 0x10"

definition card_id_of :: "bytes \<Rightarrow> EmmcCardId" where
  "card_id_of b =
     \<lparr>cid_unused = bit (b ! 0) 0, crc7 = drop_bit 1 (b ! 0), manufacture_date = b ! 1,
      serial_number = le_word (get_field (2, 4) b), revision = b ! 6, product_name = get_field (7, 6) b,
      oem_id = b ! 13, device_type = take_bit 2 (b ! 14), cid_reserved = drop_bit 2 (b ! 14), vendor = b ! 15\<rparr>"

definition card_id_bytes :: "EmmcCardId \<Rightarrow> bytes" where
  "card_id_bytes c = [of_bool (cid_unused c) OR push_bit 1 (crc7 c), manufacture_date c] @ le_bytes 4 (serial_number c) @
     [revision c] @ product_name c @ [oem_id c, device_type c OR push_bit 2 (cid_reserved c), vendor c]"

section \<open>Names\<close>

definition keyid_to_keygroup :: "u16 \<Rightarrow> string" where
  "keyid_to_keygroup key_id =
     (if key_id = 0x1 then ''Retail''
      else if key_id = 0x8001 then ''Prototype Group 1''
      else if key_id = 0x8002 then ''Prototype Group 2''
      else if key_id = 0x8003 then ''Prototype Group 3''
      else ''Unknown'')"

definition mmc_vendor_id_to_manufacturer :: "u8 \<Rightarrow> string" where
  "mmc_vendor_id_to_manufacturer vendor_id =
     (if vendor_id = 0x00 then ''Sandisk''
      else if vendor_id = 0x02 then ''Kingston or SanDisk''
      else if vendor_id = 0x03 \<or> vendor_id = 0x11 then ''Toshiba''
      else if vendor_id = 0x13 then ''Micron''
      else if vendor_id = 0x15 then ''Samsung or SanDisk or LG''
      else if vendor_id = 0x37 then ''KingMax''
      else if vendor_id = 0x44 then ''ATP''
      else if vendor_id = 0x45 then ''SanDisk Corporation''
      else if vendor_id = 0x2c \<or> vendor_id = 0x70 then ''Kingston''
      else if vendor_id = 0x90 then ''Hynix''
      else if vendor_id = 0xfe then ''Micron''
      else ''Unknown'')"

definition mmc_datetime_from_byte :: "u8 \<Rightarrow> u8 \<Rightarrow> u16 \<times> u16" where
  "mmc_datetime_from_byte card_rev mdt =
     (let y = mdt AND 0x0F;
          m = drop_bit 4 mdt;
          year = 1997 + ucast y :: u16;
          year = (if card_rev > 4 \<and> year < 2010 then 2013 + ucast y else year)
      in (year, ucast m))"

definition mmc_device_type_to_string :: "u8 \<Rightarrow> string" where
  "mmc_device_type_to_string dt =
     (if dt = 0 then ''Removable''
      else if dt = 1 then ''Embedded''
      else if dt = 2 then ''POP''
      else if dt = 3 then ''Reserved''
      else ''Invalid'')"

section \<open>Information of a card\<close>

record GcInfo =
  card_id :: bytes
  card_descriptor :: bytes
  extra_card_descriptor :: bytes
  extra_card_descriptor_revision :: u8
  gi_month :: u16
  gi_year :: u16
  gi_key_id :: u16
  gi_key_set :: bytes

record 'e ident_sys =
  kGetCardId :: "int \<Rightarrow> bytes \<Rightarrow> 'e \<Rightarrow> int \<times> bytes"
  kGetCardCsd :: "int \<Rightarrow> bytes \<Rightarrow> 'e \<Rightarrow> int \<times> bytes"
  kGetCardExtCsd :: "int \<Rightarrow> bytes \<Rightarrow> 'e \<Rightarrow> int \<times> bytes"
  kIsAuthenticated :: "'e \<Rightarrow> int"
  kGetKeyId :: "'e \<Rightarrow> u16"
  kGetPerCartKeys :: "bytes \<Rightarrow> 'e \<Rightarrow> bytes"

definition cleared_info :: GcInfo where
  "cleared_info = \<lparr>card_id = zeros CARD_ID_SIZE, card_descriptor = zeros 0x10, extra_card_descriptor = zeros 0x200,
     extra_card_descriptor_revision = 0, gi_month = 0, gi_year = 0, gi_key_id = 0, gi_key_set = zeros 0x40\<rparr>"

definition get_gc_info :: "'e ident_sys \<Rightarrow> 'e \<Rightarrow> GcInfo" where
  "get_gc_info sys e =
     (let info = cleared_info;
          info = info\<lparr>card_id := snd (kGetCardId sys 1 (card_id info) e)\<rparr>;
          info = info\<lparr>card_descriptor := snd (kGetCardCsd sys 1 (card_descriptor info) e)\<rparr>;
          info = info\<lparr>extra_card_descriptor := snd (kGetCardExtCsd sys 1 (extra_card_descriptor info) e)\<rparr>;
          info = info\<lparr>extra_card_descriptor_revision := extra_card_descriptor info ! 0xC0\<rparr>;
          (year, month) = mmc_datetime_from_byte (extra_card_descriptor_revision info) (manufacture_date (card_id_of (card_id info)));
          info = info\<lparr>gi_year := year, gi_month := month\<rparr>
      in if kIsAuthenticated sys e \<noteq> 0
         then info\<lparr>gi_key_id := kGetKeyId sys e, gi_key_set := kGetPerCartKeys sys (gi_key_set info) e\<rparr>
         else info)"

section \<open>Error messages\<close>

text \<open>Codes that are not the application's own are described by the system.\<close>

definition get_error_msg :: "(int \<Rightarrow> string) \<Rightarrow> int \<Rightarrow> string" where
  "get_error_msg sceErrorGetExternalString error =
     (if error = SIZE_IS_ZERO then ''Size is zero bytes''
      else if error = SIZE_NOT_MATCH then ''Size does not match expected size''
      else if error = SIZE_NO_SPACE then ''No space left''
      else if error = POINTER_WAS_NULL then ''A pointer specified was NULL''
      else if error = INVALID_MAGIC then ''Invalid Magic Number''
      else if error = SFO_TOO_MANY_ENTRIES then ''SFO file has too many entries''
      else if error = KEYS_VERIFY_P18_FAILED then ''Failed to verify Packet 18 Key''
      else if error = KEYS_VERIFY_P20_FAILED then ''Failed to verify Packet 20 Key''
      else if error = KEYS_NOT_CAPTURED then ''CMD56 Keys have not yet been captured.''
      else if error = KERNEL_MODULE_FAILED_START then ''Kernel module failed to start''
      else if error = TOTAL_FILES_LESS_THAN_EQ_0 then ''Directory contained no files.''
      else if error = DEVICE_WHITELIST_FAILED then ''Destination device is not a gamecard, aborting to prevent a brick.''
      else if error = OK then ''Operation completed successfully.''
      else sceErrorGetExternalString error)"

section \<open>Lemmas\<close>

text \<open>The register and its bytes correspond.\<close>

lemma byte_parts:
  fixes b :: u8
  shows "of_bool (odd b) OR push_bit 1 (drop_bit 1 b) = b" "take_bit 2 b OR push_bit 2 (drop_bit 2 b) = b"
proof -
  show "of_bool (odd b) OR push_bit 1 (drop_bit 1 b) = b"
  proof (rule bit_word_eqI)
    fix n assume "n < LENGTH(8)"
    show "bit (of_bool (odd b) OR push_bit 1 (drop_bit 1 b)) n = bit b n"
      unfolding bit_or_iff bit_push_bit_iff bit_drop_bit_eq bit_of_bool_iff comp_def
      using \<open>n < LENGTH(8)\<close> by (cases n) (simp_all add: bit_0)
  qed
  show "take_bit 2 b OR push_bit 2 (drop_bit 2 b) = b"
  proof (rule bit_word_eqI)
    fix n assume n: "n < LENGTH(8)"
    show "bit (take_bit 2 b OR push_bit 2 (drop_bit 2 b)) n = bit b n"
      unfolding bit_or_iff bit_push_bit_iff bit_drop_bit_eq bit_take_bit_iff comp_def
      using n by (cases "2 \<le> n") (auto simp only: le_add_diff_inverse not_le possible_bit_word)
  qed
qed

lemma card_id_bytes_of:
  assumes "length b = CARD_ID_SIZE"
  shows "card_id_bytes (card_id_of b) = b"
proof -
  obtain b0 b1 b2 b3 b4 b5 b6 b7 b8 b9 b10 b11 b12 b13 b14 b15 where
    "b = [b0, b1, b2, b3, b4, b5, b6, b7, b8, b9, b10, b11, b12, b13, b14, b15]"
    using assms by (elim length_16_conv [of b, unfolded CARD_ID_SIZE_def [symmetric]])
  moreover have "le_bytes 4 (le_word [b2, b3, b4, b5] :: u32) = [b2, b3, b4, b5]" by (rule le_bytes_word) simp_all
  ultimately show ?thesis
    unfolding card_id_bytes_def card_id_of_def bit_0
    by (simp only: EmmcCardId.simps byte_parts) (simp add: get_field.simps del: le_word.simps)
qed

text \<open>
  The date is that of the eMMC standard: with a later register the codes thirteen to fifteen are the
  years 2010 to 2012 and the others start at 2013.
\<close>

definition jedec_year :: "u8 \<Rightarrow> nat \<Rightarrow> nat" where
  "jedec_year r y = (if r \<le> 4 \<or> 13 \<le> y then 1997 + y else 2013 + y)"

lemma mmc_datetime_jedec:
  "mmc_datetime_from_byte r mdt = (of_nat (jedec_year r (unat mdt mod 16)), of_nat (unat mdt div 16))"
proof -
  let ?n = "unat mdt mod 16"
  have n: "?n < 16" by simp
  have "mdt AND 0x0F = take_bit 4 mdt" by (simp add: take_bit_eq_mask mask_numeral)
  then have "unat (mdt AND 0x0F) = unat (take_bit 4 mdt)" by (rule arg_cong)
  also have "\<dots> = ?n" unfolding unsigned_take_bit_eq by (simp add: take_bit_eq_mod)
  finally have "unat (mdt AND 0x0F) = ?n" .
  then have y: "ucast (mdt AND 0x0F) = (of_nat ?n :: u16)" by (metis of_nat_unat)
  have num_pow: "(2 :: nat) ^ 4 = 16" by simp
  have m: "ucast (drop_bit 4 mdt) = (of_nat (unat mdt div 16) :: u16)"
    by (metis of_nat_unat unat_drop_bit_eq drop_bit_eq_div num_pow)
  have small: "(1997 + of_nat k :: u16) < 2010 \<longleftrightarrow> k < 13" if "k < 16" for k
  proof -
    have "unat (1997 + of_nat k :: u16) = 1997 + k" using that unat_of_nat [of "1997 + k", where 'a = 16] by simp
    then show ?thesis by (simp add: word_less_nat_alt)
  qed
  show ?thesis
    using small [OF n] by (auto simp: mmc_datetime_from_byte_def Let_def y m jedec_year_def not_less not_le)
qed

text \<open>The key groups with a name are those the emulation has a key for.\<close>

lemma keygroup_known: "keyid_to_keygroup key_id \<noteq> ''Unknown'' \<longleftrightarrow> session_keyseed (uint key_id) \<noteq> None"
proof -
  have "uint key_id = uint k \<longleftrightarrow> key_id = k" for k by (simp add: word_uint_eq_iff)
  then have "session_keyseed (uint key_id) =
      (if key_id = PROTOTYPE_KEY_ID1 then Some GCAUTHMGR_0x8001_KEY else if key_id = PROTOTYPE_KEY_ID2 then Some GCAUTHMGR_0x8002_KEY
       else if key_id = PROTOTYPE_KEY_ID3 then Some GCAUTHMGR_0x8003_KEY else if key_id = RETAIL_KEY_ID then Some GCAUTHMGR_0x1_KEY
       else None)"
    by (simp only: session_keyseed_def)
  then show ?thesis
    by (simp add: keyid_to_keygroup_def PROTOTYPE_KEY_ID1_def PROTOTYPE_KEY_ID2_def PROTOTYPE_KEY_ID3_def RETAIL_KEY_ID_def)
qed

text \<open>Without an authenticated card the key fields of the information stay zero.\<close>

lemma get_gc_info_keys:
  "kIsAuthenticated sys e = 0 \<Longrightarrow> gi_key_id (get_gc_info sys e) = 0 \<and> gi_key_set (get_gc_info sys e) = zeros 0x40"
  by (simp add: get_gc_info_def Let_def cleared_info_def split: prod.split)

lemma get_gc_info_date:
  "get_gc_info sys e = info \<Longrightarrow>
   (gi_year info, gi_month info) = mmc_datetime_from_byte (extra_card_descriptor info ! 0xC0) (card_id info ! 1)"
  by (auto simp: get_gc_info_def Let_def card_id_of_def split: prod.splits if_splits)

end
