(* ===== verification/Screen.thy ===== *)
theory Screen
  imports Menu Sfo Utf Ident
begin

text \<open>
  The texts on the screen: hexadecimal numbers, the information of a card as \<^verbatim>\<open>draw_device_info\<close> of
  \<^verbatim>\<open>app/menu.c\<close> writes it, the help for the buttons and the loop of
  \<^verbatim>\<open>app/draw.c\<close> that shortens a text until it fits.  Positions, colours and the drawing itself are left out.
\<close>

section \<open>Hexadecimal numbers\<close>

definition hex_digit :: "nat \<Rightarrow> u8" where
  "hex_digit n = (if n < 10 then of_nat (48 + n) else of_nat (55 + n))"

fun hex :: "nat \<Rightarrow> bytes" where
  "hex n = (if n < 16 then [hex_digit n] else hex (n div 16) @ [hex_digit (n mod 16)])"

declare hex.simps [simp del]

definition hex2 :: "u32 \<Rightarrow> bytes" where
  "hex2 w = (if w < 16 then 48 # hex (unat w) else hex (unat w))"

definition TO_HEX :: "bytes \<Rightarrow> nat \<Rightarrow> bytes \<Rightarrow> bytes" where
  "TO_HEX inStr inLen outStr =
     (fold (\<lambda>i out. put_field (i * 2, 2) (take 2 (hex2 (ucast (inStr ! i)))) out) [0..<inLen] outStr)[inLen * 2 := 0]"

definition of_hex_digit :: "u8 \<Rightarrow> nat" where
  "of_hex_digit c = (if c < 58 then unat c - 48 else unat c - 55)"

fun of_hex :: "bytes \<Rightarrow> bytes" where
  "of_hex (a # b # s) = of_nat (16 * of_hex_digit a + of_hex_digit b) # of_hex s"
| "of_hex s = []"

lemma u8_bound: "unat (w :: u8) < 256" "unat w div 16 < 16"
proof -
  have "unat w < 2 ^ LENGTH(8)" by (rule unsigned_less)
  then show "unat w < 256" by simp
  then show "unat w div 16 < 16" by simp
qed

lemma hex_byte: "hex2 (ucast (w :: u8)) = [hex_digit (unat w div 16), hex_digit (unat w mod 16)]"
proof -
  have u: "unat (ucast w :: u32) = unat w" using u8_bound(1) [of w] by (simp add: unsigned_ucast_eq take_bit_eq_mod)
  have "(ucast w :: u32) < 16 \<longleftrightarrow> unat w < 16" by (simp add: word_less_nat_alt u)
  moreover have "unat w div 16 < 16" by (rule u8_bound)
  ultimately show ?thesis
    by (cases "unat w < 16") (simp_all add: hex2_def u hex.simps [of "unat w"] hex.simps [of "unat w div 16"] hex_digit_def)
qed

lemma hex_digit_nonzero: "n < 16 \<Longrightarrow> hex_digit n \<noteq> 0"
  and of_hex_digit: "n < 16 \<Longrightarrow> of_hex_digit (hex_digit n) = n"
proof -
  have a: "n \<in> {0, 1, 2, 3, 4, 5, 6, 7, 8, 9, 10, 11, 12, 13, 14, 15}" if "n < 16" for n :: nat
    unfolding insert_iff empty_iff using that by presburger
  have "\<forall>n \<in> {0, 1, 2, 3, 4, 5, 6, 7, 8, 9, 10, 11, 12, 13, 14, 15}. hex_digit n \<noteq> 0 \<and> of_hex_digit (hex_digit n) = n"
    by (simp add: hex_digit_def of_hex_digit_def)
  with a show "n < 16 \<Longrightarrow> hex_digit n \<noteq> 0" "n < 16 \<Longrightarrow> of_hex_digit (hex_digit n) = n" by blast+
qed

lemma of_hex_bytes: "of_hex (concat (map (\<lambda>b. hex2 (ucast b)) bs)) = bs"
proof (induction bs)
  case (Cons b bs)
  have "of_nat (16 * of_hex_digit (hex_digit (unat b div 16)) + of_hex_digit (hex_digit (unat b mod 16))) = b"
    by (simp add: of_hex_digit u8_bound)
  with Cons show ?case by (simp add: hex_byte)
qed simp

lemma length_hex: "length (concat (map (\<lambda>b. hex2 (ucast b)) (xs :: bytes))) = 2 * length xs"
  by (induction xs) (simp_all add: hex_byte)

lemma TO_HEX_prefix:
  "n \<le> length b \<Longrightarrow> 2 * n \<le> length out \<Longrightarrow>
   fold (\<lambda>i out. put_field (i * 2, 2) (take 2 (hex2 (ucast (b ! i)))) out) [0..<n] out =
     concat (map (\<lambda>b. hex2 (ucast (b :: u8))) (take n b)) @ drop (2 * n) out"
proof (induction n)
  case (Suc n)
  define c where "c = concat (map (\<lambda>b. hex2 (ucast (b :: u8))) (take n b))"
  have l: "length c = n * 2"
    using Suc(2) length_hex [of "take n b"] by (simp add: c_def)
  have "fold (\<lambda>i out. put_field (i * 2, 2) (take 2 (hex2 (ucast (b ! i)))) out) [0..<n] out = c @ drop (2 * n) out"
    using Suc by (simp add: c_def)
  moreover have "put_field (n * 2, 2) (take 2 (hex2 (ucast (b ! n)))) (c @ drop (2 * n) out) = c @ hex2 (ucast (b ! n)) @ drop (2 * Suc n) out"
    using Suc(2,3) by (simp add: put_field.simps l hex_byte mult.commute)
  moreover have "concat (map (\<lambda>b. hex2 (ucast b)) (take (Suc n) b)) = c @ hex2 (ucast (b ! n))"
    using Suc(2) by (simp add: c_def take_Suc_conv_app_nth)
  ultimately show ?case by simp
qed simp

lemma chars_TO_HEX:
  assumes "2 * length b < length out"
  shows "chars (TO_HEX b (length b) out) = concat (map (\<lambda>b. hex2 (ucast b)) b)"
proof -
  let ?h = "concat (map (\<lambda>b. hex2 (ucast b)) b) :: bytes"
  have l: "length ?h = length b * 2" using length_hex [of b] by simp
  have z: "c \<noteq> 0" if c: "c \<in> set ?h" for c
  proof -
    obtain w where "c = hex_digit (unat (w :: u8) div 16) \<or> c = hex_digit (unat w mod 16)" using c by (auto simp: hex_byte)
    then show ?thesis using hex_digit_nonzero u8_bound(2) [of w] by fastforce
  qed
  have "drop (2 * length b) out = out ! (2 * length b) # drop (Suc (2 * length b)) out"
    using assms by (simp add: Cons_nth_drop_Suc)
  then have "TO_HEX b (length b) out = ?h @ 0 # drop (Suc (2 * length b)) out"
    using assms TO_HEX_prefix [of "length b" b out] by (simp add: TO_HEX_def list_update_append l mult.commute)
  with chars_append_0 [of ?h] z show ?thesis by metis
qed

section \<open>Texts in buffers\<close>

lemma length_snprintf [simp]: "0 < n \<Longrightarrow> n \<le> length dst \<Longrightarrow> length (snprintf dst n text) = length dst"
  by (auto simp: snprintf_def put_field.simps min_def)

lemma chars_snprintf: "0 < n \<Longrightarrow> n \<le> length dst \<Longrightarrow> 0 \<notin> set text \<Longrightarrow> chars (snprintf dst n text) = take (n - 1) text"
proof -
  assume n: "0 < n" "n \<le> length dst" and t: "0 \<notin> set text"
  have "snprintf dst n text = take (n - 1) text @ 0 # drop (Suc (min (n - 1) (length text))) dst"
    by (simp add: snprintf_def put_field.simps)
  moreover have "c \<noteq> 0" if "c \<in> set (take (n - 1) text)" for c using t that by (metis in_set_takeD)
  ultimately show ?thesis by (simp add: chars_append_0)
qed

section \<open>The information of a card\<close>

definition packet20_key :: field where "packet20_key = (0, 0x20)"
definition packet18_key :: field where "packet18_key = (0x20, 0x20)"

definition hex_text :: "bytes \<Rightarrow> bytes" where
  "hex_text b = chars (TO_HEX b (length b) (zeros MAX_PATH))"

definition info_line :: "bytes \<Rightarrow> bytes" where
  "info_line text = snprintf (zeros MAX_PATH) (MAX_PATH - 1) text"

definition device_info_lines :: "GcInfo \<Rightarrow> bytes list" where
  "device_info_lines info =
     (let cid = card_id_of (card_id info);
          text = (\<lambda>s. map of_char s);
          number = (\<lambda>s n. text (s @ ''0x'') @ hex2 n);
          named = (\<lambda>s name n. text (s @ name @ '' (0x'') @ hex2 n @ text '')'')
      in map info_line
        [text ''MMC CID: '' @ hex_text (card_id info),
         text ''MMC CSD: '' @ hex_text (card_descriptor info),
         number ''Extended CSD Revision: '' (ucast (extra_card_descriptor_revision info)),
         number ''Crc7: '' (ucast (crc7 cid)),
         text ''Manufactured Date: '' @ decimal (unat (gi_month info)) @ text ''/'' @ decimal (unat (gi_year info)) @
           text '' (0x'' @ hex2 (ucast (manufacture_date cid)) @ text '')'',
         number ''Serial Number: '' (serial_number cid),
         number ''Revision: '' (ucast (revision cid)),
         text ''Product Name: '' @ chars (product_name cid),
         number ''Oem ID: '' (ucast (oem_id cid)),
         named ''Device Type: '' (mmc_device_type_to_string (device_type cid)) (ucast (device_type cid)),
         named ''Vendor: '' (mmc_vendor_id_to_manufacturer (vendor cid)) (ucast (vendor cid)),
         text ''CMD56 Key18: '' @ hex_text (get_field packet18_key (gi_key_set info)),
         text ''CMD56 Key20: '' @ hex_text (get_field packet20_key (gi_key_set info)),
         named ''CMD56 KeyID: '' (keyid_to_keygroup (gi_key_id info)) (ucast (gi_key_id info))])"

section \<open>Texts that fit\<close>

definition BUTTON_CROSS :: bytes where "BUTTON_CROSS = [0xE2, 0x95, 0xB3]"
definition BUTTON_CIRCLE :: bytes where "BUTTON_CIRCLE = [0xE2, 0x97, 0x8B]"

definition controls_text :: "ctrl_state \<Rightarrow> bool \<Rightarrow> bytes" where
  "controls_text c cancel =
     (if \<not> cancel
      then (if SCE_CTRL_CONFIRM c = SCE_CTRL_CROSS then BUTTON_CROSS else BUTTON_CIRCLE) @ map of_char '' OK''
      else (if SCE_CTRL_CONFIRM c = SCE_CTRL_CROSS then BUTTON_CROSS else BUTTON_CIRCLE) @ map of_char '' OK / '' @
        (if SCE_CTRL_CANCEL c = SCE_CTRL_CIRCLE then BUTTON_CIRCLE else BUTTON_CROSS) @ map of_char '' BACK'')"

definition TEXT_ROOM :: int where "TEXT_ROOM = 494 - 19 * 2"

text \<open>
  The loop of \<^verbatim>\<open>draw_text_center_color\<close>: \<open>width\<close> is the font's measure, \<open>n\<close> the
  variable \<^verbatim>\<open>msg_len\<close>; the result is the buffer and the last width, which the text is centred by.
\<close>

fun fit_turns :: "(bytes \<Rightarrow> int) \<Rightarrow> bytes \<Rightarrow> nat \<Rightarrow> bytes \<times> int" where
  "fit_turns width processed_msg n =
     (let text_width = width (chars processed_msg);
          processed_msg = processed_msg[n := 0]
      in if n > 1 \<and> text_width > TEXT_ROOM then fit_turns width processed_msg (n - 1) else (processed_msg, text_width))"

declare fit_turns.simps [simp del]

definition fitted_text :: "(bytes \<Rightarrow> int) \<Rightarrow> bytes \<Rightarrow> bytes \<Rightarrow> bytes \<times> int" where
  "fitted_text width stk msg =
     fit_turns width (strncpy stk 0 msg (MAX_PATH - 1)) (min (strlen msg) (MAX_PATH - 1))"


text \<open>Shortened to \<open>n\<close> characters: the buffer while the loop runs.\<close>

lemma chars_cut:
  assumes "n \<le> strlen b" "n < length b"
  shows "chars (b[n := 0]) = take n (chars b)" "strlen (b[n := 0]) = n"
proof -
  have "b[n := 0] = take n b @ 0 # drop (Suc n) b" using assms(2) by (rule upd_conv_take_nth_drop)
  moreover have t: "take n b = take n (chars b)"
    using assms(1) by (metis append_eq_conv_conj chars_def length_chars min_def takeWhile_dropWhile_id take_take)
  moreover have "c \<noteq> 0" if "c \<in> set (take n (chars b))" for c using that set_chars by (metis in_set_takeD)
  ultimately show c: "chars (b[n := 0]) = take n (chars b)" using chars_append_0 [of "take n (chars b)"] by metis
  show "strlen (b[n := 0]) = n"
    unfolding length_chars [symmetric] c using assms(1) by simp
qed

text \<open>The number of characters left when the loop has measured \<open>Suc n\<close> of them, or all.\<close>

fun fitting :: "(bytes \<Rightarrow> int) \<Rightarrow> bytes \<Rightarrow> nat \<Rightarrow> nat" where
  "fitting width text 0 = 0"
| "fitting width text (Suc n) = (if n = 0 \<or> width (take (Suc (Suc n)) text) \<le> TEXT_ROOM then Suc n else fitting width text n)"

lemma fit_turns_fitting:
  "n \<le> strlen b \<Longrightarrow> n < length b \<Longrightarrow> chars b = take (Suc n) text \<Longrightarrow>
   chars (fst (fit_turns width b n)) = take (fitting width text n) text \<and>
   length (fst (fit_turns width b n)) = length b"
proof (induction n arbitrary: b)
  case 0
  then show ?case by (subst (1 2) fit_turns.simps) (simp add: chars_cut)
next
  case (Suc n)
  let ?b = "b[Suc n := 0]"
  have c: "chars ?b = take (Suc n) text" "strlen ?b = Suc n"
    using chars_cut [OF Suc(2,3)] Suc(4) by (simp_all add: min_def)
  have s: "fit_turns width b (Suc n) =
    (if 0 < n \<and> width (take (Suc (Suc n)) text) > TEXT_ROOM then fit_turns width ?b n else (?b, width (take (Suc (Suc n)) text)))"
    by (subst fit_turns.simps) (simp add: Suc(4))
  show ?case
    using Suc.IH [of ?b] c Suc(3) unfolding s by (auto simp: not_less)
qed

lemma fitting_bounds:
  assumes "\<And>m n. m \<le> n \<Longrightarrow> width (take m t) \<le> width (take n t)" "width (take 1 t) \<le> TEXT_ROOM"
    and "\<And>m. m \<le> length t \<Longrightarrow> width (take m t) \<le> TEXT_ROOM \<Longrightarrow> m \<le> Suc n"
  shows "width (take (fitting width t n) t) \<le> TEXT_ROOM \<and>
    (\<forall>m \<le> length t. width (take m t) \<le> TEXT_ROOM \<longrightarrow> m \<le> Suc (fitting width t n))"
  using assms(3)
proof (induction n)
  case 0
  with assms(1) [of 0 1] assms(2) show ?case by simp
next
  case (Suc n)
  show ?case
  proof (cases "n = 0 \<or> width (take (Suc (Suc n)) t) \<le> TEXT_ROOM")
    case True
    have "width (take (Suc n) t) \<le> TEXT_ROOM" using True assms(2) assms(1) [of "Suc n" "Suc (Suc n)"] by auto
    with True Suc(2) show ?thesis by simp
  next
    case False
    have "m \<le> Suc n" if "m \<le> length t" "width (take m t) \<le> TEXT_ROOM" for m
      using Suc(2) [OF that] that(2) False by (cases "m = Suc (Suc n)") auto
    from Suc.IH [OF this] False show ?thesis by simp
  qed
qed

lemma fitting_whole: "width t \<le> TEXT_ROOM \<Longrightarrow> fitting width t (length t) = length t"
  by (cases "length t") simp_all

text \<open>A message that is copied into a larger buffer.\<close>

lemma chars_strncpy:
  assumes "length stk = MAX_PATH" "strlen msg < MAX_PATH - 1"
  shows "chars (strncpy stk 0 msg (MAX_PATH - 1)) = chars msg" "strlen (strncpy stk 0 msg (MAX_PATH - 1)) = strlen msg"
proof -
  have "strncpy stk 0 msg (MAX_PATH - 1) = chars msg @ 0 # zeros (MAX_PATH - 2 - strlen msg) @ drop (MAX_PATH - 1) stk"
  proof -
    have "zeros (MAX_PATH - 1 - strlen msg) = 0 # zeros (MAX_PATH - 2 - strlen msg)"
      using assms(2) by (cases "MAX_PATH - 1 - strlen msg") (simp_all add: zeros_def)
    then show ?thesis using assms by (simp add: strncpy_field put_field.simps)
  qed
  then show c: "chars (strncpy stk 0 msg (MAX_PATH - 1)) = chars msg" by (metis chars_append_0 set_chars)
  show "strlen (strncpy stk 0 msg (MAX_PATH - 1)) = strlen msg" using c by (metis length_chars)
qed

text \<open>A text is shortened until it fits: what is drawn of a message is its beginning, all of it if it fits, else one
  character less than the longest beginning that fits, or one.  What is drawn fits if the font measures no
  text narrower than what it begins with and a single character fits.
\<close>

theorem text_is_cut_to_fit:
  assumes "length stk = MAX_PATH" "strlen msg < MAX_PATH - 1"
    and "\<And>m n. m \<le> n \<Longrightarrow> width (take m (chars msg)) \<le> width (take n (chars msg))" "width (take 1 (chars msg)) \<le> TEXT_ROOM"
  shows "\<exists>k. chars (fst (fitted_text width stk msg)) = take k (chars msg) \<and> width (take k (chars msg)) \<le> TEXT_ROOM \<and>
    (width (chars msg) \<le> TEXT_ROOM \<longrightarrow> k = strlen msg) \<and>
    (\<forall>m \<le> strlen msg. width (take m (chars msg)) \<le> TEXT_ROOM \<longrightarrow> m \<le> Suc k)"
proof -
  let ?t = "chars msg" and ?b = "strncpy stk 0 msg (MAX_PATH - 1)"
  let ?k = "fitting width ?t (strlen msg)"
  have c: "chars ?b = ?t" by (rule chars_strncpy [OF assms(1,2)])
  then have "strlen ?b = strlen msg" by (metis length_chars)
  then have d: "chars (fst (fitted_text width stk msg)) = take ?k ?t"
    using fit_turns_fitting [of "strlen msg" ?b ?t width] assms(1,2) c
    by (simp add: fitted_text_def)
  show ?thesis
    using d fitting_bounds [of width ?t, OF assms(3,4), of "strlen msg"] fitting_whole [of width ?t]
    by (intro exI [of _ ?k]) auto
qed

theorem text_is_cut_to_fit_witness:
  "\<exists>k. chars (fst (fitted_text (\<lambda>t. 100 * int (length t)) (zeros MAX_PATH) (cstr ''abcdef''))) =
      take k (chars (cstr ''abcdef'')) \<and> 3 \<le> k \<and> 100 * k \<le> 456"
proof -
  have c: "strlen (cstr ''abcdef'') = 6" "length (chars (cstr ''abcdef'')) = 6" by (simp_all add: strlen_def cstr_def)
  have g: "100 * int (length (take m t)) \<le> 100 * int (length (take n t))" if "m \<le> n" for m n and t :: bytes
    using that by simp
  obtain k where k: "chars (fst (fitted_text (\<lambda>t. 100 * int (length t)) (zeros MAX_PATH) (cstr ''abcdef''))) =
      take k (chars (cstr ''abcdef''))" "100 * int (length (take k (chars (cstr ''abcdef'')))) \<le> TEXT_ROOM"
    "\<forall>m \<le> strlen (cstr ''abcdef''). 100 * int (length (take m (chars (cstr ''abcdef'')))) \<le> TEXT_ROOM \<longrightarrow> m \<le> Suc k"
    using text_is_cut_to_fit [of "zeros MAX_PATH" "cstr ''abcdef''" "\<lambda>t. 100 * int (length t)", OF length_zeros _ g] by (auto simp: c TEXT_ROOM_def MAX_PATH_def)
  have "3 \<le> k" using k(3) by (auto simp: c TEXT_ROOM_def dest: spec [of _ 4])
  moreover have "k \<le> 4" using k(2) by (simp add: c TEXT_ROOM_def min_def split: if_splits)
  ultimately show ?thesis using k(1) by (intro exI [of _ k]) simp
qed

end
