(* ===== verification/AppSys.thy ===== *)
theory AppSys
  imports Net Config Screen
begin

text \<open>
  The system the flows of the application run on, and three small files over it: \<^verbatim>\<open>app/lock.c\<close>,
  \<^verbatim>\<open>app/auth.c\<close> and \<^verbatim>\<open>app/kernel.c\<close>.  The record \<open>app_sys\<close> joins the records of the components
  (block devices, files, network, card identification) with the calls only these flows make;
  \<open>linked\<close> puts the application's own functions where \<^verbatim>\<open>device.c\<close> calls them.  Uninitialised
  memory is a function of the environment, so it may differ at every call.
\<close>

section \<open>The system\<close>

datatype shell_lock = LOCK_TYPE_QUICK_MENU | LOCK_TYPE_POWEROFF_MENU | LOCK_TYPE_USB_CONNECTION
  | LOCK_TYPE_MUSIC_PLAYER | LOCK_TYPE_PS_BTN | LOCK_TYPE_MC_INSERTED | LOCK_TYPE_MC_REMOVED

record app_stack =
  mbr_stk :: bytes
  path_stk :: bytes
  title_id_stk :: bytes
  title_stk :: bytes
  file_stk :: bytes
  keys_stk :: bytes
  ip_stk :: bytes
  before_name :: bytes
  sfo_stk :: sfo_stack

record 'e app_sys =
  dev :: "'e dev_sys"
  io :: "'e io_sys"
  net :: "'e net_sys"
  ident :: "'e ident_sys"
  peek :: "'e \<Rightarrow> u32 \<times> 'e"
  dialog :: "'e \<Rightarrow> SceImeDialogParam \<Rightarrow> ime_poll list"
  after_dialog :: "'e \<Rightarrow> 'e"
  kFormatDevice :: "bytes \<Rightarrow> 'e \<Rightarrow> int \<times> 'e"
  sceShellUtilLock :: "shell_lock list \<Rightarrow> 'e \<Rightarrow> 'e"
  sceShellUtilUnlock :: "shell_lock list \<Rightarrow> 'e \<Rightarrow> 'e"
  sceKernelCreateThread :: "'e \<Rightarrow> int \<times> 'e"
  sceKernelStartThread :: "int \<Rightarrow> 'e \<Rightarrow> int \<times> 'e"
  sceKernelDeleteThread :: "int \<Rightarrow> 'e \<Rightarrow> 'e"
  set_disable_power :: "bool \<Rightarrow> 'e \<Rightarrow> 'e"
  kIsSdInserted :: "'e \<Rightarrow> bool"
  kIsMmcInserted :: "'e \<Rightarrow> bool"
  kUndoneSd2VitaPatches :: "'e \<Rightarrow> bool"
  kUndoSd2Vita :: "'e \<Rightarrow> 'e"
  kResetGc :: "'e \<Rightarrow> 'e"
  kEnableGcEmuMgr :: "'e \<Rightarrow> 'e"
  kDisableGcEmuMgr :: "'e \<Rightarrow> 'e"
  vshKernelSearchModuleByName :: "bytes \<Rightarrow> 'e \<Rightarrow> int"
  taiLoadStartKernelModule :: "bytes \<Rightarrow> 'e \<Rightarrow> int \<times> 'e"
  sceAppMgrAppParamGetString :: "'e \<Rightarrow> bytes"
  sceAppMgrLoadExec :: "'e \<Rightarrow> 'e"
  sceErrorGetExternalString :: "int \<Rightarrow> string"
  sceRegMgr_button_assign :: "'e \<Rightarrow> int \<times> int"
  draw_confirmation_message :: "bytes \<Rightarrow> bytes \<Rightarrow> 'e \<Rightarrow> 'e"
  draw_lines :: "bytes list \<Rightarrow> 'e \<Rightarrow> 'e"
  draw_dump_progress :: "'e progress"
  draw_restore_progress :: "'e progress"
  draw_wipe_progress :: "'e progress"
  garbage :: "'e \<Rightarrow> app_stack"
  options_behind :: u8
  enum_size :: nat
  network_on :: bool

section \<open>Modules\<close>

definition module_started :: "'e app_sys \<Rightarrow> bytes \<Rightarrow> 'e \<Rightarrow> bool" where
  "module_started sys module_name e \<longleftrightarrow> vshKernelSearchModuleByName sys module_name e > 0"

text \<open>The comma that is missing in the source joins two of the locations to one.\<close>

definition load_locations :: "string list" where
  "load_locations = [''ux0:/patch'', ''ux0:/app'', ''grw0:/patch'', ''gro0:/app'', ''host0:/patch'', ''host0:/app'',
     ''sd0:/patch'' @ ''sd0:/app'', ''ur0:/patch'', ''ur0:/app'', ''xmc0:/patch'', ''xmc0:/app'', ''imc0:/patch'', ''imc0:/app'',
     ''uma0:/patch'', ''uma0:/app'', ''pd0:/app'', ''vs0:/app'']"

definition module_blacklist :: "string list" where
  "module_blacklist = [''yamtKernel'', ''yamtHelper'', ''yamtUser'', ''StorageMgrKernel'', ''VitaShellKernel'']"

definition kplugin_path :: "string \<Rightarrow> bytes \<Rightarrow> bytes" where
  "kplugin_path install_path titleid =
     snprintf (zeros MAX_PATH) (MAX_PATH - 1)
       (map of_char install_path @ map of_char ''/'' @ chars titleid @ map of_char ''/'' @ chars KMODULE_NAME @ map of_char ''.skprx'')"

definition try_load :: "'e app_sys \<Rightarrow> string \<Rightarrow> 'e \<Rightarrow> bool \<times> 'e" where
  "try_load sys install_path e =
     (let (uid, e) = taiLoadStartKernelModule sys (kplugin_path install_path (sceAppMgrAppParamGetString sys e)) e
      in (uid > 0, e))"

fun try_all :: "'e app_sys \<Rightarrow> string list \<Rightarrow> 'e \<Rightarrow> 'e" where
  "try_all sys [] e = e"
| "try_all sys (p # ps) e = (let (ok, e) = try_load sys p e in if ok then e else try_all sys ps e)"

definition load_kernel_modules :: "'e app_sys \<Rightarrow> 'e \<Rightarrow> 'e" where
  "load_kernel_modules sys e =
     (if \<not> module_started sys KMODULE_NAME e then sceAppMgrLoadExec sys (try_all sys load_locations e) else e)"

definition check_loaded_blacklisted_module :: "'e app_sys \<Rightarrow> 'e \<Rightarrow> string option" where
  "check_loaded_blacklisted_module sys e = List.find (\<lambda>m. module_started sys (cstr m) e) module_blacklist"

section \<open>The functions device.c calls\<close>

definition linked :: "'e app_sys \<Rightarrow> 'e dev_sys" where
  "linked sys = (dev sys)
     \<lparr>Device.dev_sys.is_module_started := module_started sys,
      Device.dev_sys.get_file_size := Paths.get_file_size (io sys),
      Device.dev_sys.make_directories_excluding_last :=
        (\<lambda>path e. Paths.make_directories_excluding_last (path_stk (garbage sys e)) (io sys) path e),
      Device.dev_sys.begin_connection := Net.begin_connection (net sys),
      Device.dev_sys.end_connection := (\<lambda>fd e. snd (Net.end_connection (net sys) fd e)),
      Device.dev_sys.begin_file_send := Net.begin_file_send (net sys),
      Device.dev_sys.file_send_data := Net.file_send_data (net sys),
      Device.dev_sys.send_file_patch := (\<lambda>fd name off data e. Net.send_file_patch (net sys) fd name off data (of_nat (length data)) e)\<rparr>"

section \<open>Locks\<close>

definition SHELL_LOCKS :: "shell_lock list" where
  "SHELL_LOCKS = [LOCK_TYPE_QUICK_MENU, LOCK_TYPE_POWEROFF_MENU, LOCK_TYPE_USB_CONNECTION, LOCK_TYPE_MUSIC_PLAYER, LOCK_TYPE_PS_BTN]"

definition CARD_LOCKS :: "shell_lock list" where "CARD_LOCKS = [LOCK_TYPE_MC_INSERTED, LOCK_TYPE_MC_REMOVED]"

definition lock_shell :: "'e app_sys \<Rightarrow> 'e \<Rightarrow> 'e" where "lock_shell sys e = sceShellUtilLock sys SHELL_LOCKS e"
definition unlock_shell :: "'e app_sys \<Rightarrow> 'e \<Rightarrow> 'e" where "unlock_shell sys e = sceShellUtilUnlock sys SHELL_LOCKS e"
definition init_shell :: "'e app_sys \<Rightarrow> 'e \<Rightarrow> 'e" where "init_shell sys e = sceShellUtilLock sys CARD_LOCKS e"
definition term_shell :: "'e app_sys \<Rightarrow> 'e \<Rightarrow> 'e" where "term_shell sys e = sceShellUtilUnlock sys CARD_LOCKS e"

definition unlock_power :: "'e app_sys \<Rightarrow> 'e \<Rightarrow> 'e" where "unlock_power sys e = set_disable_power sys False e"

definition lock_power :: "'e app_sys \<Rightarrow> 'e \<Rightarrow> int \<times> 'e" where
  "lock_power sys e =
     (let (thread_id, e) = sceKernelCreateThread sys e;
          (res, e) = (if thread_id < 0 then (thread_id, e) else sceKernelStartThread sys thread_id e);
          e = (if thread_id < 0 then sceKernelDeleteThread sys thread_id e else e)
      in (res, e))"

section \<open>Keys\<close>

definition sizeof_GcCmd56Keys :: nat where "sizeof_GcCmd56Keys = 0x40"

definition get_keys :: "'e app_sys \<Rightarrow> 'e \<Rightarrow> bytes" where
  "get_keys sys e = kGetPerCartKeys (ident sys) (keys_stk (garbage sys e)) e"

definition key_dump :: "'e app_sys \<Rightarrow> bytes \<Rightarrow> 'e \<Rightarrow> int \<times> 'e" where
  "key_dump sys output_file e =
     (let e = Paths.make_directories_excluding_last (path_stk (garbage sys e)) (io sys) output_file e;
          keys = get_keys sys e;
          (wr, e) = write_file (path_stk (garbage sys e)) (io sys) output_file keys e
      in (written sizeof_GcCmd56Keys wr, e))"

definition key_dump_network :: "'e app_sys \<Rightarrow> bytes \<Rightarrow> u16 \<Rightarrow> bytes \<Rightarrow> 'e \<Rightarrow> int \<times> 'e" where
  "key_dump_network sys ip ip_port output_file e =
     (let keys = get_keys sys e;
          (fd, e) = Net.begin_connection (net sys) ip ip_port e
      in if fd < 0 then (fd, e)
         else
           (let (res, e) = Net.begin_file_send (net sys) fd output_file (of_nat sizeof_GcCmd56Keys) e;
                (netwr, e) = (if res < 0 then (-1, e) else Net.file_send_data (net sys) fd keys e);
                e = (if fd \<ge> 0 then snd (Net.end_connection (net sys) fd e) else e)
            in if netwr = 0 then (SIZE_IS_ZERO, e)
               else if netwr \<noteq> int sizeof_GcCmd56Keys then (SIZE_NOT_MATCH, e)
               else (res, e)))"

section \<open>Waiting for a card\<close>

partial_function (option) wait_while :: "('e \<Rightarrow> bool) \<Rightarrow> ('e \<Rightarrow> 'e) \<Rightarrow> 'e \<Rightarrow> 'e option" where
  "wait_while b wait e = (if b e then wait_while b wait (wait e) else Some e)"

definition wait_for_gc_auth :: "'e app_sys \<Rightarrow> 'e \<Rightarrow> 'e option" where
  "wait_for_gc_auth sys e =
     do { e \<leftarrow> wait_while (kIsSdInserted sys) (sceKernelDelayThread (io sys) 30000) e;
          let e = (if \<not> kUndoneSd2VitaPatches sys e \<and> check_loaded_blacklisted_module sys e \<noteq> None
                   then kResetGc sys (kUndoSd2Vita sys e) else e);
          let e = kEnableGcEmuMgr sys e;
          let e = (if kIsAuthenticated (ident sys) e = 0 \<and> kIsMmcInserted sys e then kResetGc sys e else e);
          e \<leftarrow> wait_while (\<lambda>e. kIsAuthenticated (ident sys) e = 0) (sceKernelDelayThread (io sys) 30000) e;
          Some (kDisableGcEmuMgr sys e) }"

end
