(* ===== verification/Flows.thy ===== *)
theory Flows
  imports AppSys
begin

text \<open>
  The \<^verbatim>\<open>do_\<close> operations of \<^verbatim>\<open>app/menu.c\<close> and the handlers of \<^verbatim>\<open>app/main.c\<close>.  The state is
  the environment, the settings, the static buffer of \<^verbatim>\<open>device.c\<close> and the confirm and cancel buttons.
  A flow may wait for ever for a key, a dialog or a card, and is then undefined.  The screens are left
  out, except the messages, the information of a card and the progress, which are calls of the system.
\<close>

section \<open>Menus on the state\<close>

record 'e app =
  env :: 'e
  conf :: GcConfig
  dumpbuf :: bytes
  ctrls :: ctrl_state

definition key :: "'e app_sys \<Rightarrow> 'e app \<Rightarrow> 'e \<Rightarrow> (u32 \<times> 'e) option" where
  "key sys st e = get_key (peek sys) (linked sys) (sceKernelDelayThread (io sys) 1000) (ctrls st) e"

text \<open>The value a function returns that consists of the macro and \<^verbatim>\<open>return selected\<close>.\<close>

definition run_menu :: "'e app_sys \<Rightarrow> menu \<Rightarrow> 'e app \<Rightarrow> (int \<times> 'e app) option" where
  "run_menu sys func st =
     map_option (\<lambda>(r, e). (case r of Inl c \<Rightarrow> c | Inr selected \<Rightarrow> selected, st\<lparr>env := e\<rparr>))
       (PROCESS_MENU (key sys st) (ctrls st) (options_behind sys) func (env st))"

definition on_env :: "('e \<Rightarrow> 'e) \<Rightarrow> 'e app \<Rightarrow> 'e app" where
  "on_env f st = st\<lparr>env := f (env st)\<rparr>"

partial_function (option) WAIT_FOR_CONFIRM :: "'e app_sys \<Rightarrow> 'e app \<Rightarrow> 'e app option" where
  "WAIT_FOR_CONFIRM sys st =
     Option.bind (key sys st (env st)) (\<lambda>(ctrl, e).
       if ctrl = SCE_CTRL_CONFIRM (ctrls st) \<or> ctrl = SCE_CTRL_CANCEL (ctrls st) then Some (st\<lparr>env := e\<rparr>)
       else WAIT_FOR_CONFIRM sys (st\<lparr>env := e\<rparr>))"

section \<open>Messages\<close>

definition do_confirm_message :: "'e app_sys \<Rightarrow> bytes \<Rightarrow> bytes \<Rightarrow> 'e app \<Rightarrow> 'e app option" where
  "do_confirm_message sys title msg st =
     WAIT_FOR_CONFIRM sys (on_env (draw_confirmation_message sys title msg) st)"

definition do_error :: "'e app_sys \<Rightarrow> int \<Rightarrow> 'e app \<Rightarrow> (int \<times> 'e app) option" where
  "do_error sys error st =
     (if error = OP_CANCELED then Some (error, st)
      else
        (let msg = snprintf (path_stk (garbage sys (env st))) MAX_PATH
               (map of_char ''Error: '' @ map of_char (get_error_msg (sceErrorGetExternalString sys) error) @
                map of_char '' (0x'' @ hex2 (word_of_int error) @ map of_char '')'')
         in do { st \<leftarrow> do_confirm_message sys (cstr ''An error occured.'') msg st; Some (0, st) }))"

definition do_device_info :: "'e app_sys \<Rightarrow> 'e app \<Rightarrow> 'e app option" where
  "do_device_info sys st =
     (let info = get_gc_info (ident sys) (env st)
      in WAIT_FOR_CONFIRM sys (on_env (draw_lines sys (device_info_lines info)) st))"

definition do_gc_insert_prompt :: "'e app_sys \<Rightarrow> 'e app \<Rightarrow> 'e app option" where
  "do_gc_insert_prompt sys st = map_option (\<lambda>e. st\<lparr>env := e\<rparr>) (wait_for_gc_auth sys (env st))"

section \<open>The choices of the user\<close>

definition do_network_options :: "'e app_sys \<Rightarrow> 'e app \<Rightarrow> (int \<times> 'e app) option" where
  "do_network_options sys st = run_menu sys draw_network_settings st"

definition do_format_confirm :: "'e app_sys \<Rightarrow> 'e app \<Rightarrow> (int \<times> 'e app) option" where
  "do_format_confirm sys st = run_menu sys draw_format_confirm_menu st"

definition do_select_backup_format :: "'e app_sys \<Rightarrow> 'e app \<Rightarrow> (int \<times> 'e app) option" where
  "do_select_backup_format sys st = run_menu sys draw_select_backup_format st"

definition title_of_card :: "'e app_sys \<Rightarrow> 'e \<Rightarrow> bytes \<times> bytes \<times> 'e" where
  "title_of_card sys e =
     (let stk = garbage sys e;
          (_, title_id, title, e) = read_gameinfo (sfo_stk stk) (path_stk stk) (io sys) (title_id_stk stk) (title_stk stk) 64 e
      in (title_id, title, e))"

definition do_gc_options :: "'e app_sys \<Rightarrow> 'e app \<Rightarrow> (int \<times> 'e app) option" where
  "do_gc_options sys st =
     (let e = mount_gamecart (io sys) (env st);
          (_, _, e) = title_of_card sys e;
          (has_grw0, e) = device_exist (linked sys) BLOCK_DEVICE_GRW0 e;
          (has_mediaid, e) = device_exist (linked sys) BLOCK_DEVICE_MEDIAID e
      in run_menu sys (draw_gc_options (has_grw0 \<noteq> 0) (has_mediaid \<noteq> 0)) (st\<lparr>env := e\<rparr>))"

definition file_filter :: "bytes \<Rightarrow> u64 \<Rightarrow> SearchFilter" where
  "file_filter extension max_size =
     \<lparr>max_filesize = max_size, file_only = True, match_extension = strncpy (zeros MAX_PATH) 0 extension (MAX_PATH - 1)\<rparr>"

definition do_select_file ::
  "'e app_sys \<Rightarrow> bytes \<Rightarrow> bytes \<Rightarrow> bytes \<Rightarrow> u64 \<Rightarrow> 'e app \<Rightarrow> (int \<times> bytes \<times> 'e app) option" where
  "do_select_file sys folder output extension max_size st =
     (let (res, files, total_files, e) =
            get_files_in_folder (io sys) (before_name (garbage sys (env st))) folder (zeros (MAX_PATH * BUFFER_SIZE))
              (Some (file_filter extension max_size)) BUFFER_SIZE (env st);
          st = st\<lparr>env := e\<rparr>
      in if res < 0 then Some (res, output, st)
         else if total_files \<le> 0 then Some (TOTAL_FILES_LESS_THAN_EQ_0, output, st)
         else
           do { (r, e) \<leftarrow> PROCESS_MENU (key sys st) (ctrls st) (options_behind sys) (draw_select_file (int total_files)) (env st);
                let st = st\<lparr>env := e\<rparr>;
                case r of
                  Inl c \<Rightarrow> Some (c, output, st)
                | Inr selected \<Rightarrow> Some (selected, strncpy output 0 (drop (nat selected * MAX_PATH) files) MAX_PATH, st) })"

definition do_select_input_location :: "'e app_sys \<Rightarrow> 'e app \<Rightarrow> (int \<times> 'e app) option" where
  "do_select_input_location sys st =
     (let e = mount_devices (io sys) (env st);
          (ux_exist, e) = check_partition (io sys) (cstr ''ux0:'') e;
          (xmc_exist, e) = check_partition (io sys) (cstr ''xmc0:'') e;
          (uma_exist, e) = check_partition (io sys) (cstr ''uma0:'') e;
          (host_exist, e) = check_partition (io sys) (cstr ''host0:'') e
      in run_menu sys (draw_select_input_location ux_exist xmc_exist uma_exist host_exist) (st\<lparr>env := e\<rparr>))"

definition do_select_output_location :: "'e app_sys \<Rightarrow> u64 \<Rightarrow> 'e app \<Rightarrow> (int \<times> 'e app) option" where
  "do_select_output_location sys dev_size st =
     (let e = mount_devices (io sys) (env st);
          save_network = is_connected (net sys) (network_on sys, e);
          xmc_size = get_free_space (io sys) (cstr ''xmc0:'') e;
          uma_size = get_free_space (io sys) (cstr ''uma0:'') e;
          ux_size = get_free_space (io sys) (cstr ''ux0:'') e;
          (ux_exist, e) = check_partition (io sys) (cstr ''ux0:'') e;
          (xmc_exist, e) = check_partition (io sys) (cstr ''xmc0:'') e;
          (uma_exist, e) = check_partition (io sys) (cstr ''uma0:'') e;
          (host_exist, e) = check_partition (io sys) (cstr ''host0:'') e
      in run_menu sys (draw_select_output_location (ux_exist \<and> ux_size \<ge> dev_size) (xmc_exist \<and> xmc_size \<ge> dev_size)
           (uma_exist \<and> uma_size \<ge> dev_size) host_exist save_network) (st\<lparr>env := e\<rparr>))"

section \<open>Operations on a device\<close>

text \<open>What surrounds every operation on a device: locks, and the partitions that must not be mounted.\<close>

definition before_device :: "'e app_sys \<Rightarrow> 'e \<Rightarrow> 'e" where
  "before_device sys e =
     mount_devices (io sys) (umount_grw0 (io sys) (umount_gro0 (io sys) (snd (lock_power sys (lock_shell sys e)))))"

definition after_device :: "'e app_sys \<Rightarrow> 'e \<Rightarrow> 'e" where
  "after_device sys e =
     unlock_power sys (unlock_shell sys (umount_devices (io sys) (snd (mount_grw0 (io sys) (snd (mount_gro0 (io sys) e))))))"

definition do_device_wipe_and_format :: "'e app_sys \<Rightarrow> bytes \<Rightarrow> bool \<Rightarrow> bool \<Rightarrow> 'e app \<Rightarrow> (int \<times> 'e app) option" where
  "do_device_wipe_and_format sys block_device full format st =
     (let e = before_device sys (env st)
      in do { (res, buf, e) \<leftarrow> (if full then wipe_device (mbr_stk (garbage sys e)) (linked sys) block_device (Some (AppSys.draw_wipe_progress sys)) (dumpbuf st) e
                 else Some (0, dumpbuf st, e));
              let e = (if \<not> full then AppSys.draw_wipe_progress sys block_device [] 1 1 e else e);
              let (res, e) = (if format then AppSys.kFormatDevice sys block_device e else (res, e));
              Some (res, st\<lparr>env := after_device sys e, dumpbuf := buf\<rparr>) })"

definition do_device_restore :: "'e app_sys \<Rightarrow> bytes \<Rightarrow> bytes \<Rightarrow> 'e app \<Rightarrow> (int \<times> 'e app) option" where
  "do_device_restore sys block_device input_file st =
     (let e = before_device sys (env st)
      in do { (res, buf, e) \<leftarrow> restore_device (mbr_stk (garbage sys e)) (linked sys) block_device input_file
                (Some (AppSys.draw_restore_progress sys)) (dumpbuf st) e;
              Some (res, st\<lparr>env := after_device sys e, dumpbuf := buf\<rparr>) })"

definition do_device_dump ::
  "'e app_sys \<Rightarrow> bytes \<Rightarrow> bytes \<Rightarrow> BackupFormat \<Rightarrow> bytes option \<Rightarrow> u16 \<Rightarrow> 'e app \<Rightarrow> (int \<times> 'e app) option" where
  "do_device_dump sys block_device output_file format ip ip_port st =
     (let e = before_device sys (env st);
          keys = get_keys sys e;
          net_info = map_option (\<lambda>a. \<lparr>ni_ip_address = strncpy (ip_stk (garbage sys e)) 0 a 0x1F, ni_port = ip_port\<rparr>) ip
      in do { (res, buf, e) \<leftarrow> dump_device (mbr_stk (garbage sys e)) (linked sys) block_device output_file format
                (if \<not> FMT_IS_RAW format then Some keys else None) net_info (Some (AppSys.draw_dump_progress sys)) (dumpbuf st) e;
              Some (res, st\<lparr>env := after_device sys e, dumpbuf := buf\<rparr>) })"

end
