(* ===== verification/Handlers.thy ===== *)
theory Handlers
  imports Flows
begin

text \<open>
  The handlers of \<^verbatim>\<open>app/main.c\<close>: what the application does with the choices of its user, from the main
  menu down to the operations on a card.  Buffers of file names are arguments and results, since the
  handlers change them for their callers.
\<close>

section \<open>Choices\<close>

definition DUMP_WHOLE_GC :: int where "DUMP_WHOLE_GC = 0"
definition DUMP_KEYS_ONLY :: int where "DUMP_KEYS_ONLY = 1"
definition DUMP_MEDIAID :: int where "DUMP_MEDIAID = 2"
definition WRITE_MEDIAID :: int where "WRITE_MEDIAID = 3"
definition RESET_MEDIAID :: int where "RESET_MEDIAID = 4"
definition DUMP_GRW0 :: int where "DUMP_GRW0 = 5"
definition WRITE_GRW0 :: int where "WRITE_GRW0 = 6"
definition RESET_GRW0 :: int where "RESET_GRW0 = 7"
definition GET_GC_INFO :: int where "GET_GC_INFO = 8"

definition CHANGE_IP :: int where "CHANGE_IP = 0"
definition CHANGE_PORT :: int where "CHANGE_PORT = 1"
definition START_DUMP :: int where "START_DUMP = 2"

definition FULL_FORMAT :: int where "FULL_FORMAT = 0"
definition QUICK_FORMAT :: int where "QUICK_FORMAT = 1"
definition CANCEL_FORMAT :: int where "CANCEL_FORMAT = 2"

definition RESTORE_LOCATION_UX0 :: int where "RESTORE_LOCATION_UX0 = 0"
definition RESTORE_LOCATION_XMC :: int where "RESTORE_LOCATION_XMC = 1"
definition RESTORE_LOCATION_UMA :: int where "RESTORE_LOCATION_UMA = 2"
definition RESTORE_LOCATION_HOST :: int where "RESTORE_LOCATION_HOST = 3"
definition I_RELOAD_DEVICES :: int where "I_RELOAD_DEVICES = 4"

definition DUMP_LOCATION_UX0 :: int where "DUMP_LOCATION_UX0 = 0"
definition DUMP_LOCATION_XMC :: int where "DUMP_LOCATION_XMC = 1"
definition DUMP_LOCATION_UMA :: int where "DUMP_LOCATION_UMA = 2"
definition DUMP_LOCATION_HOST :: int where "DUMP_LOCATION_HOST = 3"
definition DUMP_LOCATION_NET :: int where "DUMP_LOCATION_NET = 4"
definition CHANGE_FILENAME :: int where "CHANGE_FILENAME = 5"
definition O_RELOAD_DEVICES :: int where "O_RELOAD_DEVICES = 6"

definition SELECT_FMT_VCI :: int where "SELECT_FMT_VCI = 0"
definition SELECT_FMT_VCI_TRIM :: int where "SELECT_FMT_VCI_TRIM = 1"
definition SELECT_FMT_PSV :: int where "SELECT_FMT_PSV = 2"
definition SELECT_FMT_PSV_TRIM :: int where "SELECT_FMT_PSV_TRIM = 3"
definition SELECT_FMT_RAW :: int where "SELECT_FMT_RAW = 4"

lemmas choices = DUMP_WHOLE_GC_def DUMP_KEYS_ONLY_def DUMP_MEDIAID_def WRITE_MEDIAID_def RESET_MEDIAID_def DUMP_GRW0_def
  WRITE_GRW0_def RESET_GRW0_def GET_GC_INFO_def OP_CANCELED_def

section \<open>Names of backups\<close>

definition decimal2 :: "nat \<Rightarrow> bytes" where
  "decimal2 n = (if n < 10 then 48 # decimal n else decimal n)"

definition output_filename_of :: "bytes \<Rightarrow> bytes \<Rightarrow> bytes \<Rightarrow> nat \<Rightarrow> bytes" where
  "output_filename_of title title_id extension number =
     (if number > 0
      then chars title @ map of_char '' ['' @ chars title_id @ map of_char ''] ('' @ decimal2 number @ map of_char '').'' @ chars extension
      else chars title @ map of_char '' ['' @ chars title_id @ map of_char ''].'' @ chars extension)"

definition get_output_filename :: "'e app_sys \<Rightarrow> bytes \<Rightarrow> bytes \<Rightarrow> nat \<Rightarrow> 'e \<Rightarrow> bytes \<times> 'e" where
  "get_output_filename sys output extension number e =
     (let (title_id, title, e) = title_of_card sys e
      in (Paths.remove_illegal_chars (snprintf output (length output) (output_filename_of title title_id extension number)), e))"

section \<open>Dumping\<close>

text \<open>The name is changed for the caller when the keys are dumped behind the card.\<close>

definition dump_keys :: "'e app_sys \<Rightarrow> bytes option \<Rightarrow> u16 \<Rightarrow> bytes \<Rightarrow> 'e app \<Rightarrow> int \<times> 'e app" where
  "dump_keys sys ip ip_port out_file st =
     (let (res, e) = (case ip of
            None \<Rightarrow> key_dump sys out_file (env st)
          | Some a \<Rightarrow> key_dump_network sys a ip_port out_file (env st))
      in (res, st\<lparr>env := e\<rparr>))"

definition handle_dump_device ::
  "'e app_sys \<Rightarrow> int \<Rightarrow> BackupFormat \<Rightarrow> bytes \<Rightarrow> bytes \<Rightarrow> bytes option \<Rightarrow> u16 \<Rightarrow> 'e app \<Rightarrow> (int \<times> bytes \<times> 'e app) option" where
  "handle_dump_device sys what format block_device out_file ip ip_port st =
     do { (res, st) \<leftarrow> (if what \<noteq> DUMP_KEYS_ONLY then do_device_dump sys block_device out_file format ip ip_port st
            else Some (dump_keys sys ip ip_port out_file st));
          let (res, out_file, st) =
            (if what = DUMP_WHOLE_GC \<and> \<not> FMT_IS_VCI format then
               (let out_file = change_extension out_file MAX_PATH (cstr ''.keys.bin'');
                    (res, st) = dump_keys sys ip ip_port out_file st
                in (res, out_file, st))
             else (res, out_file, st));
          if res < 0 then do { (_, st) \<leftarrow> do_error sys res st; Some (res, out_file, st) }
          else
            (let msg = snprintf (path_stk (garbage sys (env st))) (MAX_PATH - 1)
                   (map of_char ''Backup created at: '' @ chars out_file @ map of_char '' ...'')
             in do { st \<leftarrow> do_confirm_message sys (cstr ''Backup Success!'') msg st; Some (res, out_file, st) }) }"

text \<open>
  Text from the dialog is copied to memory without a bound.  A name that is longer than its array on
  the stack overwrites memory the source says nothing of: the run is then undefined, as one that does not return.
  The address is copied into the settings, and a longer one goes on to the port and the folder behind it;
  only behind the end of the settings the run is undefined.
\<close>

definition ask_text :: "'e app_sys \<Rightarrow> string \<Rightarrow> bytes \<Rightarrow> nat \<Rightarrow> 'e app \<Rightarrow> (bytes \<times> 'e app) option" where
  "ask_text sys title text max_len st =
     do { answer \<leftarrow> open_ime (dialog sys (env st)) (cstr title) text max_len;
          if length answer > length text then None
          else Some (put_field (0, length answer) answer text, on_env (after_dialog sys) st) }"

text \<open>The settings' memory from the address on, which is what the functions that take the address can read.\<close>

definition address_at :: "'e app_sys \<Rightarrow> GcConfig \<Rightarrow> bytes" where
  "address_at sys c = drop (fst cfg_ip) (config_bytes (enum_size sys) c)"

definition ask_ip :: "'e app_sys \<Rightarrow> 'e app \<Rightarrow> 'e app option" where
  "ask_ip sys st =
     do { (memory, st) \<leftarrow> ask_text sys ''Enter IP'' (address_at sys (conf st)) (snd cfg_ip - 1) st;
          let CONFIG = take (fst cfg_ip) (config_bytes (enum_size sys) (conf st)) @ memory;
          let CONFIG =
            (if \<not> check_ip_address_valid (net sys) memory (env st)
             then put_field cfg_ip (strncpy (get_field cfg_ip CONFIG) 0 DEFAULT_IP (snd cfg_ip - 1)) CONFIG else CONFIG);
          Some (st\<lparr>conf := config_of_bytes (enum_size sys) CONFIG\<rparr>) }"

definition ask_port :: "'e app_sys \<Rightarrow> 'e app \<Rightarrow> 'e app option" where
  "ask_port sys st =
     do { p \<leftarrow> open_ime_short (dialog sys (env st)) (cstr ''Enter PORT'') (port (conf st));
          Some (on_env (after_dialog sys) (st\<lparr>conf := (conf st)\<lparr>port := p\<rparr>\<rparr>)) }"

partial_function (option) network_turns :: "'e app_sys \<Rightarrow> 'e app \<Rightarrow> (bool \<times> 'e app) option" where
  "network_turns sys st =
     do { (selected, st) \<leftarrow> do_network_options sys st;
          if selected = CHANGE_IP then do { st \<leftarrow> ask_ip sys st; network_turns sys st }
          else if selected = CHANGE_PORT then do { st \<leftarrow> ask_port sys st; network_turns sys st }
          else if selected = OP_CANCELED then Some (False, st)
          else Some (True, st) }"

definition handle_menu_set_network_options ::
  "'e app_sys \<Rightarrow> int \<Rightarrow> BackupFormat \<Rightarrow> bytes \<Rightarrow> bytes \<Rightarrow> 'e app \<Rightarrow> (int \<times> bytes \<times> 'e app) option" where
  "handle_menu_set_network_options sys what format block_device outfile st =
     do { (go, st) \<leftarrow> network_turns sys st;
          if \<not> go then Some (OP_CANCELED, outfile, st)
          else
            (let (_, e) = save_config (path_stk (garbage sys (env st))) (enum_size sys) (io sys) (conf st) (env st);
                 st = st\<lparr>env := e\<rparr>
             in handle_dump_device sys what format block_device outfile (Some (address_at sys (conf st))) (port (conf st)) st) }"

section \<open>Where a backup goes\<close>

definition backup_path :: "'e app_sys \<Rightarrow> bytes \<Rightarrow> bytes \<Rightarrow> string \<Rightarrow> bytes \<Rightarrow> bytes" where
  "backup_path sys stk folder output_device output_filename =
     snprintf stk (MAX_PATH - 1) (map of_char output_device @ chars folder @ map of_char ''/'' @ chars output_filename)"

text \<open>The loop that looks for a name that is not taken.\<close>

partial_function (option) free_name ::
  "'e app_sys \<Rightarrow> bytes \<Rightarrow> string \<Rightarrow> bytes \<Rightarrow> nat \<Rightarrow> bytes \<Rightarrow> bytes \<Rightarrow> 'e \<Rightarrow> (bytes \<times> bytes \<times> 'e) option" where
  "free_name sys folder output_device ext num output_folder output_filename e =
     (if file_exist (io sys) output_folder e then
        (case get_output_filename sys output_filename ext num e of
           (output_filename, e) \<Rightarrow>
             free_name sys folder output_device ext (num + 1) (backup_path sys output_folder folder output_device output_filename)
               output_filename e)
      else Some (output_folder, output_filename, e))"

definition output_device_of :: "int \<Rightarrow> string option" where
  "output_device_of selected =
     (if selected = DUMP_LOCATION_UX0 then Some ''ux0:''
      else if selected = DUMP_LOCATION_XMC then Some ''xmc0:''
      else if selected = DUMP_LOCATION_UMA then Some ''uma0:''
      else if selected = DUMP_LOCATION_HOST then Some ''host0:''
      else if selected = DUMP_LOCATION_NET then Some ''''
      else None)"

definition device_of :: "int \<Rightarrow> bytes option" where
  "device_of what =
     (if what = DUMP_WHOLE_GC then Some BLOCK_DEVICE_GC
      else if what = DUMP_MEDIAID then Some BLOCK_DEVICE_MEDIAID
      else if what = DUMP_GRW0 then Some BLOCK_DEVICE_GRW0
      else None)"

text \<open>The block device is null for the keys alone, which are then dumped without it.\<close>

definition null_device :: bytes where "null_device = []"

partial_function (option) output_turns ::
  "'e app_sys \<Rightarrow> bytes \<Rightarrow> BackupFormat \<Rightarrow> int \<Rightarrow> bytes option \<Rightarrow> u64 \<Rightarrow> bytes \<Rightarrow> 'e app \<Rightarrow> 'e app option" where
  "output_turns sys ext format what block_device required_space output_filename st =
     do { (selected, st) \<leftarrow> do_select_output_location sys required_space st;
          if selected = CHANGE_FILENAME then
            do { (name, st) \<leftarrow> ask_text sys ''Enter filename'' output_filename MAX_PATH st;
                 output_turns sys ext format what block_device required_space (Paths.remove_illegal_chars name) st }
          else if selected = O_RELOAD_DEVICES then
            output_turns sys ext format what block_device required_space output_filename st
          else
            (case output_device_of selected of
               None \<Rightarrow> Some st
             | Some output_device \<Rightarrow>
                 do { (output_folder, output_filename, e) \<leftarrow>
                        free_name sys (backup_folder (conf st)) output_device ext 1
                          (backup_path sys (path_stk (garbage sys (env st))) (backup_folder (conf st)) output_device output_filename)
                          output_filename (env st);
                      let st = st\<lparr>env := e\<rparr>;
                      let dev_name = (case block_device of None \<Rightarrow> null_device | Some d \<Rightarrow> d);
                      if selected \<noteq> DUMP_LOCATION_NET then
                        do { (res, _, st) \<leftarrow> handle_dump_device sys what format dev_name output_folder None 0 st; Some st }
                      else
                        do { (res, output_filename, st) \<leftarrow> handle_menu_set_network_options sys what format dev_name output_filename st;
                             if res = OP_CANCELED
                             then output_turns sys ext format what block_device required_space output_filename st
                             else Some st } }) }"

definition handle_menu_set_output :: "'e app_sys \<Rightarrow> bytes \<Rightarrow> BackupFormat \<Rightarrow> int \<Rightarrow> 'e app \<Rightarrow> 'e app option" where
  "handle_menu_set_output sys ext format what st =
     (let block_device = device_of what;
          (output_filename, e) = get_output_filename sys (path_stk (garbage sys (env st))) ext 0 (env st);
          required_space = of_nat sizeof_GcCmd56Keys;
          (required_space, e) =
            (case block_device of
               None \<Rightarrow> (required_space, e)
             | Some d \<Rightarrow> (let (_, n, e) = get_effective_size (mbr_stk (garbage sys e)) (linked sys) d format (Some required_space) e in (the n, e)))
      in output_turns sys ext format what block_device required_space output_filename (st\<lparr>env := e\<rparr>))"

definition format_of :: "BackupFormat \<times> string \<Rightarrow> int \<Rightarrow> BackupFormat \<times> string" where
  "format_of fmt selected =
     (if selected = SELECT_FMT_VCI then (BACKUP_FORMAT_VCI, ''vci'')
      else if selected = SELECT_FMT_VCI_TRIM then (BACKUP_FORMAT_VCI_TRIM, ''trim.vci'')
      else if selected = SELECT_FMT_PSV then (BACKUP_FORMAT_PSV, ''psv'')
      else if selected = SELECT_FMT_PSV_TRIM then (BACKUP_FORMAT_PSV_TRIM, ''trim.psv'')
      else if selected = SELECT_FMT_RAW then (BACKUP_FORMAT_RAW, ''img'')
      else fmt)"

text \<open>The loop keeps the format of the turn before and goes on until it is cancelled.\<close>

partial_function (option) format_turns :: "'e app_sys \<Rightarrow> int \<Rightarrow> BackupFormat \<times> string \<Rightarrow> 'e app \<Rightarrow> 'e app option" where
  "format_turns sys what fmt st =
     do { (selected, st) \<leftarrow> do_select_backup_format sys st;
          if selected = OP_CANCELED then Some st
          else do { st \<leftarrow> handle_menu_set_output sys (cstr (snd (format_of fmt selected))) (fst (format_of fmt selected)) what st;
                    format_turns sys what (format_of fmt selected) st } }"

definition handle_menu_select_backup_format :: "'e app_sys \<Rightarrow> int \<Rightarrow> 'e app \<Rightarrow> 'e app option" where
  "handle_menu_select_backup_format sys what st = format_turns sys what (BACKUP_FORMAT_VCI, ''vci'') st"

section \<open>Wiping and restoring\<close>

definition handle_format_confirm_and_format :: "'e app_sys \<Rightarrow> bytes \<Rightarrow> 'e app \<Rightarrow> (int \<times> 'e app) option" where
  "handle_format_confirm_and_format sys block_device st =
     do { (selected, st) \<leftarrow> do_format_confirm sys st;
          if selected = OP_CANCELED \<or> selected = CANCEL_FORMAT then Some (OP_CANCELED, st)
          else do_device_wipe_and_format sys block_device (selected = FULL_FORMAT) True st }"

definition report :: "'e app_sys \<Rightarrow> int \<Rightarrow> string \<Rightarrow> bytes \<Rightarrow> 'e app \<Rightarrow> 'e app option" where
  "report sys res title text st =
     (if res < 0 then map_option snd (do_error sys res st)
      else do_confirm_message sys (cstr title) (snprintf (path_stk (garbage sys (env st))) (MAX_PATH - 1) text) st)"

definition handle_wipe_option :: "'e app_sys \<Rightarrow> int \<Rightarrow> 'e app \<Rightarrow> 'e app option" where
  "handle_wipe_option sys what st =
     (if what = RESET_MEDIAID \<or> what = RESET_GRW0 then
        (let block_device = (if what = RESET_MEDIAID then BLOCK_DEVICE_MEDIAID else BLOCK_DEVICE_GRW0)
         in do { (res, st) \<leftarrow> (if what = RESET_GRW0 then handle_format_confirm_and_format sys block_device st
                   else do_device_wipe_and_format sys block_device True False st);
                 if res = OP_CANCELED then Some st
                 else report sys res ''Format Success!''
                   (map of_char ''Formatted: '' @ [0x22] @ chars block_device @ [0x22] @ map of_char '' ...'') st })
      else Some st)"

text \<open>The braces that are missing in the source make the test for errors part of the test for \<open>OP_CANCELED\<close>.\<close>

definition handle_select_file :: "'e app_sys \<Rightarrow> int \<Rightarrow> bytes \<Rightarrow> 'e app \<Rightarrow> 'e app option" where
  "handle_select_file sys what folder st =
     (if what = WRITE_MEDIAID \<or> what = WRITE_GRW0 then
        (let block_device = (if what = WRITE_MEDIAID then BLOCK_DEVICE_MEDIAID else BLOCK_DEVICE_GRW0);
             extension = (if what = WRITE_MEDIAID then cstr ''.mediaid'' else cstr ''.img'');
             (_, n, e) = get_effective_size (mbr_stk (garbage sys (env st))) (linked sys) block_device BACKUP_FORMAT_RAW (Some 0) (env st);
             st = st\<lparr>env := e\<rparr>
         in do { (selected, file_name, st) \<leftarrow> do_select_file sys folder (file_stk (garbage sys (env st))) extension (the n) st;
                 if selected = OP_CANCELED \<and> selected < 0 then map_option snd (do_error sys selected st)
                 else
                   (let input_file = snprintf (path_stk (garbage sys (env st))) (MAX_PATH - 1)
                          (chars folder @ map of_char ''/'' @ chars file_name)
                    in do { (res, st) \<leftarrow> do_device_restore sys block_device input_file st;
                            report sys res ''Restore Success!''
                              (map of_char ''Restored from: '' @ chars input_file @ map of_char '' ...'') st }) })
      else Some st)"

definition input_device_of :: "int \<Rightarrow> string" where
  "input_device_of selected =
     (if selected = RESTORE_LOCATION_UX0 then ''ux0:''
      else if selected = RESTORE_LOCATION_XMC then ''xmc0:''
      else if selected = RESTORE_LOCATION_UMA then ''uma0:''
      else if selected = RESTORE_LOCATION_HOST then ''host0:''
      else ''(null)'')"

partial_function (option) input_turns :: "'e app_sys \<Rightarrow> 'e app \<Rightarrow> (int \<times> 'e app) option" where
  "input_turns sys st =
     do { (selected, st) \<leftarrow> do_select_input_location sys st;
          if selected = I_RELOAD_DEVICES then input_turns sys st else Some (selected, st) }"

definition handle_select_input_device :: "'e app_sys \<Rightarrow> int \<Rightarrow> 'e app \<Rightarrow> 'e app option" where
  "handle_select_input_device sys what st =
     do { (selected, st) \<leftarrow> input_turns sys st;
          if selected = OP_CANCELED then Some st
          else
            (let input_folder = snprintf (path_stk (garbage sys (env st))) MAX_PATH
                   (map of_char (input_device_of selected) @ chars (backup_folder (conf st)));
                 st = on_env (make_directories (io sys) input_folder) st
             in handle_select_file sys what input_folder st) }"

section \<open>The main menu\<close>

definition ext_of :: "int \<Rightarrow> string" where
  "ext_of selected =
     (if selected = DUMP_WHOLE_GC then ''vci''
      else if selected = DUMP_KEYS_ONLY then ''keys.bin''
      else if selected = DUMP_MEDIAID \<or> selected = WRITE_MEDIAID then ''mediaid''
      else if selected = DUMP_GRW0 \<or> selected = WRITE_GRW0 then ''img''
      else '''')"

definition handle_selected :: "'e app_sys \<Rightarrow> int \<Rightarrow> 'e app \<Rightarrow> 'e app option" where
  "handle_selected sys selected st =
     (if selected = DUMP_WHOLE_GC then handle_menu_select_backup_format sys selected st
      else if selected = DUMP_KEYS_ONLY \<or> selected = DUMP_MEDIAID \<or> selected = DUMP_GRW0
      then handle_menu_set_output sys (cstr (ext_of selected)) BACKUP_FORMAT_RAW selected st
      else if selected = RESET_MEDIAID \<or> selected = RESET_GRW0 then handle_wipe_option sys selected st
      else if selected = WRITE_MEDIAID \<or> selected = WRITE_GRW0 then handle_select_input_device sys selected st
      else if selected = GET_GC_INFO then do_device_info sys st
      else if selected = OP_CANCELED then do_gc_insert_prompt sys st
      else Some st)"

definition handle_menu_select_option :: "'e app_sys \<Rightarrow> 'e app \<Rightarrow> 'e app option" where
  "handle_menu_select_option sys st =
     do { (selected, st) \<leftarrow> do_gc_options sys st; handle_selected sys selected st }"

text \<open>
  The start of the program up to its endless loop; \<open>Inl\<close> is a program that ends, without the kernel
  module.  The initialisation of graphics, sound and network is left out.
\<close>

definition main_start :: "'e app_sys \<Rightarrow> bool \<Rightarrow> 'e app \<Rightarrow> ('e app + 'e app) option" where
  "main_start sys has_restarted st =
     (let (c, e) = init_config (path_stk (garbage sys (env st))) (enum_size sys) (io sys) (conf st) (env st);
          ctl = init_ctrl (is_circle_confirm c (sceRegMgr_button_assign sys) e);
          e = init_shell sys e;
          e = (if \<not> has_restarted then load_kernel_modules sys e else e);
          st = st\<lparr>env := e, conf := c, ctrls := ctl\<rparr>
      in if \<not> module_started sys KMODULE_NAME e
         then map_option Inl (WAIT_FOR_CONFIRM sys st)
         else map_option Inr (do_gc_insert_prompt sys st))"

text \<open>The states the endless loop is in before a turn.\<close>

inductive at_main_menu :: "'e app_sys \<Rightarrow> 'e app \<Rightarrow> 'e app \<Rightarrow> bool" for sys st0 where
  main_starts: "at_main_menu sys st0 st0"
| main_turns: "at_main_menu sys st0 st \<Longrightarrow> handle_menu_select_option sys st = Some st' \<Longrightarrow> at_main_menu sys st0 st'"

end
