(* ===== verification/Frames.thy ===== *)
theory Frames
  imports Handlers
begin

text \<open>
  What the flows leave alone.  \<open>v\<close> is anything that can be seen of the environment; \<open>steady sys v\<close> says that no
  call of the system changes it, except the writing calls of a card and the locks of the shell.  Every
  flow that does not write then keeps it, and so do the others where these calls do: one lemma per operation.
\<close>

named_theorems steady_ops "operations that leave a view alone"

section \<open>Steady systems\<close>

definition io_steady :: "'e io_sys \<Rightarrow> ('e \<Rightarrow> 'v) \<Rightarrow> bool" where
  "io_steady s v \<longleftrightarrow>
     (\<forall>p e. v (snd (sceIoDopen s p e)) = v e) \<and> (\<forall>fd e. v (snd (snd (sceIoDread s fd e))) = v e) \<and>
     (\<forall>fd e. v (snd (sceIoDclose s fd e)) = v e) \<and> (\<forall>p f e. v (snd (sceIoOpen s p f e)) = v e) \<and>
     (\<forall>fd b e. v (snd (snd (sceIoRead s fd b e))) = v e) \<and> (\<forall>fd b e. v (snd (sceIoWrite s fd b e)) = v e) \<and>
     (\<forall>fd e. v (snd (sceIoClose s fd e)) = v e) \<and> (\<forall>p e. v (sceIoMkdir s p e) = v e) \<and>
     (\<forall>i m e. v (snd (vshIoMount s i m e)) = v e) \<and> (\<forall>i m e. v (vshIoUmount s i m e) = v e) \<and>
     (\<forall>n e. v (sceKernelDelayThread s n e) = v e)"

definition net_steady :: "'e net_sys \<Rightarrow> ('e \<Rightarrow> 'v) \<Rightarrow> bool" where
  "net_steady s v \<longleftrightarrow>
     (\<forall>n e. v (snd (sceNetSocket s n e)) = v e) \<and> (\<forall>fd a e. v (snd (sceNetConnect s fd a e)) = v e) \<and>
     (\<forall>fd b e. v (snd (sceNetSend s fd b e)) = v e) \<and> (\<forall>fd e. v (snd (sceNetShutdown s fd e)) = v e) \<and>
     (\<forall>fd e. v (snd (sceNetSocketClose s fd e)) = v e)"

definition dev_steady :: "'e dev_sys \<Rightarrow> ('e \<Rightarrow> 'v) \<Rightarrow> bool" where
  "dev_steady s v \<longleftrightarrow>
     (\<forall>p f e. v (snd (kOpenDevice s p f e)) = v e) \<and> (\<forall>fd b e. v (snd (snd (kReadDevice s fd b e))) = v e) \<and>
     (\<forall>fd e. v (kCloseDevice s fd e) = v e) \<and> (\<forall>p n e. v (snd (snd (kGetDeviceSize s p n e))) = v e) \<and>
     (\<forall>b e. v (snd (kGetCartSecret s b e)) = v e) \<and> (\<forall>b e. v (snd (kGetCartHash s b e)) = v e) \<and>
     (\<forall>p f e. v (snd (Device.sceIoOpen s p f e)) = v e) \<and> (\<forall>fd b e. v (snd (snd (Device.sceIoRead s fd b e))) = v e) \<and>
     (\<forall>fd b e. v (snd (Device.sceIoWrite s fd b e)) = v e) \<and> (\<forall>fd n e. v (snd (sceIoLseek s fd n e)) = v e) \<and>
     (\<forall>fd e. v (Device.sceIoClose s fd e) = v e) \<and> (\<forall>p e. v (sceIoRemove s p e) = v e)"

definition progress_steady :: "'e progress \<Rightarrow> ('e \<Rightarrow> 'v) \<Rightarrow> bool" where
  "progress_steady f v \<longleftrightarrow> (\<forall>a b n m e. v (f a b n m e) = v e)"

definition steady :: "'e app_sys \<Rightarrow> ('e \<Rightarrow> 'v) \<Rightarrow> bool" where
  "steady s v \<longleftrightarrow> io_steady (io s) v \<and> net_steady (net s) v \<and> dev_steady (dev s) v \<and>
     (\<forall>e. v (snd (peek s e)) = v e) \<and> (\<forall>e. v (after_dialog s e) = v e) \<and>
     (\<forall>e. v (snd (sceKernelCreateThread s e)) = v e) \<and> (\<forall>i e. v (snd (sceKernelStartThread s i e)) = v e) \<and>
     (\<forall>i e. v (sceKernelDeleteThread s i e) = v e) \<and> (\<forall>b e. v (set_disable_power s b e) = v e) \<and>
     (\<forall>e. v (kUndoSd2Vita s e) = v e) \<and> (\<forall>e. v (kResetGc s e) = v e) \<and>
     (\<forall>e. v (AppSys.kEnableGcEmuMgr s e) = v e) \<and> (\<forall>e. v (AppSys.kDisableGcEmuMgr s e) = v e) \<and>
     (\<forall>t m e. v (draw_confirmation_message s t m e) = v e) \<and> (\<forall>i e. v (draw_lines s i e) = v e) \<and>
     progress_steady (draw_dump_progress s) v \<and> progress_steady (draw_restore_progress s) v \<and>
     progress_steady (draw_wipe_progress s) v"

text \<open>Locks that move \<open>v\<close> and are undone; calls that write a card and leave \<open>v\<close> alone.\<close>

definition locks_move :: "'e app_sys \<Rightarrow> ('e \<Rightarrow> 'v) \<Rightarrow> ('v \<Rightarrow> 'v) \<Rightarrow> ('v \<Rightarrow> 'v) \<Rightarrow> bool" where
  "locks_move s v up down \<longleftrightarrow> (\<forall>e. v (sceShellUtilLock s SHELL_LOCKS e) = up (v e)) \<and>
     (\<forall>e. v (sceShellUtilUnlock s SHELL_LOCKS e) = down (v e)) \<and> (\<forall>x. down (up x) = x)"

definition writes_steady :: "'e app_sys \<Rightarrow> ('e \<Rightarrow> 'v) \<Rightarrow> bool" where
  "writes_steady s v \<longleftrightarrow> (\<forall>fd b e. v (snd (kWriteDevice (dev s) fd b e)) = v e) \<and>
     (\<forall>d e. v (snd (AppSys.kFormatDevice s d e)) = v e)"

lemma io_steady_facts [steady_ops]:
  assumes "io_steady s v"
  shows "v (snd (sceIoDopen s p e)) = v e" "v (snd (snd (sceIoDread s fd e))) = v e" "v (snd (sceIoDclose s fd e)) = v e"
    "v (snd (sceIoOpen s p f e)) = v e" "v (snd (snd (sceIoRead s fd b e))) = v e" "v (snd (sceIoWrite s fd b e)) = v e"
    "v (snd (sceIoClose s fd e)) = v e" "v (sceIoMkdir s p e) = v e" "v (snd (vshIoMount s i m e)) = v e"
    "v (vshIoUmount s i m e) = v e" "v (sceKernelDelayThread s n e) = v e"
  using assms by (simp_all add: io_steady_def)

lemma net_steady_facts [steady_ops]:
  assumes "net_steady s v"
  shows "v (snd (sceNetSocket s n e)) = v e" "v (snd (sceNetConnect s fd a e)) = v e" "v (snd (sceNetSend s fd b e)) = v e"
    "v (snd (sceNetShutdown s fd e)) = v e" "v (snd (sceNetSocketClose s fd e)) = v e"
  using assms by (simp_all add: net_steady_def)

section \<open>Files\<close>

lemma read_first_filename_steady [steady_ops]:
  "io_steady s v \<Longrightarrow> v (snd (snd (read_first_filename s p out n e))) = v e"
  by (simp add: read_first_filename_def Let_def case_prod_unfold steady_ops)

lemma check_partition_steady [steady_ops]: "io_steady s v \<Longrightarrow> v (snd (check_partition s p e)) = v e"
  by (simp add: check_partition_def Let_def case_prod_unfold steady_ops)

lemma wait_for_partition_steady [steady_ops]: "io_steady s v \<Longrightarrow> v (snd (wait_for_partition s p e)) = v e"
proof -
  assume s: "io_steady s v"
  have "v (wait_turns s p n e) = v e" for n e
    using s by (induction n arbitrary: e) (simp_all add: steady_ops)
  then show ?thesis by (simp add: wait_for_partition_def Let_def)
qed

lemma mount_steady [steady_ops]:
  assumes "io_steady s v"
  shows "v (mount_gamecart s e) = v e" "v (mount_devices s e) = v e" "v (snd (mount_gro0 s e)) = v e" "v (snd (mount_grw0 s e)) = v e"
    "v (umount_gro0 s e) = v e" "v (umount_grw0 s e) = v e" "v (umount_devices s e) = v e"
  using assms
  by (simp_all add: mount_gamecart_def mount_devices_def mount_gro0_def mount_grw0_def mount_uma_def mount_xmc_def mount_partition_def
      umount_gro0_def umount_grw0_def umount_devices_def umount_xmc_def umount_uma_def Let_def case_prod_unfold steady_ops)

lemma fold_steady: "(\<And>i e. v (f i e) = v e) \<Longrightarrow> v (fold f xs e) = v e"
  by (induction xs arbitrary: e) simp_all

lemma make_directories_steady [steady_ops]:
  assumes "io_steady s v"
  shows "v (make_directories s p e) = v e" "v (Paths.make_directories_excluding_last stk s q e) = v e"
proof -
  have "v (make_directory_at s d i e) = v e" for d i e
    using assms by (simp add: make_directory_at_def Let_def steady_ops)
  then have m: "v (make_directories s d e) = v e" for d e
    using assms by (simp add: make_directories_def steady_ops fold_steady)
  then show "v (make_directories s p e) = v e" "v (Paths.make_directories_excluding_last stk s q e) = v e"
    by (simp_all add: Paths.make_directories_excluding_last_def case_prod_unfold)
qed

lemma read_write_file_steady [steady_ops]:
  assumes "io_steady s v"
  shows "v (snd (snd (read_file s p b e))) = v e" "v (snd (write_file stk s p b e)) = v e"
  using assms by (simp_all add: read_file_def write_file_def Let_def case_prod_unfold steady_ops)

lemma get_files_in_folder_steady [steady_ops]:
  assumes s: "io_steady s v"
  shows "v (snd (snd (snd (get_files_in_folder s front p out f n e)))) = v e"
proof -
  have turns: "v (snd (snd (case list_turns s front f dfd n st of Inl x \<Rightarrow> x | Inr x \<Rightarrow> x))) = v (snd (snd st))" for n dfd st
  proof (induction n arbitrary: st)
    case (Suc n)
    then show ?case using s by (cases st) (simp add: Let_def case_prod_unfold steady_ops)
  qed simp
  have l: "v b = v e" if "list_turns s front f dfd n (o1, k, e) = Inl (a, c, b)" for dfd o1 k e a c b
    using turns [of dfd n "(o1, k, e)"] that by simp
  have r: "v b = v e" if "list_turns s front f dfd n (o1, k, e) = Inr (a, c, b)" for dfd o1 k e a c b
    using turns [of dfd n "(o1, k, e)"] that by simp
  show ?thesis
    using s by (auto simp add: get_files_in_folder_def Let_def case_prod_unfold steady_ops split: sum.split dest!: l r)
qed

lemma read_sfo_key_steady [steady_ops]:
  "io_steady s v \<Longrightarrow> v (snd (snd (read_sfo_key stk s p k out n e))) = v e"
  by (simp add: read_sfo_key_def sfo_exit_def Let_def case_prod_unfold steady_ops split: sum.split)

lemma read_gameinfo_steady [steady_ops]:
  "io_steady s v \<Longrightarrow> v (snd (snd (snd (read_gameinfo stk pstk s a b n e)))) = v e"
  by (simp add: read_gameinfo_def Let_def case_prod_unfold steady_ops)

lemma save_config_steady [steady_ops]: "io_steady s v \<Longrightarrow> v (snd (save_config stk es s c e)) = v e"
  by (simp add: save_config_def steady_ops)

section \<open>The network\<close>

lemma network_steady [steady_ops]:
  assumes "net_steady s v"
  shows "v (snd (Net.begin_connection s ip n e)) = v e" "v (snd (Net.end_connection s fd e)) = v e"
    "v (snd (Net.begin_file_send s fd p m e)) = v e" "v (snd (Net.file_send_data s fd b e)) = v e"
    "v (snd (Net.send_file_patch s fd p off b k e)) = v e"
  using assms
  by (simp_all add: Net.begin_connection_def connection_error_def Net.end_connection_def Net.begin_file_send_def
      Net.file_send_data_def Net.send_file_patch_def Let_def case_prod_unfold steady_ops)

section \<open>Devices\<close>

text \<open>What \<^verbatim>\<open>device.c\<close> asks of its functions: that none of them, but the writing of a card, moves \<open>v\<close>.\<close>

definition device_steady :: "'e dev_sys \<Rightarrow> ('e \<Rightarrow> 'v) \<Rightarrow> bool" where
  "device_steady s v \<longleftrightarrow> dev_steady s v \<and>
     (\<forall>p e. v (Device.dev_sys.make_directories_excluding_last s p e) = v e) \<and>
     (\<forall>ip n e. v (snd (Device.dev_sys.begin_connection s ip n e)) = v e) \<and>
     (\<forall>fd e. v (Device.dev_sys.end_connection s fd e) = v e) \<and>
     (\<forall>fd p m e. v (snd (Device.dev_sys.begin_file_send s fd p m e)) = v e) \<and>
     (\<forall>fd b e. v (snd (Device.dev_sys.file_send_data s fd b e)) = v e) \<and>
     (\<forall>fd p off b e. v (snd (Device.dev_sys.send_file_patch s fd p off b e)) = v e)"

lemma device_steady_facts [steady_ops]:
  assumes "device_steady s v"
  shows "v (snd (kOpenDevice s p f e)) = v e" "v (snd (snd (kReadDevice s fd b e))) = v e" "v (kCloseDevice s fd e) = v e"
    "v (snd (snd (kGetDeviceSize s p n e))) = v e" "v (snd (kGetCartSecret s b e)) = v e" "v (snd (kGetCartHash s b e)) = v e"
    "v (snd (Device.sceIoOpen s p f e)) = v e" "v (snd (snd (Device.sceIoRead s fd b e))) = v e"
    "v (snd (Device.sceIoWrite s fd b e)) = v e" "v (snd (sceIoLseek s fd n e)) = v e" "v (Device.sceIoClose s fd e) = v e"
    "v (sceIoRemove s p e) = v e" "v (Device.dev_sys.make_directories_excluding_last s p e) = v e"
    "v (snd (Device.dev_sys.begin_connection s ip m e)) = v e" "v (Device.dev_sys.end_connection s fd e) = v e"
    "v (snd (Device.dev_sys.begin_file_send s fd p n e)) = v e" "v (snd (Device.dev_sys.file_send_data s fd b e)) = v e"
    "v (snd (Device.dev_sys.send_file_patch s fd p off b e)) = v e"
  using assms by (simp_all add: device_steady_def dev_steady_def)

lemma steady_io [simp]: "steady s v \<Longrightarrow> io_steady (io s) v" and steady_net [simp]: "steady s v \<Longrightarrow> net_steady (net s) v"
  by (simp_all add: steady_def)

lemma linked_steady [simp]:
  assumes "steady s v"
  shows "device_steady (linked s) v"
proof -
  have "dev_steady (dev s) v" "net_steady (net s) v" "io_steady (io s) v" using assms by (simp_all only: steady_def)
  then show ?thesis
    unfolding device_steady_def dev_steady_def linked_def by (simp add: network_steady make_directories_steady)
qed

lemma sizes_steady [steady_ops]:
  assumes "device_steady s v"
  shows "v (snd (snd (get_device_size s d n e))) = v e" "v (snd (snd (get_trimmed_size stk s d n e))) = v e"
    "v (snd (snd (get_effective_size stk s d f n e))) = v e" "v (snd (device_exist s d e)) = v e"
proof -
  have g: "v (snd (snd (get_device_size s d n e))) = v e" for d n e
    using assms by (simp add: get_device_size_def Let_def case_prod_unfold steady_ops split: option.split)
  have t: "v (snd (snd (get_trimmed_size stk s d n e))) = v e" for d n e
    using assms by (simp add: get_trimmed_size_def Let_def case_prod_unfold steady_ops g split: option.split)
  show "v (snd (snd (get_device_size s d n e))) = v e" "v (snd (snd (get_trimmed_size stk s d n e))) = v e"
    "v (snd (snd (get_effective_size stk s d f n e))) = v e" "v (snd (device_exist s d e)) = v e"
    using assms by (simp_all add: get_effective_size_def device_exist_def Let_def case_prod_unfold g t steady_ops split: BackupFormat.split)
qed

lemma setup_state_steady [steady_ops]:
  assumes s: "device_steady s v"
  shows "v (snd (snd (setup_state stk s d p f k n c e))) = v e"
proof -
  obtain r1 n1 e1 where 1: "get_device_size s d (Some 0) e = (r1, n1, e1)" by (cases "get_device_size s d (Some 0) e")
  obtain r2 n2 e2 where 2: "get_trimmed_size stk s d (Some 0) e1 = (r2, n2, e2)" by (cases "get_trimmed_size stk s d (Some 0) e1")
  obtain r3 n3 where 3: "get_header_size f (Some 0) = (r3, n3)" by (cases "get_header_size f (Some 0)")
  obtain r4 n4 e4 where 4: "get_effective_size stk s d f (Some 0) e2 = (r4, n4, e4)" by (cases "get_effective_size stk s d f (Some 0) e2")
  have "v e1 = v e" "v e2 = v e1" "v e4 = v e2"
    using sizes_steady(1) [OF s, of d "Some 0" e] sizes_steady(2) [OF s, of stk d "Some 0" e1]
      sizes_steady(3) [OF s, of stk d f "Some 0" e2] 1 2 4 by simp_all
  then show ?thesis by (simp add: setup_state_def cleared_state_def Let_def 1 2 3 4)
qed

section \<open>The copy loop and the three operations\<close>

definition rd_steady :: "'e rd_func \<Rightarrow> ('e \<Rightarrow> 'v) \<Rightarrow> bool" where
  "rd_steady rd v \<longleftrightarrow> (\<forall>fd b e. v (snd (snd (rd fd b e))) = v e)"

definition wr_steady :: "'e wr_func \<Rightarrow> ('e \<Rightarrow> 'v) \<Rightarrow> bool" where
  "wr_steady wr v \<longleftrightarrow> (\<forall>fd b e. v (snd (wr fd b e)) = v e)"

definition callback_steady :: "'e progress option \<Rightarrow> ('e \<Rightarrow> 'v) \<Rightarrow> bool" where
  "callback_steady c v \<longleftrightarrow> (case c of None \<Rightarrow> True | Some f \<Rightarrow> progress_steady f v)"

lemma access_step_steady:
  assumes "rd_steady rd v" "wr_steady wr v" "callback_steady (bs_callback state) v"
  shows "case device_access_step rd wr n (state, b, e) of
      Inl (r, state', b', e') \<Rightarrow> v e' = v e
    | Inr (state', b', e') \<Rightarrow> v e' = v e \<and> bs_callback state' = bs_callback state"
proof -
  obtain r b1 e1 where rd: "rd (bs_rd_fd state) b e = (r, b1, e1)" by (cases "rd (bs_rd_fd state) b e")
  obtain w e2 where wr: "wr (bs_wr_fd state) (take (nat r) b1) e1 = (w, e2)" by (cases "wr (bs_wr_fd state) (take (nat r) b1) e1")
  have "v (snd (snd (rd (bs_rd_fd state) b e))) = v e" "v (snd (wr (bs_wr_fd state) (take (nat r) b1) e1)) = v e1"
    using assms by (simp_all only: rd_steady_def wr_steady_def)
  then have "v e1 = v e" "v e2 = v e1" by (simp_all add: rd wr)
  with assms(3) show ?thesis
    by (cases "bs_callback state") (simp_all add: device_access_step_def rd wr Let_def callback_steady_def progress_steady_def)
qed

lemma access_turns_steady:
  "access_turns rd wr n s = Some y \<Longrightarrow> rd_steady rd v \<Longrightarrow> wr_steady wr v \<Longrightarrow> callback_steady (bs_callback (fst s)) v \<Longrightarrow>
   v (snd (snd (snd y))) = v (snd (snd s))"
proof (induction rule: access_turns.raw_induct [rotated, consumes 1])
  case (1 access_turns rd wr n s y)
  obtain state b e where s: "s = (state, b, e)" by (cases s)
  have c: "callback_steady (bs_callback state) v" using 1(5) s by simp
  note step = access_step_steady [OF 1(3,4) c, where n = n and b = b and e = e]
  show ?case
  proof (cases "device_access_step rd wr n (state, b, e)")
    case (Inl r)
    with 1(2) step s show ?thesis by (auto split: prod.splits)
  next
    case (Inr s')
    obtain state' b' e' where s': "s' = (state', b', e')" by (cases s')
    have v: "v e' = v e" and c': "callback_steady (bs_callback (fst s')) v" using step c Inr s' by simp_all
    show ?thesis
    proof (cases "bs_total (fst s') < n")
      case True
      with 1(2) Inr s have "access_turns rd wr n s' = Some y" by simp
      from 1(1) [OF this 1(3,4) c'] v s s' show ?thesis by simp
    next
      case False
      with 1(2) Inr s s' v show ?thesis by auto
    qed
  qed
qed

lemma access_loop_steady:
  "device_access_loop rd wr state b e = Some (r, state', b', e') \<Longrightarrow> rd_steady rd v \<Longrightarrow> wr_steady wr v \<Longrightarrow>
   callback_steady (bs_callback state) v \<Longrightarrow> v e' = v e"
  using access_turns_steady [where s = "(state, b, e)" and v = v] by (fastforce simp: device_access_loop_def)

lemma setup_state_callback: "setup_state stk s d p f k n c e = (r, state, e') \<Longrightarrow> 0 \<le> r \<Longrightarrow> bs_callback state = c"
  by (auto simp: setup_state_def Let_def split: prod.splits if_splits)

lemma create_header_steady:
  "device_steady s v \<Longrightarrow> wr_steady wr v \<Longrightarrow> v (snd (create_header s wr state e)) = v e"
  by (simp add: create_header_def create_vci_header_def create_psv_header_def wr_steady_def Let_def case_prod_unfold steady_ops
      split: BackupFormat.split)

lemma finalize_steady:
  "device_steady s v \<Longrightarrow> v (snd (snd (finalize_psv_header s state e))) = v e"
  by (simp add: finalize_psv_header_def Let_def case_prod_unfold steady_ops split: option.split)

lemma rd_steady_functions:
  assumes "device_steady s v"
  shows "rd_steady (kReadDevice s) v" "rd_steady (read_data_from_image s) v" "rd_steady read_null v"
    "wr_steady (write_data s) v" "wr_steady (Device.dev_sys.file_send_data s) v"
  using assms by (simp_all add: rd_steady_def wr_steady_def read_data_from_image_def read_null_def write_data_def Let_def
      case_prod_unfold steady_ops)

lemma dump_body_steady:
  assumes "dump_body s wr state b e = Some (r, state', b', e')" "device_steady s v" "wr_steady wr v"
    "callback_steady (bs_callback state) v"
  shows "v e' = v e"
proof -
  obtain r1 st1 b1 e1 where l: "device_access_loop (kReadDevice s) wr state b e = Some (r1, st1, b1, e1)"
    using assms(1) by (auto simp: dump_body_def bind_eq_Some_conv)
  have "v e1 = v e" by (rule access_loop_steady [OF l rd_steady_functions(1) [OF assms(2)] assms(3,4)])
  moreover have "v (snd (snd (finalize_psv_header s st1 e1))) = v e1" by (rule finalize_steady [OF assms(2)])
  ultimately show ?thesis using assms(1) l by (auto simp: dump_body_def Let_def case_prod_unfold split: if_splits)
qed

lemma dump_device_phys_steady:
  assumes "dump_device_phys s state b e = Some (r, b', e')" "device_steady s v" "callback_steady (bs_callback state) v"
  shows "v e' = v e"
proof -
  have exit: "v (snd (snd (dump_phys_exit s (r, st, b, e)))) = v e" for r st b e
    using assms(2) by (simp add: dump_phys_exit_def Let_def steady_ops)
  let ?e = "Device.dev_sys.make_directories_excluding_last s (bs_output_path state) e"
  obtain fd e1 where o: "kOpenDevice s (bs_block_device state) (SCE_O_RDONLY + SCE_O_RDLOCK) ?e = (fd, e1)"
    by (cases "kOpenDevice s (bs_block_device state) (SCE_O_RDONLY + SCE_O_RDLOCK) ?e")
  let ?st1 = "state\<lparr>bs_rd_fd := fd\<rparr>"
  obtain fd2 e2 where w: "Device.sceIoOpen s (bs_output_path state) (SCE_O_WRONLY + SCE_O_CREAT + SCE_O_TRUNC) e1 = (fd2, e2)"
    by (cases "Device.sceIoOpen s (bs_output_path state) (SCE_O_WRONLY + SCE_O_CREAT + SCE_O_TRUNC) e1")
  let ?st2 = "?st1\<lparr>bs_wr_fd := fd2\<rparr>"
  obtain r3 e3 where h: "create_header s (write_data s) ?st2 e2 = (r3, e3)" by (cases "create_header s (write_data s) ?st2 e2")
  have "v e1 = v ?e" "v ?e = v e" "v e2 = v e1" "v e3 = v e2"
    using device_steady_facts(1) [OF assms(2), of "bs_block_device state" _ ?e] device_steady_facts(7) [OF assms(2), of "bs_output_path state" _ e1]
      device_steady_facts(13) [OF assms(2)] create_header_steady [OF assms(2) rd_steady_functions(4) [OF assms(2)], of ?st2 e2] o w h
    by (metis snd_conv)+
  moreover have "v e4 = v e3" if "dump_body s (write_data s) ?st2 b e3 = Some (r4, st4, b4, e4)" for r4 st4 b4 e4
    by (rule dump_body_steady [OF that assms(2) rd_steady_functions(4) [OF assms(2)]]) (use assms(3) in simp)
  ultimately show ?thesis
    using assms(1) exit by (auto simp: dump_device_phys_def o w h Let_def split: if_splits) (metis snd_conv)+
qed

lemma dump_device_network_steady:
  assumes "dump_device_network s n state b e = Some (r, b', e')" "device_steady s v" "callback_steady (bs_callback state) v"
  shows "v e' = v e"
proof -
  have exit: "v (snd (snd (dump_net_exit s (r, st, b, e)))) = v e" for r st b e
    using assms(2) by (simp add: dump_net_exit_def Let_def steady_ops)
  obtain fd e1 where o: "kOpenDevice s (bs_block_device state) (SCE_O_RDONLY + SCE_O_RDLOCK) e = (fd, e1)"
    by (cases "kOpenDevice s (bs_block_device state) (SCE_O_RDONLY + SCE_O_RDLOCK) e")
  let ?st1 = "state\<lparr>bs_rd_fd := fd\<rparr>"
  obtain fd2 e2 where w: "Device.dev_sys.begin_connection s (ni_ip_address n) (ni_port n) e1 = (fd2, e2)"
    by (cases "Device.dev_sys.begin_connection s (ni_ip_address n) (ni_port n) e1")
  let ?st2 = "?st1\<lparr>bs_wr_fd := fd2\<rparr>"
  obtain r3 e3 where f: "Device.dev_sys.begin_file_send s fd2 (bs_output_path state) (bs_effective_size state) e2 = (r3, e3)"
    by (cases "Device.dev_sys.begin_file_send s fd2 (bs_output_path state) (bs_effective_size state) e2")
  obtain r4 e4 where h: "create_header s (Device.dev_sys.file_send_data s) ?st2 e3 = (r4, e4)"
    by (cases "create_header s (Device.dev_sys.file_send_data s) ?st2 e3")
  have "v e1 = v e" "v e2 = v e1" "v e3 = v e2" "v e4 = v e3"
    using device_steady_facts(1) [OF assms(2), of "bs_block_device state" _ e] device_steady_facts(14) [OF assms(2), of "ni_ip_address n" _ e1]
      device_steady_facts(16) [OF assms(2), of fd2 "bs_output_path state" _ e2]
      create_header_steady [OF assms(2) rd_steady_functions(5) [OF assms(2)], of ?st2 e3] o w f h
    by (metis snd_conv)+
  moreover have "v e5 = v e4" if "dump_body s (Device.dev_sys.file_send_data s) ?st2 b e4 = Some (r5, st5, b5, e5)" for r5 st5 b5 e5
    by (rule dump_body_steady [OF that assms(2) rd_steady_functions(5) [OF assms(2)]]) (use assms(3) in simp)
  ultimately show ?thesis
    using assms(1) exit by (auto simp: dump_device_network_def o w f h Let_def split: if_splits) (metis snd_conv)+
qed

lemma dump_device_steady:
  assumes "dump_device stk s d p f k n c b e = Some (r, b', e')" "device_steady s v" "callback_steady c v"
  shows "v e' = v e"
proof -
  obtain r1 state e1 where st: "setup_state stk s d p f k n c e = (r1, state, e1)" by (cases "setup_state stk s d p f k n c e")
  have v: "v e1 = v e" using setup_state_steady [OF assms(2), of stk d p f k n c e] st by simp
  have c: "0 \<le> r1 \<Longrightarrow> callback_steady (bs_callback state) v" using setup_state_callback [OF st] assms(3) by simp
  show ?thesis
    using assms(1) v c dump_device_phys_steady [OF _ assms(2)] dump_device_network_steady [OF _ assms(2)]
    by (fastforce simp: dump_device_def st Let_def not_less split: if_splits option.splits)
qed

lemma restore_device_steady:
  assumes "restore_device stk s d p c b e = Some (r, b', e')" "device_steady s v" "callback_steady c v"
    and w: "wr_steady (kWriteDevice s) v"
  shows "v e' = v e"
proof -
  have exit: "v (snd (snd (restore_exit s (r, st, b, e)))) = v e" for r st b e
    using assms(2) by (simp add: restore_exit_def Let_def steady_ops)
  obtain r1 state e1 where st: "setup_state stk s d p BACKUP_FORMAT_RAW None None c e = (r1, state, e1)"
    by (cases "setup_state stk s d p BACKUP_FORMAT_RAW None None c e")
  have v1: "v e1 = v e" using setup_state_steady [OF assms(2), of stk d p BACKUP_FORMAT_RAW None None c e] st by simp
  have c: "0 \<le> r1 \<Longrightarrow> callback_steady (bs_callback state) v" using setup_state_callback [OF st] assms(3) by simp
  obtain fd e2 where o: "Device.sceIoOpen s p SCE_O_RDONLY e1 = (fd, e2)" by (cases "Device.sceIoOpen s p SCE_O_RDONLY e1")
  obtain fd2 e3 where o2: "kOpenDevice s d (SCE_O_WRONLY + SCE_O_WRLOCK) e2 = (fd2, e3)" by (cases "kOpenDevice s d (SCE_O_WRONLY + SCE_O_WRLOCK) e2")
  let ?st = "state\<lparr>bs_rd_fd := fd\<rparr>\<lparr>bs_wr_fd := fd2\<rparr>"
  have v23: "v e2 = v e1" "v e3 = v e2"
    using device_steady_facts(7) [OF assms(2), of p _ e1] device_steady_facts(1) [OF assms(2), of d _ e2] o o2 by (metis snd_conv)+
  have l: "v e4 = v e3" if "0 \<le> r1" "device_access_loop (read_data_from_image s) (kWriteDevice s) ?st b e3 = Some (r4, st4, b4, e4)" for r4 st4 b4 e4
    by (rule access_loop_steady [OF that(2) rd_steady_functions(2) [OF assms(2)] w]) (use c that(1) in simp)
  show ?thesis
    using assms(1) exit v1 v23 l
    by (auto simp: restore_device_def st o o2 Let_def not_less split: if_splits) (metis snd_conv)+
qed

lemma wipe_device_steady:
  assumes "wipe_device stk s d c b e = Some (r, b', e')" "device_steady s v" "callback_steady c v"
    and w: "wr_steady (kWriteDevice s) v"
  shows "v e' = v e"
proof -
  have exit: "v (snd (snd (wipe_exit s (r, st, b, e)))) = v e" for r st b e
    using assms(2) by (simp add: wipe_exit_def Let_def steady_ops)
  obtain r1 state e1 where st: "setup_state stk s d (cstr ''the void'') BACKUP_FORMAT_RAW None None c e = (r1, state, e1)"
    by (cases "setup_state stk s d (cstr ''the void'') BACKUP_FORMAT_RAW None None c e")
  have v1: "v e1 = v e" using setup_state_steady [OF assms(2), of stk d "cstr ''the void''" BACKUP_FORMAT_RAW None None c e] st by simp
  have c: "0 \<le> r1 \<Longrightarrow> callback_steady (bs_callback state) v" using setup_state_callback [OF st] assms(3) by simp
  obtain fd2 e3 where o2: "kOpenDevice s d (SCE_O_WRONLY + SCE_O_WRLOCK) e1 = (fd2, e3)" by (cases "kOpenDevice s d (SCE_O_WRONLY + SCE_O_WRLOCK) e1")
  let ?st = "state\<lparr>bs_wr_fd := fd2\<rparr>"
  have v3: "v e3 = v e1" using device_steady_facts(1) [OF assms(2), of d _ e1] o2 by (metis snd_conv)
  have l: "v e4 = v e3" if "0 \<le> r1" "device_access_loop read_null (kWriteDevice s) ?st b e3 = Some (r4, st4, b4, e4)" for r4 st4 b4 e4
    by (rule access_loop_steady [OF that(2) rd_steady_functions(3) [OF assms(2)] w]) (use c that(1) in simp)
  show ?thesis
    using assms(1) exit v1 v3 l
    by (auto simp: wipe_device_def st o2 Let_def not_less split: if_splits) (metis snd_conv)+
qed

end
