(* ===== verification/Safety.thy ===== *)
theory Safety
  imports Frames
begin

text \<open>
  What the flows of the application leave alone: the lemmas of the operations carried through menus,
  messages and handlers to a turn of the main menu.
\<close>

section \<open>Keys, menus and messages\<close>

lemma get_key_from_steady:
  "get_key_from pk d w c prev e = Some (k, e') \<Longrightarrow> device_steady d v \<Longrightarrow> (\<And>e. v (snd (pk e)) = v e) \<Longrightarrow> (\<And>e. v (w e) = v e) \<Longrightarrow>
   v e' = v e"
proof (induction "(k, e')" arbitrary: k e' rule: get_key_from.raw_induct [rotated, consumes 1])
  case (1 get_key_from pk d w c prev e k e')
  obtain pad e1 where p: "pk e = (pad, e1)" by (cases "pk e")
  obtain x e2 where x: "device_exist d BLOCK_DEVICE_GC e1 = (x, e2)" by (cases "device_exist d BLOCK_DEVICE_GC e1")
  have v: "v e1 = v e" "v e2 = v e1"
    using 1(4) [of e] p sizes_steady(4) [OF 1(3), of BLOCK_DEVICE_GC e1] x by simp_all
  show ?case
  proof (cases "List.find (\<lambda>b. released prev pad AND b \<noteq> 0) buttons = None \<and> x \<noteq> 0")
    case True
    with 1(2) p x have "get_key_from pk d w c pad (w e2) = Some (k, e')" by simp
    from 1(1) [OF this 1(3)] 1(4,5) v show ?thesis by simp
  next
    case False
    with 1(2) p x v show ?thesis by (auto split: option.splits)
  qed
qed

lemma key_steady: "key sys st e = Some (k, e') \<Longrightarrow> steady sys v \<Longrightarrow> v e' = v e"
proof -
  assume k: "key sys st e = Some (k, e')" and s: "steady sys v"
  have "v (snd (peek sys e)) = v e" for e using s unfolding steady_def by blast
  moreover have "v (sceKernelDelayThread (io sys) n e) = v e" for n e by (rule io_steady_facts(11) [OF steady_io [OF s]])
  ultimately show ?thesis by (rule get_key_from_steady [OF k [unfolded key_def get_key_def] linked_steady [OF s]])
qed

lemma menu_loop_steady:
  "menu_loop kf c b f s w e = Some (r, e') \<Longrightarrow> (\<And>e k e'. kf e = Some (k, e') \<Longrightarrow> v e' = v e) \<Longrightarrow> v e' = v e"
proof (induction "(r, e')" arbitrary: r e' rule: menu_loop.raw_induct [rotated, consumes 1])
  case (1 menu_loop kf c b f s w e r e')
  obtain conds w1 where f: "f s w = (conds, w1)" by (cases "f s w")
  with 1(2) obtain k e1 where k: "kf e = Some (k, e1)" by (cases "kf e") auto
  have v: "v e1 = v e" by (rule 1(3) [OF k])
  show ?case
  proof (cases "menu_turn c k (set_options conds @ [b]) (int (length conds)) s w1")
    case (Inl x)
    with 1(2) f k v show ?thesis by simp
  next
    case (Inr sw)
    obtain s' w' where sw: "sw = (s', w')" by (cases sw)
    have "menu_loop kf c b f s' w' e1 = Some (r, e')" using 1(2) f k Inr sw by simp
    from 1(1) [OF this 1(3)] v show ?thesis by simp
  qed
qed

lemma PROCESS_MENU_steady:
  "PROCESS_MENU (key sys st) c b f e = Some (r, e') \<Longrightarrow> steady sys v \<Longrightarrow> v e' = v e"
  unfolding PROCESS_MENU_def Let_def case_prod_unfold by (erule menu_loop_steady) (rule key_steady)

lemma run_menu_steady: "run_menu sys f st = Some (c, st') \<Longrightarrow> steady sys v \<Longrightarrow> v (env st') = v (env st)"
  by (auto simp: run_menu_def dest: PROCESS_MENU_steady)

lemma WAIT_FOR_CONFIRM_steady:
  "WAIT_FOR_CONFIRM sys st = Some st' \<Longrightarrow> steady sys v \<Longrightarrow> v (env st') = v (env st)"
proof (induction rule: WAIT_FOR_CONFIRM.raw_induct [rotated, consumes 1])
  case (1 WAIT_FOR_CONFIRM sys st st')
  from 1(2) obtain k e where k: "key sys st (env st) = Some (k, e)" by (cases "key sys st (env st)") auto
  have v: "v e = v (env st)" by (rule key_steady [OF k 1(3)])
  show ?case
  proof (cases "k = SCE_CTRL_CONFIRM (ctrls st) \<or> k = SCE_CTRL_CANCEL (ctrls st)")
    case True
    with 1(2) k v show ?thesis by auto
  next
    case False
    with 1(2) k have "WAIT_FOR_CONFIRM sys (st\<lparr>env := e\<rparr>) = Some st'" by simp
    from 1(1) [OF this 1(3)] v show ?thesis by simp
  qed
qed

lemma message_steady:
  assumes "steady sys v"
  shows "do_confirm_message sys t m st = Some st' \<Longrightarrow> v (env st') = v (env st)"
    and "do_error sys r st = Some (c, st') \<Longrightarrow> v (env st') = v (env st)"
    and "do_device_info sys st = Some st' \<Longrightarrow> v (env st') = v (env st)"
proof -
  have m: "v (env st') = v (env st)" if "do_confirm_message sys t m st = Some st'" for t m st st'
  proof -
    have "v (draw_confirmation_message sys t m e) = v e" for e using assms unfolding steady_def by blast
    then show ?thesis
      using WAIT_FOR_CONFIRM_steady [OF that [unfolded do_confirm_message_def] assms] by (simp add: on_env_def)
  qed
  then show "do_confirm_message sys t m st = Some st' \<Longrightarrow> v (env st') = v (env st)" by simp
  show "do_error sys r st = Some (c, st') \<Longrightarrow> v (env st') = v (env st)"
    by (auto simp: do_error_def Let_def bind_eq_Some_conv split: if_splits dest: m)
  show "do_device_info sys st = Some st' \<Longrightarrow> v (env st') = v (env st)"
  proof -
    assume i: "do_device_info sys st = Some st'"
    have "v (draw_lines sys i e) = v e" for i e using assms unfolding steady_def by blast
    then show "v (env st') = v (env st)"
      using WAIT_FOR_CONFIRM_steady [OF i [unfolded do_device_info_def Let_def] assms] by (simp add: on_env_def)
  qed
qed

lemma wait_while_steady: "wait_while b w e = Some e' \<Longrightarrow> (\<And>e. v (w e) = v e) \<Longrightarrow> v e' = v e"
proof (induction rule: wait_while.raw_induct [rotated, consumes 1])
  case (1 wait_while b w e e')
  then show ?case by (cases "b e") auto
qed

lemma do_gc_insert_prompt_steady:
  assumes "do_gc_insert_prompt sys st = Some st'" "steady sys v"
  shows "v (env st') = v (env st)"
proof -
  have w: "v e' = v e" if "wait_while b (sceKernelDelayThread (io sys) n) e = Some e'" for b n e e'
    by (rule wait_while_steady [OF that]) (use assms(2) in \<open>simp add: steady_ops\<close>)
  have k: "v (kResetGc sys e) = v e" "v (kUndoSd2Vita sys e) = v e" "v (AppSys.kEnableGcEmuMgr sys e) = v e"
    "v (AppSys.kDisableGcEmuMgr sys e) = v e" for e
    using assms(2) unfolding steady_def by blast+
  obtain e1 e2 where w1: "wait_while (kIsSdInserted sys) (sceKernelDelayThread (io sys) 30000) (env st) = Some e1"
    and e2: "e2 = (if \<not> kUndoneSd2VitaPatches sys e1 \<and> check_loaded_blacklisted_module sys e1 \<noteq> None
                   then kResetGc sys (kUndoSd2Vita sys e1) else e1)"
    using assms(1) by (auto simp: do_gc_insert_prompt_def wait_for_gc_auth_def bind_eq_Some_conv)
  define e3 where "e3 = AppSys.kEnableGcEmuMgr sys e2"
  define e4 where "e4 = (if kIsAuthenticated (ident sys) e3 = 0 \<and> kIsMmcInserted sys e3 then kResetGc sys e3 else e3)"
  obtain e5 where w5: "wait_while (\<lambda>e. kIsAuthenticated (ident sys) e = 0) (sceKernelDelayThread (io sys) 30000) e4 = Some e5"
    and st': "st' = st\<lparr>env := AppSys.kDisableGcEmuMgr sys e5\<rparr>"
    using assms(1) w1 e2 e3_def e4_def by (auto simp: do_gc_insert_prompt_def wait_for_gc_auth_def bind_eq_Some_conv Let_def)
  have "v e5 = v e4" by (rule w [OF w5])
  moreover have "v e4 = v e2" by (simp add: e4_def e3_def k)
  moreover have "v e2 = v e1" by (simp add: e2 k)
  moreover have "v e1 = v (env st)" by (rule w [OF w1])
  ultimately show ?thesis by (simp add: st' k)
qed

section \<open>Choices and names\<close>

lemma title_of_card_steady [steady_ops]: "steady sys v \<Longrightarrow> v (snd (snd (title_of_card sys e))) = v e"
  by (simp add: title_of_card_def Let_def case_prod_unfold steady_ops)

lemma get_output_filename_steady [steady_ops]: "steady sys v \<Longrightarrow> v (snd (get_output_filename sys out ext n e)) = v e"
  by (simp add: get_output_filename_def Let_def case_prod_unfold steady_ops)

lemma choice_steady:
  assumes "steady sys v"
  shows "do_gc_options sys st = Some (c, st') \<Longrightarrow> v (env st') = v (env st)"
    and "do_select_input_location sys st = Some (c, st') \<Longrightarrow> v (env st') = v (env st)"
    and "do_select_output_location sys n st = Some (c, st') \<Longrightarrow> v (env st') = v (env st)"
    and "do_select_file sys folder out ext m st = Some (c, out', st') \<Longrightarrow> v (env st') = v (env st)"
proof -
  show "do_gc_options sys st = Some (c, st') \<Longrightarrow> v (env st') = v (env st)"
    using assms by (auto simp: do_gc_options_def Let_def case_prod_unfold steady_ops dest!: run_menu_steady [OF _ assms])
  show "do_select_input_location sys st = Some (c, st') \<Longrightarrow> v (env st') = v (env st)"
    using assms by (auto simp: do_select_input_location_def Let_def case_prod_unfold steady_ops dest!: run_menu_steady [OF _ assms])
  show "do_select_output_location sys n st = Some (c, st') \<Longrightarrow> v (env st') = v (env st)"
    using assms by (auto simp: do_select_output_location_def Let_def case_prod_unfold steady_ops dest!: run_menu_steady [OF _ assms])
  show "do_select_file sys folder out ext m st = Some (c, out', st') \<Longrightarrow> v (env st') = v (env st)"
  proof -
    assume d: "do_select_file sys folder out ext m st = Some (c, out', st')"
    obtain res files n e where g: "get_files_in_folder (io sys) (before_name (garbage sys (env st))) folder (zeros (MAX_PATH * BUFFER_SIZE))
        (Some (file_filter ext m)) BUFFER_SIZE (env st) = (res, files, n, e)"
      by (cases "get_files_in_folder (io sys) (before_name (garbage sys (env st))) folder (zeros (MAX_PATH * BUFFER_SIZE))
        (Some (file_filter ext m)) BUFFER_SIZE (env st)") auto
    have "v e = v (env st)" using get_files_in_folder_steady [OF steady_io [OF assms]] g by (metis snd_conv)
    moreover have "v (env st') = v e"
    proof (cases "res < 0 \<or> n \<le> 0")
      case True
      with d show ?thesis by (auto simp: do_select_file_def g Let_def split: if_splits)
    next
      case False
      then obtain r e1 where p: "PROCESS_MENU (key sys (st\<lparr>env := e\<rparr>)) (ctrls st) (options_behind sys) (draw_select_file (int n)) e = Some (r, e1)"
        using d by (auto simp: do_select_file_def g Let_def bind_eq_Some_conv)
      then have "st' = st\<lparr>env := e1\<rparr>"
        using d False by (cases r) (simp_all add: do_select_file_def g Let_def)
      with PROCESS_MENU_steady [OF p assms] show ?thesis by simp
    qed
    ultimately show ?thesis by simp
  qed
qed

section \<open>Operations on a device\<close>

lemma around_device:
  assumes "steady sys v" "locks_move sys v up down"
  shows "v (before_device sys e) = up (v e)" "v (after_device sys e) = down (v e)"
proof -
  have p: "v (snd (lock_power sys e)) = v e" "v (unlock_power sys e) = v e" for e
  proof -
    have "\<forall>e. v (snd (sceKernelCreateThread sys e)) = v e" "\<forall>i e. v (snd (sceKernelStartThread sys i e)) = v e"
      "\<forall>i e. v (sceKernelDeleteThread sys i e) = v e" "\<forall>b e. v (set_disable_power sys b e) = v e"
      using assms(1) unfolding steady_def by blast+
    then show "v (snd (lock_power sys e)) = v e" "v (unlock_power sys e) = v e"
      by (simp_all add: lock_power_def unlock_power_def Let_def case_prod_unfold)
  qed
  note m = mount_steady [OF steady_io [OF assms(1)]]
  have l: "v (lock_shell sys e) = up (v e)" "v (unlock_shell sys e) = down (v e)" for e
    using assms(2) by (simp_all add: locks_move_def lock_shell_def unlock_shell_def)
  show "v (before_device sys e) = up (v e)" "v (after_device sys e) = down (v e)"
    by (simp_all add: before_device_def after_device_def m p l)
qed

lemma device_callbacks:
  assumes "steady sys v"
  shows "callback_steady (Some (AppSys.draw_dump_progress sys)) v" "callback_steady (Some (AppSys.draw_restore_progress sys)) v"
    "callback_steady (Some (AppSys.draw_wipe_progress sys)) v"
  using assms unfolding callback_steady_def steady_def option.case by blast+

lemma do_device_dump_steady:
  assumes "do_device_dump sys d p f ip n st = Some (r, st')" and s: "steady sys v" and l: "locks_move sys v up down"
  shows "v (env st') = v (env st)"
proof -
  let ?e = "before_device sys (env st)"
  obtain b e k ni where d: "dump_device (mbr_stk (garbage sys ?e)) (linked sys) d p f k ni (Some (AppSys.draw_dump_progress sys)) (dumpbuf st) ?e = Some (r, b, e)"
    and st': "st' = st\<lparr>env := after_device sys e, dumpbuf := b\<rparr>"
    using assms(1) by (auto simp: do_device_dump_def Let_def bind_eq_Some_conv)
  have "v e = v ?e" by (rule dump_device_steady [OF d linked_steady [OF s] device_callbacks(1) [OF s]])
  with l show ?thesis by (simp add: st' around_device [OF s l] locks_move_def)
qed

lemma linked_writes: "writes_steady sys v \<Longrightarrow> wr_steady (kWriteDevice (linked sys)) v"
  by (simp add: writes_steady_def wr_steady_def linked_def)

lemma do_device_restore_steady:
  assumes "do_device_restore sys d p st = Some (r, st')" and s: "steady sys v" and l: "locks_move sys v up down"
    and w: "writes_steady sys v"
  shows "v (env st') = v (env st)"
proof -
  let ?e = "before_device sys (env st)"
  obtain b e where d: "restore_device (mbr_stk (garbage sys ?e)) (linked sys) d p (Some (AppSys.draw_restore_progress sys)) (dumpbuf st) ?e = Some (r, b, e)"
    and st': "st' = st\<lparr>env := after_device sys e, dumpbuf := b\<rparr>"
    using assms(1) by (auto simp: do_device_restore_def Let_def bind_eq_Some_conv)
  have "v e = v ?e" by (rule restore_device_steady [OF d linked_steady [OF s] device_callbacks(2) [OF s] linked_writes [OF w]])
  with l show ?thesis by (simp add: st' around_device [OF s l] locks_move_def)
qed

lemma do_device_wipe_steady:
  assumes "do_device_wipe_and_format sys d full format st = Some (r, st')" and s: "steady sys v" and l: "locks_move sys v up down"
    and w: "writes_steady sys v"
  shows "v (env st') = v (env st)"
proof -
  let ?e = "before_device sys (env st)"
  obtain r1 b e where d: "(if full then wipe_device (mbr_stk (garbage sys ?e)) (linked sys) d (Some (AppSys.draw_wipe_progress sys)) (dumpbuf st) ?e
        else Some (0, dumpbuf st, ?e)) = Some (r1, b, e)"
    and st': "\<exists>e'. st' = st\<lparr>env := after_device sys e', dumpbuf := b\<rparr> \<and>
        (e' = (if full then e else AppSys.draw_wipe_progress sys d [] 1 1 e) \<or>
         e' = snd (AppSys.kFormatDevice sys d (if full then e else AppSys.draw_wipe_progress sys d [] 1 1 e)))"
    using assms(1) by (auto simp: do_device_wipe_and_format_def Let_def bind_eq_Some_conv case_prod_unfold split: if_splits)
  have "v e = v ?e"
    using d wipe_device_steady [OF _ linked_steady [OF s] device_callbacks(3) [OF s] linked_writes [OF w]] by (auto split: if_splits)
  moreover have "v (AppSys.draw_wipe_progress sys d [] 1 1 e) = v e"
    using device_callbacks(3) [OF s] by (simp add: callback_steady_def progress_steady_def)
  moreover have "v (snd (AppSys.kFormatDevice sys d x)) = v x" for x using w by (simp add: writes_steady_def)
  ultimately show ?thesis using st' l by (auto simp: around_device [OF s l] locks_move_def split: if_splits)
qed

section \<open>Handlers\<close>

lemma dump_keys_steady: "dump_keys sys ip n out st = (r, st') \<Longrightarrow> steady sys v \<Longrightarrow> v (env st') = v (env st)"
proof -
  assume d: "dump_keys sys ip n out st = (r, st')" and s: "steady sys v"
  have "v (snd (key_dump sys out e)) = v e" "v (snd (key_dump_network sys a n out e)) = v e" for a e
    using s by (simp_all add: key_dump_def key_dump_network_def Let_def case_prod_unfold steady_ops)
  with d show ?thesis by (auto simp: dump_keys_def Let_def case_prod_unfold split: option.splits)
qed

lemma handle_dump_device_steady:
  assumes "handle_dump_device sys what f d out ip n st = Some (r, out', st')" and s: "steady sys v" and l: "locks_move sys v up down"
  shows "v (env st') = v (env st)"
proof -
  obtain r1 st1 where 1: "(if what \<noteq> DUMP_KEYS_ONLY then do_device_dump sys d out f ip n st else Some (dump_keys sys ip n out st)) = Some (r1, st1)"
    using assms(1) by (auto simp: handle_dump_device_def bind_eq_Some_conv)
  then have v1: "v (env st1) = v (env st)"
    using do_device_dump_steady [OF _ s l] dump_keys_steady [OF _ s] by (auto split: if_splits)
  let ?out = "change_extension out MAX_PATH (cstr ''.keys.bin'')"
  obtain r2 st2 where 2: "dump_keys sys ip n ?out st1 = (r2, st2)" by (cases "dump_keys sys ip n ?out st1")
  have v2: "v (env st2) = v (env st1)" by (rule dump_keys_steady [OF 2 s])
  show ?thesis
    using assms(1) 1 2 v1 v2 message_steady [OF s]
    by (auto simp: handle_dump_device_def Let_def bind_eq_Some_conv split: if_splits)
qed

lemma ask_steady:
  assumes "steady sys v"
  shows "ask_ip sys st = Some st' \<Longrightarrow> v (env st') = v (env st)" "ask_port sys st = Some st' \<Longrightarrow> v (env st') = v (env st)"
    "ask_text sys t b n st = Some (c, st') \<Longrightarrow> v (env st') = v (env st)"
proof -
  have a: "v (after_dialog sys e) = v e" for e using assms unfolding steady_def by blast
  show "ask_ip sys st = Some st' \<Longrightarrow> v (env st') = v (env st)" "ask_port sys st = Some st' \<Longrightarrow> v (env st') = v (env st)"
    "ask_text sys t b n st = Some (c, st') \<Longrightarrow> v (env st') = v (env st)"
    by (auto simp: ask_ip_def ask_port_def ask_text_def on_env_def bind_eq_Some_conv a Let_def split: if_splits)
qed

lemma network_turns_steady:
  "network_turns sys st = Some y \<Longrightarrow> steady sys v \<Longrightarrow> v (env (snd y)) = v (env st)"
proof (induction rule: network_turns.raw_induct [rotated, consumes 1])
  case (1 network_turns sys st y)
  note s = 1(3)
  from 1(2) obtain c st1 where m: "do_network_options sys st = Some (c, st1)" by (auto simp: bind_eq_Some_conv)
  have v1: "v (env st1) = v (env st)" by (rule run_menu_steady [OF m [unfolded do_network_options_def] s])
  consider (ip) "c = CHANGE_IP" | (port) "c = CHANGE_PORT" "c \<noteq> CHANGE_IP" | (other) "c \<noteq> CHANGE_IP" "c \<noteq> CHANGE_PORT" by blast
  then show ?case
  proof cases
    case ip
    then obtain st2 where a: "ask_ip sys st1 = Some st2" "network_turns sys st2 = Some y" using 1(2) m by (auto simp: bind_eq_Some_conv)
    from 1(1) [OF a(2) s] ask_steady(1) [OF s a(1)] v1 show ?thesis by simp
  next
    case port
    then obtain st2 where a: "ask_port sys st1 = Some st2" "network_turns sys st2 = Some y" using 1(2) m by (auto simp: bind_eq_Some_conv)
    from 1(1) [OF a(2) s] ask_steady(2) [OF s a(1)] v1 show ?thesis by simp
  next
    case other
    with 1(2) m v1 show ?thesis by (auto split: if_splits)
  qed
qed

lemma handle_network_steady:
  assumes "handle_menu_set_network_options sys what f d out st = Some (r, out', st')" and s: "steady sys v" and l: "locks_move sys v up down"
  shows "v (env st') = v (env st)"
proof -
  obtain go st1 where t: "network_turns sys st = Some (go, st1)"
    using assms(1) by (auto simp: handle_menu_set_network_options_def bind_eq_Some_conv)
  have v1: "v (env st1) = v (env st)" using network_turns_steady [OF t s] by simp
  show ?thesis
  proof (cases go)
    case False
    with assms(1) t v1 show ?thesis by (simp add: handle_menu_set_network_options_def)
  next
    case True
    let ?e = "snd (save_config (path_stk (garbage sys (env st1))) (enum_size sys) (io sys) (conf st1) (env st1))"
    have h: "handle_dump_device sys what f d out (Some (address_at sys (conf st1))) (port (conf st1)) (st1\<lparr>env := ?e\<rparr>) = Some (r, out', st')"
      using assms(1) t True by (simp add: handle_menu_set_network_options_def Let_def case_prod_unfold)
    have "v ?e = v (env st1)" using s by (simp add: steady_ops)
    with handle_dump_device_steady [OF h s l] v1 show ?thesis by simp
  qed
qed

lemma free_name_steady:
  "free_name sys folder od ext n p q e = Some y \<Longrightarrow> steady sys v \<Longrightarrow> v (snd (snd y)) = v e"
proof (induction rule: free_name.raw_induct [rotated, consumes 1])
  case (1 free_name sys folder od ext n p q e y)
  show ?case
  proof (cases "file_exist (io sys) p e")
    case True
    obtain q1 e1 where g: "get_output_filename sys q ext n e = (q1, e1)" by (cases "get_output_filename sys q ext n e")
    have "v e1 = v e" using get_output_filename_steady [OF 1(3), of q ext n e] g by simp
    moreover have "free_name sys folder od ext (n + 1) (backup_path sys p folder od q1) q1 e1 = Some y" using 1(2) True g by simp
    ultimately show ?thesis using 1(1) [OF _ 1(3)] by simp
  next
    case False
    with 1(2) show ?thesis by auto
  qed
qed

lemma output_turns_steady:
  "output_turns sys ext f what d n q st = Some st' \<Longrightarrow> steady sys v \<Longrightarrow> locks_move sys v up down \<Longrightarrow> v (env st') = v (env st)"
proof (induction rule: output_turns.raw_induct [rotated, consumes 1])
  case (1 output_turns sys ext f what d n q st st')
  note s = 1(3) and l = 1(4)
  from 1(2) obtain c st1 where m: "do_select_output_location sys n st = Some (c, st1)" by (auto simp: bind_eq_Some_conv)
  have v1: "v (env st1) = v (env st)" by (rule choice_steady(3) [OF s m])
  consider (name) "c = CHANGE_FILENAME" | (again) "c = O_RELOAD_DEVICES" "c \<noteq> CHANGE_FILENAME"
    | (none) "c \<noteq> CHANGE_FILENAME" "c \<noteq> O_RELOAD_DEVICES" "output_device_of c = None"
    | (some) od where "c \<noteq> CHANGE_FILENAME" "c \<noteq> O_RELOAD_DEVICES" "output_device_of c = Some od" by blast
  then show ?case
  proof cases
    case name
    then obtain q1 st2 where a: "ask_text sys ''Enter filename'' q MAX_PATH st1 = Some (q1, st2)"
      "output_turns sys ext f what d n (Paths.remove_illegal_chars q1) st2 = Some st'"
      using 1(2) m by (auto simp: bind_eq_Some_conv)
    from 1(1) [OF a(2) s l] ask_steady(3) [OF s a(1)] v1 show ?thesis by simp
  next
    case again
    then have "output_turns sys ext f what d n q st1 = Some st'" using 1(2) m by (simp add: CHANGE_FILENAME_def O_RELOAD_DEVICES_def)
    from 1(1) [OF this s l] v1 show ?thesis by simp
  next
    case none
    with 1(2) m v1 show ?thesis by simp
  next
    case some
    let ?p = "backup_path sys (path_stk (garbage sys (env st1))) (backup_folder (conf st1)) od q"
    let ?d = "case d of None \<Rightarrow> null_device | Some x \<Rightarrow> x"
    obtain p1 q1 e1 where fn: "free_name sys (backup_folder (conf st1)) od ext 1 ?p q (env st1) = Some (p1, q1, e1)"
      using 1(2) m some by (auto simp: bind_eq_Some_conv)
    have v2: "v e1 = v (env st1)" using free_name_steady [OF fn s] by simp
    show ?thesis
    proof (cases "c = DUMP_LOCATION_NET")
      case False
      then obtain r out where h: "handle_dump_device sys what f ?d p1 None 0 (st1\<lparr>env := e1\<rparr>) = Some (r, out, st')"
        using 1(2) m some fn by (auto simp: bind_eq_Some_conv Let_def)
      from handle_dump_device_steady [OF h s l] v1 v2 show ?thesis by simp
    next
      case True
      then obtain r q2 st2 where h: "handle_menu_set_network_options sys what f ?d q1 (st1\<lparr>env := e1\<rparr>) = Some (r, q2, st2)"
        using 1(2) m some fn by (auto simp: bind_eq_Some_conv Let_def)
      have v3: "v (env st2) = v (env st1)" using handle_network_steady [OF h s l] v2 by simp
      show ?thesis
      proof (cases "r = OP_CANCELED")
        case True
        with \<open>c = DUMP_LOCATION_NET\<close> 1(2) m some fn h have "output_turns sys ext f what d n q2 st2 = Some st'" by (simp add: Let_def)
        from 1(1) [OF this s l] v1 v3 show ?thesis by simp
      next
        case False
        with \<open>c = DUMP_LOCATION_NET\<close> 1(2) m some fn h v1 v3 show ?thesis by (simp add: Let_def)
      qed
    qed
  qed
qed


lemma handle_menu_set_output_steady:
  assumes "handle_menu_set_output sys ext f what st = Some st'" and s: "steady sys v" and l: "locks_move sys v up down"
  shows "v (env st') = v (env st)"
proof -
  obtain q e where g: "get_output_filename sys (path_stk (garbage sys (env st))) ext 0 (env st) = (q, e)"
    by (cases "get_output_filename sys (path_stk (garbage sys (env st))) ext 0 (env st)")
  have v1: "v e = v (env st)"
    using get_output_filename_steady [OF s, of "path_stk (garbage sys (env st))" ext 0 "env st"] g by simp
  obtain n e1 where t: "output_turns sys ext f what (device_of what) n q (st\<lparr>env := e1\<rparr>) = Some st'" and v2: "v e1 = v e"
    using assms(1) sizes_steady(3) [OF linked_steady [OF s]]
    by (auto simp: handle_menu_set_output_def g Let_def case_prod_unfold split: option.splits)
  from output_turns_steady [OF t s l] v1 v2 show ?thesis by simp
qed

lemma format_turns_steady:
  "format_turns sys what fmt st = Some st' \<Longrightarrow> steady sys v \<Longrightarrow> locks_move sys v up down \<Longrightarrow> v (env st') = v (env st)"
proof (induction rule: format_turns.raw_induct [rotated, consumes 1])
  case (1 format_turns sys what fmt st st')
  note s = 1(3) and l = 1(4)
  from 1(2) obtain c st1 where m: "do_select_backup_format sys st = Some (c, st1)" by (auto simp: bind_eq_Some_conv)
  have v1: "v (env st1) = v (env st)" by (rule run_menu_steady [OF m [unfolded do_select_backup_format_def] s])
  show ?case
  proof (cases "c = OP_CANCELED")
    case True
    with 1(2) m v1 show ?thesis by simp
  next
    case False
    then obtain st2 where a: "handle_menu_set_output sys (cstr (snd (format_of fmt c))) (fst (format_of fmt c)) what st1 = Some st2"
      "format_turns sys what (format_of fmt c) st2 = Some st'"
      using 1(2) m by (auto simp: bind_eq_Some_conv)
    from 1(1) [OF a(2) s l] handle_menu_set_output_steady [OF a(1) s l] v1 show ?thesis by simp
  qed
qed

lemma report_steady: "report sys r t m st = Some st' \<Longrightarrow> steady sys v \<Longrightarrow> v (env st') = v (env st)"
  by (auto simp: report_def split: if_splits dest: message_steady)

lemma handle_wipe_option_steady:
  assumes "handle_wipe_option sys what st = Some st'" and s: "steady sys v" and l: "locks_move sys v up down"
    and w: "writes_steady sys v"
  shows "v (env st') = v (env st)"
proof (cases "what = RESET_MEDIAID \<or> what = RESET_GRW0")
  case False
  with assms(1) show ?thesis by (auto simp: handle_wipe_option_def)
next
  case True
  let ?d = "if what = RESET_MEDIAID then BLOCK_DEVICE_MEDIAID else BLOCK_DEVICE_GRW0"
  obtain r st1 where a: "(if what = RESET_GRW0 then handle_format_confirm_and_format sys ?d st
      else do_device_wipe_and_format sys ?d True False st) = Some (r, st1)"
    using assms(1) True unfolding handle_wipe_option_def Let_def
    by (cases "if what = RESET_GRW0 then handle_format_confirm_and_format sys ?d st else do_device_wipe_and_format sys ?d True False st") auto
  have f: "v (env st1) = v (env st)" if h: "handle_format_confirm_and_format sys d st = Some (r, st1)" for d
  proof -
    obtain c st2 where m: "do_format_confirm sys st = Some (c, st2)"
      using h by (auto simp: handle_format_confirm_and_format_def bind_eq_Some_conv)
    have v2: "v (env st2) = v (env st)" by (rule run_menu_steady [OF m [unfolded do_format_confirm_def] s])
    show ?thesis
      using h m v2 do_device_wipe_steady [OF _ s l w] by (auto simp: handle_format_confirm_and_format_def split: if_splits)
  qed
  have v1: "v (env st1) = v (env st)"
    using a f do_device_wipe_steady [OF _ s l w] by (auto split: if_splits)
  have "r = OP_CANCELED \<and> st' = st1 \<or> (\<exists>t m. report sys r t m st1 = Some st')"
    using assms(1) True a unfolding handle_wipe_option_def Let_def by (auto split: if_splits)
  then show ?thesis using report_steady [OF _ s] v1 by metis
qed

lemma handle_select_file_steady:
  assumes "handle_select_file sys what folder st = Some st'" and s: "steady sys v" and l: "locks_move sys v up down"
    and w: "writes_steady sys v"
  shows "v (env st') = v (env st)"
proof (cases "what = WRITE_MEDIAID \<or> what = WRITE_GRW0")
  case False
  with assms(1) show ?thesis by (auto simp: handle_select_file_def)
next
  case True
  let ?d = "if what = WRITE_MEDIAID then BLOCK_DEVICE_MEDIAID else BLOCK_DEVICE_GRW0"
  obtain r n e where g: "get_effective_size (mbr_stk (garbage sys (env st))) (linked sys) ?d BACKUP_FORMAT_RAW (Some 0) (env st) = (r, n, e)"
    by (cases "get_effective_size (mbr_stk (garbage sys (env st))) (linked sys) ?d BACKUP_FORMAT_RAW (Some 0) (env st)")
  have v1: "v e = v (env st)"
    using sizes_steady(3) [OF linked_steady [OF s], of "mbr_stk (garbage sys (env st))" ?d BACKUP_FORMAT_RAW "Some 0" "env st"] g
    by (metis snd_conv)
  obtain x c out st1 where f: "do_select_file sys folder (file_stk (garbage sys e)) x (the n) (st\<lparr>env := e\<rparr>) = Some (c, out, st1)"
    and "(c = OP_CANCELED \<and> c < 0 \<and> map_option snd (do_error sys c st1) = Some st') \<or>
      (\<exists>p. Option.bind (do_device_restore sys ?d p st1) (\<lambda>(r, st). report sys r ''Restore Success!''
          (map of_char ''Restored from: '' @ chars p @ map of_char '' ...'') st) = Some st')"
    using assms(1) True unfolding handle_select_file_def Let_def
    by (simp add: g bind_eq_Some_conv split: if_splits) (blast | fastforce)+
  then consider (err) "map_option snd (do_error sys c st1) = Some st'"
    | (res) p where "Option.bind (do_device_restore sys ?d p st1) (\<lambda>(r, st). report sys r ''Restore Success!''
          (map of_char ''Restored from: '' @ chars p @ map of_char '' ...'') st) = Some st'"
    by blast
  moreover have v2: "v (env st1) = v e" using choice_steady(4) [OF s f] by simp
  ultimately show ?thesis
  proof cases
    case err
    with message_steady(2) [OF s] v1 v2 show ?thesis by auto
  next
    case res
    then obtain r2 st2 t m where d: "do_device_restore sys ?d p st1 = Some (r2, st2)" and m: "report sys r2 t m st2 = Some st'"
      by (cases "do_device_restore sys ?d p st1") auto
    from do_device_restore_steady [OF d s l w] report_steady [OF m s] v1 v2 show ?thesis by simp
  qed
qed

lemma input_turns_steady: "input_turns sys st = Some y \<Longrightarrow> steady sys v \<Longrightarrow> v (env (snd y)) = v (env st)"
proof (induction rule: input_turns.raw_induct [rotated, consumes 1])
  case (1 input_turns sys st y)
  from 1(2) obtain c st1 where m: "do_select_input_location sys st = Some (c, st1)" by (auto simp: bind_eq_Some_conv)
  have "v (env st1) = v (env st)" by (rule choice_steady(2) [OF 1(3) m])
  with 1 m show ?case by (auto split: if_splits)
qed

lemma handle_select_input_device_steady:
  assumes "handle_select_input_device sys what st = Some st'" and s: "steady sys v" and l: "locks_move sys v up down"
    and w: "writes_steady sys v"
  shows "v (env st') = v (env st)"
proof -
  obtain c st1 where t: "input_turns sys st = Some (c, st1)"
    using assms(1) by (auto simp: handle_select_input_device_def bind_eq_Some_conv)
  have v1: "v (env st1) = v (env st)" using input_turns_steady [OF t s] by simp
  show ?thesis
  proof (cases "c = OP_CANCELED")
    case True
    with assms(1) t v1 show ?thesis by (simp add: handle_select_input_device_def)
  next
    case False
    then obtain p where h: "handle_select_file sys what p (on_env (make_directories (io sys) p) st1) = Some st'"
      using assms(1) t by (auto simp: handle_select_input_device_def Let_def)
    from handle_select_file_steady [OF h s l w] v1 make_directories_steady(1) [OF steady_io [OF s]]
    show ?thesis by (simp add: on_env_def)
  qed
qed

section \<open>A turn of the main menu\<close>

definition writes_card :: "int \<Rightarrow> bool" where
  "writes_card selected \<longleftrightarrow> selected \<in> {WRITE_MEDIAID, RESET_MEDIAID, WRITE_GRW0, RESET_GRW0}"

lemma handle_selected_steady:
  assumes "handle_selected sys c st = Some st'" and s: "steady sys v" and l: "locks_move sys v up down"
    and w: "writes_card c \<longrightarrow> writes_steady sys v"
  shows "v (env st') = v (env st)"
proof -
  consider (all) "c = DUMP_WHOLE_GC" | (dump) "c \<in> {DUMP_KEYS_ONLY, DUMP_MEDIAID, DUMP_GRW0}"
    | (reset) "c \<in> {RESET_MEDIAID, RESET_GRW0}" | (restore) "c \<in> {WRITE_MEDIAID, WRITE_GRW0}"
    | (info) "c = GET_GC_INFO" | (left) "c = OP_CANCELED" | (other) "c \<notin> {DUMP_WHOLE_GC, DUMP_KEYS_ONLY, DUMP_MEDIAID, DUMP_GRW0, RESET_MEDIAID, RESET_GRW0, WRITE_MEDIAID,
        WRITE_GRW0, GET_GC_INFO, OP_CANCELED}"
    by blast
  then show ?thesis
  proof cases
    case all
    with assms(1) format_turns_steady [OF _ s l] show ?thesis by (simp add: handle_selected_def handle_menu_select_backup_format_def)
  next
    case dump
    with assms(1) handle_menu_set_output_steady [OF _ s l] show ?thesis by (auto simp: handle_selected_def choices)
  next
    case reset
    with assms(1) w handle_wipe_option_steady [OF _ s l] show ?thesis by (auto simp: handle_selected_def choices writes_card_def)
  next
    case restore
    with assms(1) w handle_select_input_device_steady [OF _ s l] show ?thesis by (auto simp: handle_selected_def choices writes_card_def)
  next
    case info
    with assms(1) message_steady(3) [OF s] show ?thesis by (auto simp: handle_selected_def choices)
  next
    case left
    with assms(1) do_gc_insert_prompt_steady [OF _ s] show ?thesis by (auto simp: handle_selected_def choices)
  next
    case other
    with assms(1) show ?thesis by (simp add: handle_selected_def)
  qed
qed

lemma turn_steady:
  assumes "handle_menu_select_option sys st = Some st'" "steady sys v" "locks_move sys v up down" "writes_steady sys v"
  shows "v (env st') = v (env st)"
proof -
  obtain c st1 where o: "do_gc_options sys st = Some (c, st1)" and h: "handle_selected sys c st1 = Some st'"
    using assms(1) by (auto simp: handle_menu_select_option_def bind_eq_Some_conv)
  from handle_selected_steady [OF h assms(2,3)] assms(4) choice_steady(1) [OF assms(2) o] show ?thesis by simp
qed

end
