(* ===== verification/Naming.thy ===== *)
theory Naming
  imports Safety
begin

text \<open>
  The names backups get: the texts of \<^verbatim>\<open>get_output_filename\<close> and the loop of
  \<^verbatim>\<open>handle_menu_set_output\<close> that looks for a name no file has, which ends at a free one.
\<close>

section \<open>Texts in buffers\<close>

definition legal :: "u8 \<Rightarrow> u8" where "legal c = (if illegal_char c then 0x20 else c)"

lemma remove_illegal_prefix:
  "n \<le> length b \<Longrightarrow> fold (\<lambda>i s. if illegal_char (s ! i) then s[i := 0x20] else s) [0..<n] b = map legal (take n b) @ drop n b"
proof (induction n)
  case (Suc n)
  then have d: "drop n b = b ! n # drop (Suc n) b" by (simp add: Cons_nth_drop_Suc)
  with Suc show ?case
    by (simp add: nth_append list_update_append take_Suc_conv_app_nth legal_def d)
qed simp

lemma length_remove_illegal_chars [simp]: "length (Paths.remove_illegal_chars b) = length b"
  using strlen_le [of b] by (simp add: remove_illegal_chars_def remove_illegal_prefix)

lemma chars_remove_illegal_chars: "chars (Paths.remove_illegal_chars b) = map legal (chars b)"
proof -
  have t: "take (strlen b) b = chars b"
    by (metis chars_def strlen_def takeWhile_eq_take)
  have z: "c \<noteq> 0" if "c \<in> set (map legal (chars b))" for c
    using that set_chars by (auto simp: legal_def)
  have r: "Paths.remove_illegal_chars b = map legal (chars b) @ drop (strlen b) b"
    using strlen_le [of b] by (simp add: remove_illegal_chars_def remove_illegal_prefix t)
  show ?thesis
  proof (cases "strlen b < length b")
    case True
    with chars_split [OF True] have "drop (strlen b) b = 0 # drop (Suc (strlen b)) b"
      by (metis append_eq_conv_conj length_chars)
    then show ?thesis using r chars_append_0 [of "map legal (chars b)"] z by metis
  next
    case False
    then have "Paths.remove_illegal_chars b = map legal (chars b)" using r by simp
    moreover have "chars x = x" if "\<And>c. c \<in> set x \<Longrightarrow> c \<noteq> 0" for x
      using that by (simp add: chars_def)
    ultimately show ?thesis using z by metis
  qed
qed

section \<open>Numbered names\<close>

definition numbered_name :: "bytes \<Rightarrow> bytes \<Rightarrow> bytes \<Rightarrow> nat \<Rightarrow> bytes" where
  "numbered_name title_id title ext k = map legal (take (MAX_PATH - 1) (output_filename_of title title_id ext k))"

definition numbered_path :: "bytes \<Rightarrow> string \<Rightarrow> bytes \<Rightarrow> bytes \<Rightarrow> bytes \<Rightarrow> nat \<Rightarrow> bytes" where
  "numbered_path folder od title_id title ext k =
     take (MAX_PATH - 2) (map of_char od @ chars folder @ map of_char ''/'' @ numbered_name title_id title ext k)"

lemma decimal2_digits: "c \<in> set (decimal2 n) \<Longrightarrow> is_digit c"
  using decimal_ascii [of c n] by (auto simp: decimal2_def is_digit_def split: if_splits)

lemma is_digit_legal: "is_digit c \<Longrightarrow> c \<noteq> 0 \<and> legal c = c"
  by (auto simp: is_digit_def legal_def illegal_char_def)

lemma decimal2_inj: "decimal2 j = decimal2 k \<Longrightarrow> j = k"
proof -
  have v: "atoi_digits 0 (decimal2 n @ [0]) = int n" for n
    using atoi_digits_decimal [of n] by (simp add: decimal2_def is_digit_def)
  assume "decimal2 j = decimal2 k"
  then show ?thesis using v by (metis of_nat_eq_iff)
qed

lemma output_text_nonzero: "0 \<notin> set (output_filename_of title title_id ext k)"
  using set_chars [of 0 title] set_chars [of 0 title_id] set_chars [of 0 ext] decimal2_digits [of 0 k] is_digit_legal [of 0]
  by (auto simp: output_filename_of_def)

lemma output_device_nonzero: "output_device_of c = Some od \<Longrightarrow> 0 \<notin> set (map of_char od :: bytes)"
  by (auto simp: output_device_of_def split: if_splits)

lemma map_legal_nonzero: "0 \<notin> set xs \<Longrightarrow> 0 \<notin> set (map legal xs)"
  by (auto simp: legal_def)

lemma numbered_path_inj:
  assumes "length (map of_char od @ chars folder @ map of_char ''/'' @ numbered_name title_id title ext j :: bytes) < MAX_PATH - 1"
    and "length (map of_char od @ chars folder @ map of_char ''/'' @ numbered_name title_id title ext k :: bytes) < MAX_PATH - 1"
    and "0 < j" "0 < k" and eq: "numbered_path folder od title_id title ext j = numbered_path folder od title_id title ext k"
  shows "j = k"
proof -
  have name: "numbered_name title_id title ext i = map legal (output_filename_of title title_id ext i)"
    if "length (map of_char od @ chars folder @ map of_char ''/'' @ numbered_name title_id title ext i :: bytes) < MAX_PATH - 1" for i
    using that by (simp add: numbered_name_def min_def split: if_splits)
  have full: "numbered_path folder od title_id title ext i =
      map of_char od @ chars folder @ map of_char ''/'' @ map legal (output_filename_of title title_id ext i)"
    if "length (map of_char od @ chars folder @ map of_char ''/'' @ numbered_name title_id title ext i :: bytes) < MAX_PATH - 1" for i
    unfolding numbered_path_def name [OF that, symmetric] using that by (intro take_all) simp
  have "map legal (output_filename_of title title_id ext j) = map legal (output_filename_of title title_id ext k)"
    using eq unfolding full [OF assms(1)] full [OF assms(2)] by simp
  then have "map legal (decimal2 j) = map legal (decimal2 k)"
    using assms(3,4) by (simp add: output_filename_of_def)
  moreover have "map legal (decimal2 i) = decimal2 i" for i
    using decimal2_digits is_digit_legal by (intro map_idI) blast
  ultimately show ?thesis using decimal2_inj by simp
qed


section \<open>The search for a free name\<close>

text \<open>What the search sees of the system: the files that exist and the title of the card, which \<open>v\<close> determines.\<close>

definition names_seen :: "'e app_sys \<Rightarrow> ('e \<Rightarrow> 'v) \<Rightarrow> ('v \<Rightarrow> bytes set) \<Rightarrow> bytes \<Rightarrow> bytes \<Rightarrow> bool" where
  "names_seen sys v taken title_id title \<longleftrightarrow>
     (\<forall>p e. file_exist (io sys) p e \<longleftrightarrow> chars p \<in> taken (v e)) \<and>
     (\<forall>e. chars (fst (title_of_card sys e)) = chars title_id \<and> chars (fst (snd (title_of_card sys e))) = chars title)"

lemma get_output_filename_text:
  assumes "names_seen sys v taken title_id title" "length q = MAX_PATH" "get_output_filename sys q ext k e = (q', e')"
  shows "chars q' = numbered_name title_id title ext k" "length q' = MAX_PATH"
proof -
  obtain i t e1 where t: "title_of_card sys e = (i, t, e1)" by (cases "title_of_card sys e")
  have c: "chars i = chars title_id" "chars t = chars title"
    using assms(1) t unfolding names_seen_def by (metis fst_conv snd_conv)+
  have q': "q' = Paths.remove_illegal_chars (snprintf q MAX_PATH (output_filename_of title title_id ext k))"
  proof -
    have "output_filename_of t i ext k = output_filename_of title title_id ext k" by (simp add: output_filename_of_def c)
    with assms(2,3) t show ?thesis by (auto simp: get_output_filename_def)
  qed
  then show "chars q' = numbered_name title_id title ext k" "length q' = MAX_PATH"
    using assms(2) output_text_nonzero [of title title_id ext k]
    by (simp_all add: chars_remove_illegal_chars chars_snprintf numbered_name_def MAX_PATH_def)
qed

lemma backup_path_text:
  assumes "0 \<notin> set (map of_char od :: bytes)" "length p = MAX_PATH" "chars q = numbered_name title_id title ext k"
  shows "chars (backup_path sys p folder od q) = numbered_path folder od title_id title ext k"
    and "length (backup_path sys p folder od q) = MAX_PATH"
proof -
  have "0 \<notin> set (numbered_name title_id title ext k)" using set_chars [of 0 q] assms(3) by auto
  then have "0 \<notin> set (map of_char od @ chars folder @ map of_char ''/'' @ numbered_name title_id title ext k :: bytes)"
    using assms(1) set_chars [of 0 folder] by auto
  then show "chars (backup_path sys p folder od q) = numbered_path folder od title_id title ext k"
    using assms(2,3) by (simp add: backup_path_def chars_snprintf numbered_path_def MAX_PATH_def)
  show "length (backup_path sys p folder od q) = MAX_PATH"
    using assms(2) by (simp add: backup_path_def MAX_PATH_def)
qed

lemma free_name_numbered:
  assumes od: "0 \<notin> set (map of_char od :: bytes)" and s: "steady sys v" and n: "names_seen sys v taken title_id title"
  shows "numbered_path folder od title_id title ext (m + d) \<notin> taken (v e) \<Longrightarrow> length p = MAX_PATH \<Longrightarrow> length q = MAX_PATH \<Longrightarrow>
    file_exist (io sys) p e \<Longrightarrow>
    \<exists>p' q' e' j. free_name sys folder od ext m p q e = Some (p', q', e') \<and> v e' = v e \<and> m \<le> j \<and> j \<le> m + d \<and>
      chars p' = numbered_path folder od title_id title ext j \<and> chars p' \<notin> taken (v e') \<and>
      (\<forall>i. m \<le> i \<and> i < j \<longrightarrow> numbered_path folder od title_id title ext i \<in> taken (v e))"
proof (induction d arbitrary: m p q e)
  case (0 m p q e)
  obtain q1 e1 where g: "get_output_filename sys q ext m e = (q1, e1)" by (cases "get_output_filename sys q ext m e")
  note q1 = get_output_filename_text [OF n 0(3) g]
  note p1 = backup_path_text [OF od 0(2) q1(1), of sys folder]
  have v1: "v e1 = v e" using get_output_filename_steady [OF s, of q ext m e] g by simp
  have "\<not> file_exist (io sys) (backup_path sys p folder od q1) e1"
    using n 0(1) p1(1) v1 by (simp add: names_seen_def)
  then have "free_name sys folder od ext m p q e = Some (backup_path sys p folder od q1, q1, e1)"
    using 0(4) g by (subst free_name.simps) (simp add: free_name.simps)
  with p1 v1 0(1) show ?case by - (rule exI [of _ "backup_path sys p folder od q1"], rule exI [of _ q1], rule exI [of _ e1], rule exI [of _ m], auto)
next
  case (Suc d m p q e)
  obtain q1 e1 where g: "get_output_filename sys q ext m e = (q1, e1)" by (cases "get_output_filename sys q ext m e")
  let ?p = "backup_path sys p folder od q1"
  note q1 = get_output_filename_text [OF n Suc(4) g]
  note p1 = backup_path_text [OF od Suc(3) q1(1), of sys folder]
  have v1: "v e1 = v e" using get_output_filename_steady [OF s, of q ext m e] g by simp
  have step: "free_name sys folder od ext m p q e = free_name sys folder od ext (m + 1) ?p q1 e1"
    using Suc(5) g by (subst free_name.simps) simp
  show ?case
  proof (cases "file_exist (io sys) ?p e1")
    case False
    then have "free_name sys folder od ext m p q e = Some (?p, q1, e1)" unfolding step by (subst free_name.simps) simp
    moreover have "chars ?p \<notin> taken (v e1)" using False n by (simp add: names_seen_def)
    ultimately show ?thesis using p1 v1 by - (rule exI [of _ ?p], rule exI [of _ q1], rule exI [of _ e1], rule exI [of _ m], auto)
  next
    case True
    have f: "numbered_path folder od title_id title ext (m + 1 + d) \<notin> taken (v e1)" using Suc(2) v1 by simp
    obtain p' q' e' j where r: "free_name sys folder od ext (m + 1) ?p q1 e1 = Some (p', q', e')" "v e' = v e1"
        "m + 1 \<le> j" "j \<le> m + 1 + d" "chars p' = numbered_path folder od title_id title ext j" "chars p' \<notin> taken (v e')"
        "\<forall>i. m + 1 \<le> i \<and> i < j \<longrightarrow> numbered_path folder od title_id title ext i \<in> taken (v e1)"
      using Suc.IH [OF f p1(2) q1(2) True] by blast
    have "numbered_path folder od title_id title ext m \<in> taken (v e)" using True n p1(1) v1 by (simp add: names_seen_def)
    with r(7) v1 have "\<forall>i. m \<le> i \<and> i < j \<longrightarrow> numbered_path folder od title_id title ext i \<in> taken (v e)"
      by (metis Suc_eq_plus1 Suc_leI le_neq_implies_less)
    with r v1 show ?thesis unfolding step
      by - (rule exI [of _ p'], rule exI [of _ q'], rule exI [of _ e'], rule exI [of _ j], simp)
  qed
qed

text \<open>Of one number more than there are files, one is free.\<close>

lemma free_number:
  assumes "finite F" and fits: "\<And>k. k \<le> Suc (card F) \<Longrightarrow>
      length (map of_char od @ chars folder @ map of_char ''/'' @ numbered_name title_id title ext k :: bytes) < MAX_PATH - 1"
  shows "\<exists>k. 1 \<le> k \<and> k \<le> Suc (card F) \<and> numbered_path folder od title_id title ext k \<notin> F"
proof (rule ccontr)
  let ?f = "numbered_path folder od title_id title ext"
  assume "\<not> ?thesis"
  then have "?f ` {1..Suc (card F)} \<subseteq> F" by auto
  then have "card (?f ` {1..Suc (card F)}) \<le> card F" by (rule card_mono [OF assms(1)])
  moreover have "inj_on ?f {1..Suc (card F)}"
    using numbered_path_inj [OF fits fits] by (intro inj_onI) simp
  ultimately show False by (simp add: card_image)
qed

end
