(* ===== verification/Console.thy ===== *)
theory Console
  imports Naming
begin

text \<open>
  A console the flows can be run on: a card with a few bytes whose size
  cannot be read once it has none, a disk that has one partition and remembers the
  last bytes written, a pad that is pressed in a given order, the depth of the locks, and a
  dialog at which an address is typed.
\<close>

text \<open>The loops are run by their equations.\<close>

declare get_key_from.simps [code] menu_loop.simps [code] WAIT_FOR_CONFIRM.simps [code] wait_while.simps [code]
  access_turns.simps [code] free_name.simps [code] network_turns.simps [code] output_turns.simps [code]
  format_turns.simps [code] input_turns.simps [code]

record console =
  depth :: nat
  pads :: "u32 list"
  card_data :: bytes
  last_written :: bytes

definition console_dev :: "'z console_scheme dev_sys" where
  "console_dev =
     \<lparr>is_module_started = (\<lambda>m e. True), kOpenDevice = (\<lambda>p f e. (1, e)), kReadDevice = (\<lambda>fd b e. (-1, b, e)),
      kWriteDevice = (\<lambda>fd b e. (int (length b), e\<lparr>card_data := b\<rparr>)), kCloseDevice = (\<lambda>fd e. e), kGetDeviceSize = (\<lambda>d n e. (if card_data e = [] then -7 else 0, 4, e)),
      kGetCartSecret = (\<lambda>b e. (b, e)), kGetCartHash = (\<lambda>b e. (b, e)), sceIoOpen = (\<lambda>p f e. (1, e)), sceIoRead = (\<lambda>fd b e. (-1, b, e)),
      sceIoWrite = (\<lambda>fd b e. (int (length b), e)), sceIoLseek = (\<lambda>fd n e. (0, e)), sceIoClose = (\<lambda>fd e. e),
      sceIoRemove = (\<lambda>p e. e), get_file_size = (\<lambda>p e. 0), make_directories_excluding_last = (\<lambda>p e. e),
      begin_connection = (\<lambda>a n e. (-1, e)), end_connection = (\<lambda>fd e. e), begin_file_send = (\<lambda>fd p n e. (-1, e)),
      file_send_data = (\<lambda>fd b e. (-1, e)), send_file_patch = (\<lambda>fd p off b e. (-1, e))\<rparr>"

definition console_io :: "(bytes \<Rightarrow> bool) \<Rightarrow> 'z console_scheme io_sys" where
  "console_io files =
     \<lparr>sceIoGetstat = (\<lambda>p e. (if files (chars p) then 0 else -1, 0)), sceIoDopen = (\<lambda>p e. (if files (chars p) then 3 else -1, e)),
      sceIoDread = (\<lambda>fd e. (0, \<lparr>d_name = [0], d_size = 0, d_isdir = False\<rparr>, e)), sceIoDclose = (\<lambda>fd e. (0, e)),
      sceIoOpen = (\<lambda>p f e. (1, e)), sceIoRead = (\<lambda>fd b e. (-1, b, e)),
      sceIoWrite = (\<lambda>fd b e. (int (length b), e\<lparr>last_written := b\<rparr>)), sceIoClose = (\<lambda>fd e. (0, e)), sceIoMkdir = (\<lambda>p e. e),
      sceIoDevctl_free = (\<lambda>p e. (0, 1000)), vshIoMount = (\<lambda>i m e. (0, e)), vshIoUmount = (\<lambda>i m e. e),
      sceKernelDelayThread = (\<lambda>n e. e), malloc_ok = (\<lambda>n e. True)\<rparr>"

definition console_net :: "'z console_scheme net_sys" where
  "console_net =
     \<lparr>sceSysmoduleLoadModule = (\<lambda>e. (0, e)), sceSysmoduleUnloadModule = (\<lambda>e. e), sceNetInit = (\<lambda>n e. (0, e)), sceNetTerm = (\<lambda>e. e),
      sceNetCtlInit = (\<lambda>e. (0, e)), sceNetCtlTerm = (\<lambda>e. e), sceNetCtlInetGetState = (\<lambda>i e. 0), sceNetInetPton = (\<lambda>a e. (0, 0)),
      sceNetHtons = (\<lambda>n. n), sceNetSocket = (\<lambda>a e. (-1, e)), sceNetConnect = (\<lambda>fd a e. (-1, e)), sceNetSend = (\<lambda>fd b e. (-1, e)),
      sceNetShutdown = (\<lambda>fd e. (0, e)), sceNetSocketClose = (\<lambda>fd e. (0, e))\<rparr>"

definition console_ident :: "'z console_scheme ident_sys" where
  "console_ident =
     \<lparr>kGetCardId = (\<lambda>n b e. (0, b)), kGetCardCsd = (\<lambda>n b e. (0, b)), kGetCardExtCsd = (\<lambda>n b e. (0, b)),
      kIsAuthenticated = (\<lambda>e. 1), kGetKeyId = (\<lambda>e. 1), kGetPerCartKeys = (\<lambda>b e. zeros 0x40)\<rparr>"

definition console_stack :: app_stack where
  "console_stack =
     \<lparr>mbr_stk = zeros 0x200, path_stk = zeros MAX_PATH, title_id_stk = zeros 64, title_stk = zeros 64, file_stk = zeros MAX_PATH,
      keys_stk = zeros 0x40, ip_stk = zeros 0x20, before_name = zeros 32,
      sfo_stk = \<lparr>stk_key_name = zeros 64, stk_key_value = zeros 64, heap_behind = []\<rparr>\<rparr>"

definition typed_address :: "SceImeDialogParam \<Rightarrow> ime_poll list" where
  "typed_address param =
     [\<lparr>poll_status = IME_DIALOG_RESULT_FINISHED, poll_close = False, poll_text = take (ime_maxTextLength param) (map of_char ''10.0.0.1'') @ [0]\<rparr>]"

definition console_sys :: "(bytes \<Rightarrow> bool) \<Rightarrow> 'z console_scheme app_sys" where
  "console_sys files =
     \<lparr>dev = console_dev, io = console_io files, net = console_net, ident = console_ident,
      peek = (\<lambda>e. case pads e of [] \<Rightarrow> (0, e) | p # ps \<Rightarrow> (p, e\<lparr>pads := ps\<rparr>)),
      dialog = (\<lambda>e. typed_address), after_dialog = (\<lambda>e. e), kFormatDevice = (\<lambda>d e. (0, e\<lparr>card_data := []\<rparr>)),
      sceShellUtilLock = (\<lambda>l e. e\<lparr>depth := depth e + 1\<rparr>), sceShellUtilUnlock = (\<lambda>l e. e\<lparr>depth := depth e - 1\<rparr>),
      sceKernelCreateThread = (\<lambda>e. (1, e)), sceKernelStartThread = (\<lambda>i e. (0, e)), sceKernelDeleteThread = (\<lambda>i e. e),
      set_disable_power = (\<lambda>b e. e), kIsSdInserted = (\<lambda>e. False), kIsMmcInserted = (\<lambda>e. True), kUndoneSd2VitaPatches = (\<lambda>e. True),
      kUndoSd2Vita = (\<lambda>e. e), kResetGc = (\<lambda>e. e), kEnableGcEmuMgr = (\<lambda>e. e), kDisableGcEmuMgr = (\<lambda>e. e),
      vshKernelSearchModuleByName = (\<lambda>m e. 1), taiLoadStartKernelModule = (\<lambda>p e. (1, e)), sceAppMgrAppParamGetString = (\<lambda>e. [0]),
      sceAppMgrLoadExec = (\<lambda>e. e), sceErrorGetExternalString = (\<lambda>n. ''''), sceRegMgr_button_assign = (\<lambda>e. (0, 0)),
      draw_confirmation_message = (\<lambda>t m e. e), draw_lines = (\<lambda>i e. e), draw_dump_progress = (\<lambda>a b n m e. e),
      draw_restore_progress = (\<lambda>a b n m e. e), draw_wipe_progress = (\<lambda>a b n m e. e), garbage = (\<lambda>e. console_stack),
      options_behind = 0, enum_size = 4, network_on = False\<rparr>"

lemma console_steady:
  assumes "\<And>e x. v (e\<lparr>pads := x\<rparr>) = v e" "\<And>e x. v (e\<lparr>last_written := x\<rparr>) = v e"
  shows "steady (console_sys files) v"
  using assms
  by (simp add: steady_def io_steady_def net_steady_def dev_steady_def progress_steady_def console_sys_def console_dev_def console_io_def
      console_net_def split: list.split)

definition console_app :: "u32 list \<Rightarrow> console app" where
  "console_app ps = \<lparr>env = \<lparr>depth = 0, pads = ps, card_data = [1, 2, 3, 4], last_written = []\<rparr>, conf = default_config, dumpbuf = zeros 8,
     ctrls = init_ctrl False\<rparr>"


section \<open>Runs\<close>

lemma console_sys_fields [simp]:
  "dev (console_sys files) = console_dev" "io (console_sys files) = console_io files" "net (console_sys files) = console_net"
    "ident (console_sys files) = console_ident"
    "peek (console_sys files) = (\<lambda>e. case pads e of [] \<Rightarrow> (0, e) | p # ps \<Rightarrow> (p, e\<lparr>pads := ps\<rparr>))"
    "dialog (console_sys files) = (\<lambda>e. typed_address)" "after_dialog (console_sys files) = (\<lambda>e. e)"
    "AppSys.kFormatDevice (console_sys files) = (\<lambda>d e. (0, e\<lparr>card_data := []\<rparr>))"
    "sceShellUtilLock (console_sys files) = (\<lambda>l e. e\<lparr>depth := depth e + 1\<rparr>)"
    "sceShellUtilUnlock (console_sys files) = (\<lambda>l e. e\<lparr>depth := depth e - 1\<rparr>)"
    "sceKernelCreateThread (console_sys files) = (\<lambda>e. (1, e))"
    "sceKernelStartThread (console_sys files) = (\<lambda>i e. (0, e))" "sceKernelDeleteThread (console_sys files) = (\<lambda>i e. e)"
    "set_disable_power (console_sys files) = (\<lambda>b e. e)" "kIsSdInserted (console_sys files) = (\<lambda>e. False)"
    "kIsMmcInserted (console_sys files) = (\<lambda>e. True)" "kUndoneSd2VitaPatches (console_sys files) = (\<lambda>e. True)"
    "kUndoSd2Vita (console_sys files) = (\<lambda>e. e)"
    "kResetGc (console_sys files) = (\<lambda>e. e)" "AppSys.kEnableGcEmuMgr (console_sys files) = (\<lambda>e. e)"
    "AppSys.kDisableGcEmuMgr (console_sys files) = (\<lambda>e. e)"
    "vshKernelSearchModuleByName (console_sys files) = (\<lambda>m e. 1)"
    "taiLoadStartKernelModule (console_sys files) = (\<lambda>p e. (1, e))"
    "sceAppMgrAppParamGetString (console_sys files) = (\<lambda>e. [0])" "sceAppMgrLoadExec (console_sys files) = (\<lambda>e. e)"
    "sceErrorGetExternalString (console_sys files) = (\<lambda>n. '''')"
    "sceRegMgr_button_assign (console_sys files) = (\<lambda>e. (0, 0))"
    "draw_confirmation_message (console_sys files) = (\<lambda>t m e. e)"
    "draw_lines (console_sys files) = (\<lambda>i e. e)"
    "AppSys.draw_dump_progress (console_sys files) = (\<lambda>a b n m e. e)"
    "AppSys.draw_restore_progress (console_sys files) = (\<lambda>a b n m e. e)"
    "AppSys.draw_wipe_progress (console_sys files) = (\<lambda>a b n m e. e)"
    "garbage (console_sys files) = (\<lambda>e. console_stack)" "options_behind (console_sys files) = 0"
    "enum_size (console_sys files) = 4" "network_on (console_sys files) = False"
  by (simp_all add: console_sys_def)

lemma console_dev_fields [simp]:
  "Device.dev_sys.is_module_started console_dev = (\<lambda>m e. True)" "kOpenDevice console_dev = (\<lambda>p f e. (1, e))"
    "kReadDevice console_dev = (\<lambda>fd b e. (-1, b, e))"
    "kWriteDevice console_dev = (\<lambda>fd b e. (int (length b), e\<lparr>card_data := b\<rparr>))"
    "kCloseDevice console_dev = (\<lambda>fd e. e)" "kGetDeviceSize console_dev = (\<lambda>d n e. (if card_data e = [] then -7 else 0, 4, e))"
    "kGetCartSecret console_dev = (\<lambda>b e. (b, e))" "kGetCartHash console_dev = (\<lambda>b e. (b, e))"
    "Device.sceIoOpen console_dev = (\<lambda>p f e. (1, e))" "Device.sceIoRead console_dev = (\<lambda>fd b e. (-1, b, e))"
    "Device.sceIoWrite console_dev = (\<lambda>fd b e. (int (length b), e))" "sceIoLseek console_dev = (\<lambda>fd n e. (0, e))"
    "Device.sceIoClose console_dev = (\<lambda>fd e. e)" "sceIoRemove console_dev = (\<lambda>p e. e)"
    "Device.dev_sys.get_file_size console_dev = (\<lambda>p e. 0)"
    "Device.dev_sys.make_directories_excluding_last console_dev = (\<lambda>p e. e)"
    "Device.dev_sys.begin_connection console_dev = (\<lambda>a n e. (-1, e))"
    "Device.dev_sys.end_connection console_dev = (\<lambda>fd e. e)"
    "Device.dev_sys.begin_file_send console_dev = (\<lambda>fd p n e. (-1, e))"
    "Device.dev_sys.file_send_data console_dev = (\<lambda>fd b e. (-1, e))"
    "Device.dev_sys.send_file_patch console_dev = (\<lambda>fd p off b e. (-1, e))"
  by (simp_all add: console_dev_def)

lemma console_io_fields [simp]:
  "sceIoGetstat (console_io files) = (\<lambda>p e. (if files (chars p) then 0 else -1, 0))"
    "sceIoDopen (console_io files) = (\<lambda>p e. (if files (chars p) then 3 else -1, e))"
    "sceIoDread (console_io files) = (\<lambda>fd e. (0, \<lparr>d_name = [0], d_size = 0, d_isdir = False\<rparr>, e))"
    "sceIoDclose (console_io files) = (\<lambda>fd e. (0, e))"
    "sceIoOpen (console_io files) = (\<lambda>p f e. (1, e))" "sceIoRead (console_io files) = (\<lambda>fd b e. (-1, b, e))"
    "sceIoWrite (console_io files) = (\<lambda>fd b e. (int (length b), e\<lparr>last_written := b\<rparr>))"
    "sceIoClose (console_io files) = (\<lambda>fd e. (0, e))" "sceIoMkdir (console_io files) = (\<lambda>p e. e)"
    "sceIoDevctl_free (console_io files) = (\<lambda>p e. (0, 1000))" "vshIoMount (console_io files) = (\<lambda>i m e. (0, e))"
    "vshIoUmount (console_io files) = (\<lambda>i m e. e)" "sceKernelDelayThread (console_io files) = (\<lambda>n e. e)"
    "malloc_ok (console_io files) = (\<lambda>n e. True)"
  by (simp_all add: console_io_def)

lemma console_net_fields [simp]:
  "sceSysmoduleLoadModule console_net = (\<lambda>e. (0, e))" "sceSysmoduleUnloadModule console_net = (\<lambda>e. e)"
    "sceNetInit console_net = (\<lambda>n e. (0, e))" "sceNetTerm console_net = (\<lambda>e. e)"
    "sceNetCtlInit console_net = (\<lambda>e. (0, e))" "sceNetCtlTerm console_net = (\<lambda>e. e)"
    "sceNetCtlInetGetState console_net = (\<lambda>i e. 0)" "sceNetInetPton console_net = (\<lambda>a e. (0, 0))"
    "sceNetHtons console_net = (\<lambda>n. n)" "sceNetSocket console_net = (\<lambda>a e. (-1, e))"
    "sceNetConnect console_net = (\<lambda>fd a e. (-1, e))" "sceNetSend console_net = (\<lambda>fd b e. (-1, e))"
    "sceNetShutdown console_net = (\<lambda>fd e. (0, e))" "sceNetSocketClose console_net = (\<lambda>fd e. (0, e))"
  by (simp_all add: console_net_def)

lemma console_ident_fields [simp]:
  "kGetCardId console_ident = (\<lambda>n b e. (0, b))" "kGetCardCsd console_ident = (\<lambda>n b e. (0, b))"
    "kGetCardExtCsd console_ident = (\<lambda>n b e. (0, b))" "kIsAuthenticated console_ident = (\<lambda>e. 1)"
    "kGetKeyId console_ident = (\<lambda>e. 1)" "kGetPerCartKeys console_ident = (\<lambda>b e. zeros 0x40)"
  by (simp_all add: console_ident_def)

text \<open>A press of the confirm button ends every wait, and every menu at its first option; cancel leaves it.\<close>

lemma console_press:
  assumes p: "pads e = k # 0 # ps" and k: "k = SCE_CTRL_CROSS \<or> k = SCE_CTRL_CIRCLE"
  shows "key (console_sys files) st e = Some (k, e\<lparr>pads := ps\<rparr>)"
proof -
  have n: "List.find (\<lambda>b. released 0 k AND b \<noteq> 0) buttons = None"
    by (simp add: released_def find_None_iff)
  have f: "List.find (\<lambda>b. released k 0 AND b \<noteq> 0) buttons = Some k"
    using k by (elim disjE) (simp_all only:, code_simp+)
  have d: "device_exist (linked (console_sys files)) BLOCK_DEVICE_GC e = (1, e)" for e
    by (simp add: device_exist_def linked_def module_started_def Let_def)
  show ?thesis
    unfolding key_def get_key_def using p
    by (subst get_key_from.simps, simp add: n d) (subst get_key_from.simps, simp add: f)
qed

lemma console_key: "pads e = SCE_CTRL_CROSS # 0 # ps \<Longrightarrow> key (console_sys files) st e = Some (SCE_CTRL_CROSS, e\<lparr>pads := ps\<rparr>)"
  by (rule console_press) simp_all

lemma console_cancel:
  assumes "pads (env st) = SCE_CTRL_CIRCLE # 0 # ps" "ctrls st = init_ctrl False"
  shows "run_menu (console_sys files) func st = Some (OP_CANCELED, st\<lparr>env := (env st)\<lparr>pads := ps\<rparr>\<rparr>)"
proof -
  have k: "SCE_CTRL_CIRCLE = SCE_CTRL_CANCEL (init_ctrl False)" by (simp add: init_ctrl_def)
  show ?thesis
    unfolding run_menu_def PROCESS_MENU_def
    using assms menu_turn_ends(1) [OF k]
    by (subst menu_loop.simps) (simp add: console_press case_prod_unfold Let_def)
qed

lemma console_confirm:
  assumes "pads (env st) = SCE_CTRL_CROSS # 0 # ps" "ctrls st = init_ctrl False" "func 0 0 = (True # cs, w)"
    "func 0 w = (cs', w')"
  shows "run_menu (console_sys files) func st = Some (0, st\<lparr>env := (env st)\<lparr>pads := ps\<rparr>\<rparr>)"
proof -
  have f: "int (CALC_FIRST_OPTION (set_options (True # cs) @ [0])) = 0"
    by (subst CALC_FIRST_OPTION_def, subst first_from.simps) (simp add: set_options_def)
  have k: "SCE_CTRL_CROSS = SCE_CTRL_CONFIRM (init_ctrl False)" by (simp add: init_ctrl_def)
  show ?thesis
    unfolding run_menu_def PROCESS_MENU_def
    using assms f menu_turn_ends(2) [OF k] by (subst menu_loop.simps) (simp add: console_key)
qed

lemma console_message:
  assumes "pads (env st) = SCE_CTRL_CROSS # 0 # ps" "ctrls st = init_ctrl False"
  shows "do_confirm_message (console_sys files) t m st = Some (st\<lparr>env := (env st)\<lparr>pads := ps\<rparr>\<rparr>)"
  unfolding do_confirm_message_def using assms
  by (subst WAIT_FOR_CONFIRM.simps) (simp add: on_env_def console_key init_ctrl_def)

lemma console_wait: "wait_turns (console_io files) p n e = e"
  by (induction n) simp_all

lemma console_mounts: "mount_devices (console_io files) e = e"
  by (simp add: mount_devices_def mount_uma_def mount_xmc_def mount_partition_def wait_for_partition_def console_wait)

lemma console_make_directories: "make_directories (console_io files) p e = e"
proof -
  have "fold (make_directory_at (console_io files) p) xs e = e" for xs
    by (induction xs) (simp_all add: make_directory_at_def Let_def)
  then show ?thesis by (simp add: make_directories_def)
qed

definition one_partition :: "bytes \<Rightarrow> bool" where "one_partition p \<longleftrightarrow> length p = 4"

abbreviation console_one :: "console app_sys" where "console_one \<equiv> console_sys one_partition"

lemma console_partitions:
  "file_exist (console_io one_partition) p e \<longleftrightarrow> strlen p = 4"
  "check_partition (console_io one_partition) p e = (strlen p = 4, e)"
  by (auto simp: file_exist_def one_partition_def check_partition_def read_first_filename_def Let_def split: option.split)

lemma partition_names:
  "strlen (cstr ''ux0:'') = 4" "strlen (cstr ''xmc0:'') = 5" "strlen (cstr ''uma0:'') = 5" "strlen (cstr ''host0:'') = 6"
  "strlen (cstr ''gro0:'') = 5" "strlen (cstr ''gro0:/app'') = 9"
  by (simp_all add: strlen_def cstr_def)

lemma console_title:
  "title_of_card console_one e = (strncpy (zeros 64) 0 DEFAULT_TITLEID 63, strncpy (zeros 64) 0 DEFAULT_TITLE 63, e)"
proof -
  have "read_gameinfo stk p (console_io one_partition) a b 64 e = (-1, strncpy a 0 DEFAULT_TITLEID 63, strncpy b 0 DEFAULT_TITLE 63, e)"
    for stk p a b
    using partition_names(6)
    by (simp add: read_gameinfo_def wait_for_partition_def console_wait read_first_filename_def one_partition_def)
  then show ?thesis by (simp add: title_of_card_def console_stack_def)
qed


text \<open>A backup of the keys to the first partition, confirmed twice.\<close>

lemma console_key_dump:
  "key_dump console_one p e = (0, e\<lparr>last_written := zeros 0x40\<rparr>)"
proof -
  have "zeros 0x40 \<noteq> []" by (simp add: zeros_def)
  then show ?thesis
  by (simp add: key_dump_def get_keys_def make_directories_excluding_last_def console_make_directories case_prod_unfold
      write_file_def written_def sizeof_GcCmd56Keys_def Let_def)
qed

lemma console_free_name:
  assumes "length p = MAX_PATH" "chars q = numbered_name i t ext k"
  shows "free_name console_one folder ''ux0:'' ext n (backup_path console_one p folder ''ux0:'' q) q e =
    Some (backup_path console_one p folder ''ux0:'' q, q, e)"
proof -
  have "chars (backup_path console_one p folder ''ux0:'' q) = numbered_path folder ''ux0:'' i t ext k"
    by (rule backup_path_text(1) [OF _ assms]) simp
  then have "strlen (backup_path console_one p folder ''ux0:'' q) = length (numbered_path folder ''ux0:'' i t ext k)"
    by (metis length_chars)
  also have "\<dots> > 4" by (cases "strlen folder") (simp_all add: numbered_path_def MAX_PATH_def)
  finally show ?thesis by (subst free_name.simps) (simp add: console_partitions)
qed

lemma keys_backup_run:
  "\<exists>st'. handle_selected console_one DUMP_KEYS_ONLY (console_app [SCE_CTRL_CROSS, 0, SCE_CTRL_CROSS, 0]) = Some st' \<and>
     last_written (env st') = zeros 0x40 \<and> pads (env st') = []"
proof -
  let ?st = "console_app [SCE_CTRL_CROSS, 0, SCE_CTRL_CROSS, 0]"
  let ?st1 = "?st\<lparr>env := (env ?st)\<lparr>pads := [SCE_CTRL_CROSS, 0]\<rparr>\<rparr>"
  obtain q e where g: "get_output_filename console_one (zeros MAX_PATH) (cstr ''keys.bin'') 0 (env ?st) = (q, e)"
    by (cases "get_output_filename console_one (zeros MAX_PATH) (cstr ''keys.bin'') 0 (env ?st)")
  have e: "e = env ?st" using g by (simp add: get_output_filename_def console_title)
  obtain i t k where q: "chars q = numbered_name i t (cstr ''keys.bin'') k"
    using get_output_filename_text(1) [of console_one "\<lambda>e. e" "\<lambda>e. {p. length p = 4}" _ _ "zeros MAX_PATH", OF _ _ g]
    by (simp add: names_seen_def console_partitions console_title)
  have loc: "do_select_output_location console_one (of_nat sizeof_GcCmd56Keys) ?st = Some (0, ?st1)"
    unfolding do_select_output_location_def console_sys_fields console_mounts console_partitions partition_names Let_def case_prod_beta fst_conv snd_conv
    by (subst console_confirm [where cs = "[False, False, False, False, True, True]" and ps = "[SCE_CTRL_CROSS, 0]"])
      (auto simp: draw_select_output_location_def console_app_def get_free_space_def sizeof_GcCmd56Keys_def is_connected_def chars_def cstr_def)
  have turn: "output_turns console_one (cstr ''keys.bin'') BACKUP_FORMAT_RAW DUMP_KEYS_ONLY None (of_nat sizeof_GcCmd56Keys) q ?st =
    Some (?st\<lparr>env := (env ?st)\<lparr>last_written := zeros 0x40, pads := []\<rparr>\<rparr>)"
    by (subst output_turns.simps, subst loc)
      (simp add: choices CHANGE_FILENAME_def O_RELOAD_DEVICES_def output_device_of_def DUMP_LOCATION_UX0_def DUMP_LOCATION_NET_def
        console_free_name [OF _ q] console_stack_def handle_dump_device_def dump_keys_def console_key_dump console_message console_app_def)
  show ?thesis
    using turn g e by (simp add: handle_selected_def choices ext_of_def handle_menu_set_output_def device_of_def console_stack_def)
qed

end
