(* ===== verification/Settings.thy ===== *)
theory Settings
  imports Handlers
begin

text \<open>
  What the flows do to the settings: only the address and the port of the network, and the folder behind them in
  memory, may change, the buffers keep their sizes and the buttons stay as they were assigned at the start.
\<close>

named_theorems settings_ops "flows keep the settings well-formed"

text \<open>
  The system's dialog returns at most as many characters as it is allowed; an address that also
  converts to at most 16 bytes fits its buffer.
\<close>

definition dialog_bounded :: "'e app_sys \<Rightarrow> bool" where
  "dialog_bounded sys \<longleftrightarrow>
     (\<forall>e param p. ime_wait (dialog sys e param) = Some p \<and> \<not> poll_close p \<longrightarrow>
        (\<exists>us. poll_text p = us @ [0] \<and> length us \<le> ime_maxTextLength param))"

definition addresses_fit :: "'e app_sys \<Rightarrow> bool" where
  "addresses_fit sys \<longleftrightarrow>
     (\<forall>e param p. ime_wait (dialog sys e param) = Some p \<and> \<not> poll_close p \<and> ime_maxTextLength param = 15 \<longrightarrow>
        length (utf16_to_utf8 (poll_text p)) \<le> 16)"

definition settings_kept :: "'e app_sys \<Rightarrow> GcConfig \<Rightarrow> GcConfig \<Rightarrow> bool" where
  "settings_kept sys c c' \<longleftrightarrow> config_ok (enum_size sys) c' \<and>
     c' = c\<lparr>ip_address := ip_address c', port := port c', backup_folder := backup_folder c'\<rparr> \<and>
     (addresses_fit sys \<longrightarrow> backup_folder c' = backup_folder c)"

definition keeps_settings :: "'e app_sys \<Rightarrow> 'e app \<Rightarrow> 'e app \<Rightarrow> bool" where
  "keeps_settings sys st st' \<longleftrightarrow> ctrls st' = ctrls st \<and>
     (dialog_bounded sys \<longrightarrow> config_ok (enum_size sys) (conf st) \<longrightarrow> settings_kept sys (conf st) (conf st'))"

lemma settings_kept_refl: "config_ok (enum_size sys) c \<Longrightarrow> settings_kept sys c c"
  by (simp add: settings_kept_def)

lemma settings_kept_trans: "settings_kept sys a b \<Longrightarrow> settings_kept sys b c \<Longrightarrow> settings_kept sys a c"
  unfolding settings_kept_def by (cases a; cases b; cases c) auto

lemma keeps_settings_refl [simp]: "keeps_settings sys st st"
  by (simp add: keeps_settings_def settings_kept_refl)

lemma keeps_settings_trans [trans]: "keeps_settings sys a b \<Longrightarrow> keeps_settings sys b c \<Longrightarrow> keeps_settings sys a c"
  unfolding keeps_settings_def by (metis settings_kept_trans settings_kept_def)

lemma keeps_settings_env [simp]:
  "keeps_settings sys st (st\<lparr>env := e\<rparr>)" "keeps_settings sys st (st\<lparr>env := e, dumpbuf := b\<rparr>)" "keeps_settings sys st (on_env f st)"
  "keeps_settings sys (st\<lparr>env := e\<rparr>) st' \<longleftrightarrow> keeps_settings sys st st'" "keeps_settings sys (on_env f st) st' \<longleftrightarrow> keeps_settings sys st st'"
  by (simp_all add: keeps_settings_def on_env_def settings_kept_refl)

section \<open>Menus and messages\<close>

lemma run_menu_settings: "run_menu sys f st = Some (c, st') \<Longrightarrow> keeps_settings sys st st'"
  by (auto simp: run_menu_def)

lemma WAIT_FOR_CONFIRM_settings: "WAIT_FOR_CONFIRM sys st = Some st' \<Longrightarrow> keeps_settings sys st st'"
proof (induction rule: WAIT_FOR_CONFIRM.raw_induct [rotated, consumes 1])
  case (1 WAIT_FOR_CONFIRM sys st st')
  from 1(2) obtain k e where k: "key sys st (env st) = Some (k, e)" by (cases "key sys st (env st)") auto
  show ?case
  proof (cases "k = SCE_CTRL_CONFIRM (ctrls st) \<or> k = SCE_CTRL_CANCEL (ctrls st)")
    case True
    with 1(2) k show ?thesis by auto
  next
    case False
    with 1(2) k have "WAIT_FOR_CONFIRM sys (st\<lparr>env := e\<rparr>) = Some st'" by simp
    from 1(1) [OF this] show ?thesis by simp
  qed
qed

lemma message_settings [settings_ops]:
  "do_confirm_message sys t m st = Some st' \<Longrightarrow> keeps_settings sys st st'"
  "do_error sys r st = Some (c, st') \<Longrightarrow> keeps_settings sys st st'"
  "do_device_info sys st = Some st' \<Longrightarrow> keeps_settings sys st st'"
  "do_gc_insert_prompt sys st = Some st' \<Longrightarrow> keeps_settings sys st st'"
  "report sys r x m st = Some st' \<Longrightarrow> keeps_settings sys st st'"
proof -
  have m: "do_confirm_message sys t m st = Some st' \<Longrightarrow> keeps_settings sys st st'" for t m st st'
    unfolding do_confirm_message_def by (drule WAIT_FOR_CONFIRM_settings) simp
  have e: "do_error sys r st = Some (c, st') \<Longrightarrow> keeps_settings sys st st'" for r c st st'
    by (auto simp: do_error_def Let_def bind_eq_Some_conv split: if_splits dest: m)
  show "do_confirm_message sys t m st = Some st' \<Longrightarrow> keeps_settings sys st st'"
    "do_error sys r st = Some (c, st') \<Longrightarrow> keeps_settings sys st st'" by (fact m e)+
  show "do_device_info sys st = Some st' \<Longrightarrow> keeps_settings sys st st'"
    by (auto simp: do_device_info_def dest: WAIT_FOR_CONFIRM_settings)
  show "do_gc_insert_prompt sys st = Some st' \<Longrightarrow> keeps_settings sys st st'"
    by (auto simp: do_gc_insert_prompt_def)
  show "report sys r x m st = Some st' \<Longrightarrow> keeps_settings sys st st'"
    by (auto simp: report_def split: if_splits dest: m e)
qed

lemma choice_settings [settings_ops]:
  "do_network_options sys st = Some (c, st') \<Longrightarrow> keeps_settings sys st st'"
  "do_format_confirm sys st = Some (c, st') \<Longrightarrow> keeps_settings sys st st'"
  "do_select_backup_format sys st = Some (c, st') \<Longrightarrow> keeps_settings sys st st'"
  "do_gc_options sys st = Some (c, st') \<Longrightarrow> keeps_settings sys st st'"
  "do_select_input_location sys st = Some (c, st') \<Longrightarrow> keeps_settings sys st st'"
  "do_select_output_location sys n st = Some (c, st') \<Longrightarrow> keeps_settings sys st st'"
  by (auto simp: do_network_options_def do_format_confirm_def do_select_backup_format_def do_gc_options_def do_select_input_location_def
      do_select_output_location_def Let_def case_prod_unfold dest!: run_menu_settings)

lemma do_select_file_settings [settings_ops]:
  assumes "do_select_file sys folder out ext k st = Some (c, out', st')"
  shows "keeps_settings sys st st'"
proof -
  obtain res files n e where g: "get_files_in_folder (io sys) (before_name (garbage sys (env st))) folder (zeros (MAX_PATH * BUFFER_SIZE))
      (Some (file_filter ext k)) BUFFER_SIZE (env st) = (res, files, n, e)"
    by (cases "get_files_in_folder (io sys) (before_name (garbage sys (env st))) folder (zeros (MAX_PATH * BUFFER_SIZE))
      (Some (file_filter ext k)) BUFFER_SIZE (env st)") auto
  show ?thesis
  proof (cases "res < 0 \<or> n \<le> 0")
    case True
    with assms show ?thesis by (auto simp: do_select_file_def g Let_def split: if_splits)
  next
    case False
    then obtain r e1 where "PROCESS_MENU (key sys (st\<lparr>env := e\<rparr>)) (ctrls st) (options_behind sys) (draw_select_file (int n)) e = Some (r, e1)"
      using assms by (auto simp: do_select_file_def g Let_def bind_eq_Some_conv)
    then have "st' = st\<lparr>env := e1\<rparr>"
      using assms False by (cases r) (simp_all add: do_select_file_def g Let_def)
    then show ?thesis by simp
  qed
qed

section \<open>Operations and handlers\<close>

lemma device_settings [settings_ops]:
  "do_device_dump sys d p f ip n st = Some (r, st') \<Longrightarrow> keeps_settings sys st st'"
  "do_device_restore sys d p st = Some (r, st') \<Longrightarrow> keeps_settings sys st st'"
  "do_device_wipe_and_format sys d full fmt st = Some (r, st') \<Longrightarrow> keeps_settings sys st st'"
  "dump_keys sys ip n p st = (r, st') \<Longrightarrow> keeps_settings sys st st'"
  by (auto simp: do_device_dump_def do_device_restore_def do_device_wipe_and_format_def dump_keys_def Let_def case_prod_unfold bind_eq_Some_conv
      split: if_splits option.splits)

lemma handle_dump_device_settings [settings_ops]:
  assumes "handle_dump_device sys what f d out ip n st = Some (r, out', st')"
  shows "keeps_settings sys st st'"
proof -
  obtain r1 st1 where 1: "(if what \<noteq> DUMP_KEYS_ONLY then do_device_dump sys d out f ip n st else Some (dump_keys sys ip n out st)) = Some (r1, st1)"
    using assms by (auto simp: handle_dump_device_def bind_eq_Some_conv)
  then have k: "keeps_settings sys st st1" by (auto split: if_splits dest: settings_ops)
  let ?out = "change_extension out MAX_PATH (cstr ''.keys.bin'')"
  obtain r2 st2 where 2: "dump_keys sys ip n ?out st1 = (r2, st2)" by (cases "dump_keys sys ip n ?out st1")
  have "keeps_settings sys st1 st2" by (rule device_settings(4) [OF 2])
  then have "keeps_settings sys st st2" using k keeps_settings_trans by blast
  moreover have "keeps_settings sys st1 st' \<or> keeps_settings sys st2 st'"
    using assms 1 2 by (auto simp: handle_dump_device_def Let_def bind_eq_Some_conv split: if_splits dest: settings_ops)
  ultimately show ?thesis using k keeps_settings_trans by blast
qed

text \<open>An answer of the dialog leaves the memory as it was, or is a text of bounded length.\<close>

lemma open_ime_cases:
  assumes "open_ime (dialog sys e) title text 15 = Some t" and "dialog_bounded sys"
  obtains "t = text" | "length t \<le> 49" "addresses_fit sys \<Longrightarrow> length t \<le> 16"
proof -
  let ?p = "init_ime_dialog title text 15 SCE_IME_TYPE_DEFAULT"
  from assms(1) obtain p where p: "ime_wait (dialog sys e ?p) = Some p" and t: "t = (if poll_close p then text else osl_osk_get_text (poll_text p))"
    by (auto simp: open_ime_def split: option.splits)
  have m: "ime_maxTextLength ?p = 15" by (simp add: init_ime_dialog_def)
  show thesis
  proof (cases "poll_close p")
    case True
    with t that show thesis by simp
  next
    case False
    obtain us where us: "poll_text p = us @ [0]" "length us \<le> 15"
      using assms(2) p False m unfolding dialog_bounded_def by metis
    have "length t \<le> 49"
      using t False us utf16_to_utf8_length [of "us @ [0]"] by (simp add: osl_osk_get_text_def)
    moreover have "length t \<le> 16" if "addresses_fit sys"
      using that p False m t unfolding addresses_fit_def by (auto simp: osl_osk_get_text_def)
    ultimately show thesis using that by blast
  qed
qed

text \<open>Bytes written over the address, at most up to the folder's end, leave the other settings as they are.\<close>

definition same_settings :: "'e app_sys \<Rightarrow> bytes \<Rightarrow> bytes \<Rightarrow> bool" where
  "same_settings sys m m' \<longleftrightarrow> length m' = length m \<and>
     (\<forall>f \<in> {cfg_major, cfg_minor, cfg_music (enum_size sys), cfg_confirm (enum_size sys)}. get_field f m' = get_field f m) \<and>
     (addresses_fit sys \<longrightarrow> get_field cfg_folder m' = get_field cfg_folder m)"

lemma same_settings_trans: "same_settings sys a b \<Longrightarrow> same_settings sys b c \<Longrightarrow> same_settings sys a c"
  by (simp add: same_settings_def)

lemma same_settings_put:
  assumes "length m = sizeof_GcConfig (enum_size sys)" "length t \<le> 49" "addresses_fit sys \<Longrightarrow> length t \<le> 16"
  shows "same_settings sys m (put_field (4, length t) t m)"
proof -
  have b: "in_bounds (4, length t) m" using assms by (simp add: sizeof_GcConfig_def MAX_PATH_def)
  then have "addresses_fit sys \<Longrightarrow> get_field cfg_folder (put_field (4, length t) t m) = get_field cfg_folder m"
    using assms(3) by (intro get_put_disjoint) (simp_all add: struct_fields)
  with b show ?thesis
    using assms(1,2) by (simp add: same_settings_def struct_fields MAX_PATH_def)
qed

lemma same_settings_kept:
  assumes ok: "config_ok (enum_size sys) c" and s: "same_settings sys (config_bytes (enum_size sys) c) m"
  shows "settings_kept sys c (config_of_bytes (enum_size sys) m)"
proof -
  let ?es = "enum_size sys"
  have l: "length m = sizeof_GcConfig ?es" using s length_config_bytes [OF ok] by (simp add: same_settings_def)
  obtain a p f where e: "config_of_bytes ?es m = (config_of_bytes ?es (config_bytes ?es c))\<lparr>ip_address := a, port := p, backup_folder := f\<rparr>"
      "a = get_field cfg_ip m" "f = get_field cfg_folder m"
    using s by (simp add: same_settings_def config_of_bytes_def)
  then have "length a = 16" "length f = MAX_PATH" using l by (simp_all add: struct_fields sizeof_GcConfig_def)
  moreover have "get_field cfg_folder (config_bytes ?es c) = backup_folder c"
    using config_of_config_bytes [OF ok] by (metis GcConfig.select_convs(5) config_of_bytes_def)
  ultimately show ?thesis
    using e ok s by (simp add: config_of_config_bytes [OF ok] settings_kept_def config_ok_def same_settings_def)
qed

lemma ask_ip_settings: "ask_ip sys st = Some st' \<Longrightarrow> keeps_settings sys st st'"
proof -
  assume a: "ask_ip sys st = Some st'"
  let ?es = "enum_size sys" and ?m = "config_bytes (enum_size sys) (conf st)"
  obtain t where t: "open_ime (dialog sys (env st)) (cstr ''Enter IP'') (address_at sys (conf st)) 15 = Some t"
      "length t \<le> length (address_at sys (conf st))"
    using a by (auto simp: ask_ip_def ask_text_def bind_eq_Some_conv cfg_ip_def split: if_splits)
  let ?C = "take 4 ?m @ put_field (0, length t) t (address_at sys (conf st))"
  let ?C' = "put_field cfg_ip (strncpy (get_field cfg_ip ?C) 0 DEFAULT_IP 15) ?C"
  from a t have st': "conf st' = config_of_bytes ?es ?C \<or> conf st' = config_of_bytes ?es ?C'" "ctrls st' = ctrls st"
    by (auto simp: ask_ip_def ask_text_def bind_eq_Some_conv Let_def on_env_def cfg_ip_def split: if_splits)
  have "settings_kept sys (conf st) (conf st')" if b: "dialog_bounded sys" and ok: "config_ok ?es (conf st)"
  proof -
    note l = length_config_bytes [OF ok]
    then have l4: "4 \<le> length ?m" by (simp add: sizeof_GcConfig_def)
    then have C: "?C = put_field (4, length t) t ?m" by (simp add: put_field.simps address_at_def cfg_ip_def add.commute)
    have s: "same_settings sys ?m ?C"
    proof (rule open_ime_cases [OF t(1) b])
      assume "t = address_at sys (conf st)"
      then have "?C = ?m" by (simp add: put_field.simps address_at_def cfg_ip_def)
      then show ?thesis by (simp add: same_settings_def)
    next
      assume "length t \<le> 49" "addresses_fit sys \<Longrightarrow> length t \<le> 16"
      then show ?thesis unfolding C by (rule same_settings_put [OF l])
    qed
    then have lC: "length ?C = sizeof_GcConfig ?es" using l by (simp add: same_settings_def)
    have "same_settings sys ?C ?C'"
      using same_settings_put [OF lC, of "strncpy (get_field cfg_ip ?C) 0 DEFAULT_IP 15"] lC
      by (simp add: cfg_ip_def sizeof_GcConfig_def)
    then have "same_settings sys ?m ?C'" by (rule same_settings_trans [OF s])
    with s st'(1) same_settings_kept [OF ok] show ?thesis by metis
  qed
  with st'(2) show ?thesis by (simp add: keeps_settings_def)
qed

text \<open>What an address that is too long for its buffer does: its bytes from the 17th on become the port and the
  start of the folder of the backups.\<close>

lemma long_address_overwrites:
  assumes ok: "config_ok (enum_size sys) (conf st)"
    and typed: "open_ime (dialog sys (env st)) (cstr ''Enter IP'') (address_at sys (conf st)) 15 = Some t" "18 \<le> length t" "length t \<le> 49"
    and valid: "\<And>e m. check_ip_address_valid (net sys) m e"
  shows "\<exists>st'. ask_ip sys st = Some st' \<and> ip_address (conf st') = take 16 t \<and> port (conf st') = le_word (get_field (16, 2) t) \<and>
    backup_folder (conf st') = drop 18 t @ drop (length t - 18) (backup_folder (conf st))"
proof -
  let ?c = "conf st" and ?m = "config_bytes (enum_size sys) (conf st)"
  have l: "length ?m = sizeof_GcConfig (enum_size sys)" by (rule length_config_bytes [OF ok])
  then have la: "\<not> length (address_at sys ?c) < length t" using typed(3)
    by (simp add: address_at_def cfg_ip_def sizeof_GcConfig_def MAX_PATH_def)
  have f: "take MAX_PATH (drop 22 ?m) = backup_folder ?c"
    using config_of_config_bytes [OF ok] by (metis GcConfig.select_convs(5) cfg_folder_def config_of_bytes_def get_field.simps)
  let ?C = "take 4 ?m @ t @ drop (4 + length t) ?m"
  have C: "ask_ip sys st = Some (on_env (after_dialog sys) st\<lparr>conf := config_of_bytes (enum_size sys) ?C\<rparr>)"
    using typed(1) la valid
    by (simp add: ask_ip_def ask_text_def cfg_ip_def put_field.simps on_env_def) (simp add: address_at_def cfg_ip_def add.commute)
  have "get_field cfg_folder ?C = drop 18 t @ drop (length t - 18) (backup_folder ?c)"
  proof -
    have "take MAX_PATH (drop 22 ?C) = drop 18 t @ take (MAX_PATH - (length t - 18)) (drop (4 + length t) ?m)"
      using typed l by (simp add: sizeof_GcConfig_def MAX_PATH_def)
    also have "take (MAX_PATH - (length t - 18)) (drop (4 + length t) ?m) = drop (length t - 18) (take MAX_PATH (drop 22 ?m))"
      using typed by (simp add: drop_take)
    finally show ?thesis by (simp add: f cfg_folder_def get_field.simps)
  qed
  moreover have "get_field cfg_ip ?C = take 16 t" "get_field cfg_port ?C = get_field (16, 2) t"
    using typed l by (simp_all add: struct_fields get_field.simps sizeof_GcConfig_def)
  ultimately show ?thesis using C by (simp add: config_of_bytes_def)
qed

lemma ask_settings [settings_ops]:
  "ask_port sys st = Some st' \<Longrightarrow> keeps_settings sys st st'"
  "ask_text sys t b n st = Some (c, st') \<Longrightarrow> keeps_settings sys st st'"
  by (auto simp: ask_port_def ask_text_def on_env_def keeps_settings_def settings_kept_def config_ok_def bind_eq_Some_conv Let_def
      split: if_splits)

lemma network_turns_settings: "network_turns sys st = Some y \<Longrightarrow> keeps_settings sys st (snd y)"
proof (induction rule: network_turns.raw_induct [rotated, consumes 1])
  case (1 network_turns sys st y)
  from 1(2) obtain c st1 where m: "do_network_options sys st = Some (c, st1)" by (auto simp: bind_eq_Some_conv)
  then have k: "keeps_settings sys st st1" by (rule choice_settings)
  have "keeps_settings sys st1 (snd y)"
  proof (cases "c = CHANGE_IP \<or> c = CHANGE_PORT")
    case True
    then obtain st2 where a: "ask_ip sys st1 = Some st2 \<or> ask_port sys st1 = Some st2" "network_turns sys st2 = Some y"
      using 1(2) m by (auto simp: bind_eq_Some_conv split: if_splits)
    then have "keeps_settings sys st1 st2" by (auto dest: ask_settings ask_ip_settings)
    then show ?thesis using 1(1) [OF a(2)] by (rule keeps_settings_trans)
  qed (use 1(2) m in \<open>auto split: if_splits\<close>)
  with k show ?case by (rule keeps_settings_trans)
qed

lemma handle_network_settings [settings_ops]:
  assumes "handle_menu_set_network_options sys what f d out st = Some (r, out', st')"
  shows "keeps_settings sys st st'"
proof -
  obtain go st1 where t: "network_turns sys st = Some (go, st1)"
    using assms by (auto simp: handle_menu_set_network_options_def bind_eq_Some_conv)
  have k: "keeps_settings sys st st1" using network_turns_settings [OF t] by simp
  have "keeps_settings sys st1 st'"
    using assms t by (auto simp: handle_menu_set_network_options_def Let_def case_prod_unfold split: if_splits
        dest!: handle_dump_device_settings)
  with k show ?thesis by (rule keeps_settings_trans)
qed


lemma output_turns_settings [settings_ops]: "output_turns sys ext f what d n q st = Some st' \<Longrightarrow> keeps_settings sys st st'"
proof (induction rule: output_turns.raw_induct [rotated, consumes 1])
  case (1 output_turns sys ext f what d n q st st')
  from 1(2) obtain c st1 where m: "do_select_output_location sys n st = Some (c, st1)" by (auto simp: bind_eq_Some_conv)
  then have k: "keeps_settings sys st st1" by (rule choice_settings)
  consider (name) "c = CHANGE_FILENAME" | (again) "c = O_RELOAD_DEVICES" "c \<noteq> CHANGE_FILENAME"
    | (none) "c \<noteq> CHANGE_FILENAME" "c \<noteq> O_RELOAD_DEVICES" "output_device_of c = None"
    | (some) od where "c \<noteq> CHANGE_FILENAME" "c \<noteq> O_RELOAD_DEVICES" "output_device_of c = Some od" by blast
  then have "keeps_settings sys st1 st'"
  proof cases
    case name
    then obtain q1 st2 where a: "ask_text sys ''Enter filename'' q MAX_PATH st1 = Some (q1, st2)"
      "output_turns sys ext f what d n (Paths.remove_illegal_chars q1) st2 = Some st'"
      using 1(2) m by (auto simp: bind_eq_Some_conv)
    from ask_settings(2) [OF a(1)] 1(1) [OF a(2)] show ?thesis by (rule keeps_settings_trans)
  next
    case again
    then have "output_turns sys ext f what d n q st1 = Some st'" using 1(2) m by (simp add: CHANGE_FILENAME_def O_RELOAD_DEVICES_def)
    then show ?thesis by (rule 1(1))
  next
    case none
    with 1(2) m show ?thesis by simp
  next
    case some
    let ?d = "case d of None \<Rightarrow> null_device | Some x \<Rightarrow> x"
    obtain p1 q1 e1 where fn: "free_name sys (backup_folder (conf st1)) od ext 1
        (backup_path sys (path_stk (garbage sys (env st1))) (backup_folder (conf st1)) od q) q (env st1) = Some (p1, q1, e1)"
      using 1(2) m some by (auto simp: bind_eq_Some_conv)
    show ?thesis
    proof (cases "c = DUMP_LOCATION_NET")
      case False
      then obtain r out where h: "handle_dump_device sys what f ?d p1 None 0 (st1\<lparr>env := e1\<rparr>) = Some (r, out, st')"
        using 1(2) m some fn by (auto simp: bind_eq_Some_conv Let_def)
      then show ?thesis using handle_dump_device_settings by fastforce
    next
      case True
      then obtain r q2 st2 where h: "handle_menu_set_network_options sys what f ?d q1 (st1\<lparr>env := e1\<rparr>) = Some (r, q2, st2)"
        and st': "if r = OP_CANCELED then output_turns sys ext f what d n q2 st2 = Some st' else st' = st2"
        using 1(2) m some fn by (auto simp: bind_eq_Some_conv Let_def split: if_splits)
      have k2: "keeps_settings sys st1 st2" using handle_network_settings [OF h] by simp
      then show ?thesis using st' 1(1) keeps_settings_trans [OF k2] by (auto split: if_splits)
    qed
  qed
  with k show ?case by (rule keeps_settings_trans)
qed

lemma handle_menu_set_output_settings [settings_ops]:
  "handle_menu_set_output sys ext f what st = Some st' \<Longrightarrow> keeps_settings sys st st'"
  by (auto simp: handle_menu_set_output_def Let_def case_prod_unfold dest!: output_turns_settings)

lemma format_turns_settings: "format_turns sys what fmt st = Some st' \<Longrightarrow> keeps_settings sys st st'"
proof (induction rule: format_turns.raw_induct [rotated, consumes 1])
  case (1 format_turns sys what fmt st st')
  from 1(2) obtain c st1 where m: "do_select_backup_format sys st = Some (c, st1)" by (auto simp: bind_eq_Some_conv)
  then have k: "keeps_settings sys st st1" by (rule choice_settings)
  show ?case
  proof (cases "c = OP_CANCELED")
    case True
    with 1(2) m k show ?thesis by simp
  next
    case False
    then obtain st2 where a: "handle_menu_set_output sys (cstr (snd (format_of fmt c))) (fst (format_of fmt c)) what st1 = Some st2"
      "format_turns sys what (format_of fmt c) st2 = Some st'"
      using 1(2) m by (auto simp: bind_eq_Some_conv)
    from k handle_menu_set_output_settings [OF a(1)] have "keeps_settings sys st st2" by (rule keeps_settings_trans)
    then show ?thesis using 1(1) [OF a(2)] by (rule keeps_settings_trans)
  qed
qed

lemma wipe_settings [settings_ops]:
  "handle_format_confirm_and_format sys d st = Some (r, st') \<Longrightarrow> keeps_settings sys st st'"
  "handle_wipe_option sys what st = Some st' \<Longrightarrow> keeps_settings sys st st'"
proof -
  have f: "handle_format_confirm_and_format sys d st = Some (r, st') \<Longrightarrow> keeps_settings sys st st'" for d r st'
    by (auto simp: handle_format_confirm_and_format_def bind_eq_Some_conv split: if_splits
        dest: choice_settings(2) device_settings(3) intro: keeps_settings_trans)
  show "handle_format_confirm_and_format sys d st = Some (r, st') \<Longrightarrow> keeps_settings sys st st'" by (rule f)
  show "handle_wipe_option sys what st = Some st' \<Longrightarrow> keeps_settings sys st st'"
    by (auto simp: handle_wipe_option_def Let_def bind_eq_Some_conv split: if_splits
        dest: f device_settings(3) message_settings(5) intro: keeps_settings_trans)
qed

lemma handle_select_file_settings:
  assumes "handle_select_file sys what folder st = Some st'"
  shows "keeps_settings sys st st'"
proof (cases "what = WRITE_MEDIAID \<or> what = WRITE_GRW0")
  case False
  with assms show ?thesis by (auto simp: handle_select_file_def)
next
  case True
  let ?d = "if what = WRITE_MEDIAID then BLOCK_DEVICE_MEDIAID else BLOCK_DEVICE_GRW0"
  obtain r n e where g: "get_effective_size (mbr_stk (garbage sys (env st))) (linked sys) ?d BACKUP_FORMAT_RAW (Some 0) (env st) = (r, n, e)"
    by (cases "get_effective_size (mbr_stk (garbage sys (env st))) (linked sys) ?d BACKUP_FORMAT_RAW (Some 0) (env st)")
  obtain x c out st1 where f: "do_select_file sys folder (file_stk (garbage sys e)) x (the n) (st\<lparr>env := e\<rparr>) = Some (c, out, st1)"
    and "(c = OP_CANCELED \<and> c < 0 \<and> map_option snd (do_error sys c st1) = Some st') \<or>
      (\<exists>p. Option.bind (do_device_restore sys ?d p st1) (\<lambda>(r, st). report sys r ''Restore Success!''
          (map of_char ''Restored from: '' @ chars p @ map of_char '' ...'') st) = Some st')"
    using assms True unfolding handle_select_file_def Let_def
    by (simp add: g bind_eq_Some_conv split: if_splits) (blast | fastforce)+
  then have "keeps_settings sys st1 st'"
    by (auto simp: bind_eq_Some_conv dest: message_settings(2,5) device_settings(2) intro: keeps_settings_trans)
  moreover have "keeps_settings sys st st1" using do_select_file_settings [OF f] by simp
  ultimately show ?thesis using keeps_settings_trans by blast
qed

lemma input_turns_settings: "input_turns sys st = Some y \<Longrightarrow> keeps_settings sys st (snd y)"
proof (induction rule: input_turns.raw_induct [rotated, consumes 1])
  case (1 input_turns sys st y)
  from 1(2) obtain c st1 where m: "do_select_input_location sys st = Some (c, st1)" by (auto simp: bind_eq_Some_conv)
  then have k: "keeps_settings sys st st1" by (rule choice_settings)
  show ?case
  proof (cases "c = I_RELOAD_DEVICES")
    case True
    with 1(2) m have "input_turns sys st1 = Some y" by simp
    with k 1(1) show ?thesis using keeps_settings_trans by blast
  next
    case False
    with 1(2) m k show ?thesis by auto
  qed
qed

lemma handle_select_input_device_settings [settings_ops]:
  assumes "handle_select_input_device sys what st = Some st'"
  shows "keeps_settings sys st st'"
proof -
  obtain c st1 where t: "input_turns sys st = Some (c, st1)"
    using assms by (auto simp: handle_select_input_device_def bind_eq_Some_conv)
  have k: "keeps_settings sys st st1" using input_turns_settings [OF t] by simp
  have "keeps_settings sys st1 st'"
    using assms t by (auto simp: handle_select_input_device_def Let_def split: if_splits dest!: handle_select_file_settings)
  with k show ?thesis by (rule keeps_settings_trans)
qed

lemma turn_settings:
  assumes "handle_menu_select_option sys st = Some st'"
  shows "keeps_settings sys st st'"
proof -
  obtain c st1 where o: "do_gc_options sys st = Some (c, st1)" and h: "handle_selected sys c st1 = Some st'"
    using assms by (auto simp: handle_menu_select_option_def bind_eq_Some_conv)
  have "keeps_settings sys st1 st'"
    using h by (auto simp: handle_selected_def handle_menu_select_backup_format_def split: if_splits dest: settings_ops format_turns_settings)
  with choice_settings(4) [OF o] show ?thesis by (rule keeps_settings_trans)
qed

end
