(* ===== verification/Turns.thy ===== *)
theory Turns
  imports Console Settings
begin

text \<open>
  What holds of the turns of the main menu: what a backup leaves alone, what every turn restores, and what the
  user is told of a wipe.
\<close>

section \<open>Names\<close>

text \<open>C26: The search for the name of a backup ends, at a name that no file has: the name it starts with, or
  the first of the numbered names that is free, after at most one number more than there are files.
  It is asked that the number is not cut off with the end of the path.
\<close>

theorem backup_gets_free_name:
  assumes od: "output_device_of selected = Some od" and s: "steady sys v" and n: "names_seen sys v taken title_id title"
    and fin: "finite (taken (v e))" and len: "length p = MAX_PATH" "length q = MAX_PATH"
    and fits: "\<And>k. k \<le> Suc (card (taken (v e))) \<Longrightarrow>
      length (map of_char od @ chars folder @ map of_char ''/'' @ numbered_name title_id title ext k :: bytes) < MAX_PATH - 1"
  shows "\<exists>p' q' e'. free_name sys folder od ext 1 p q e = Some (p', q', e') \<and> \<not> file_exist (io sys) p' e' \<and> v e' = v e \<and>
    (if chars p \<notin> taken (v e) then p' = p
     else \<exists>j. 1 \<le> j \<and> j \<le> Suc (card (taken (v e))) \<and> chars p' = numbered_path folder od title_id title ext j \<and>
       (\<forall>i. 1 \<le> i \<and> i < j \<longrightarrow> numbered_path folder od title_id title ext i \<in> taken (v e)))"
proof (cases "file_exist (io sys) p e")
  case False
  moreover from this have "chars p \<notin> taken (v e)" using n by (simp add: names_seen_def)
  ultimately show ?thesis by (subst free_name.simps) simp
next
  case True
  then have t: "chars p \<in> taken (v e)" using n by (simp add: names_seen_def)
  obtain k where k: "1 \<le> k" "k \<le> Suc (card (taken (v e)))" "numbered_path folder od title_id title ext k \<notin> taken (v e)"
    using free_number [OF fin fits] by blast
  then have "numbered_path folder od title_id title ext (1 + (k - 1)) \<notin> taken (v e)" by simp
  from free_name_numbered [OF output_device_nonzero [OF od] s n this len True] k(1)
  obtain p' q' e' j where r: "free_name sys folder od ext 1 p q e = Some (p', q', e')" "v e' = v e" "1 \<le> j" "j \<le> k"
      "chars p' = numbered_path folder od title_id title ext j" "chars p' \<notin> taken (v e')"
      "\<forall>i. 1 \<le> i \<and> i < j \<longrightarrow> numbered_path folder od title_id title ext i \<in> taken (v e)"
    by (metis le_add_diff_inverse)
  have "\<not> file_exist (io sys) p' e'" using r(6) n by (simp add: names_seen_def)
  with r t k(2) show ?thesis by - (rule exI [of _ p'], rule exI [of _ q'], rule exI [of _ e'], auto)
qed

text \<open>A disk with one file, whose name is that of a backup.\<close>

definition taken_name :: bytes where
  "taken_name = numbered_path (cstr ''backup'') ''ux0:'' (strncpy (zeros 64) 0 DEFAULT_TITLEID 63) (strncpy (zeros 64) 0 DEFAULT_TITLE 63)
     (cstr ''vci'') 0"

lemma taken_name_buffer: "chars (taken_name @ zeros (MAX_PATH - length taken_name)) = taken_name"
    "length (taken_name @ zeros (MAX_PATH - length taken_name)) = MAX_PATH"
proof -
  have l: "length taken_name < MAX_PATH" by (simp add: taken_name_def numbered_path_def MAX_PATH_def)
  let ?q = "map legal (take (MAX_PATH - 1) (output_filename_of (strncpy (zeros 64) 0 DEFAULT_TITLE 63)
     (strncpy (zeros 64) 0 DEFAULT_TITLEID 63) (cstr ''vci'') 0))"
  have "0 \<notin> set ?q" by (rule map_legal_nonzero) (meson in_set_takeD output_text_nonzero)
  then have "0 \<notin> set (map of_char ''ux0:'' @ chars (cstr ''backup'') @ map of_char ''/'' @ ?q :: bytes)"
    using set_chars [of 0 "cstr ''backup''"] by auto
  then have z: "0 \<notin> set taken_name" unfolding taken_name_def numbered_path_def numbered_name_def by (meson in_set_takeD)
  have "zeros (MAX_PATH - length taken_name) = 0 # zeros (MAX_PATH - length taken_name - 1)"
    using l by (cases "MAX_PATH - length taken_name") (simp_all add: zeros_def)
  then show "chars (taken_name @ zeros (MAX_PATH - length taken_name)) = taken_name"
    using z chars_append_0 [of taken_name] by metis
  show "length (taken_name @ zeros (MAX_PATH - length taken_name)) = MAX_PATH" using l by simp
qed

theorem backup_gets_free_name_witness:
  "\<exists>p' q' e'. free_name (console_sys (\<lambda>p. p = taken_name)) (cstr ''backup'') ''ux0:'' (cstr ''vci'') 1
       (taken_name @ zeros (MAX_PATH - length taken_name)) (zeros MAX_PATH) (env (console_app [])) = Some (p', q', e') \<and>
     chars p' \<noteq> taken_name"
proof -
  let ?sys = "console_sys (\<lambda>p. p = taken_name)" and ?i = "strncpy (zeros 64) 0 DEFAULT_TITLEID 63" and ?t = "strncpy (zeros 64) 0 DEFAULT_TITLE 63"
  have "chars (cstr ''gro0:/app'') \<noteq> taken_name"
  proof -
    have "hd (chars (cstr ''gro0:/app'')) \<noteq> hd taken_name"
      by (simp add: taken_name_def numbered_path_def chars_def cstr_def MAX_PATH_def)
    then show ?thesis by metis
  qed
  then have t: "title_of_card ?sys e = (?i, ?t, e)" for e
    by (simp add: title_of_card_def read_gameinfo_def wait_for_partition_def console_wait read_first_filename_def console_stack_def)
  have n: "names_seen ?sys card_data (\<lambda>_. {taken_name}) ?i ?t"
    by (simp add: names_seen_def file_exist_def t)
  have k: "length (decimal2 k) \<le> 2" if "k < 100" for k
  proof -
    have "k div 10 < 10" using that by simp
    then show ?thesis by (simp add: decimal2_def decimal.simps [of k] decimal.simps [of "k div 10"])
  qed
  have fits: "length (map of_char ''ux0:'' @ chars (cstr ''backup'') @ map of_char ''/'' @ numbered_name ?i ?t (cstr ''vci'') k :: bytes)
      < MAX_PATH - 1" if "k \<le> Suc (card {taken_name})" for k
  proof -
    have "length (output_filename_of ?t ?i (cstr ''vci'') k) \<le> 64 + 2 + 64 + 3 + 2 + 2 + 3"
      using strlen_le [of ?t] strlen_le [of ?i] strlen_le [of "cstr ''vci''"] k [of k] that
      by (simp add: output_filename_of_def) (simp add: strlen_def cstr_def)
    then have "length (numbered_name ?i ?t (cstr ''vci'') k) \<le> 140" by (simp add: numbered_name_def)
    then show ?thesis by (simp add: strlen_def cstr_def MAX_PATH_def)
  qed
  have od: "output_device_of DUMP_LOCATION_UX0 = Some ''ux0:''" by (simp add: output_device_of_def)
  have s: "steady ?sys card_data" by (simp add: console_steady)
  show ?thesis
    using backup_gets_free_name [OF od s n _ taken_name_buffer(2) length_zeros fits] n
    by (fastforce simp: names_seen_def)
qed

section \<open>Backups and locks\<close>

text \<open>C18: A turn that backs something up, shows the card or leaves the menu changes nothing of a card: what only
  writing to a device and formatting it can change is the same afterwards, whatever the user chooses in
  the menus and dialogs on the way and however often.  Runs in which a name typed at the dialog does not fit
  its array are undefined in the source and have no result here.
\<close>

theorem backups_leave_the_card:
  assumes "handle_selected sys selected st = Some st'" "\<not> writes_card selected"
    and "steady sys v" "locks_move sys v (\<lambda>x. x) (\<lambda>x. x)"
  shows "v (env st') = v (env st)"
  using handle_selected_steady [OF assms(1,3,4)] assms(2) by simp

theorem backups_leave_the_card_witness:
  "\<exists>st'. handle_selected console_one DUMP_KEYS_ONLY (console_app [SCE_CTRL_CROSS, 0, SCE_CTRL_CROSS, 0]) = Some st' \<and>
     last_written (env st') = zeros 0x40 \<and> card_data (env st') = [1, 2, 3, 4]"
proof -
  obtain st' where run: "handle_selected console_one DUMP_KEYS_ONLY (console_app [SCE_CTRL_CROSS, 0, SCE_CTRL_CROSS, 0]) = Some st'"
    and w: "last_written (env st') = zeros 0x40"
    using keys_backup_run by blast
  have "card_data (env st') = card_data (env (console_app [SCE_CTRL_CROSS, 0, SCE_CTRL_CROSS, 0]))"
    by (rule backups_leave_the_card [OF run]) (simp_all add: writes_card_def choices console_steady locks_move_def)
  with run w show ?thesis by (simp add: console_app_def)
qed

text \<open>C19: The locks of the shell are balanced: in every state the main loop is in before a turn they are as deep as at
  the start, on every path through the menus, errors and cancelled operations included; a name typed at the dialog
  that does not fit its array ends the model's run.
\<close>

theorem main_loop_balances_locks:
  assumes "at_main_menu sys st0 st" "steady sys v" "locks_move sys v up down" "writes_steady sys v"
  shows "v (env st) = v (env st0)"
  using assms(1) by induction (simp_all add: turn_steady [OF _ assms(2,3,4)])

lemma cancelled_turn:
  "handle_menu_select_option console_one (console_app [SCE_CTRL_CIRCLE, 0]) = Some (console_app [])"
proof -
  have m: "mount_gamecart (console_io files) e = e" for e files
    by (simp add: mount_gamecart_def mount_gro0_def mount_grw0_def mount_partition_def wait_for_partition_def console_wait)
  have x: "snd (device_exist (linked console_one) d e) = e" for d e
    by (simp add: device_exist_def linked_def module_started_def Let_def)
  have o: "do_gc_options console_one (console_app [SCE_CTRL_CIRCLE, 0]) = Some (OP_CANCELED, console_app [])"
    unfolding do_gc_options_def Let_def case_prod_unfold console_sys_fields m console_title snd_conv x
    by (subst console_cancel [where ps = "[]"]) (simp_all add: console_app_def)
  have "wait_while (\<lambda>e. False) w e = Some e" for w and e :: console
    by (subst wait_while.simps) simp
  then have "do_gc_insert_prompt console_one (console_app []) = Some (console_app [])"
    by (simp add: do_gc_insert_prompt_def wait_for_gc_auth_def console_app_def)
  then show ?thesis
    using o by (simp add: handle_menu_select_option_def handle_selected_def choices)
qed

theorem main_loop_balances_locks_witness:
  "at_main_menu console_one (console_app [SCE_CTRL_CIRCLE, 0]) (console_app []) \<and>
   depth (env (console_app [])) = depth (env (console_app [SCE_CTRL_CIRCLE, 0]))"
proof
  show m: "at_main_menu console_one (console_app [SCE_CTRL_CIRCLE, 0]) (console_app [])"
    by (rule main_turns [OF main_starts cancelled_turn])
  show "depth (env (console_app [])) = depth (env (console_app [SCE_CTRL_CIRCLE, 0]))"
    by (rule main_loop_balances_locks [OF m, where up = Suc and down = "\<lambda>n. n - 1"])
      (simp_all add: console_steady locks_move_def writes_steady_def)
qed

text \<open>C20: The settings stay well-formed: if the dialog of the system returns at most the number of characters it is
  allowed, then in every state of the main loop the address and the folder of the backups have the sizes of
  their buffers and the choices of music and buttons their values, and but for the address, the port and the folder
  the settings, and the buttons that confirm and cancel, are those the program started with.  The folder changes only
  through an address of more than 15 bytes, which is written on over the port and the folder.
\<close>

theorem settings_stay_typed:
  assumes "at_main_menu sys st0 st" "dialog_bounded sys" "config_ok (enum_size sys) (conf st0)"
  shows "config_ok (enum_size sys) (conf st) \<and> ctrls st = ctrls st0 \<and>
    (\<exists>a p f. conf st = (conf st0)\<lparr>ip_address := a, port := p, backup_folder := f\<rparr> \<and>
       (addresses_fit sys \<longrightarrow> f = backup_folder (conf st0)))"
proof -
  from assms(1) have "keeps_settings sys st0 st"
    by induction (auto dest: turn_settings intro: keeps_settings_trans)
  with assms(2,3) have k: "settings_kept sys (conf st0) (conf st)" "ctrls st = ctrls st0"
    by (simp_all add: keeps_settings_def)
  then show ?thesis unfolding settings_kept_def by blast
qed

lemma console_dialog: "dialog_bounded (console_sys files)" "addresses_fit (console_sys files)"
proof -
  have "length (utf16_to_utf8 (map of_char ''10.0.0.1'' @ [0])) = 9" by code_simp
  then show "addresses_fit (console_sys files)"
    by (auto simp: addresses_fit_def typed_address_def IME_DIALOG_RESULT_FINISHED_def simp del: utf16_to_utf8.simps)
  show "dialog_bounded (console_sys files)"
    by (auto simp: dialog_bounded_def typed_address_def IME_DIALOG_RESULT_FINISHED_def)
qed

theorem settings_stay_typed_witness:
  "config_ok 4 (conf (console_app [])) \<and> ctrls (console_app []) = init_ctrl False \<and>
   backup_folder (conf (console_app [])) = backup_folder default_config"
  using settings_stay_typed [OF main_turns [OF main_starts cancelled_turn] console_dialog(1)] default_config_ok [of 4] console_dialog(2)
  by (auto simp: console_app_def)

section \<open>What a wipe reports\<close>

text \<open>The user is told that a full format has succeeded whenever the formatting has, even if the wipe before it failed:
  the result of the wipe is overwritten.
\<close>

theorem wipe_failure_is_lost:
  assumes choice: "do_format_confirm sys st = Some (FULL_FORMAT, st1)"
    and wipe: "wipe_device (mbr_stk (garbage sys (before_device sys (env st1)))) (linked sys) BLOCK_DEVICE_GRW0
      (Some (AppSys.draw_wipe_progress sys)) (dumpbuf st1) (before_device sys (env st1)) = Some (wiped, buf, e)"
    and format: "AppSys.kFormatDevice sys BLOCK_DEVICE_GRW0 e = (formatted, e')" "0 \<le> formatted"
  shows "\<exists>msg. handle_wipe_option sys RESET_GRW0 st =
    do_confirm_message sys (cstr ''Format Success!'') msg (st1\<lparr>env := after_device sys e', dumpbuf := buf\<rparr>)"
proof -
  have "do_device_wipe_and_format sys BLOCK_DEVICE_GRW0 True True st1 = Some (formatted, st1\<lparr>env := after_device sys e', dumpbuf := buf\<rparr>)"
    using wipe format(1) by (simp add: do_device_wipe_and_format_def Let_def)
  then have "handle_format_confirm_and_format sys BLOCK_DEVICE_GRW0 st = Some (formatted, st1\<lparr>env := after_device sys e', dumpbuf := buf\<rparr>)"
    using choice by (simp add: handle_format_confirm_and_format_def FULL_FORMAT_def CANCEL_FORMAT_def OP_CANCELED_def)
  moreover have "formatted \<noteq> OP_CANCELED" using format(2) by (simp add: OP_CANCELED_def)
  ultimately show ?thesis
    using format(2) by (auto simp: handle_wipe_option_def Let_def choices report_def)
qed

text \<open>A card whose size cannot be read is not wiped.\<close>

definition unreadable_app :: "console app" where
  "unreadable_app = (console_app [SCE_CTRL_CROSS, 0])\<lparr>env := (env (console_app [SCE_CTRL_CROSS, 0]))\<lparr>card_data := []\<rparr>\<rparr>"

lemma console_before: "before_device (console_sys files) e = e\<lparr>depth := depth e + 1\<rparr>"
  by (simp add: before_device_def lock_shell_def lock_power_def umount_gro0_def umount_grw0_def console_mounts)

theorem wipe_failure_is_lost_witness:
  "\<exists>buf e msg st2. wipe_device (zeros 0x200) (linked console_one) BLOCK_DEVICE_GRW0 (Some (AppSys.draw_wipe_progress console_one)) (zeros 8)
       \<lparr>depth = 1, pads = [], card_data = [], last_written = []\<rparr> = Some (-7, buf, e) \<and>
     handle_wipe_option console_one RESET_GRW0 unreadable_app =
       do_confirm_message console_one (cstr ''Format Success!'') msg st2"
proof -
  let ?e = "\<lparr>depth = 1, pads = [], card_data = [], last_written = []\<rparr> :: console"
  let ?st1 = "unreadable_app\<lparr>env := (env unreadable_app)\<lparr>pads := []\<rparr>\<rparr>"
  have c: "do_format_confirm console_one unreadable_app = Some (FULL_FORMAT, ?st1)"
    unfolding do_format_confirm_def FULL_FORMAT_def
    by (rule console_confirm) (simp_all add: unreadable_app_def console_app_def draw_format_confirm_menu_def)
  have e: "before_device console_one (env ?st1) = ?e"
    by (simp add: console_before unreadable_app_def console_app_def)
  have "device_whitelisted BLOCK_DEVICE_GRW0" by code_simp
  then have w: "wipe_device (zeros 0x200) (linked console_one) BLOCK_DEVICE_GRW0 p (zeros 8) ?e = Some (-7, zeros 8, ?e)" for p
    by (simp add: wipe_device_def linked_def module_started_def setup_state_def get_device_size_def wipe_exit_def cleared_state_def Let_def)
  obtain msg where "handle_wipe_option console_one RESET_GRW0 unreadable_app =
      do_confirm_message console_one (cstr ''Format Success!'') msg (?st1\<lparr>env := after_device console_one (?e\<lparr>card_data := []\<rparr>), dumpbuf := zeros 8\<rparr>)"
    using wipe_failure_is_lost [OF c, of "-7" "zeros 8" ?e 0 "?e\<lparr>card_data := []\<rparr>"] w
    unfolding e by (auto simp: console_stack_def unreadable_app_def console_app_def)
  with w show ?thesis by blast
qed

end
