(* ===== verification/GcCart.thy ===== *)
theory GcCart
  imports Cmd56Sm
begin

text \<open>
  \<^verbatim>\<open>kern/cmd56/gc.h\<close> and \<^verbatim>\<open>gc.c\<close>: the card's side of the CMD56 protocol.  Every handler
  takes the state, the request and response packets and the generator's \<^verbatim>\<open>rand_state\<close>, and
  returns all four, since requests are decrypted in place.  \<open>stk\<close> stands for the
  contents of an uninitialised local array.
\<close>

section \<open>State\<close>

record gc_cmd56_state =
  gc_lock_status :: u16
  gc_key_id :: u16
  gc_per_cart_keys :: cmd56_keys
  gc_cart_random :: bytes       \<comment> \<open>0x20 bytes\<close>
  gc_shared_random :: shared_random
  gc_session_key :: bytes       \<comment> \<open>\<^verbatim>\<open>AES_ctx\<close>, 176 bytes\<close>
  gc_secondary_key :: bytes     \<comment> \<open>\<^verbatim>\<open>AES_ctx\<close>, 176 bytes\<close>

type_synonym gc_result = "gc_cmd56_state \<times> cmd56_request \<times> cmd56_response \<times> bytes"

definition put_req :: "field \<Rightarrow> bytes \<Rightarrow> cmd56_request \<Rightarrow> cmd56_request" where
  "put_req f v request = request\<lparr>rq_data := put_field f v (rq_data request)\<rparr>"

text \<open>Every write of a handler into \<open>data\<close> is one of the next two, and both record how far
  they reach behind its 0x1f5 bytes: a copy to a field, and the encryption in place of the
  first \<open>n\<close> bytes.\<close>

definition put_resp :: "field \<Rightarrow> bytes \<Rightarrow> cmd56_response \<Rightarrow> cmd56_response" where
  "put_resp f v response =
     response\<lparr>rs_data := put_field f v (rs_data response),
       rs_overrun := max (rs_overrun response) (fst f + length v - sizeof_response_data)\<rparr>"

definition encrypt_resp :: "bytes \<Rightarrow> nat \<Rightarrow> cmd56_response \<Rightarrow> cmd56_response" where
  "encrypt_resp ctx n response =
     response\<lparr>rs_data := encrypt_cbc_zero_iv ctx (rs_data response) n,
       rs_overrun := max (rs_overrun response) (n - sizeof_response_data)\<rparr>"

definition get_req :: "field \<Rightarrow> cmd56_request \<Rightarrow> bytes" where
  "get_req f request = get_field f (rq_data request)"

definition get_resp :: "field \<Rightarrow> cmd56_response \<Rightarrow> bytes" where
  "get_resp f response = get_field f (rs_data response)"

section \<open>Handlers\<close>

definition handle_cmd_start :: "gc_cmd56_state \<Rightarrow> cmd56_request \<Rightarrow> cmd56_response \<Rightarrow> bytes \<Rightarrow> gc_result" where
  "handle_cmd_start state request response rng =
     (let response = cmd56_response_start request response;
          state = state\<lparr>gc_lock_status := GC_LOCKED\<rparr>;
          response = put_resp (0xD, 1) [0x1] response;
          response = put_resp (0xE, 1) [0x1] response;
          response = put_resp (0xF, 1) [0x4] response
      in (state, request, response, rng))"

definition handle_cmd_status :: "gc_cmd56_state \<Rightarrow> cmd56_request \<Rightarrow> cmd56_response \<Rightarrow> bytes \<Rightarrow> gc_result" where
  "handle_cmd_status state request response rng =
     (let response = cmd56_response_start request response;
          response = put_resp status_resp_status (le_bytes 2 (gc_lock_status state)) response
      in (state, request, response, rng))"

text \<open>The thirteen bytes of the card's random that are fixed after generating it.\<close>

definition cart_random_fixup :: "bytes \<Rightarrow> bytes" where
  "cart_random_fixup r =
     r[0x0 := 0x00, 0x1 := 0x01, 0x2 := 0x00, 0x3 := 0x01, 0x4 := 0x00, 0x5 := 0x00, 0x6 := 0x00,
       0x7 := 0x00, 0x8 := 0x00, 0x9 := 0x00, 0xA := 0x00, 0xB := 0x04, 0xC := 0x00]"

definition handle_generate_session_key ::
  "bytes \<Rightarrow> gc_cmd56_state \<Rightarrow> cmd56_request \<Rightarrow> cmd56_response \<Rightarrow> bytes \<Rightarrow> gc_result" where
  "handle_generate_session_key stk state request response rng =
     (let response = cmd56_response_start request response;
          response = put_resp gsk_resp_unk0 (le_bytes 2 (endian_swap 0xE000)) response;
          response = put_resp gsk_resp_key_id (le_bytes 2 (endian_swap (gc_key_id state))) response;
          response = put_resp gsk_resp_unk1 (le_bytes 2 (endian_swap 0x2)) response;
          response = put_resp gsk_resp_unk2 (le_bytes 2 (endian_swap 0x3)) response;
          (rnd, rng) = rand_bytes rng 0x20;
          response = put_resp gsk_resp_cart_random rnd response;
          response = put_resp gsk_resp_cart_random
                       (cart_random_fixup (get_resp gsk_resp_cart_random response)) response;
          state = state\<lparr>gc_cart_random := get_resp gsk_resp_cart_random response\<rparr>;
          (ret, session_key) = derive_session_key stk (gc_cart_random state) (uint (gc_key_id state));
          state = state\<lparr>gc_session_key := AES_init_ctx (gc_session_key state) session_key\<rparr>
      in (state, request, response, rng))"

definition handle_exchange_shared_random ::
  "gc_cmd56_state \<Rightarrow> cmd56_request \<Rightarrow> cmd56_response \<Rightarrow> bytes \<Rightarrow> gc_result" where
  "handle_exchange_shared_random state request response rng =
     (let response = cmd56_response_start request response
      in if endian_swap (le_word (get_req esr_req_key_id request)) = gc_key_id state then
           (let vita = or_w_80 (get_req esr_req_shared_rand_vita request) 0x10;
                (cart, rng) = rand_bytes_or_w_80 rng 0x10;
                state = state\<lparr>gc_shared_random := \<lparr>vita_part = vita, cart_part = cart\<rparr>\<rparr>;
                response = put_resp esr_resp_shared_rand_cart (cart_part (gc_shared_random state)) response;
                response = put_resp esr_resp_shared_rand_vita (vita_part (gc_shared_random state)) response;
                response = encrypt_resp (gc_session_key state) sizeof_esr_resp response
            in (state, request, response, rng))
         else (state, request, cmd56_response_error response 0x11, rng))"

definition handle_exchange_secondary_key_and_verify_session ::
  "gc_cmd56_state \<Rightarrow> cmd56_request \<Rightarrow> cmd56_response \<Rightarrow> bytes \<Rightarrow> gc_result" where
  "handle_exchange_secondary_key_and_verify_session state request response rng =
     (let response = cmd56_response_start request response;
          request = request\<lparr>rq_data := decrypt_cbc_zero_iv (gc_session_key state) (rq_data request) sizeof_esk_req\<rparr>;
          state = state\<lparr>gc_secondary_key := AES_init_ctx (gc_secondary_key state) (get_req esk_req_secondary_key request)\<rparr>
      in if impl_memcmp (get_req esk_req_challenge_bytes request)
              (shared_random_bytes (gc_shared_random state)) 0x20 = 0
         then (state\<lparr>gc_lock_status := GC_UNLOCKED\<rparr>, request, response, rng)
         else (state\<lparr>gc_lock_status := GC_LOCKED\<rparr>, request, cmd56_response_error response 0xF1, rng))"

definition handle_verify_secondary_key ::
  "gc_cmd56_state \<Rightarrow> cmd56_request \<Rightarrow> cmd56_response \<Rightarrow> bytes \<Rightarrow> gc_result" where
  "handle_verify_secondary_key state request response rng =
     (let response = cmd56_response_start request response;
          (rnd, rng) = rand_bytes rng sizeof_vsk_resp;
          response = put_resp (0, sizeof_vsk_resp) rnd response;
          response = put_resp vsk_resp_challenge_bytes (get_req vsk_req_challenge_bytes request) response;
          response = put_resp vsk_resp_challenge_bytes (or_w_80 (get_resp vsk_resp_challenge_bytes response) 0x10) response;
          response = put_resp vsk_resp_cart_random (gc_cart_random state) response;
          response = encrypt_resp (gc_secondary_key state) 0x40 response
      in (state, request, response, rng))"

definition handle_p18key_and_cmac_signature ::
  "gc_cmd56_state \<Rightarrow> cmd56_request \<Rightarrow> cmd56_response \<Rightarrow> bytes \<Rightarrow> gc_result" where
  "handle_p18key_and_cmac_signature state request response rng =
     (let response = cmd56_response_start request response;
          got_cmac = do_cmd56_cmac_hash (gc_secondary_key state) (rq_data request)
            (make_int24 (rq_command request) 0x0 (rq_additional_data_size request))
            (fst p18_req_cmac_signature)
      in if impl_memcmp got_cmac (get_req p18_req_cmac_signature request) 0x10 = 0 then
           (let request = request\<lparr>rq_data := decrypt_cbc_zero_iv (gc_secondary_key state) (rq_data request)
                  (fst p18_req_cmac_signature)\<rparr>;
                type = get_req p18_req_type request ! 0;
                challenge = get_req p18_req_challenge_bytes request
            in if (type \<noteq> 0x2 \<or> type \<noteq> 0x3) \<and> (challenge ! 0 OR 0x80) \<noteq> challenge ! 0
               then (state, request, cmd56_response_error response 0x11, rng)
               else
                 (let response = put_resp p18_resp_challenge_bytes challenge response;
                      response = put_resp p18_resp_p18_key (packet18_key (gc_per_cart_keys state)) response;
                      response = encrypt_resp (gc_secondary_key state) (fst p18_resp_cmac_signature) response;
                      response = put_resp p18_resp_cmac_signature
                        (do_cmd56_cmac_hash (gc_secondary_key state) (rs_data response)
                          (ucast (rs_response_size response)) (fst p18_resp_cmac_signature)) response
                  in (state, request, response, rng)))
         else (state, request, cmd56_response_error response 0xF4, rng))"

definition handle_p20key_and_cmac_signature ::
  "gc_cmd56_state \<Rightarrow> cmd56_request \<Rightarrow> cmd56_response \<Rightarrow> bytes \<Rightarrow> gc_result" where
  "handle_p20key_and_cmac_signature state request response rng =
     (let response = cmd56_response_start request response;
          (rnd, rng) = rand_bytes rng sizeof_p20_resp;
          response = put_resp (0, sizeof_p20_resp) rnd response;
          response = put_resp p20_resp_challenge_bytes (get_req p20_req_challenge_bytes request) response;
          response = put_resp p20_resp_challenge_bytes (or_w_80 (get_resp p20_resp_challenge_bytes response) 0x10) response;
          response = put_resp p20_resp_p20_key (packet20_key (gc_per_cart_keys state)) response;
          response = encrypt_resp (gc_secondary_key state) (fst p20_resp_cmac_signature) response;
          response = put_resp p20_resp_cmac_signature
            (do_cmd56_cmac_hash (gc_secondary_key state) (rs_data response)
              (ucast (rs_response_size response)) (fst p20_resp_cmac_signature)) response
      in (state, request, response, rng))"

definition handle_unknown_request ::
  "gc_cmd56_state \<Rightarrow> cmd56_request \<Rightarrow> cmd56_response \<Rightarrow> bytes \<Rightarrow> gc_result" where
  "handle_unknown_request state request response rng =
     (let response = cmd56_response_start request response
      in (state, request, cmd56_response_error response 0x11, rng))"

definition handle_request ::
  "bytes \<Rightarrow> gc_cmd56_state \<Rightarrow> cmd56_request \<Rightarrow> cmd56_response \<Rightarrow> bytes \<Rightarrow> gc_result" where
  "handle_request stk state request response rng =
     (if rq_command request = CMD_START then handle_cmd_start state request response rng
      else if rq_command request = CMD_GET_STATUS then handle_cmd_status state request response rng
      else if rq_command request = CMD_GENERATE_SESSION_KEY
        then handle_generate_session_key stk state request response rng
      else if rq_command request = CMD_EXCHANGE_SHARED_RANDOM
        then handle_exchange_shared_random state request response rng
      else if rq_command request = CMD_EXCHANGE_SECONDARY_KEY_AND_VERIFY_SESSION
        then handle_exchange_secondary_key_and_verify_session state request response rng
      else if rq_command request = CMD_VERIFY_SECONDARY_KEY
        then handle_verify_secondary_key state request response rng
      else if rq_command request = CMD_GET_P18_KEY_AND_CMAC_SIGNATURE
        then handle_p18key_and_cmac_signature state request response rng
      else if rq_command request = CMD_GET_P20_KEY_AND_CMAC_SIGNATURE
        then handle_p20key_and_cmac_signature state request response rng
      else handle_unknown_request state request response rng)"

section \<open>Exposed functions\<close>

text \<open>
  A pointer that may be \<^verbatim>\<open>NULL\<close> is an option: the functions return at once on a null state
  and skip null keys.
\<close>

definition gc_cmd56_update_keyid ::
  "gc_cmd56_state option \<Rightarrow> u16 \<Rightarrow> bytes \<Rightarrow> gc_cmd56_state option \<times> bytes" where
  "gc_cmd56_update_keyid state key_id rng =
     (case state of
        None \<Rightarrow> (None, rng)
      | Some st \<Rightarrow> (Some (st\<lparr>gc_key_id := key_id\<rparr>), rand_seed rng (le_bytes 2 key_id) 2))"

definition gc_cmd56_update_keys_ex ::
  "gc_cmd56_state option \<Rightarrow> bytes option \<Rightarrow> bytes option \<Rightarrow> bytes \<Rightarrow> gc_cmd56_state option \<times> bytes" where
  "gc_cmd56_update_keys_ex state p20_key p18_key rng =
     (case state of
        None \<Rightarrow> (None, rng)
      | Some st \<Rightarrow>
          (let keys = gc_per_cart_keys st;
               keys = (case p20_key of None \<Rightarrow> keys | Some k \<Rightarrow> keys\<lparr>packet20_key := take 0x20 k\<rparr>);
               keys = (case p18_key of None \<Rightarrow> keys | Some k \<Rightarrow> keys\<lparr>packet18_key := take 0x20 k\<rparr>);
               rng = (case p20_key of None \<Rightarrow> rng | Some k \<Rightarrow> rand_seed rng k 0x20);
               rng = (case p18_key of None \<Rightarrow> rng | Some k \<Rightarrow> rand_seed rng k 0x20)
           in (Some (st\<lparr>gc_per_cart_keys := keys\<rparr>), rng)))"

definition gc_cmd56_update_keys ::
  "gc_cmd56_state option \<Rightarrow> cmd56_keys option \<Rightarrow> bytes \<Rightarrow> gc_cmd56_state option \<times> bytes" where
  "gc_cmd56_update_keys state per_cart_keys rng =
     (case state of
        None \<Rightarrow> (None, rng)
      | Some st \<Rightarrow>
          (case per_cart_keys of
             None \<Rightarrow> (state, rng)
           | Some k \<Rightarrow> gc_cmd56_update_keys_ex state (Some (packet20_key k)) (Some (packet18_key k)) rng))"

definition gc_zero :: gc_cmd56_state where
  "gc_zero = \<lparr>gc_lock_status = 0, gc_key_id = 0,
     gc_per_cart_keys = \<lparr>packet20_key = zeros 0x20, packet18_key = zeros 0x20\<rparr>,
     gc_cart_random = zeros 0x20,
     gc_shared_random = \<lparr>vita_part = zeros 0x10, cart_part = zeros 0x10\<rparr>,
     gc_session_key = zeros AES_keyExpSize, gc_secondary_key = zeros AES_keyExpSize\<rparr>"

definition gc_cmd56_init ::
  "gc_cmd56_state option \<Rightarrow> cmd56_keys option \<Rightarrow> bytes \<Rightarrow> gc_cmd56_state option \<times> bytes" where
  "gc_cmd56_init state per_cart_keys rng =
     (case state of
        None \<Rightarrow> (None, rng)
      | Some _ \<Rightarrow>
          (let st = gc_zero\<lparr>gc_lock_status := GC_LOCKED\<rparr>;
               (state, rng) = gc_cmd56_update_keyid (Some st) RETAIL_KEY_ID rng
           in gc_cmd56_update_keys state per_cart_keys rng))"

text \<open>
  The buffers are cast to packets; the last component counts the bytes that were
  written behind the end of \<^verbatim>\<open>response\<close>.  \<^verbatim>\<open>buffer\<close> is declared \<^verbatim>\<open>const\<close> but is the
  request that handlers decrypt in place, so its new contents are returned.
\<close>

definition gc_cmd56_run ::
  "bytes \<Rightarrow> gc_cmd56_state option \<Rightarrow> bytes \<Rightarrow> bytes \<Rightarrow> bytes \<Rightarrow>
   gc_cmd56_state option \<times> bytes \<times> bytes \<times> bytes \<times> nat" where
  "gc_cmd56_run stk state buffer response rng =
     (case state of
        None \<Rightarrow> (None, buffer, response, rng, 0)
      | Some st \<Rightarrow>
          (let request = request_of_bytes buffer
           in if impl_memcmp (rq_magic request) CMD56_MAGIC 0x20 \<noteq> 0
              then (state, buffer, response, rng, 0)
              else
                (let (st', rq, rs, rng') = handle_request stk st request (response_of_bytes response) rng
                 in (Some st', request_bytes rq, response_bytes rs, rng', rs_overrun rs))))"

definition gc_cmd56_run_in_place ::
  "bytes \<Rightarrow> bytes \<Rightarrow> gc_cmd56_state option \<Rightarrow> bytes \<Rightarrow> bytes \<Rightarrow>
   gc_cmd56_state option \<times> bytes \<times> bytes \<times> nat" where
  "gc_cmd56_run_in_place stk stk_response state buffer rng =
     (case state of
        None \<Rightarrow> (None, buffer, rng, 0)
      | Some st \<Rightarrow>
          (let (state, buffer, cmd56_request_response, rng, overrun) =
                 gc_cmd56_run stk state buffer stk_response rng
           in (state, impl_memcpy buffer 0 cmd56_request_response 0 0x200, rng, overrun)))"

section \<open>Well-formed states\<close>

definition wf_gc :: "gc_cmd56_state \<Rightarrow> bool" where
  "wf_gc st \<longleftrightarrow> length (packet20_key (gc_per_cart_keys st)) = 0x20 \<and>
     length (packet18_key (gc_per_cart_keys st)) = 0x20 \<and> length (gc_cart_random st) = 0x20 \<and>
     length (vita_part (gc_shared_random st)) = 0x10 \<and> length (cart_part (gc_shared_random st)) = 0x10 \<and>
     length (gc_session_key st) = 176 \<and> length (gc_secondary_key st) = 176"

definition wf_result :: "gc_result \<Rightarrow> bool" where
  "wf_result r = (case r of (st, rq, rs, rng) \<Rightarrow>
     wf_gc st \<and> wf_request rq \<and> wf_response rs \<and> length rng = 16)"

lemmas packet_access = put_req_def put_resp_def encrypt_resp_def get_req_def get_resp_def

lemma wf_put_resp [simp]:
  "wf_response r \<Longrightarrow> fst f + snd f \<le> 0x1f5 \<Longrightarrow> length v = snd f \<Longrightarrow> wf_response (put_resp f v r)"
  by (cases f) (simp add: wf_response_def put_resp_def packet_sizes)

lemma wf_put_req [simp]:
  "wf_request r \<Longrightarrow> fst f + snd f \<le> 0x1d1 \<Longrightarrow> length v = snd f \<Longrightarrow> wf_request (put_req f v r)"
  by (cases f) (simp add: wf_request_def put_req_def packet_sizes)

lemma length_get_resp [simp, wf_lens]:
  "wf_response r \<Longrightarrow> fst f + snd f \<le> 0x1f5 \<Longrightarrow> length (get_resp f r) = snd f"
  by (cases f) (simp add: wf_response_def get_resp_def packet_sizes)

lemma length_get_req [simp, wf_lens]:
  "wf_request r \<Longrightarrow> fst f + snd f \<le> 0x1d1 \<Longrightarrow> length (get_req f r) = snd f"
  by (cases f) (simp add: wf_request_def get_req_def packet_sizes)

lemma get_put_resp [simp]:
  "wf_response r \<Longrightarrow> fst f + snd f \<le> 0x1f5 \<Longrightarrow> length v = snd f \<Longrightarrow> get_resp f (put_resp f v r) = v"
  by (cases f) (simp add: wf_response_def packet_access packet_sizes)

lemma length_rs_data: "wf_response r \<Longrightarrow> length (rs_data r) = 0x1f5"
  by (simp add: wf_response_def packet_sizes)

lemma length_rq_data: "wf_request r \<Longrightarrow> length (rq_data r) = 0x1d1"
  by (simp add: wf_request_def packet_sizes)

text \<open>Encrypting or decrypting a prefix of \<open>data\<close> keeps a packet well-formed.\<close>

lemma wf_encrypt [simp]:
  "wf_response r \<Longrightarrow> n mod 16 = 0 \<Longrightarrow> n \<le> 0x1f5 \<Longrightarrow>
   wf_response (encrypt_resp ctx n r)"
  by (auto simp: wf_response_def encrypt_resp_def packet_sizes dest!: mod_0_imp_dvd elim!: dvdE)

lemma wf_decrypt [simp]:
  "wf_request r \<Longrightarrow> n mod 16 = 0 \<Longrightarrow> n \<le> 0x1d1 \<Longrightarrow>
   wf_request (r\<lparr>rq_data := decrypt_cbc_zero_iv ctx (rq_data r) n\<rparr>)"
  by (auto simp: wf_request_def packet_sizes dest!: mod_0_imp_dvd elim!: dvdE)

lemma length_cart_random_fixup [simp, wf_lens]: "length (cart_random_fixup r) = length r"
  by (simp add: cart_random_fixup_def)

lemmas handler_defs = handle_cmd_start_def handle_cmd_status_def handle_generate_session_key_def
  handle_exchange_shared_random_def handle_exchange_secondary_key_and_verify_session_def
  handle_verify_secondary_key_def handle_p18key_and_cmac_signature_def
  handle_p20key_and_cmac_signature_def handle_unknown_request_def

lemma wf_handle_request:
  assumes "wf_gc st" "wf_request rq" "length rng = 16" "length stk = 16"
  shows "wf_result (handle_request stk st rq rs rng)"
  using assms
  by (auto simp: wf_result_def handle_request_def handler_defs Let_def case_prod_unfold wf_gc_def
      struct_fields split: if_splits)

section \<open>Who may read the keys\<close>

definition presents_shared_random :: "gc_cmd56_state \<Rightarrow> cmd56_request \<Rightarrow> bool" where
  "presents_shared_random st rq \<longleftrightarrow>
     get_field esk_req_challenge_bytes (decrypt_cbc_zero_iv (gc_session_key st) (rq_data rq) sizeof_esk_req) =
     shared_random_bytes (gc_shared_random st)"

definition signed_by_secondary_key :: "gc_cmd56_state \<Rightarrow> cmd56_request \<Rightarrow> bool" where
  "signed_by_secondary_key st rq \<longleftrightarrow>
     do_cmd56_cmac_hash (gc_secondary_key st) (rq_data rq)
       (make_int24 (rq_command rq) 0 (rq_additional_data_size rq)) 0x20 = get_req p18_req_cmac_signature rq"

definition has_marked_challenge :: "gc_cmd56_state \<Rightarrow> cmd56_request \<Rightarrow> bool" where
  "has_marked_challenge st rq \<longleftrightarrow>
     bit (decrypt_cbc_zero_iv (gc_secondary_key st) (rq_data rq) 0x20 ! 0) 7"

text \<open>The type in the deciphered packet-18 request.\<close>

definition requested_type :: "gc_cmd56_state \<Rightarrow> cmd56_request \<Rightarrow> u8" where
  "requested_type st rq =
     get_field p18_req_type (decrypt_cbc_zero_iv (gc_secondary_key st) (rq_data rq) 0x20) ! 0"

lemma or_80_bit: "x OR 0x80 = x \<longleftrightarrow> bit (x :: u8) 7"
proof -
  have b: "bit (0x80 :: u8) n \<longleftrightarrow> n = 7" for n
  proof -
    have "(0x80 :: u8) = push_bit 7 1" by simp
    then show ?thesis by (simp only: bit_push_bit_iff) (auto simp: bit_1_iff)
  qed
  show ?thesis
  proof
    assume "x OR 0x80 = x"
    then have "bit (x OR 0x80) 7 = bit x 7" by simp
    then show "bit x 7" by (simp add: bit_or_iff b del: bit_numeral_word_iff)
  next
    assume "bit x 7"
    then show "x OR 0x80 = x" by (intro bit_word_eqI) (auto simp: bit_or_iff b simp del: bit_numeral_word_iff)
  qed
qed

lemma length_shared_random_bytes [simp, wf_lens]:
  "length (shared_random_bytes r) = length (vita_part r) + length (cart_part r)"
  by (simp add: shared_random_bytes_def)

lemma length_rq_decrypt [simp]:
  "wf_request rq \<Longrightarrow> n mod 16 = 0 \<Longrightarrow> n \<le> 0x1d1 \<Longrightarrow>
   length (decrypt_cbc_zero_iv ctx (rq_data rq) n) = 0x1d1"
  by (auto simp: length_rq_data dest!: mod_0_imp_dvd elim!: dvdE)

lemma challenge_check_iff:
  "wf_gc st \<Longrightarrow> wf_request rq \<Longrightarrow>
   impl_memcmp (get_req esk_req_challenge_bytes (rq\<lparr>rq_data := decrypt_cbc_zero_iv (gc_session_key st) (rq_data rq) sizeof_esk_req\<rparr>))
     (shared_random_bytes (gc_shared_random st)) 0x20 = 0 \<longleftrightarrow> presents_shared_random st rq"
  by (subst memcmp_eq)
     (simp_all add: presents_shared_random_def get_req_def wf_gc_def struct_fields)

lemma signature_check_iff:
  "wf_request rq \<Longrightarrow>
   impl_memcmp (do_cmd56_cmac_hash (gc_secondary_key st) (rq_data rq)
       (make_int24 (rq_command rq) 0 (rq_additional_data_size rq)) (fst p18_req_cmac_signature))
     (get_req p18_req_cmac_signature rq) 0x10 = 0 \<longleftrightarrow> signed_by_secondary_key st rq"
  by (subst memcmp_eq) (simp_all add: signed_by_secondary_key_def struct_fields)

lemma type_check_iff:
  "wf_request rq \<Longrightarrow>
   ((type \<noteq> 2 \<or> type \<noteq> (3 :: u8)) \<and>
     (get_req p18_req_challenge_bytes (rq\<lparr>rq_data := decrypt_cbc_zero_iv (gc_secondary_key st) (rq_data rq)
        (fst p18_req_cmac_signature)\<rparr>) ! 0 OR 0x80) \<noteq>
      get_req p18_req_challenge_bytes (rq\<lparr>rq_data := decrypt_cbc_zero_iv (gc_secondary_key st) (rq_data rq)
        (fst p18_req_cmac_signature)\<rparr>) ! 0) \<longleftrightarrow> \<not> has_marked_challenge st rq"
  by (auto simp: or_80_bit has_marked_challenge_def get_req_def struct_fields get_field.simps)

lemmas handler_simps = handle_request_def handler_defs Let_def case_prod_unfold
  challenge_check_iff signature_check_iff type_check_iff

lemma lock_status_handle_request:
  assumes "wf_gc st" "wf_request rq"
  shows "gc_lock_status (fst (handle_request stk st rq rs rng)) =
    (if rq_command rq = CMD_START then GC_LOCKED
     else if rq_command rq = CMD_EXCHANGE_SECONDARY_KEY_AND_VERIFY_SESSION
       then (if presents_shared_random st rq then GC_UNLOCKED else GC_LOCKED)
     else gc_lock_status st)"
  using assms by (simp add: handler_simps cmd_defs)

section \<open>What a legitimate request gets back\<close>

lemma get_field_take:
  "fst f + snd f \<le> k \<Longrightarrow> get_field f (take k d) = get_field f d"
  by (cases f) (simp add: get_field.simps take_drop min_def)

lemma get_field_decrypt:
  assumes "fst f + snd f \<le> k" "k mod 16 = 0" "n mod 16 = 0" "k \<le> n" "n \<le> length d" "k \<le> length d'"
    and "take k d' = take k (encrypt_cbc_zero_iv ctx d n)"
  shows "get_field f (decrypt_cbc_zero_iv ctx d' k) = get_field f d"
proof -
  obtain a b where "k = 16 * a" "n = 16 * b" using assms by (auto dest!: mod_0_imp_dvd elim!: dvdE)
  with assms have "take k (decrypt_cbc_zero_iv ctx d' k) = take k d"
    by (simp add: decrypt_encrypt_prefix [where n = b])
  then have "get_field f (take k (decrypt_cbc_zero_iv ctx d' k)) = get_field f (take k d)" by simp
  with assms(1) show ?thesis by (simp add: get_field_take)
qed

lemma take_put_field: "k \<le> fst f \<Longrightarrow> k \<le> length d \<Longrightarrow> take k (put_field f v d) = take k d"
  by (cases f) (simp add: put_field.simps)

lemma length_rs_encrypt [simp]:
  "wf_response rs \<Longrightarrow> n mod 16 = 0 \<Longrightarrow> n \<le> 0x1f5 \<Longrightarrow>
   length (encrypt_cbc_zero_iv ctx (rs_data rs) n) = 0x1f5"
  by (auto simp: length_rs_data dest!: mod_0_imp_dvd elim!: dvdE)

text \<open>
  What both key handlers do last: encrypt the first \<open>n\<close> bytes of the payload and store
  behind them the MAC of the ciphertext.
\<close>

definition seal_response :: "bytes \<Rightarrow> nat \<Rightarrow> cmd56_response \<Rightarrow> cmd56_response" where
  "seal_response ctx n rs =
     (let rs = encrypt_resp ctx n rs
      in put_resp (n, 0x10) (do_cmd56_cmac_hash ctx (rs_data rs) (ucast (rs_response_size rs)) n) rs)"

lemma seal_response_select [simp]:
  "rs_error_code (seal_response ctx n rs) = rs_error_code rs"
  "rs_response_code (seal_response ctx n rs) = rs_response_code rs"
  "rs_response_size (seal_response ctx n rs) = rs_response_size rs"
  by (simp_all add: seal_response_def put_resp_def encrypt_resp_def Let_def)

lemma overrun_seal [simp]:
  "n + 0x10 \<le> 0x1f5 \<Longrightarrow> rs_overrun (seal_response ctx n rs) = rs_overrun rs"
  by (simp add: seal_response_def put_resp_def encrypt_resp_def Let_def packet_sizes)

lemma sealed_response:
  assumes wf: "wf_response rs" and n: "n mod 16 = 0" "n \<le> 0x40"
  shows wf_seal: "wf_response (seal_response ctx n rs)"
    and seal_mac: "get_resp (n, 0x10) (seal_response ctx n rs) =
      do_cmd56_cmac_hash ctx (rs_data (seal_response ctx n rs)) (ucast (rs_response_size rs)) n"
    and seal_open: "fst f + snd f \<le> n \<Longrightarrow>
      get_field f (decrypt_cbc_zero_iv ctx (rs_data (seal_response ctx n rs)) n) = get_resp f rs"
proof -
  let ?enc = "encrypt_resp ctx n rs" and ?s = "seal_response ctx n rs"
  have enc: "wf_response ?enc" using assms by simp
  then have len: "length (encrypt_cbc_zero_iv ctx (rs_data rs) n) = 0x1f5" using assms by simp
  have pre: "take n (rs_data ?s) = take n (encrypt_cbc_zero_iv ctx (rs_data rs) n)"
    using assms len by (simp add: seal_response_def put_resp_def encrypt_resp_def take_put_field)
  show wf': "wf_response ?s" using enc n by (simp add: seal_response_def Let_def)
  have "do_cmd56_cmac_hash ctx (rs_data ?s) (ucast (rs_response_size rs)) n =
      do_cmd56_cmac_hash ctx (encrypt_cbc_zero_iv ctx (rs_data rs) n) (ucast (rs_response_size rs)) n"
    using n len length_rs_data [OF wf'] pre by (intro do_cmd56_cmac_hash_cong) simp_all
  then show "get_resp (n, 0x10) ?s = do_cmd56_cmac_hash ctx (rs_data ?s) (ucast (rs_response_size rs)) n"
    using enc n by (simp add: seal_response_def encrypt_resp_def)
  show "get_field f (decrypt_cbc_zero_iv ctx (rs_data ?s) n) = get_resp f rs" if "fst f + snd f \<le> n"
    unfolding get_resp_def using that n pre wf length_rs_data [OF wf']
    by (intro get_field_decrypt [where n = n]) (simp_all add: length_rs_data)
qed

lemma encrypted_open:
  assumes "wf_response rs" "n mod 16 = 0" "n \<le> 0x1f5" "fst f + snd f \<le> n"
  shows "get_field f (decrypt_cbc_zero_iv ctx (encrypt_cbc_zero_iv ctx (rs_data rs) n) n) = get_resp f rs"
  unfolding get_resp_def using assms length_rs_data [OF assms(1)]
  by (intro get_field_decrypt [where n = n]) simp_all

lemma rs_error_code_start [simp]: "rs_error_code (cmd56_response_start rq rs) = 0"
  by (simp add: cmd56_response_start_def Let_def)

lemma rs_overrun_start [simp]: "rs_overrun (cmd56_response_start rq rs) = 0"
  by (simp add: cmd56_response_start_def zero_response_def Let_def)

lemma put_resp_select [simp]:
  "rs_error_code (put_resp f v r) = rs_error_code r" "rs_response_code (put_resp f v r) = rs_response_code r"
  "rs_response_size (put_resp f v r) = rs_response_size r"
  "rs_error_code (encrypt_resp ctx n r) = rs_error_code r"
  "rs_response_code (encrypt_resp ctx n r) = rs_response_code r"
  by (simp_all add: put_resp_def encrypt_resp_def)

text \<open>A write inside \<open>data\<close> adds nothing to the count.\<close>

lemma overrun_put_resp [simp]:
  "fst f + length v \<le> 0x1f5 \<Longrightarrow> rs_overrun (put_resp f v r) = rs_overrun r"
  by (simp add: put_resp_def packet_sizes)

lemma overrun_encrypt_resp [simp]: "n \<le> 0x1f5 \<Longrightarrow> rs_overrun (encrypt_resp ctx n r) = rs_overrun r"
  by (simp add: encrypt_resp_def packet_sizes)

lemma error_select [simp]:
  "rs_error_code (cmd56_response_error r e) = e" "rs_response_code (cmd56_response_error r e) = ucast e"
  "rs_response_size (cmd56_response_error r e) = rs_response_size r"
  by (simp_all add: cmd56_response_error_def Let_def)

lemma get_put_resp_other [simp]:
  "disjoint_fields f g \<Longrightarrow> wf_response r \<Longrightarrow> fst g + snd g \<le> 0x1f5 \<Longrightarrow> length v = snd g \<Longrightarrow>
   get_resp f (put_resp g v r) = get_resp f r"
  by (cases f; cases g) (simp add: packet_access length_rs_data del: disjoint_fields.simps)

lemma handle_p18_eq:
  assumes "wf_request rq"
  shows "handle_p18key_and_cmac_signature st rq rs rng =
    (if signed_by_secondary_key st rq then
       (let rq' = rq\<lparr>rq_data := decrypt_cbc_zero_iv (gc_secondary_key st) (rq_data rq) 0x20\<rparr>
        in if has_marked_challenge st rq
           then (st, rq', seal_response (gc_secondary_key st) 0x30
                   (put_resp p18_resp_p18_key (packet18_key (gc_per_cart_keys st))
                     (put_resp p18_resp_challenge_bytes (get_req p18_req_challenge_bytes rq')
                       (cmd56_response_start rq rs))), rng)
           else (st, rq', cmd56_response_error (cmd56_response_start rq rs) 0x11, rng))
     else (st, rq, cmd56_response_error (cmd56_response_start rq rs) 0xF4, rng))"
  unfolding handle_p18key_and_cmac_signature_def Let_def
    signature_check_iff [OF assms] type_check_iff [OF assms]
  by (simp add: seal_response_def Let_def struct_fields)

lemma handle_p20_eq:
  "handle_p20key_and_cmac_signature st rq rs rng =
     (let rs1 = put_resp (0, sizeof_p20_resp) (fst (rand_bytes rng sizeof_p20_resp)) (cmd56_response_start rq rs);
          rs2 = put_resp p20_resp_challenge_bytes (get_req p20_req_challenge_bytes rq) rs1;
          rs3 = put_resp p20_resp_challenge_bytes (or_w_80 (get_resp p20_resp_challenge_bytes rs2) 0x10) rs2
      in (st, rq, seal_response (gc_secondary_key st) 0x40
            (put_resp p20_resp_p20_key (packet20_key (gc_per_cart_keys st)) rs3),
          snd (rand_bytes rng sizeof_p20_resp)))"
  by (simp add: handle_p20key_and_cmac_signature_def seal_response_def Let_def case_prod_unfold
      p20_resp_cmac_signature_def)

lemma handle_p18_response:
  assumes "wf_gc st" "wf_request rq" "signed_by_secondary_key st rq" "has_marked_challenge st rq"
    and "handle_p18key_and_cmac_signature st rq rs rng = (st', rq', rs', rng')"
  shows "st' = st" "rng' = rng" "wf_response rs'" "rs_error_code rs' = 0" "rs_overrun rs' = 0"
    "get_resp p18_resp_cmac_signature rs' =
       do_cmd56_cmac_hash (gc_secondary_key st) (rs_data rs') (ucast (rs_response_size rs')) 0x30"
    "get_field p18_resp_challenge_bytes (decrypt_cbc_zero_iv (gc_secondary_key st) (rs_data rs') 0x30) =
       get_field p18_req_challenge_bytes (decrypt_cbc_zero_iv (gc_secondary_key st) (rq_data rq) 0x20)"
    "get_field p18_resp_p18_key (decrypt_cbc_zero_iv (gc_secondary_key st) (rs_data rs') 0x30) =
       packet18_key (gc_per_cart_keys st)"
proof -
  let ?rq = "rq\<lparr>rq_data := decrypt_cbc_zero_iv (gc_secondary_key st) (rq_data rq) 0x20\<rparr>"
  let ?R = "put_resp p18_resp_p18_key (packet18_key (gc_per_cart_keys st))
     (put_resp p18_resp_challenge_bytes (get_req p18_req_challenge_bytes ?rq) (cmd56_response_start rq rs))"
  have wf: "wf_request ?rq" "length (packet18_key (gc_per_cart_keys st)) = 0x20"
    using assms(1,2) by (simp_all add: wf_gc_def)
  then have R: "wf_response ?R" by (simp add: struct_fields)
  have eq: "st' = st" "rng' = rng" "rs' = seal_response (gc_secondary_key st) 0x30 ?R"
    using assms by (auto simp: handle_p18_eq Let_def)
  show "st' = st" "rng' = rng" "wf_response rs'" "rs_error_code rs' = 0" "rs_overrun rs' = 0"
    using eq wf_seal [OF R] wf by (simp_all add: struct_fields)
  show "get_resp p18_resp_cmac_signature rs' =
      do_cmd56_cmac_hash (gc_secondary_key st) (rs_data rs') (ucast (rs_response_size rs')) 0x30"
    using seal_mac [OF R] by (simp add: eq p18_resp_cmac_signature_def)
  show "get_field p18_resp_challenge_bytes (decrypt_cbc_zero_iv (gc_secondary_key st) (rs_data rs') 0x30) =
       get_field p18_req_challenge_bytes (decrypt_cbc_zero_iv (gc_secondary_key st) (rq_data rq) 0x20)"
    using wf assms(2) by (subst eq(3), subst seal_open [OF R]) (simp_all add: struct_fields get_req_def)
  show "get_field p18_resp_p18_key (decrypt_cbc_zero_iv (gc_secondary_key st) (rs_data rs') 0x30) =
       packet18_key (gc_per_cart_keys st)"
    using wf by (subst eq(3), subst seal_open [OF R]) (simp_all add: struct_fields)
qed

lemma handle_p20_response:
  assumes "wf_gc st" "wf_request rq" "length rng = 16"
    and "handle_p20key_and_cmac_signature st rq rs rng = (st', rq', rs', rng')"
  shows "st' = st" "rq' = rq" "length rng' = 16" "wf_response rs'" "rs_error_code rs' = 0" "rs_overrun rs' = 0"
    "get_resp p20_resp_cmac_signature rs' =
       do_cmd56_cmac_hash (gc_secondary_key st) (rs_data rs') (ucast (rs_response_size rs')) 0x40"
    "get_field p20_resp_challenge_bytes (decrypt_cbc_zero_iv (gc_secondary_key st) (rs_data rs') 0x40) =
       or_w_80 (get_req p20_req_challenge_bytes rq) 0x10"
    "get_field p20_resp_p20_key (decrypt_cbc_zero_iv (gc_secondary_key st) (rs_data rs') 0x40) =
       packet20_key (gc_per_cart_keys st)"
proof -
  let ?r0 = "put_resp (0, sizeof_p20_resp) (fst (rand_bytes rng sizeof_p20_resp)) (cmd56_response_start rq rs)"
  let ?r1 = "put_resp p20_resp_challenge_bytes (get_req p20_req_challenge_bytes rq) ?r0"
  let ?r2 = "put_resp p20_resp_challenge_bytes (or_w_80 (get_resp p20_resp_challenge_bytes ?r1) 0x10) ?r1"
  let ?R = "put_resp p20_resp_p20_key (packet20_key (gc_per_cart_keys st)) ?r2"
  have k: "length (packet20_key (gc_per_cart_keys st)) = 0x20" using assms(1) by (simp add: wf_gc_def)
  have r0: "wf_response ?r0" using assms(3) by (simp add: struct_fields)
  then have r1: "wf_response ?r1" using assms(2) by (simp add: struct_fields)
  then have r2: "wf_response ?r2" by (simp add: struct_fields)
  then have R: "wf_response ?R" using k by (simp add: struct_fields)
  have eq: "st' = st" "rq' = rq" "rng' = snd (rand_bytes rng sizeof_p20_resp)"
      "rs' = seal_response (gc_secondary_key st) 0x40 ?R"
    using assms(4) by (auto simp: handle_p20_eq Let_def)
  show "st' = st" "rq' = rq" "length rng' = 16" "wf_response rs'" "rs_error_code rs' = 0" "rs_overrun rs' = 0"
    using eq wf_seal [OF R] assms(2,3) k r0 r1 r2 by (simp_all add: struct_fields)
  show "get_resp p20_resp_cmac_signature rs' =
      do_cmd56_cmac_hash (gc_secondary_key st) (rs_data rs') (ucast (rs_response_size rs')) 0x40"
    using seal_mac [OF R] by (simp add: eq p20_resp_cmac_signature_def)
  show "get_field p20_resp_challenge_bytes (decrypt_cbc_zero_iv (gc_secondary_key st) (rs_data rs') 0x40) =
       or_w_80 (get_req p20_req_challenge_bytes rq) 0x10"
    using k r0 r1 r2 assms(2) by (subst eq(4), subst seal_open [OF R]) (simp_all add: struct_fields)
  show "get_field p20_resp_p20_key (decrypt_cbc_zero_iv (gc_secondary_key st) (rs_data rs') 0x40) =
       packet20_key (gc_per_cart_keys st)"
    using k r2 by (subst eq(4), subst seal_open [OF R]) (simp_all add: struct_fields)
qed

lemma handle_vsk_response:
  assumes "wf_gc st" "wf_request rq" "length rng = 16"
    and "handle_verify_secondary_key st rq rs rng = (st', rq', rs', rng')"
  shows "st' = st" "rq' = rq" "length rng' = 16" "wf_response rs'" "rs_error_code rs' = 0" "rs_overrun rs' = 0"
    "get_field vsk_resp_challenge_bytes (decrypt_cbc_zero_iv (gc_secondary_key st) (rs_data rs') 0x40) =
       or_w_80 (get_req vsk_req_challenge_bytes rq) 0x10"
    "get_field vsk_resp_cart_random (decrypt_cbc_zero_iv (gc_secondary_key st) (rs_data rs') 0x40) =
       gc_cart_random st"
proof -
  let ?r0 = "put_resp (0, sizeof_vsk_resp) (fst (rand_bytes rng sizeof_vsk_resp)) (cmd56_response_start rq rs)"
  let ?r1 = "put_resp vsk_resp_challenge_bytes (get_req vsk_req_challenge_bytes rq) ?r0"
  let ?r2 = "put_resp vsk_resp_challenge_bytes (or_w_80 (get_resp vsk_resp_challenge_bytes ?r1) 0x10) ?r1"
  let ?R = "put_resp vsk_resp_cart_random (gc_cart_random st) ?r2"
  have k: "length (gc_cart_random st) = 0x20" using assms(1) by (simp add: wf_gc_def)
  have r0: "wf_response ?r0" using assms(3) by (simp add: struct_fields)
  then have r1: "wf_response ?r1" using assms(2) by (simp add: struct_fields)
  then have r2: "wf_response ?r2" by (simp add: struct_fields)
  then have R: "wf_response ?R" using k by (simp add: struct_fields)
  have eq: "st' = st" "rq' = rq" "rng' = snd (rand_bytes rng sizeof_vsk_resp)"
      "rs' = encrypt_resp (gc_secondary_key st) 0x40 ?R"
    using assms(4) by (auto simp: handle_verify_secondary_key_def Let_def case_prod_unfold)
  show "st' = st" "rq' = rq" "length rng' = 16" "rs_error_code rs' = 0" "rs_overrun rs' = 0"
    using eq assms(2,3) k r0 r1 r2 by (simp_all add: struct_fields)
  show "wf_response rs'" unfolding eq using R by (intro wf_encrypt) simp_all
  have op: "get_field f (decrypt_cbc_zero_iv (gc_secondary_key st) (rs_data rs') 0x40) = get_resp f ?R"
    if "fst f + snd f \<le> 0x40" for f
    using encrypted_open [OF R] that by (simp add: eq encrypt_resp_def)
  show "get_field vsk_resp_challenge_bytes (decrypt_cbc_zero_iv (gc_secondary_key st) (rs_data rs') 0x40) =
       or_w_80 (get_req vsk_req_challenge_bytes rq) 0x10"
    using k r0 r1 r2 assms(2) by (subst op) (simp_all add: struct_fields)
  show "get_field vsk_resp_cart_random (decrypt_cbc_zero_iv (gc_secondary_key st) (rs_data rs') 0x40) =
       gc_cart_random st"
    using k r2 by (subst op) (simp_all add: struct_fields)
qed

lemma handle_esr_response:
  assumes "wf_gc st" "wf_request rq" "length rng = 16"
    and "endian_swap (le_word (get_req esr_req_key_id rq)) = gc_key_id st"
    and "handle_exchange_shared_random st rq rs rng = (st', rq', rs', rng')"
  shows "rq' = rq" "length rng' = 16" "wf_response rs'" "rs_error_code rs' = 0" "rs_overrun rs' = 0"
    "st' = st\<lparr>gc_shared_random := \<lparr>vita_part = or_w_80 (get_req esr_req_shared_rand_vita rq) 0x10,
       cart_part = fst (rand_bytes_or_w_80 rng 0x10)\<rparr>\<rparr>"
    "get_field esr_resp_shared_rand_cart (decrypt_cbc_zero_iv (gc_session_key st) (rs_data rs') 0x20) =
       fst (rand_bytes_or_w_80 rng 0x10)"
    "get_field esr_resp_shared_rand_vita (decrypt_cbc_zero_iv (gc_session_key st) (rs_data rs') 0x20) =
       or_w_80 (get_req esr_req_shared_rand_vita rq) 0x10"
proof -
  let ?r0 = "put_resp esr_resp_shared_rand_cart (fst (rand_bytes_or_w_80 rng 0x10)) (cmd56_response_start rq rs)"
  let ?R = "put_resp esr_resp_shared_rand_vita (or_w_80 (get_req esr_req_shared_rand_vita rq) 0x10) ?r0"
  have r0: "wf_response ?r0" using assms(3) by (simp add: struct_fields)
  then have R: "wf_response ?R" using assms(2) by (simp add: struct_fields)
  have eq: "rq' = rq" "rng' = snd (rand_bytes_or_w_80 rng 0x10)"
      "rs' = encrypt_resp (gc_session_key st) 0x20 ?R"
      "st' = st\<lparr>gc_shared_random := \<lparr>vita_part = or_w_80 (get_req esr_req_shared_rand_vita rq) 0x10,
         cart_part = fst (rand_bytes_or_w_80 rng 0x10)\<rparr>\<rparr>"
    using assms(4,5) by (auto simp: handle_exchange_shared_random_def Let_def case_prod_unfold sizeof_esr_resp_def)
  show "st' = st\<lparr>gc_shared_random := \<lparr>vita_part = or_w_80 (get_req esr_req_shared_rand_vita rq) 0x10,
       cart_part = fst (rand_bytes_or_w_80 rng 0x10)\<rparr>\<rparr>" by (rule eq)
  show "rq' = rq" "length rng' = 16" "rs_error_code rs' = 0" "rs_overrun rs' = 0"
    using eq assms(2,3) r0 by (simp_all add: struct_fields)
  show "wf_response rs'" unfolding eq using R by (intro wf_encrypt) simp_all
  have op: "get_field f (decrypt_cbc_zero_iv (gc_session_key st) (rs_data rs') 0x20) = get_resp f ?R"
    if "fst f + snd f \<le> 0x20" for f
    using encrypted_open [OF R] that by (simp add: eq encrypt_resp_def)
  show "get_field esr_resp_shared_rand_cart (decrypt_cbc_zero_iv (gc_session_key st) (rs_data rs') 0x20) =
       fst (rand_bytes_or_w_80 rng 0x10)"
    using r0 assms(2,3) by (subst op) (simp_all add: struct_fields)
  show "get_field esr_resp_shared_rand_vita (decrypt_cbc_zero_iv (gc_session_key st) (rs_data rs') 0x20) =
       or_w_80 (get_req esr_req_shared_rand_vita rq) 0x10"
    using r0 assms(2) by (subst op) (simp_all add: struct_fields)
qed

lemma handle_gsk_response:
  assumes "wf_gc st" "wf_request rq" "length rng = 16" "length stk = 16"
    and "handle_generate_session_key stk st rq rs rng = (st', rq', rs', rng')"
  shows "rq' = rq" "length rng' = 16" "wf_response rs'" "rs_error_code rs' = 0" "rs_overrun rs' = 0"
    "endian_swap (le_word (get_resp gsk_resp_key_id rs')) = gc_key_id st"
    "get_resp gsk_resp_cart_random rs' = gc_cart_random st'"
    "st' = st\<lparr>gc_cart_random := cart_random_fixup (fst (rand_bytes rng 0x20)),
       gc_session_key := key_schedule (snd (derive_session_key stk (cart_random_fixup (fst (rand_bytes rng 0x20)))
         (uint (gc_key_id st))))\<rparr>"
proof -
  let ?r0 = "put_resp gsk_resp_unk0 (le_bytes 2 (endian_swap 0xE000)) (cmd56_response_start rq rs)"
  let ?r1 = "put_resp gsk_resp_key_id (le_bytes 2 (endian_swap (gc_key_id st))) ?r0"
  let ?r2 = "put_resp gsk_resp_unk1 (le_bytes 2 (endian_swap 0x2)) ?r1"
  let ?r3 = "put_resp gsk_resp_unk2 (le_bytes 2 (endian_swap 0x3)) ?r2"
  let ?r4 = "put_resp gsk_resp_cart_random (fst (rand_bytes rng 0x20)) ?r3"
  let ?R = "put_resp gsk_resp_cart_random (cart_random_fixup (fst (rand_bytes rng 0x20))) ?r4"
  have r0: "wf_response ?r0" by (simp add: gsk_resp_unk0_def)
  then have r1: "wf_response ?r1" by (simp add: gsk_resp_key_id_def)
  then have r2: "wf_response ?r2" by (simp add: gsk_resp_unk1_def)
  then have r3: "wf_response ?r3" by (simp add: gsk_resp_unk2_def)
  then have r4: "wf_response ?r4" using assms(3) by (simp add: gsk_resp_cart_random_def)
  then have R: "wf_response ?R" using assms(3) by (simp add: gsk_resp_cart_random_def)
  have g4: "get_resp gsk_resp_cart_random ?r4 = fst (rand_bytes rng 0x20)"
    using r3 assms(3) by (simp add: gsk_resp_cart_random_def)
  have gR: "get_resp gsk_resp_cart_random ?R = cart_random_fixup (fst (rand_bytes rng 0x20))"
    using r4 assms(3) by (simp add: gsk_resp_cart_random_def)
  have k: "length (snd (derive_session_key stk (cart_random_fixup (fst (rand_bytes rng 0x20)))
      (uint (gc_key_id st)))) = 16"
    using assms(4) by simp
  have eq: "rq' = rq" "rng' = snd (rand_bytes rng 0x20)" "rs' = ?R"
      "st' = st\<lparr>gc_cart_random := cart_random_fixup (fst (rand_bytes rng 0x20)),
         gc_session_key := key_schedule (snd (derive_session_key stk (cart_random_fixup (fst (rand_bytes rng 0x20)))
           (uint (gc_key_id st))))\<rparr>"
    using assms(1,5) g4 gR k
    by (auto simp: handle_generate_session_key_def Let_def case_prod_unfold AES_init_ctx_eq wf_gc_def)
  show "st' = st\<lparr>gc_cart_random := cart_random_fixup (fst (rand_bytes rng 0x20)),
       gc_session_key := key_schedule (snd (derive_session_key stk (cart_random_fixup (fst (rand_bytes rng 0x20)))
         (uint (gc_key_id st))))\<rparr>" by (rule eq)
  show "rq' = rq" "length rng' = 16" "wf_response rs'" "rs_error_code rs' = 0" "rs_overrun rs' = 0"
    using eq R assms(3) by (simp_all add: struct_fields)
  show "get_resp gsk_resp_cart_random rs' = gc_cart_random st'" using gR by (simp add: eq)
  show "endian_swap (le_word (get_resp gsk_resp_key_id rs')) = gc_key_id st"
    using r0 r1 r2 r3 r4 assms(3) by (simp add: eq struct_fields)
qed

text \<open>A packet-18 request as a console builds it: encrypted, then signed.\<close>

lemma sealed_request:
  fixes st :: gc_cmd56_state and base :: cmd56_request and n :: nat and P :: bytes
  assumes "length P = 0x1d1" "n mod 16 = 0" "0x20 \<le> n" "n \<le> 0x1d1"
  defines "E \<equiv> encrypt_cbc_zero_iv (gc_secondary_key st) P n"
  defines "rq \<equiv> base\<lparr>rq_data := put_field p18_req_cmac_signature
     (do_cmd56_cmac_hash (gc_secondary_key st) E (make_int24 (rq_command base) 0 (rq_additional_data_size base)) 0x20) E\<rparr>"
  shows "signed_by_secondary_key st rq"
    and "fst f + snd f \<le> 0x20 \<Longrightarrow> get_field f (decrypt_cbc_zero_iv (gc_secondary_key st) (rq_data rq) 0x20) = get_field f P"
    and "has_marked_challenge st rq \<longleftrightarrow> bit (P ! 0) 7"
proof -
  have len: "length E = 0x1d1" using assms(1,2,4) by (auto simp: E_def dest!: mod_0_imp_dvd elim!: dvdE)
  have pre: "take 0x20 (rq_data rq) = take 0x20 E" "length (rq_data rq) = 0x1d1"
    using len by (simp_all add: rq_def take_put_field struct_fields)
  have "do_cmd56_cmac_hash (gc_secondary_key st) (rq_data rq) h 0x20 =
      do_cmd56_cmac_hash (gc_secondary_key st) E h 0x20" for h
    using pre len by (intro do_cmd56_cmac_hash_cong) simp_all
  then show "signed_by_secondary_key st rq"
    using len by (simp add: signed_by_secondary_key_def get_req_def rq_def struct_fields)
  have op: "get_field f (decrypt_cbc_zero_iv (gc_secondary_key st) (rq_data rq) 0x20) = get_field f P"
    if "fst f + snd f \<le> 0x20" for f
    using that assms(1-4) pre by (intro get_field_decrypt [where n = n]) (simp_all add: E_def)
  then show "fst f + snd f \<le> 0x20 \<Longrightarrow>
      get_field f (decrypt_cbc_zero_iv (gc_secondary_key st) (rq_data rq) 0x20) = get_field f P" .
  have "length (decrypt_cbc_zero_iv (gc_secondary_key st) (rq_data rq) 0x20) = 0x1d1"
    using length_decrypt_cbc_zero_iv [of 2 "rq_data rq"] pre by simp
  then have "decrypt_cbc_zero_iv (gc_secondary_key st) (rq_data rq) 0x20 ! 0 = P ! 0"
    using op [of "(0, 1)"] assms(1) by (simp add: get_field.simps take_Suc_conv_app_nth)
  then show "has_marked_challenge st rq \<longleftrightarrow> bit (P ! 0) 7" by (simp add: has_marked_challenge_def)
qed

section \<open>Runs of the card\<close>

text \<open>
  One request at a time, whatever the console sends and whatever the uninitialised
  memory holds; the trace lists each request with the state it met.
\<close>

inductive gc_steps :: "gc_cmd56_state \<Rightarrow> (gc_cmd56_state \<times> cmd56_request) list \<Rightarrow> gc_cmd56_state \<Rightarrow> bool" where
  gc_refl: "gc_steps st [] st"
| gc_snoc: "gc_steps st tr st' \<Longrightarrow> wf_request rq \<Longrightarrow> length rng = 16 \<Longrightarrow> length stk = 16 \<Longrightarrow>
    gc_steps st (tr @ [(st', rq)]) (fst (handle_request stk st' rq rs rng))"

inductive_cases gc_steps_NilE: "gc_steps st [] st'"
inductive_simps gc_steps_Nil: "gc_steps st [] st'"

lemma wf_gc_handle_request:
  "wf_gc st \<Longrightarrow> wf_request rq \<Longrightarrow> length rng = 16 \<Longrightarrow> length stk = 16 \<Longrightarrow>
   wf_gc (fst (handle_request stk st rq rs rng))"
  using wf_handle_request [of st rq rng stk rs] by (auto simp: wf_result_def split: prod.splits)

lemma gc_steps_wf: "gc_steps st tr st' \<Longrightarrow> wf_gc st \<Longrightarrow> wf_gc st'"
  by (induction rule: gc_steps.induct) (auto intro: wf_gc_handle_request)

definition unlocking :: "gc_cmd56_state \<times> cmd56_request \<Rightarrow> bool" where
  "unlocking s \<longleftrightarrow> rq_command (snd s) = CMD_EXCHANGE_SECONDARY_KEY_AND_VERIFY_SESSION \<and>
     presents_shared_random (fst s) (snd s)"

definition locking :: "gc_cmd56_state \<times> cmd56_request \<Rightarrow> bool" where
  "locking s \<longleftrightarrow> rq_command (snd s) = CMD_START \<or>
     rq_command (snd s) = CMD_EXCHANGE_SECONDARY_KEY_AND_VERIFY_SESSION \<and>
     \<not> presents_shared_random (fst s) (snd s)"

lemma lock_status_step:
  assumes "wf_gc st" "wf_request rq"
  shows "gc_lock_status (fst (handle_request stk st rq rs rng)) =
    (if unlocking (st, rq) then GC_UNLOCKED else if locking (st, rq) then GC_LOCKED else gc_lock_status st)"
  using lock_status_handle_request [OF assms] by (auto simp: unlocking_def locking_def cmd_defs)

text \<open>The last trace entry that decides the lock.\<close>

definition unlocked_by :: "(gc_cmd56_state \<times> cmd56_request) list \<Rightarrow> bool" where
  "unlocked_by tr \<longleftrightarrow> (\<exists>tr1 s tr2. tr = tr1 @ s # tr2 \<and> unlocking s \<and> (\<forall>s' \<in> set tr2. \<not> locking s'))"

lemma unlocked_by_snoc:
  "unlocked_by (tr @ [s]) \<longleftrightarrow> unlocking s \<or> unlocked_by tr \<and> \<not> locking s"
proof
  assume "unlocked_by (tr @ [s])"
  then obtain tr1 u tr2 where u: "tr @ [s] = tr1 @ u # tr2" "unlocking u" "\<forall>s' \<in> set tr2. \<not> locking s'"
    by (auto simp: unlocked_by_def)
  show "unlocking s \<or> unlocked_by tr \<and> \<not> locking s"
  proof (cases tr2 rule: rev_cases)
    case Nil
    with u show ?thesis by simp
  next
    case (snoc tr3 x)
    with u have "tr = tr1 @ u # tr3" "x = s" by simp_all
    moreover have "unlocked_by tr"
      unfolding unlocked_by_def using u snoc \<open>tr = tr1 @ u # tr3\<close>
      by (intro exI [of _ tr1] exI [of _ u] exI [of _ tr3]) auto
    ultimately show ?thesis using u snoc by simp
  qed
next
  assume "unlocking s \<or> unlocked_by tr \<and> \<not> locking s"
  then show "unlocked_by (tr @ [s])"
  proof
    assume "unlocking s"
    then show ?thesis unfolding unlocked_by_def by (intro exI [of _ tr] exI [of _ s] exI [of _ "[]"]) simp
  next
    assume "unlocked_by tr \<and> \<not> locking s"
    then obtain tr1 u tr2 where "tr = tr1 @ u # tr2" "unlocking u" "\<forall>s' \<in> set tr2. \<not> locking s'" "\<not> locking s"
      by (auto simp: unlocked_by_def)
    then show ?thesis unfolding unlocked_by_def
      by (intro exI [of _ tr1] exI [of _ u] exI [of _ "tr2 @ [s]"]) auto
  qed
qed

lemma gc_steps_lock:
  assumes "gc_steps st tr st'" "wf_gc st" "gc_lock_status st = GC_LOCKED"
  shows "gc_lock_status st' = (if unlocked_by tr then GC_UNLOCKED else GC_LOCKED)"
  using assms
proof (induction rule: gc_steps.induct)
  case (gc_refl st)
  then show ?case by (simp add: unlocked_by_def)
next
  case (gc_snoc st tr st' rq rng stk rs)
  then have "wf_gc st'" by (blast intro: gc_steps_wf)
  with gc_snoc show ?case
    by (auto simp: lock_status_step unlocked_by_snoc)
qed

text \<open>Handlers that run the same, up to the secret keys, whatever these are.\<close>

definition with_keys :: "cmd56_keys \<Rightarrow> gc_result \<Rightarrow> gc_result" where
  "with_keys k r = (case r of (st, rest) \<Rightarrow> (st\<lparr>gc_per_cart_keys := k\<rparr>, rest))"

lemma with_keys_simps [simp]:
  "with_keys k (st, rest) = (st\<lparr>gc_per_cart_keys := k\<rparr>, rest)"
  "with_keys k (if b then x else y) = (if b then with_keys k x else with_keys k y)"
  by (simp_all add: with_keys_def)

lemma keys_frame:
  "handle_cmd_start (st\<lparr>gc_per_cart_keys := k\<rparr>) rq rs rng = with_keys k (handle_cmd_start st rq rs rng)"
  "handle_cmd_status (st\<lparr>gc_per_cart_keys := k\<rparr>) rq rs rng = with_keys k (handle_cmd_status st rq rs rng)"
  "handle_generate_session_key stk (st\<lparr>gc_per_cart_keys := k\<rparr>) rq rs rng =
     with_keys k (handle_generate_session_key stk st rq rs rng)"
  "handle_exchange_shared_random (st\<lparr>gc_per_cart_keys := k\<rparr>) rq rs rng =
     with_keys k (handle_exchange_shared_random st rq rs rng)"
  "handle_exchange_secondary_key_and_verify_session (st\<lparr>gc_per_cart_keys := k\<rparr>) rq rs rng =
     with_keys k (handle_exchange_secondary_key_and_verify_session st rq rs rng)"
  "handle_verify_secondary_key (st\<lparr>gc_per_cart_keys := k\<rparr>) rq rs rng =
     with_keys k (handle_verify_secondary_key st rq rs rng)"
  "handle_unknown_request (st\<lparr>gc_per_cart_keys := k\<rparr>) rq rs rng =
     with_keys k (handle_unknown_request st rq rs rng)"
  by (simp_all add: handler_defs Let_def case_prod_unfold)

lemma keys_frame_p18:
  assumes "wf_request rq" "\<not> signed_by_secondary_key st rq \<or> \<not> has_marked_challenge st rq"
  shows "handle_p18key_and_cmac_signature (st\<lparr>gc_per_cart_keys := k\<rparr>) rq rs rng =
     with_keys k (handle_p18key_and_cmac_signature st rq rs rng)"
proof -
  have "signed_by_secondary_key (st\<lparr>gc_per_cart_keys := k\<rparr>) rq = signed_by_secondary_key st rq"
    "has_marked_challenge (st\<lparr>gc_per_cart_keys := k\<rparr>) rq = has_marked_challenge st rq"
    by (simp_all add: signed_by_secondary_key_def has_marked_challenge_def)
  with assms(2) show ?thesis by (simp add: handle_p18_eq [OF assms(1)] Let_def)
qed

section \<open>Properties\<close>

text \<open>C2: the lock as a state machine over whole sessions.  A card that starts locked is
  unlocked after a sequence of requests exactly when some request presented, under the
  session key of that moment, the shared random of that moment, and no later request was
  a START or a failed presentation; otherwise it is locked, and no other value occurs.\<close>

theorem lock_state_machine:
  assumes "gc_steps st tr st'" "wf_gc st" "gc_lock_status st = GC_LOCKED"
  shows "gc_lock_status st' =
    (if \<exists>tr1 s tr2. tr = tr1 @ s # tr2 \<and> unlocking s \<and> (\<forall>s' \<in> set tr2. \<not> locking s')
     then GC_UNLOCKED else GC_LOCKED)"
  using gc_steps_lock [OF assms] by (simp only: unlocked_by_def)

lemma wf_gc_zero [simp]: "wf_gc gc_zero"
  by (simp add: wf_gc_def gc_zero_def AES_keyExpSize_def)

theorem lock_state_machine_witness:
  "gc_lock_status (fst (handle_request (zeros 16) (gc_zero\<lparr>gc_lock_status := GC_LOCKED\<rparr>)
       (zero_request\<lparr>rq_command := CMD_START\<rparr>) zero_response rand_state_init)) = GC_LOCKED"
proof -
  let ?st = "gc_zero\<lparr>gc_lock_status := GC_LOCKED\<rparr>" and ?rq = "zero_request\<lparr>rq_command := CMD_START\<rparr>"
  have "gc_steps ?st ([] @ [(?st, ?rq)])
      (fst (handle_request (zeros 16) ?st ?rq zero_response rand_state_init))"
    by (intro gc_snoc gc_refl) (simp_all add: wf_request_def zero_request_def)
  from lock_state_machine [OF this] show ?thesis
    by (simp add: wf_gc_def gc_zero_def AES_keyExpSize_def Cons_eq_append_conv unlocking_def cmd_defs)
qed

text \<open>C3: a request that is not a packet-20 command and not a packet-18 command carrying a
  valid signature and a marked challenge is answered, and changes the state, without any
  dependence on the card's secret keys.\<close>

theorem keys_do_not_leak:
  assumes "wf_request rq" "rq_command rq \<noteq> CMD_GET_P20_KEY_AND_CMAC_SIGNATURE"
    and "rq_command rq \<noteq> CMD_GET_P18_KEY_AND_CMAC_SIGNATURE \<or>
      \<not> signed_by_secondary_key st rq \<or> \<not> has_marked_challenge st rq"
    and "handle_request stk st rq rs rng = (st', rq', rs', rng')"
  shows "handle_request stk (st\<lparr>gc_per_cart_keys := k\<rparr>) rq rs rng =
     (st'\<lparr>gc_per_cart_keys := k\<rparr>, rq', rs', rng')"
  using assms keys_frame_p18 [OF assms(1), of st k rs rng]
  by (auto simp: handle_request_def keys_frame)

theorem keys_do_not_leak_witness:
  "\<exists>k. k \<noteq> gc_per_cart_keys gc_zero \<and>
     handle_request (zeros 16) (gc_zero\<lparr>gc_per_cart_keys := k\<rparr>) zero_request zero_response rand_state_init =
     (case handle_request (zeros 16) gc_zero zero_request zero_response rand_state_init of
        (st', rest) \<Rightarrow> (st'\<lparr>gc_per_cart_keys := k\<rparr>, rest))"
proof -
  let ?k = "\<lparr>packet20_key = [], packet18_key = []\<rparr>"
  have "?k \<noteq> gc_per_cart_keys gc_zero" by (simp add: gc_zero_def zeros_def)
  moreover obtain st' rq' rs' rng' where e:
    "handle_request (zeros 16) gc_zero zero_request zero_response rand_state_init = (st', rq', rs', rng')"
    by (metis prod_cases4)
  moreover have "rq_command zero_request = 0" by (simp add: zero_request_def)
  ultimately show ?thesis
    using keys_do_not_leak [OF _ _ _ e, of ?k] by (intro exI [of _ ?k]) (simp add: e cmd_defs)
qed

definition error_table :: "gc_cmd56_state \<Rightarrow> cmd56_request \<Rightarrow> u8" where
  "error_table st rq =
     (let cmd = rq_command rq
      in if cmd \<in> {CMD_START, CMD_GET_STATUS, CMD_GENERATE_SESSION_KEY, CMD_VERIFY_SECONDARY_KEY,
            CMD_GET_P20_KEY_AND_CMAC_SIGNATURE} then 0
         else if cmd = CMD_EXCHANGE_SHARED_RANDOM
           then (if endian_swap (le_word (get_req esr_req_key_id rq)) = gc_key_id st then 0 else 0x11)
         else if cmd = CMD_EXCHANGE_SECONDARY_KEY_AND_VERIFY_SESSION
           then (if presents_shared_random st rq then 0 else 0xF1)
         else if cmd = CMD_GET_P18_KEY_AND_CMAC_SIGNATURE
           then (if \<not> signed_by_secondary_key st rq then 0xF4
                 else if \<not> has_marked_challenge st rq then 0x11 else 0)
         else 0x11)"

lemma error_code_handle_request:
  assumes "wf_gc st" "wf_request rq"
  shows "rs_error_code (fst (snd (snd (handle_request stk st rq rs rng)))) = error_table st rq"
    and "rs_response_code (fst (snd (snd (handle_request stk st rq rs rng)))) =
      (if error_table st rq = 0 then rq_expected_response_code rq else ucast (error_table st rq))"
proof -
  have s: "rs_response_code (cmd56_response_start rq rs) = rq_expected_response_code rq"
    by (simp add: cmd56_response_start_def Let_def)
  note defs = handle_request_def handle_p18_eq [OF assms(2)] handle_p20_eq handle_cmd_start_def
    handle_cmd_status_def handle_generate_session_key_def handle_exchange_shared_random_def
    handle_exchange_secondary_key_and_verify_session_def handle_verify_secondary_key_def
    handle_unknown_request_def challenge_check_iff [OF assms] error_table_def cmd_defs Let_def case_prod_unfold
  show "rs_error_code (fst (snd (snd (handle_request stk st rq rs rng)))) = error_table st rq"
    by (simp add: defs)
  show "rs_response_code (fst (snd (snd (handle_request stk st rq rs rng)))) =
      (if error_table st rq = 0 then rq_expected_response_code rq else ucast (error_table st rq))"
    using s by (simp add: defs)
qed

lemma overrun_error:
  "rs_overrun (cmd56_response_error (cmd56_response_start rq rs) e) =
     min (unat (rq_expected_response_size rq)) 0x200 - 0x1f5"
  by (simp add: cmd56_response_error_def Let_def response_size_start packet_sizes)

lemma overrun_handle_request:
  assumes "wf_gc st" "wf_request rq" "length rng = 16"
  shows "rs_overrun (fst (snd (snd (handle_request stk st rq rs rng)))) =
      (if error_table st rq = 0 then 0 else min (unat (rq_expected_response_size rq)) 0x200 - 0x1f5)"
proof -
  have k: "length (packet18_key (gc_per_cart_keys st)) = 0x20" "length (packet20_key (gc_per_cart_keys st)) = 0x20"
    "length (gc_cart_random st) = 0x20"
    using assms(1) by (simp_all add: wf_gc_def)
  show ?thesis
    using assms k
    by (simp add: handle_request_def handle_p18_eq [OF assms(2)] handle_p20_eq handle_cmd_start_def
        handle_cmd_status_def handle_generate_session_key_def handle_exchange_shared_random_def
        handle_exchange_secondary_key_and_verify_session_def handle_verify_secondary_key_def
        handle_unknown_request_def challenge_check_iff [OF assms(1,2), unfolded struct_fields]
        error_table_def cmd_defs Let_def
        case_prod_unfold struct_fields overrun_error)
qed

text \<open>the error code of every answer.  Only a stale key id, a wrong shared random, a bad
  signature, an unmarked challenge and an unknown command are reported, each by its own
  code, and the response code is the expected one exactly when nothing is reported.\<close>

theorem error_codes:
  assumes "wf_gc st" "wf_request rq" "handle_request stk st rq rs rng = (st', rq', rs', rng')"
  shows "rs_error_code rs' = error_table st rq \<and>
    rs_response_code rs' =
      (if error_table st rq = 0 then rq_expected_response_code rq else ucast (error_table st rq))"
  using error_code_handle_request(1,2) [OF assms(1,2), of stk rs rng] assms(3) by simp

theorem error_codes_witness:
  "\<exists>st' rq' rs' rng'. handle_request (zeros 16) gc_zero zero_request zero_response rand_state_init =
      (st', rq', rs', rng') \<and> rs_error_code rs' = 0x11 \<and> rs_response_code rs' = 0x11"
proof -
  obtain st' rq' rs' rng' where e:
    "handle_request (zeros 16) gc_zero zero_request zero_response rand_state_init = (st', rq', rs', rng')"
    by (metis prod_cases4)
  have "error_table gc_zero zero_request = 0x11"
    by (simp add: error_table_def zero_request_def cmd_defs)
  with error_codes [OF wf_gc_zero wf_zero_request e] e show ?thesis by simp
qed

text \<open>C9: the writes of every handler, each one counted as far as it reaches behind the
  response: an answer without error is written inside the packet, and an error answer to a
  request announcing more than 0x1f5 response bytes fills up to 11 bytes behind its end; the
  count is exact.\<close>

theorem error_response_overrun:
  assumes "wf_gc st" "wf_request rq" "length rng = 16"
    and "handle_request stk st rq rs rng = (st', rq', rs', rng')"
  shows "rs_overrun rs' =
      (if error_table st rq = 0 then 0 else min (unat (rq_expected_response_size rq)) 0x200 - 0x1f5) \<and>
    rs_overrun rs' \<le> 11"
  using overrun_handle_request [OF assms(1-3), of stk rs] assms(4) by (auto simp: min_def)

theorem error_response_overrun_witness:
  "\<exists>st' rq' rs' rng'. handle_request (zeros 16) gc_zero
      (zero_request\<lparr>rq_expected_response_size := 0x300\<rparr>) zero_response rand_state_init =
      (st', rq', rs', rng') \<and> rs_overrun rs' = 11"
proof -
  let ?rq = "zero_request\<lparr>rq_expected_response_size := 0x300\<rparr>"
  obtain st' rq' rs' rng' where e:
    "handle_request (zeros 16) gc_zero ?rq zero_response rand_state_init = (st', rq', rs', rng')"
    by (metis prod_cases4)
  have "error_table gc_zero ?rq = 0x11" "wf_request ?rq"
    by (simp_all add: error_table_def zero_request_def cmd_defs wf_request_def)
  with error_response_overrun [OF wf_gc_zero _ _ e] e show ?thesis by simp
qed

text \<open>C10: the answer to a packet-18 request of type 2 or 3 that is signed and marked is
  authenticated by the secondary key, and deciphers under it to the challenge and the card's
  packet-18 key.\<close>

theorem p18_answer:
  assumes "wf_gc st" "wf_request rq" "signed_by_secondary_key st rq" "has_marked_challenge st rq"
    and "requested_type st rq \<in> {2, 3}"
    and "handle_p18key_and_cmac_signature st rq rs rng = (st', rq', rs', rng')"
  shows "st' = st \<and> rs_error_code rs' = 0 \<and>
    get_resp p18_resp_cmac_signature rs' =
      do_cmd56_cmac_hash (gc_secondary_key st) (rs_data rs') (ucast (rs_response_size rs')) 0x30 \<and>
    get_field p18_resp_challenge_bytes (decrypt_cbc_zero_iv (gc_secondary_key st) (rs_data rs') 0x30) =
      get_field p18_req_challenge_bytes (decrypt_cbc_zero_iv (gc_secondary_key st) (rq_data rq) 0x20) \<and>
    get_field p18_resp_p18_key (decrypt_cbc_zero_iv (gc_secondary_key st) (rs_data rs') 0x30) =
      packet18_key (gc_per_cart_keys st)"
  using handle_p18_response [OF assms(1-4,6)] by simp

theorem p18_answer_witness:
  "\<exists>rq st' rq' rs' rng'. handle_p18key_and_cmac_signature gc_zero rq zero_response rand_state_init =
      (st', rq', rs', rng') \<and> rs_error_code rs' = 0 \<and>
    get_field p18_resp_p18_key (decrypt_cbc_zero_iv (zeros 176) (rs_data rs') 0x30) = zeros 0x20"
proof -
  let ?P = "(zeros 0x1d1)[0 := 0x80, 0x1f := 2]"
  let ?E = "encrypt_cbc_zero_iv (gc_secondary_key gc_zero) ?P 0x20"
  let ?rq = "zero_request\<lparr>rq_data := put_field p18_req_cmac_signature
     (do_cmd56_cmac_hash (gc_secondary_key gc_zero) ?E
       (make_int24 (rq_command zero_request) 0 (rq_additional_data_size zero_request)) 0x20) ?E\<rparr>"
  obtain st' rq' rs' rng' where e:
    "handle_p18key_and_cmac_signature gc_zero ?rq zero_response rand_state_init = (st', rq', rs', rng')"
    by (metis prod_cases4)
  have "length ?E = 0x1d1" using length_encrypt_cbc_zero_iv [of 2 ?P] by simp
  then have wf: "wf_request ?rq"
    by (simp add: wf_request_def zero_request_def packet_sizes struct_fields)
  have "bit (?P ! 0) 7" by simp
  then have s: "signed_by_secondary_key gc_zero ?rq" "has_marked_challenge gc_zero ?rq"
    using sealed_request [where P = ?P and n = 32 and st = gc_zero and base = zero_request] by simp_all
  have "requested_type gc_zero ?rq = get_field (0x1f, 1) ?P ! 0"
    unfolding requested_type_def p18_req_type_def
    by (subst sealed_request(2) [where P = ?P and n = 32 and st = gc_zero and base = zero_request]) simp_all
  then have t: "requested_type gc_zero ?rq \<in> {2, 3}" by (simp add: get_field.simps)
  from p18_answer [OF wf_gc_zero wf s t e] e show ?thesis
    by (intro exI [of _ ?rq] exI [of _ st'] exI [of _ rq'] exI [of _ rs'] exI [of _ rng'])
       (simp add: gc_zero_def AES_keyExpSize_def)
qed

text \<open>the packet-20 answer is authenticated and deciphers likewise, but is given for any
  request at all: neither a signature nor the lock is looked at.\<close>

theorem p20_answer:
  assumes "wf_gc st" "wf_request rq" "length rng = 16"
    and "handle_p20key_and_cmac_signature st rq rs rng = (st', rq', rs', rng')"
  shows "st' = st \<and> rs_error_code rs' = 0 \<and>
    get_resp p20_resp_cmac_signature rs' =
      do_cmd56_cmac_hash (gc_secondary_key st) (rs_data rs') (ucast (rs_response_size rs')) 0x40 \<and>
    get_field p20_resp_challenge_bytes (decrypt_cbc_zero_iv (gc_secondary_key st) (rs_data rs') 0x40) =
      or_w_80 (get_req p20_req_challenge_bytes rq) 0x10 \<and>
    get_field p20_resp_p20_key (decrypt_cbc_zero_iv (gc_secondary_key st) (rs_data rs') 0x40) =
      packet20_key (gc_per_cart_keys st)"
  using handle_p20_response [OF assms] by simp

theorem p20_answer_witness:
  "\<exists>st' rq' rs' rng'. handle_p20key_and_cmac_signature gc_zero zero_request zero_response rand_state_init =
      (st', rq', rs', rng') \<and>
    get_field p20_resp_p20_key (decrypt_cbc_zero_iv (zeros 176) (rs_data rs') 0x40) = zeros 0x20"
proof -
  obtain st' rq' rs' rng' where e:
    "handle_p20key_and_cmac_signature gc_zero zero_request zero_response rand_state_init = (st', rq', rs', rng')"
    by (metis prod_cases4)
  from p20_answer [OF wf_gc_zero wf_zero_request _ e] e show ?thesis
    by (simp add: gc_zero_def AES_keyExpSize_def)
qed

text \<open>a packet whose magic is wrong is ignored, and \<^verbatim>\<open>gc_cmd56_run_in_place\<close> then overwrites
  the caller's buffer with its own uninitialised stack array.\<close>

theorem run_in_place_bad_magic:
  assumes "length buffer = 0x200" "length stk_response = 0x200" "get_field (0, 0x20) buffer \<noteq> CMD56_MAGIC"
  shows "gc_cmd56_run stk (Some st) buffer response rng = (Some st, buffer, response, rng, 0) \<and>
    gc_cmd56_run_in_place stk stk_response (Some st) buffer rng = (Some st, stk_response, rng, 0)"
proof -
  have m: "impl_memcmp (rq_magic (request_of_bytes buffer)) CMD56_MAGIC 0x20 \<noteq> 0"
    using assms by (subst memcmp_eq) (simp_all add: request_of_bytes_def)
  then have r: "gc_cmd56_run stk (Some st) buffer rsp rng = (Some st, buffer, rsp, rng, 0)" for rsp
    by (simp add: gc_cmd56_run_def Let_def)
  show ?thesis
    using assms(1,2) by (simp add: r gc_cmd56_run_in_place_def impl_memcpy_field get_field_all put_field_all)
qed

theorem run_in_place_bad_magic_witness:
  "gc_cmd56_run_in_place (zeros 16) (replicate 0x200 0xCC) (Some gc_zero) (zeros 0x200) rand_state_init =
     (Some gc_zero, replicate 0x200 0xCC, rand_state_init, 0)"
proof -
  have "get_field (0, 0x20) (zeros 0x200) ! 0 \<noteq> CMD56_MAGIC ! 0"
    by (simp add: get_field.simps CMD56_MAGIC_def)
  then have "get_field (0, 0x20) (zeros 0x200) \<noteq> CMD56_MAGIC" by metis
  then show ?thesis using run_in_place_bad_magic [of "zeros 0x200" "replicate 0x200 0xCC"] by simp
qed

end
