(* ===== verification/VitaHost.thy ===== *)
theory VitaHost
  imports Cmd56Sm
begin

text \<open>
  \<^verbatim>\<open>kern/cmd56/vita.h\<close> and \<^verbatim>\<open>vita.c\<close>: the console's side of the CMD56 protocol.  The
  callbacks \<^verbatim>\<open>send\<close> and \<^verbatim>\<open>recv\<close> are code of the caller: they are fields of the state
  that act on an environment of arbitrary type \<open>'e\<close>.  A session carries the state, the
  two packets of \<^verbatim>\<open>vita_cmd56_run\<close>, the generator's \<^verbatim>\<open>rand_state\<close> and the environment.
\<close>

section \<open>State\<close>

datatype vita_error_code =
    GC_AUTH_OK
  | GC_INVALID_ARGUMENT
  | GC_AUTH_ERROR_START_FAIL
  | GC_AUTH_ERROR_INVALID_KEYID
  | GC_AUTH_ERROR_VERIFY_SHARED_RANDOM_FAIL
  | GC_AUTH_ERROR_VERIFY_SHARED_RANDOM_INVALID
  | GC_AUTH_ERROR_VERIFY_VITA_AUTH_PROOF_FAIL
  | GC_AUTH_ERROR_VERIFY_CART_RANDOM_FAIL
  | GC_AUTH_ERROR_VERIFY_CART_RANDOM_CHALLENGE_INVALID
  | GC_AUTH_ERROR_VERIFY_CART_RANDOM_INVALID_CART_RANDOM
  | GC_AUTH_ERROR_P18_KEY_CHALLANGE_FAIL
  | GC_AUTH_ERROR_P18_KEY_INVALID_CMAC
  | GC_AUTH_ERROR_P20_KEY_CHALLANGE_FAIL
  | GC_AUTH_ERROR_P20_KEY_INVALID_CMAC
  | GC_AUTH_ERROR_LOCKED
  | GC_AUTH_ERROR_UNLOCKED
  | GC_AUTH_ERROR_REPORTED

fun vita_error_value :: "vita_error_code \<Rightarrow> int" where
  "vita_error_value GC_AUTH_OK = 0x00"
| "vita_error_value GC_INVALID_ARGUMENT = 0x8001000"
| "vita_error_value GC_AUTH_ERROR_START_FAIL = 0x8001001"
| "vita_error_value GC_AUTH_ERROR_INVALID_KEYID = 0x8002001"
| "vita_error_value GC_AUTH_ERROR_VERIFY_SHARED_RANDOM_FAIL = 0x8003001"
| "vita_error_value GC_AUTH_ERROR_VERIFY_SHARED_RANDOM_INVALID = 0x8003002"
| "vita_error_value GC_AUTH_ERROR_VERIFY_VITA_AUTH_PROOF_FAIL = 0x8004001"
| "vita_error_value GC_AUTH_ERROR_VERIFY_CART_RANDOM_FAIL = 0x8005001"
| "vita_error_value GC_AUTH_ERROR_VERIFY_CART_RANDOM_CHALLENGE_INVALID = 0x8005002"
| "vita_error_value GC_AUTH_ERROR_VERIFY_CART_RANDOM_INVALID_CART_RANDOM = 0x8005003"
| "vita_error_value GC_AUTH_ERROR_P18_KEY_CHALLANGE_FAIL = 0x8006001"
| "vita_error_value GC_AUTH_ERROR_P18_KEY_INVALID_CMAC = 0x8006002"
| "vita_error_value GC_AUTH_ERROR_P20_KEY_CHALLANGE_FAIL = 0x8007001"
| "vita_error_value GC_AUTH_ERROR_P20_KEY_INVALID_CMAC = 0x8007002"
| "vita_error_value GC_AUTH_ERROR_LOCKED = 0x8008001"
| "vita_error_value GC_AUTH_ERROR_UNLOCKED = 0x8008002"
| "vita_error_value GC_AUTH_ERROR_REPORTED = 0x800F001"

record 'e vita_cmd56_state =
  vita_send :: "bytes \<Rightarrow> 'e \<Rightarrow> 'e"
  vita_recv :: "bytes \<Rightarrow> 'e \<Rightarrow> bytes \<times> 'e"  \<comment> \<open>gets the buffer's old contents\<close>
  vita_lock_status :: u16
  vita_allow_prototype_keys :: bool
  vita_key_id :: u16
  vita_per_cart_keys :: cmd56_keys
  vita_cart_random :: bytes
  vita_shared_random :: shared_random
  vita_session_key :: bytes
  vita_secondary_key :: bytes

record 'e session =
  se_state :: "'e vita_cmd56_state"
  se_request :: cmd56_request
  se_response :: cmd56_response
  se_rng :: bytes
  se_env :: 'e

type_synonym 'e request_fun = "'e session \<Rightarrow> vita_error_code \<times> 'e session"

section \<open>Access to the session\<close>

definition upd_state :: "('e vita_cmd56_state \<Rightarrow> 'e vita_cmd56_state) \<Rightarrow> 'e session \<Rightarrow> 'e session" where
  "upd_state f s = s\<lparr>se_state := f (se_state s)\<rparr>"

definition upd_req :: "(bytes \<Rightarrow> bytes) \<Rightarrow> 'e session \<Rightarrow> 'e session" where
  "upd_req f s = s\<lparr>se_request := (se_request s)\<lparr>rq_data := f (rq_data (se_request s))\<rparr>\<rparr>"

definition upd_resp :: "(bytes \<Rightarrow> bytes) \<Rightarrow> 'e session \<Rightarrow> 'e session" where
  "upd_resp f s = s\<lparr>se_response := (se_response s)\<lparr>rs_data := f (rs_data (se_response s))\<rparr>\<rparr>"

definition req_field :: "field \<Rightarrow> 'e session \<Rightarrow> bytes" where
  "req_field f s = get_field f (rq_data (se_request s))"

definition resp_field :: "field \<Rightarrow> 'e session \<Rightarrow> bytes" where
  "resp_field f s = get_field f (rs_data (se_response s))"

text \<open>A call of \<^verbatim>\<open>rand_bytes\<close> or \<^verbatim>\<open>rand_bytes_or_w_80\<close>.\<close>

definition draw :: "(bytes \<Rightarrow> nat \<Rightarrow> bytes \<times> bytes) \<Rightarrow> nat \<Rightarrow> 'e session \<Rightarrow> bytes \<times> 'e session" where
  "draw rand n s = (let (b, rng) = rand (se_rng s) n in (b, s\<lparr>se_rng := rng\<rparr>))"

definition start_packet :: "u8 \<Rightarrow> nat \<Rightarrow> nat \<Rightarrow> u32 \<Rightarrow> 'e session \<Rightarrow> 'e session" where
  "start_packet cmd additional_data_size expected_response_size expected_response_code s =
     s\<lparr>se_request := cmd56_request_start (se_request s) cmd (of_nat additional_data_size)
          (of_nat expected_response_size) expected_response_code\<rparr>"

definition send_packet :: "'e session \<Rightarrow> 'e session" where
  "send_packet s =
     (let env = vita_send (se_state s) (request_bytes (se_request s)) (se_env s);
          (resp, env) = vita_recv (se_state s) (response_bytes (se_response s)) env
      in s\<lparr>se_response := response_of_bytes resp, se_env := env\<rparr>)"

definition GC_AUTH_RETURN_STATUS :: "'e session \<Rightarrow> vita_error_code" where
  "GC_AUTH_RETURN_STATUS s =
     (if rs_error_code (se_response s) \<noteq> 0x0 then GC_AUTH_ERROR_REPORTED else GC_AUTH_OK)"

section \<open>Requests\<close>

definition start_request :: "'e request_fun" where
  "start_request s =
     (let s = start_packet CMD_START 0x3 (calc_size sizeof_start_resp) 0x31 s;
          s = send_packet s
      in if resp_field (0, 1) s ! 0 = 0x00 \<and> resp_field (1, 1) s ! 0 = 0x00
         then (GC_AUTH_RETURN_STATUS s, s)
         else (GC_AUTH_ERROR_START_FAIL, s))"

definition get_status :: "'e request_fun" where
  "get_status s =
     (let s = start_packet CMD_GET_STATUS 0x3 (calc_size sizeof_status_resp) 0x23 s;
          s = send_packet s;
          s = upd_state (\<lambda>st. st\<lparr>vita_lock_status := le_word (resp_field status_resp_status s)\<rparr>) s
      in (GC_AUTH_RETURN_STATUS s, s))"

text \<open>\<open>stk\<close> is the uninitialised local \<^verbatim>\<open>session_key\<close>.\<close>

definition get_session_key :: "bytes \<Rightarrow> 'e request_fun" where
  "get_session_key stk s =
     (let s = start_packet CMD_GENERATE_SESSION_KEY 0x3 (calc_size sizeof_gsk_resp) 0x2 s;
          s = send_packet s;
          s = upd_state (\<lambda>st. st\<lparr>vita_key_id := endian_swap (le_word (resp_field gsk_resp_key_id s))\<rparr>) s;
          s = upd_state (\<lambda>st. st\<lparr>vita_cart_random := resp_field gsk_resp_cart_random s\<rparr>) s;
          st = se_state s
      in if vita_allow_prototype_keys st \<and> vita_key_id st > PROTOTYPE_KEY_ID1
         then (GC_AUTH_ERROR_INVALID_KEYID, s)
         else
           (let (ret, session_key) = derive_session_key stk (vita_cart_random st) (uint (vita_key_id st))
            in if ret = 0 then (GC_AUTH_ERROR_INVALID_KEYID, s)
               else
                 (let s = upd_state (\<lambda>st. st\<lparr>vita_session_key := AES_init_ctx (vita_session_key st) session_key\<rparr>) s
                  in (GC_AUTH_RETURN_STATUS s, s))))"

definition exchange_shared_random :: "'e request_fun" where
  "exchange_shared_random s =
     (let s = start_packet CMD_EXCHANGE_SHARED_RANDOM (calc_size sizeof_esr_req) (calc_size sizeof_esr_resp) 0x3 s;
          s = upd_req (put_field esr_req_key_id (le_bytes 2 (endian_swap (vita_key_id (se_state s))))) s;
          (r, s) = draw rand_bytes 0x10 s;
          s = upd_req (put_field esr_req_shared_rand_vita r) s;
          s = upd_state (\<lambda>st. st\<lparr>vita_shared_random :=
                (vita_shared_random st)\<lparr>vita_part := req_field esr_req_shared_rand_vita s\<rparr>\<rparr>) s;
          s = send_packet s
      in if rs_error_code (se_response s) = 0 then
           (let s = upd_resp (\<lambda>d. decrypt_cbc_zero_iv (vita_session_key (se_state s)) d sizeof_esr_resp) s
            in if impl_memcmp (drop 0x1 (resp_field esr_resp_shared_rand_vita s))
                   (drop 0x1 (vita_part (vita_shared_random (se_state s)))) (0x10 - 0x1) = 0
               then
                 (let s = upd_state (\<lambda>st. st\<lparr>vita_shared_random :=
                            (vita_shared_random st)\<lparr>cart_part := resp_field esr_resp_shared_rand_cart s\<rparr>\<rparr>) s
                  in (GC_AUTH_OK, s))
               else (GC_AUTH_ERROR_VERIFY_SHARED_RANDOM_INVALID, s))
         else (GC_AUTH_ERROR_REPORTED, s))"

definition generate_secondary_key_and_verify_session :: "'e request_fun" where
  "generate_secondary_key_and_verify_session s =
     (let s = start_packet CMD_EXCHANGE_SECONDARY_KEY_AND_VERIFY_SESSION (calc_size sizeof_esk_req) 0x3 0x5 s;
          (r, s) = draw rand_bytes 0x10 s;
          s = upd_req (put_field esk_req_secondary_key r) s;
          s = upd_state (\<lambda>st. st\<lparr>vita_secondary_key :=
                AES_init_ctx (vita_secondary_key st) (req_field esk_req_secondary_key s)\<rparr>) s;
          s = upd_state (\<lambda>st. st\<lparr>vita_shared_random :=
                shared_random_of_bytes (or_w_80 (shared_random_bytes (vita_shared_random st)) 0x20)\<rparr>) s;
          s = upd_req (put_field esk_req_challenge_bytes
                (shared_random_bytes (vita_shared_random (se_state s)))) s;
          s = upd_req (\<lambda>d. encrypt_cbc_zero_iv (vita_session_key (se_state s)) d sizeof_esk_req) s;
          s = send_packet s
      in if rs_error_code (se_response s) \<noteq> 0
         then (GC_AUTH_ERROR_REPORTED, s)
         else (GC_AUTH_OK, s))"

definition verify_secondary_key :: "'e request_fun" where
  "verify_secondary_key s =
     (let s = start_packet CMD_VERIFY_SECONDARY_KEY (calc_size sizeof_vsk_req) (calc_size sizeof_vsk_resp) 0x7 s;
          (r, s) = draw rand_bytes_or_w_80 0x10 s;
          s = upd_req (put_field vsk_req_challenge_bytes r) s;
          s = send_packet s;
          s = upd_resp (\<lambda>d. decrypt_cbc_zero_iv (vita_secondary_key (se_state s)) d sizeof_vsk_resp) s
      in if impl_memcmp (drop 0x1 (resp_field vsk_resp_challenge_bytes s))
             (drop 0x1 (req_field vsk_req_challenge_bytes s)) (0x10 - 1) = 0
         then
           (if impl_memcmp (resp_field vsk_resp_cart_random s) (vita_cart_random (se_state s)) 0x20 = 0
            then (GC_AUTH_RETURN_STATUS s, s)
            else (GC_AUTH_ERROR_VERIFY_CART_RANDOM_INVALID_CART_RANDOM, s))
         else (GC_AUTH_ERROR_VERIFY_CART_RANDOM_CHALLENGE_INVALID, s))"

definition get_packet18_key :: "u8 \<Rightarrow> 'e request_fun" where
  "get_packet18_key type s =
     (let s = start_packet CMD_GET_P18_KEY_AND_CMAC_SIGNATURE (calc_size sizeof_p18_req) (calc_size sizeof_p18_resp) 0x11 s;
          (expected_challenge, s) = draw rand_bytes_or_w_80 0x10 s;
          s = upd_req (put_field p18_req_challenge_bytes expected_challenge) s;
          s = upd_req (put_field p18_req_pad0 (zeros 0xF)) s;
          s = upd_req (put_field p18_req_type [type]) s;
          sec = vita_secondary_key (se_state s);
          s = upd_req (\<lambda>d. encrypt_cbc_zero_iv sec d sizeof_p18_req) s;
          s = upd_req (put_field p18_req_cmac_signature
                (do_cmd56_cmac_hash sec (rq_data (se_request s))
                  (make_int24 (rq_command (se_request s)) 0x00 (rq_additional_data_size (se_request s)))
                  (fst p18_req_cmac_signature))) s;
          s = send_packet s
      in if rs_error_code (se_response s) = 0 then
           (let expected_cmac = do_cmd56_cmac_hash sec (rs_data (se_response s))
                  (ucast (rs_response_size (se_response s))) (fst p18_resp_cmac_signature)
            in if impl_memcmp expected_cmac (resp_field p18_resp_cmac_signature s) 0x10 = 0 then
                 (let s = upd_resp (\<lambda>d. decrypt_cbc_zero_iv sec d (fst p18_resp_cmac_signature)) s
                  in if impl_memcmp (drop 0x1 expected_challenge)
                          (drop 0x1 (resp_field p18_resp_challenge_bytes s)) (0x10 - 0x1) = 0
                     then
                       (let s = upd_state (\<lambda>st. st\<lparr>vita_per_cart_keys :=
                                  (vita_per_cart_keys st)\<lparr>packet18_key := resp_field p18_resp_p18_key s\<rparr>\<rparr>) s
                        in (GC_AUTH_OK, s))
                     else (GC_AUTH_ERROR_P18_KEY_CHALLANGE_FAIL, s))
               else (GC_AUTH_ERROR_P18_KEY_INVALID_CMAC, s))
         else (GC_AUTH_ERROR_REPORTED, s))"

definition get_packet20_key :: "'e request_fun" where
  "get_packet20_key s =
     (let s = start_packet CMD_GET_P20_KEY_AND_CMAC_SIGNATURE (calc_size sizeof_p20_req) (calc_size sizeof_p20_resp) 0x19 s;
          (r, s) = draw rand_bytes_or_w_80 0x10 s;
          s = upd_req (put_field p20_req_challenge_bytes r) s;
          s = send_packet s;
          sec = vita_secondary_key (se_state s)
      in if rs_error_code (se_response s) = 0 then
           (let expected_cmac = do_cmd56_cmac_hash sec (rs_data (se_response s))
                  (ucast (rs_response_size (se_response s))) (fst p20_resp_cmac_signature)
            in if impl_memcmp expected_cmac (resp_field p20_resp_cmac_signature s) 0x10 = 0 then
                 (let s = upd_resp (\<lambda>d. decrypt_cbc_zero_iv sec d (fst p20_resp_cmac_signature)) s
                  in if impl_memcmp (drop 0x1 (req_field p20_req_challenge_bytes s))
                          (drop 0x1 (resp_field p20_resp_challenge_bytes s)) (0x10 - 1) = 0
                     then
                       (let s = upd_state (\<lambda>st. st\<lparr>vita_per_cart_keys :=
                                  (vita_per_cart_keys st)\<lparr>packet20_key := resp_field p20_resp_p20_key s\<rparr>\<rparr>) s
                        in (GC_AUTH_OK, s))
                     else (GC_AUTH_ERROR_P20_KEY_CHALLANGE_FAIL, s))
               else (GC_AUTH_ERROR_P20_KEY_INVALID_CMAC, s))
         else (GC_AUTH_ERROR_REPORTED, s))"

section \<open>Exposed functions\<close>

definition check_success :: "'e request_fun \<Rightarrow> 'e request_fun \<Rightarrow> 'e request_fun" where
  "check_success code rest s =
     (let (ret, s) = code s in if ret \<noteq> GC_AUTH_OK then (ret, s) else rest s)"

definition check_lock :: "u16 \<Rightarrow> vita_error_code \<Rightarrow> 'e request_fun \<Rightarrow> 'e request_fun" where
  "check_lock lock_status error rest s =
     (if vita_lock_status (se_state s) \<noteq> lock_status then (error, s) else rest s)"

definition vita_session :: "bytes \<Rightarrow> 'e request_fun" where
  "vita_session stk =
     check_success start_request (
     check_success get_status (
     check_lock GC_LOCKED GC_AUTH_ERROR_UNLOCKED (
     check_success (get_session_key stk) (
     check_success exchange_shared_random (
     check_success generate_secondary_key_and_verify_session (
     check_success get_status (
     check_lock GC_UNLOCKED GC_AUTH_ERROR_LOCKED (
     check_success verify_secondary_key (
     check_success (get_packet18_key 0x2) (
     check_success (get_packet18_key 0x3) (
     check_success get_packet20_key (
     (\<lambda>s. (GC_AUTH_OK, s))))))))))))))"

definition vita_cmd56_run ::
  "bytes \<Rightarrow> 'e vita_cmd56_state option \<Rightarrow> bytes \<Rightarrow> 'e \<Rightarrow>
   vita_error_code \<times> 'e vita_cmd56_state option \<times> bytes \<times> 'e" where
  "vita_cmd56_run stk state rng env =
     (case state of
        None \<Rightarrow> (GC_INVALID_ARGUMENT, None, rng, env)
      | Some st \<Rightarrow>
          (let (ret, s) = vita_session stk \<lparr>se_state = st, se_request = zero_request,
                 se_response = zero_response, se_rng = rng, se_env = env\<rparr>
           in (ret, Some (se_state s), se_rng s, se_env s)))"

definition vita_zero :: "(bytes \<Rightarrow> 'e \<Rightarrow> 'e) \<Rightarrow> (bytes \<Rightarrow> 'e \<Rightarrow> bytes \<times> 'e) \<Rightarrow> 'e vita_cmd56_state" where
  "vita_zero send_func recv_func =
     \<lparr>vita_send = send_func, vita_recv = recv_func, vita_lock_status = 0, vita_allow_prototype_keys = False,
      vita_key_id = 0, vita_per_cart_keys = \<lparr>packet20_key = zeros 0x20, packet18_key = zeros 0x20\<rparr>,
      vita_cart_random = zeros 0x20, vita_shared_random = \<lparr>vita_part = zeros 0x10, cart_part = zeros 0x10\<rparr>,
      vita_session_key = zeros AES_keyExpSize, vita_secondary_key = zeros AES_keyExpSize\<rparr>"

definition vita_cmd56_init ::
  "'e vita_cmd56_state option \<Rightarrow> (bytes \<Rightarrow> 'e \<Rightarrow> 'e) \<Rightarrow> (bytes \<Rightarrow> 'e \<Rightarrow> bytes \<times> 'e) \<Rightarrow>
   'e vita_cmd56_state option" where
  "vita_cmd56_init state send_func recv_func =
     (case state of
        None \<Rightarrow> None
      | Some _ \<Rightarrow> Some ((vita_zero send_func recv_func)\<lparr>vita_allow_prototype_keys := False\<rparr>))"

definition vita_cmd56_init_ex ::
  "'e vita_cmd56_state option \<Rightarrow> (bytes \<Rightarrow> 'e \<Rightarrow> 'e) \<Rightarrow> (bytes \<Rightarrow> 'e \<Rightarrow> bytes \<times> 'e) \<Rightarrow> bool \<Rightarrow>
   'e vita_cmd56_state option" where
  "vita_cmd56_init_ex state send_func recv_func allow_prototype_keys =
     (case state of
        None \<Rightarrow> None
      | Some _ \<Rightarrow>
          (case vita_cmd56_init state send_func recv_func of
             None \<Rightarrow> None
           | Some st \<Rightarrow> Some (st\<lparr>vita_allow_prototype_keys := True\<rparr>)))"

text \<open>The getters return the new contents of the caller's variables.\<close>

definition vita_cmd56_get_keyid :: "'e vita_cmd56_state option \<Rightarrow> u16 option \<Rightarrow> u16 option" where
  "vita_cmd56_get_keyid state key_id =
     (case state of None \<Rightarrow> key_id | Some st \<Rightarrow> map_option (\<lambda>_. vita_key_id st) key_id)"

definition vita_cmd56_get_keys :: "'e vita_cmd56_state option \<Rightarrow> cmd56_keys option \<Rightarrow> cmd56_keys option" where
  "vita_cmd56_get_keys state per_cart_keys =
     (case state of None \<Rightarrow> per_cart_keys | Some st \<Rightarrow> map_option (\<lambda>_. vita_per_cart_keys st) per_cart_keys)"

definition vita_cmd56_get_keys_ex ::
  "'e vita_cmd56_state option \<Rightarrow> bytes option \<Rightarrow> bytes option \<Rightarrow> bytes option \<times> bytes option" where
  "vita_cmd56_get_keys_ex state p20_key p18_key =
     (case state of
        None \<Rightarrow> (p20_key, p18_key)
      | Some st \<Rightarrow>
          (map_option (put_field (0, 0x20) (packet20_key (vita_per_cart_keys st))) p20_key,
           map_option (put_field (0, 0x20) (packet18_key (vita_per_cart_keys st))) p18_key))"

section \<open>What the console accepts\<close>

lemmas session_access = upd_state_def upd_req_def upd_resp_def req_field_def resp_field_def
  draw_def start_packet_def Let_def case_prod_unfold

text \<open>The two key requests, cut at the packet exchange.\<close>

definition p18_ready :: "u8 \<Rightarrow> 'e session \<Rightarrow> 'e session" where
  "p18_ready type s =
     (let s = start_packet CMD_GET_P18_KEY_AND_CMAC_SIGNATURE (calc_size sizeof_p18_req) (calc_size sizeof_p18_resp) 0x11 s;
          (expected_challenge, s) = draw rand_bytes_or_w_80 0x10 s;
          s = upd_req (put_field p18_req_challenge_bytes expected_challenge) s;
          s = upd_req (put_field p18_req_pad0 (zeros 0xF)) s;
          s = upd_req (put_field p18_req_type [type]) s;
          sec = vita_secondary_key (se_state s);
          s = upd_req (\<lambda>d. encrypt_cbc_zero_iv sec d sizeof_p18_req) s
      in upd_req (put_field p18_req_cmac_signature
                (do_cmd56_cmac_hash sec (rq_data (se_request s))
                  (make_int24 (rq_command (se_request s)) 0x00 (rq_additional_data_size (se_request s)))
                  (fst p18_req_cmac_signature))) s)"

lemma get_packet18_key_eq:
  "get_packet18_key type s =
     (let s0 = s; s = send_packet (p18_ready type s); sec = vita_secondary_key (se_state s0)
      in if rs_error_code (se_response s) = 0 then
           (let expected_cmac = do_cmd56_cmac_hash sec (rs_data (se_response s))
                  (ucast (rs_response_size (se_response s))) (fst p18_resp_cmac_signature)
            in if impl_memcmp expected_cmac (resp_field p18_resp_cmac_signature s) 0x10 = 0 then
                 (let s = upd_resp (\<lambda>d. decrypt_cbc_zero_iv sec d (fst p18_resp_cmac_signature)) s
                  in if impl_memcmp (drop 0x1 (fst (rand_bytes_or_w_80 (se_rng s0) 0x10)))
                          (drop 0x1 (resp_field p18_resp_challenge_bytes s)) (0x10 - 0x1) = 0
                     then
                       (let s = upd_state (\<lambda>st. st\<lparr>vita_per_cart_keys :=
                                  (vita_per_cart_keys st)\<lparr>packet18_key := resp_field p18_resp_p18_key s\<rparr>\<rparr>) s
                        in (GC_AUTH_OK, s))
                     else (GC_AUTH_ERROR_P18_KEY_CHALLANGE_FAIL, s))
               else (GC_AUTH_ERROR_P18_KEY_INVALID_CMAC, s))
         else (GC_AUTH_ERROR_REPORTED, s))"
  by (simp add: get_packet18_key_def p18_ready_def Let_def case_prod_unfold)
     (simp add: upd_req_def draw_def start_packet_def Let_def case_prod_unfold)

definition p20_ready :: "'e session \<Rightarrow> 'e session" where
  "p20_ready s =
     (let s = start_packet CMD_GET_P20_KEY_AND_CMAC_SIGNATURE (calc_size sizeof_p20_req) (calc_size sizeof_p20_resp) 0x19 s;
          (r, s) = draw rand_bytes_or_w_80 0x10 s
      in upd_req (put_field p20_req_challenge_bytes r) s)"

lemma get_packet20_key_eq:
  "get_packet20_key s =
     (let s = send_packet (p20_ready s); sec = vita_secondary_key (se_state s)
      in if rs_error_code (se_response s) = 0 then
           (let expected_cmac = do_cmd56_cmac_hash sec (rs_data (se_response s))
                  (ucast (rs_response_size (se_response s))) (fst p20_resp_cmac_signature)
            in if impl_memcmp expected_cmac (resp_field p20_resp_cmac_signature s) 0x10 = 0 then
                 (let s = upd_resp (\<lambda>d. decrypt_cbc_zero_iv sec d (fst p20_resp_cmac_signature)) s
                  in if impl_memcmp (drop 0x1 (req_field p20_req_challenge_bytes s))
                          (drop 0x1 (resp_field p20_resp_challenge_bytes s)) (0x10 - 1) = 0
                     then
                       (let s = upd_state (\<lambda>st. st\<lparr>vita_per_cart_keys :=
                                  (vita_per_cart_keys st)\<lparr>packet20_key := resp_field p20_resp_p20_key s\<rparr>\<rparr>) s
                        in (GC_AUTH_OK, s))
                     else (GC_AUTH_ERROR_P20_KEY_CHALLANGE_FAIL, s))
               else (GC_AUTH_ERROR_P20_KEY_INVALID_CMAC, s))
         else (GC_AUTH_ERROR_REPORTED, s))"
  by (simp add: get_packet20_key_def p20_ready_def Let_def case_prod_unfold)

text \<open>A transport that fills the whole response.\<close>

definition full_recv :: "'e vita_cmd56_state \<Rightarrow> bool" where
  "full_recv st \<longleftrightarrow> (\<forall>b e. length (fst (vita_recv st b e)) = sizeof_response)"

lemma send_packet_select [simp]:
  "se_state (send_packet s) = se_state s" "se_request (send_packet s) = se_request s"
  "se_rng (send_packet s) = se_rng s"
  by (simp_all add: send_packet_def Let_def case_prod_unfold)

lemma ready_state [simp]: "se_state (p18_ready type s) = se_state s" "se_state (p20_ready s) = se_state s"
  by (simp_all add: p18_ready_def p20_ready_def session_access)

lemma wf_send_packet: "full_recv (se_state s) \<Longrightarrow> wf_response (se_response (send_packet s))"
  by (simp add: send_packet_def full_recv_def Let_def case_prod_unfold)

lemma resp_field_length:
  "wf_response (se_response s) \<Longrightarrow> fst f + snd f \<le> 0x1f5 \<Longrightarrow> length (resp_field f s) = snd f"
  by (cases f) (simp add: wf_response_def resp_field_def packet_sizes)

definition authentic :: "bytes \<Rightarrow> nat \<Rightarrow> cmd56_response \<Rightarrow> bool" where
  "authentic ctx n rs \<longleftrightarrow> rs_error_code rs = 0 \<and>
     do_cmd56_cmac_hash ctx (rs_data rs) (ucast (rs_response_size rs)) n = get_field (n, 0x10) (rs_data rs)"

lemma authentic_iff:
  "wf_response (se_response s) \<Longrightarrow> n + 0x10 \<le> 0x1f5 \<Longrightarrow>
   authentic ctx n (se_response s) \<longleftrightarrow> rs_error_code (se_response s) = 0 \<and>
     impl_memcmp (do_cmd56_cmac_hash ctx (rs_data (se_response s)) (ucast (rs_response_size (se_response s))) n)
       (resp_field (n, 0x10) s) 0x10 = 0"
  by (subst memcmp_eq) (simp_all add: authentic_def resp_field_def wf_response_def packet_sizes)

text \<open>What the peer's answer to request \<open>rq\<close>, sent in session \<open>s\<close>, leaves in the response
  packet; and the challenge that the next key request carries.\<close>

definition answer_to :: "cmd56_request \<Rightarrow> 'e session \<Rightarrow> cmd56_response" where
  "answer_to rq s = response_of_bytes (fst (vita_recv (se_state s) (response_bytes (se_response s))
     (vita_send (se_state s) (request_bytes rq) (se_env s))))"

definition next_challenge :: "'e session \<Rightarrow> bytes" where
  "next_challenge s = fst (rand_bytes_or_w_80 (se_rng s) 0x10)"

text \<open>An authentic answer (MAC at \<open>n\<close>) whose deciphered challenge (field \<open>f\<close>) repeats bytes
  1 to 15 of \<open>ch\<close>.\<close>

definition answers_challenge :: "bytes \<Rightarrow> nat \<Rightarrow> field \<Rightarrow> bytes \<Rightarrow> cmd56_response \<Rightarrow> bool" where
  "answers_challenge ctx n f ch rs \<longleftrightarrow> authentic ctx n rs \<and>
     drop 1 (get_field f (decrypt_cbc_zero_iv ctx (rs_data rs) n)) = drop 1 ch"

lemma ready_keeps [simp]:
  "se_response (p18_ready type s) = se_response s" "se_response (p20_ready s) = se_response s"
  "se_env (p18_ready type s) = se_env s" "se_env (p20_ready s) = se_env s"
  by (simp_all add: p18_ready_def p20_ready_def session_access)

lemma response_is_answer:
  "se_response (send_packet (p18_ready type s)) = answer_to (se_request (p18_ready type s)) s"
  "se_response (send_packet (p20_ready s)) = answer_to (se_request (p20_ready s)) s"
  by (simp_all add: send_packet_def answer_to_def Let_def case_prod_unfold)

lemma request_sent:
  "se_request (snd (get_packet18_key type s)) = se_request (p18_ready type s)"
  "se_request (snd (get_packet20_key s)) = se_request (p20_ready s)"
  by (simp_all add: get_packet18_key_eq get_packet20_key_eq upd_resp_def upd_state_def Let_def)

lemma p20_ready_challenge:
  "length (se_rng s) = 16 \<Longrightarrow> req_field p20_req_challenge_bytes (p20_ready s) = next_challenge s"
  by (simp add: p20_ready_def session_access cmd56_request_start_def struct_fields next_challenge_def zero_request_def packet_sizes)

text \<open>The comparison of bytes 1 to 15.\<close>

lemma tail_compare:
  "length a = 16 \<Longrightarrow> length b = 16 \<Longrightarrow> impl_memcmp (drop 0x1 a) (drop 0x1 b) (0x10 - 0x1) = 0 \<longleftrightarrow> drop 1 b = drop 1 a"
  by (subst memcmp_eq) auto

lemma field_of_deciphered:
  "wf_response rs \<Longrightarrow> fst f + snd f \<le> 0x1f5 \<Longrightarrow> 16 * n \<le> 0x1f5 \<Longrightarrow>
   length (get_field f (decrypt_cbc_zero_iv ctx (rs_data rs) (16 * n))) = snd f"
  by (cases f) (simp add: wf_response_def packet_sizes)

lemma p18_key_from_answer:
  fixes type :: u8
  assumes "full_recv (se_state s)" "length (se_rng s) = 16"
  defines "sec \<equiv> vita_secondary_key (se_state s)" and "r \<equiv> get_packet18_key type s"
  defines "a \<equiv> answer_to (se_request (snd r)) s"
  shows "fst r = GC_AUTH_OK \<longleftrightarrow> answers_challenge sec 0x30 p18_resp_challenge_bytes (next_challenge s) a"
    and "vita_per_cart_keys (se_state (snd r)) = (if fst r = GC_AUTH_OK
       then (vita_per_cart_keys (se_state s))
         \<lparr>packet18_key := get_field p18_resp_p18_key (decrypt_cbc_zero_iv sec (rs_data a) 0x30)\<rparr>
       else vita_per_cart_keys (se_state s))"
proof -
  have a: "se_response (send_packet (p18_ready type s)) = a"
    by (simp add: a_def r_def response_is_answer request_sent)
  have w: "wf_response (se_response (send_packet (p18_ready type s)))" using assms(1) by (simp add: wf_send_packet)
  have l: "length (get_field (0, 16) (decrypt_cbc_zero_iv sec (rs_data a) 48)) = 16"
    using field_of_deciphered [OF w, of "(0, 16)" 3] a by simp
  have c: "impl_memcmp (drop 1 (next_challenge s)) (drop 1 (get_field (0, 16) (decrypt_cbc_zero_iv sec (rs_data a) 48))) 15 = 0 \<longleftrightarrow>
      drop 1 (get_field (0, 16) (decrypt_cbc_zero_iv sec (rs_data a) 48)) = drop 1 (next_challenge s)"
    using tail_compare [OF _ l, of "next_challenge s"] assms(2) by (simp add: next_challenge_def)
  note * = authentic_iff [OF w, of 48 sec, simplified a] c
  show "fst r = GC_AUTH_OK \<longleftrightarrow> answers_challenge sec 0x30 p18_resp_challenge_bytes (next_challenge s) a"
    using * by (simp add: r_def get_packet18_key_eq Let_def struct_fields answers_challenge_def upd_resp_def
        resp_field_def a sec_def next_challenge_def)
  show "vita_per_cart_keys (se_state (snd r)) = (if fst r = GC_AUTH_OK
       then (vita_per_cart_keys (se_state s))
         \<lparr>packet18_key := get_field p18_resp_p18_key (decrypt_cbc_zero_iv sec (rs_data a) 0x30)\<rparr>
       else vita_per_cart_keys (se_state s))"
    by (simp add: r_def get_packet18_key_eq Let_def struct_fields upd_resp_def upd_state_def resp_field_def a sec_def)
qed

lemma p20_key_from_answer:
  assumes "full_recv (se_state s)" "length (se_rng s) = 16"
  defines "sec \<equiv> vita_secondary_key (se_state s)" and "r \<equiv> get_packet20_key s"
  defines "a \<equiv> answer_to (se_request (snd r)) s"
  shows "fst r = GC_AUTH_OK \<longleftrightarrow> answers_challenge sec 0x40 p20_resp_challenge_bytes (next_challenge s) a"
    and "vita_per_cart_keys (se_state (snd r)) = (if fst r = GC_AUTH_OK
       then (vita_per_cart_keys (se_state s))
         \<lparr>packet20_key := get_field p20_resp_p20_key (decrypt_cbc_zero_iv sec (rs_data a) 0x40)\<rparr>
       else vita_per_cart_keys (se_state s))"
proof -
  have a: "se_response (send_packet (p20_ready s)) = a"
    by (simp add: a_def r_def response_is_answer request_sent)
  have w: "wf_response (se_response (send_packet (p20_ready s)))" using assms(1) by (simp add: wf_send_packet)
  have l: "length (get_field (8, 16) (decrypt_cbc_zero_iv sec (rs_data a) 64)) = 16"
    using field_of_deciphered [OF w, of "(8, 16)" 4] a by simp
  have c: "impl_memcmp (drop 1 (next_challenge s)) (drop 1 (get_field (8, 16) (decrypt_cbc_zero_iv sec (rs_data a) 64))) 15 = 0 \<longleftrightarrow>
      drop 1 (get_field (8, 16) (decrypt_cbc_zero_iv sec (rs_data a) 64)) = drop 1 (next_challenge s)"
    using tail_compare [OF _ l, of "next_challenge s"] assms(2) by (simp add: next_challenge_def)
  note * = authentic_iff [OF w, of 64 sec, simplified a] c p20_ready_challenge [OF assms(2)]
  show "fst r = GC_AUTH_OK \<longleftrightarrow> answers_challenge sec 0x40 p20_resp_challenge_bytes (next_challenge s) a"
    using * by (simp add: r_def get_packet20_key_eq Let_def struct_fields answers_challenge_def upd_resp_def
        resp_field_def req_field_def a sec_def)
  show "vita_per_cart_keys (se_state (snd r)) = (if fst r = GC_AUTH_OK
       then (vita_per_cart_keys (se_state s))
         \<lparr>packet20_key := get_field p20_resp_p20_key (decrypt_cbc_zero_iv sec (rs_data a) 0x40)\<rparr>
       else vita_per_cart_keys (se_state s))"
    by (simp add: r_def get_packet20_key_eq Let_def struct_fields upd_resp_def upd_state_def resp_field_def a sec_def)
qed

section \<open>Properties\<close>

text \<open>C4: \<^verbatim>\<open>get_packet18_key\<close> and \<^verbatim>\<open>get_packet20_key\<close>, against any peer: the call succeeds
  exactly if the very answer the peer gave to the request the call sent carries no error, has
  a valid MAC under the secondary key, and deciphers to the challenge drawn for this request
  (bytes 1 to 15).  The stored key is then the deciphered field of that answer; in every
  other case the keys are untouched.\<close>

theorem keys_only_from_authentic_answers:
  assumes "full_recv (se_state s)" "length (se_rng s) = 16"
  defines "sec \<equiv> vita_secondary_key (se_state s)" and "keys \<equiv> \<lambda>r. vita_per_cart_keys (se_state (snd r))"
    and "old \<equiv> vita_per_cart_keys (se_state s)" and "answer \<equiv> \<lambda>r. answer_to (se_request (snd r)) s"
  shows "(let r = get_packet18_key type s
    in (fst r = GC_AUTH_OK \<longleftrightarrow>
          answers_challenge sec 0x30 p18_resp_challenge_bytes (next_challenge s) (answer r)) \<and>
       keys r = (if fst r = GC_AUTH_OK
         then old\<lparr>packet18_key := get_field p18_resp_p18_key (decrypt_cbc_zero_iv sec (rs_data (answer r)) 0x30)\<rparr>
         else old)) \<and>
    (let r = get_packet20_key s
    in (fst r = GC_AUTH_OK \<longleftrightarrow>
          answers_challenge sec 0x40 p20_resp_challenge_bytes (next_challenge s) (answer r)) \<and>
       keys r = (if fst r = GC_AUTH_OK
         then old\<lparr>packet20_key := get_field p20_resp_p20_key (decrypt_cbc_zero_iv sec (rs_data (answer r)) 0x40)\<rparr>
         else old))"
  unfolding sec_def keys_def old_def answer_def Let_def
  using p18_key_from_answer [OF assms(1,2), of type] p20_key_from_answer [OF assms(1,2)] by blast

text \<open>A peer that sends only zeros.\<close>

definition quiet_session :: "unit session" where
  "quiet_session = \<lparr>se_state = vita_zero (\<lambda>_ e. e) (\<lambda>_ e. (zeros 0x200, e)), se_request = zero_request,
     se_response = zero_response, se_rng = rand_state_init, se_env = ()\<rparr>"

theorem keys_only_from_authentic_answers_witness:
  "let sec = zeros 176; old = \<lparr>packet20_key = zeros 0x20, packet18_key = zeros 0x20\<rparr>;
       answer = (\<lambda>r. answer_to (se_request (snd r)) quiet_session);
       r18 = get_packet18_key 2 quiet_session; r20 = get_packet20_key quiet_session
   in (fst r18 = GC_AUTH_OK \<longleftrightarrow>
        answers_challenge sec 0x30 p18_resp_challenge_bytes (next_challenge quiet_session) (answer r18)) \<and>
      vita_per_cart_keys (se_state (snd r18)) = (if fst r18 = GC_AUTH_OK
        then old\<lparr>packet18_key := get_field p18_resp_p18_key (decrypt_cbc_zero_iv sec (rs_data (answer r18)) 0x30)\<rparr>
        else old) \<and>
      (fst r20 = GC_AUTH_OK \<longleftrightarrow>
        answers_challenge sec 0x40 p20_resp_challenge_bytes (next_challenge quiet_session) (answer r20)) \<and>
      vita_per_cart_keys (se_state (snd r20)) = (if fst r20 = GC_AUTH_OK
        then old\<lparr>packet20_key := get_field p20_resp_p20_key (decrypt_cbc_zero_iv sec (rs_data (answer r20)) 0x40)\<rparr>
        else old)"
proof -
  have q: "full_recv (se_state quiet_session)" "length (se_rng quiet_session) = 16"
    "vita_secondary_key (se_state quiet_session) = zeros 176"
    "vita_per_cart_keys (se_state quiet_session) = \<lparr>packet20_key = zeros 0x20, packet18_key = zeros 0x20\<rparr>"
    by (simp_all add: quiet_session_def full_recv_def vita_zero_def packet_sizes AES_keyExpSize_def)
  show ?thesis
    using keys_only_from_authentic_answers [OF q(1,2), of 2] by (simp only: q(3,4) Let_def conj_assoc)
qed

end
