(* ===== verification/Handshake.thy ===== *)
theory Handshake
  imports GcCart VitaHost
begin

text \<open>
  The console of \<^verbatim>\<open>vita.c\<close> talking to the card of \<^verbatim>\<open>gc.c\<close>: the callbacks of the console
  hand the request buffer to \<^verbatim>\<open>gc_cmd56_run\<close> and read its response.  The two sides keep
  their own generators.  Each phase of \<^verbatim>\<open>vita_cmd56_run\<close> is shown to succeed and to
  establish what the next one needs; together they give the whole protocol.
\<close>

section \<open>The wire\<close>

record cart_env =
  ce_state :: gc_cmd56_state
  ce_rng :: bytes
  ce_buffer :: bytes

definition wire_send :: "bytes \<Rightarrow> cart_env \<Rightarrow> cart_env" where
  "wire_send data env = env\<lparr>ce_buffer := data\<rparr>"

definition wire_recv :: "bytes \<Rightarrow> bytes \<Rightarrow> cart_env \<Rightarrow> bytes \<times> cart_env" where
  "wire_recv cstk data env =
     (let (st, buffer, response, rng, _) =
            gc_cmd56_run cstk (Some (ce_state env)) (ce_buffer env) data (ce_rng env)
      in (response, env\<lparr>ce_state := the st, ce_rng := rng, ce_buffer := buffer\<rparr>))"

definition wf_vita :: "'e vita_cmd56_state \<Rightarrow> bool" where
  "wf_vita v \<longleftrightarrow> length (vita_cart_random v) = 0x20 \<and>
     length (vita_part (vita_shared_random v)) = 0x10 \<and> length (cart_part (vita_shared_random v)) = 0x10 \<and>
     length (vita_session_key v) = 176 \<and> length (vita_secondary_key v) = 176"

definition linked :: "bytes \<Rightarrow> cart_env session \<Rightarrow> bool" where
  "linked cstk s \<longleftrightarrow> vita_send (se_state s) = wire_send \<and> vita_recv (se_state s) = wire_recv cstk \<and>
     wf_vita (se_state s) \<and> wf_gc (ce_state (se_env s)) \<and> wf_response (se_response s) \<and>
     length (se_rng s) = 16 \<and> length (ce_rng (se_env s)) = 16 \<and> length cstk = 16"

abbreviation cart :: "cart_env session \<Rightarrow> gc_cmd56_state" where
  "cart s \<equiv> ce_state (se_env s)"

abbreviation vita :: "cart_env session \<Rightarrow> cart_env vita_cmd56_state" where
  "vita s \<equiv> se_state s"

text \<open>The response the card starts from; its contents do not matter.\<close>

definition old_response :: "cart_env session \<Rightarrow> cmd56_response" where
  "old_response s = response_of_bytes (response_bytes (se_response s))"

lemma send_packet_wire:
  assumes "linked cstk s" "wf_request (se_request s)" "rq_magic (se_request s) = CMD56_MAGIC"
    and "handle_request cstk (cart s) (se_request s) (old_response s) (ce_rng (se_env s)) = (st', rq', rs', rng')"
    and "rs_overrun rs' = 0"
  shows "send_packet s = s\<lparr>se_response := rs',
    se_env := \<lparr>ce_state = st', ce_rng = rng', ce_buffer = request_bytes rq'\<rparr>\<rparr>"
proof -
  have "wf_result (handle_request cstk (cart s) (se_request s) (old_response s) (ce_rng (se_env s)))"
    using assms(1,2) by (intro wf_handle_request) (simp_all add: linked_def)
  then have "wf_response rs'" using assms(4) by (simp add: wf_result_def)
  then have rs: "response_of_bytes (response_bytes rs') = rs'"
    using assms(5) by (rule response_of_response_bytes)
  have "request_of_bytes (request_bytes (se_request s)) = se_request s"
    using assms(2) by (rule request_of_request_bytes)
  then have "gc_cmd56_run cstk (Some (cart s)) (request_bytes (se_request s)) (response_bytes (se_response s))
      (ce_rng (se_env s)) = (Some st', request_bytes rq', response_bytes rs', rng', 0)"
    using assms(3-5) by (simp add: gc_cmd56_run_def Let_def memcmp_eq flip: old_response_def)
  with assms(1) rs show ?thesis
    by (cases "se_env s") (simp add: send_packet_def wire_send_def wire_recv_def linked_def Let_def)
qed

lemma start_request_select [simp]:
  "rq_magic (cmd56_request_start r c a s e) = CMD56_MAGIC"
  "rq_command (cmd56_request_start r c a s e) = c"
  "rq_additional_data_size (cmd56_request_start r c a s e) = a"
  "rq_expected_response_size (cmd56_request_start r c a s e) = s"
  "rq_expected_response_code (cmd56_request_start r c a s e) = e"
  "rq_data (cmd56_request_start r c a s e) = zeros 0x1d1"
  by (simp_all add: cmd56_request_start_def zero_request_def Let_def packet_sizes)

section \<open>Phases\<close>

text \<open>What no phase changes: the card's identity and secrets.\<close>

definition same_card :: "cart_env session \<Rightarrow> cart_env session \<Rightarrow> bool" where
  "same_card s s' \<longleftrightarrow> gc_key_id (cart s') = gc_key_id (cart s) \<and>
     gc_per_cart_keys (cart s') = gc_per_cart_keys (cart s) \<and>
     vita_allow_prototype_keys (vita s') = vita_allow_prototype_keys (vita s)"

lemma rs_data_start [simp]: "rs_data (cmd56_response_start rq rs) = zeros 0x1f5"
  by (simp add: cmd56_response_start_def zero_response_def packet_sizes Let_def)

lemma start_phase:
  assumes "linked cstk s"
  obtains s' where "start_request s = (GC_AUTH_OK, s')" "linked cstk s'" "same_card s s'"
    "gc_lock_status (cart s') = GC_LOCKED" "vita s' = vita s"
proof -
  let ?s = "start_packet CMD_START 0x3 (calc_size sizeof_start_resp) 0x31 s"
  let ?rq = "se_request ?s" and ?st = "cart s\<lparr>gc_lock_status := GC_LOCKED\<rparr>"
  let ?rs = "put_resp (0xF, 1) [0x4] (put_resp (0xE, 1) [0x1] (put_resp (0xD, 1) [0x1]
     (cmd56_response_start ?rq (old_response ?s))))"
  have rq: "wf_request ?rq" "rq_magic ?rq = CMD56_MAGIC" "rq_command ?rq = CMD_START"
    by (simp_all add: start_packet_def)
  have l: "linked cstk ?s" using assms by (simp add: linked_def start_packet_def)
  have rs: "wf_response ?rs" by simp
  have ov: "rs_overrun ?rs = 0" by simp
  have h: "handle_request cstk (cart ?s) ?rq (old_response ?s) (ce_rng (se_env ?s)) =
      (?st, ?rq, ?rs, ce_rng (se_env s))"
    using rq(3) by (simp add: handle_request_def handle_cmd_start_def Let_def start_packet_def)
  note sent = send_packet_wire [OF l rq(1,2) h ov]
  let ?s' = "?s\<lparr>se_response := ?rs,
    se_env := \<lparr>ce_state = ?st, ce_rng = ce_rng (se_env s), ce_buffer = request_bytes ?rq\<rparr>\<rparr>"
  have "start_request s = (GC_AUTH_OK, ?s')"
    using sent
    by (simp add: start_request_def GC_AUTH_RETURN_STATUS_def resp_field_def get_field.simps put_field.simps
        put_resp_def nth_append Let_def)
  moreover have "linked cstk ?s'"
    using assms rs by (simp add: linked_def wf_gc_def start_packet_def)
  ultimately show ?thesis
    by (intro that [of ?s']) (simp_all add: same_card_def start_packet_def)
qed

lemma status_phase:
  assumes "linked cstk s"
  obtains s' where "get_status s = (GC_AUTH_OK, s')" "linked cstk s'" "same_card s s'"
    "cart s' = cart s" "vita s' = (vita s)\<lparr>vita_lock_status := gc_lock_status (cart s)\<rparr>"
proof -
  let ?s = "start_packet CMD_GET_STATUS 0x3 (calc_size sizeof_status_resp) 0x23 s"
  let ?rq = "se_request ?s"
  let ?rs = "put_resp status_resp_status (le_bytes 2 (gc_lock_status (cart s)))
     (cmd56_response_start ?rq (old_response ?s))"
  have rq: "wf_request ?rq" "rq_magic ?rq = CMD56_MAGIC" "rq_command ?rq = CMD_GET_STATUS"
    by (simp_all add: start_packet_def)
  have l: "linked cstk ?s" using assms by (simp add: linked_def start_packet_def)
  have rs: "wf_response ?rs" by (simp add: struct_fields)
  have ov: "rs_overrun ?rs = 0" by (simp add: struct_fields)
  have h: "handle_request cstk (cart ?s) ?rq (old_response ?s) (ce_rng (se_env ?s)) =
      (cart s, ?rq, ?rs, ce_rng (se_env s))"
    using rq(3) by (simp add: handle_request_def handle_cmd_status_def Let_def cmd_defs start_packet_def)
  note sent = send_packet_wire [OF l rq(1,2) h ov]
  have fld: "get_field status_resp_status (rs_data ?rs) = le_bytes 2 (gc_lock_status (cart s))"
    by (simp add: put_resp_def struct_fields)
  let ?s' = "?s\<lparr>se_state := (vita s)\<lparr>vita_lock_status := gc_lock_status (cart s)\<rparr>, se_response := ?rs,
    se_env := \<lparr>ce_state = cart s, ce_rng = ce_rng (se_env s), ce_buffer = request_bytes ?rq\<rparr>\<rparr>"
  have "get_status s = (GC_AUTH_OK, ?s')"
    using sent fld
    by (simp add: get_status_def GC_AUTH_RETURN_STATUS_def resp_field_def upd_state_def Let_def)
       (simp add: start_packet_def)
  moreover have "linked cstk ?s'"
    using assms rs by (simp add: linked_def wf_vita_def start_packet_def)
  ultimately show ?thesis
    by (intro that [of ?s']) (simp_all add: same_card_def start_packet_def)
qed

lemma session_key_phase:
  assumes "linked cstk s" "length stk = 16" "session_keyseed (uint (gc_key_id (cart s))) \<noteq> None"
    and "\<not> (vita_allow_prototype_keys (vita s) \<and> gc_key_id (cart s) > PROTOTYPE_KEY_ID1)"
  obtains s' where "get_session_key stk s = (GC_AUTH_OK, s')" "linked cstk s'" "same_card s s'"
    "vita_key_id (vita s') = gc_key_id (cart s)" "vita_cart_random (vita s') = gc_cart_random (cart s')"
    "vita_session_key (vita s') = gc_session_key (cart s')"
proof -
  let ?s = "start_packet CMD_GENERATE_SESSION_KEY 0x3 (calc_size sizeof_gsk_resp) 0x2 s"
  let ?rq = "se_request ?s"
  have rq: "wf_request ?rq" "rq_magic ?rq = CMD56_MAGIC" "rq_command ?rq = CMD_GENERATE_SESSION_KEY"
    by (simp_all add: start_packet_def)
  have l: "linked cstk ?s" using assms(1) by (simp add: linked_def start_packet_def)
  have env: "se_env ?s = se_env s" "vita ?s = vita s" "se_rng ?s = se_rng s" by (simp_all add: start_packet_def)
  obtain st' rq' rs' rng' where
    h: "handle_generate_session_key cstk (cart s) ?rq (old_response ?s) (ce_rng (se_env s)) = (st', rq', rs', rng')"
    by (metis prod_cases4)
  have w: "wf_gc (cart s)" "length (ce_rng (se_env s)) = 16" "length cstk = 16"
    using assms(1) by (simp_all add: linked_def)
  note r = handle_gsk_response [OF w(1) rq(1) w(2,3) h]
  have hr: "handle_request cstk (cart ?s) ?rq (old_response ?s) (ce_rng (se_env ?s)) = (st', rq', rs', rng')"
    using h rq(3) env by (simp add: handle_request_def cmd_defs)
  note sent = send_packet_wire [OF l rq(1,2) hr r(5)]
  have key: "derive_session_key stk (gc_cart_random st') (uint (gc_key_id (cart s))) =
      derive_session_key cstk (gc_cart_random st') (uint (gc_key_id (cart s)))"
    "fst (derive_session_key stk (gc_cart_random st') (uint (gc_key_id (cart s)))) = 1"
    using assms(3) by (auto simp: derive_session_key_def Let_def)
  have len: "length (snd (derive_session_key cstk (gc_cart_random st') (uint (gc_key_id (cart s))))) = 16"
    using w(3) by simp
  let ?v = "(vita s)\<lparr>vita_key_id := gc_key_id (cart s), vita_cart_random := gc_cart_random st',
    vita_session_key := key_schedule (snd (derive_session_key stk (gc_cart_random st') (uint (gc_key_id (cart s)))))\<rparr>"
  let ?s' = "?s\<lparr>se_state := ?v, se_response := rs',
    se_env := \<lparr>ce_state = st', ce_rng = rng', ce_buffer = request_bytes rq'\<rparr>\<rparr>"
  have "length (vita_session_key (vita s)) = 176" using assms(1) by (simp add: linked_def wf_vita_def)
  then have "get_session_key stk s = (GC_AUTH_OK, ?s')"
    using sent r(4,6,7) key len assms(4)
    by (simp add: get_session_key_def GC_AUTH_RETURN_STATUS_def get_resp_def resp_field_def upd_state_def
        env Let_def case_prod_unfold AES_init_ctx_eq)
  moreover have "wf_gc st'" "length (gc_cart_random st') = 0x20" using w r(8) by (simp_all add: wf_gc_def)
  then have "linked cstk ?s'"
    using assms(1) r(2,3) env by (simp add: linked_def wf_vita_def)
  ultimately show ?thesis
    using r(8) key env by (intro that [of ?s']) (simp_all add: same_card_def)
qed

text \<open>The shared randoms agree, up to the marks the console still has to set.\<close>

definition shared_random_agrees :: "cart_env session \<Rightarrow> bool" where
  "shared_random_agrees s \<longleftrightarrow>
     or_w_80 (vita_part (vita_shared_random (vita s))) 0x10 = vita_part (gc_shared_random (cart s)) \<and>
     cart_part (vita_shared_random (vita s)) = cart_part (gc_shared_random (cart s)) \<and>
     or_w_80 (cart_part (gc_shared_random (cart s))) 0x10 = cart_part (gc_shared_random (cart s))"

definition esr_ready :: "cart_env session \<Rightarrow> cart_env session" where
  "esr_ready s =
     (let s = start_packet CMD_EXCHANGE_SHARED_RANDOM (calc_size sizeof_esr_req) (calc_size sizeof_esr_resp) 0x3 s;
          s = upd_req (put_field esr_req_key_id (le_bytes 2 (endian_swap (vita_key_id (se_state s))))) s;
          (r, s) = draw rand_bytes 0x10 s;
          s = upd_req (put_field esr_req_shared_rand_vita r) s
      in upd_state (\<lambda>st. st\<lparr>vita_shared_random :=
                (vita_shared_random st)\<lparr>vita_part := req_field esr_req_shared_rand_vita s\<rparr>\<rparr>) s)"

lemma memcmp_tail:
  "length a = 0x10 \<Longrightarrow> length b = 0x10 \<Longrightarrow> impl_memcmp (drop (Suc 0) a) (drop (Suc 0) b) 0xF = 0 \<longleftrightarrow>
   drop (Suc 0) a = drop (Suc 0) b"
  by (subst memcmp_eq) simp_all

lemma or_w_80_rand [simp]: "length st = 16 \<Longrightarrow>
    or_w_80 (fst (rand_bytes_or_w_80 st 0x10)) 0x10 = fst (rand_bytes_or_w_80 st 0x10)"
  by (simp add: rand_bytes_or_w_80_def case_prod_unfold Let_def)

lemma shared_random_phase:
  assumes "linked cstk s" "vita_key_id (vita s) = gc_key_id (cart s)"
    and "vita_session_key (vita s) = gc_session_key (cart s)"
    and "vita_cart_random (vita s) = gc_cart_random (cart s)"
  obtains s' where "exchange_shared_random s = (GC_AUTH_OK, s')" "linked cstk s'" "same_card s s'"
    "vita_session_key (vita s') = gc_session_key (cart s')"
    "vita_cart_random (vita s') = gc_cart_random (cart s')" "shared_random_agrees s'"
proof -
  let ?s = "esr_ready s" and ?r = "fst (rand_bytes (se_rng s) 0x10)"
  let ?rq = "se_request ?s"
  have rng: "length (se_rng s) = 16" using assms(1) by (simp add: linked_def)
  have w: "wf_gc (cart s)" "length (ce_rng (se_env s)) = 16"
    using assms(1) by (simp_all add: linked_def)
  have rqd: "rq_data ?rq = put_field esr_req_shared_rand_vita ?r
      (put_field esr_req_key_id (le_bytes 2 (endian_swap (gc_key_id (cart s)))) (zeros 0x1d1))"
    "rq_magic ?rq = CMD56_MAGIC" "rq_command ?rq = CMD_EXCHANGE_SHARED_RANDOM"
    using assms(2) by (simp_all add: esr_ready_def session_access)
  have rq: "wf_request ?rq" "get_req esr_req_shared_rand_vita ?rq = ?r"
    "get_req esr_req_key_id ?rq = le_bytes 2 (endian_swap (gc_key_id (cart s)))"
    using rng by (simp_all add: wf_request_def get_req_def rqd packet_sizes struct_fields)
  have s: "se_env ?s = se_env s" "se_response ?s = se_response s" "se_rng ?s = snd (rand_bytes (se_rng s) 0x10)"
    "vita ?s = (vita s)\<lparr>vita_shared_random := (vita_shared_random (vita s))\<lparr>vita_part := ?r\<rparr>\<rparr>"
    using rq(2) by (simp_all add: esr_ready_def session_access get_req_def)
  have l: "linked cstk ?s" using assms(1) rng by (simp add: linked_def wf_vita_def s)
  obtain st' rq' rs' rng' where
    h: "handle_exchange_shared_random (cart s) ?rq (old_response ?s) (ce_rng (se_env s)) = (st', rq', rs', rng')"
    by (metis prod_cases4)
  have id: "endian_swap (le_word (get_req esr_req_key_id ?rq)) = gc_key_id (cart s)" by (simp add: rq)
  note r = handle_esr_response [OF w(1) rq(1) w(2) id h]
  have hr: "handle_request cstk (cart ?s) ?rq (old_response ?s) (ce_rng (se_env ?s)) = (st', rq', rs', rng')"
    using h rqd(3) s(1) by (simp add: handle_request_def cmd_defs)
  note sent = send_packet_wire [OF l rq(1) rqd(2) hr r(5)]
  let ?c = "fst (rand_bytes_or_w_80 (ce_rng (se_env s)) 0x10)"
  let ?d = "decrypt_cbc_zero_iv (gc_session_key (cart s)) (rs_data rs') 0x20"
  let ?v = "(vita s)\<lparr>vita_shared_random := \<lparr>vita_part = ?r, cart_part = ?c\<rparr>\<rparr>"
  let ?s' = "?s\<lparr>se_state := ?v, se_response := rs'\<lparr>rs_data := ?d\<rparr>,
    se_env := \<lparr>ce_state = st', ce_rng = rng', ce_buffer = request_bytes rq'\<rparr>\<rparr>"
  have "exchange_shared_random s =
      (let s = send_packet ?s
       in if rs_error_code (se_response s) = 0 then
           (let s = upd_resp (\<lambda>d. decrypt_cbc_zero_iv (vita_session_key (se_state s)) d sizeof_esr_resp) s
            in if impl_memcmp (drop 0x1 (resp_field esr_resp_shared_rand_vita s))
                   (drop 0x1 (vita_part (vita_shared_random (se_state s)))) (0x10 - 0x1) = 0
               then
                 (let s = upd_state (\<lambda>st. st\<lparr>vita_shared_random :=
                            (vita_shared_random st)\<lparr>cart_part := resp_field esr_resp_shared_rand_cart s\<rparr>\<rparr>) s
                  in (GC_AUTH_OK, s))
               else (GC_AUTH_ERROR_VERIFY_SHARED_RANDOM_INVALID, s))
         else (GC_AUTH_ERROR_REPORTED, s))"
    by (simp add: exchange_shared_random_def esr_ready_def Let_def case_prod_unfold)
  then have "exchange_shared_random s = (GC_AUTH_OK, ?s')"
    using sent r(4,7,8) rng assms(3) rq(2)
    by (simp add: s upd_resp_def resp_field_def upd_state_def memcmp_tail sizeof_esr_resp_def Let_def)
  moreover have "wf_response (rs'\<lparr>rs_data := ?d\<rparr>)"
    using length_decrypt_cbc_zero_iv [of 2 "rs_data rs'"] r(3)
    by (simp add: wf_response_def length_rs_data packet_sizes)
  then have "linked cstk ?s'"
    using assms(1) r(2,6) w rng rq(2) by (simp add: linked_def wf_vita_def wf_gc_def s)
  ultimately show ?thesis
    using r(6) rng rq(2) assms(3,4) w(2)
    by (intro that [of ?s']) (simp_all add: same_card_def shared_random_agrees_def s)
qed

definition esk_ready :: "cart_env session \<Rightarrow> cart_env session" where
  "esk_ready s =
     (let s = start_packet CMD_EXCHANGE_SECONDARY_KEY_AND_VERIFY_SESSION (calc_size sizeof_esk_req) 0x3 0x5 s;
          (r, s) = draw rand_bytes 0x10 s;
          s = upd_req (put_field esk_req_secondary_key r) s;
          s = upd_state (\<lambda>st. st\<lparr>vita_secondary_key :=
                AES_init_ctx (vita_secondary_key st) (req_field esk_req_secondary_key s)\<rparr>) s;
          s = upd_state (\<lambda>st. st\<lparr>vita_shared_random :=
                shared_random_of_bytes (or_w_80 (shared_random_bytes (vita_shared_random st)) 0x20)\<rparr>) s;
          s = upd_req (put_field esk_req_challenge_bytes
                (shared_random_bytes (vita_shared_random (se_state s)))) s
      in upd_req (\<lambda>d. encrypt_cbc_zero_iv (vita_session_key (se_state s)) d sizeof_esk_req) s)"

lemma marked_shared_random:
  assumes "wf_vita (vita s)" "wf_gc (cart s)" "shared_random_agrees s"
  shows "shared_random_of_bytes (or_w_80 (shared_random_bytes (vita_shared_random (vita s))) 0x20) =
    gc_shared_random (cart s)"
  using assms
  by (cases "gc_shared_random (cart s)")
     (simp add: shared_random_bytes_def or_w_80_append wf_vita_def wf_gc_def shared_random_of_bytes_def
       shared_random_agrees_def)

lemma secondary_key_phase:
  assumes "linked cstk s" "shared_random_agrees s"
    and "vita_session_key (vita s) = gc_session_key (cart s)"
    and "vita_cart_random (vita s) = gc_cart_random (cart s)"
  obtains s' where "generate_secondary_key_and_verify_session s = (GC_AUTH_OK, s')" "linked cstk s'" "same_card s s'"
    "vita_secondary_key (vita s') = gc_secondary_key (cart s')"
    "vita_cart_random (vita s') = gc_cart_random (cart s')" "gc_lock_status (cart s') = GC_UNLOCKED"
proof -
  let ?s = "esk_ready s" and ?r = "fst (rand_bytes (se_rng s) 0x10)"
  let ?rq = "se_request ?s" and ?K = "gc_session_key (cart s)"
  let ?P = "put_field esk_req_challenge_bytes (shared_random_bytes (gc_shared_random (cart s)))
      (put_field esk_req_secondary_key ?r (zeros 0x1d1))"
  have rng: "length (se_rng s) = 16" and w: "wf_gc (cart s)" "wf_vita (vita s)" "length (ce_rng (se_env s)) = 16"
    using assms(1) by (simp_all add: linked_def)
  then have sh: "length (shared_random_bytes (gc_shared_random (cart s))) = 0x20"
    by (simp add: wf_gc_def)
  have len: "length ?P = 0x1d1" using rng sh by (simp add: struct_fields)
  have sec: "AES_init_ctx (vita_secondary_key (vita s)) ?r = key_schedule ?r"
    "AES_init_ctx (gc_secondary_key (cart s)) ?r = key_schedule ?r"
    using rng w by (simp_all add: AES_init_ctx_eq wf_vita_def wf_gc_def)
  have req0: "get_field esk_req_secondary_key (put_field esk_req_secondary_key ?r (zeros 0x1d1)) = ?r"
    using rng by (simp add: struct_fields)
  note mark = marked_shared_random [OF w(2,1) assms(2)]
  have rqd: "rq_data ?rq = encrypt_cbc_zero_iv ?K ?P 0x30" "rq_magic ?rq = CMD56_MAGIC"
    "rq_command ?rq = CMD_EXCHANGE_SECONDARY_KEY_AND_VERIFY_SESSION"
    using assms(3) mark by (simp_all add: esk_ready_def session_access sizeof_esk_req_def)
  have rq: "wf_request ?rq"
    using length_encrypt_cbc_zero_iv [of 3 ?P] len by (simp add: wf_request_def rqd packet_sizes)
  have s: "se_env ?s = se_env s" "se_response ?s = se_response s" "se_rng ?s = snd (rand_bytes (se_rng s) 0x10)"
    "vita ?s = (vita s)\<lparr>vita_secondary_key := key_schedule ?r, vita_shared_random := gc_shared_random (cart s)\<rparr>"
    using sec mark req0 by (simp_all add: esk_ready_def session_access)
  have l: "linked cstk ?s" using assms(1) rng w by (simp add: linked_def wf_vita_def wf_gc_def s)
  have op: "get_field f (decrypt_cbc_zero_iv ?K (rq_data ?rq) 0x30) = get_field f ?P" if "fst f + snd f \<le> 0x30" for f
    using that len length_encrypt_cbc_zero_iv [of 3 ?P] by (intro get_field_decrypt [where n = 48]) (simp_all add: rqd)
  have pres: "presents_shared_random (cart s) ?rq"
    unfolding presents_shared_random_def sizeof_esk_req_def using rng sh by (subst op) (simp_all add: struct_fields)
  have key: "get_field esk_req_secondary_key (decrypt_cbc_zero_iv ?K (rq_data ?rq) 0x30) = ?r"
    using rng sh by (subst op) (simp_all add: struct_fields)
  let ?rq' = "?rq\<lparr>rq_data := decrypt_cbc_zero_iv ?K (rq_data ?rq) 0x30\<rparr>"
  let ?st = "(cart s)\<lparr>gc_secondary_key := key_schedule ?r, gc_lock_status := GC_UNLOCKED\<rparr>"
  let ?rs = "cmd56_response_start ?rq (old_response ?s)"
  have hr: "handle_request cstk (cart ?s) ?rq (old_response ?s) (ce_rng (se_env ?s)) = (?st, ?rq', ?rs, ce_rng (se_env s))"
    using rqd(3) pres key sec(2)
    by (simp add: handle_request_def cmd_defs handle_exchange_secondary_key_and_verify_session_def Let_def s
        challenge_check_iff [OF w(1) rq]) (simp add: get_req_def sizeof_esk_req_def)
  have "rs_overrun ?rs = 0" by simp
  note sent = send_packet_wire [OF l rq rqd(2) hr this]
  let ?s' = "?s\<lparr>se_response := ?rs,
    se_env := \<lparr>ce_state = ?st, ce_rng = ce_rng (se_env s), ce_buffer = request_bytes ?rq'\<rparr>\<rparr>"
  have "generate_secondary_key_and_verify_session s =
      (let s = send_packet ?s
       in if rs_error_code (se_response s) \<noteq> 0 then (GC_AUTH_ERROR_REPORTED, s) else (GC_AUTH_OK, s))"
    by (simp add: generate_secondary_key_and_verify_session_def esk_ready_def Let_def case_prod_unfold)
  then have "generate_secondary_key_and_verify_session s = (GC_AUTH_OK, ?s')" using sent by simp
  moreover have "linked cstk ?s'" using l w by (simp add: linked_def wf_gc_def s)
  ultimately show ?thesis
    using assms(4) by (intro that [of ?s']) (simp_all add: same_card_def s)
qed

definition vsk_ready :: "cart_env session \<Rightarrow> cart_env session" where
  "vsk_ready s =
     (let s = start_packet CMD_VERIFY_SECONDARY_KEY (calc_size sizeof_vsk_req) (calc_size sizeof_vsk_resp) 0x7 s;
          (r, s) = draw rand_bytes_or_w_80 0x10 s
      in upd_req (put_field vsk_req_challenge_bytes r) s)"

lemma verify_phase:
  assumes "linked cstk s" "vita_secondary_key (vita s) = gc_secondary_key (cart s)"
    and "vita_cart_random (vita s) = gc_cart_random (cart s)"
  obtains s' where "verify_secondary_key s = (GC_AUTH_OK, s')" "linked cstk s'" "same_card s s'"
    "vita s' = vita s" "cart s' = cart s"
proof -
  let ?s = "vsk_ready s" and ?r = "fst (rand_bytes_or_w_80 (se_rng s) 0x10)"
  let ?rq = "se_request ?s" and ?K = "gc_secondary_key (cart s)"
  have rng: "length (se_rng s) = 16" and w: "wf_gc (cart s)" "length (ce_rng (se_env s)) = 16"
    using assms(1) by (simp_all add: linked_def)
  have rqd: "rq_data ?rq = put_field vsk_req_challenge_bytes ?r (zeros 0x1d1)" "rq_magic ?rq = CMD56_MAGIC"
    "rq_command ?rq = CMD_VERIFY_SECONDARY_KEY"
    by (simp_all add: vsk_ready_def session_access)
  have rq: "wf_request ?rq" "get_field vsk_req_challenge_bytes (rq_data ?rq) = ?r"
    using rng by (simp_all add: wf_request_def rqd packet_sizes struct_fields)
  have s: "se_env ?s = se_env s" "se_response ?s = se_response s" "vita ?s = vita s"
    "se_rng ?s = snd (rand_bytes_or_w_80 (se_rng s) 0x10)"
    by (simp_all add: vsk_ready_def session_access)
  have l: "linked cstk ?s" using assms(1) rng by (simp add: linked_def s)
  obtain st' rq' rs' rng' where
    h: "handle_verify_secondary_key (cart s) ?rq (old_response ?s) (ce_rng (se_env s)) = (st', rq', rs', rng')"
    by (metis prod_cases4)
  note r = handle_vsk_response [OF w(1) rq(1) w(2) h]
  have hr: "handle_request cstk (cart ?s) ?rq (old_response ?s) (ce_rng (se_env ?s)) = (st', rq', rs', rng')"
    using h rqd(3) s(1) by (simp add: handle_request_def cmd_defs)
  note sent = send_packet_wire [OF l rq(1) rqd(2) hr r(6)]
  let ?d = "decrypt_cbc_zero_iv ?K (rs_data rs') 0x40"
  let ?s' = "?s\<lparr>se_response := rs'\<lparr>rs_data := ?d\<rparr>,
    se_env := \<lparr>ce_state = st', ce_rng = rng', ce_buffer = request_bytes rq'\<rparr>\<rparr>"
  have "verify_secondary_key s =
      (let s = send_packet ?s;
          s = upd_resp (\<lambda>d. decrypt_cbc_zero_iv (vita_secondary_key (se_state s)) d sizeof_vsk_resp) s
      in if impl_memcmp (drop 0x1 (resp_field vsk_resp_challenge_bytes s))
             (drop 0x1 (req_field vsk_req_challenge_bytes s)) (0x10 - 1) = 0
         then
           (if impl_memcmp (resp_field vsk_resp_cart_random s) (vita_cart_random (se_state s)) 0x20 = 0
            then (GC_AUTH_RETURN_STATUS s, s)
            else (GC_AUTH_ERROR_VERIFY_CART_RANDOM_INVALID_CART_RANDOM, s))
         else (GC_AUTH_ERROR_VERIFY_CART_RANDOM_CHALLENGE_INVALID, s))"
    by (simp add: verify_secondary_key_def vsk_ready_def Let_def case_prod_unfold)
  moreover have "length (gc_cart_random (cart s)) = 0x20" using w by (simp add: wf_gc_def)
  ultimately have "verify_secondary_key s = (GC_AUTH_OK, ?s')"
    using sent r(5,7,8) rng assms(2,3) rq(2)
    by (simp add: s upd_resp_def resp_field_def req_field_def memcmp_tail memcmp_eq sizeof_vsk_resp_def
        GC_AUTH_RETURN_STATUS_def get_req_def Let_def)
  moreover have "wf_response (rs'\<lparr>rs_data := ?d\<rparr>)"
    using length_decrypt_cbc_zero_iv [of 4 "rs_data rs'"] r(4)
    by (simp add: wf_response_def length_rs_data packet_sizes)
  then have "linked cstk ?s'"
    using assms(1) r(1,3) w rng by (simp add: linked_def s)
  ultimately show ?thesis
    using r(1) by (intro that [of ?s']) (simp_all add: same_card_def s)
qed

lemma nth_0_rand_bytes_or_w_80:
  assumes "length st = 16"
  shows "bit (fst (rand_bytes_or_w_80 st 0x10) ! 0) 7"
proof -
  have "fst (rand_bytes_or_w_80 st 0x10) ! 0 = fst (rand_bytes st 0x10) ! 0 OR 0x80"
    using assms by (simp add: rand_bytes_or_w_80_def case_prod_unfold Let_def)
  then show ?thesis using or_80_bit by (metis or_80_idem)
qed

lemma p18_phase:
  assumes "linked cstk s" "vita_secondary_key (vita s) = gc_secondary_key (cart s)"
  obtains s' where "get_packet18_key type s = (GC_AUTH_OK, s')" "linked cstk s'" "same_card s s'"
    "vita s' = (vita s)\<lparr>vita_per_cart_keys := (vita_per_cart_keys (vita s))\<lparr>packet18_key :=
       packet18_key (gc_per_cart_keys (cart s))\<rparr>\<rparr>" "cart s' = cart s"
proof -
  let ?s = "p18_ready type s" and ?r = "fst (rand_bytes_or_w_80 (se_rng s) 0x10)"
  let ?rq = "se_request ?s" and ?K = "gc_secondary_key (cart s)"
  let ?P = "put_field p18_req_type [type] (put_field p18_req_pad0 (zeros 0xF)
      (put_field p18_req_challenge_bytes ?r (zeros 0x1d1)))"
  let ?E = "encrypt_cbc_zero_iv ?K ?P 0x30"
  let ?base = "cmd56_request_start (se_request s) CMD_GET_P18_KEY_AND_CMAC_SIGNATURE (of_nat (calc_size sizeof_p18_req))
     (of_nat (calc_size sizeof_p18_resp)) 0x11"
  have rng: "length (se_rng s) = 16" and w: "wf_gc (cart s)"
    using assms(1) by (simp_all add: linked_def)
  have P: "length ?P = 0x1d1" "get_field p18_req_challenge_bytes ?P = ?r"
    using rng by (simp_all add: struct_fields)
  have "?P ! 0 = ?r ! 0"
    using P(2) P(1) rng by (metis (no_types) get_field.simps p18_req_challenge_bytes_def drop_0 nth_take zero_less_numeral)
  then have mark0: "bit (?P ! 0) 7" using nth_0_rand_bytes_or_w_80 [OF rng] by metis
  have rqd: "?rq = ?base\<lparr>rq_data := put_field p18_req_cmac_signature
      (do_cmd56_cmac_hash ?K ?E (make_int24 (rq_command ?base) 0 (rq_additional_data_size ?base)) 0x20) ?E\<rparr>"
    using assms(2) by (simp add: p18_ready_def session_access sizeof_p18_req_def p18_req_cmac_signature_def)
  have magic: "rq_magic ?rq = CMD56_MAGIC" "rq_command ?rq = CMD_GET_P18_KEY_AND_CMAC_SIGNATURE"
    by (simp_all add: rqd)
  have lenE: "length ?E = 0x1d1" using length_encrypt_cbc_zero_iv [of 3 ?P] P(1) by simp
  then have rq: "wf_request ?rq" by (simp add: wf_request_def rqd packet_sizes struct_fields)
  note sealed = sealed_request [where P = ?P and n = 48 and st = "cart s" and base = ?base, folded rqd]
  have sig: "signed_by_secondary_key (cart s) ?rq" using sealed(1) P(1) by simp
  have mark: "has_marked_challenge (cart s) ?rq" using sealed(3) P(1) mark0 by simp
  have ch: "get_field p18_req_challenge_bytes (decrypt_cbc_zero_iv ?K (rq_data ?rq) 0x20) = ?r"
    using sealed(2) [of p18_req_challenge_bytes] P by (simp add: p18_req_challenge_bytes_def)
  have s: "se_env ?s = se_env s" "se_response ?s = se_response s" "vita ?s = vita s"
    "se_rng ?s = snd (rand_bytes_or_w_80 (se_rng s) 0x10)"
    by (simp_all add: p18_ready_def session_access)
  have l: "linked cstk ?s" using assms(1) rng by (simp add: linked_def s)
  obtain st' rq' rs' rng' where
    h: "handle_p18key_and_cmac_signature (cart s) ?rq (old_response ?s) (ce_rng (se_env s)) = (st', rq', rs', rng')"
    by (metis prod_cases4)
  note r = handle_p18_response [OF w rq sig mark h]
  have hr: "handle_request cstk (cart ?s) ?rq (old_response ?s) (ce_rng (se_env ?s)) = (st', rq', rs', rng')"
    using h magic(2) s(1) by (simp add: handle_request_def cmd_defs)
  note sent = send_packet_wire [OF l rq magic(1) hr r(5)]
  let ?d = "decrypt_cbc_zero_iv ?K (rs_data rs') 0x30"
  let ?v = "(vita s)\<lparr>vita_per_cart_keys := (vita_per_cart_keys (vita s))\<lparr>packet18_key :=
       packet18_key (gc_per_cart_keys (cart s))\<rparr>\<rparr>"
  let ?s' = "?s\<lparr>se_state := ?v, se_response := rs'\<lparr>rs_data := ?d\<rparr>,
    se_env := \<lparr>ce_state = st', ce_rng = rng', ce_buffer = request_bytes rq'\<rparr>\<rparr>"
  have "fst p18_resp_cmac_signature = 0x30" by (simp add: p18_resp_cmac_signature_def)
  then have "get_packet18_key type s = (GC_AUTH_OK, ?s')"
    using sent r(4,6,7,8) rng assms(2) ch
    by (simp add: get_packet18_key_eq s upd_resp_def resp_field_def upd_state_def memcmp_eq get_resp_def Let_def)
  moreover have "wf_response (rs'\<lparr>rs_data := ?d\<rparr>)"
    using length_decrypt_cbc_zero_iv [of 3 "rs_data rs'"] r(3)
    by (simp add: wf_response_def length_rs_data packet_sizes)
  then have "linked cstk ?s'"
    using assms(1) r(1,2) w rng by (simp add: linked_def wf_vita_def s)
  ultimately show ?thesis
    using r(1) by (intro that [of ?s']) (simp_all add: same_card_def s)
qed

lemma p20_phase:
  assumes "linked cstk s" "vita_secondary_key (vita s) = gc_secondary_key (cart s)"
  obtains s' where "get_packet20_key s = (GC_AUTH_OK, s')" "linked cstk s'" "same_card s s'"
    "vita s' = (vita s)\<lparr>vita_per_cart_keys := (vita_per_cart_keys (vita s))\<lparr>packet20_key :=
       packet20_key (gc_per_cart_keys (cart s))\<rparr>\<rparr>" "cart s' = cart s"
proof -
  let ?s = "p20_ready s" and ?r = "fst (rand_bytes_or_w_80 (se_rng s) 0x10)"
  let ?rq = "se_request ?s" and ?K = "gc_secondary_key (cart s)"
  have rng: "length (se_rng s) = 16" and w: "wf_gc (cart s)" "length (ce_rng (se_env s)) = 16"
    using assms(1) by (simp_all add: linked_def)
  have rqd: "rq_data ?rq = put_field p20_req_challenge_bytes ?r (zeros 0x1d1)" "rq_magic ?rq = CMD56_MAGIC"
    "rq_command ?rq = CMD_GET_P20_KEY_AND_CMAC_SIGNATURE"
    by (simp_all add: p20_ready_def session_access)
  have rq: "wf_request ?rq" "get_field p20_req_challenge_bytes (rq_data ?rq) = ?r"
    using rng by (simp_all add: wf_request_def rqd packet_sizes struct_fields)
  have s: "se_env ?s = se_env s" "se_response ?s = se_response s" "vita ?s = vita s"
    "se_rng ?s = snd (rand_bytes_or_w_80 (se_rng s) 0x10)"
    by (simp_all add: p20_ready_def session_access)
  have l: "linked cstk ?s" using assms(1) rng by (simp add: linked_def s)
  obtain st' rq' rs' rng' where
    h: "handle_p20key_and_cmac_signature (cart s) ?rq (old_response ?s) (ce_rng (se_env s)) = (st', rq', rs', rng')"
    by (metis prod_cases4)
  note r = handle_p20_response [OF w(1) rq(1) w(2) h]
  have hr: "handle_request cstk (cart ?s) ?rq (old_response ?s) (ce_rng (se_env ?s)) = (st', rq', rs', rng')"
    using h rqd(3) s(1) by (simp add: handle_request_def cmd_defs)
  note sent = send_packet_wire [OF l rq(1) rqd(2) hr r(6)]
  let ?d = "decrypt_cbc_zero_iv ?K (rs_data rs') 0x40"
  let ?v = "(vita s)\<lparr>vita_per_cart_keys := (vita_per_cart_keys (vita s))\<lparr>packet20_key :=
       packet20_key (gc_per_cart_keys (cart s))\<rparr>\<rparr>"
  let ?s' = "?s\<lparr>se_state := ?v, se_response := rs'\<lparr>rs_data := ?d\<rparr>,
    se_env := \<lparr>ce_state = st', ce_rng = rng', ce_buffer = request_bytes rq'\<rparr>\<rparr>"
  have "fst p20_resp_cmac_signature = 0x40" by (simp add: p20_resp_cmac_signature_def)
  then have "get_packet20_key s = (GC_AUTH_OK, ?s')"
    using sent r(5,7,8,9) rng assms(2) rq(2)
    by (simp add: get_packet20_key_eq s upd_resp_def resp_field_def req_field_def upd_state_def memcmp_eq
        memcmp_tail get_resp_def get_req_def Let_def)
  moreover have "wf_response (rs'\<lparr>rs_data := ?d\<rparr>)"
    using length_decrypt_cbc_zero_iv [of 4 "rs_data rs'"] r(4)
    by (simp add: wf_response_def length_rs_data packet_sizes)
  then have "linked cstk ?s'"
    using assms(1) r(1,3) w rng by (simp add: linked_def wf_vita_def s)
  ultimately show ?thesis
    using r(1) by (intro that [of ?s']) (simp_all add: same_card_def s)
qed

lemma session_key_reject:
  assumes "linked cstk s"
    and "session_keyseed (uint (gc_key_id (cart s))) = None \<or>
      vita_allow_prototype_keys (vita s) \<and> gc_key_id (cart s) > PROTOTYPE_KEY_ID1"
  obtains s' where "get_session_key stk s = (GC_AUTH_ERROR_INVALID_KEYID, s')" "same_card s s'"
    "vita s' = (vita s)\<lparr>vita_key_id := gc_key_id (cart s), vita_cart_random := gc_cart_random (cart s')\<rparr>"
    "gc_lock_status (cart s') = gc_lock_status (cart s)"
proof -
  let ?s = "start_packet CMD_GENERATE_SESSION_KEY 0x3 (calc_size sizeof_gsk_resp) 0x2 s"
  let ?rq = "se_request ?s"
  have rq: "wf_request ?rq" "rq_magic ?rq = CMD56_MAGIC" "rq_command ?rq = CMD_GENERATE_SESSION_KEY"
    by (simp_all add: start_packet_def)
  have l: "linked cstk ?s" using assms(1) by (simp add: linked_def start_packet_def)
  have env: "se_env ?s = se_env s" "vita ?s = vita s" by (simp_all add: start_packet_def)
  obtain st' rq' rs' rng' where
    h: "handle_generate_session_key cstk (cart s) ?rq (old_response ?s) (ce_rng (se_env s)) = (st', rq', rs', rng')"
    by (metis prod_cases4)
  have w: "wf_gc (cart s)" "length (ce_rng (se_env s)) = 16" "length cstk = 16"
    using assms(1) by (simp_all add: linked_def)
  note r = handle_gsk_response [OF w(1) rq(1) w(2,3) h]
  have hr: "handle_request cstk (cart ?s) ?rq (old_response ?s) (ce_rng (se_env ?s)) = (st', rq', rs', rng')"
    using h rq(3) env by (simp add: handle_request_def cmd_defs)
  note sent = send_packet_wire [OF l rq(1,2) hr r(5)]
  have none: "session_keyseed (uint (gc_key_id (cart s))) = None \<Longrightarrow>
      fst (derive_session_key stk r (uint (gc_key_id (cart s)))) = 0" for r
    by (simp add: derive_session_key_def)
  obtain s' where s': "get_session_key stk s = (GC_AUTH_ERROR_INVALID_KEYID, s')"
    "s' = ?s\<lparr>se_state := (vita s)\<lparr>vita_key_id := gc_key_id (cart s), vita_cart_random := gc_cart_random st'\<rparr>,
       se_response := rs', se_env := \<lparr>ce_state = st', ce_rng = rng', ce_buffer = request_bytes rq'\<rparr>\<rparr>"
    using sent r(6,7) none assms(2)
    by (auto simp: get_session_key_def get_resp_def resp_field_def upd_state_def env Let_def case_prod_unfold)
  show ?thesis using s' r(8) by (intro that [of s']) (simp_all add: same_card_def)
qed

lemma check_success_ok: "code s = (GC_AUTH_OK, s') \<Longrightarrow> check_success code rest s = rest s'"
  by (simp add: check_success_def)

lemma check_success_fail: "fst (code s) = e \<Longrightarrow> e \<noteq> GC_AUTH_OK \<Longrightarrow> fst (check_success code rest s) = e"
  by (simp add: check_success_def case_prod_unfold)

lemma check_lock_ok: "vita_lock_status (se_state s) = l \<Longrightarrow> check_lock l e rest s = rest s"
  by (simp add: check_lock_def)

section \<open>The whole protocol\<close>

lemma before_session_key:
  assumes "linked cstk s"
  obtains s2 where "linked cstk s2" "same_card s s2" "gc_lock_status (cart s2) = GC_LOCKED"
    "vita s2 = (vita s)\<lparr>vita_lock_status := GC_LOCKED\<rparr>"
    "\<And>rest. check_success start_request (check_success get_status (check_lock GC_LOCKED e rest)) s = rest s2"
proof -
  obtain s1 where s1: "start_request s = (GC_AUTH_OK, s1)" "linked cstk s1" "same_card s s1"
    "gc_lock_status (cart s1) = GC_LOCKED" "vita s1 = vita s" using start_phase [OF assms] .
  obtain s2 where s2: "get_status s1 = (GC_AUTH_OK, s2)" "linked cstk s2" "same_card s1 s2"
    "cart s2 = cart s1" "vita s2 = (vita s1)\<lparr>vita_lock_status := gc_lock_status (cart s1)\<rparr>"
    using status_phase [OF s1(2)] .
  show ?thesis
    using s1 s2 by (intro that [of s2]) (simp_all add: check_success_ok check_lock_ok same_card_def)
qed

lemma session_completes:
  assumes "linked cstk s" "length stk = 16" "session_keyseed (uint (gc_key_id (cart s))) \<noteq> None"
    and "\<not> (vita_allow_prototype_keys (vita s) \<and> gc_key_id (cart s) > PROTOTYPE_KEY_ID1)"
  obtains s' where "vita_session stk s = (GC_AUTH_OK, s')" "linked cstk s'" "same_card s s'"
    "vita_per_cart_keys (vita s') = gc_per_cart_keys (cart s)" "gc_lock_status (cart s') = GC_UNLOCKED"
    "vita_lock_status (vita s') = GC_UNLOCKED" "vita_secondary_key (vita s') = gc_secondary_key (cart s')"
proof -
  obtain s2 where s2: "linked cstk s2" "same_card s s2" "\<And>rest. check_success start_request
      (check_success get_status (check_lock GC_LOCKED GC_AUTH_ERROR_UNLOCKED rest)) s = rest s2"
    using before_session_key [OF assms(1)] by metis
  obtain s3 where s3: "get_session_key stk s2 = (GC_AUTH_OK, s3)" "linked cstk s3" "same_card s2 s3"
    "vita_key_id (vita s3) = gc_key_id (cart s2)" "vita_cart_random (vita s3) = gc_cart_random (cart s3)"
    "vita_session_key (vita s3) = gc_session_key (cart s3)"
    using session_key_phase [OF s2(1) assms(2)] s2(2) assms(3,4) unfolding same_card_def by metis
  have id: "vita_key_id (vita s3) = gc_key_id (cart s3)" using s3(3,4) by (simp add: same_card_def)
  obtain s4 where s4: "exchange_shared_random s3 = (GC_AUTH_OK, s4)" "linked cstk s4" "same_card s3 s4"
    "vita_session_key (vita s4) = gc_session_key (cart s4)"
    "vita_cart_random (vita s4) = gc_cart_random (cart s4)" "shared_random_agrees s4"
    using shared_random_phase [OF s3(2) id s3(6,5)] .
  obtain s5 where s5: "generate_secondary_key_and_verify_session s4 = (GC_AUTH_OK, s5)" "linked cstk s5"
    "same_card s4 s5" "vita_secondary_key (vita s5) = gc_secondary_key (cart s5)"
    "vita_cart_random (vita s5) = gc_cart_random (cart s5)" "gc_lock_status (cart s5) = GC_UNLOCKED"
    using secondary_key_phase [OF s4(2,6,4,5)] .
  obtain s6 where s6: "get_status s5 = (GC_AUTH_OK, s6)" "linked cstk s6" "same_card s5 s6"
    "cart s6 = cart s5" "vita s6 = (vita s5)\<lparr>vita_lock_status := gc_lock_status (cart s5)\<rparr>"
    using status_phase [OF s5(2)] .
  have k6: "vita_secondary_key (vita s6) = gc_secondary_key (cart s6)"
    "vita_cart_random (vita s6) = gc_cart_random (cart s6)" using s5(4,5) s6(4,5) by simp_all
  obtain s7 where s7: "verify_secondary_key s6 = (GC_AUTH_OK, s7)" "linked cstk s7" "same_card s6 s7"
    "vita s7 = vita s6" "cart s7 = cart s6"
    using verify_phase [OF s6(2) k6] .
  have k7: "vita_secondary_key (vita s7) = gc_secondary_key (cart s7)" using k6 s7 by simp
  obtain s8 where s8: "get_packet18_key 2 s7 = (GC_AUTH_OK, s8)" "linked cstk s8" "same_card s7 s8"
    "vita s8 = (vita s7)\<lparr>vita_per_cart_keys := (vita_per_cart_keys (vita s7))\<lparr>packet18_key :=
       packet18_key (gc_per_cart_keys (cart s7))\<rparr>\<rparr>" "cart s8 = cart s7"
    using p18_phase [OF s7(2) k7] .
  have k8: "vita_secondary_key (vita s8) = gc_secondary_key (cart s8)" using k7 s8(4,5) by simp
  obtain s9 where s9: "get_packet18_key 3 s8 = (GC_AUTH_OK, s9)" "linked cstk s9" "same_card s8 s9"
    "vita s9 = (vita s8)\<lparr>vita_per_cart_keys := (vita_per_cart_keys (vita s8))\<lparr>packet18_key :=
       packet18_key (gc_per_cart_keys (cart s8))\<rparr>\<rparr>" "cart s9 = cart s8"
    using p18_phase [OF s8(2) k8] .
  have k9: "vita_secondary_key (vita s9) = gc_secondary_key (cart s9)" using k8 s9(4,5) by simp
  obtain s10 where s10: "get_packet20_key s9 = (GC_AUTH_OK, s10)" "linked cstk s10" "same_card s9 s10"
    "vita s10 = (vita s9)\<lparr>vita_per_cart_keys := (vita_per_cart_keys (vita s9))\<lparr>packet20_key :=
       packet20_key (gc_per_cart_keys (cart s9))\<rparr>\<rparr>" "cart s10 = cart s9"
    using p20_phase [OF s9(2) k9] .
  have lock6: "vita_lock_status (vita s6) = GC_UNLOCKED" using s6 s5 by simp
  have run: "vita_session stk s = (GC_AUTH_OK, s10)"
    unfolding vita_session_def s2(3)
    by (simp add: check_success_def check_lock_def s3(1) s4(1) s5(1) s6(1) lock6 s7(1) s8(1) s9(1) s10(1))
  have same: "same_card s s10"
    using s2(2) s3(3) s4(3) s5(3) s6(3) s7(3) s8(3) s9(3) s10(3) by (simp add: same_card_def)
  have lock: "gc_lock_status (cart s10) = GC_UNLOCKED" "vita_lock_status (vita s10) = GC_UNLOCKED"
    using s5(6) s6(4,5) s7(4,5) s8(4,5) s9(4,5) s10(4,5) by simp_all
  have "gc_per_cart_keys (cart s9) = gc_per_cart_keys (cart s)"
    using s10(5) same by (simp add: same_card_def)
  then have keys: "vita_per_cart_keys (vita s10) = gc_per_cart_keys (cart s)"
    using s10(4) s9(4,5) by simp
  have "vita_secondary_key (vita s10) = gc_secondary_key (cart s10)" using k9 s10(4,5) by simp
  then show ?thesis using that [OF run s10(2) same keys lock] by simp
qed

lemma session_rejects:
  assumes "linked cstk s" "session_keyseed (uint (gc_key_id (cart s))) = None \<or>
      vita_allow_prototype_keys (vita s) \<and> gc_key_id (cart s) > PROTOTYPE_KEY_ID1"
  obtains s' where "vita_session stk s = (GC_AUTH_ERROR_INVALID_KEYID, s')" "same_card s s'"
    "vita s' = (vita s)\<lparr>vita_lock_status := GC_LOCKED, vita_key_id := gc_key_id (cart s),
       vita_cart_random := gc_cart_random (cart s')\<rparr>"
    "gc_lock_status (cart s') = GC_LOCKED"
proof -
  obtain s2 where s2: "linked cstk s2" "same_card s s2" "gc_lock_status (cart s2) = GC_LOCKED"
    "vita s2 = (vita s)\<lparr>vita_lock_status := GC_LOCKED\<rparr>" "\<And>rest. check_success start_request
      (check_success get_status (check_lock GC_LOCKED GC_AUTH_ERROR_UNLOCKED rest)) s = rest s2"
    using before_session_key [OF assms(1)] by metis
  have k: "session_keyseed (uint (gc_key_id (cart s2))) = None \<or>
      vita_allow_prototype_keys (vita s2) \<and> gc_key_id (cart s2) > PROTOTYPE_KEY_ID1"
    using s2(2) assms(2) by (simp add: same_card_def)
  obtain s3 where s3: "get_session_key stk s2 = (GC_AUTH_ERROR_INVALID_KEYID, s3)" "same_card s2 s3"
    "vita s3 = (vita s2)\<lparr>vita_key_id := gc_key_id (cart s2), vita_cart_random := gc_cart_random (cart s3)\<rparr>"
    "gc_lock_status (cart s3) = gc_lock_status (cart s2)"
    using session_key_reject [OF s2(1) k] .
  have "vita_session stk s = (GC_AUTH_ERROR_INVALID_KEYID, s3)"
    unfolding vita_session_def s2(5) by (simp add: check_success_def s3(1))
  then show ?thesis
    using s2(2,3,4) s3(2-4) by (intro that [of s3]) (simp_all add: same_card_def)
qed

lemma linked_init:
  "wf_gc c \<Longrightarrow> wf_vita v \<Longrightarrow> vita_send v = wire_send \<Longrightarrow> vita_recv v = wire_recv cstk \<Longrightarrow>
   length rng = 16 \<Longrightarrow> length crng = 16 \<Longrightarrow> length cstk = 16 \<Longrightarrow>
   linked cstk \<lparr>se_state = v, se_request = zero_request, se_response = zero_response, se_rng = rng,
     se_env = \<lparr>ce_state = c, ce_rng = crng, ce_buffer = buf\<rparr>\<rparr>"
  by (simp add: linked_def)

section \<open>Properties\<close>



text \<open>The check of prototype ids is the inverse of its documentation: an id above the first
  prototype id is refused when the console was told to allow prototype cards.\<close>

lemma prototype_check_inverted:
  assumes "linked cstk s" "vita_allow_prototype_keys (vita s)" "gc_key_id (cart s) > PROTOTYPE_KEY_ID1"
  shows "fst (vita_session stk s) = GC_AUTH_ERROR_INVALID_KEYID"
  using session_rejects [OF assms(1), where stk = stk] assms(2,3) by (metis fst_conv)

text \<open>C5: a card whose key id has no key is refused.  Whatever state card and console start
  in, the run ends with \<^verbatim>\<open>GC_AUTH_ERROR_INVALID_KEYID\<close> after three exchanges: the console has
  noted the lock status, the key id and the card's random, and holds the keys it held before;
  the card is locked and its keys and id are what they were.\<close>

theorem handshake_rejects:
  assumes "wf_gc c" "wf_vita v" "vita_send v = wire_send" "vita_recv v = wire_recv cstk"
    and "length rng = 16" "length crng = 16" "length cstk = 16"
    and "session_keyseed (uint (gc_key_id c)) = None"
  shows "\<exists>rng' env'. vita_cmd56_run stk (Some v) rng \<lparr>ce_state = c, ce_rng = crng, ce_buffer = buf\<rparr> =
      (GC_AUTH_ERROR_INVALID_KEYID,
       Some (v\<lparr>vita_lock_status := GC_LOCKED, vita_key_id := gc_key_id c,
         vita_cart_random := gc_cart_random (ce_state env')\<rparr>), rng', env') \<and>
    gc_lock_status (ce_state env') = GC_LOCKED \<and>
    gc_key_id (ce_state env') = gc_key_id c \<and> gc_per_cart_keys (ce_state env') = gc_per_cart_keys c"
proof -
  let ?s = "\<lparr>se_state = v, se_request = zero_request, se_response = zero_response, se_rng = rng,
     se_env = \<lparr>ce_state = c, ce_rng = crng, ce_buffer = buf\<rparr>\<rparr>"
  obtain s' where "vita_session stk ?s = (GC_AUTH_ERROR_INVALID_KEYID, s')" "same_card ?s s'"
    "vita s' = (vita ?s)\<lparr>vita_lock_status := GC_LOCKED, vita_key_id := gc_key_id (cart ?s),
       vita_cart_random := gc_cart_random (cart s')\<rparr>" "gc_lock_status (cart s') = GC_LOCKED"
    using session_rejects [OF linked_init [OF assms(1-7)]] assms(8) by auto
  then show ?thesis by (simp add: vita_cmd56_run_def same_card_def)
qed

theorem handshake_rejects_witness:
  "\<exists>rng' env'. vita_cmd56_run (zeros 16) (Some (vita_zero wire_send (wire_recv (zeros 16)))) rand_state_init
      \<lparr>ce_state = gc_zero\<lparr>gc_key_id := 2\<rparr>, ce_rng = rand_state_init, ce_buffer = []\<rparr> =
      (GC_AUTH_ERROR_INVALID_KEYID,
       Some ((vita_zero wire_send (wire_recv (zeros 16)))\<lparr>vita_lock_status := GC_LOCKED, vita_key_id := 2,
         vita_cart_random := gc_cart_random (ce_state env')\<rparr>), rng', env') \<and>
    gc_lock_status (ce_state env') = GC_LOCKED"
proof -
  let ?c = "gc_zero\<lparr>gc_key_id := 2\<rparr>" and ?v = "vita_zero wire_send (wire_recv (zeros 16))"
  have "wf_gc ?c" "wf_vita ?v" by (simp_all add: wf_gc_def wf_vita_def gc_zero_def vita_zero_def AES_keyExpSize_def)
  then show ?thesis
    using handshake_rejects [of ?c ?v "zeros 16" rand_state_init rand_state_init "zeros 16" "[]"]
    by (auto simp: vita_zero_def session_keyseed_def key_ids)
qed

end
