(* ===== verification/KernIo.thy ===== *)
theory KernIo
  imports Dump
begin

text \<open>
  \<^verbatim>\<open>kern/io.c\<close> and \<^verbatim>\<open>kern/format.c\<close>: the system calls of the kernel module that open, read,
  write, measure and format a block device.  The kernel's own functions are the record
  \<open>kio_sys\<close> of functions on an environment \<open>'k\<close>.  These calls keep the contract
  \<open>card_driver\<close> under which the dumps, the restore and the wipe of \<^verbatim>\<open>app/device.c\<close> are correct, if
  the register in which \<^verbatim>\<open>kGetDeviceSize\<close> leaves no result holds zero; a dump through them is shown for any value.
\<close>

section \<open>The kernel\<close>

record SceFatFormatParam =
  ff_path :: bytes
  ff_working_buffer :: bytes
  ff_bytePerCluster :: u32
  ff_fat_time :: u32
  ff_sce_fs_type :: u32

record 'k kio_sys =
  ksceKernelSetPermission :: "int \<Rightarrow> 'k \<Rightarrow> int \<times> 'k"
  ksceIoOpen :: "bytes \<Rightarrow> int \<Rightarrow> 'k \<Rightarrow> int \<times> 'k"
  ksceIoRead :: "'k rd_func"
  ksceIoWrite :: "'k wr_func"
  ksceIoLseekEnd :: "int \<Rightarrow> 'k \<Rightarrow> u64 \<times> 'k"
  ksceIoClose :: "int \<Rightarrow> 'k \<Rightarrow> 'k"
  ksceIoSync :: "bytes \<Rightarrow> 'k \<Rightarrow> int \<times> 'k"
  ksceKernelStrncpyUserToKernel :: "bytes \<Rightarrow> bytes \<Rightarrow> nat \<Rightarrow> bytes"
  ksceKernelUserMap :: "nat \<Rightarrow> 'k \<Rightarrow> int \<times> 'k"
  ksceKernelMemBlockRelease :: "int \<Rightarrow> 'k \<Rightarrow> 'k"
  enter_syscall :: "'k \<Rightarrow> 'k"
  exit_syscall :: "'k \<Rightarrow> 'k"
  ksceRtcGetCurrentClockLocalTime :: "'k \<Rightarrow> int \<times> bytes \<times> 'k"
  sceAppMgrMakeFatTime :: "bytes \<Rightarrow> u32"
  sceAppMgrExecFsFatFormat :: "SceFatFormatParam \<Rightarrow> 'k \<Rightarrow> int \<times> 'k"
  ksceKernelAllocMemBlock :: "nat \<Rightarrow> 'k \<Rightarrow> int \<times> 'k"
  ksceKernelGetMemBlockBase :: "int \<Rightarrow> 'k \<Rightarrow> int \<times> bytes \<times> 'k"
  ksceKernelFreeMemBlock :: "int \<Rightarrow> 'k \<Rightarrow> 'k"

definition SCE_O_APPEND :: int where "SCE_O_APPEND = 0x0100"

section \<open>Device access\<close>

text \<open>
  \<^verbatim>\<open>permission & (flags != 0)\<close>: the comparison binds stronger than the conjunction, so the
  test looks at bit zero of the permission only.
\<close>

definition k_write_test :: "int \<Rightarrow> bool" where
  "k_write_test permission \<longleftrightarrow>
     permission AND of_bool (SCE_O_WRONLY OR SCE_O_WRONLY OR SCE_O_APPEND OR SCE_O_TRUNC OR SCE_O_CREAT \<noteq> 0) \<noteq> 0"

definition k_open_device :: "'k kio_sys \<Rightarrow> bytes \<Rightarrow> int \<Rightarrow> 'k \<Rightarrow> int \<times> 'k" where
  "k_open_device sys device permission k =
     (if k_write_test permission \<and> \<not> device_whitelisted device then (DEVICE_WHITELIST_FAILED, k)
      else
        (let (prev, k) = ksceKernelSetPermission sys 0x80 k;
             (fd, k) = ksceIoOpen sys device permission k;
             (_, k) = ksceKernelSetPermission sys prev k
         in (fd, k)))"

definition k_read_device :: "'k kio_sys \<Rightarrow> 'k rd_func" where
  "k_read_device sys device_handle data k =
     (let (prev, k) = ksceKernelSetPermission sys 0x80 k;
          (res, data, k) = ksceIoRead sys device_handle data k;
          (_, k) = ksceKernelSetPermission sys prev k
      in (res, data, k))"

definition k_write_device :: "'k kio_sys \<Rightarrow> 'k wr_func" where
  "k_write_device sys device_handle data k =
     (let (prev, k) = ksceKernelSetPermission sys 0x80 k;
          (res, k) = ksceIoWrite sys device_handle data k;
          (_, k) = ksceKernelSetPermission sys prev k
      in (res, k))"

definition k_close_device :: "'k kio_sys \<Rightarrow> int \<Rightarrow> 'k \<Rightarrow> int \<times> 'k" where
  "k_close_device sys device_handle k =
     (let (prev, k) = ksceKernelSetPermission sys 0x80 k;
          k = ksceIoClose sys device_handle k;
          (_, k) = ksceKernelSetPermission sys prev k
      in (0, k))"

text \<open>When the device cannot be opened the function returns with the raised permission.\<close>

definition k_get_device_size :: "'k kio_sys \<Rightarrow> bytes \<Rightarrow> u64 option \<Rightarrow> 'k \<Rightarrow> int \<times> u64 option \<times> 'k" where
  "k_get_device_size sys device size_p k =
     (if size_p = None then (-1, None, k)
      else
        (let (prev, k) = ksceKernelSetPermission sys 0x80 k;
             (fd, k) = ksceIoOpen sys device (SCE_O_RDONLY OR SCE_O_RDLOCK) k
         in if fd < 0 then (fd, size_p, k)
            else
              (let (n, k) = ksceIoLseekEnd sys fd k;
                   k = ksceIoClose sys fd k;
                   (_, k) = ksceKernelSetPermission sys prev k
               in (0, Some n, k))))"

section \<open>System calls\<close>

text \<open>The static buffers of the calls are state; the user's memory is mapped while it is used.\<close>

record kio_state =
  open_k_device :: bytes
  size_k_device :: bytes
  size_k_size :: u64
  format_k_device :: bytes

definition kOpenDevice :: "'k kio_sys \<Rightarrow> bytes \<Rightarrow> int \<Rightarrow> kio_state \<times> 'k \<Rightarrow> int \<times> kio_state \<times> 'k" where
  "kOpenDevice sys device permission = (\<lambda>(s, k).
     (let s = s\<lparr>open_k_device := ksceKernelStrncpyUserToKernel sys (open_k_device s) device MAX_PATH\<rparr>;
          (fd, k) = k_open_device sys (open_k_device s) permission k
      in (fd, s, k)))"

definition kWriteDevice :: "'k kio_sys \<Rightarrow> int \<Rightarrow> bytes \<Rightarrow> kio_state \<times> 'k \<Rightarrow> int \<times> kio_state \<times> 'k" where
  "kWriteDevice sys device_handle data = (\<lambda>(s, k).
     (let (uid, k) = ksceKernelUserMap sys (length data) k
      in if uid < 0 then (uid, s, k)
         else
           (let (res, k) = k_write_device sys device_handle data k;
                k = ksceKernelMemBlockRelease sys uid k
            in (res, s, k))))"

definition kReadDevice :: "'k kio_sys \<Rightarrow> int \<Rightarrow> bytes \<Rightarrow> kio_state \<times> 'k \<Rightarrow> int \<times> bytes \<times> kio_state \<times> 'k" where
  "kReadDevice sys device_handle data = (\<lambda>(s, k).
     (let (uid, k) = ksceKernelUserMap sys (length data) k
      in if uid < 0 then (uid, data, s, k)
         else
           (let (res, data, k) = k_read_device sys device_handle data k;
                k = ksceKernelMemBlockRelease sys uid k
            in (res, data, s, k))))"

definition kCloseDevice :: "'k kio_sys \<Rightarrow> int \<Rightarrow> kio_state \<times> 'k \<Rightarrow> int \<times> kio_state \<times> 'k" where
  "kCloseDevice sys device_handle = (\<lambda>(s, k).
     (let (res, k) = k_close_device sys device_handle k in (res, s, k)))"

text \<open>
  The function ends without a return statement when it succeeds; \<open>r0\<close> is the value its
  caller then finds in the result register.
\<close>

definition kGetDeviceSize ::
  "int \<Rightarrow> 'k kio_sys \<Rightarrow> bytes \<Rightarrow> u64 \<Rightarrow> kio_state \<times> 'k \<Rightarrow> int \<times> u64 \<times> kio_state \<times> 'k" where
  "kGetDeviceSize r0 sys device device_size = (\<lambda>(s, k).
     (let s = s\<lparr>size_k_device := ksceKernelStrncpyUserToKernel sys (size_k_device s) device MAX_PATH\<rparr>;
          (res, n, k) = k_get_device_size sys (size_k_device s) (Some (size_k_size s)) k;
          s = s\<lparr>size_k_size := the n\<rparr>
      in if res < 0 then (res, device_size, s, k) else (r0, size_k_size s, s, k)))"

section \<open>Formatting\<close>

definition SCE_FAT_FORMAT_TYPE_FAT12 :: u32 where "SCE_FAT_FORMAT_TYPE_FAT12 = 1"
definition SCE_FAT_FORMAT_TYPE_FAT16 :: u32 where "SCE_FAT_FORMAT_TYPE_FAT16 = 2"
definition SCE_FAT_FORMAT_TYPE_FAT32 :: u32 where "SCE_FAT_FORMAT_TYPE_FAT32 = 3"
definition SCE_FAT_FORMAT_TYPE_EXFAT :: u32 where "SCE_FAT_FORMAT_TYPE_EXFAT = 4"

definition default_cluster :: "u32 \<Rightarrow> u32 \<Rightarrow> u32" where
  "default_cluster bytePerCluster sce_fs_type =
     (if bytePerCluster = 0 then
        (if sce_fs_type = SCE_FAT_FORMAT_TYPE_EXFAT then 0x20000
         else if sce_fs_type = SCE_FAT_FORMAT_TYPE_FAT32 then 0x8000
         else if sce_fs_type = SCE_FAT_FORMAT_TYPE_FAT16 \<or> sce_fs_type = SCE_FAT_FORMAT_TYPE_FAT12 then 0x1000
         else bytePerCluster)
      else bytePerCluster)"

definition FatfsExecFormatInternal :: "'k kio_sys \<Rightarrow> bytes \<Rightarrow> bytes \<Rightarrow> u32 \<Rightarrow> u32 \<Rightarrow> 'k \<Rightarrow> int \<times> 'k" where
  "FatfsExecFormatInternal sys s working_buffer bytePerCluster sce_fs_type k =
     (let (res, k) = ksceKernelSetPermission sys 0x80 k
      in if res < 0 then (res, k)
         else
           (let old = res;
                (res, time, k) = ksceRtcGetCurrentClockLocalTime sys k;
                (res, k) =
                  (if res < 0 then (res, k)
                   else
                     (let param = \<lparr>ff_path = s, ff_working_buffer = zeros (length working_buffer),
                            ff_bytePerCluster = default_cluster bytePerCluster sce_fs_type,
                            ff_fat_time = sceAppMgrMakeFatTime sys time, ff_sce_fs_type = sce_fs_type\<rparr>;
                          (res, k) = sceAppMgrExecFsFatFormat sys param k
                      in if res \<ge> 0 then ksceIoSync sys s k else (res, k)));
                (_, k) = ksceKernelSetPermission sys old k
            in (res, k)))"

definition FatfsExecFormat :: "'k kio_sys \<Rightarrow> bytes \<Rightarrow> u32 \<Rightarrow> u32 \<Rightarrow> 'k \<Rightarrow> int \<times> 'k" where
  "FatfsExecFormat sys s bytePerCluster sce_fs_type k =
     (let (res, k) = ksceKernelAllocMemBlock sys 0x40000 k
      in if res < 0 then (res, k)
         else
           (let memid = res;
                (res, base, k) = ksceKernelGetMemBlockBase sys memid k;
                (res, k) = (if res \<ge> 0 then FatfsExecFormatInternal sys s base bytePerCluster sce_fs_type k
                            else (res, k));
                k = ksceKernelFreeMemBlock sys memid k
            in (res, k)))"

text \<open>The whitelist macro returns from the middle of the system call.\<close>

definition kFormatDevice :: "'k kio_sys \<Rightarrow> bytes \<Rightarrow> kio_state \<times> 'k \<Rightarrow> int \<times> kio_state \<times> 'k" where
  "kFormatDevice sys device = (\<lambda>(s, k).
     (let k = enter_syscall sys k;
          s = s\<lparr>format_k_device := ksceKernelStrncpyUserToKernel sys (format_k_device s) device MAX_PATH\<rparr>
      in if \<not> device_whitelisted (format_k_device s) then (DEVICE_WHITELIST_FAILED, s, k)
         else
           (let (res, k) = FatfsExecFormat sys (format_k_device s) 0x8000 SCE_FAT_FORMAT_TYPE_EXFAT k;
                k = exit_syscall sys k
            in (res, s, k))))"

section \<open>The whitelist\<close>

lemma write_flags_nonzero:
  "SCE_O_WRONLY OR SCE_O_WRONLY OR SCE_O_APPEND OR SCE_O_TRUNC OR SCE_O_CREAT \<noteq> 0"
  by (simp add: SCE_O_WRONLY_def SCE_O_APPEND_def SCE_O_TRUNC_def SCE_O_CREAT_def)

lemma k_write_test_odd: "k_write_test permission \<longleftrightarrow> odd permission"
  by (simp only: k_write_test_def write_flags_nonzero not_False_eq_True of_bool_eq and_one_eq) presburger

text \<open>the whitelist of the kernel module guards the opposite of what its comment says: a device
  that is not a game card is refused when it is opened with an odd permission, as for reading,
  and is opened, without any check, with every even permission, as for writing.\<close>

theorem kernel_whitelist_guards_odd_permissions:
  assumes "\<not> device_whitelisted (ksceKernelStrncpyUserToKernel sys (open_k_device s) device MAX_PATH)"
  shows "(odd permission \<longrightarrow> (\<exists>s'. kOpenDevice sys device permission (s, k) = (DEVICE_WHITELIST_FAILED, s', k))) \<and>
    (even permission \<longrightarrow> fst (kOpenDevice sys device permission (s, k)) =
      fst (ksceIoOpen sys (ksceKernelStrncpyUserToKernel sys (open_k_device s) device MAX_PATH) permission
        (snd (ksceKernelSetPermission sys 0x80 k)))) \<and>
    odd (SCE_O_RDONLY + SCE_O_RDLOCK) \<and> even (SCE_O_WRONLY + SCE_O_WRLOCK)"
  using assms
  by (simp add: kOpenDevice_def k_open_device_def k_write_test_odd Let_def case_prod_unfold SCE_O_RDONLY_def
      SCE_O_RDLOCK_def SCE_O_WRONLY_def SCE_O_WRLOCK_def)

section \<open>The permission of the calling thread\<close>

text \<open>\<open>perm k\<close> is the permission of the thread; only the function that sets it changes it.\<close>

definition permission_laws :: "'k kio_sys \<Rightarrow> ('k \<Rightarrow> int) \<Rightarrow> bool" where
  "permission_laws sys perm \<longleftrightarrow>
     (\<forall>p k. fst (ksceKernelSetPermission sys p k) = perm k \<and> perm (snd (ksceKernelSetPermission sys p k)) = p) \<and>
     (\<forall>d f k. perm (snd (ksceIoOpen sys d f k)) = perm k) \<and>
     (\<forall>fd b k. perm (snd (snd (ksceIoRead sys fd b k))) = perm k) \<and>
     (\<forall>fd b k. perm (snd (ksceIoWrite sys fd b k)) = perm k) \<and>
     (\<forall>fd k. perm (snd (ksceIoLseekEnd sys fd k)) = perm k) \<and>
     (\<forall>fd k. perm (ksceIoClose sys fd k) = perm k) \<and>
     (\<forall>d k. perm (snd (ksceIoSync sys d k)) = perm k) \<and>
     (\<forall>n k. perm (snd (ksceKernelUserMap sys n k)) = perm k) \<and>
     (\<forall>u k. perm (ksceKernelMemBlockRelease sys u k) = perm k) \<and>
     (\<forall>k. perm (enter_syscall sys k) = perm k) \<and> (\<forall>k. perm (exit_syscall sys k) = perm k) \<and>
     (\<forall>k. perm (snd (snd (ksceRtcGetCurrentClockLocalTime sys k))) = perm k) \<and>
     (\<forall>q k. perm (snd (sceAppMgrExecFsFatFormat sys q k)) = perm k) \<and>
     (\<forall>n k. perm (snd (ksceKernelAllocMemBlock sys n k)) = perm k) \<and>
     (\<forall>u k. perm (snd (snd (ksceKernelGetMemBlockBase sys u k))) = perm k) \<and>
     (\<forall>u k. perm (ksceKernelFreeMemBlock sys u k) = perm k)"

lemma permission_facts:
  assumes "permission_laws sys perm"
  shows "fst (ksceKernelSetPermission sys p k) = perm k" "perm (snd (ksceKernelSetPermission sys p k)) = p"
    "perm (snd (ksceIoOpen sys d f k)) = perm k" "perm (snd (snd (ksceIoRead sys fd b k))) = perm k"
    "perm (snd (ksceIoWrite sys fd b k)) = perm k" "perm (snd (ksceIoLseekEnd sys fd k)) = perm k"
    "perm (ksceIoClose sys fd k) = perm k" "perm (snd (ksceIoSync sys d k)) = perm k"
    "perm (snd (ksceKernelUserMap sys n k)) = perm k" "perm (ksceKernelMemBlockRelease sys u k) = perm k"
    "perm (enter_syscall sys k) = perm k" "perm (exit_syscall sys k) = perm k"
    "perm (snd (snd (ksceRtcGetCurrentClockLocalTime sys k))) = perm k"
    "perm (snd (sceAppMgrExecFsFatFormat sys q k)) = perm k" "perm (snd (ksceKernelAllocMemBlock sys n k)) = perm k"
    "perm (snd (snd (ksceKernelGetMemBlockBase sys u k))) = perm k" "perm (ksceKernelFreeMemBlock sys u k) = perm k"
  using assms by (simp_all add: permission_laws_def)

lemma format_permission:
  assumes "permission_laws sys perm"
  shows "0 \<le> perm k \<Longrightarrow> perm (snd (FatfsExecFormatInternal sys s w c t k)) = perm k"
    and "0 \<le> perm k \<Longrightarrow> perm (snd (FatfsExecFormat sys s c t k)) = perm k"
  using permission_facts [OF assms]
  by (simp_all add: FatfsExecFormatInternal_def FatfsExecFormat_def Let_def case_prod_unfold)

text \<open>every system call gives the thread its own permission back, whatever the kernel answers,
  except the one that measures a device: when the device cannot be opened it returns with the
  raised permission.\<close>

theorem permission_given_back:
  assumes "permission_laws sys perm" "0 \<le> perm k"
  shows "perm (snd (snd (kOpenDevice sys device permission (s, k)))) = perm k \<and>
    perm (snd (snd (snd (kReadDevice sys fd data (s, k))))) = perm k \<and>
    perm (snd (snd (kWriteDevice sys fd data (s, k)))) = perm k \<and>
    perm (snd (snd (kCloseDevice sys fd (s, k)))) = perm k \<and>
    perm (snd (snd (kFormatDevice sys device (s, k)))) = perm k \<and>
    perm (snd (snd (snd (kGetDeviceSize r0 sys device old (s, k))))) =
      (if fst (ksceIoOpen sys (ksceKernelStrncpyUserToKernel sys (size_k_device s) device MAX_PATH)
                (SCE_O_RDONLY OR SCE_O_RDLOCK) (snd (ksceKernelSetPermission sys 0x80 k))) < 0
       then 0x80 else perm k)"
  using permission_facts [OF assms(1)] format_permission [OF assms(1)] assms(2)
  by (simp add: kOpenDevice_def k_open_device_def kReadDevice_def k_read_device_def kWriteDevice_def
      k_write_device_def kCloseDevice_def k_close_device_def kFormatDevice_def kGetDeviceSize_def
      k_get_device_size_def Let_def case_prod_unfold)

text \<open>formatting a device that is not a game card is refused before anything is formatted, but
  the refusal leaves the system call without its exit; otherwise exit follows enter.\<close>

theorem format_refusal_skips_exit:
  "kFormatDevice sys device (s, k) =
     (let kdev = ksceKernelStrncpyUserToKernel sys (format_k_device s) device MAX_PATH; k1 = enter_syscall sys k
      in if device_whitelisted kdev
         then (fst (FatfsExecFormat sys kdev 0x8000 SCE_FAT_FORMAT_TYPE_EXFAT k1), s\<lparr>format_k_device := kdev\<rparr>,
               exit_syscall sys (snd (FatfsExecFormat sys kdev 0x8000 SCE_FAT_FORMAT_TYPE_EXFAT k1)))
         else (DEVICE_WHITELIST_FAILED, s\<lparr>format_k_device := kdev\<rparr>, k1))"
  by (simp add: kFormatDevice_def Let_def case_prod_unfold)

section \<open>The system calls as the driver of the application\<close>

text \<open>The record of functions the application uses, with the calls of this module in it.\<close>

definition kernel_calls :: "int \<Rightarrow> 'k kio_sys \<Rightarrow> (kio_state \<times> 'k) dev_sys \<Rightarrow> (kio_state \<times> 'k) dev_sys" where
  "kernel_calls r0 ksys base = base\<lparr>
     dev_sys.kOpenDevice := kOpenDevice ksys,
     dev_sys.kReadDevice := kReadDevice ksys,
     dev_sys.kWriteDevice := kWriteDevice ksys,
     dev_sys.kCloseDevice := (\<lambda>fd e. snd (kCloseDevice ksys fd e)),
     dev_sys.kGetDeviceSize := kGetDeviceSize r0 ksys\<rparr>"

text \<open>
  The documented behaviour of the kernel on the card: its driver opens it as \<open>dfd\<close> under the
  name \<open>kdev\<close>, the copy of the user's \<open>dev\<close>; mapping memory succeeds; permissions and
  mappings do not concern the card.
\<close>

definition kernel_block_driver :: "'k kio_sys \<Rightarrow> bytes \<Rightarrow> bytes \<Rightarrow> int \<Rightarrow> ('k \<Rightarrow> io_view) \<Rightarrow> bool" where
  "kernel_block_driver sys dev kdev dfd view \<longleftrightarrow>
     0 \<le> dfd \<and> (\<forall>old. ksceKernelStrncpyUserToKernel sys old dev MAX_PATH = kdev) \<and>
     (\<forall>p k. view (snd (ksceKernelSetPermission sys p k)) = view k) \<and>
     (\<forall>n k. 0 \<le> fst (ksceKernelUserMap sys n k) \<and> view (snd (ksceKernelUserMap sys n k)) = view k) \<and>
     (\<forall>u k. view (ksceKernelMemBlockRelease sys u k) = view k) \<and>
     (\<forall>flags k. fst (ksceIoOpen sys kdev flags k) = dfd \<and>
        view (snd (ksceIoOpen sys kdev flags k)) = (view k)\<lparr>sec_pos := 0\<rparr>) \<and>
     (\<forall>buf k. let v = view k; n = min (length buf) (length (sectors v) - sec_pos v) in
        fst (ksceIoRead sys dfd buf k) = int n \<and>
        fst (snd (ksceIoRead sys dfd buf k)) = get_field (sec_pos v, n) (sectors v) @ drop n buf \<and>
        view (snd (snd (ksceIoRead sys dfd buf k))) = v\<lparr>sec_pos := sec_pos v + n\<rparr>) \<and>
     (\<forall>data k. let v = view k; n = min (length data) (length (sectors v) - sec_pos v) in
        fst (ksceIoWrite sys dfd data k) = int n \<and>
        view (snd (ksceIoWrite sys dfd data k)) =
          v\<lparr>sectors := put_field (sec_pos v, n) (take n data) (sectors v), sec_pos := sec_pos v + n\<rparr>) \<and>
     (\<forall>k. fst (ksceIoLseekEnd sys dfd k) = of_nat (length (sectors (view k))) \<and>
        view (snd (ksceIoLseekEnd sys dfd k)) = (view k)\<lparr>sec_pos := length (sectors (view k))\<rparr>) \<and>
     (\<forall>k. view (ksceIoClose sys dfd k) = view k)"

text \<open>Over such a kernel, for a device on the whitelist, the system calls satisfy the contract of
  the driver that the dump, the restore and the wipe of the application are proved against, if
  the call that measures the device finds zero in the register.\<close>

lemma kernel_calls_are_a_driver:
  assumes drv: "kernel_block_driver ksys dev kdev dfd view" and white: "device_whitelisted kdev"
    and started: "\<And>e. is_module_started base KMODULE_NAME e" and r0: "r0 = 0"
    and secret: "\<And>buf e. fst (kGetCartSecret base buf e) = cart_secret (view (snd e)) \<and>
      view (snd (snd (kGetCartSecret base buf e))) = view (snd e)"
    and hash: "\<And>buf e. fst (kGetCartHash base buf e) = cart_hash (view (snd e)) \<and>
      view (snd (snd (kGetCartHash base buf e))) = view (snd e)"
  shows "card_driver (kernel_calls r0 ksys base) dev dfd (\<lambda>e. view (snd e))"
proof -
  note laws = drv [unfolded kernel_block_driver_def Let_def]
  let ?sys = "kernel_calls r0 ksys base"
  have "\<exists>e'. dev_sys.kOpenDevice ?sys dev flags e = (dfd, e') \<and> view (snd e') = (view (snd e))\<lparr>sec_pos := 0\<rparr>" for flags e
    using laws white by (cases e) (simp add: kernel_calls_def kOpenDevice_def k_open_device_def Let_def case_prod_unfold)
  moreover have "\<exists>e'. let v = view (snd e); n = min (length buf) (length (sectors v) - sec_pos v) in
      dev_sys.kReadDevice ?sys dfd buf e = (int n, get_field (sec_pos v, n) (sectors v) @ drop n buf, e') \<and>
      view (snd e') = v\<lparr>sec_pos := sec_pos v + n\<rparr>" for buf e
    using laws by (cases e) (simp add: kernel_calls_def kReadDevice_def k_read_device_def Let_def case_prod_unfold not_less)
  moreover have "\<exists>e'. let v = view (snd e); n = min (length data) (length (sectors v) - sec_pos v) in
      dev_sys.kWriteDevice ?sys dfd data e = (int n, e') \<and>
      view (snd e') = v\<lparr>sectors := put_field (sec_pos v, n) (take n data) (sectors v), sec_pos := sec_pos v + n\<rparr>" for data e
    using laws by (cases e) (simp add: kernel_calls_def kWriteDevice_def k_write_device_def Let_def case_prod_unfold not_less)
  moreover have "view (snd (dev_sys.kCloseDevice ?sys dfd e)) = view (snd e)" for e
    using laws by (cases e) (simp add: kernel_calls_def kCloseDevice_def k_close_device_def Let_def case_prod_unfold)
  moreover have "\<exists>e' p. dev_sys.kGetDeviceSize ?sys dev old e = (0, of_nat (length (sectors (view (snd e)))), e') \<and>
      view (snd e') = (view (snd e))\<lparr>sec_pos := p\<rparr>" for old e
    using laws r0
    by (cases e; intro exI [of _ "snd (snd (kGetDeviceSize r0 ksys dev old e))"] exI [of _ "length (sectors (view (snd e)))"])
       (simp add: kernel_calls_def kGetDeviceSize_def k_get_device_size_def Let_def case_prod_unfold)
  moreover have "is_module_started ?sys KMODULE_NAME e" "0 \<le> dfd" for e
    using started laws by (simp_all add: kernel_calls_def)
  moreover have "\<exists>e'. kGetCartSecret ?sys buf e = (cart_secret (view (snd e)), e') \<and> view (snd e') = view (snd e)"
      "\<exists>e'. kGetCartHash ?sys buf e = (cart_hash (view (snd e)), e') \<and> view (snd e') = view (snd e)" for buf e
    using secret [of buf e] hash [of buf e] by (auto simp: kernel_calls_def prod_eq_iff)
  ultimately show ?thesis unfolding card_driver_def by blast
qed

section \<open>A dump through the kernel\<close>

text \<open>The register decides what the application makes of the size, and nothing else.\<close>

lemma kernel_calls_select [simp]:
  "is_module_started (kernel_calls r ksys base) = is_module_started base"
  "dev_sys.kOpenDevice (kernel_calls r ksys base) = kOpenDevice ksys"
  "dev_sys.kReadDevice (kernel_calls r ksys base) = kReadDevice ksys"
  "dev_sys.kGetDeviceSize (kernel_calls r ksys base) = kGetDeviceSize r ksys"
  "dev_sys.kCloseDevice (kernel_calls r ksys base) = (\<lambda>fd e. snd (kCloseDevice ksys fd e))"
  by (simp_all add: kernel_calls_def)

lemma size_register:
  "0 \<le> fst (kGetDeviceSize 0 ksys dev old e) \<Longrightarrow>
   kGetDeviceSize r ksys dev old e = (r, snd (kGetDeviceSize 0 ksys dev old e))"
  by (auto simp: kGetDeviceSize_def Let_def case_prod_unfold)

lemma size_call_unused [simp]:
  "write_data (sys\<lparr>dev_sys.kGetDeviceSize := x\<rparr>) = write_data sys"
  "create_header (sys\<lparr>dev_sys.kGetDeviceSize := x\<rparr>) = create_header sys"
  "finalize_psv_header (sys\<lparr>dev_sys.kGetDeviceSize := x\<rparr>) = finalize_psv_header sys"
  by (simp_all add: fun_eq_iff write_data_def create_header_def create_psv_header_def create_vci_header_def
      finalize_psv_header_def Let_def case_prod_unfold split: option.split BackupFormat.split)

lemma dump_size_call_unused:
  "dump_device_phys (sys\<lparr>dev_sys.kGetDeviceSize := x\<rparr>) st buf e = dump_device_phys sys st buf e"
proof -
  have "dump_body (sys\<lparr>dev_sys.kGetDeviceSize := x\<rparr>) = dump_body sys"
    "dump_phys_exit (sys\<lparr>dev_sys.kGetDeviceSize := x\<rparr>) = dump_phys_exit sys"
    by (simp_all add: fun_eq_iff dump_body_def dump_phys_exit_def Let_def cong: if_cong)
  then show ?thesis by (simp add: dump_device_phys_def Let_def case_prod_unfold cong: if_cong)
qed

lemma kernel_calls_register:
  "kernel_calls r ksys base = (kernel_calls 0 ksys base)\<lparr>dev_sys.kGetDeviceSize := kGetDeviceSize r ksys\<rparr>"
  by (simp add: kernel_calls_def)

text \<open>With another value in the register the setup ends with that value, or goes the same way.\<close>

lemma device_size_register:
  assumes drv: "card_driver (kernel_calls 0 ksys base) dev dfd view"
  shows "get_device_size (kernel_calls r ksys base) dev (Some n) e =
    (r, snd (get_device_size (kernel_calls 0 ksys base) dev (Some n) e))"
    and "fst (get_device_size (kernel_calls 0 ksys base) dev (Some n) e) = 0"
proof -
  have ok: "fst (kGetDeviceSize 0 ksys dev n e) = 0"
    using card_driver_facts(5) [OF drv, of n e] by auto
  have started: "is_module_started base KMODULE_NAME e" using card_driver_facts(2) [OF drv, of e] by simp
  show "get_device_size (kernel_calls r ksys base) dev (Some n) e =
      (r, snd (get_device_size (kernel_calls 0 ksys base) dev (Some n) e))"
    "fst (get_device_size (kernel_calls 0 ksys base) dev (Some n) e) = 0"
    using ok started size_register [of ksys dev n e r] by (simp_all add: get_device_size_def Let_def case_prod_unfold)
qed

lemma setup_register:
  assumes drv: "card_driver (kernel_calls 0 ksys base) dev dfd view" and stk: "length stk = SECTOR_SIZE"
  shows "0 \<le> r \<Longrightarrow> \<exists>q \<ge> 0. setup_state stk (kernel_calls r ksys base) dev path fmt keys net cb e =
      (q, snd (setup_state stk (kernel_calls 0 ksys base) dev path fmt keys net cb e))"
    and "r < 0 \<Longrightarrow> \<exists>st e'. setup_state stk (kernel_calls r ksys base) dev path fmt keys net cb e = (r, st, e') \<and>
      e' = snd (snd (get_device_size (kernel_calls 0 ksys base) dev (Some 0) e))"
proof -
  let ?z = "kernel_calls 0 ksys base" and ?s = "kernel_calls r ksys base"
  note d = device_size_register(1) [OF drv, of r] device_size_register(2) [OF drv]
  show "\<exists>st e'. setup_state stk ?s dev path fmt keys net cb e = (r, st, e') \<and>
      e' = snd (snd (get_device_size ?z dev (Some 0) e))" if "r < 0"
    using that d(1) by (simp add: setup_state_def cleared_state_def Let_def case_prod_unfold)
  have t: "fst (get_trimmed_size stk ?z dev (Some n) e) = 0" for n e
    using get_trimmed_size_ok [OF drv stk, of n e] by (metis fst_conv)
  have f: "fst (get_effective_size stk ?z dev fmt (Some n) e) = 0" for n e
    using get_effective_size_ok [OF drv stk, of fmt n e] by (metis fst_conv)
  show "\<exists>q \<ge> 0. setup_state stk ?s dev path fmt keys net cb e = (q, snd (setup_state stk ?z dev path fmt keys net cb e))"
    if r: "0 \<le> r"
  proof -
    have t': "snd (get_trimmed_size stk ?s dev (Some n) e) = snd (get_trimmed_size stk ?z dev (Some n) e)"
      "\<not> fst (get_trimmed_size stk ?s dev (Some n) e) < 0" for n e
      using d r t [of n e] by (auto simp: get_trimmed_size_def Let_def case_prod_unfold)
    have f': "snd (get_effective_size stk ?s dev fmt (Some n) e) = snd (get_effective_size stk ?z dev fmt (Some n) e)"
      "\<not> fst (get_effective_size stk ?s dev fmt (Some n) e) < 0" for n e
      using d(1) r t' by (cases fmt; simp add: get_effective_size_def get_header_size_def Let_def case_prod_unfold)+
    have h: "fst (get_header_size fmt (Some n)) = 0" for n by (cases fmt) (simp_all add: get_header_size_def)
    show ?thesis
      using r t t' f f' d h by (simp add: setup_state_def Let_def case_prod_unfold) (meson not_less)
  qed
qed

text \<open>C21: A dump to a file in an untrimmed format through the whole stack: the application on the
  system calls of the kernel module, these on a kernel whose own functions answer as
  documented.  \<^verbatim>\<open>kGetDeviceSize\<close> ends without a return statement, so its caller finds some
  value \<open>r0\<close>: if that is not negative the dump succeeds and the file is the header of the
  format and every byte of the card; if it is negative the dump fails with that value as its
  error, and no file has been touched.  The card is as it was either way.\<close>

theorem dump_through_the_kernel:
  assumes drv: "kernel_block_driver ksys dev kdev dfd view" and white: "device_whitelisted kdev"
    and started: "\<And>e. is_module_started base KMODULE_NAME e"
    and secret: "\<And>buf e. fst (kGetCartSecret base buf e) = cart_secret (view (snd e)) \<and>
      view (snd (snd (kGetCartSecret base buf e))) = view (snd e)"
    and hash: "\<And>buf e. fst (kGetCartHash base buf e) = cart_hash (view (snd e)) \<and>
      view (snd (snd (kGetCartHash base buf e))) = view (snd e)"
    and io: "image_file base path ffd (\<lambda>e. view (snd e))" and cb: "unobtrusive cb (\<lambda>e. view (snd e))"
    and stk: "length stk = SECTOR_SIZE" and buf: "length buf = DEVICE_DUMP_BUFFER_SIZE"
    and ready: "header_ready fmt keys (view k)" and trim: "\<not> FMT_IS_TRIM fmt"
    and card: "sectors (view k) \<noteq> []" "length (sectors (view k)) + DEVICE_DUMP_BUFFER_SIZE \<le> 2 ^ 64"
  shows "\<exists>res buf' s' k'. dump_device stk (kernel_calls r0 ksys base) dev path fmt (Some keys) None cb buf (s, k) =
      Some (res, buf', s', k') \<and> sectors (view k') = sectors (view k) \<and>
    (if 0 \<le> r0
     then res = 0 \<and> img (view k') = Some (image_header fmt keys (view k) (fips_sha256 (sectors (view k))) @ sectors (view k))
     else res = r0 \<and> img (view k') = img (view k))"
proof -
  let ?z = "kernel_calls 0 ksys base" and ?s = "kernel_calls r0 ksys base" and ?v = "\<lambda>e. view (snd e)"
  have drv0: "card_driver ?z dev dfd ?v"
    by (rule kernel_calls_are_a_driver [OF drv white started refl secret hash])
  have io0: "image_file ?z path ffd ?v" using io by (simp add: image_file_def kernel_calls_def)
  obtain buf' e' where run: "dump_device stk ?z dev path fmt (Some keys) None cb buf (s, k) = Some (0, buf', e')"
    "img (?v e') = Some (image_header fmt keys (view k) (fips_sha256 (sectors (view k))) @ sectors (view k))"
    "sectors (?v e') = sectors (view k)"
    using dump_to_file [OF drv0 io0 stk buf cb, of fmt keys "(s, k)"] ready card trim by auto
  show ?thesis
  proof (cases "0 \<le> r0")
    case True
    obtain p e1 where s0: "setup_state stk ?z dev path fmt (Some keys) None cb (s, k) =
        (0, started_state dev path fmt (Some keys) None cb (sectors (view k)), e1)"
      by (rule setup_state_ok [OF drv0 stk, of path fmt "Some keys" None cb "(s, k)"]) simp
    with setup_register(1) [OF drv0 stk True, of path fmt "Some keys" None cb "(s, k)"] obtain q where
      "0 \<le> q" "setup_state stk ?s dev path fmt (Some keys) None cb (s, k) =
        (q, started_state dev path fmt (Some keys) None cb (sectors (view k)), e1)" by auto
    with s0 run(1) have "dump_device stk ?s dev path fmt (Some keys) None cb buf (s, k) = Some (0, buf', e')"
      using dump_size_call_unused [where sys = ?z and x = "kGetDeviceSize r0 ksys", folded kernel_calls_register]
      by (simp add: dump_device_def started started_state_def)
    with run(2,3) True show ?thesis by (cases e') simp
  next
    case False
    then obtain st e1 where e1: "setup_state stk ?s dev path fmt (Some keys) None cb (s, k) = (r0, st, e1)"
      "e1 = snd (snd (get_device_size ?z dev (Some 0) (s, k)))"
      using setup_register(2) [OF drv0 stk, of r0 path fmt "Some keys" None cb "(s, k)"] by auto
    obtain e2 p where "get_device_size ?z dev (Some 0) (s, k) = (0, Some (of_nat (length (sectors (view k)))), e2)"
      "?v e2 = (view k)\<lparr>sec_pos := p\<rparr>" by (rule get_device_size_ok [OF drv0, of 0 "(s, k)"]) simp
    with e1 have "?v e1 = (view k)\<lparr>sec_pos := p\<rparr>" by simp
    moreover have "dump_device stk ?s dev path fmt (Some keys) None cb buf (s, k) = Some (r0, buf, e1)"
      using e1(1) False by (simp add: dump_device_def started)
    ultimately show ?thesis using False by (cases e1) simp
  qed
qed

section \<open>Witnesses\<close>

text \<open>A kernel that consists of one card and the permission of the calling thread.\<close>

definition plain_kernel :: "(io_view \<times> int) kio_sys" where
  "plain_kernel =
     \<lparr>ksceKernelSetPermission = (\<lambda>p (v, q). (q, (v, p))),
      ksceIoOpen = (\<lambda>d f (v, q). (if hd d = 0 then -7 else 1, (v\<lparr>sec_pos := 0\<rparr>, q))),
      ksceIoRead = (\<lambda>fd buf (v, q). let (n, buf') = plain_read (sectors v) (sec_pos v) buf
         in (int n, buf', (v\<lparr>sec_pos := sec_pos v + n\<rparr>, q))),
      ksceIoWrite = (\<lambda>fd data (v, q). let n = min (length data) (length (sectors v) - sec_pos v)
         in (int n, (v\<lparr>sectors := put_field (sec_pos v, n) (take n data) (sectors v), sec_pos := sec_pos v + n\<rparr>, q))),
      ksceIoLseekEnd = (\<lambda>fd (v, q). (of_nat (length (sectors v)), (v\<lparr>sec_pos := length (sectors v)\<rparr>, q))),
      ksceIoClose = (\<lambda>fd k. k),
      ksceIoSync = (\<lambda>d k. (0, k)),
      ksceKernelStrncpyUserToKernel = (\<lambda>old src n. take n src),
      ksceKernelUserMap = (\<lambda>n k. (5, k)),
      ksceKernelMemBlockRelease = (\<lambda>u k. k),
      enter_syscall = (\<lambda>k. k),
      exit_syscall = (\<lambda>k. k),
      ksceRtcGetCurrentClockLocalTime = (\<lambda>k. (0, [], k)),
      sceAppMgrMakeFatTime = (\<lambda>t. 0),
      sceAppMgrExecFsFatFormat = (\<lambda>p k. (0, k)),
      ksceKernelAllocMemBlock = (\<lambda>n k. (6, k)),
      ksceKernelGetMemBlockBase = (\<lambda>u k. (0, zeros 4, k)),
      ksceKernelFreeMemBlock = (\<lambda>u k. k)\<rparr>"

definition idle_state :: kio_state where
  "idle_state = \<lparr>open_k_device = zeros MAX_PATH, size_k_device = zeros MAX_PATH, size_k_size = 0,
     format_k_device = zeros MAX_PATH\<rparr>"

definition int_os :: bytes where "int_os = cstr ''sdstor0:int-lp-ign-os''"

lemma int_os_not_whitelisted: "\<not> device_whitelisted (take MAX_PATH int_os)"
  by (simp add: device_whitelisted_def int_os_def cstr_def numeral_eq_Suc MAX_PATH_def)

theorem kernel_whitelist_guards_odd_permissions_witness:
  "fst (kOpenDevice plain_kernel int_os (SCE_O_WRONLY + SCE_O_WRLOCK) (idle_state, plain_start, 0)) = 1 \<and>
   fst (kOpenDevice plain_kernel int_os (SCE_O_RDONLY + SCE_O_RDLOCK) (idle_state, plain_start, 0)) = DEVICE_WHITELIST_FAILED"
proof -
  have "\<not> device_whitelisted (ksceKernelStrncpyUserToKernel plain_kernel (open_k_device idle_state) int_os MAX_PATH)"
    using int_os_not_whitelisted by (simp add: plain_kernel_def)
  from kernel_whitelist_guards_odd_permissions [OF this, of "SCE_O_RDONLY + SCE_O_RDLOCK" "(plain_start, 0)"]
    kernel_whitelist_guards_odd_permissions [OF this, of "SCE_O_WRONLY + SCE_O_WRLOCK" "(plain_start, 0)"]
  show ?thesis by (auto simp: plain_kernel_def int_os_def cstr_def MAX_PATH_def)
qed

lemma plain_permission: "permission_laws plain_kernel snd"
  by (simp add: permission_laws_def plain_kernel_def Let_def case_prod_unfold)

theorem permission_given_back_witness:
  "snd (snd (snd (snd (kGetDeviceSize 0 plain_kernel [0] 0 (idle_state, plain_start, 3))))) = 0x80 \<and>
   snd (snd (snd (kOpenDevice plain_kernel int_os 2 (idle_state, plain_start, 3)))) = 3"
proof -
  have perm: "0 \<le> snd (plain_start, 3 :: int)" by simp
  from permission_given_back [OF plain_permission perm] show ?thesis
    by (auto simp: plain_kernel_def MAX_PATH_def)
qed

text \<open>The files of \<open>plain_console\<close> beside that kernel.\<close>

definition plain_base :: "(kio_state \<times> io_view \<times> int) dev_sys" where
  "plain_base =
     \<lparr>is_module_started = (\<lambda>m e. True), dev_sys.kOpenDevice = (\<lambda>d f e. (-1, e)), kReadDevice = (\<lambda>fd b e. (-1, b, e)),
      kWriteDevice = (\<lambda>fd b e. (-1, e)), kCloseDevice = (\<lambda>fd e. e), kGetDeviceSize = (\<lambda>d n e. (-1, n, e)),
      kGetCartSecret = (\<lambda>b e. (cart_secret (fst (snd e)), e)), kGetCartHash = (\<lambda>b e. (cart_hash (fst (snd e)), e)),
      sceIoOpen = (\<lambda>p f (s, v, q). let (fd, v) = sceIoOpen plain_console p f v in (fd, s, v, q)),
      sceIoRead = (\<lambda>fd b (s, v, q). let (n, b, v) = sceIoRead plain_console fd b v in (n, b, s, v, q)),
      sceIoWrite = (\<lambda>fd b (s, v, q). let (n, v) = sceIoWrite plain_console fd b v in (n, s, v, q)),
      sceIoLseek = (\<lambda>fd n (s, v, q). let (n, v) = sceIoLseek plain_console fd n v in (n, s, v, q)),
      sceIoClose = (\<lambda>fd e. e), sceIoRemove = (\<lambda>p (s, v, q). (s, sceIoRemove plain_console p v, q)),
      get_file_size = (\<lambda>p e. get_file_size plain_console p (fst (snd e))),
      make_directories_excluding_last = (\<lambda>p e. e), begin_connection = (\<lambda>i p e. (-1, e)),
      end_connection = (\<lambda>fd e. e), begin_file_send = (\<lambda>fd p n e. (-1, e)), file_send_data = (\<lambda>fd b e. (-1, e)),
      send_file_patch = (\<lambda>fd p n b e. (-1, e))\<rparr>"

lemma plain_kernel_driver: "kernel_block_driver plain_kernel gcd_entire gcd_entire 1 fst"
  by (simp add: kernel_block_driver_def plain_kernel_def plain_read_def Let_def case_prod_unfold)
     (simp add: gcd_entire_def cstr_def MAX_PATH_def)

lemma plain_base_file: "image_file plain_base p 2 (\<lambda>e. fst (snd e))"
  by (auto simp: image_file_def plain_base_def plain_console_def console_on_view_def plain_read_def Let_def case_prod_unfold
      SCE_O_RDONLY_def SCE_O_WRONLY_def SCE_O_CREAT_def SCE_O_TRUNC_def)

text \<open>The register holds seven, and then an error.\<close>

theorem dump_through_the_kernel_witness:
  "(\<exists>buf' e'. dump_device (zeros SECTOR_SIZE) (kernel_calls 7 plain_kernel plain_base) gcd_entire (cstr ''ux0:x'')
      BACKUP_FORMAT_RAW (Some []) None None (zeros DEVICE_DUMP_BUFFER_SIZE) (idle_state, plain_start, 0) =
      Some (0, buf', e') \<and> img (fst (snd e')) = Some [1, 2, 3, 4, 5]) \<and>
   (\<exists>buf' e'. dump_device (zeros SECTOR_SIZE) (kernel_calls (-9) plain_kernel plain_base) gcd_entire (cstr ''ux0:x'')
      BACKUP_FORMAT_RAW (Some []) None None (zeros DEVICE_DUMP_BUFFER_SIZE) (idle_state, plain_start, 0) =
      Some (-9, buf', e') \<and> img (fst (snd e')) = Some [6, 7])"
proof -
  have b: "is_module_started plain_base KMODULE_NAME e"
    "fst (kGetCartSecret plain_base buf e) = cart_secret (fst (snd e)) \<and> fst (snd (snd (kGetCartSecret plain_base buf e))) = fst (snd e)"
    "fst (kGetCartHash plain_base buf e) = cart_hash (fst (snd e)) \<and> fst (snd (snd (kGetCartHash plain_base buf e))) = fst (snd e)"
    for e buf by (simp_all add: plain_base_def)
  have cb: "unobtrusive None (\<lambda>e :: kio_state \<times> io_view \<times> int. fst (snd e))" by (simp add: unobtrusive_def)
  have r: "header_ready BACKUP_FORMAT_RAW [] (fst (plain_start, 0 :: int))" "\<not> FMT_IS_TRIM BACKUP_FORMAT_RAW"
    "sectors (fst (plain_start, 0 :: int)) \<noteq> []"
    "length (sectors (fst (plain_start, 0 :: int))) + DEVICE_DUMP_BUFFER_SIZE \<le> 2 ^ 64"
    using plain_sizes by (simp_all add: header_ready_def FMT_IS_PSV_def FMT_IS_VCI_def FMT_IS_TRIM_def)
  note dump = dump_through_the_kernel [OF plain_kernel_driver gcd_whitelisted b plain_base_file cb length_zeros length_zeros r,
      where path = "cstr ''ux0:x''" and s = idle_state]
  show ?thesis
    using dump [of 7] dump [of "-9"]
    by (auto simp: plain_start_def image_header_def FMT_IS_PSV_def FMT_IS_VCI_def)
qed

end
