(* ===== verification/AuthEmu.thy ===== *)
theory AuthEmu
  imports Handshake KernIo
begin

text \<open>
  \<^verbatim>\<open>kern/auth_emu.c\<close>: the kernel module's replacement of the console's card authentication.
  It runs the console side of CMD56 over the SD host controller, keeps the captured keys,
  and hands them, or digests of them, to the application.  The kernel's functions are the
  record \<open>auth_sys\<close> on an environment \<open>'e\<close>.
\<close>

section \<open>State\<close>

record 'e auth_sys =
  ksceSha1Digest :: "bytes \<Rightarrow> bytes"
  ksceSha256Digest :: "bytes \<Rightarrow> bytes"
  ksceSdifGetSdContextPartValidateMmc :: "nat \<Rightarrow> 'e \<Rightarrow> u32 \<times> 'e"
  ksceSdifInitializeMmcDevice :: "nat \<Rightarrow> u32 \<Rightarrow> 'e \<Rightarrow> int \<times> 'e"
  ksceSdifWriteCmd56 :: "u32 \<Rightarrow> bytes \<Rightarrow> 'e \<Rightarrow> int \<times> 'e"
  ksceSdifReadCmd56 :: "u32 \<Rightarrow> bytes \<Rightarrow> 'e \<Rightarrow> int \<times> bytes \<times> 'e"
  taiHookFunctionExportForKernel :: "'e \<Rightarrow> int \<times> 'e"
  taiHookReleaseForKernel :: "int \<Rightarrow> 'e \<Rightarrow> int \<times> 'e"

text \<open>The static variables of the file, and the state of the random generator it uses.\<close>

record 'e auth_state =
  vita_state :: "'e vita_cmd56_state"
  sd_ctx :: u32
  is_authenticated :: int
  authHook :: int
  au_rng :: bytes

text \<open>Zeroed memory; the two function pointers are then null and are never called.\<close>

definition zeroed_vita :: "'e vita_cmd56_state" where
  "zeroed_vita = vita_zero (\<lambda>buf e. e) (\<lambda>buf e. (buf, e))"

section \<open>Digests of the keys\<close>

definition k_get_hash :: "'e auth_sys \<Rightarrow> 'e auth_state \<Rightarrow> int \<times> bytes" where
  "k_get_hash sys s = (0, ksceSha1Digest sys (packet20_key (vita_per_cart_keys (vita_state s))))"

definition k_get_secret :: "'e auth_sys \<Rightarrow> 'e auth_state \<Rightarrow> int \<times> bytes" where
  "k_get_secret sys s = (0, ksceSha256Digest sys (keys_bytes (vita_per_cart_keys (vita_state s))))"

definition k_check_hash :: "'e auth_sys \<Rightarrow> bytes \<Rightarrow> 'e auth_state \<Rightarrow> int" where
  "k_check_hash sys secret s = impl_memcmp secret (snd (k_get_hash sys s)) 0x14"

definition k_clear_secret :: "'e auth_state \<Rightarrow> int \<times> 'e auth_state" where
  "k_clear_secret s = (0, s\<lparr>vita_state := zeroed_vita, is_authenticated := 0\<rparr>)"

section \<open>Authentication\<close>

definition k_gc_cmd56_write :: "'e auth_sys \<Rightarrow> u32 \<Rightarrow> bytes \<Rightarrow> 'e \<Rightarrow> 'e" where
  "k_gc_cmd56_write sys ctx buf e = snd (ksceSdifWriteCmd56 sys ctx buf e)"

definition k_gc_cmd56_read :: "'e auth_sys \<Rightarrow> u32 \<Rightarrow> bytes \<Rightarrow> 'e \<Rightarrow> bytes \<times> 'e" where
  "k_gc_cmd56_read sys ctx buf e = snd (ksceSdifReadCmd56 sys ctx buf e)"

definition kEnableGcEmuMgr :: "'e auth_sys \<Rightarrow> 'e auth_state \<times> 'e \<Rightarrow> int \<times> 'e auth_state \<times> 'e" where
  "kEnableGcEmuMgr sys = (\<lambda>(s, e).
     (let (_, s) = k_clear_secret s;
          (s, e) = (if authHook s \<le> 0
                    then (let (hook, e) = taiHookFunctionExportForKernel sys e in (s\<lparr>authHook := hook\<rparr>, e))
                    else (s, e))
      in (0, s, e)))"

definition kDisableGcEmuMgr :: "'e auth_sys \<Rightarrow> 'e auth_state \<times> 'e \<Rightarrow> int \<times> 'e auth_state \<times> 'e" where
  "kDisableGcEmuMgr sys = (\<lambda>(s, e).
     (if authHook s \<ge> 0 then
        (let (res, e) = taiHookReleaseForKernel sys (authHook s) e
         in (res, (if res \<ge> 0 then s\<lparr>authHook := -1\<rparr> else s), e))
      else (-1, s, e)))"

text \<open>
  The session: \<open>stk\<close> is uninitialised stack of the run, and prototype cards are "allowed"
  by a write into the state after its initialisation.
\<close>

definition k_run_session :: "bytes \<Rightarrow> 'e auth_sys \<Rightarrow> 'e auth_state \<Rightarrow> 'e \<Rightarrow> int \<times> 'e auth_state \<times> 'e" where
  "k_run_session stk sys s e =
     (let init = vita_cmd56_init (Some (vita_state s)) (k_gc_cmd56_write sys (sd_ctx s))
            (k_gc_cmd56_read sys (sd_ctx s));
          v = (the init)\<lparr>vita_allow_prototype_keys := True\<rparr>;
          (ret, v, rng, e) = vita_cmd56_run stk (Some v) (au_rng s) e;
          s = s\<lparr>vita_state := the v, au_rng := rng\<rparr>
      in if ret = GC_AUTH_OK then
           (let s = s\<lparr>is_authenticated := 1\<rparr>;
                (_, s, e) = kDisableGcEmuMgr sys (s, e)
            in (0, s, e))
         else (let (_, s) = k_clear_secret s in (-1, s, e)))"

text \<open>A device that is initialised here leaves the context null: it is not read again.\<close>

definition k_run_authentication ::
  "bytes \<Rightarrow> 'e auth_sys \<Rightarrow> u16 \<Rightarrow> 'e auth_state \<times> 'e \<Rightarrow> int \<times> 'e auth_state \<times> 'e" where
  "k_run_authentication stk sys key_id = (\<lambda>(s, e).
     (let (_, s) = k_clear_secret s;
          (ctx, e) = ksceSdifGetSdContextPartValidateMmc sys 1 e;
          s = s\<lparr>sd_ctx := ctx\<rparr>;
          (res, e) = (if sd_ctx s = 0 then ksceSdifInitializeMmcDevice sys 1 (sd_ctx s) e else (0, e))
      in if res \<noteq> 0 then (res, s, e) else k_run_session stk sys s e))"

section \<open>System calls\<close>

definition kIsAuthenticated :: "'e auth_state \<Rightarrow> int" where
  "kIsAuthenticated s = is_authenticated s"

definition kGetKeyId :: "'e auth_state \<Rightarrow> u16" where
  "kGetKeyId s = vita_key_id (vita_state s)"

definition kGetPerCartKeys :: "'e auth_state \<Rightarrow> bytes" where
  "kGetPerCartKeys s = keys_bytes (vita_per_cart_keys (vita_state s))"

definition kClearCartSecret :: "'e auth_state \<Rightarrow> int \<times> 'e auth_state" where
  "kClearCartSecret s = k_clear_secret s"

definition kGetCartSecret :: "'e auth_sys \<Rightarrow> bytes option \<Rightarrow> 'e auth_state \<Rightarrow> int \<times> bytes option" where
  "kGetCartSecret sys keys s =
     (let k_secret = zeros 0x20; (res, k_secret) = k_get_secret sys s
      in (res, map_option (put_field (0, 0x20) k_secret) keys))"

definition kGetCartHash :: "'e auth_sys \<Rightarrow> bytes option \<Rightarrow> 'e auth_state \<Rightarrow> int \<times> bytes option" where
  "kGetCartHash sys hash s =
     (let k_hash = zeros 0x14; (_, k_hash) = k_get_hash sys s
      in (0, map_option (put_field (0, 0x14) k_hash) hash))"

definition kCheckCartHash :: "'e auth_sys \<Rightarrow> bytes option \<Rightarrow> 'e auth_state \<Rightarrow> int" where
  "kCheckCartHash sys hash s =
     (let k_hash = zeros 0x14;
          k_hash = (case hash of None \<Rightarrow> k_hash | Some h \<Rightarrow> put_field (0, 0x14) (take 0x14 h) k_hash)
      in k_check_hash sys k_hash s)"

section \<open>Reachable states\<close>

text \<open>
  The calls that change the state, in any order: the two of the application that hook and
  unhook, the one that clears, and the authentication the hooked kernel runs when a card
  comes in.
\<close>

inductive auth_step :: "'e auth_sys \<Rightarrow> 'e auth_state \<times> 'e \<Rightarrow> 'e auth_state \<times> 'e \<Rightarrow> bool" for sys where
  step_enable: "kEnableGcEmuMgr sys se = (r, se') \<Longrightarrow> auth_step sys se se'"
| step_disable: "kDisableGcEmuMgr sys se = (r, se') \<Longrightarrow> auth_step sys se se'"
| step_clear: "auth_step sys (s, e) (snd (kClearCartSecret s), e)"
| step_run: "k_run_authentication stk sys key_id se = (r, se') \<Longrightarrow> auth_step sys se se'"
| step_kernel: "auth_step sys (s, e) (s, e')"

inductive_cases auth_stepE: "auth_step sys se se'"

text \<open>The keys are those of a completed session, or there are none.\<close>

definition keys_earned :: "'e auth_state \<Rightarrow> bool" where
  "keys_earned s \<longleftrightarrow>
     (if is_authenticated s = 0 then vita_state s = zeroed_vita
      else \<exists>stk v rng e rng' e'. vita_cmd56_run stk (Some v) rng e = (GC_AUTH_OK, Some (vita_state s), rng', e'))"

lemma keys_earned_clear: "keys_earned (snd (k_clear_secret s))"
  by (simp add: keys_earned_def k_clear_secret_def)

lemma keys_earned_cong:
  "vita_state s = vita_state t \<Longrightarrow> is_authenticated s = is_authenticated t \<Longrightarrow> keys_earned s = keys_earned t"
  by (simp add: keys_earned_def)

lemma keys_earned_enable: "keys_earned (fst (snd (kEnableGcEmuMgr sys se)))"
  by (cases se) (simp add: kEnableGcEmuMgr_def keys_earned_def k_clear_secret_def Let_def case_prod_unfold)

lemma disable_frame:
  "vita_state (fst (snd (kDisableGcEmuMgr sys se))) = vita_state (fst se)"
  "is_authenticated (fst (snd (kDisableGcEmuMgr sys se))) = is_authenticated (fst se)"
  by (simp_all add: kDisableGcEmuMgr_def Let_def case_prod_unfold)

lemma vita_cmd56_run_Some: "\<exists>v'. fst (snd (vita_cmd56_run stk (Some v) rng e)) = Some v'"
  by (simp add: vita_cmd56_run_def case_prod_unfold Let_def)

lemma k_run_session_eq:
  assumes "vita_cmd56_run stk (Some ((vita_zero (k_gc_cmd56_write sys (sd_ctx s)) (k_gc_cmd56_read sys (sd_ctx s)))
      \<lparr>vita_allow_prototype_keys := True\<rparr>)) (au_rng s) e = (ret, Some v', rng', e')"
  shows "k_run_session stk sys s e =
    (if ret = GC_AUTH_OK
     then (0, snd (kDisableGcEmuMgr sys (s\<lparr>vita_state := v', au_rng := rng', is_authenticated := 1\<rparr>, e')))
     else (-1, snd (k_clear_secret (s\<lparr>vita_state := v', au_rng := rng'\<rparr>)), e'))"
  using assms by (simp add: k_run_session_def vita_cmd56_init_def Let_def case_prod_unfold prod_eq_iff)

lemma keys_earned_session: "keys_earned (fst (snd (k_run_session stk sys s e)))"
proof -
  let ?v = "(vita_zero (k_gc_cmd56_write sys (sd_ctx s)) (k_gc_cmd56_read sys (sd_ctx s)))\<lparr>vita_allow_prototype_keys := True\<rparr>"
  obtain ret v' rng' e' where run: "vita_cmd56_run stk (Some ?v) (au_rng s) e = (ret, Some v', rng', e')"
    using vita_cmd56_run_Some [of stk ?v "au_rng s" e] by (metis prod.collapse)
  show ?thesis
  proof (cases "ret = GC_AUTH_OK")
    case True
    then have "is_authenticated (fst (snd (k_run_session stk sys s e))) = 1"
        "vita_state (fst (snd (k_run_session stk sys s e))) = v'"
      by (simp_all add: k_run_session_eq [OF run] disable_frame)
    with run True show ?thesis unfolding keys_earned_def by (simp, intro exI) simp
  qed (simp add: k_run_session_eq [OF run] keys_earned_clear)
qed

lemma keys_earned_none: "keys_earned (s\<lparr>vita_state := zeroed_vita, is_authenticated := 0, sd_ctx := c\<rparr>)"
  by (simp add: keys_earned_def)

lemma keys_earned_run: "keys_earned (fst (snd (k_run_authentication stk sys key_id se)))"
  by (simp add: k_run_authentication_def k_clear_secret_def Let_def keys_earned_session keys_earned_none split: prod.split)

lemma keys_earned_step: "auth_step sys se se' \<Longrightarrow> keys_earned (fst se) \<Longrightarrow> keys_earned (fst se')"
  by (induction rule: auth_step.induct)
     (metis keys_earned_enable fst_conv snd_conv, metis keys_earned_cong disable_frame fst_conv snd_conv,
      simp add: keys_earned_clear kClearCartSecret_def, metis keys_earned_run fst_conv snd_conv, simp)

lemma keys_earned_reachable: "(auth_step sys)\<^sup>*\<^sup>* se se' \<Longrightarrow> keys_earned (fst se) \<Longrightarrow> keys_earned (fst se')"
  by (induction rule: rtranclp_induct) (auto intro: keys_earned_step)

section \<open>Properties\<close>

text \<open>C22: at any moment after the module is loaded, whatever sequence of system calls and card
  insertions has happened, the keys handed to the application are all zero unless the module
  reports an authentication, and then its state is the one a successful CMD56 session left.\<close>

theorem keys_only_after_authentication:
  assumes "(auth_step sys)\<^sup>*\<^sup>* (s0, e0) (s, e)" and "vita_state s0 = zeroed_vita" "is_authenticated s0 = 0"
  shows "(kIsAuthenticated s = 0 \<longrightarrow> kGetPerCartKeys s = zeros 0x40 \<and> kGetKeyId s = 0) \<and>
    (kIsAuthenticated s \<noteq> 0 \<longrightarrow>
      (\<exists>stk v rng e rng' e'. vita_cmd56_run stk (Some v) rng e = (GC_AUTH_OK, Some (vita_state s), rng', e')))"
proof -
  have "keys_earned s0" using assms(2,3) by (simp add: keys_earned_def)
  then have "keys_earned s" using keys_earned_reachable [OF assms(1)] by simp
  moreover have "keys_bytes (vita_per_cart_keys (zeroed_vita :: 'a vita_cmd56_state)) = zeros 0x40"
    by (simp add: zeroed_vita_def vita_zero_def keys_bytes_def zeros_def flip: replicate_add)
  ultimately show ?thesis
    by (simp add: keys_earned_def kIsAuthenticated_def kGetPerCartKeys_def kGetKeyId_def zeroed_vita_def
        vita_zero_def split: if_splits)
qed

text \<open>An authentication that finds a card of the library goes through the session and unhooks itself.\<close>

lemma run_captures_keys:
  assumes wire: "\<And>buf e. snd (ksceSdifWriteCmd56 sys ctx buf e) = wire_send buf e"
      "\<And>buf e. snd (ksceSdifReadCmd56 sys ctx buf e) = wire_recv cstk buf e"
    and ctx: "ctx \<noteq> 0"
      "ksceSdifGetSdContextPartValidateMmc sys 1 e0 = (ctx, \<lparr>ce_state = c, ce_rng = crng, ce_buffer = buf\<rparr>)"
    and card: "wf_gc c" "session_keyseed (uint (gc_key_id c)) \<noteq> None" "\<not> gc_key_id c > PROTOTYPE_KEY_ID1"
    and len: "length (au_rng s) = 16" "length crng = 16" "length cstk = 16" "length stk = 16"
    and hook: "0 \<le> authHook s" "\<And>e. 0 \<le> fst (taiHookReleaseForKernel sys (authHook s) e)"
  obtains s' e' where "k_run_authentication stk sys key_id (s, e0) = (0, s', e')" "is_authenticated s' = 1"
    "authHook s' = -1" "vita_per_cart_keys (vita_state s') = gc_per_cart_keys c"
proof -
  let ?s1 = "s\<lparr>vita_state := zeroed_vita, is_authenticated := 0, sd_ctx := ctx\<rparr>"
  let ?v = "(vita_zero wire_send (wire_recv cstk))\<lparr>vita_allow_prototype_keys := True\<rparr>"
  let ?e = "\<lparr>ce_state = c, ce_rng = crng, ce_buffer = buf\<rparr>"
  let ?se = "\<lparr>se_state = ?v, se_request = zero_request, se_response = zero_response, se_rng = au_rng s, se_env = ?e\<rparr>"
  have fns: "k_gc_cmd56_write sys ctx = wire_send" "k_gc_cmd56_read sys ctx = wire_recv cstk"
    by (auto simp: k_gc_cmd56_write_def k_gc_cmd56_read_def wire fun_eq_iff)
  have "wf_vita ?v" by (simp add: wf_vita_def vita_zero_def AES_keyExpSize_def)
  then have linked: "linked cstk ?se"
    using linked_init [OF card(1), of ?v cstk "au_rng s" crng buf] len by (simp add: vita_zero_def)
  have k: "session_keyseed (uint (gc_key_id (cart ?se))) \<noteq> None"
    "\<not> (vita_allow_prototype_keys (vita ?se) \<and> gc_key_id (cart ?se) > PROTOTYPE_KEY_ID1)"
    using card(2,3) by simp_all
  obtain s' where s': "vita_session stk ?se = (GC_AUTH_OK, s')"
    "vita_per_cart_keys (vita s') = gc_per_cart_keys (cart ?se)"
    using session_completes [OF linked len(4) k] by metis
  then have run: "vita_cmd56_run stk (Some ((vita_zero (k_gc_cmd56_write sys (sd_ctx ?s1)) (k_gc_cmd56_read sys (sd_ctx ?s1)))
      \<lparr>vita_allow_prototype_keys := True\<rparr>)) (au_rng ?s1) ?e = (GC_AUTH_OK, Some (se_state s'), se_rng s', se_env s')"
    by (simp add: vita_cmd56_run_def fns)
  let ?s2 = "?s1\<lparr>vita_state := se_state s', au_rng := se_rng s', is_authenticated := 1\<rparr>"
  obtain r e' where rel: "taiHookReleaseForKernel sys (authHook s) (se_env s') = (r, e')" "0 \<le> r"
    using hook(2) [of "se_env s'"] by (metis prod.collapse)
  have "k_run_session stk sys ?s1 ?e = (0, ?s2\<lparr>authHook := -1\<rparr>, e')"
    unfolding k_run_session_eq [OF run] using hook(1) rel by (simp add: kDisableGcEmuMgr_def)
  then have "k_run_authentication stk sys key_id (s, e0) = (0, ?s2\<lparr>authHook := -1\<rparr>, e')"
    using ctx by (simp add: k_run_authentication_def k_clear_secret_def)
  with s'(2) show thesis by (intro that [of "?s2\<lparr>authHook := -1\<rparr>" e']) simp_all
qed

text \<open>with a card of the library behind the host controller, an authentication that the
  console does not reject succeeds, unhooks itself, and the calls then hand out the keys of
  that card and their SHA-256 and SHA-1.\<close>

theorem authentication_captures_keys:
  assumes wire: "\<And>buf e. snd (ksceSdifWriteCmd56 sys ctx buf e) = wire_send buf e"
      "\<And>buf e. snd (ksceSdifReadCmd56 sys ctx buf e) = wire_recv cstk buf e"
    and ctx: "ctx \<noteq> 0"
      "ksceSdifGetSdContextPartValidateMmc sys 1 e0 = (ctx, \<lparr>ce_state = c, ce_rng = crng, ce_buffer = buf\<rparr>)"
    and card: "wf_gc c" "session_keyseed (uint (gc_key_id c)) \<noteq> None" "\<not> gc_key_id c > PROTOTYPE_KEY_ID1"
    and len: "length (au_rng s) = 16" "length crng = 16" "length cstk = 16" "length stk = 16"
    and hook: "0 \<le> authHook s" "\<And>e. 0 \<le> fst (taiHookReleaseForKernel sys (authHook s) e)"
  shows "\<exists>s' e'. k_run_authentication stk sys key_id (s, e0) = (0, s', e') \<and>
    kIsAuthenticated s' = 1 \<and> authHook s' = -1 \<and> kGetPerCartKeys s' = keys_bytes (gc_per_cart_keys c) \<and>
    k_get_secret sys s' = (0, ksceSha256Digest sys (keys_bytes (gc_per_cart_keys c))) \<and>
    k_get_hash sys s' = (0, ksceSha1Digest sys (packet20_key (gc_per_cart_keys c)))"
  using run_captures_keys [OF assms]
  by (metis kIsAuthenticated_def kGetPerCartKeys_def k_get_secret_def k_get_hash_def)

text \<open>A host controller with a card of the library in it.\<close>

definition card_slot :: "cart_env auth_sys" where
  "card_slot = \<lparr>ksceSha1Digest = take 20, ksceSha256Digest = fips_sha256,
     ksceSdifGetSdContextPartValidateMmc = (\<lambda>n e. (1, e)), ksceSdifInitializeMmcDevice = (\<lambda>n c e. (0, e)),
     ksceSdifWriteCmd56 = (\<lambda>c buf e. (0, wire_send buf e)),
     ksceSdifReadCmd56 = (\<lambda>c buf e. (0, wire_recv (zeros 16) buf e)),
     taiHookFunctionExportForKernel = (\<lambda>e. (3, e)), taiHookReleaseForKernel = (\<lambda>h e. (0, e))\<rparr>"

definition loaded_state :: "cart_env auth_state" where
  "loaded_state = \<lparr>vita_state = zeroed_vita, sd_ctx = 0, is_authenticated = 0, authHook = 3, au_rng = rand_state_init\<rparr>"

definition retail_card :: gc_cmd56_state where
  "retail_card = gc_zero\<lparr>gc_key_id := RETAIL_KEY_ID,
     gc_per_cart_keys := \<lparr>packet20_key = replicate 0x20 1, packet18_key = replicate 0x20 2\<rparr>\<rparr>"

theorem authentication_captures_keys_witness:
  "\<exists>s' e'. k_run_authentication (zeros 16) card_slot 1
      (loaded_state, \<lparr>ce_state = retail_card, ce_rng = rand_state_init, ce_buffer = []\<rparr>) = (0, s', e') \<and>
    kGetPerCartKeys s' = replicate 0x20 1 @ replicate 0x20 2"
proof -
  have "wf_gc retail_card" by (simp add: wf_gc_def retail_card_def gc_zero_def AES_keyExpSize_def)
  moreover have "length rand_state_init = 16" by (simp add: rand_state_init_def)
  ultimately show ?thesis
    using authentication_captures_keys [of card_slot 1 "zeros 16"
        "\<lparr>ce_state = retail_card, ce_rng = rand_state_init, ce_buffer = []\<rparr>" retail_card rand_state_init "[]"
        loaded_state "zeros 16" 1]
    by (auto simp: card_slot_def loaded_state_def retail_card_def session_keyseed_def key_ids keys_bytes_def)
qed

theorem keys_only_after_authentication_witness:
  "kGetPerCartKeys (snd (kClearCartSecret loaded_state)) = zeros 0x40"
proof -
  have "auth_step card_slot (loaded_state, e) (snd (kClearCartSecret loaded_state), e)" for e
    by (rule step_clear)
  then have "(auth_step card_slot)\<^sup>*\<^sup>* (loaded_state, e) (snd (kClearCartSecret loaded_state), e)" for e by blast
  from keys_only_after_authentication [OF this] show ?thesis
    by (simp add: loaded_state_def kIsAuthenticated_def kClearCartSecret_def k_clear_secret_def)
qed

end
