(* ===== verification/InsertPrompt.thy ===== *)
theory InsertPrompt
  imports Turns AuthEmu
begin

text \<open>
  The prompt of \<^verbatim>\<open>do_gc_insert_prompt\<close> together with the part of the kernel module it waits for
  (\<^verbatim>\<open>app/auth.c\<close> over \<^verbatim>\<open>kern/auth_emu.c\<close>).  The module's variables are a part \<open>m e\<close> of the environment,
  and the calls of the application that hook and unhook the authentication are those of \<open>AuthEmu\<close>.
  What the console does of its own is stated: when it authenticates a card, and that it then calls what is hooked.
\<close>

section \<open>The slot\<close>

definition poll :: "'e app_sys \<Rightarrow> 'e \<Rightarrow> 'e" where
  "poll sys = sceKernelDelayThread (io sys) 30000"

definition unpatched :: "'e app_sys \<Rightarrow> 'e \<Rightarrow> bool" where
  "unpatched sys e \<longleftrightarrow> AppSys.kUndoneSd2VitaPatches sys e \<or> check_loaded_blacklisted_module sys e = None"

text \<open>The system calls the application makes are those of the module, whose variables are \<open>m e\<close>.\<close>

definition runs_module :: "'e app_sys \<Rightarrow> cart_env auth_sys \<Rightarrow> ('e \<Rightarrow> cart_env auth_state) \<Rightarrow> bool" where
  "runs_module sys asys m \<longleftrightarrow>
     (\<forall>e. Ident.kIsAuthenticated (ident sys) e = AuthEmu.kIsAuthenticated (m e)) \<and>
     (\<forall>buf e. Ident.kGetPerCartKeys (ident sys) buf e = AuthEmu.kGetPerCartKeys (m e)) \<and>
     (\<forall>e. \<exists>ce. m (AppSys.kEnableGcEmuMgr sys e) = fst (snd (AuthEmu.kEnableGcEmuMgr asys (m e, ce)))) \<and>
     (\<forall>e. \<exists>ce. m (AppSys.kDisableGcEmuMgr sys e) = fst (snd (AuthEmu.kDisableGcEmuMgr asys (m e, ce)))) \<and>
     (\<forall>e. length (au_rng (m e)) = 16 \<longrightarrow> (AppSys.kIsSdInserted sys e \<longrightarrow> length (au_rng (m (poll sys e))) = 16) \<and>
        length (au_rng (m (AppSys.kUndoSd2Vita sys e))) = 16 \<and> length (au_rng (m (AppSys.kResetGc sys e))) = 16)"

text \<open>The kernel's functions under the module: hooks can be set and released, and the host controller
  exchanges packets with a card of the library.\<close>

definition host_works :: "cart_env auth_sys \<Rightarrow> bool" where
  "host_works asys \<longleftrightarrow>
     (\<forall>ce. 0 < fst (taiHookFunctionExportForKernel asys ce)) \<and> (\<forall>h ce. 0 \<le> fst (taiHookReleaseForKernel asys h ce)) \<and>
     (\<exists>cstk. length cstk = 16 \<and> (\<forall>ctx buf ce. snd (ksceSdifWriteCmd56 asys ctx buf ce) = wire_send buf ce \<and>
        snd (ksceSdifReadCmd56 asys ctx buf ce) = wire_recv cstk buf ce))"

text \<open>After some waits, in which the module's variables stay \<open>s\<close>, the console authenticates the card: it calls
  the function that is hooked.\<close>

definition authenticates ::
  "'e app_sys \<Rightarrow> cart_env auth_sys \<Rightarrow> ('e \<Rightarrow> cart_env auth_state) \<Rightarrow> gc_cmd56_state \<Rightarrow> cart_env auth_state \<Rightarrow> 'e \<Rightarrow> bool" where
  "authenticates sys asys m c s e \<longleftrightarrow>
     (\<exists>n stk key_id ce ctx rng buf. (\<forall>k<n. m ((poll sys ^^ k) e) = s) \<and>
        m ((poll sys ^^ n) e) = fst (snd (k_run_authentication stk asys key_id (s, ce))) \<and> length stk = 16 \<and>
        ctx \<noteq> 0 \<and> length rng = 16 \<and>
        ksceSdifGetSdContextPartValidateMmc asys 1 ce = (ctx, \<lparr>ce_state = c, ce_rng = rng, ce_buffer = buf\<rparr>))"

text \<open>
  The slot.  An SD card is taken out some time.  The calls of the prompt put none in, and undoing the patches of SD2Vita
  undoes them.  While the authentication is hooked, no SD card is in the way and no patch is left, a card that
  is in the slot is authenticated after a reset; if there is none, one is put in some time and is authenticated.
\<close>

definition slot_works ::
  "'e app_sys \<Rightarrow> cart_env auth_sys \<Rightarrow> ('e \<Rightarrow> cart_env auth_state) \<Rightarrow> gc_cmd56_state \<Rightarrow> bool" where
  "slot_works sys asys m c \<longleftrightarrow>
     (\<forall>e. \<exists>n. \<not> AppSys.kIsSdInserted sys ((poll sys ^^ n) e)) \<and>
     (\<forall>e. \<not> AppSys.kIsSdInserted sys e \<longrightarrow> \<not> AppSys.kIsSdInserted sys (AppSys.kUndoSd2Vita sys e) \<and>
        AppSys.kUndoneSd2VitaPatches sys (AppSys.kUndoSd2Vita sys e) \<and>
        \<not> AppSys.kIsSdInserted sys (AppSys.kResetGc sys e) \<and> \<not> AppSys.kIsSdInserted sys (AppSys.kEnableGcEmuMgr sys e)) \<and>
     (\<forall>e. unpatched sys e \<longrightarrow> unpatched sys (AppSys.kResetGc sys e) \<and> unpatched sys (AppSys.kEnableGcEmuMgr sys e)) \<and>
     (\<forall>e. 0 < authHook (m e) \<and> \<not> AppSys.kIsSdInserted sys e \<and> unpatched sys e \<longrightarrow>
        authenticates sys asys m c (m e) (if AppSys.kIsMmcInserted sys e then AppSys.kResetGc sys e else e))"

section \<open>The prompt\<close>

lemma wait_while_steps:
  "\<forall>k<n. b ((w ^^ k) e) \<Longrightarrow> \<not> b ((w ^^ n) e) \<Longrightarrow> wait_while b w e = Some ((w ^^ n) e)"
proof (induction n arbitrary: e)
  case 0
  then show ?case by (simp add: wait_while.simps)
next
  case (Suc n)
  from Suc(2) have b: "b e" by (metis funpow_0 zero_less_Suc)
  have "\<forall>k<n. b ((w ^^ k) (w e))" using Suc(2) by (metis Suc_less_eq funpow_simps_right(2) o_apply)
  moreover have "\<not> b ((w ^^ n) (w e))" using Suc(3) by (simp add: funpow_swap1)
  ultimately show ?case using Suc(1) b by (simp add: wait_while.simps [of b w e] funpow_swap1)
qed

lemma wait_while_ends: "\<not> b ((w ^^ n) e) \<Longrightarrow> \<exists>m. wait_while b w e = Some ((w ^^ m) e) \<and> \<not> b ((w ^^ m) e) \<and> (\<forall>k<m. b ((w ^^ k) e))"
  using wait_while_steps [where n = "LEAST n. \<not> b ((w ^^ n) e)" and b = b and w = w and e = e] LeastI [of "\<lambda>n. \<not> b ((w ^^ n) e)" n] not_less_Least
  by blast

lemma enable_hooks:
  assumes "host_works asys" and "s' = fst (snd (AuthEmu.kEnableGcEmuMgr asys (s, ce)))"
  shows "0 < authHook s'" "is_authenticated s' = 0" "au_rng s' = au_rng s"
  using assms
  by (auto simp: AuthEmu.kEnableGcEmuMgr_def k_clear_secret_def host_works_def Let_def case_prod_unfold)

lemma authentication_ends_wait:
  assumes run: "runs_module sys asys m" and host: "host_works asys"
    and card: "wf_gc c" "session_keyseed (uint (gc_key_id c)) \<noteq> None" "\<not> gc_key_id c > PROTOTYPE_KEY_ID1"
    and s: "0 < authHook s" "is_authenticated s = 0" "length (au_rng s) = 16" and a: "authenticates sys asys m c s e"
  shows "\<exists>e'. wait_while (\<lambda>e. Ident.kIsAuthenticated (ident sys) e = 0) (poll sys) e = Some e' \<and>
    is_authenticated (m e') = 1 \<and> authHook (m e') = -1 \<and> vita_per_cart_keys (vita_state (m e')) = gc_per_cart_keys c"
proof -
  from a obtain n stk key_id ce ctx rng buf where n: "\<forall>k<n. m ((poll sys ^^ k) e) = s"
      "m ((poll sys ^^ n) e) = fst (snd (k_run_authentication stk asys key_id (s, ce)))" and len: "length stk = 16" "length rng = 16"
    and ctx: "ctx \<noteq> 0" "ksceSdifGetSdContextPartValidateMmc asys 1 ce = (ctx, \<lparr>ce_state = c, ce_rng = rng, ce_buffer = buf\<rparr>)"
    unfolding authenticates_def by blast
  obtain cstk where w: "length cstk = 16" "\<And>buf ce. snd (ksceSdifWriteCmd56 asys ctx buf ce) = wire_send buf ce"
      "\<And>buf ce. snd (ksceSdifReadCmd56 asys ctx buf ce) = wire_recv cstk buf ce"
    using host by (auto simp: host_works_def)
  have h: "0 \<le> authHook s" "\<And>ce. 0 \<le> fst (taiHookReleaseForKernel asys (authHook s) ce)"
    using s(1) host by (auto simp: host_works_def)
  obtain s' ce' where "k_run_authentication stk asys key_id (s, ce) = (0, s', ce')" and s': "is_authenticated s' = 1"
      "authHook s' = -1" "vita_per_cart_keys (vita_state s') = gc_per_cart_keys c"
    by (rule run_captures_keys [OF w(2,3) ctx card s(3) len(2) w(1) len(1) h])
  then have m: "m ((poll sys ^^ n) e) = s'" using n(2) by simp
  have k: "Ident.kIsAuthenticated (ident sys) e = is_authenticated (m e)" for e
    using run by (simp add: runs_module_def AuthEmu.kIsAuthenticated_def)
  have "wait_while (\<lambda>e. Ident.kIsAuthenticated (ident sys) e = 0) (poll sys) e = Some ((poll sys ^^ n) e)"
    by (rule wait_while_steps) (simp_all add: k n(1) m s(2) s'(1))
  with m s' show ?thesis by auto
qed

text \<open>C32: The prompt for a card waits for one and ends: once it has returned, the kernel module has
  authenticated the card in the slot and has unhooked itself, the keys it hands to the application are those of that card,
  and the prompt has changed nothing else of the application.  It is asked that an SD card in the slot is taken out
  some time, and that the console authenticates a card when it is put in or the slot is reset, while the module is hooked
  and the patches of SD2Vita are undone.
\<close>

theorem insert_prompt_ends_with_card:
  assumes run: "runs_module sys asys m" and host: "host_works asys" and slot: "slot_works sys asys m c"
    and rng: "length (au_rng (m (env st))) = 16"
    and card: "wf_gc c" "session_keyseed (uint (gc_key_id c)) \<noteq> None" "\<not> gc_key_id c > PROTOTYPE_KEY_ID1"
  shows "\<exists>e. do_gc_insert_prompt sys st = Some (st\<lparr>env := e\<rparr>) \<and> Ident.kIsAuthenticated (ident sys) e = 1 \<and>
    authHook (m e) = -1 \<and> get_keys sys e = keys_bytes (gc_per_cart_keys c)"
proof -
  have typed: "(\<forall>k<n. AppSys.kIsSdInserted sys ((poll sys ^^ k) e)) \<Longrightarrow> length (au_rng (m e)) = 16 \<Longrightarrow>
      length (au_rng (m ((poll sys ^^ n) e))) = 16" for n e
    using run by (induction n) (simp_all add: runs_module_def)
  obtain n0 where "\<not> AppSys.kIsSdInserted sys ((poll sys ^^ n0) (env st))"
    using slot unfolding slot_works_def by (elim conjE allE [of _ "env st"] exE) assumption
  then obtain n where 1: "wait_while (AppSys.kIsSdInserted sys) (poll sys) (env st) = Some ((poll sys ^^ n) (env st))"
      "\<not> AppSys.kIsSdInserted sys ((poll sys ^^ n) (env st))" "\<forall>k<n. AppSys.kIsSdInserted sys ((poll sys ^^ k) (env st))"
    using wait_while_ends [where b = "AppSys.kIsSdInserted sys"] by blast
  define e1 where "e1 = (poll sys ^^ n) (env st)"
  define e2 where "e2 = (if \<not> AppSys.kUndoneSd2VitaPatches sys e1 \<and> check_loaded_blacklisted_module sys e1 \<noteq> None
    then AppSys.kResetGc sys (AppSys.kUndoSd2Vita sys e1) else e1)"
  have 2: "\<not> AppSys.kIsSdInserted sys e2" "unpatched sys e2" "length (au_rng (m e2)) = 16"
  proof -
    have "length (au_rng (m e1)) = 16" using typed [OF 1(3) rng] by (simp add: e1_def)
    with 1(2) slot run show "\<not> AppSys.kIsSdInserted sys e2" "unpatched sys e2" "length (au_rng (m e2)) = 16"
      by (simp_all add: e1_def [symmetric] e2_def slot_works_def unpatched_def runs_module_def)
  qed
  define e3 where "e3 = AppSys.kEnableGcEmuMgr sys e2"
  obtain ce where "m e3 = fst (snd (AuthEmu.kEnableGcEmuMgr asys (m e2, ce)))"
    using run unfolding runs_module_def e3_def by blast
  note hooked = enable_hooks [OF host this]
  have 3: "\<not> AppSys.kIsSdInserted sys e3" "unpatched sys e3" using 2 slot by (auto simp: slot_works_def e3_def)
  define e4 where "e4 = (if AppSys.kIsMmcInserted sys e3 then AppSys.kResetGc sys e3 else e3)"
  have "authenticates sys asys m c (m e3) e4" using slot 3 hooked(1) by (simp add: slot_works_def e4_def)
  then obtain e5 where 5: "wait_while (\<lambda>e. Ident.kIsAuthenticated (ident sys) e = 0) (poll sys) e4 = Some e5"
      "is_authenticated (m e5) = 1" "authHook (m e5) = -1" "vita_per_cart_keys (vita_state (m e5)) = gc_per_cart_keys c"
    using authentication_ends_wait [OF run host card hooked(1,2)] hooked(3) 2(3) by metis
  have "Ident.kIsAuthenticated (ident sys) e3 = 0"
    using run hooked(2) by (simp add: runs_module_def AuthEmu.kIsAuthenticated_def)
  moreover have p: "sceKernelDelayThread (io sys) 30000 = poll sys" by (simp add: poll_def)
  ultimately have w: "wait_for_gc_auth sys (env st) = Some (AppSys.kDisableGcEmuMgr sys e5)"
    by (simp only: wait_for_gc_auth_def Let_def p 1(1) [folded e1_def] bind.bind_lunit e2_def [symmetric] e3_def [symmetric]
        simp_thms e4_def [symmetric] 5(1))
  obtain ce where "m (AppSys.kDisableGcEmuMgr sys e5) = fst (snd (AuthEmu.kDisableGcEmuMgr asys (m e5, ce)))"
    using run unfolding runs_module_def by blast
  then have m: "m (AppSys.kDisableGcEmuMgr sys e5) = m e5" using 5(3) by (simp add: AuthEmu.kDisableGcEmuMgr_def)
  show ?thesis
    by (rule exI [of _ "AppSys.kDisableGcEmuMgr sys e5"], use w run m 5 in \<open>simp add: do_gc_insert_prompt_def runs_module_def get_keys_def AuthEmu.kIsAuthenticated_def AuthEmu.kGetPerCartKeys_def\<close>)
qed

text \<open>
  A slot with the module behind it.  An SD card is taken out at the next look, a card is put in if there is none, and
  a card that has just been put in or reset is authenticated by the module if that is hooked.
\<close>

record slot_console = console +
  sl_module :: "cart_env auth_state"
  sl_sd :: bool
  sl_card :: bool
  sl_new :: bool

definition retail_slot :: cart_env where
  "retail_slot = \<lparr>ce_state = retail_card, ce_rng = rand_state_init, ce_buffer = []\<rparr>"

definition look :: "slot_console \<Rightarrow> slot_console" where
  "look e =
     (if sl_sd e then e\<lparr>sl_sd := False\<rparr>
      else if \<not> sl_card e then e\<lparr>sl_card := True, sl_new := True\<rparr>
      else if sl_new e \<and> 0 < authHook (sl_module e)
      then e\<lparr>sl_new := False, sl_module := fst (snd (k_run_authentication (zeros 16) AuthEmu.card_slot 1 (sl_module e, retail_slot)))\<rparr>
      else e)"

definition slot_sys :: "slot_console app_sys" where
  "slot_sys = (console_sys one_partition)
     \<lparr>io := (console_io one_partition)\<lparr>sceKernelDelayThread := (\<lambda>n. look)\<rparr>,
      ident := console_ident\<lparr>kIsAuthenticated := (\<lambda>e. AuthEmu.kIsAuthenticated (sl_module e)),
        kGetPerCartKeys := (\<lambda>b e. AuthEmu.kGetPerCartKeys (sl_module e))\<rparr>,
      kIsSdInserted := sl_sd, kIsMmcInserted := sl_card, kResetGc := (\<lambda>e. e\<lparr>sl_new := True\<rparr>),
      kEnableGcEmuMgr := (\<lambda>e. e\<lparr>sl_module := fst (snd (AuthEmu.kEnableGcEmuMgr AuthEmu.card_slot (sl_module e, retail_slot)))\<rparr>),
      kDisableGcEmuMgr := (\<lambda>e. e\<lparr>sl_module := fst (snd (AuthEmu.kDisableGcEmuMgr AuthEmu.card_slot (sl_module e, retail_slot)))\<rparr>)\<rparr>"

definition slot_app :: "slot_console app" where
  "slot_app = \<lparr>env = \<lparr>depth = 0, pads = [], card_data = [], last_written = [], sl_module = loaded_state\<lparr>authHook := -1\<rparr>,
       sl_sd = True, sl_card = False, sl_new = False\<rparr>, conf = default_config, dumpbuf = zeros 8, ctrls = init_ctrl False\<rparr>"

lemma slot_sys_fields [simp]:
  "io slot_sys = (console_io one_partition)\<lparr>sceKernelDelayThread := (\<lambda>n. look)\<rparr>"
  "ident slot_sys = console_ident\<lparr>kIsAuthenticated := (\<lambda>e. AuthEmu.kIsAuthenticated (sl_module e)),
     kGetPerCartKeys := (\<lambda>b e. AuthEmu.kGetPerCartKeys (sl_module e))\<rparr>"
  "AppSys.kIsSdInserted slot_sys = sl_sd" "AppSys.kIsMmcInserted slot_sys = sl_card"
  "AppSys.kResetGc slot_sys e = e\<lparr>sl_new := True\<rparr>" "AppSys.kUndoSd2Vita slot_sys e = e"
  "AppSys.kUndoneSd2VitaPatches slot_sys e" "poll slot_sys = look"
  "AppSys.kEnableGcEmuMgr slot_sys e =
     e\<lparr>sl_module := fst (snd (AuthEmu.kEnableGcEmuMgr AuthEmu.card_slot (sl_module e, retail_slot)))\<rparr>"
  "AppSys.kDisableGcEmuMgr slot_sys e =
     e\<lparr>sl_module := fst (snd (AuthEmu.kDisableGcEmuMgr AuthEmu.card_slot (sl_module e, retail_slot)))\<rparr>"
  by (simp_all add: slot_sys_def poll_def fun_eq_iff)

lemma slot_sys_authenticates:
  assumes "0 < authHook (sl_module e)" "\<not> sl_sd e"
  shows "authenticates slot_sys AuthEmu.card_slot sl_module retail_card (sl_module e) (if sl_card e then e\<lparr>sl_new := True\<rparr> else e)"
proof -
  have ce: "ksceSdifGetSdContextPartValidateMmc AuthEmu.card_slot 1 retail_slot =
      (1, \<lparr>ce_state = retail_card, ce_rng = rand_state_init, ce_buffer = []\<rparr>)"
    by (simp add: AuthEmu.card_slot_def retail_slot_def)
  have r: "length rand_state_init = 16" by (simp add: rand_state_init_def)
  show ?thesis
  proof (cases "sl_card e")
    case True
    then show ?thesis
      unfolding authenticates_def slot_sys_fields using assms r ce
      by (intro exI [of _ 1] exI [of _ "zeros 16"] exI [of _ 1] exI [of _ retail_slot] exI [of _ rand_state_init] exI [of _ "[]"])
        (simp add: look_def)
  next
    case False
    then have "\<forall>k<2. sl_module ((look ^^ k) e) = sl_module e"
      using assms by (auto simp: less_2_cases_iff look_def)
    with False show ?thesis
      unfolding authenticates_def slot_sys_fields using assms r ce
      by (intro exI [of _ 2] exI [of _ "zeros 16"] exI [of _ 1] exI [of _ retail_slot] exI [of _ rand_state_init] exI [of _ "[]"])
        (simp add: look_def numeral_2_eq_2)
  qed
qed

theorem insert_prompt_ends_with_card_witness:
  "\<exists>e. do_gc_insert_prompt slot_sys slot_app = Some (slot_app\<lparr>env := e\<rparr>) \<and> authHook (sl_module e) = -1 \<and>
     get_keys slot_sys e = replicate 0x20 1 @ replicate 0x20 2"
proof -
  have run: "runs_module slot_sys AuthEmu.card_slot sl_module"
    by (auto simp: runs_module_def look_def)
  have host: "host_works AuthEmu.card_slot"
    by (auto simp: host_works_def AuthEmu.card_slot_def intro!: exI [of _ "zeros 16"])
  have "\<exists>n. \<not> sl_sd ((look ^^ n) e)" for e by (rule exI [of _ 1]) (simp add: look_def)
  then have slot: "slot_works slot_sys AuthEmu.card_slot sl_module retail_card"
    using slot_sys_authenticates by (simp add: slot_works_def unpatched_def cong: if_cong split del: if_split)
  have card: "wf_gc retail_card" "session_keyseed (uint (gc_key_id retail_card)) \<noteq> None"
      "\<not> gc_key_id retail_card > PROTOTYPE_KEY_ID1"
    by (simp_all add: wf_gc_def retail_card_def gc_zero_def AES_keyExpSize_def session_keyseed_def key_ids)
  have "length (au_rng (sl_module (env slot_app))) = 16"
    by (simp add: slot_app_def loaded_state_def rand_state_init_def)
  from insert_prompt_ends_with_card [OF run host slot this card] show ?thesis
    by (auto simp: retail_card_def keys_bytes_def)
qed

end
