(* ===== verification/Canvas.thy ===== *)
theory Canvas
  imports Screen
begin

text \<open>
  \<^verbatim>\<open>app/draw.c\<close>: what the application asks the graphics library for.  A call of the library is an
  element of \<open>draw_call\<close>; drawing extends the list of the calls made so far.  The width of a text and of a texture
  and what the conversion of no number gives are parameters.
\<close>

section \<open>Calls of the graphics library\<close>

datatype color = RGBA8 u8 u8 u8 u8

definition COLOR_WHITE :: color where "COLOR_WHITE = RGBA8 255 255 255 255"
definition COLOR_YELLOW :: color where "COLOR_YELLOW = RGBA8 255 255 0 255"
definition COLOR_LIGHT_BLUE :: color where "COLOR_LIGHT_BLUE = RGBA8 0 255 255 255"

datatype texture = background | menuoverlay | insertgc_tex

datatype draw_call =
    vita2d_init
  | vita2d_set_clear_color color
  | vita2d_load_default_pgf
  | vita2d_load_default_pvf
  | vita2d_load_PNG_file texture string
  | vita2d_fini
  | vita2d_free_pgf
  | vita2d_free_pvf
  | vita2d_free_texture texture
  | vita2d_start_drawing
  | vita2d_clear_screen
  | vita2d_end_drawing
  | vita2d_swap_buffers
  | vita2d_draw_rectangle int int int int color
  | vita2d_pvf_draw_text int int color bytes
  | vita2d_draw_texture texture int int

text \<open>\<open>msg_stk\<close> is the uninitialised buffer of \<^verbatim>\<open>draw_text_center_color\<close>.\<close>

record gfx =
  text_width :: "bytes \<Rightarrow> int"
  texture_width :: "texture \<Rightarrow> int"
  gfx_ctrl :: ctrl_state
  msg_stk :: bytes
  not_a_number :: int

text \<open>
  The static variables of \<^verbatim>\<open>menu.c\<close> that drawing changes: the height of the last line, and the conditions of the options
  added so far, which are the beginning of the array \<^verbatim>\<open>options\<close>.
\<close>

record canvas =
  oy :: u32
  opts :: "bool list"
  calls :: "draw_call list"

definition call :: "draw_call \<Rightarrow> canvas \<Rightarrow> canvas" where
  "call d c = c\<lparr>calls := calls c @ [d]\<rparr>"

section \<open>The screen\<close>

definition MENUOVERLAY_WIDTH :: int where "MENUOVERLAY_WIDTH = 494"
definition MENUOVERLAY_HEIGHT :: int where "MENUOVERLAY_HEIGHT = 506"
definition MENUOVERLAY_PAD :: int where "MENUOVERLAY_PAD = 19"
definition SCREEN_WIDTH :: int where "SCREEN_WIDTH = 960"
definition SCREEN_HEIGHT :: int where "SCREEN_HEIGHT = 544"
definition MENUOVERLAY_POS_X :: int where "MENUOVERLAY_POS_X = (SCREEN_WIDTH - MENUOVERLAY_WIDTH) - MENUOVERLAY_PAD"
definition MENUOVERLAY_POS_Y :: int where "MENUOVERLAY_POS_Y = MENUOVERLAY_PAD"
definition BUTTONOVERLAY_Y :: int where "BUTTONOVERLAY_Y = MENUOVERLAY_PAD + (MENUOVERLAY_HEIGHT - 10)"
definition TITLE_Y :: int where "TITLE_Y = MENUOVERLAY_POS_Y + 35"

lemmas screen_sizes = MENUOVERLAY_WIDTH_def MENUOVERLAY_HEIGHT_def MENUOVERLAY_PAD_def SCREEN_WIDTH_def SCREEN_HEIGHT_def
  MENUOVERLAY_POS_X_def MENUOVERLAY_POS_Y_def BUTTONOVERLAY_Y_def TITLE_Y_def

definition load_texture :: "texture \<Rightarrow> string \<Rightarrow> canvas \<Rightarrow> canvas" where
  "load_texture t path = call (vita2d_load_PNG_file t path)"

definition free_texture :: "texture \<Rightarrow> canvas \<Rightarrow> canvas" where
  "free_texture t = call (vita2d_free_texture t)"

definition init_vita2d :: "canvas \<Rightarrow> canvas" where
  "init_vita2d =
     load_texture menuoverlay ''app0:/res/menuoverlay.png'' \<circ> load_texture background ''app0:/res/background.png'' \<circ>
     call vita2d_load_default_pvf \<circ> call vita2d_load_default_pgf \<circ>
     call (vita2d_set_clear_color (RGBA8 0xFF 0xFF 0xFF 0xFF)) \<circ> call vita2d_init"

text \<open>The library is closed first, and what it holds is freed then.\<close>

definition term_vita2d :: "canvas \<Rightarrow> canvas" where
  "term_vita2d =
     call (vita2d_free_texture menuoverlay) \<circ> call (vita2d_free_texture background) \<circ>
     call vita2d_free_pvf \<circ> call vita2d_free_pgf \<circ> call vita2d_fini"

definition draw_texture :: "texture \<Rightarrow> int \<Rightarrow> int \<Rightarrow> canvas \<Rightarrow> canvas" where
  "draw_texture t x y = call (vita2d_draw_texture t x y)"

definition start_draw :: "canvas \<Rightarrow> canvas" where
  "start_draw = call vita2d_clear_screen \<circ> call vita2d_start_drawing"

definition end_draw :: "canvas \<Rightarrow> canvas" where
  "end_draw = call vita2d_swap_buffers \<circ> call vita2d_end_drawing"

definition draw_background :: "canvas \<Rightarrow> canvas" where
  "draw_background = draw_texture menuoverlay MENUOVERLAY_POS_X MENUOVERLAY_POS_Y \<circ> draw_texture background 0 0"

section \<open>Texts\<close>

definition draw_text_color :: "int \<Rightarrow> int \<Rightarrow> color \<Rightarrow> bytes \<Rightarrow> canvas \<Rightarrow> canvas" where
  "draw_text_color x y color msg = call (vita2d_pvf_draw_text x y color msg)"

definition draw_text :: "int \<Rightarrow> int \<Rightarrow> bytes \<Rightarrow> canvas \<Rightarrow> canvas" where
  "draw_text x y msg = draw_text_color x y COLOR_WHITE msg"

text \<open>The text is centred by the width that was measured last; the division of C rounds toward zero.\<close>

definition text_x :: "int \<Rightarrow> int" where
  "text_x width = MENUOVERLAY_POS_X + (MENUOVERLAY_WIDTH div 2 - (if width < 0 then - (- width div 2) else width div 2))"

definition draw_text_center_color :: "gfx \<Rightarrow> int \<Rightarrow> color \<Rightarrow> bytes \<Rightarrow> canvas \<Rightarrow> canvas" where
  "draw_text_center_color g y color msg =
     (let (processed_msg, width) = fitted_text (text_width g) (msg_stk g) msg
      in draw_text_color (text_x width) y color (chars processed_msg))"

definition draw_text_center :: "gfx \<Rightarrow> int \<Rightarrow> bytes \<Rightarrow> canvas \<Rightarrow> canvas" where
  "draw_text_center g y msg = draw_text_center_color g y COLOR_WHITE msg"

definition draw_option :: "gfx \<Rightarrow> int \<Rightarrow> bytes \<Rightarrow> bool \<Rightarrow> canvas \<Rightarrow> canvas" where
  "draw_option g y opt selected =
     (if \<not> selected then draw_text_center_color g y COLOR_WHITE opt else draw_text_center_color g y COLOR_YELLOW opt)"

definition draw_title :: "gfx \<Rightarrow> bytes \<Rightarrow> canvas \<Rightarrow> canvas" where
  "draw_title g title = draw_text_center g TITLE_Y title"

definition draw_texture_center :: "gfx \<Rightarrow> int \<Rightarrow> texture \<Rightarrow> canvas \<Rightarrow> canvas" where
  "draw_texture_center g y t =
     draw_texture t (MENUOVERLAY_POS_X + (MENUOVERLAY_WIDTH div 2 - texture_width g t div 2)) y"

definition draw_controls :: "gfx \<Rightarrow> bool \<Rightarrow> canvas \<Rightarrow> canvas" where
  "draw_controls g cancel =
     draw_text_center_color g BUTTONOVERLAY_Y COLOR_LIGHT_BLUE (controls_text (gfx_ctrl g) cancel @ [0])"

end
