(* ===== verification/Single.thy ===== *)
theory Single
  imports Complex_Main "HOL-Library.Log_Nat"
begin

text \<open>
  Numbers of the C type \<^verbatim>\<open>float\<close>, as far as the progress of an operation needs them: the rounding of a
  rational number that is not negative to 24 significant bits, ties to even.  The exponents that occur are
  between -64 and 74, so no overflow and no subnormal number is in reach.
\<close>

section \<open>Rounding\<close>

definition exponent :: "rat \<Rightarrow> int" where
  "exponent x =
     (let (p, q) = quotient_of x; k = int (floorlog 2 (nat p)) - int (floorlog 2 (nat q))
      in if 2 powi k \<le> x then k else k - 1)"

definition round_even :: "rat \<Rightarrow> int" where
  "round_even x =
     (let n = \<lfloor>x\<rfloor>; r = x - of_int n
      in if r < 1 / 2 then n else if r > 1 / 2 then n + 1 else if even n then n else n + 1)"

definition single :: "rat \<Rightarrow> rat" where
  "single x = (let s = 2 powi (23 - exponent x) in of_int (round_even (x * s)) / s)"

section \<open>Lemmas\<close>

lemma exponent_bounds:
  assumes "0 < x"
  shows "2 powi exponent x \<le> x" "x < 2 powi (exponent x + 1)"
proof -
  obtain p q where pq: "quotient_of x = (p, q)" by force
  have q: "0 < q" using pq by (rule quotient_of_denom_pos)
  have x: "x = of_int p / of_int q" using pq by (rule quotient_of_div)
  have p: "0 < p" using assms q by (simp add: x zero_less_divide_iff)
  define a b where "a = floorlog 2 (nat p)" and "b = floorlog 2 (nat q)"
  have two: "(2 :: nat) ^ (floorlog 2 n - 1) \<le> n \<and> n < 2 ^ floorlog 2 n \<and> 0 < floorlog 2 n" if "0 < n" for n
    using that floorlog_bounds [of n 2] by (auto simp: floorlog_def)
  have pow: "(of_nat n :: rat) \<ge> 2 powi (int (floorlog 2 n) - 1) \<and> (of_nat n :: rat) < 2 powi int (floorlog 2 n)"
    if "0 < n" for n
  proof -
    have "int (floorlog 2 n) - 1 = int (floorlog 2 n - 1)" using two [OF that] by simp
    then have "(2 :: rat) powi (int (floorlog 2 n) - 1) = of_nat (2 ^ (floorlog 2 n - 1))"
      by (metis of_nat_numeral of_nat_power power_int_of_nat)
    moreover have "(2 :: rat) powi int (floorlog 2 n) = of_nat (2 ^ floorlog 2 n)" by simp
    ultimately show ?thesis using two [OF that] by (simp only: of_nat_le_iff of_nat_less_iff)
  qed
  have P: "2 powi (int a - 1) \<le> (of_int p :: rat)" "(of_int p :: rat) < 2 powi int a"
    using pow [of "nat p"] p by (simp_all add: a_def)
  have Q: "2 powi (int b - 1) \<le> (of_int q :: rat)" "(of_int q :: rat) < 2 powi int b"
    using pow [of "nat q"] q by (simp_all add: b_def)
  have pos: "(0 :: rat) < of_int q" "(0 :: rat) < of_int p" using p q by simp_all
  have lo: "2 powi (int a - int b - 1) \<le> x"
  proof -
    have "2 powi (int a - int b - 1) * of_int q \<le> 2 powi (int a - int b - 1) * (2 :: rat) powi int b"
      using Q(2) by (intro mult_left_mono) simp_all
    also have "\<dots> = 2 powi (int a - 1)" by (subst power_int_add [symmetric]) simp_all
    finally show ?thesis unfolding x using P(1) pos by (simp add: pos_le_divide_eq)
  qed
  have hi: "x < 2 powi (int a - int b + 1)"
  proof -
    have "(2 :: rat) powi int a = 2 powi (int a - int b + 1) * 2 powi (int b - 1)" by (simp flip: power_int_add)
    also have "\<dots> \<le> 2 powi (int a - int b + 1) * of_int q" using Q(1) by (intro mult_left_mono) simp_all
    finally show ?thesis unfolding x pos_divide_less_eq [OF pos(1)] by (rule less_le_trans [OF P(2)])
  qed
  have "exponent x = (if 2 powi (int a - int b) \<le> x then int a - int b else int a - int b - 1)"
    by (simp add: exponent_def pq a_def b_def)
  then show "2 powi exponent x \<le> x" "x < 2 powi (exponent x + 1)" using lo hi by (simp_all split: if_splits)
qed

lemma round_even_of_int [simp]: "round_even (of_int n) = n" by (simp add: round_even_def)

lemma round_even_cases: "round_even x = \<lfloor>x\<rfloor> \<or> round_even x = \<lfloor>x\<rfloor> + 1"
  by (simp add: round_even_def Let_def)

lemma round_even_mono:
  assumes "x \<le> y"
  shows "round_even x \<le> round_even y"
proof (cases "\<lfloor>x\<rfloor> = \<lfloor>y\<rfloor>")
  case True
  then show ?thesis using assms by (simp add: round_even_def Let_def)
next
  case False
  then have "\<lfloor>x\<rfloor> + 1 \<le> \<lfloor>y\<rfloor>" using floor_mono [OF assms] by simp
  then show ?thesis using round_even_cases [of x] round_even_cases [of y] by auto
qed

lemma single_0 [simp]: "single 0 = 0"
  by (simp add: single_def round_even_def)

lemma exponent_mono: "0 < x \<Longrightarrow> x \<le> y \<Longrightarrow> exponent x \<le> exponent y"
proof (rule ccontr)
  assume x: "0 < x" "x \<le> y" and "\<not> exponent x \<le> exponent y"
  then have "(2 :: rat) powi (exponent y + 1) \<le> 2 powi exponent x" by (intro power_int_increasing) simp_all
  then show False using exponent_bounds [of x] exponent_bounds [of y] x by simp
qed

text \<open>The rounded values of one binade lie between its ends.\<close>

lemma single_scaled:
  assumes "0 < x"
  shows "single x = of_int (round_even (x * 2 powi (23 - exponent x))) * 2 powi (exponent x - 23)"
proof -
  have "(2 :: rat) powi (exponent x - 23) = inverse (2 powi (23 - exponent x))" by (simp flip: power_int_minus)
  then show ?thesis by (simp add: single_def Let_def divide_inverse)
qed

lemma single_binade:
  assumes "0 < x"
  shows "2 powi exponent x \<le> single x" "single x \<le> 2 powi (exponent x + 1)"
proof -
  let ?s = "(2 :: rat) powi (23 - exponent x)" and ?t = "(2 :: rat) powi (exponent x - 23)"
  have "of_int (2 ^ 23) = 2 powi exponent x * ?s" "of_int (2 ^ 24) = 2 powi (exponent x + 1) * ?s"
    by (simp_all flip: power_int_add)
  then have "round_even (of_int (2 ^ 23)) \<le> round_even (x * ?s)" "round_even (x * ?s) \<le> round_even (of_int (2 ^ 24))"
    using mult_right_mono [of _ _ ?s] exponent_bounds [OF assms] by (auto intro!: round_even_mono simp only: zero_le_power_int zero_le_numeral less_imp_le)
  then have "2 ^ 23 \<le> round_even (x * ?s)" "round_even (x * ?s) \<le> 2 ^ 24" unfolding round_even_of_int .
  then have r: "(of_int (2 ^ 23) :: rat) \<le> of_int (round_even (x * ?s))" "(of_int (round_even (x * ?s)) :: rat) \<le> of_int (2 ^ 24)"
    by (simp_all only: of_int_le_iff)
  have e: "(2 :: rat) powi exponent x = of_int (2 ^ 23) * ?t" "(2 :: rat) powi (exponent x + 1) = of_int (2 ^ 24) * ?t"
  proof -
    have "(2 :: rat) powi exponent x = 2 powi 23 * ?t" "(2 :: rat) powi (exponent x + 1) = 2 powi 24 * ?t"
      by (subst power_int_add [symmetric], simp, simp add: add.commute)+
    then show "(2 :: rat) powi exponent x = of_int (2 ^ 23) * ?t" "(2 :: rat) powi (exponent x + 1) = of_int (2 ^ 24) * ?t"
      by simp_all
  qed
  show "2 powi exponent x \<le> single x" "single x \<le> 2 powi (exponent x + 1)"
    unfolding single_scaled [OF assms] e using r by (intro mult_right_mono; simp)+
qed

lemma single_nonneg: "0 \<le> x \<Longrightarrow> 0 \<le> single x"
  using single_binade(1) [of x] zero_le_power_int [of "2 :: rat" "exponent x"]
  by (cases "x = 0") (simp, linarith)

lemma single_pos: "0 < x \<Longrightarrow> 0 < single x"
  using single_binade(1) [of x] zero_less_power_int [of "2 :: rat" "exponent x"] by linarith

lemma single_mono:
  assumes "0 \<le> x" "x \<le> y"
  shows "single x \<le> single y"
proof (cases "x = 0")
  case True
  with assms single_nonneg [of y] show ?thesis by simp
next
  case False
  with assms have x: "0 < x" "0 < y" by simp_all
  show ?thesis
  proof (cases "exponent x = exponent y")
    case True
    have "x * 2 powi (23 - exponent y) \<le> y * 2 powi (23 - exponent y)" using assms(2) by (intro mult_right_mono) simp_all
    then have "(of_int (round_even (x * 2 powi (23 - exponent y))) :: rat) \<le> of_int (round_even (y * 2 powi (23 - exponent y)))"
      by (simp only: of_int_le_iff round_even_mono)
    then show ?thesis unfolding single_scaled [OF x(1)] single_scaled [OF x(2)] True by (intro mult_right_mono) simp_all
  next
    case False
    then have "exponent x + 1 \<le> exponent y" using exponent_mono [OF x(1) assms(2)] by simp
    then have "(2 :: rat) powi (exponent x + 1) \<le> 2 powi exponent y" by (intro power_int_increasing) simp_all
    then show ?thesis using single_binade(2) [OF x(1)] single_binade(1) [OF x(2)] by linarith
  qed
qed

text \<open>Whole numbers of 24 bits are not changed.\<close>

lemma single_of_int:
  assumes "0 \<le> n" "n < 2 ^ 24"
  shows "single (of_int n) = of_int n"
proof (cases "n = 0")
  case False
  with assms have n: "(0 :: rat) < of_int n" by simp
  have e: "exponent (of_int n) \<le> 23"
  proof (rule ccontr)
    assume "\<not> exponent (of_int n) \<le> 23"
    then have "(2 :: rat) powi 24 \<le> 2 powi exponent (of_int n)" by (intro power_int_increasing) simp_all
    also have "\<dots> \<le> of_int n" by (rule exponent_bounds [OF n])
    finally have "(of_int (2 ^ 24) :: rat) \<le> of_int n" by simp
    then show False using assms(2) by (simp only: of_int_le_iff)
  qed
  define k where "k = nat (23 - exponent (of_int n))"
  have k: "23 - exponent (of_int n) = int k" using e by (simp add: k_def)
  have "of_int n * (2 :: rat) powi int k = of_int (n * 2 ^ k)" by simp
  then have "round_even (of_int n * 2 powi int k) = n * 2 ^ k" by (simp only: round_even_of_int)
  then show ?thesis by (simp add: single_def k)
qed simp

lemma single_le_int: "0 \<le> x \<Longrightarrow> x \<le> of_int n \<Longrightarrow> n < 2 ^ 24 \<Longrightarrow> single x \<le> of_int n"
proof -
  assume x: "0 \<le> x" "x \<le> of_int n" "n < 2 ^ 24"
  then have "(0 :: rat) \<le> of_int n" by linarith
  then have "0 \<le> n" by simp
  then show "single x \<le> of_int n" using single_mono [OF x(1,2)] single_of_int [of n] x(3) by simp
qed

end
