(* ===== verification/Pages.thy ===== *)
theory Pages
  imports Canvas Single
begin

text \<open>
  The screens of \<^verbatim>\<open>app/menu.c\<close> as what they draw.  The screens with options do what theory Menu says of them
  and draw the options besides; \<open>opts\<close> holds the conditions of the options in the order they were added.
\<close>

section \<open>Lines\<close>

definition ygap :: u32 where "ygap = 20"
definition ystart :: u32 where "ystart = 200"
definition ytop :: u32 where "ytop = 110"

definition start_y :: "u32 \<Rightarrow> canvas \<Rightarrow> u32 \<times> canvas" where
  "start_y new_y c = (new_y, c\<lparr>oy := new_y\<rparr>)"

definition skip_y :: "u32 \<Rightarrow> canvas \<Rightarrow> u32 \<times> canvas" where
  "skip_y val c = (oy c + val, c\<lparr>oy := oy c + val\<rparr>)"

definition next_y :: "canvas \<Rightarrow> u32 \<times> canvas" where
  "next_y = skip_y ygap"

text \<open>A line is drawn at the height a call returns; \<open>run\<close> is a sequence of statements.\<close>

definition line_at :: "(canvas \<Rightarrow> u32 \<times> canvas) \<Rightarrow> (int \<Rightarrow> canvas \<Rightarrow> canvas) \<Rightarrow> canvas \<Rightarrow> canvas" where
  "line_at height draw c = (let (y, c) = height c in draw (sint y) c)"

definition run :: "(canvas \<Rightarrow> canvas) list \<Rightarrow> canvas \<Rightarrow> canvas" where
  "run fs c = fold (\<lambda>f. f) fs c"

definition text_line :: "gfx \<Rightarrow> bytes \<Rightarrow> canvas \<Rightarrow> canvas" where
  "text_line g msg = line_at next_y (\<lambda>y. draw_text_center g y msg)"

definition first_line :: "gfx \<Rightarrow> u32 \<Rightarrow> bytes \<Rightarrow> canvas \<Rightarrow> canvas" where
  "first_line g y msg = line_at (start_y y) (\<lambda>y. draw_text_center g y msg)"

definition empty_line :: "canvas \<Rightarrow> canvas" where
  "empty_line c = snd (next_y c)"

definition printed :: "bytes \<Rightarrow> bytes" where
  "printed text = snprintf (zeros MAX_PATH) MAX_PATH text"

section \<open>Options\<close>

definition DEFOPT :: "(canvas \<Rightarrow> u32 \<times> canvas) \<Rightarrow> canvas \<Rightarrow> canvas" where
  "DEFOPT height c = (let (y, c) = height c in (snd (start_y (y - ygap) c))\<lparr>opts := []\<rparr>)"

definition ADDOPT :: "gfx \<Rightarrow> int \<Rightarrow> bool \<times> bytes \<Rightarrow> canvas \<Rightarrow> canvas" where
  "ADDOPT g selected = (\<lambda>(cond, x) c.
     (let option = int (length (opts c));
          c = (if cond then line_at next_y (\<lambda>y. draw_option g y x (option = selected)) c else c)
      in c\<lparr>opts := opts c @ [cond]\<rparr>))"

definition backup_format_options :: "(bool \<times> bytes) list" where
  "backup_format_options =
      [(True, cstr ''Backup Vita Cartridge Image (.vci)''),
       (True, cstr ''Backup Trimmed Vita Cartridge Image (.trim.vci)''),
       (True, cstr ''Backup PSVGameSD (.psv)''),
       (True, cstr ''Backup Trimmed PSVGameSD (.trim.psv)''),
       (True, cstr ''Backup Raw (.img)'')]"

definition page_select_backup_format :: "gfx \<Rightarrow> int \<Rightarrow> canvas \<Rightarrow> canvas" where
  "page_select_backup_format g selected = run (
     [start_draw, draw_background, draw_controls g True, draw_title g (cstr ''Select Backup format ...''),
      DEFOPT (Pair ystart)] @
     map (ADDOPT g selected) backup_format_options @
     [end_draw])"

definition gc_options :: "bool \<Rightarrow> bool \<Rightarrow> (bool \<times> bytes) list" where
  "gc_options has_grw0 has_mediaid =
      [(True, cstr ''Backup Entire Game Cart''),
       (True, cstr ''Backup Game Cart Keys''),
       (has_mediaid, cstr ''Backup Media Id Section''),
       (has_mediaid, cstr ''Restore Media Id Section''),
       (has_mediaid, cstr ''Format Media Id Section''),
       (has_grw0, cstr ''Backup Writable Section''),
       (has_grw0, cstr ''Restore Writable Section''),
       (has_grw0, cstr ''Format Writable Section''),
       (True, cstr ''Get Game Cart Info'')]"

definition page_gc_options :: "gfx \<Rightarrow> int \<Rightarrow> bytes \<Rightarrow> bool \<Rightarrow> bool \<Rightarrow> canvas \<Rightarrow> canvas" where
  "page_gc_options g selected title has_grw0 has_mediaid = run (
     [start_draw, draw_background, draw_controls g False,
      draw_title g (printed (map of_char ''What to do with '' @ chars title @ map of_char '' ...'')),
      DEFOPT (Pair ystart)] @
     map (ADDOPT g selected) (gc_options has_grw0 has_mediaid) @
     [end_draw])"

definition input_options :: "bool \<Rightarrow> bool \<Rightarrow> bool \<Rightarrow> bool \<Rightarrow> (bool \<times> bytes) list" where
  "input_options have_ux0 have_xmc have_usb have_host0 =
      [(have_ux0, cstr ''Load from \"ux0:\"''),
       (have_xmc, cstr ''Load from Sony Memory Card''),
       (have_usb, cstr ''Load from USB Drive''),
       (have_host0, cstr ''Load from Devkit Host0''),
       (True, cstr ''Refresh Devices'')]"

definition page_select_input_location :: "gfx \<Rightarrow> int \<Rightarrow> bool \<Rightarrow> bool \<Rightarrow> bool \<Rightarrow> bool \<Rightarrow> canvas \<Rightarrow> canvas" where
  "page_select_input_location g selected have_ux0 have_xmc have_usb have_host0 = run (
     [start_draw, draw_background, draw_controls g True, draw_title g (cstr ''Select input device ...''),
      DEFOPT (Pair ystart)] @
     map (ADDOPT g selected) (input_options have_ux0 have_xmc have_usb have_host0) @
     [end_draw])"

definition output_options :: "bool \<Rightarrow> bool \<Rightarrow> bool \<Rightarrow> bool \<Rightarrow> bool \<Rightarrow> (bool \<times> bytes) list" where
  "output_options have_ux0 have_xmc have_usb have_host0 save_network =
      [(have_ux0, cstr ''Save to \"ux0:\"''),
       (have_xmc, cstr ''Save to Sony Memory Card''),
       (have_usb, cstr ''Save to USB Drive''),
       (have_host0, cstr ''Save to Devkit Host0''),
       (save_network, cstr ''Save to Network''),
       (True, cstr ''Change file name''),
       (True, cstr ''Refresh Devices'')]"

definition page_select_output_location ::
  "gfx \<Rightarrow> int \<Rightarrow> bytes \<Rightarrow> bool \<Rightarrow> bool \<Rightarrow> bool \<Rightarrow> bool \<Rightarrow> bool \<Rightarrow> canvas \<Rightarrow> canvas" where
  "page_select_output_location g selected output_file have_ux0 have_xmc have_usb have_host0 save_network = run (
     [start_draw, draw_background, draw_controls g True, draw_title g (cstr ''Select output device ...''),
      first_line g ystart (printed (chars output_file)), empty_line, DEFOPT next_y] @
     map (ADDOPT g selected) (output_options have_ux0 have_xmc have_usb have_host0 save_network) @
     [end_draw])"

text \<open>\<open>file_of i\<close> is the name at \<^verbatim>\<open>folders + (i * MAX_PATH)\<close>; for -1 that is before the array.\<close>

definition file_options :: "(int \<Rightarrow> bytes) \<Rightarrow> int \<Rightarrow> int \<Rightarrow> (bool \<times> bytes) list" where
  "file_options file_of total_files window =
     map (\<lambda>i. (True, printed (chars (file_of i)))) (files_shown total_files (file_window total_files window))"

definition page_select_file :: "gfx \<Rightarrow> int \<Rightarrow> int \<Rightarrow> bytes \<Rightarrow> (int \<Rightarrow> bytes) \<Rightarrow> int \<Rightarrow> canvas \<Rightarrow> canvas" where
  "page_select_file g selected window input_folder file_of total_files = run (
     [start_draw, draw_background, draw_controls g True,
      draw_title g (printed (map of_char ''Select a file from: '' @ chars input_folder @ map of_char '' ...'')),
      DEFOPT (Pair ytop)] @
     map (ADDOPT g selected) (file_options file_of total_files window) @
     [end_draw])"

definition network_options :: "(bool \<times> bytes) list" where
  "network_options =
      [(True, cstr ''Change IP Address''), (True, cstr ''Change Port''), (True, cstr ''Start Network Save'')]"

definition page_network_settings :: "gfx \<Rightarrow> int \<Rightarrow> bytes \<Rightarrow> u16 \<Rightarrow> canvas \<Rightarrow> canvas" where
  "page_network_settings g selected ip_address port = run (
     [start_draw, draw_background, draw_controls g True, draw_title g (cstr ''Enter Network Address ...''),
      first_line g ystart (cstr ''Run the \"GcNetworkBackup\" program''),
      text_line g (cstr ''it can be found in the readme for GC ToolKit.''),
      text_line g (cstr ''and enter the IP of the device its running on.''),
      empty_line,
      text_line g (printed (map of_char ''Current Setting: '' @ chars ip_address @ map of_char '' on port '' @ decimal (unat port))),
      empty_line, DEFOPT next_y] @
     map (ADDOPT g selected) network_options @
     [end_draw])"

definition format_options :: "(bool \<times> bytes) list" where
  "format_options =
      [(True, cstr ''Full format''), (True, cstr ''Quick format''), (True, cstr ''Cancel'')]"

definition page_format_confirm_menu :: "gfx \<Rightarrow> int \<Rightarrow> bytes \<Rightarrow> canvas \<Rightarrow> canvas" where
  "page_format_confirm_menu g selected device = run (
     [start_draw, draw_background, draw_controls g True,
      draw_title g (printed (map of_char ''Format '' @ chars device @ map of_char '' to TexFAT? ...'')),
      first_line g ystart (cstr ''Warning: this will ERASE ALL DATA ...''),
      text_line g (printed (map of_char ''on partition \"'' @ chars device @ map of_char ''\" ...'')),
      empty_line, DEFOPT next_y] @
     map (ADDOPT g selected) format_options @
     [end_draw])"

section \<open>Messages\<close>

definition page_insert_gc :: "gfx \<Rightarrow> canvas \<Rightarrow> canvas" where
  "page_insert_gc g = run
     [start_draw, draw_background, (\<lambda>c. snd (start_y ytop c)), draw_title g (cstr ''Waiting for CMD56 authentication ...''),
      line_at next_y (\<lambda>y. draw_texture_center g y insertgc_tex), (\<lambda>c. snd (skip_y 200 c)),
      text_line g (cstr ''Insert a PlayStation Vita Game Cartridge.''), end_draw]"

definition page_ime :: "gfx \<Rightarrow> canvas \<Rightarrow> canvas" where
  "page_ime g = run
     [start_draw, draw_background, draw_title g (cstr ''Starting IME Dialog ...''),
      first_line g ystart (cstr ''IME Dialog is opening...''), end_draw]"

definition do_ime :: "gfx \<Rightarrow> canvas \<Rightarrow> canvas" where
  "do_ime g c = fold (\<lambda>i. page_ime g) [0..<5] c"

definition page_blacklisted_module_message :: "gfx \<Rightarrow> bytes \<Rightarrow> canvas \<Rightarrow> canvas" where
  "page_blacklisted_module_message g module_name = run
     [start_draw, draw_background, draw_controls g False, draw_title g (printed (map of_char ''Conflicting modules found!'')),
      first_line g ystart (printed (map of_char ''GcToolKit detected the module \"'' @ chars module_name @ map of_char ''\"'')),
      text_line g (cstr ''It is known to cause issues with GcToolKit''),
      text_line g (cstr ''and with Game Cartridge Authentication more generally.''),
      text_line g (cstr ''Please remove this module then try again.''), end_draw]"

definition page_kmodule_failed_message :: "gfx \<Rightarrow> bytes \<Rightarrow> canvas \<Rightarrow> canvas" where
  "page_kmodule_failed_message g module_name = run
     [start_draw, draw_background, draw_controls g False,
      draw_title g (printed (map of_char ''Failed to load app0:'' @ chars module_name @ map of_char ''.skprx'')),
      first_line g ystart (printed (map of_char ''GcToolKit failed to load kernel module \"'' @ chars module_name @ map of_char ''\"'')),
      text_line g (cstr ''Please ensure \"Unsafe Homebrew\" is enabled.''),
      text_line g (cstr ''This can also fail on \"Activated\" Dev & Test Kits.''), end_draw]"

definition page_confirmation_message :: "gfx \<Rightarrow> bytes \<Rightarrow> bytes \<Rightarrow> canvas \<Rightarrow> canvas" where
  "page_confirmation_message g title msg = run
     [start_draw, draw_background, draw_controls g False, draw_title g title, first_line g ystart msg, end_draw]"

definition page_device_info :: "gfx \<Rightarrow> GcInfo \<Rightarrow> canvas \<Rightarrow> canvas" where
  "page_device_info g info =
     (let ls = device_info_lines info
      in run (
        [start_draw, draw_background, draw_controls g True, draw_title g (cstr ''GameCart Information''),
         first_line g ytop (ls ! 0)] @
        map (text_line g) (take 2 (drop 1 ls)) @ [empty_line] @
        map (text_line g) (take 8 (drop 3 ls)) @ [empty_line] @
        map (text_line g) (drop 11 ls) @ [end_draw]))"

definition init_menus :: "canvas \<Rightarrow> canvas" where
  "init_menus = load_texture insertgc_tex ''app0:/res/insertgc.png''"

definition term_menus :: "canvas \<Rightarrow> canvas" where
  "term_menus = free_texture insertgc_tex"

section \<open>Progress\<close>

text \<open>The quotient has type \<^verbatim>\<open>float\<close>; nothing is defined of it, or of what it is converted to, for a total of zero.\<close>

definition part_done :: "nat \<Rightarrow> nat \<Rightarrow> rat" where
  "part_done progress whole = single (single (of_nat progress) / single (of_nat whole))"

definition bar_px :: "gfx \<Rightarrow> u64 \<Rightarrow> u64 \<Rightarrow> int \<Rightarrow> int" where
  "bar_px g progress whole bar_end =
     (if whole = 0 then not_a_number g else \<lfloor>single (part_done (unat progress) (unat whole) * single (of_int bar_end))\<rfloor>)"

definition draw_progress_bar :: "gfx \<Rightarrow> int \<Rightarrow> u64 \<Rightarrow> u64 \<Rightarrow> canvas \<Rightarrow> canvas" where
  "draw_progress_bar g y progress whole =
     (let bar_end = MENUOVERLAY_WIDTH - MENUOVERLAY_PAD * 2; start = MENUOVERLAY_POS_X + MENUOVERLAY_PAD; height = 32
      in run [call (vita2d_draw_rectangle start y bar_end height (RGBA8 128 128 128 128)),
              call (vita2d_draw_rectangle start y (bar_px g progress whole bar_end) height (RGBA8 0 255 0 128))])"

definition mebibytes :: "u64 \<Rightarrow> int" where
  "mebibytes n = \<lfloor>single (single (of_nat (unat n)) / 1048576)\<rfloor>"

text \<open>The factor 100.0 has type \<^verbatim>\<open>double\<close>, in which the product is exact.\<close>

definition percent :: "gfx \<Rightarrow> u64 \<Rightarrow> u64 \<Rightarrow> int" where
  "percent g progress whole = (if whole = 0 then not_a_number g else \<lfloor>part_done (unat progress) (unat whole) * 100\<rfloor>)"

definition RESTORE_MENU :: "gfx \<Rightarrow> string \<Rightarrow> string \<Rightarrow> bytes \<Rightarrow> bytes \<Rightarrow> u64 \<Rightarrow> u64 \<Rightarrow> canvas \<Rightarrow> canvas" where
  "RESTORE_MENU g title what dev to progress whole = run
     [start_draw, draw_background,
      draw_title g (printed (map of_char title @ map of_char '' '' @ chars dev @ map of_char '' ...'')),
      first_line g ystart (printed (map of_char what @ map of_char '': '' @ chars to @ map of_char '' ...'')),
      line_at (skip_y 10) (\<lambda>y. draw_progress_bar g y progress whole), (\<lambda>c. snd (skip_y 10 c)), empty_line,
      text_line g (printed (decimal (nat (mebibytes progress)) @ map of_char ''MiB / '' @ decimal (nat (mebibytes whole)) @ map of_char ''MiB'')),
      text_line g (printed (decimal (unat progress) @ map of_char '' bytes copied of '' @ decimal (unat whole) @ map of_char '' total ...'')),
      empty_line,
      draw_text_center g 330 (printed (map of_char what @ map of_char '' '' @ decimal (nat (percent g progress whole)) @ map of_char ''% completed.'')),
      end_draw]"

definition draw_wipe_progress :: "gfx \<Rightarrow> canvas progress" where
  "draw_wipe_progress g device unused progress whole = RESTORE_MENU g ''Formatting'' ''Writing'' device device progress whole"

definition draw_restore_progress :: "gfx \<Rightarrow> canvas progress" where
  "draw_restore_progress g device input_filename progress whole =
     RESTORE_MENU g ''Restoring'' ''Reading'' device input_filename progress whole"

definition draw_dump_progress :: "gfx \<Rightarrow> canvas progress" where
  "draw_dump_progress g device output_filename progress whole =
     RESTORE_MENU g ''Backing up'' ''Writing'' device output_filename progress whole"

end
