(* ===== verification/PageLaws.thy ===== *)
theory PageLaws
  imports Pages
begin

text \<open>
  What holds of the screens: each is one frame of the graphics library, the option under the cursor is the one that
  is highlighted, lines do not cover each other, texts stay on the overlay, and a progress bar stays in its frame.
\<close>

section \<open>What is drawn\<close>

definition text_call :: "gfx \<Rightarrow> int \<Rightarrow> color \<Rightarrow> bytes \<Rightarrow> draw_call" where
  "text_call g y color msg =
     (let (b, w) = fitted_text (text_width g) (msg_stk g) msg in vita2d_pvf_draw_text (text_x w) y color (chars b))"

definition shown :: "gfx \<Rightarrow> bytes \<Rightarrow> bytes" where
  "shown g msg = chars (fst (fitted_text (text_width g) (msg_stk g) msg))"

definition drawn :: "(canvas \<Rightarrow> canvas) \<Rightarrow> canvas \<Rightarrow> draw_call list" where
  "drawn f c = drop (length (calls c)) (calls (f c))"

fun is_drawing :: "draw_call \<Rightarrow> bool" where
  "is_drawing (vita2d_draw_rectangle x y w h c) = True"
| "is_drawing (vita2d_pvf_draw_text x y c m) = True"
| "is_drawing (vita2d_draw_texture t x y) = True"
| "is_drawing d = False"

fun text_height :: "draw_call \<Rightarrow> int list" where
  "text_height (vita2d_pvf_draw_text x y c m) = [y]"
| "text_height d = []"

fun highlight :: "draw_call \<Rightarrow> bytes list" where
  "highlight (vita2d_pvf_draw_text x y c m) = (if c = COLOR_YELLOW then [m] else [])"
| "highlight d = []"

definition text_heights :: "draw_call list \<Rightarrow> int list" where "text_heights ds = concat (map text_height ds)"
definition highlighted :: "draw_call list \<Rightarrow> bytes list" where "highlighted ds = concat (map highlight ds)"

definition frame_head :: "draw_call list" where
  "frame_head = [vita2d_start_drawing, vita2d_clear_screen, vita2d_draw_texture background 0 0,
     vita2d_draw_texture menuoverlay MENUOVERLAY_POS_X MENUOVERLAY_POS_Y]"

definition frame_tail :: "draw_call list" where
  "frame_tail = [vita2d_end_drawing, vita2d_swap_buffers]"

definition is_frame :: "draw_call list \<Rightarrow> bool" where
  "is_frame ds \<longleftrightarrow> (\<exists>inner. ds = frame_head @ inner @ frame_tail \<and> list_all is_drawing inner)"

section \<open>The operations on the canvas\<close>

text \<open>Every operation appends calls: the next equations let the simplifier run a screen.\<close>

named_theorems canvas_ops "what the operations do to a canvas"

lemma text_call_simps [simp]:
  "is_drawing (text_call g y col msg)" "text_height (text_call g y col msg) = [y]"
  "highlight (text_call g y col msg) = (if col = COLOR_YELLOW then [shown g msg] else [])"
  by (simp_all add: text_call_def shown_def split: prod.split)

lemma colors [simp]: "COLOR_WHITE \<noteq> COLOR_YELLOW" "COLOR_LIGHT_BLUE \<noteq> COLOR_YELLOW"
  by (simp_all add: COLOR_WHITE_def COLOR_YELLOW_def COLOR_LIGHT_BLUE_def)

definition put :: "draw_call list \<Rightarrow> canvas \<Rightarrow> canvas" where
  "put ds c = c\<lparr>calls := calls c @ ds\<rparr>"

lemma put_simps [simp]:
  "calls (put ds c) = calls c @ ds" "oy (put ds c) = oy c" "opts (put ds c) = opts c" "put es (put ds c) = put (ds @ es) c"
  "put [] c = c"
  by (simp_all add: put_def)

lemma put_update [simp]: "(put ds c)\<lparr>oy := y\<rparr> = put ds (c\<lparr>oy := y\<rparr>)" "(put ds c)\<lparr>opts := b\<rparr> = put ds (c\<lparr>opts := b\<rparr>)"
  by (simp_all add: put_def)

lemma call_put [canvas_ops]: "call d = put [d]"
  by (simp add: fun_eq_iff call_def put_def)

lemma draw_text_put [canvas_ops]:
  "draw_text_center_color g y col msg = put [text_call g y col msg]" "draw_text_center g y msg = put [text_call g y COLOR_WHITE msg]"
  "draw_title g msg = put [text_call g TITLE_Y COLOR_WHITE msg]"
  "draw_controls g b = put [text_call g BUTTONOVERLAY_Y COLOR_LIGHT_BLUE (controls_text (gfx_ctrl g) b @ [0])]"
  "draw_option g y x s = put [text_call g y (if s then COLOR_YELLOW else COLOR_WHITE) x]"
  by (simp_all add: fun_eq_iff draw_text_center_color_def draw_text_center_def draw_title_def draw_controls_def draw_option_def
      draw_text_color_def text_call_def call_put split: prod.split)

lemma screen_put [canvas_ops]:
  "draw_background (start_draw c) = put frame_head c" "end_draw = put frame_tail"
  by (simp_all add: fun_eq_iff draw_background_def start_draw_def end_draw_def draw_texture_def call_put frame_head_def frame_tail_def)

lemma lines_put [canvas_ops]:
  "text_line g msg c = put [text_call g (sint (oy c + 20)) COLOR_WHITE msg] (c\<lparr>oy := oy c + 20\<rparr>)"
  "first_line g y msg c = put [text_call g (sint y) COLOR_WHITE msg] (c\<lparr>oy := y\<rparr>)"
  "empty_line c = c\<lparr>oy := oy c + 20\<rparr>"
  "DEFOPT (Pair y) c = c\<lparr>oy := y - 20, opts := []\<rparr>"
  "DEFOPT next_y c = c\<lparr>oy := oy c, opts := []\<rparr>"
  "line_at next_y f c = f (sint (oy c + 20)) (c\<lparr>oy := oy c + 20\<rparr>)"
  "line_at (skip_y k) f c = f (sint (oy c + k)) (c\<lparr>oy := oy c + k\<rparr>)"
  "snd (start_y y c) = c\<lparr>oy := y\<rparr>" "snd (skip_y k c) = c\<lparr>oy := oy c + k\<rparr>"
  by (simp_all add: text_line_def first_line_def empty_line_def DEFOPT_def line_at_def next_y_def skip_y_def start_y_def
      ygap_def draw_text_put)

lemma run_simps [canvas_ops]: "run [] c = c" "run (f # fs) c = run fs (f c)" "run (fs @ gs) c = run gs (run fs c)"
  by (simp_all add: run_def)

text \<open>The lines of a list of options, and of a list of texts.\<close>

fun option_lines :: "gfx \<Rightarrow> int \<Rightarrow> u32 \<Rightarrow> nat \<Rightarrow> (bool \<times> bytes) list \<Rightarrow> draw_call list" where
  "option_lines g s y i [] = []"
| "option_lines g s y i ((b, x) # os) =
     (if b then text_call g (sint (y + 20)) (if int i = s then COLOR_YELLOW else COLOR_WHITE) x # option_lines g s (y + 20) (Suc i) os
      else option_lines g s y (Suc i) os)"

definition offers :: "(bool \<times> bytes) list \<Rightarrow> nat" where "offers os = length (filter fst os)"

lemma run_ADDOPT [canvas_ops]:
  "run (map (ADDOPT g s) os) c =
   put (option_lines g s (oy c) (length (opts c)) os) (c\<lparr>oy := oy c + 20 * of_nat (offers os), opts := opts c @ map fst os\<rparr>)"
proof (induction os arbitrary: c)
  case Nil
  then show ?case by (simp add: run_simps offers_def)
next
  case (Cons p os)
  obtain b x where e: "p = (b, x)" by force
  have "ADDOPT g s (b, x) c = put (if b then [text_call g (sint (oy c + 20)) (if int (length (opts c)) = s then COLOR_YELLOW else COLOR_WHITE) x] else [])
      (c\<lparr>oy := (if b then oy c + 20 else oy c), opts := opts c @ [b]\<rparr>)"
    by (simp add: ADDOPT_def lines_put draw_text_put)
  then show ?case
    by (simp add: run_simps Cons.IH e offers_def algebra_simps)
qed

lemma run_text_lines:
  "run (map (text_line g) ms) c =
   put (option_lines g (-1) (oy c) n (map (Pair True) ms)) (c\<lparr>oy := oy c + 20 * of_nat (length ms)\<rparr>)"
proof (induction ms arbitrary: c n)
  case (Cons m ms)
  show ?case by (simp add: run_simps lines_put(1) [of g m c] Cons.IH [where n = "Suc n"] algebra_simps)
qed (simp add: run_simps)

lemmas run_text_lines_0 [canvas_ops] = run_text_lines [where n = 0]

lemma option_lines_drawing [simp]: "list_all is_drawing (option_lines g s y i os)"
  by (induction g s y i os rule: option_lines.induct) simp_all

lemma option_lines_heights:
  "text_heights (option_lines g s y i os) = map (\<lambda>k. sint (y + 20 * of_nat (Suc k))) [0..<offers os]"
proof (induction g s y i os rule: option_lines.induct)
  case (2 g s y i b x os)
  have "[0..<Suc n] = 0 # map Suc [0..<n]" for n by (simp add: map_Suc_upt upt_conv_Cons del: upt_Suc)
  with 2 show ?case by (simp add: text_heights_def offers_def o_def algebra_simps del: upt_Suc)
qed (simp add: text_heights_def offers_def)

lemma option_lines_highlighted:
  "highlighted (option_lines g s y i os) =
   (if int i \<le> s \<and> nat s - i < length os \<and> fst (os ! (nat s - i)) then [shown g (snd (os ! (nat s - i)))] else [])"
proof (induction g s y i os rule: option_lines.induct)
  case (2 g s y i b x os)
  show ?case
  proof (cases "int i = s")
    case True
    then show ?thesis using 2 by (simp add: highlighted_def)
  next
    case False
    then have "int i \<le> s \<Longrightarrow> nat s - i = Suc (nat s - Suc i)" "int (Suc i) \<le> s \<longleftrightarrow> int i \<le> s" by auto
    with False 2 show ?thesis by (auto simp: highlighted_def)
  qed
qed (simp add: highlighted_def)

section \<open>Frames and lines\<close>

definition frame_rest :: "draw_call list \<Rightarrow> bool" where
  "frame_rest ds \<longleftrightarrow> (\<exists>inner. ds = inner @ frame_tail \<and> list_all is_drawing inner)"

lemma frame_simps [simp]:
  "is_frame (frame_head @ ds) \<longleftrightarrow> frame_rest ds" "frame_rest frame_tail"
  by (simp_all add: is_frame_def frame_rest_def)

lemma frame_rest_Cons [simp]: "is_drawing d \<Longrightarrow> frame_rest ds \<Longrightarrow> frame_rest (d # ds)"
  unfolding frame_rest_def by (metis (no_types, lifting) append_Cons list.pred_inject(2))

lemma frame_rest_append [simp]: "list_all is_drawing es \<Longrightarrow> frame_rest ds \<Longrightarrow> frame_rest (es @ ds)"
  unfolding frame_rest_def by (metis append_assoc list_all_append)

lemma text_heights_simps [simp]:
  "text_heights [] = []" "text_heights (d # ds) = text_height d @ text_heights ds"
  "text_heights (ds @ es) = text_heights ds @ text_heights es" "text_heights frame_head = []" "text_heights frame_tail = []"
  by (simp_all add: text_heights_def frame_head_def frame_tail_def)

lemma highlighted_simps [simp]:
  "highlighted [] = []" "highlighted (d # ds) = highlight d @ highlighted ds"
  "highlighted (ds @ es) = highlighted ds @ highlighted es" "highlighted frame_head = []" "highlighted frame_tail = []"
  by (simp_all add: highlighted_def frame_head_def frame_tail_def)

lemma drawn_put [simp]: "(\<And>c. f c = put ds (g c)) \<Longrightarrow> calls (g c) = calls c \<Longrightarrow> drawn f c = ds"
  by (simp add: drawn_def)

text \<open>No two lines are closer than twenty pixels, and all are between the title and the help for the buttons.\<close>

definition spaced :: "int list \<Rightarrow> bool" where
  "spaced hs \<longleftrightarrow> sorted_wrt (\<lambda>a b. 20 \<le> \<bar>a - b\<bar>) hs \<and> list_all (\<lambda>y. TITLE_Y \<le> y \<and> y \<le> BUTTONOVERLAY_Y) hs"

definition good_screen :: "(canvas \<Rightarrow> canvas) \<Rightarrow> bool" where
  "good_screen page \<longleftrightarrow> (\<forall>c. is_frame (drawn page c) \<and> spaced (text_heights (drawn page c)))"

lemma spaced_fewer: "spaced (hs @ map f [0..<n])" if "spaced (hs @ map f [0..<N])" "n \<le> N"
proof -
  have "map f [0..<n] = take n (map f [0..<N])" using that(2) by (simp add: take_map)
  then have "hs @ map f [0..<n] = take (length hs + n) (hs @ map f [0..<N])" by simp
  then show ?thesis using that(1) unfolding spaced_def list_all_iff by (metis in_set_takeD sorted_wrt_take)
qed

lemma good_screenI:
  assumes "\<And>c. \<exists>c'. page c = put (frame_head @ pre @ option_lines g s y 0 os @ frame_tail) c' \<and> calls c' = calls c"
    and "list_all is_drawing pre" "offers os \<le> N"
    and "spaced (text_heights pre @ map (\<lambda>k. sint (y + 20 * of_nat (Suc k))) [0..<N])"
  shows "good_screen page"
proof -
  have d: "drawn page c = frame_head @ pre @ option_lines g s y 0 os @ frame_tail" for c
    using assms(1) [of c] by (auto simp: drawn_def)
  show ?thesis
    unfolding good_screen_def d using assms(2) spaced_fewer [OF assms(4,3)] by (simp add: option_lines_heights)
qed

lemmas screen_heights = ystart_def ytop_def screen_sizes

lemma number_of_options:
  "offers backup_format_options = 5" "offers (gc_options b m) \<le> 9" "offers (input_options u x m h) \<le> 5"
  "offers (output_options u x m h n) \<le> 7" "offers network_options = 3" "offers format_options = 3"
  "offers (map (Pair True) ms) = length ms"
  by (simp_all add: offers_def backup_format_options_def gc_options_def input_options_def output_options_def
      network_options_def format_options_def o_def)

text \<open>What comes before the options: lines at the heights \<open>hs\<close>, none of them highlighted.\<close>

definition heading :: "(canvas \<Rightarrow> canvas) list \<Rightarrow> int list \<Rightarrow> u32 \<Rightarrow> bool" where
  "heading fs hs y \<longleftrightarrow> (\<forall>c. \<exists>pre. run fs c = put (frame_head @ pre) (c\<lparr>oy := y, opts := []\<rparr>) \<and>
     list_all is_drawing pre \<and> text_heights pre = hs \<and> highlighted pre = [])"

lemma headingI:
  "(\<And>c. run fs c = put (frame_head @ pre) (c\<lparr>oy := y, opts := []\<rparr>)) \<Longrightarrow>
   list_all is_drawing pre \<Longrightarrow> text_heights pre = hs \<Longrightarrow> highlighted pre = [] \<Longrightarrow> heading fs hs y"
  unfolding heading_def by blast

text \<open>A screen marks the selected one of its options, and no other line.\<close>

definition marks :: "gfx \<Rightarrow> (canvas \<Rightarrow> canvas) \<Rightarrow> bool list \<Rightarrow> bytes list \<Rightarrow> int \<Rightarrow> bool" where
  "marks g page conds labels selected \<longleftrightarrow>
     (\<forall>c. opts (page c) = conds \<and>
       highlighted (drawn page c) = (if offered conds selected then [shown g (labels ! nat selected)] else []))"

lemma options_page:
  assumes "page = run (fs @ map (ADDOPT g s) os @ [end_draw])" "heading fs hs y"
  shows "marks g page (map fst os) (map snd os) s"
    "offers os \<le> N \<Longrightarrow> spaced (hs @ map (\<lambda>k. sint (y + 20 * of_nat (Suc k))) [0..<N]) \<Longrightarrow> good_screen page"
proof -
  have "\<exists>pre c'. page c = put (frame_head @ pre @ option_lines g s y 0 os @ frame_tail) c' \<and> calls c' = calls c \<and>
      opts c' = map fst os \<and> list_all is_drawing pre \<and> text_heights pre = hs \<and> highlighted pre = []" for c
  proof -
    obtain pre where "run fs c = put (frame_head @ pre) (c\<lparr>oy := y, opts := []\<rparr>)" "list_all is_drawing pre"
        "text_heights pre = hs" "highlighted pre = []"
      using assms(2) unfolding heading_def by blast
    then show ?thesis
      by (intro exI [of _ pre] exI [of _ "c\<lparr>oy := y + 20 * of_nat (offers os), opts := map fst os\<rparr>"])
         (simp add: assms(1) canvas_ops)
  qed
  then have "\<exists>pre. drawn page c = frame_head @ pre @ option_lines g s y 0 os @ frame_tail \<and> opts (page c) = map fst os \<and>
      list_all is_drawing pre \<and> text_heights pre = hs \<and> highlighted pre = []" for c
    unfolding drawn_def by (metis append_eq_conv_conj put_simps(1,3))
  then obtain pre where d: "drawn page c = frame_head @ pre c @ option_lines g s y 0 os @ frame_tail"
    "opts (page c) = map fst os" "list_all is_drawing (pre c)" "text_heights (pre c) = hs" "highlighted (pre c) = []" for c
    by metis
  show "marks g page (map fst os) (map snd os) s"
    unfolding marks_def d by (auto simp: d option_lines_highlighted offered_def)
  assume n: "offers os \<le> N" and sp: "spaced (hs @ map (\<lambda>k. sint (y + 20 * of_nat (Suc k))) [0..<N])"
  show "good_screen page"
    unfolding good_screen_def d using spaced_fewer [OF sp n] d(3,4) by (simp add: option_lines_heights)
qed

lemma offers_files: "offers (file_options file_of t w) \<le> 20"
proof -
  have "length (files_shown t w) \<le> 20" for w
    unfolding files_shown_def using length_takeWhile_le [of "\<lambda>i. i < t" "[w..w + WINDOW_SIZE]"] by (simp add: WINDOW_SIZE_def)
  then show ?thesis by (simp add: offers_def file_options_def o_def)
qed

lemma screen_backup_format: "good_screen (page_select_backup_format g s)"
  unfolding page_select_backup_format_def
  by (rule options_page(2) [OF refl headingI, where N = 5], (simp add: canvas_ops screen_heights; rule refl), simp, simp, simp,
      simp add: number_of_options, simp add: spaced_def upt_rec screen_heights)

lemma marks_backup_format: "marks g (page_select_backup_format g s) (map fst backup_format_options) (map snd backup_format_options) s"
  unfolding page_select_backup_format_def
  by (rule options_page(1) [OF refl headingI], (simp add: canvas_ops screen_heights; rule refl)) simp_all

lemma screen_gc_options: "good_screen (page_gc_options g s title b m)"
  unfolding page_gc_options_def
  by (rule options_page(2) [OF refl headingI, where N = 9], (simp add: canvas_ops screen_heights; rule refl), simp, simp, simp,
      simp add: number_of_options, simp add: spaced_def upt_rec screen_heights)

lemma marks_gc_options: "marks g (page_gc_options g s title b m) (map fst (gc_options b m)) (map snd (gc_options b m)) s"
  unfolding page_gc_options_def
  by (rule options_page(1) [OF refl headingI], (simp add: canvas_ops screen_heights; rule refl)) simp_all

lemma screen_input: "good_screen (page_select_input_location g s u x m h)"
  unfolding page_select_input_location_def
  by (rule options_page(2) [OF refl headingI, where N = 5], (simp add: canvas_ops screen_heights; rule refl), simp, simp, simp,
      simp add: number_of_options, simp add: spaced_def upt_rec screen_heights)

lemma marks_input: "marks g (page_select_input_location g s u x m h) (map fst (input_options u x m h)) (map snd (input_options u x m h)) s"
  unfolding page_select_input_location_def
  by (rule options_page(1) [OF refl headingI], (simp add: canvas_ops screen_heights; rule refl)) simp_all

lemma screen_output: "good_screen (page_select_output_location g s out u x m h n)"
  unfolding page_select_output_location_def
  by (rule options_page(2) [OF refl headingI, where N = 7], (simp add: canvas_ops screen_heights; rule refl), simp, simp, simp,
      simp add: number_of_options, simp add: spaced_def upt_rec screen_heights)

lemma marks_output: "marks g (page_select_output_location g s out u x m h n) (map fst (output_options u x m h n)) (map snd (output_options u x m h n)) s"
  unfolding page_select_output_location_def
  by (rule options_page(1) [OF refl headingI], (simp add: canvas_ops screen_heights; rule refl)) simp_all

lemma screen_network: "good_screen (page_network_settings g s ip p)"
  unfolding page_network_settings_def
  by (rule options_page(2) [OF refl headingI, where N = 3], (simp add: canvas_ops screen_heights; rule refl), simp, simp, simp,
      simp add: number_of_options, simp add: spaced_def upt_rec screen_heights)

lemma marks_network: "marks g (page_network_settings g s ip p) (map fst network_options) (map snd network_options) s"
  unfolding page_network_settings_def
  by (rule options_page(1) [OF refl headingI], (simp add: canvas_ops screen_heights; rule refl)) simp_all

lemma screen_format: "good_screen (page_format_confirm_menu g s dev)"
  unfolding page_format_confirm_menu_def
  by (rule options_page(2) [OF refl headingI, where N = 3], (simp add: canvas_ops screen_heights; rule refl), simp, simp, simp,
      simp add: number_of_options, simp add: spaced_def upt_rec screen_heights)

lemma marks_format: "marks g (page_format_confirm_menu g s dev) (map fst format_options) (map snd format_options) s"
  unfolding page_format_confirm_menu_def
  by (rule options_page(1) [OF refl headingI], (simp add: canvas_ops screen_heights; rule refl)) simp_all

lemma screen_file: "good_screen (page_select_file g s w folder file_of t)"
  unfolding page_select_file_def
  by (rule options_page(2) [OF refl headingI, where N = 20], (simp add: canvas_ops screen_heights; rule refl), simp, simp, simp,
      rule offers_files, simp add: spaced_def upt_rec screen_heights)

lemma marks_file: "marks g (page_select_file g s w folder file_of t) (map fst (file_options file_of t w)) (map snd (file_options file_of t w)) s"
  unfolding page_select_file_def
  by (rule options_page(1) [OF refl headingI], (simp add: canvas_ops screen_heights; rule refl)) simp_all

section \<open>Screens without options\<close>

lemma plain_screenI:
  "(\<And>c. page c = put (frame_head @ ds) (g c)) \<Longrightarrow> (\<And>c. calls (g c) = calls c) \<Longrightarrow> frame_rest ds \<Longrightarrow>
   spaced (text_heights ds) \<Longrightarrow> good_screen page"
  by (simp add: good_screen_def drawn_def)

lemma message_screens:
  "good_screen (page_insert_gc g)" "good_screen (page_ime g)" "good_screen (page_blacklisted_module_message g m)"
  "good_screen (page_kmodule_failed_message g m)" "good_screen (page_confirmation_message g title msg)"
  unfolding page_insert_gc_def page_ime_def page_blacklisted_module_message_def page_kmodule_failed_message_def
    page_confirmation_message_def
  by (rule plain_screenI, (simp add: canvas_ops screen_heights draw_texture_center_def draw_texture_def; rule refl), simp, simp,
      simp add: spaced_def screen_heights)+

lemma screen_progress: "good_screen (RESTORE_MENU g title what dev to progress whole)"
  unfolding RESTORE_MENU_def
  by (rule plain_screenI, (simp add: canvas_ops screen_heights draw_progress_bar_def Let_def; rule refl), simp, simp,
      simp add: spaced_def screen_heights)

lemma screen_device_info: "good_screen (page_device_info g info)"
proof -
  have l: "length (device_info_lines info) = 14" by (simp add: device_info_lines_def Let_def)
  show ?thesis
    unfolding page_device_info_def Let_def
    by (rule plain_screenI, (simp add: canvas_ops screen_heights l; rule refl), simp, simp,
        simp add: spaced_def screen_heights option_lines_heights offers_def o_def l upt_rec)
qed

section \<open>Properties\<close>

text \<open>C35: Every screen of the application is one complete frame: the library is started, the screen cleared and covered by the
  two textures, then only texts, rectangles and textures are drawn, and the frame is ended and shown; on no screen
  are two lines of text closer than twenty pixels, and all of them are between the title and the help for the buttons.\<close>

theorem screens_are_frames:
  "good_screen (page_select_backup_format g s) \<and> good_screen (page_gc_options g s title b m) \<and>
   good_screen (page_select_input_location g s u x usb h) \<and> good_screen (page_select_output_location g s out u x usb h n) \<and>
   good_screen (page_select_file g s w folder file_of t) \<and> good_screen (page_network_settings g s ip p) \<and>
   good_screen (page_format_confirm_menu g s dev) \<and> good_screen (page_insert_gc g) \<and> good_screen (page_ime g) \<and>
   good_screen (page_blacklisted_module_message g name) \<and> good_screen (page_kmodule_failed_message g name) \<and>
   good_screen (page_confirmation_message g title msg) \<and> good_screen (page_device_info g info) \<and>
   good_screen (draw_wipe_progress g dev out progress whole) \<and> good_screen (draw_restore_progress g dev out progress whole) \<and>
   good_screen (draw_dump_progress g dev out progress whole)"
  unfolding draw_wipe_progress_def draw_restore_progress_def draw_dump_progress_def
  by (intro conjI screen_backup_format screen_gc_options screen_input screen_output screen_file screen_network screen_format
      message_screens screen_progress screen_device_info)

lemma option_conditions:
  "map fst backup_format_options = fst (draw_select_backup_format s w)" "map fst (gc_options b m) = fst (draw_gc_options b m s w)"
  "map fst (input_options u x usb h) = fst (draw_select_input_location u x usb h s w)"
  "map fst (output_options u x usb h n) = fst (draw_select_output_location u x usb h n s w)"
  "map fst network_options = fst (draw_network_settings s w)" "map fst format_options = fst (draw_format_confirm_menu s w)"
  "map fst (file_options file_of t w) = fst (draw_select_file t s w)"
  by (simp_all add: backup_format_options_def draw_select_backup_format_def gc_options_def draw_gc_options_def input_options_def
      draw_select_input_location_def output_options_def draw_select_output_location_def network_options_def
      draw_network_settings_def format_options_def draw_format_confirm_menu_def file_options_def draw_select_file_def Let_def o_def)

text \<open>On every screen with options the array of options is the one the option machine works on, and the text of the option
  under the cursor is highlighted, and nothing else; in the list of files that is the file the cursor is at, counted from the window.\<close>

theorem selection_is_highlighted:
  "marks g (page_select_backup_format g s) (fst (draw_select_backup_format s w)) (map snd backup_format_options) s \<and>
   marks g (page_gc_options g s title b m) (fst (draw_gc_options b m s w)) (map snd (gc_options b m)) s \<and>
   marks g (page_select_input_location g s u x usb h) (fst (draw_select_input_location u x usb h s w)) (map snd (input_options u x usb h)) s \<and>
   marks g (page_select_output_location g s out u x usb h n) (fst (draw_select_output_location u x usb h n s w))
     (map snd (output_options u x usb h n)) s \<and>
   marks g (page_network_settings g s ip p) (fst (draw_network_settings s w)) (map snd network_options) s \<and>
   marks g (page_format_confirm_menu g s dev) (fst (draw_format_confirm_menu s w)) (map snd format_options) s \<and>
   marks g (page_select_file g s w folder file_of t) (fst (draw_select_file t s w))
     (map (\<lambda>i. printed (chars (file_of i))) (files_shown t (file_window t w))) s"
proof -
  have f: "map snd (file_options file_of t w) = map (\<lambda>i. printed (chars (file_of i))) (files_shown t (file_window t w))"
    by (simp add: file_options_def o_def)
  show ?thesis
    using marks_backup_format marks_gc_options marks_input marks_output marks_network marks_format marks_file [of g s w folder file_of t]
    by (simp only: option_conditions [where s = s and w = w] f simp_thms)
qed

section \<open>Progress\<close>

lemma part_done_bounds:
  assumes "0 < whole" "p \<le> q" "q \<le> whole"
  shows "0 \<le> part_done p whole" "part_done p whole \<le> part_done q whole" "part_done q whole \<le> 1" "part_done whole whole = 1"
proof -
  have w: "0 < single (of_nat whole)" using assms(1) by (intro single_pos) simp
  have m: "0 \<le> single (of_nat p)" "single (of_nat p) \<le> single (of_nat q)" "single (of_nat q) \<le> single (of_nat whole)"
    using assms(2,3) by (auto intro!: single_mono single_nonneg)
  have d: "0 \<le> single (of_nat p) / single (of_nat whole)" "single (of_nat p) / single (of_nat whole) \<le> single (of_nat q) / single (of_nat whole)"
    "single (of_nat q) / single (of_nat whole) \<le> of_int 1" "single (of_nat whole) / single (of_nat whole) = of_int 1"
    using m w by (simp_all add: divide_right_mono)
  show "0 \<le> part_done p whole" "part_done p whole \<le> part_done q whole"
    unfolding part_done_def using d by (auto intro: single_nonneg single_mono)
  have "0 \<le> single (of_nat q) / single (of_nat whole)" using d by linarith
  then show "part_done q whole \<le> 1" unfolding part_done_def using single_le_int [OF _ d(3)] by simp
  show "part_done whole whole = 1" unfolding part_done_def d(4) by (subst single_of_int) simp_all
qed

lemma bar_bounds:
  assumes "0 < whole" "p \<le> q" "q \<le> whole"
  shows "0 \<le> bar_px g p whole 456" "bar_px g p whole 456 \<le> bar_px g q whole 456" "bar_px g q whole 456 \<le> 456"
    "bar_px g whole whole 456 = 456"
proof -
  have n: "0 < unat whole" "unat p \<le> unat q" "unat q \<le> unat whole" and w: "whole \<noteq> 0"
    using assms by (auto simp: word_le_nat_alt word_less_nat_alt)
  note b = part_done_bounds [OF n]
  let ?p = "part_done (unat p) (unat whole) * 456" and ?q = "part_done (unat q) (unat whole) * 456"
  have e: "single 456 = 456" using single_of_int [of 456] by simp
  have le: "0 \<le> ?p" "?p \<le> ?q" "?q \<le> of_int 456" using b by simp_all
  have "single ?q \<le> of_int 456" using le by (intro single_le_int) simp_all
  then have "\<lfloor>single ?q\<rfloor> \<le> \<lfloor>of_int 456 :: rat\<rfloor>" by (rule floor_mono)
  then have "\<lfloor>single ?q\<rfloor> \<le> 456" by simp
  moreover have "0 \<le> single ?p" using le(1) by (rule single_nonneg)
  moreover have "\<lfloor>single ?p\<rfloor> \<le> \<lfloor>single ?q\<rfloor>" using single_mono [OF le(1,2)] by (rule floor_mono)
  ultimately show "0 \<le> bar_px g p whole 456" "bar_px g p whole 456 \<le> bar_px g q whole 456" "bar_px g q whole 456 \<le> 456"
    using w by (simp_all add: bar_px_def e)
  show "bar_px g whole whole 456 = 456" using w by (simp add: bar_px_def e b(4))
qed

lemma percent_bounds:
  assumes "0 < whole" "p \<le> q" "q \<le> whole"
  shows "0 \<le> percent g p whole" "percent g p whole \<le> percent g q whole" "percent g q whole \<le> 100"
    "percent g whole whole = 100"
proof -
  have n: "0 < unat whole" "unat p \<le> unat q" "unat q \<le> unat whole" and w: "whole \<noteq> 0"
    using assms by (auto simp: word_le_nat_alt word_less_nat_alt)
  note b = part_done_bounds [OF n]
  have "part_done (unat q) (unat whole) * 100 \<le> of_int 100" using b by simp
  then have "\<lfloor>part_done (unat q) (unat whole) * 100\<rfloor> \<le> \<lfloor>of_int 100 :: rat\<rfloor>" by (rule floor_mono)
  then show "0 \<le> percent g p whole" "percent g p whole \<le> percent g q whole" "percent g q whole \<le> 100"
    "percent g whole whole = 100"
    using w b by (simp_all add: percent_def floor_mono)
qed

text \<open>C36: While a part of a total that is not zero is done, the green bar is inside the grey one and the percentage is at most
  a hundred; both never go back as more is done, and show the end when it is reached, whatever the roundings of
  single precision.\<close>

theorem progress_stays_in_bounds:
  assumes "0 < whole" "p \<le> q" "q \<le> whole"
  shows "0 \<le> bar_px g p whole (MENUOVERLAY_WIDTH - MENUOVERLAY_PAD * 2) \<and>
    bar_px g p whole (MENUOVERLAY_WIDTH - MENUOVERLAY_PAD * 2) \<le> bar_px g q whole (MENUOVERLAY_WIDTH - MENUOVERLAY_PAD * 2) \<and>
    bar_px g q whole (MENUOVERLAY_WIDTH - MENUOVERLAY_PAD * 2) \<le> MENUOVERLAY_WIDTH - MENUOVERLAY_PAD * 2 \<and>
    bar_px g whole whole (MENUOVERLAY_WIDTH - MENUOVERLAY_PAD * 2) = MENUOVERLAY_WIDTH - MENUOVERLAY_PAD * 2 \<and>
    0 \<le> percent g p whole \<and> percent g p whole \<le> percent g q whole \<and> percent g q whole \<le> 100 \<and> percent g whole whole = 100"
proof -
  have "MENUOVERLAY_WIDTH - MENUOVERLAY_PAD * 2 = 456" by (simp add: screen_sizes)
  then show ?thesis using bar_bounds [OF assms, of g] percent_bounds [OF assms, of g] by simp
qed

theorem progress_stays_in_bounds_witness:
  "\<forall>g. bar_px g 1 3 (MENUOVERLAY_WIDTH - MENUOVERLAY_PAD * 2) \<le> bar_px g 2 3 (MENUOVERLAY_WIDTH - MENUOVERLAY_PAD * 2) \<and> percent g 2 3 \<le> 100"
  using progress_stays_in_bounds [of 3 1 2] by simp

text \<open>The rounding can reach the end before the operation does: one byte before the end of four gigabytes it is a hundred percent.\<close>

lemma hundred_percent_early: "percent g 0xFFFFFFFF 0x100000000 = 100"
proof -
  have floor: "\<lfloor>4294967295 / 256 :: rat\<rfloor> = 16777215" by (simp add: floor_eq_iff)
  have "exponent 4294967295 = 31" "exponent 4294967296 = 32" "exponent 1 = 0"
    by (simp_all add: exponent_def quotient_of_number compute_floorlog)
  then have "single 4294967295 = 4294967296" "single 4294967296 = 4294967296" "single 1 = 1"
    using floor by (simp_all add: single_def round_even_def power_int_def Let_def power_divide)
  then show ?thesis by (simp add: percent_def part_done_def)
qed

section \<open>Texts on the overlay\<close>

lemma fit_turns_width:
  "n \<le> strlen b \<Longrightarrow> n < length b \<Longrightarrow> chars b = take (Suc n) text \<Longrightarrow>
   snd (fit_turns width b n) = width (take (Suc (fitting width text n)) text)"
proof (induction n arbitrary: b)
  case 0
  then show ?case by (subst fit_turns.simps) simp
next
  case (Suc n)
  let ?b = "b[Suc n := 0]"
  have c: "chars ?b = take (Suc n) text" "strlen ?b = Suc n" using chars_cut [OF Suc(2,3)] Suc(4) by (simp_all add: min_def)
  have "fit_turns width b (Suc n) =
    (if 0 < n \<and> width (take (Suc (Suc n)) text) > TEXT_ROOM then fit_turns width ?b n else (?b, width (take (Suc (Suc n)) text)))"
    by (subst fit_turns.simps) (simp add: Suc(4))
  with Suc.IH [of ?b] c Suc(3) show ?case by (auto simp: not_less)
qed

lemma fitting_last: "width (take 2 t) \<le> TEXT_ROOM \<Longrightarrow> width (take 1 t) \<le> TEXT_ROOM \<Longrightarrow>
    width (take (Suc (fitting width t n)) t) \<le> TEXT_ROOM"
  by (induction n) (auto simp: numeral_2_eq_2)

text \<open>A text that is drawn stays within the margins of the overlay: it starts right of the left margin and ends left of the
  right one, for any message and any font that measures no text narrower than its beginning and in which two
  characters fit.\<close>

theorem texts_stay_on_overlay:
  assumes "length (msg_stk g) = MAX_PATH" "strlen msg < MAX_PATH - 1"
    and "\<And>m n. m \<le> n \<Longrightarrow> text_width g (take m (chars msg)) \<le> text_width g (take n (chars msg))"
    and "0 \<le> text_width g []" "text_width g (take 2 (chars msg)) \<le> TEXT_ROOM"
  shows "\<exists>x shown. calls (draw_text_center_color g y col msg c) = calls c @ [vita2d_pvf_draw_text x y col shown] \<and>
    MENUOVERLAY_POS_X + MENUOVERLAY_PAD \<le> x \<and>
    x + text_width g shown \<le> MENUOVERLAY_POS_X + MENUOVERLAY_WIDTH - MENUOVERLAY_PAD"
proof -
  let ?t = "chars msg" and ?b = "strncpy (msg_stk g) 0 msg (MAX_PATH - 1)" and ?n = "strlen msg" and ?w = "text_width g"
  obtain b w where bw: "fitted_text ?w (msg_stk g) msg = (b, w)" by force
  have c: "chars ?b = ?t" "strlen ?b = ?n" "?n < length ?b"
    using chars_strncpy [OF assms(1,2)] assms(1,2) by simp_all
  then have b: "chars ?b = take (Suc ?n) ?t" by simp
  have f: "(b, w) = fit_turns ?w ?b ?n" using bw assms(2) by (simp add: fitted_text_def)
  have cb: "chars b = take (fitting ?w ?t ?n) ?t"
    using fit_turns_fitting [OF _ c(3) b, of ?w] unfolding f [symmetric] c(2) fst_conv by blast
  have w: "w = ?w (take (Suc (fitting ?w ?t ?n)) ?t)"
    using fit_turns_width [OF _ c(3) b, of ?w] unfolding f [symmetric] c(2) snd_conv by blast
  have one: "?w (take 1 ?t) \<le> TEXT_ROOM" using assms(3) [of 1 2] assms(5) by simp
  have "w \<le> TEXT_ROOM" unfolding w by (rule fitting_last [OF assms(5) one])
  moreover have "0 \<le> w" using assms(3) [of 0 "Suc (fitting ?w ?t ?n)"] assms(4) w by simp
  moreover have "?w (chars b) \<le> w" unfolding cb w by (rule assms(3)) simp
  ultimately show ?thesis
    by (intro exI [of _ "text_x w"] exI [of _ "chars b"])
       (simp add: draw_text_center_color_def bw draw_text_color_def call_def text_x_def screen_sizes TEXT_ROOM_def; linarith)
qed

theorem texts_stay_on_overlay_witness:
  "\<exists>x shown. calls (draw_text_center_color \<lparr>text_width = (\<lambda>t. 100 * int (length t)), texture_width = (\<lambda>t. 0),
        gfx_ctrl = init_ctrl True, msg_stk = zeros MAX_PATH, not_a_number = 0\<rparr> 54 COLOR_WHITE (cstr ''abcdef'') \<lparr>oy = 0, opts = [], calls = []\<rparr>) =
      [vita2d_pvf_draw_text x 54 COLOR_WHITE shown] \<and> 466 \<le> x"
proof -
  let ?g = "\<lparr>text_width = (\<lambda>t. 100 * int (length t)), texture_width = (\<lambda>t. 0), gfx_ctrl = init_ctrl True, msg_stk = zeros MAX_PATH, not_a_number = 0\<rparr>"
  have c: "strlen (cstr ''abcdef'') = 6" by (simp add: strlen_def cstr_def)
  have g: "text_width ?g (take m (chars (cstr ''abcdef''))) \<le> text_width ?g (take n (chars (cstr ''abcdef'')))" if "m \<le> n" for m n
    using that by simp
  show ?thesis
    using texts_stay_on_overlay [of ?g "cstr ''abcdef''", OF _ _ g, of 54 COLOR_WHITE "\<lparr>oy = 0, opts = [], calls = []\<rparr>"]
    by (auto simp: c MAX_PATH_def TEXT_ROOM_def screen_sizes)
qed

end
