(* ===== verification/MenuScreen.thy ===== *)
theory MenuScreen
  imports PageLaws
begin

text \<open>
  The macro \<^verbatim>\<open>PROCESS_MENU\<close> with its screens: every turn draws the screen of the menu, waits for a key and moves the
  selection over the options the drawing has recorded.  It does what the option machine of theory Menu does, and
  what is confirmed is what the last screen highlights.
\<close>

section \<open>The loop with its screens\<close>

text \<open>A screen is drawn for a selection and a window, and returns the window it has changed.\<close>

type_synonym page = "int \<Rightarrow> int \<Rightarrow> canvas \<Rightarrow> canvas \<times> int"

partial_function (option) screen_loop ::
  "('e \<Rightarrow> (u32 \<times> 'e) option) \<Rightarrow> ctrl_state \<Rightarrow> u8 \<Rightarrow> page \<Rightarrow> int \<Rightarrow> int \<Rightarrow> 'e \<Rightarrow> canvas \<Rightarrow> ((int + int) \<times> 'e \<times> canvas) option" where
  "screen_loop key ctrls behind page selected window e c =
     (case page selected window c of
        (c, window) \<Rightarrow>
          Option.bind (key e) (\<lambda>(ctrl, e).
            case menu_turn ctrls ctrl (set_options (opts c) @ [behind]) (int (length (opts c))) selected window of
              Inl r \<Rightarrow> Some (r, e, c)
            | Inr (selected, window) \<Rightarrow> screen_loop key ctrls behind page selected window e c))"

definition PROCESS_SCREEN ::
  "('e \<Rightarrow> (u32 \<times> 'e) option) \<Rightarrow> ctrl_state \<Rightarrow> u8 \<Rightarrow> page \<Rightarrow> 'e \<Rightarrow> canvas \<Rightarrow> ((int + int) \<times> 'e \<times> canvas) option" where
  "PROCESS_SCREEN key ctrls behind page e c =
     (let (c, window) = page 0 0 c;
          selected = int (CALC_FIRST_OPTION (set_options (opts c) @ [behind]))
      in screen_loop key ctrls behind page selected window e c)"

text \<open>The menus with the arguments of their screens.\<close>

datatype menu_screen =
    Backup_Format
  | Gc_Options bytes bool bool
  | Input_Location bool bool bool bool
  | Output_Location bytes bool bool bool bool bool
  | Select_File bytes "int \<Rightarrow> bytes" int
  | Network_Settings bytes u16
  | Format_Confirm bytes

fun screen_page :: "gfx \<Rightarrow> menu_screen \<Rightarrow> page" where
  "screen_page g Backup_Format s w c = (page_select_backup_format g s c, w)"
| "screen_page g (Gc_Options title has_grw0 has_mediaid) s w c = (page_gc_options g s title has_grw0 has_mediaid c, w)"
| "screen_page g (Input_Location u x usb h) s w c = (page_select_input_location g s u x usb h c, w)"
| "screen_page g (Output_Location out u x usb h n) s w c = (page_select_output_location g s out u x usb h n c, w)"
| "screen_page g (Select_File folder file_of total_files) s w c =
     (page_select_file g s w folder file_of total_files c, file_window total_files w)"
| "screen_page g (Network_Settings ip port) s w c = (page_network_settings g s ip port c, w)"
| "screen_page g (Format_Confirm device) s w c = (page_format_confirm_menu g s device c, w)"

fun screen_menu :: "menu_screen \<Rightarrow> menu" where
  "screen_menu Backup_Format = draw_select_backup_format"
| "screen_menu (Gc_Options title has_grw0 has_mediaid) = draw_gc_options has_grw0 has_mediaid"
| "screen_menu (Input_Location u x usb h) = draw_select_input_location u x usb h"
| "screen_menu (Output_Location out u x usb h n) = draw_select_output_location u x usb h n"
| "screen_menu (Select_File folder file_of total_files) = draw_select_file total_files"
| "screen_menu (Network_Settings ip port) = draw_network_settings"
| "screen_menu (Format_Confirm device) = draw_format_confirm_menu"

text \<open>The texts of the options; only the file list has others for another window.\<close>

fun screen_labels :: "menu_screen \<Rightarrow> int \<Rightarrow> bytes list" where
  "screen_labels Backup_Format w = map snd backup_format_options"
| "screen_labels (Gc_Options title has_grw0 has_mediaid) w = map snd (gc_options has_grw0 has_mediaid)"
| "screen_labels (Input_Location u x usb h) w = map snd (input_options u x usb h)"
| "screen_labels (Output_Location out u x usb h n) w = map snd (output_options u x usb h n)"
| "screen_labels (Select_File folder file_of total_files) w = map snd (file_options file_of total_files w)"
| "screen_labels (Network_Settings ip port) w = map snd network_options"
| "screen_labels (Format_Confirm device) w = map snd format_options"

section \<open>Messages\<close>

text \<open>A message stays on the screen until one of the two buttons is pressed.\<close>

partial_function (option) wait_for_confirm :: "('e \<Rightarrow> (u32 \<times> 'e) option) \<Rightarrow> ctrl_state \<Rightarrow> 'e \<Rightarrow> 'e option" where
  "wait_for_confirm key ctrls e =
     Option.bind (key e) (\<lambda>(ctrl, e).
       if ctrl = SCE_CTRL_CONFIRM ctrls \<or> ctrl = SCE_CTRL_CANCEL ctrls then Some e else wait_for_confirm key ctrls e)"

definition do_message ::
  "('e \<Rightarrow> (u32 \<times> 'e) option) \<Rightarrow> ctrl_state \<Rightarrow> (canvas \<Rightarrow> canvas) \<Rightarrow> 'e \<Rightarrow> canvas \<Rightarrow> ('e \<times> canvas) option" where
  "do_message key ctrls page e c = (let c = page c in map_option (\<lambda>e. (e, c)) (wait_for_confirm key ctrls e))"

definition do_blacklisted_module_message ::
  "('e \<Rightarrow> (u32 \<times> 'e) option) \<Rightarrow> ctrl_state \<Rightarrow> gfx \<Rightarrow> bytes \<Rightarrow> 'e \<Rightarrow> canvas \<Rightarrow> ('e \<times> canvas) option" where
  "do_blacklisted_module_message key ctrls g module_name = do_message key ctrls (page_blacklisted_module_message g module_name)"

definition do_kmodule_failed_message ::
  "('e \<Rightarrow> (u32 \<times> 'e) option) \<Rightarrow> ctrl_state \<Rightarrow> gfx \<Rightarrow> bytes \<Rightarrow> 'e \<Rightarrow> canvas \<Rightarrow> ('e \<times> canvas) option" where
  "do_kmodule_failed_message key ctrls g module_name = do_message key ctrls (page_kmodule_failed_message g module_name)"

lemma wait_for_confirm_keys:
  "wait_for_confirm next_key ctrls ks =
   (case dropWhile (\<lambda>k. k \<noteq> SCE_CTRL_CONFIRM ctrls \<and> k \<noteq> SCE_CTRL_CANCEL ctrls) ks of [] \<Rightarrow> None | k # rest \<Rightarrow> Some rest)"
  by (induction ks) (subst wait_for_confirm.simps, simp)+

section \<open>Lemmas\<close>

text \<open>A screen that records the options of its menu, and the window.\<close>

definition shows_menu :: "page \<Rightarrow> menu \<Rightarrow> bool" where
  "shows_menu page func \<longleftrightarrow> (\<forall>s w c. (opts (fst (page s w c)), snd (page s w c)) = func s w)"

lemma shows_menuE:
  assumes "shows_menu page func"
  obtains c' w' where "page s w c = (c', w')" "func s w = (opts c', w')"
  using assms unfolding shows_menu_def by (metis prod.collapse)

lemma screen_loop_menu:
  "screen_loop key ctrls behind page s w e c = Some y \<Longrightarrow> shows_menu page func \<Longrightarrow>
    menu_loop key ctrls behind func s w e = Some (fst y, fst (snd y)) \<and>
    (\<forall>t. fst y = Inr t \<longrightarrow> (\<exists>w c. snd (snd y) = fst (page t w c)))"
proof (induction rule: screen_loop.raw_induct [rotated, consumes 1])
  case (1 screen_loop key ctrls behind page s w e c y)
  obtain c1 w1 where p: "page s w c = (c1, w1)" and f: "func s w = (opts c1, w1)"
    using shows_menuE [OF 1(3)] by blast
  with 1(2) obtain k e1 where k: "key e = Some (k, e1)" by (cases "key e") auto
  let ?t = "menu_turn ctrls k (set_options (opts c1) @ [behind]) (int (length (opts c1))) s w1"
  show ?case
  proof (cases ?t)
    case (Inl r)
    with 1(2) p k have y: "y = (r, e1, c1)" by simp
    moreover have "c1 = fst (page s w c)" by (simp add: p)
    ultimately show ?thesis
      using menu_turn_left [OF Inl] Inl f k by (subst menu_loop.simps) auto
  next
    case (Inr sw)
    obtain s' w' where sw: "sw = (s', w')" by (cases sw)
    with 1(1) [of key ctrls behind page s' w' e1 c1 y] 1(2,3) p k Inr show ?thesis
      by (subst menu_loop.simps) (simp add: f)
  qed
qed

lemma menu_loop_screen:
  "menu_loop key ctrls behind func s w e = Some y \<Longrightarrow> shows_menu page func \<Longrightarrow>
   \<exists>c'. screen_loop key ctrls behind page s w e c = Some (fst y, snd y, c')"
proof (induction arbitrary: c rule: menu_loop.raw_induct [rotated, consumes 1])
  case (1 menu_loop key ctrls behind func s w e y)
  obtain c1 w1 where p: "page s w c = (c1, w1)" and f: "func s w = (opts c1, w1)"
    using shows_menuE [OF 1(3)] by blast
  with 1(2) obtain k e1 where k: "key e = Some (k, e1)" by (cases "key e") auto
  show ?case
  proof (cases "menu_turn ctrls k (set_options (opts c1) @ [behind]) (int (length (opts c1))) s w1")
    case (Inl r)
    with 1(2) f k have "y = (r, e1)" by simp
    with Inl p k show ?thesis by (subst screen_loop.simps) simp
  next
    case (Inr sw)
    obtain s' w' where sw: "sw = (s', w')" by (cases sw)
    with 1(1) [of key ctrls behind func s' w' e1 y c1] 1(2,3) f k Inr show ?thesis
      by (subst screen_loop.simps) (simp add: p)
  qed
qed

lemma PROCESS_SCREEN_menu:
  assumes "shows_menu page func"
  shows "map_option (\<lambda>(r, e, c). (r, e)) (PROCESS_SCREEN key ctrls behind page e c) = PROCESS_MENU key ctrls behind func e"
    and "PROCESS_SCREEN key ctrls behind page e c = Some (Inr t, e', c') \<Longrightarrow> \<exists>w c. c' = fst (page t w c)"
proof -
  obtain c1 w1 where p: "page 0 0 c = (c1, w1)" and f: "func 0 0 = (opts c1, w1)"
    using shows_menuE [OF assms] by blast
  let ?s = "int (CALC_FIRST_OPTION (set_options (opts c1) @ [behind]))"
  have l: "PROCESS_SCREEN key ctrls behind page e c = screen_loop key ctrls behind page ?s w1 e c1"
    "PROCESS_MENU key ctrls behind func e = menu_loop key ctrls behind func ?s w1 e"
    by (simp_all add: PROCESS_SCREEN_def PROCESS_MENU_def p f)
  show "map_option (\<lambda>(r, e, c). (r, e)) (PROCESS_SCREEN key ctrls behind page e c) = PROCESS_MENU key ctrls behind func e"
    unfolding l
    using screen_loop_menu [OF _ assms, of key ctrls behind ?s w1 e c1] menu_loop_screen [OF _ assms, of key ctrls behind ?s w1 e _ c1]
    by (cases "menu_loop key ctrls behind func ?s w1 e"; cases "screen_loop key ctrls behind page ?s w1 e c1") fastforce+
  show "PROCESS_SCREEN key ctrls behind page e c = Some (Inr t, e', c') \<Longrightarrow> \<exists>w c. c' = fst (page t w c)"
    unfolding l using screen_loop_menu [OF _ assms, of key ctrls behind ?s w1 e c1] by fastforce
qed

text \<open>The screens of the menus record the options of the option machine and highlight the selected one.\<close>

fun is_file_list :: "menu_screen \<Rightarrow> bool" where
  "is_file_list (Select_File folder file_of total_files) = True" | "is_file_list m = False"

lemmas option_marks = marks_backup_format marks_gc_options marks_input marks_output marks_network marks_format marks_file

lemma screen_marks: "marks g (\<lambda>c. fst (screen_page g m s w c)) (fst (screen_menu m s w)) (screen_labels m w) s"
proof (cases m)
  case (Select_File folder file_of total_files)
  then show ?thesis
    using marks_file [of g s w folder file_of total_files]
    by (simp add: option_conditions(7) [where s = s])
qed (simp_all add: option_marks option_conditions [where s = s and w = w, symmetric])

lemma screen_shows_menu: "shows_menu (screen_page g m) (screen_menu m)"
proof -
  have "snd (screen_page g m s w c) = snd (screen_menu m s w)" for s w c
    by (cases m) (simp_all add: draw_select_backup_format_def draw_gc_options_def draw_select_input_location_def
        draw_select_output_location_def draw_network_settings_def draw_format_confirm_menu_def draw_select_file_def Let_def)
  then show ?thesis using screen_marks [of g m] unfolding shows_menu_def marks_def by (metis prod.collapse)
qed

lemma screen_is_good: "good_screen (\<lambda>c. fst (screen_page g m s w c))"
  by (cases m) (simp_all add: screen_backup_format screen_gc_options screen_input screen_output screen_file screen_network screen_format)

lemma screen_conditions:
  assumes "\<not> is_file_list m" "behind \<noteq> 1"
  shows "fst (screen_menu m s w) = fst (screen_menu m 0 0)" "proper (fst (screen_menu m 0 0)) behind"
  using assms
  by (cases m; simp add: proper_def BUFFER_SIZE_def draw_select_backup_format_def draw_gc_options_def draw_select_input_location_def
      draw_select_output_location_def draw_network_settings_def draw_format_confirm_menu_def)+

lemma reached_offered:
  "menu_reaches ctrls behind func s w \<Longrightarrow> (\<And>s w. fst (func s w) = conds) \<Longrightarrow> proper conds behind \<Longrightarrow> offered conds s"
proof (induction rule: menu_reaches.induct)
  case (reach_start cs w)
  then have "cs = conds" by (metis fst_conv)
  then show ?case using first_option(1) [OF reach_start.prems(2)] by simp
next
  case (reach_turn s w cs w1 k s' w')
  then have "cs = conds" "offered conds s" by (metis fst_conv, simp)
  then show ?case using menu_turn_offered [OF reach_turn.prems(2)] reach_turn.hyps(3) by blast
qed

lemma answer_offered:
  assumes "PROCESS_MENU key ctrls behind func e = Some (Inr t, e')" "\<And>s w. fst (func s w) = conds" "proper conds behind"
  shows "offered conds t"
proof -
  obtain w where f: "func 0 0 = (conds, w)" using assms(2) [of 0 0] by (cases "func 0 0") simp
  let ?s = "int (CALC_FIRST_OPTION (set_options conds @ [behind]))"
  have "menu_loop key ctrls behind func ?s w e = Some (Inr t, e')" using assms(1) by (simp add: PROCESS_MENU_def f)
  then obtain v where "menu_reaches ctrls behind func t v"
    using menu_loop_reached [of key ctrls behind func ?s w e "(Inr t, e')" t] reach_start [of func conds w ctrls behind, OF f] by auto
  then show ?thesis by (rule reached_offered [OF _ assms(2,3)])
qed

section \<open>Property\<close>

text \<open>C40: A menu with its screens answers what the option machine answers to the same keys, and goes on as long.  When it answers with an
  option, the last thing drawn is a complete frame that highlights one text, that of this option, and the option is one that is
  offered; in the list of files it is the file at the place of the option in the window, if there is one.
\<close>

theorem confirmed_is_highlighted:
  assumes "behind \<noteq> 1" "PROCESS_SCREEN key ctrls behind (screen_page g m) e c = Some (Inr t, e', c')"
  shows "map_option (\<lambda>(r, e, c). (r, e)) (PROCESS_SCREEN key ctrls behind (screen_page g m) i d) =
      PROCESS_MENU key ctrls behind (screen_menu m) i \<and>
    (\<exists>before frame w. calls c' = before @ frame \<and> is_frame frame \<and>
      (offered (fst (screen_menu m t w)) t \<or> is_file_list m) \<and>
      highlighted frame = (if offered (fst (screen_menu m t w)) t then [shown g (screen_labels m w ! nat t)] else []))"
proof -
  note r = PROCESS_SCREEN_menu [OF screen_shows_menu, of key ctrls behind g m]
  obtain w c0 where c': "c' = fst (screen_page g m t w c0)" using r(2) [OF assms(2)] by blast
  let ?frame = "drawn (\<lambda>c. fst (screen_page g m t w c)) c0"
  have "calls c' = take (length (calls c0)) (calls c') @ ?frame" by (simp add: drawn_def c')
  moreover have "is_frame ?frame" using screen_is_good [of g m t w] by (simp add: good_screen_def)
  moreover have "highlighted ?frame = (if offered (fst (screen_menu m t w)) t then [shown g (screen_labels m w ! nat t)] else [])"
    using screen_marks [of g m t w] by (simp add: marks_def)
  moreover have "offered (fst (screen_menu m t w)) t" if "\<not> is_file_list m"
  proof -
    have "PROCESS_MENU key ctrls behind (screen_menu m) e = Some (Inr t, e')" using r(1) [of e c] assms(2) by simp
    then show ?thesis
      using answer_offered [of key ctrls behind "screen_menu m"] screen_conditions [OF that assms(1)] by metis
  qed
  ultimately show ?thesis using r(1) by blast
qed

text \<open>The menu that asks before a format: down, and confirmed.\<close>

theorem confirmed_is_highlighted_witness:
  "\<forall>g. \<exists>before frame c'. PROCESS_SCREEN next_key (init_ctrl False) 0 (screen_page g (Format_Confirm (cstr ''grw0:'')))
      [SCE_CTRL_DOWN, SCE_CTRL_CROSS] \<lparr>oy = 0, opts = [], calls = []\<rparr> = Some (Inr 1, [], c') \<and>
    calls c' = before @ frame \<and> is_frame frame \<and> highlighted frame = [shown g (cstr ''Quick format'')]"
proof
  fix g
  let ?m = "Format_Confirm (cstr ''grw0:'')" and ?ks = "[SCE_CTRL_DOWN, SCE_CTRL_CROSS]" and ?c = "[True, True, True]"
  let ?run = "PROCESS_SCREEN next_key (init_ctrl False) 0 (screen_page g ?m) ?ks \<lparr>oy = 0, opts = [], calls = []\<rparr>"
  have p: "proper ?c 0" by (simp add: proper_def BUFFER_SIZE_def)
  let ?first = "int (CALC_FIRST_OPTION (set_options ?c @ [0]))"
  have "[0..2 :: int] = [0, 1, 2]" by code_simp
  with first_option_find [OF p] have first: "?first = 0" by (simp add: offered_def)
  have "cursor (init_ctrl False) ?c 0 ?ks = Some (Inr 1, [])" by code_simp
  with first menu_loop_cursor [of draw_format_confirm_menu ?c 0 0 False 0 ?ks] p
  have "PROCESS_MENU next_key (init_ctrl False) 0 (screen_menu ?m) ?ks = Some (Inr 1, [])"
    by (simp add: PROCESS_MENU_def draw_format_confirm_menu_def offered_def)
  then obtain c' where run: "?run = Some (Inr 1, [], c')"
    using PROCESS_SCREEN_menu(1) [OF screen_shows_menu, of next_key "init_ctrl False" 0 g ?m ?ks "\<lparr>oy = 0, opts = [], calls = []\<rparr>"]
    by (cases ?run) auto
  from confirmed_is_highlighted [OF _ this, of ?ks "\<lparr>oy = 0, opts = [], calls = []\<rparr>"]
  obtain before frame where "calls c' = before @ frame" "is_frame frame" "highlighted frame = [shown g (cstr ''Quick format'')]"
    by (auto simp: draw_format_confirm_menu_def offered_def format_options_def split: if_splits)
  with run show "\<exists>before frame c'. ?run = Some (Inr 1, [], c') \<and> calls c' = before @ frame \<and> is_frame frame \<and>
      highlighted frame = [shown g (cstr ''Quick format'')]" by blast
qed

end
