(* ===== verification/Fractions.thy ===== *)
theory Fractions
  imports Dump
begin

text \<open>
  What the progress callback of \<^verbatim>\<open>app/device.c\<close> is told: on a card whose driver answers as documented, and whatever the
  files and the network do, the number of bytes done is positive and at most the total, at every call.  Callbacks are
  functions of an arbitrary environment, so this is said by exchanging the callback for one that differs only elsewhere:
  the operation cannot tell the two apart.
\<close>

definition same_on_fractions :: "'e progress \<Rightarrow> 'e progress \<Rightarrow> bool" where
  "same_on_fractions f g \<longleftrightarrow> (\<forall>dev path d n e. 0 < d \<and> d \<le> n \<longrightarrow> f dev path d n e = g dev path d n e)"

fun with_callback :: "'e progress \<Rightarrow> int \<times> 'e BackupState \<times> bytes \<times> 'e \<Rightarrow> int \<times> 'e BackupState \<times> bytes \<times> 'e" where
  "with_callback g (r, st, buf, e) = (r, st\<lparr>bs_callback := Some g\<rparr>, buf, e)"

section \<open>The loop\<close>

lemma step_swap:
  assumes "device_access_step rd wr n (st, buf, e) = Inr (st1, buf1, e1)" "bs_callback st = Some f"
    and "\<And>dev path e. f dev path (bs_total st1) n e = g dev path (bs_total st1) n e"
  shows "device_access_step rd wr n (st\<lparr>bs_callback := Some g\<rparr>, buf, e) = Inr (st1\<lparr>bs_callback := Some g\<rparr>, buf1, e1)"
  using assms by (auto simp: device_access_step_def Let_def split: prod.splits if_splits)

lemma step_return_swap:
  "device_access_step rd wr n (st, buf, e) = Inl r \<Longrightarrow>
   device_access_step rd wr n (st\<lparr>bs_callback := Some g\<rparr>, buf, e) = Inl (with_callback g r)"
  by (auto simp: device_access_step_def Let_def split: prod.splits if_splits)

text \<open>\<open>P\<close> is an invariant of the loop under which every turn counts some bytes and stays below the total.\<close>

definition counts_up ::
  "('e BackupState \<Rightarrow> 'e \<Rightarrow> bool) \<Rightarrow> 'e progress \<Rightarrow> 'e rd_func \<Rightarrow> 'e wr_func \<Rightarrow> u64 \<Rightarrow> bool" where
  "counts_up P f rd wr n \<longleftrightarrow>
     (\<forall>st buf e. P st e \<longrightarrow> bs_callback st = Some f \<and>
       (\<forall>st1 buf1 e1. device_access_step rd wr n (st, buf, e) = Inr (st1, buf1, e1) \<longrightarrow>
          P st1 e1 \<and> bs_total st < bs_total st1 \<and> bs_total st1 \<le> n))"

lemma turns_swap:
  assumes up: "counts_up P f rd wr n" and same: "same_on_fractions f g"
  shows "P st e \<Longrightarrow> access_turns rd wr n (st\<lparr>bs_callback := Some g\<rparr>, buf, e) =
    map_option (with_callback g) (access_turns rd wr n (st, buf, e))"
proof (induction "unat n - unat (bs_total st)" arbitrary: st buf e rule: less_induct)
  case less
  note unfold = access_turns.simps [of rd wr n "(st, buf, e)"]
    access_turns.simps [of rd wr n "(st\<lparr>bs_callback := Some g\<rparr>, buf, e)"]
  show ?case
  proof (cases "device_access_step rd wr n (st, buf, e)")
    case (Inl r)
    then show ?thesis unfolding unfold by (simp add: step_return_swap)
  next
    case (Inr s)
    then obtain st1 buf1 e1 where step: "device_access_step rd wr n (st, buf, e) = Inr (st1, buf1, e1)" by (cases s) auto
    with up less.prems have st1: "bs_callback st = Some f" "P st1 e1" "bs_total st < bs_total st1" "bs_total st1 \<le> n"
      unfolding counts_up_def by blast+
    then have "0 < bs_total st1" using word_gt_0_no by (metis word_neq_0_conv word_not_simps(1))
    with same st1 have swapped: "device_access_step rd wr n (st\<lparr>bs_callback := Some g\<rparr>, buf, e) =
        Inr (st1\<lparr>bs_callback := Some g\<rparr>, buf1, e1)"
      by (intro step_swap [OF step st1(1)]) (simp add: same_on_fractions_def)
    have "unat n - unat (bs_total st1) < unat n - unat (bs_total st)" if "bs_total st1 < n"
      using st1(3) that by (simp add: word_less_nat_alt diff_less_mono2)
    with less.hyps [OF _ st1(2), of buf1] show ?thesis unfolding unfold by (simp add: step swapped)
  qed
qed

section \<open>What the turns count\<close>

text \<open>The card as the loop sees it: of \<open>n\<close> bytes, and at least as far on as the bytes counted.\<close>

definition counted :: "('e \<Rightarrow> 'z io_view_scheme) \<Rightarrow> 'e progress \<Rightarrow> nat \<Rightarrow> 'e BackupState \<Rightarrow> 'e \<Rightarrow> bool" where
  "counted view f n st e \<longleftrightarrow> bs_callback st = Some f \<and> length (sectors (view e)) = n \<and>
     sec_pos (view e) \<le> n \<and> unat (bs_total st) \<le> sec_pos (view e)"

definition same_card_in :: "('e \<Rightarrow> 'z io_view_scheme) \<Rightarrow> 'e \<Rightarrow> 'e \<Rightarrow> bool" where
  "same_card_in view e e' \<longleftrightarrow> sectors (view e') = sectors (view e) \<and> sec_pos (view e') = sec_pos (view e)"

lemma same_card_trans: "same_card_in view e e1 \<Longrightarrow> same_card_in view e1 e2 \<Longrightarrow> same_card_in view e e2"
  by (simp add: same_card_in_def)

text \<open>A writer that takes at most the bytes it is given, and a callback that leaves the card alone.\<close>

definition takes_at_most :: "('e \<Rightarrow> 'z io_view_scheme) \<Rightarrow> 'e wr_func \<Rightarrow> bool" where
  "takes_at_most view wr \<longleftrightarrow> (\<forall>fd data e. fst (wr fd data e) \<le> int (length data) \<and> same_card_in view e (snd (wr fd data e)))"

definition spares_card :: "('e \<Rightarrow> 'z io_view_scheme) \<Rightarrow> 'e progress \<Rightarrow> bool" where
  "spares_card view f \<longleftrightarrow> (\<forall>dev path d n e. same_card_in view e (f dev path d n e))"

lemma count_more:
  assumes "unat (t :: u64) \<le> p" "0 < k" "p + k \<le> n" "n < 2 ^ 64"
  shows "unat (t + of_nat k) = unat t + k"
proof -
  have "unat t + k < 2 ^ 64" using assms by linarith
  then show ?thesis by (simp add: unat_word_ariths unat_of_nat take_bit_nat_eq_self mod_simps)
qed

lemma reading_counts_up:
  assumes drv: "card_driver sys dev dfd view" and wr: "takes_at_most view wr" and f: "spares_card view f" and n: "n < 2 ^ 64"
  shows "counts_up (\<lambda>st e. counted view f n st e \<and> bs_rd_fd st = dfd) f (kReadDevice sys) wr (of_nat n)"
  unfolding counts_up_def
proof (intro allI impI, elim conjE, intro conjI allI impI)
  fix st buf e
  assume P: "counted view f n st e" "bs_rd_fd st = dfd"
  then show "bs_callback st = Some f" by (simp add: counted_def)
  fix st1 buf1 e1
  assume step: "device_access_step (kReadDevice sys) wr (of_nat n) (st, buf, e) = Inr (st1, buf1, e1)"
  define r where "r = min (length buf) (length (sectors (view e)) - sec_pos (view e))"
  from card_driver_facts(8) [OF drv this] obtain b e2 where
    rd: "kReadDevice sys dfd buf e = (int r, b, e2)" "view e2 = (view e)\<lparr>sec_pos := sec_pos (view e) + r\<rparr>" by blast
  obtain w e3 where w: "wr (bs_wr_fd st) (take r b) e2 = (w, e3)" by (cases "wr (bs_wr_fd st) (take r b) e2")
  from wr [unfolded takes_at_most_def, rule_format, of "bs_wr_fd st" "take r b" e2] w
  have w1: "w \<le> int r" "same_card_in view e2 e3" by auto
  have e1: "0 < w" "bs_total st1 = bs_total st + word_of_int w" "bs_callback st1 = Some f" "bs_rd_fd st1 = dfd"
      "e1 = f (bs_block_device st) (bs_output_path st) (bs_total st + word_of_int w) (of_nat n) e3"
    using step P rd(1) w by (auto simp: device_access_step_def counted_def Let_def split: if_splits)
  then have c1: "same_card_in view e3 e1" using f by (simp add: spares_card_def)
  define k where "k = nat w"
  have k: "0 < k" "k \<le> r" "word_of_int w = (of_nat k :: u64)" using e1(1) w1(1) by (simp_all add: k_def)
  have r: "sec_pos (view e) + r \<le> n" using P(1) by (auto simp: r_def counted_def min_def)
  have t: "unat (bs_total st1) = unat (bs_total st) + k"
    unfolding e1(2) k(3) using count_more [OF _ k(1) _ n, of "bs_total st" "sec_pos (view e)"] k(2) r P(1)
    by (simp add: counted_def)
  show "counted view f n st1 e1"
    using P(1) t r k w1(2) c1 rd(2) e1(3) by (simp add: counted_def same_card_in_def)
  show "bs_rd_fd st1 = dfd" by (rule e1)
  have "unat (bs_total st1) \<le> n" using t k r P(1) by (simp add: counted_def)
  then show "bs_total st < bs_total st1" "bs_total st1 \<le> of_nat n"
    using t k n by (simp_all add: word_less_nat_alt word_le_nat_alt unat_of_nat take_bit_nat_eq_self)
qed

text \<open>A reader of the card's new contents leaves the card alone.\<close>

lemma writing_counts_up:
  assumes drv: "card_driver sys dev dfd view" and f: "spares_card view f" and n: "n < 2 ^ 64"
    and rd: "\<And>fd buf e. same_card_in view e (snd (snd (rd fd buf e)))"
  shows "counts_up (\<lambda>st e. counted view f n st e \<and> bs_wr_fd st = dfd) f rd (kWriteDevice sys) (of_nat n)"
  unfolding counts_up_def
proof (intro allI impI, elim conjE, intro conjI allI impI)
  fix st buf e
  assume P: "counted view f n st e" "bs_wr_fd st = dfd"
  then show "bs_callback st = Some f" by (simp add: counted_def)
  fix st1 buf1 e1
  assume step: "device_access_step rd (kWriteDevice sys) (of_nat n) (st, buf, e) = Inr (st1, buf1, e1)"
  obtain r b e2 where rd2: "rd (bs_rd_fd st) buf e = (r, b, e2)" by (metis prod_cases3)
  with rd [of e "bs_rd_fd st" buf] have c2: "same_card_in view e e2" by simp
  define k where "k = min (length (take (nat r) b)) (length (sectors (view e2)) - sec_pos (view e2))"
  from card_driver_facts(9) [OF drv this] obtain e3 where
    w: "kWriteDevice sys dfd (take (nat r) b) e2 = (int k, e3)" and
    v3: "view e3 = (view e2)\<lparr>sectors := put_field (sec_pos (view e2), k) (take k (take (nat r) b)) (sectors (view e2)),
      sec_pos := sec_pos (view e2) + k\<rparr>" by blast
  have e1: "0 < int k" "bs_total st1 = bs_total st + of_nat k" "bs_callback st1 = Some f" "bs_wr_fd st1 = dfd"
      "e1 = f (bs_block_device st) (bs_output_path st) (bs_total st + of_nat k) (of_nat n) e3"
    using step P rd2 w by (auto simp: device_access_step_def counted_def Let_def split: if_splits)
  then have c1: "same_card_in view e3 e1" using f by (simp add: spares_card_def)
  have k: "0 < k" "sec_pos (view e) + k \<le> n" "k \<le> length (take (nat r) b)"
    using e1(1) P(1) c2 by (auto simp: k_def counted_def same_card_in_def)
  have t: "unat (bs_total st1) = unat (bs_total st) + k"
    unfolding e1(2) using count_more [OF _ k(1,2) n, of "bs_total st"] P(1) by (simp add: counted_def)
  have "length (sectors (view e3)) = n"
    using k P(1) c2 by (simp add: v3 counted_def same_card_in_def)
  then show "counted view f n st1 e1"
    using P(1) t k c1 c2 e1(3) by (simp add: v3 counted_def same_card_in_def)
  show "bs_wr_fd st1 = dfd" by (rule e1)
  have "unat (bs_total st1) \<le> n" using t k P(1) by (simp add: counted_def)
  then show "bs_total st < bs_total st1" "bs_total st1 \<le> of_nat n"
    using t k n by (simp_all add: word_less_nat_alt word_le_nat_alt unat_of_nat take_bit_nat_eq_self)
qed

lemma loop_swap:
  assumes "counts_up P f rd wr (bs_effective_size st - bs_header_size st)" "same_on_fractions f g" "P st e"
  shows "device_access_loop rd wr (st\<lparr>bs_callback := Some g\<rparr>) buf e = map_option (with_callback g) (device_access_loop rd wr st buf e)"
  unfolding device_access_loop_def using turns_swap [OF assms] by simp

section \<open>The operations\<close>

text \<open>The calls on files and on the network, whatever they answer, leave the card alone, and the two writers take at
  most the bytes they are given.\<close>

definition others_spare_card :: "'e dev_sys \<Rightarrow> ('e \<Rightarrow> 'z io_view_scheme) \<Rightarrow> bool" where
  "others_spare_card sys view \<longleftrightarrow>
     takes_at_most view (sceIoWrite sys) \<and> takes_at_most view (file_send_data sys) \<and>
     (\<forall>fd buf e. same_card_in view e (snd (snd (sceIoRead sys fd buf e)))) \<and>
     (\<forall>p flags e. same_card_in view e (snd (sceIoOpen sys p flags e))) \<and>
     (\<forall>ip port e. same_card_in view e (snd (begin_connection sys ip port e))) \<and>
     (\<forall>fd p n e. same_card_in view e (snd (begin_file_send sys fd p n e)))"

lemma spare_facts:
  assumes "others_spare_card sys view"
  shows "takes_at_most view (sceIoWrite sys)" "takes_at_most view (write_data sys)" "takes_at_most view (file_send_data sys)"
    "same_card_in view e (snd (snd (sceIoRead sys fd buf e)))" "same_card_in view e (snd (sceIoOpen sys p flags e))"
    "same_card_in view e (snd (begin_connection sys ip port e))" "same_card_in view e (snd (begin_file_send sys fd p n e))"
  using assms by (simp_all add: others_spare_card_def takes_at_most_def write_data_def)

lemma read_null_spares: "same_card_in view e (snd (snd (read_null fd buf e)))"
  by (simp add: read_null_def same_card_in_def)

lemma read_image_spares:
  "others_spare_card sys view \<Longrightarrow> same_card_in view e (snd (snd (read_data_from_image sys fd buf e)))"
  using spare_facts(4) [of sys view e fd buf] by (auto simp: read_data_from_image_def Let_def split: prod.splits)

lemma header_spares:
  assumes drv: "card_driver sys dev dfd view" and wr: "takes_at_most view wr"
  shows "same_card_in view e (snd (create_header sys wr st e))"
proof -
  have s: "same_card_in view e (snd (kGetCartSecret sys b e))" "same_card_in view e (snd (kGetCartHash sys b e))" for b e
    using card_driver_facts(6) [OF drv, of b e] card_driver_facts(7) [OF drv, of b e] by (auto simp: same_card_in_def)
  have w: "same_card_in view e (snd (wr fd d e))" for fd d e using wr by (simp add: takes_at_most_def)
  have id: "same_card_in view e e" by (simp add: same_card_in_def)
  show ?thesis
    by (cases "bs_format st")
       (auto simp: create_header_def create_psv_header_def create_vci_header_def Let_def id case_prod_unfold
         intro: w same_card_trans [OF s(1) same_card_trans [OF s(2) w]])
qed

lemma setup_callback:
  "setup_state stk sys dev path fmt keys net cb e = (r, st, e') \<Longrightarrow> 0 \<le> r \<Longrightarrow>
   setup_state stk sys dev path fmt keys net cb' e = (r, st\<lparr>bs_callback := cb'\<rparr>, e')"
  by (auto simp: setup_state_def Let_def split: prod.splits if_splits)

lemma callback_last:
  "st\<lparr>bs_callback := c, bs_wr_fd := w\<rparr> = st\<lparr>bs_wr_fd := w, bs_callback := c\<rparr>"
  "st\<lparr>bs_callback := c, bs_rd_fd := w\<rparr> = st\<lparr>bs_rd_fd := w, bs_callback := c\<rparr>" by simp_all

lemma exits_callback [simp]:
  "wipe_exit sys (r, st\<lparr>bs_callback := c\<rparr>, buf, e) = wipe_exit sys (r, st, buf, e)"
  "restore_exit sys (r, st\<lparr>bs_callback := c\<rparr>, buf, e) = restore_exit sys (r, st, buf, e)"
  "dump_phys_exit sys (r, st\<lparr>bs_callback := c\<rparr>, buf, e) = dump_phys_exit sys (r, st, buf, e)"
  "dump_net_exit sys (r, st\<lparr>bs_callback := c\<rparr>, buf, e) = dump_net_exit sys (r, st, buf, e)"
  by (simp_all add: wipe_exit_def restore_exit_def dump_phys_exit_def dump_net_exit_def)

lemma exits_swap [simp]:
  "wipe_exit sys \<circ> with_callback g = wipe_exit sys" "restore_exit sys \<circ> with_callback g = restore_exit sys"
  "dump_phys_exit sys \<circ> with_callback g = dump_phys_exit sys" "dump_net_exit sys \<circ> with_callback g = dump_net_exit sys"
  by (auto simp: fun_eq_iff)

lemma header_callback:
  "create_header sys wr (st\<lparr>bs_callback := c\<rparr>) e = create_header sys wr st e"
  by (cases "bs_format st") (simp_all add: create_header_def create_psv_header_def create_vci_header_def Let_def)

lemma finalize_callback:
  "finalize_psv_header sys (st\<lparr>bs_callback := c\<rparr>) e =
   (case finalize_psv_header sys st e of (r, st', e') \<Rightarrow> (r, st'\<lparr>bs_callback := c\<rparr>, e'))"
  by (simp add: finalize_psv_header_def Let_def split: prod.split option.split)

lemma dump_body_swap:
  assumes "device_access_loop (kReadDevice sys) wr (st\<lparr>bs_callback := Some g\<rparr>) buf e =
      map_option (with_callback g) (device_access_loop (kReadDevice sys) wr st buf e)"
  shows "dump_body sys wr (st\<lparr>bs_callback := Some g\<rparr>) buf e = map_option (with_callback g) (dump_body sys wr st buf e)"
  using assms
  by (cases "device_access_loop (kReadDevice sys) wr st buf e")
     (auto simp: dump_body_def finalize_callback Let_def split: prod.split)

lemma wipe_swap:
  assumes drv: "card_driver sys dev dfd view" and dev: "device_whitelisted dev" and stk: "length stk = SECTOR_SIZE"
    and n: "length (sectors (view e)) < 2 ^ 64" and f: "spares_card view f" and same: "same_on_fractions f g"
  shows "wipe_device stk sys dev (Some g) buf e = wipe_device stk sys dev (Some f) buf e"
proof -
  let ?n = "length (sectors (view e))"
  let ?st0 = "started_state dev (cstr ''the void'') BACKUP_FORMAT_RAW None None (Some f) (sectors (view e))"
  obtain e1 p where e1: "setup_state stk sys dev (cstr ''the void'') BACKUP_FORMAT_RAW None None (Some f) e = (0, ?st0, e1)"
    "view e1 = (view e)\<lparr>sec_pos := p\<rparr>" by (rule setup_state_ok [OF drv stk])
  from card_driver_facts(3) [OF drv] obtain e2 where
    e2: "kOpenDevice sys dev (SCE_O_WRONLY + SCE_O_WRLOCK) e1 = (dfd, e2)" "view e2 = (view e1)\<lparr>sec_pos := 0\<rparr>" by blast
  let ?st = "?st0\<lparr>bs_wr_fd := dfd\<rparr>"
  have to_read: "bs_effective_size ?st - bs_header_size ?st = of_nat ?n" by (simp add: state_fields)
  have "device_access_loop read_null (kWriteDevice sys) (?st\<lparr>bs_callback := Some g\<rparr>) buf e2 =
      map_option (with_callback g) (device_access_loop read_null (kWriteDevice sys) ?st buf e2)"
    by (rule loop_swap [OF _ same, where P = "\<lambda>st e. counted view f ?n st e \<and> bs_wr_fd st = dfd"], unfold to_read,
        rule writing_counts_up [OF drv f n read_null_spares])
       (use e1(2) e2(2) in \<open>simp add: counted_def state_fields\<close>)
  then show ?thesis
    using dev card_driver_facts(1,2) [OF drv] e1(1) setup_callback [OF e1(1), of "Some g"] e2(1)
    by (simp add: wipe_device_def Let_def option.map_comp callback_last)
qed

lemma restore_swap:
  assumes drv: "card_driver sys dev dfd view" and io: "others_spare_card sys view"
    and dev: "device_whitelisted dev" and stk: "length stk = SECTOR_SIZE"
    and n: "length (sectors (view e)) < 2 ^ 64" and f: "spares_card view f" and same: "same_on_fractions f g"
  shows "restore_device stk sys dev path (Some g) buf e = restore_device stk sys dev path (Some f) buf e"
proof -
  let ?n = "length (sectors (view e))"
  let ?st0 = "started_state dev path BACKUP_FORMAT_RAW None None (Some f) (sectors (view e))"
  obtain e1 p where e1: "setup_state stk sys dev path BACKUP_FORMAT_RAW None None (Some f) e = (0, ?st0, e1)"
    "view e1 = (view e)\<lparr>sec_pos := p\<rparr>" by (rule setup_state_ok [OF drv stk])
  obtain ffd e2 where e2: "sceIoOpen sys path SCE_O_RDONLY e1 = (ffd, e2)" by (cases "sceIoOpen sys path SCE_O_RDONLY e1")
  then have c2: "same_card_in view e1 e2" using spare_facts(5) [OF io, of e1 path SCE_O_RDONLY] by simp
  from card_driver_facts(3) [OF drv] obtain e3 where
    e3: "kOpenDevice sys dev (SCE_O_WRONLY + SCE_O_WRLOCK) e2 = (dfd, e3)" "view e3 = (view e2)\<lparr>sec_pos := 0\<rparr>" by blast
  let ?st = "?st0\<lparr>bs_rd_fd := ffd, bs_wr_fd := dfd\<rparr>"
  have to_read: "bs_effective_size ?st - bs_header_size ?st = of_nat ?n" by (simp add: state_fields)
  have "device_access_loop (read_data_from_image sys) (kWriteDevice sys) (?st\<lparr>bs_callback := Some g\<rparr>) buf e3 =
      map_option (with_callback g) (device_access_loop (read_data_from_image sys) (kWriteDevice sys) ?st buf e3)"
    by (rule loop_swap [OF _ same, where P = "\<lambda>st e. counted view f ?n st e \<and> bs_wr_fd st = dfd"], unfold to_read,
        rule writing_counts_up [OF drv f n read_image_spares [OF io]])
       (use e1(2) e3(2) c2 in \<open>simp add: counted_def same_card_in_def state_fields\<close>)
  then show ?thesis
    using dev card_driver_facts(1,2) [OF drv] e1(1) setup_callback [OF e1(1), of "Some g"] e2 e3(1)
    by (simp add: restore_device_def Let_def option.map_comp callback_last)
qed

text \<open>The copy of a dump, once the card has been opened: whatever was called in between.\<close>

lemma dump_copy_swap:
  assumes drv: "card_driver sys dev dfd view" and wr: "takes_at_most view wr" and f: "spares_card view f"
    and same: "same_on_fractions f g" and n: "length c < 2 ^ 64"
    and st: "bs_effective_size st - bs_header_size st = of_nat (length c)" "bs_rd_fd st = dfd"
      "bs_callback st = Some f" "bs_total st = 0"
    and e: "sectors (view e) = c" "sec_pos (view e) = 0"
  shows "dump_body sys wr (st\<lparr>bs_callback := Some g\<rparr>) buf e = map_option (with_callback g) (dump_body sys wr st buf e)"
  by (rule dump_body_swap, rule loop_swap [OF _ same,
        where P = "\<lambda>st e. counted view f (length c) st e \<and> bs_rd_fd st = dfd"],
      unfold st(1), rule reading_counts_up [OF drv wr f n])
     (use st e in \<open>simp add: counted_def\<close>)

lemma dump_swap:
  assumes drv: "card_driver sys dev dfd view" and io: "others_spare_card sys view"
    and dirs: "\<And>p e. same_card_in view e (make_directories_excluding_last sys p e)" and stk: "length stk = SECTOR_SIZE"
    and n: "length (sectors (view e)) < 2 ^ 64" and f: "spares_card view f" and same: "same_on_fractions f g"
    and trim: "FMT_IS_TRIM fmt \<longrightarrow> mbr_used (sectors (view e))"
  shows "dump_device stk sys dev path fmt keys net (Some g) buf e = dump_device stk sys dev path fmt keys net (Some f) buf e"
proof -
  let ?c = "sectors (view e)"
  let ?init = "started_state dev path fmt keys net (Some f) ?c"
  obtain e1 p where e1: "setup_state stk sys dev path fmt keys net (Some f) e = (0, ?init, e1)"
    "view e1 = (view e)\<lparr>sec_pos := p\<rparr>" by (rule setup_state_ok [OF drv stk])
  have init: "bs_net_info ?init = net" "bs_wr_fd ?init = 0" "bs_output_path ?init = path" "bs_block_device ?init = dev"
    by (simp_all add: started_state_def cleared_state_def)
  let ?st = "\<lambda>w. ?init\<lparr>bs_rd_fd := dfd, bs_wr_fd := w\<rparr>"
  have st: "bs_effective_size (?st w) - bs_header_size (?st w) = of_nat (length ?c)" "bs_rd_fd (?st w) = dfd"
    "bs_callback (?st w) = Some f" "bs_total (?st w) = 0" for w
    using trim by (simp_all add: started_state_def cleared_state_def copied_size_def trimmed_def)
  have up: "setup_state stk sys dev path fmt keys net (Some g) e = (0, ?init\<lparr>bs_callback := Some g\<rparr>, e1)"
    using setup_callback [OF e1(1), of "Some g"] by simp
  show ?thesis
  proof (cases net)
    case None
    let ?e2 = "make_directories_excluding_last sys path e1"
    from card_driver_facts(3) [OF drv, of "SCE_O_RDONLY + SCE_O_RDLOCK" ?e2] obtain e3 where
      e3: "kOpenDevice sys dev (SCE_O_RDONLY + SCE_O_RDLOCK) ?e2 = (dfd, e3)" "view e3 = (view ?e2)\<lparr>sec_pos := 0\<rparr>" by blast
    obtain w e4 where e4: "sceIoOpen sys path (SCE_O_WRONLY + SCE_O_CREAT + SCE_O_TRUNC) e3 = (w, e4)" by fastforce
    obtain r e5 where e5: "create_header sys (write_data sys) (?st w) e4 = (r, e5)" by fastforce
    have "same_card_in view e1 ?e2" by (rule dirs)
    moreover have "same_card_in view e3 e4" using spare_facts(5) [OF io, of e3] e4 by (metis snd_conv)
    moreover have "same_card_in view e4 e5"
      using header_spares [OF drv spare_facts(2) [OF io], of e4 "?st w"] e5 by simp
    ultimately have v5: "sectors (view e5) = ?c" "sec_pos (view e5) = 0"
      using e1(2) e3(2) by (simp_all add: same_card_in_def)
    note body = dump_copy_swap [OF drv spare_facts(2) [OF io] f same n st v5]
    have h: "create_header sys (write_data sys) ((?st w)\<lparr>bs_callback := Some g\<rparr>) e4 = (r, e5)"
      by (simp add: header_callback e5)
    show ?thesis
      using card_driver_facts(2) [OF drv] e1(1) up e3(1) e4 e5 h body [of w] trans [OF init(1) None]
      by (simp add: dump_device_def dump_device_phys_def Let_def init(2-4) callback_last option.map_comp)
  next
    case (Some i)
    from card_driver_facts(3) [OF drv, of "SCE_O_RDONLY + SCE_O_RDLOCK" e1] obtain e2 where
      e2: "kOpenDevice sys dev (SCE_O_RDONLY + SCE_O_RDLOCK) e1 = (dfd, e2)" "view e2 = (view e1)\<lparr>sec_pos := 0\<rparr>" by blast
    obtain w e3 where e3: "begin_connection sys (ni_ip_address i) (ni_port i) e2 = (w, e3)" by fastforce
    obtain r e4 where e4: "begin_file_send sys w path (bs_effective_size ?init) e3 = (r, e4)" by fastforce
    obtain q e5 where e5: "create_header sys (file_send_data sys) (?st w) e4 = (q, e5)" by fastforce
    have "same_card_in view e2 e3" using spare_facts(6) [OF io, of e2] e3 by (metis snd_conv)
    moreover have "same_card_in view e3 e4" using spare_facts(7) [OF io, of e3] e4 by (metis snd_conv)
    moreover have "same_card_in view e4 e5"
      using header_spares [OF drv spare_facts(3) [OF io], of e4 "?st w"] e5 by simp
    ultimately have v5: "sectors (view e5) = ?c" "sec_pos (view e5) = 0"
      using e1(2) e2(2) by (simp_all add: same_card_in_def)
    note body = dump_copy_swap [OF drv spare_facts(3) [OF io] f same n st v5]
    have h: "create_header sys (file_send_data sys) ((?st w)\<lparr>bs_callback := Some g\<rparr>) e4 = (q, e5)"
      by (simp add: header_callback e5)
    show ?thesis
      using card_driver_facts(1,2) [OF drv] e1(1) up e2(1) e3 e4 e5 h body [of w] trans [OF init(1) Some]
      by (simp add: dump_device_def dump_device_network_def Let_def init(2-4) callback_last option.map_comp)
  qed
qed

section \<open>Property\<close>

text \<open>C17: While a card whose driver answers as documented is wiped, restored, or dumped to a file or over the network, the
  progress callback is only ever told of a number of bytes done (its third argument) that is positive and at most the
  total (its fourth): a callback that differs for any other numbers gives the same run.  Files and network may answer
  anything, errors and short writes included, as long as they leave the card alone and take no more than they are given.
  A trimmed dump is covered when the partition table of the card is in use.\<close>

theorem progress_is_a_fraction:
  assumes "same_on_fractions f g" "spares_card view f" "card_driver sys dev dfd view" "others_spare_card sys view"
    and "\<And>p e. same_card_in view e (make_directories_excluding_last sys p e)"
    and "device_whitelisted dev" "length stk = SECTOR_SIZE" "length (sectors (view e)) < 2 ^ 64"
    and "FMT_IS_TRIM fmt \<longrightarrow> mbr_used (sectors (view e))"
  shows "wipe_device stk sys dev (Some g) buf e = wipe_device stk sys dev (Some f) buf e \<and>
    restore_device stk sys dev path (Some g) buf e = restore_device stk sys dev path (Some f) buf e \<and>
    dump_device stk sys dev path fmt keys net (Some g) buf e = dump_device stk sys dev path fmt keys net (Some f) buf e"
  by (intro conjI wipe_swap [OF assms(3,6,7,8,2,1)] restore_swap [OF assms(3,4,6,7,8,2,1)]
      dump_swap [OF assms(3,4,5,7,8,2,1,9)])

definition careless :: "io_view progress" where
  "careless dev path d n v = (if 0 < d \<and> d \<le> n then v else v\<lparr>sectors := [], img := None\<rparr>)"

lemma plain_spares: "others_spare_card plain_console (\<lambda>v. v)"
  by (simp add: others_spare_card_def takes_at_most_def same_card_in_def plain_console_def console_on_view_def
      case_prod_unfold Let_def)

theorem progress_is_a_fraction_witness:
  "wipe_device (zeros SECTOR_SIZE) plain_console gcd_entire (Some careless) (zeros DEVICE_DUMP_BUFFER_SIZE) plain_start =
   wipe_device (zeros SECTOR_SIZE) plain_console gcd_entire (Some (\<lambda>dev path d n v. v)) (zeros DEVICE_DUMP_BUFFER_SIZE) plain_start"
proof -
  have "same_on_fractions (\<lambda>dev path d n v. v) careless" by (simp add: same_on_fractions_def careless_def)
  moreover have "spares_card (\<lambda>v. v) (\<lambda>dev path d n v. v)" by (simp add: spares_card_def same_card_in_def)
  moreover have "same_card_in (\<lambda>v. v) e (make_directories_excluding_last plain_console p e)" for p e
    by (simp add: plain_console_def console_on_view_def same_card_in_def)
  moreover have "length (sectors plain_start) < 2 ^ 64" by (simp add: plain_start_def)
  moreover have "FMT_IS_TRIM BACKUP_FORMAT_PSV \<longrightarrow> mbr_used (sectors plain_start)" by (simp add: FMT_IS_TRIM_def)
  ultimately show ?thesis
    using progress_is_a_fraction [OF _ _ plain_card plain_spares _ gcd_whitelisted length_zeros] by blast
qed

end
