(* ===== verification/PowerLock.thy ===== *)
theory PowerLock
  imports AppSys
begin

text \<open>
  The threads of \<^verbatim>\<open>app/lock.c\<close> beside the main thread.  The state is the flag the threads share with
  it and the place each thread is at; a schedule is the list of what happens, one step of one
  thread at a time.  A thread that has been started and has not run yet is at \<open>Entry\<close>.
\<close>

section \<open>The thread that keeps the console awake\<close>

datatype place = Dormant | Entry | Test | Body | Ended

record power =
  disable_power :: bool
  threads :: "place list"
  ticks :: nat
  deletes :: "int list"

text \<open>
  The three places where the loop can be interrupted.  The call in its body names a thread by a
  number that is no thread's, so it does nothing: the loop does not wait.
\<close>

fun power_tick_thread :: "place \<Rightarrow> power \<Rightarrow> place \<times> power" where
  "power_tick_thread Entry p = (Test, p\<lparr>disable_power := True\<rparr>)"
| "power_tick_thread Test p = (if disable_power p then Body else Ended, p)"
| "power_tick_thread Body p = (Test, p\<lparr>ticks := Suc (ticks p), deletes := deletes p @ [1000 * 1000 * 1]\<rparr>)"
| "power_tick_thread pl p = (pl, p)"

definition run_thread :: "nat \<Rightarrow> power \<Rightarrow> power" where
  "run_thread i p =
     (if i < length (threads p)
      then (let (pl, p') = power_tick_thread (threads p ! i) p in p'\<lparr>threads := (threads p')[i := pl]\<rparr>)
      else p)"

text \<open>The calls of the main thread, with a system that creates and starts threads.\<close>

definition with_threads :: "power app_sys \<Rightarrow> power app_sys" where
  "with_threads sys = sys\<lparr>
     sceKernelCreateThread := (\<lambda>p. (int (length (threads p)), p\<lparr>threads := threads p @ [Dormant]\<rparr>)),
     sceKernelStartThread := (\<lambda>i p. (0, p\<lparr>threads := (threads p)[nat i := Entry]\<rparr>)),
     sceKernelDeleteThread := (\<lambda>i p. p\<lparr>deletes := deletes p @ [i]\<rparr>),
     set_disable_power := (\<lambda>b p. p\<lparr>disable_power := b\<rparr>)\<rparr>"

datatype event = Lock | Unlock | Run nat

fun happens :: "power app_sys \<Rightarrow> event \<Rightarrow> power \<Rightarrow> power" where
  "happens sys Lock p = snd (lock_power (with_threads sys) p)"
| "happens sys Unlock p = unlock_power (with_threads sys) p"
| "happens sys (Run i) p = run_thread i p"

definition schedule :: "power app_sys \<Rightarrow> event list \<Rightarrow> power \<Rightarrow> power" where
  "schedule sys es p = fold (happens sys) es p"

section \<open>The thread that watches the card\<close>

text \<open>It would start the application again when the card is gone, but no call starts it.\<close>

definition gc_lock_turn :: "'e app_sys \<Rightarrow> 'e \<Rightarrow> bool \<times> 'e" where
  "gc_lock_turn sys e =
     (let (present, e) = device_exist (linked sys) BLOCK_DEVICE_GC e;
          (flag_lock_gc, e) = (if present = 0 then (False, sceAppMgrLoadExec sys e) else (True, e));
          e = sceKernelDeleteThread sys (1000 * 300) e
      in (flag_lock_gc, e))"

partial_function (option) gc_lock_turns :: "'e app_sys \<Rightarrow> 'e \<Rightarrow> 'e option" where
  "gc_lock_turns sys e =
     (case gc_lock_turn sys e of (flag_lock_gc, e) \<Rightarrow> if flag_lock_gc then gc_lock_turns sys e else Some e)"

definition gc_lock_thread :: "'e app_sys \<Rightarrow> 'e \<Rightarrow> (int \<times> 'e) option" where
  "gc_lock_thread sys e = map_option (Pair 0) (gc_lock_turns sys e)"

definition lock_gc :: int where "lock_gc = 0"

definition unlock_gc :: "bool \<Rightarrow> bool" where "unlock_gc flag_lock_gc = False"

section \<open>Lemmas\<close>

lemma happens_main [simp]:
  "happens sys Lock p = p\<lparr>threads := threads p @ [Entry]\<rparr>" "happens sys Unlock p = p\<lparr>disable_power := False\<rparr>"
  by (simp_all add: lock_power_def unlock_power_def with_threads_def)

declare happens.simps(1,2) [simp del]

lemma schedule_simps [simp]:
  "schedule sys [] p = p" "schedule sys (e # es) p = schedule sys es (happens sys e p)"
  "schedule sys (es @ fs) p = schedule sys fs (schedule sys es p)"
  by (simp_all add: schedule_def)

lemma length_threads [simp]: "length (threads (run_thread i p)) = length (threads p)"
proof -
  have "threads (snd (power_tick_thread pl p)) = threads p" for pl by (cases pl) simp_all
  then show ?thesis by (simp add: run_thread_def Let_def split: prod.split) (metis length_list_update snd_conv)
qed

text \<open>One step of one thread: only its own place changes, and the flag can only be set, by a first step.\<close>

lemma run_thread_step:
  assumes "i < length (threads p)"
  shows "threads (run_thread i p) = (threads p)[i := fst (power_tick_thread (threads p ! i) p)]"
    "disable_power (run_thread i p) \<longleftrightarrow> disable_power p \<or> threads p ! i = Entry"
  using assms by (cases "threads p ! i"; simp add: run_thread_def)+

text \<open>A thread that has not begun, or runs while the flag is set, never ends.\<close>

lemma never_ends:
  assumes "i < length (threads p)" "threads p ! i \<noteq> Ended" "threads p ! i = Entry \<or> threads p ! i \<noteq> Dormant \<and> disable_power p"
  shows "threads (schedule sys (map Run is) p) ! i \<noteq> Ended"
  using assms
proof (induction "is" arbitrary: p)
  case (Cons j js)
  show ?case
  proof (cases "j < length (threads p)")
    case True
    note r = run_thread_step [OF True]
    have "i < length (threads (run_thread j p))" using Cons.prems(1) by simp
    moreover have "threads (run_thread j p) ! i \<noteq> Ended \<and>
        (threads (run_thread j p) ! i = Entry \<or> threads (run_thread j p) ! i \<noteq> Dormant \<and> disable_power (run_thread j p))"
    proof (cases "j = i")
      case ji: True
      show ?thesis using Cons.prems by (cases "threads p ! i") (auto simp: r [unfolded ji] ji)
    next
      case False
      then show ?thesis using Cons.prems by (auto simp: r)
    qed
    ultimately show ?thesis using Cons.IH [of "run_thread j p"] by simp
  next
    case False
    then show ?thesis using Cons by (simp add: run_thread_def)
  qed
qed simp

text \<open>With the flag cleared and no thread about to set it, every step brings its thread nearer to the end.\<close>

fun steps_left :: "place \<Rightarrow> nat" where
  "steps_left Entry = 3" | "steps_left Test = 1" | "steps_left Body = 2" | "steps_left pl = 0"

definition closing :: "power \<Rightarrow> bool" where
  "closing p \<longleftrightarrow> \<not> disable_power p \<and> Entry \<notin> set (threads p)"

lemma closing_run:
  assumes "closing p"
  shows "closing (run_thread j p)"
    "i < length (threads p) \<Longrightarrow> steps_left (threads (run_thread j p) ! i) = steps_left (threads p ! i) - of_bool (i = j)"
proof -
  have "closing (run_thread j p) \<and> (i < length (threads p) \<longrightarrow>
      steps_left (threads (run_thread j p) ! i) = steps_left (threads p ! i) - of_bool (i = j))" for i
  proof (cases "j < length (threads p)")
    case True
    note r = run_thread_step [OF True]
    have ne: "threads p ! j \<noteq> Entry" and f: "\<not> disable_power p" using assms True nth_mem by (fastforce simp: closing_def)+
    then have new: "fst (power_tick_thread (threads p ! j) p) \<noteq> Entry"
      "steps_left (fst (power_tick_thread (threads p ! j) p)) = steps_left (threads p ! j) - 1"
      by (cases "threads p ! j"; simp)+
    have "Entry \<notin> set ((threads p)[j := fst (power_tick_thread (threads p ! j) p)])"
      using assms new(1) set_update_subset_insert by (fastforce simp: closing_def)
    with new ne f True show ?thesis by (auto simp: closing_def r nth_list_update)
  next
    case False
    then show ?thesis using assms by (auto simp: run_thread_def)
  qed
  then show "closing (run_thread j p)"
    "i < length (threads p) \<Longrightarrow> steps_left (threads (run_thread j p) ! i) = steps_left (threads p ! i) - of_bool (i = j)"
    by blast+
qed

lemma closing_schedule:
  "closing p \<Longrightarrow> i < length (threads p) \<Longrightarrow>
   steps_left (threads (schedule sys (map Run is) p) ! i) = steps_left (threads p ! i) - count_list is i"
  by (induction "is" arbitrary: p) (simp_all add: closing_run)

lemma steps_left_0: "steps_left pl = 0 \<longleftrightarrow> pl = Ended \<or> pl = Dormant"
  by (cases pl) simp_all

lemma dormant_stays:
  "Dormant \<notin> set (threads p) \<Longrightarrow> Dormant \<notin> set (threads (run_thread j p))"
proof (cases "j < length (threads p)")
  case True
  assume d: "Dormant \<notin> set (threads p)"
  then have "threads p ! j \<noteq> Dormant" using True nth_mem by fastforce
  then have "fst (power_tick_thread (threads p ! j) p) \<noteq> Dormant" by (cases "threads p ! j") simp_all
  then show ?thesis using d set_update_subset_insert by (fastforce simp: run_thread_step(1) [OF True])
qed (simp add: run_thread_def)

lemma dormant_schedule:
  "Dormant \<notin> set (threads p) \<Longrightarrow> Dormant \<notin> set (threads (schedule sys (map Run is) p))"
  by (induction "is" arbitrary: p) (simp_all add: dormant_stays)

lemma length_schedule [simp]: "length (threads (schedule sys (map Run is) p)) = length (threads p)"
  by (induction "is" arbitrary: p) simp_all

section \<open>Property\<close>

text \<open>C37: After the main thread has unlocked the power, and however the threads that keep the console awake are then scheduled, as long as
  each gets two steps: all of them end exactly if each had run at least once before.  A thread that
  had not sets the flag again and keeps the console awake until the next unlock.\<close>

theorem power_threads_end_iff_begun:
  assumes "Dormant \<notin> set (threads p)" "\<forall>i < length (threads p). 2 \<le> count_list is i"
  shows "set (threads (schedule sys (Unlock # map Run is) p)) \<subseteq> {Ended} \<longleftrightarrow> Entry \<notin> set (threads p)"
proof -
  let ?p = "happens sys Unlock p"
  let ?q = "schedule sys (map Run is) ?p"
  have t: "threads ?p = threads p" "length (threads ?q) = length (threads p)" "\<not> disable_power ?p" by simp_all
  show ?thesis
  proof (cases "Entry \<in> set (threads p)")
    case True
    then obtain i where i: "i < length (threads p)" "threads p ! i = Entry" by (auto simp: in_set_conv_nth)
    then have "threads ?q ! i \<noteq> Ended" using t by (intro never_ends) simp_all
    moreover have "threads ?q ! i \<in> set (threads ?q)" using i(1) t(2) by (intro nth_mem) simp
    ultimately show ?thesis using True by auto
  next
    case False
    then have c: "closing ?p" using t(1,3) by (simp add: closing_def)
    have "threads ?q ! i = Ended" if i: "i < length (threads p)" for i
    proof -
      have "threads p ! i \<noteq> Entry" using False i nth_mem by fastforce
      then have "steps_left (threads p ! i) \<le> 2" by (cases "threads p ! i") simp_all
      moreover have "steps_left (threads ?q ! i) = steps_left (threads p ! i) - count_list is i"
        using closing_schedule [OF c, of i sys "is"] i t(1) by (simp del: happens_main)
      moreover have "2 \<le> count_list is i" using assms(2) i by blast
      ultimately have "steps_left (threads ?q ! i) = 0" by linarith
      moreover have "Dormant \<notin> set (threads ?q)" using assms(1) t(1) by (intro dormant_schedule) simp
      moreover have "threads ?q ! i \<in> set (threads ?q)" using i t(2) by (intro nth_mem) (simp only:)
      ultimately show ?thesis by (metis steps_left_0)
    qed
    then have "set (threads ?q) \<subseteq> {Ended}" using t(2) by (auto simp: in_set_conv_nth)
    with False show ?thesis by simp
  qed
qed

theorem power_threads_end_iff_begun_witness:
  "\<forall>sys. set (threads (schedule sys (Unlock # map Run [0, 0]) \<lparr>disable_power = True, threads = [Body], ticks = 0, deletes = []\<rparr>)) \<subseteq> {Ended} \<and>
   \<not> set (threads (schedule sys (Unlock # map Run [0, 0]) \<lparr>disable_power = False, threads = [Entry], ticks = 0, deletes = []\<rparr>)) \<subseteq> {Ended}"
proof
  show "set (threads (schedule sys (Unlock # map Run [0, 0]) \<lparr>disable_power = True, threads = [Body], ticks = 0, deletes = []\<rparr>)) \<subseteq> {Ended} \<and>
    \<not> set (threads (schedule sys (Unlock # map Run [0, 0]) \<lparr>disable_power = False, threads = [Entry], ticks = 0, deletes = []\<rparr>)) \<subseteq> {Ended}" for sys
    using power_threads_end_iff_begun [of "\<lparr>disable_power = True, threads = [Body], ticks = 0, deletes = []\<rparr>" "[0, 0]" sys]
      power_threads_end_iff_begun [of "\<lparr>disable_power = False, threads = [Entry], ticks = 0, deletes = []\<rparr>" "[0, 0]" sys]
    by (simp del: schedule_simps)
qed

end
