(* ===== verification/Overlap.thy ===== *)
theory Overlap
  imports PcServer Utf
begin

text \<open>
  \<^verbatim>\<open>pc/main.c\<close> with connections that overlap: \<^verbatim>\<open>main\<close> hands each thread the address of one variable, and all
  threads receive into one buffer.  A schedule is the list of the steps in the order they happen.
\<close>

section \<open>The port\<close>

definition SERVER_PORT :: u16 where "SERVER_PORT = 46327"

definition listen_port :: "bytes list \<Rightarrow> u16" where
  "listen_port argv = (if length argv \<ge> 2 then word_of_int (atoi (argv ! 1)) else SERVER_PORT)"

text \<open>A port given in decimal digits is the one listened on, modulo \<open>2 ^ 16\<close>.\<close>

lemma listen_port_given: "listen_port [prog, decimal n @ [0]] = of_nat n"
  by (simp add: listen_port_def atoi_decimal)

section \<open>The variable of the accept loop\<close>

text \<open>Every turn of the loop uses the same place on the stack; a thread reads it when it first runs.\<close>

datatype 'c thread = Started | Serving 'c

record 'c acceptor =
  connection_fd :: "'c option"
  workers :: "'c thread list"

datatype 'c accept_event = Accept 'c | Begin nat

fun accept_step :: "'c accept_event \<Rightarrow> 'c acceptor \<Rightarrow> 'c acceptor" where
  "accept_step (Accept c) a = a\<lparr>connection_fd := Some c, workers := workers a @ [Started]\<rparr>"
| "accept_step (Begin i) a =
     (case connection_fd a of
        Some c \<Rightarrow> if i < length (workers a) \<and> workers a ! i = Started then a\<lparr>workers := (workers a)[i := Serving c]\<rparr> else a
      | None \<Rightarrow> a)"

definition accept_loop :: "'c accept_event list \<Rightarrow> 'c acceptor" where
  "accept_loop es = fold accept_step es \<lparr>connection_fd = None, workers = []\<rparr>"

fun accepted :: "'c accept_event list \<Rightarrow> 'c list" where
  "accepted [] = []" | "accepted (Accept c # es) = c # accepted es" | "accepted (Begin i # es) = accepted es"

text \<open>What the wait after each turn is meant to ensure: the thread has read the variable before the next connection.\<close>

definition prompt :: "'c accept_event list \<Rightarrow> bool" where
  "prompt es \<longleftrightarrow> (\<forall>ds c fs. es = ds @ Accept c # fs \<longrightarrow> Started \<notin> set (workers (accept_loop ds)))"

lemma accept_loop_snoc: "accept_loop (es @ [e]) = accept_step e (accept_loop es)"
  by (simp add: accept_loop_def)

lemma accepted_append [simp]: "accepted (es @ fs) = accepted es @ accepted fs"
  by (induction es rule: accepted.induct) simp_all

lemma workers_length: "length (workers (accept_loop es)) = length (accepted es)"
proof (induction es rule: rev_induct)
  case (snoc e es)
  then show ?case by (cases e) (auto simp: accept_loop_snoc split: option.split)
qed (simp add: accept_loop_def)

lemma slot_last: "connection_fd (accept_loop es) = (if accepted es = [] then None else Some (last (accepted es)))"
proof (induction es rule: rev_induct)
  case (snoc e es)
  then show ?case by (cases e) (auto simp: accept_loop_snoc split: option.split)
qed (simp add: accept_loop_def)

text \<open>Once a thread serves a connection it does so for good.\<close>

lemma serving_stays:
  "i < length (workers (accept_loop es)) \<Longrightarrow> workers (accept_loop es) ! i = Serving c \<Longrightarrow> workers (accept_loop (es @ fs)) ! i = Serving c"
proof (induction fs rule: rev_induct)
  case (snoc f fs)
  have l: "i < length (workers (accept_loop (es @ fs)))" using snoc.prems(1) by (simp add: workers_length)
  from snoc have "workers (accept_loop (es @ fs)) ! i = Serving c" by simp
  with l show ?case
    unfolding append_assoc [symmetric] accept_loop_snoc
    by (cases f) (auto simp: nth_append nth_list_update split: option.split)
qed simp

lemma prompt_snoc: "prompt (es @ [e]) \<longleftrightarrow> prompt es \<and> (\<forall>c. e = Accept c \<longrightarrow> Started \<notin> set (workers (accept_loop es)))"
proof
  assume p: "prompt (es @ [e])"
  then have "\<forall>c. e = Accept c \<longrightarrow> Started \<notin> set (workers (accept_loop es))" unfolding prompt_def by blast
  moreover have "prompt es"
    unfolding prompt_def
  proof (intro allI impI)
    fix ds c fs assume "es = ds @ Accept c # fs"
    then have "es @ [e] = ds @ Accept c # (fs @ [e])" by simp
    with p show "Started \<notin> set (workers (accept_loop ds))" unfolding prompt_def by blast
  qed
  ultimately show "prompt es \<and> (\<forall>c. e = Accept c \<longrightarrow> Started \<notin> set (workers (accept_loop es)))" by blast
next
  assume p: "prompt es \<and> (\<forall>c. e = Accept c \<longrightarrow> Started \<notin> set (workers (accept_loop es)))"
  show "prompt (es @ [e])"
    unfolding prompt_def
  proof (intro allI impI)
    fix ds c fs assume e: "es @ [e] = ds @ Accept c # fs"
    show "Started \<notin> set (workers (accept_loop ds))"
    proof (cases fs rule: rev_cases)
      case Nil
      with e p show ?thesis by simp
    next
      case (snoc gs g)
      with e have "es = ds @ Accept c # gs" by simp
      with p show ?thesis unfolding prompt_def by blast
    qed
  qed
qed

text \<open>While the schedule is prompt, every thread but perhaps the last serves its own connection.\<close>

lemma prompt_serves:
  "prompt es \<Longrightarrow> i < length (accepted es) \<Longrightarrow> workers (accept_loop es) ! i = Serving (accepted es ! i) \<or>
     Suc i = length (accepted es) \<and> workers (accept_loop es) ! i = Started"
proof (induction es rule: rev_induct)
  case (snoc e es)
  note p = snoc.prems(1) [unfolded prompt_snoc]
  have l: "length (workers (accept_loop es)) = length (accepted es)" by (rule workers_length)
  show ?case
  proof (cases e)
    case (Accept c)
    then have "Started \<notin> set (workers (accept_loop es))" using p by blast
    with Accept snoc l p show ?thesis
      by (cases "i < length (accepted es)") (fastforce simp: accept_loop_snoc nth_append in_set_conv_nth)+
  next
    case (Begin j)
    then have i: "i < length (accepted es)" using snoc.prems(2) by simp
    with snoc.IH p have IH: "workers (accept_loop es) ! i = Serving (accepted es ! i) \<or>
        Suc i = length (accepted es) \<and> workers (accept_loop es) ! i = Started" by blast
    have s: "connection_fd (accept_loop es) = Some (last (accepted es))" using slot_last [of es] i by auto
    have "last (accepted es) = accepted es ! i" if "Suc i = length (accepted es)"
      using that by (metis diff_Suc_1 last_conv_nth length_0_conv nat.distinct(1))
    with IH i l s Begin show ?thesis by (auto simp: accept_loop_snoc nth_list_update)
  qed
qed simp

text \<open>A connection accepted while a thread has not begun is never that thread's own.\<close>

lemma late_thread:
  assumes "i < length (accepted ds)" "workers (accept_loop ds) ! i = Started"
    and "workers (accept_loop (ds @ Accept c # fs)) ! i = Serving d"
  shows "d \<in> set (c # accepted fs)"
  using assms(3)
proof (induction fs arbitrary: d rule: rev_induct)
  case Nil
  have "workers (accept_loop (ds @ [Accept c])) ! i = Started"
    using assms(1,2) workers_length [of ds] by (simp add: accept_loop_snoc nth_append)
  with Nil show ?case by simp
next
  case (snoc f fs)
  let ?es = "ds @ Accept c # fs"
  have w: "workers (accept_step f (accept_loop ?es)) ! i = Serving d"
    using snoc.prems unfolding append_Cons [symmetric] append_assoc [symmetric] accept_loop_snoc by simp
  have l: "i < length (workers (accept_loop ?es))" using assms(1) by (simp add: workers_length)
  show ?case
  proof (cases "workers (accept_loop ?es) ! i")
    case (Serving d')
    have "workers (accept_step f (accept_loop ?es)) ! i = Serving d'"
      using serving_stays [OF l Serving, of "[f]"] unfolding accept_loop_snoc .
    then have "d = d'" using w by simp
    with snoc.IH Serving show ?thesis by (cases f) auto
  next
    case Started
    have "connection_fd (accept_loop ?es) = Some (last (c # accepted fs))" by (simp add: slot_last)
    with w l Started have "d = last (c # accepted fs)"
      by (cases f) (auto simp: nth_append nth_list_update split: if_splits)
    then have "d \<in> set (c # accepted fs)" by (metis last_in_set list.distinct(1))
    then show ?thesis by auto
  qed
qed

text \<open>C38: When all threads have begun and no connection was accepted twice, every thread serves its own connection exactly if each
  had read the variable before the next connection was accepted; otherwise some thread serves another thread's
  connection, and one connection is served by nobody.\<close>

theorem threads_serve_their_own:
  assumes "distinct (accepted es)" "Started \<notin> set (workers (accept_loop es))"
  shows "workers (accept_loop es) = map Serving (accepted es) \<longleftrightarrow> prompt es"
proof
  assume "prompt es"
  then show "workers (accept_loop es) = map Serving (accepted es)"
    using prompt_serves [of es] assms(2) workers_length [of es]
    by (intro nth_equalityI) (auto simp: in_set_conv_nth)
next
  assume w: "workers (accept_loop es) = map Serving (accepted es)"
  show "prompt es"
    unfolding prompt_def
  proof (intro allI impI notI)
    fix ds c fs assume es: "es = ds @ Accept c # fs" and "Started \<in> set (workers (accept_loop ds))"
    then obtain i where i: "i < length (accepted ds)" "workers (accept_loop ds) ! i = Started"
      by (auto simp: in_set_conv_nth workers_length)
    have "workers (accept_loop es) ! i = Serving (accepted ds ! i)" using w i(1) by (simp add: es nth_append)
    then have "accepted ds ! i \<in> set (c # accepted fs)" using late_thread [OF i] by (simp add: es)
    moreover have "accepted ds ! i \<in> set (accepted ds)" using i(1) by simp
    ultimately show False using assms(1) by (auto simp: es)
  qed
qed

theorem threads_serve_their_own_witness:
  "workers (accept_loop [Accept (7 :: nat), Begin 0, Accept 8, Begin 1]) = [Serving 7, Serving 8] \<and>
   workers (accept_loop [Accept (7 :: nat), Accept 8, Begin 0, Begin 1]) = [Serving 8, Serving 8] \<and>
   \<not> prompt [Accept (7 :: nat), Accept 8, Begin 0, Begin 1]"
proof -
  let ?es = "[Accept (7 :: nat), Accept 8, Begin 0, Begin 1]"
  have "distinct (accepted ?es)" "Started \<notin> set (workers (accept_loop ?es))" by (simp_all add: accept_loop_def)
  from threads_serve_their_own [OF this] show ?thesis by (simp add: accept_loop_def)
qed

section \<open>The buffer of the threads\<close>

text \<open>Between its read and its write a thread has its bytes in the one buffer only.\<close>

datatype upload = Recv u64 connection u64 bytes | Store u64 connection u64 bytes nat | Stored bytes | Broken

record server =
  work_buffer :: bytes
  uploads :: "upload list"

fun upload_step :: "upload \<Rightarrow> bytes \<Rightarrow> upload \<times> bytes" where
  "upload_step (Recv total_size conn total_read out) buf =
     (case READ_SOCKET conn sizeof_work_buffer of
        (rd, data, conn) \<Rightarrow>
          if rd < 0 then (Broken, buf)
          else (Store total_size conn total_read out (nat rd), put_field (0, length data) data buf))"
| "upload_step (Store total_size conn total_read out rd) buf =
     (let out = out @ take rd buf; total_read = total_read + of_nat rd
      in (if total_read < total_size then Recv total_size conn total_read out else Stored out, buf))"
| "upload_step u buf = (u, buf)"

definition upload_turn :: "nat \<Rightarrow> server \<Rightarrow> server" where
  "upload_turn i s =
     (if i < length (uploads s)
      then (let (u, buf) = upload_step (uploads s ! i) (work_buffer s) in s\<lparr>work_buffer := buf, uploads := (uploads s)[i := u]\<rparr>)
      else s)"

definition upload_turns :: "nat list \<Rightarrow> server \<Rightarrow> server" where
  "upload_turns is s = fold upload_turn is s"

fun storing :: "upload \<Rightarrow> bool" where
  "storing (Store n c t out rd) = True" | "storing u = False"

fun receiving :: "upload \<Rightarrow> bool" where
  "receiving (Recv n c t out) = True" | "receiving u = False"

text \<open>No thread reads while the bytes of another are in the buffer.\<close>

fun exclusive :: "nat list \<Rightarrow> server \<Rightarrow> bool" where
  "exclusive [] s = True"
| "exclusive (i # is) s \<longleftrightarrow>
     (i < length (uploads s) \<and> receiving (uploads s ! i) \<longrightarrow> \<not> list_ex storing (uploads s)) \<and> exclusive is (upload_turn i s)"

text \<open>What the thread alone would still make of its file.\<close>

fun outcome_of :: "bytes \<Rightarrow> upload \<Rightarrow> bytes outcome option" where
  "outcome_of buf (Recv n c t out) = recv_loop n c t out"
| "outcome_of buf (Store n c t out rd) =
     (if t + of_nat rd < n then recv_loop n c (t + of_nat rd) (out @ take rd buf) else Some (Done (out @ take rd buf)))"
| "outcome_of buf (Stored out) = Some (Done out)"
| "outcome_of buf Broken = Some Undefined"

lemma read_socket_bounds:
  "READ_SOCKET c n = (rd, d, c') \<Longrightarrow> rd = int (length d) \<and> length d \<le> n \<or> rd = -1"
  by (induction c n rule: READ_SOCKET.induct) (auto split: if_splits)

lemma own_step:
  assumes "length buf = sizeof_work_buffer" "upload_step u buf = (u', buf')"
  shows "outcome_of buf' u' = outcome_of buf u" "length buf' = sizeof_work_buffer"
proof -
  have "outcome_of buf' u' = outcome_of buf u \<and> length buf' = sizeof_work_buffer"
  proof (cases u)
    case (Recv n c t out)
    obtain rd d c' where r: "READ_SOCKET c sizeof_work_buffer = (rd, d, c')" by (cases "READ_SOCKET c sizeof_work_buffer")
    show ?thesis
    proof (cases "rd < 0")
      case True
      then show ?thesis using assms Recv r by (auto simp: recv_loop.simps [of n c t out])
    next
      case False
      then have rd: "rd = int (length d)" "length d \<le> sizeof_work_buffer" using read_socket_bounds [OF r] by auto
      then have "take (length d) buf' = d" "buf' = put_field (0, length d) d buf" "u' = Store n c' t out (length d)"
        using assms Recv r by (auto simp: put_field.simps)
      then show ?thesis
        using assms(1) rd Recv r by (simp add: recv_loop.simps [of n c t out])
    qed
  qed (use assms in \<open>auto simp: Let_def\<close>)
  then show "outcome_of buf' u' = outcome_of buf u" "length buf' = sizeof_work_buffer" by blast+
qed

lemma other_step:
  "\<not> storing v \<or> \<not> receiving u \<Longrightarrow> upload_step u buf = (u', buf') \<Longrightarrow> outcome_of buf' v = outcome_of buf v"
  by (cases u; cases v) (auto simp: Let_def)

lemma exclusive_turn:
  assumes "length (work_buffer s) = sizeof_work_buffer" "exclusive (j # is) s" "i < length (uploads s)"
  shows "outcome_of (work_buffer (upload_turn j s)) (uploads (upload_turn j s) ! i) = outcome_of (work_buffer s) (uploads s ! i)"
    "length (work_buffer (upload_turn j s)) = sizeof_work_buffer" "length (uploads (upload_turn j s)) = length (uploads s)"
proof -
  obtain u buf where u: "upload_step (uploads s ! j) (work_buffer s) = (u, buf)" by force
  note own = own_step [OF assms(1) u]
  have other: "outcome_of buf (uploads s ! i) = outcome_of (work_buffer s) (uploads s ! i)" if "j < length (uploads s)"
    using that assms(2,3) by (intro other_step [OF _ u]) (auto simp: list_ex_iff)
  show "outcome_of (work_buffer (upload_turn j s)) (uploads (upload_turn j s) ! i) = outcome_of (work_buffer s) (uploads s ! i)"
    "length (work_buffer (upload_turn j s)) = sizeof_work_buffer" "length (uploads (upload_turn j s)) = length (uploads s)"
    using own other assms(1,3) by (auto simp: upload_turn_def u nth_list_update)
qed

text \<open>C39: Uploads that overlap at the server are received as if each were alone, as long as no thread reads from its connection
  while another has read and not yet written: every thread that finishes has then stored what
  the loop of theory PcServer stores for its connection.\<close>

theorem exclusive_uploads_are_separate:
  assumes "length (work_buffer s) = sizeof_work_buffer" "exclusive is s" "i < length (uploads s)"
    and "uploads s ! i = Recv total_size conn 0 []" "uploads (upload_turns is s) ! i = Stored out"
  shows "recv_loop total_size conn 0 [] = Some (Done out)"
proof -
  have "outcome_of (work_buffer (upload_turns is s)) (uploads (upload_turns is s) ! i) = outcome_of (work_buffer s) (uploads s ! i)"
    using assms(1-3)
  proof (induction "is" arbitrary: s)
    case (Cons j js)
    note t = exclusive_turn [OF Cons.prems]
    have "exclusive js (upload_turn j s)" using Cons.prems(2) by simp
    from Cons.IH [OF t(2) this] t(1,3) Cons.prems(3) show ?case by (simp add: upload_turns_def)
  qed (simp add: upload_turns_def)
  then show ?thesis using assms(4,5) by simp
qed

text \<open>Two uploads one after the other, and the same two with their steps in turn: the second read replaces the bytes of the first.\<close>

lemma size_work_buffer: "sizeof_work_buffer = 0x100000" by (simp add: sizeof_work_buffer_def WORKBUF_SIZE_def)

definition two_uploads :: server where
  "two_uploads = \<lparr>work_buffer = zeros sizeof_work_buffer, uploads = [Recv 1 [Data [1]] 0 [], Recv 1 [Data [2]] 0 []]\<rparr>"

theorem exclusive_uploads_are_separate_witness:
  "recv_loop 1 [Data [1]] 0 [] = Some (Done [1]) \<and> uploads (upload_turns [0, 0, 1, 1] two_uploads) = [Stored [1], Stored [2]] \<and>
   uploads (upload_turns [0, 1, 0, 1] two_uploads) = [Stored [2], Stored [2]]"
proof -
  have r: "uploads (upload_turns [0, 0, 1, 1] two_uploads) = [Stored [1], Stored [2]]"
    "uploads (upload_turns [0, 1, 0, 1] two_uploads) = [Stored [2], Stored [2]]"
    by (simp_all add: upload_turns_def upload_turn_def two_uploads_def size_work_buffer put_field.simps)
  have "exclusive [0, 0, 1, 1] two_uploads"
    by (simp add: upload_turn_def two_uploads_def size_work_buffer)
  from exclusive_uploads_are_separate [OF _ this, of 0 1 "[Data [1]]" "[1]"] r show ?thesis
    by (simp add: two_uploads_def)
qed

end
