(* ===== verification/KernGlue.thy ===== *)
theory KernGlue
  imports CString Ident
begin

text \<open>
  The kernel module's own glue: the registers of the card and its reset in \<^verbatim>\<open>kern/gc.c\<close>,
  the versions of system modules in \<^verbatim>\<open>kern/module.c\<close>, the mount points that other plugins have
  redirected in \<^verbatim>\<open>kern/sd2vita.c\<close>, the hooks for storage on USB in \<^verbatim>\<open>kern/otg.c\<close>
  and the start and stop of the module.  Functions the module finds by their address are numbers,
  zero the null pointer; calling one is a function of the system.  A call through null is undefined.
\<close>

section \<open>The system\<close>

record SceIoMountPoint =
  mp_dev :: "nat option"
  mp_dev2 :: "nat option"

record SceIoDevice =
  iod_dev :: "bytes option"
  iod_blkdev :: "bytes option"

record mmc_context =
  ctx_CID :: bytes
  ctx_CSD :: bytes
  ctx_EXT_CSD :: bytes

record GcInteruptInfo =
  request_id :: int
  op_sync_id :: int

record 'k glue_sys =
  ksceSdifGetSdContextPartValidateMmc :: "int \<Rightarrow> 'k \<Rightarrow> mmc_context option"
  ksceSdifGetSdContextPartValidateSd :: "int \<Rightarrow> 'k \<Rightarrow> bool"
  ksceKernelSetEventFlag :: "int \<Rightarrow> nat \<Rightarrow> 'k \<Rightarrow> int \<times> 'k"
  ksceKernelWaitEventFlag :: "int \<Rightarrow> nat \<Rightarrow> nat \<Rightarrow> 'k \<Rightarrow> int \<times> 'k"
  ksceSysconCtrlSdPower :: "nat \<Rightarrow> 'k \<Rightarrow> int \<times> 'k"
  ksceKernelDelayThread :: "nat \<Rightarrow> 'k \<Rightarrow> 'k"
  ksceKernelSearchModuleByName :: "bytes \<Rightarrow> 'k \<Rightarrow> int"
  taiGetModuleInfoForKernel :: "bytes \<Rightarrow> 'k \<Rightarrow> int \<times> int"
  module_get_offset :: "int \<Rightarrow> nat \<Rightarrow> nat \<Rightarrow> nat \<Rightarrow> 'k \<Rightarrow> int \<times> nat"
  ksceIoOpen :: "bytes \<Rightarrow> 'k \<Rightarrow> int \<times> 'k"
  ksceIoLseek :: "int \<Rightarrow> nat \<Rightarrow> 'k \<Rightarrow> 'k"
  ksceIoRead :: "int \<Rightarrow> bytes \<Rightarrow> 'k \<Rightarrow> int \<times> bytes \<times> 'k"
  ksceIoClose :: "int \<Rightarrow> 'k \<Rightarrow> 'k"
  taiInjectDataForKernel :: "int \<Rightarrow> nat \<Rightarrow> nat \<Rightarrow> bytes \<Rightarrow> 'k \<Rightarrow> int \<times> 'k"
  taiHookFunctionExportForKernel :: "nat \<Rightarrow> nat \<Rightarrow> 'k \<Rightarrow> int \<times> nat \<times> 'k"
  taiHookFunctionImportForKernel :: "nat \<Rightarrow> nat \<Rightarrow> 'k \<Rightarrow> int \<times> nat \<times> 'k"
  taiHookReleaseForKernel :: "int \<Rightarrow> nat \<Rightarrow> 'k \<Rightarrow> 'k"
  ksceKernelLoadStartModule :: "bytes \<Rightarrow> 'k \<Rightarrow> int \<times> 'k"
  interupt_at :: "nat \<Rightarrow> 'k \<Rightarrow> GcInteruptInfo"
  call_find_mount_point :: "nat \<Rightarrow> int \<Rightarrow> 'k \<Rightarrow> SceIoMountPoint option"

text \<open>The static variables; \<open>io_devices\<close> is the memory the mount points refer to.\<close>

record 'k glue =
  kmem :: 'k
  io_devices :: "nat \<Rightarrow> SceIoDevice"
  interupt_info :: nat
  sceIoFindMountPoint :: nat
  undone_sd2vita_patch :: bool
  appmgr_functions :: "nat \<times> nat"
  ksceSysconGetMicroUsbInfoHook :: int
  ksceSysconGetMicroUsbInfoRef :: nat
  ksceSysrootIsSafeModeHook :: int
  ksceSysrootIsSafeModeRef :: nat

section \<open>The card\<close>

definition get_interupt_location :: "'k glue_sys \<Rightarrow> 'k glue \<Rightarrow> 'k glue" where
  "get_interupt_location sys s =
     (let (res, modid) = taiGetModuleInfoForKernel sys (cstr ''SceSdstor'') (kmem s)
      in if res \<ge> 0 then s\<lparr>interupt_info := snd (module_get_offset sys modid 1 0x1B24 (interupt_info s) (kmem s))\<rparr> else s)"

definition to_user :: "bytes \<Rightarrow> bytes \<Rightarrow> bytes" where
  "to_user dst k_buffer = put_field (0, length k_buffer) k_buffer dst"

definition kGetCardId :: "'k glue_sys \<Rightarrow> int \<Rightarrow> bytes \<Rightarrow> 'k glue \<Rightarrow> int \<times> bytes" where
  "kGetCardId sys deviceIndex cardId s =
     (case ksceSdifGetSdContextPartValidateMmc sys deviceIndex (kmem s) of
        None \<Rightarrow> (POINTER_WAS_NULL, cardId)
      | Some k_deviceInfo \<Rightarrow> (0, to_user cardId (ctx_CID k_deviceInfo)))"

definition kGetCardCsd :: "'k glue_sys \<Rightarrow> int \<Rightarrow> bytes \<Rightarrow> 'k glue \<Rightarrow> int \<times> bytes" where
  "kGetCardCsd sys deviceIndex cardCsd s =
     (case ksceSdifGetSdContextPartValidateMmc sys deviceIndex (kmem s) of
        None \<Rightarrow> (POINTER_WAS_NULL, cardCsd)
      | Some k_deviceInfo \<Rightarrow> (0, to_user cardCsd (ctx_CSD k_deviceInfo)))"

definition kGetCardExtCsd :: "'k glue_sys \<Rightarrow> int \<Rightarrow> bytes \<Rightarrow> 'k glue \<Rightarrow> int \<times> bytes" where
  "kGetCardExtCsd sys deviceIndex cardExtCsd s =
     (case ksceSdifGetSdContextPartValidateMmc sys deviceIndex (kmem s) of
        None \<Rightarrow> (POINTER_WAS_NULL, cardExtCsd)
      | Some k_deviceInfo \<Rightarrow> (0, to_user cardExtCsd (ctx_EXT_CSD k_deviceInfo)))"

definition kIsSdInserted :: "'k glue_sys \<Rightarrow> 'k glue \<Rightarrow> bool" where
  "kIsSdInserted sys s = ksceSdifGetSdContextPartValidateSd sys 1 (kmem s)"

definition kIsMmcInserted :: "'k glue_sys \<Rightarrow> 'k glue \<Rightarrow> bool" where
  "kIsMmcInserted sys s = (ksceSdifGetSdContextPartValidateMmc sys 1 (kmem s) \<noteq> None)"

text \<open>The interrupts of the card slot are asked for by event flags; without their location the module is lost.\<close>

definition WAIT_MODE :: nat where "WAIT_MODE = 0x5"

definition reset_slot :: "'k glue_sys \<Rightarrow> GcInteruptInfo \<Rightarrow> 'k \<Rightarrow> int \<times> 'k" where
  "reset_slot sys slot k =
     (let (res, k) = ksceKernelSetEventFlag sys (request_id slot) 0x100 k in if res < 0 then (res, k) else
      let (res, k) = ksceKernelWaitEventFlag sys (op_sync_id slot) 0x100 WAIT_MODE k in if res < 0 then (res, k) else
      let (res, k) = ksceSysconCtrlSdPower sys 0 k in if res < 0 then (res, k) else
      let k = ksceKernelDelayThread sys (1000 * 10) k;
          (res, k) = ksceSysconCtrlSdPower sys 1 k in if res < 0 then (res, k) else
      let (res, k) = ksceKernelSetEventFlag sys (request_id slot) 0x1000 k in if res < 0 then (res, k) else
      ksceKernelWaitEventFlag sys (op_sync_id slot) 0x1000 WAIT_MODE k)"

definition sizeof_GcInteruptInfo :: nat where "sizeof_GcInteruptInfo = 0x28"

definition kResetGc :: "'k glue_sys \<Rightarrow> 'k glue \<Rightarrow> (int \<times> 'k glue) option" where
  "kResetGc sys s =
     (if interupt_info s = 0 then None
      else (let (res, k) = reset_slot sys (interupt_at sys (interupt_info s + sizeof_GcInteruptInfo) (kmem s)) (kmem s)
            in Some (res, s\<lparr>kmem := k\<rparr>)))"

section \<open>Modules and their versions\<close>

definition check_module_version :: "'k glue_sys \<Rightarrow> bytes \<Rightarrow> 'k \<Rightarrow> int \<times> 'k" where
  "check_module_version sys module k =
     (let (fd, k) = ksceIoOpen sys module k;
          k = ksceIoLseek sys fd 0x94 k;
          (_, version, k) = ksceIoRead sys fd (zeros 4) k;
          k = ksceIoClose sys fd k
      in (sint (le_word version :: u32), k))"

text \<open>The lowest bit of the address marks Thumb code.\<close>

definition get_format_functions :: "'k glue_sys \<Rightarrow> 'k glue \<Rightarrow> 'k glue" where
  "get_format_functions sys s =
     (let module_id = ksceKernelSearchModuleByName sys (cstr ''SceAppMgr'') (kmem s);
          (appmgr_version, k) = check_module_version sys (cstr ''os0:/kd/bootimage.skprx'') (kmem s);
          s = s\<lparr>kmem := k\<rparr>;
          (fat_time, fat_format) = appmgr_functions s
      in if module_id > 0 then
           (if appmgr_version \<ge> 0x363
            then s\<lparr>appmgr_functions := (snd (module_get_offset sys module_id 0 0x39B41 fat_time k),
                    snd (module_get_offset sys module_id 0 0x3E225 fat_format k))\<rparr>
            else s\<lparr>appmgr_functions := (snd (module_get_offset sys module_id 0 0x39B55 fat_time k),
                    snd (module_get_offset sys module_id 0 0x3E239 fat_format k))\<rparr>)
         else s)"

section \<open>Mount points\<close>

text \<open>A name that is null or another one is replaced; both names of a mount point may be in the same place.\<close>

definition renamed :: "bytes option \<Rightarrow> bytes \<Rightarrow> bytes option" where
  "renamed old new = (case old of None \<Rightarrow> Some new | Some b \<Rightarrow> if chars b \<noteq> chars new then Some new else old)"

definition fix_up_device :: "bytes \<Rightarrow> bytes \<Rightarrow> nat option \<Rightarrow> (nat \<Rightarrow> SceIoDevice) \<Rightarrow> (nat \<Rightarrow> SceIoDevice)" where
  "fix_up_device new_dev new_blkdev p h =
     (case p of
        None \<Rightarrow> h
      | Some a \<Rightarrow>
          (let h = h(a := (h a)\<lparr>iod_blkdev := renamed (iod_blkdev (h a)) new_blkdev\<rparr>)
           in h(a := (h a)\<lparr>iod_dev := renamed (iod_dev (h a)) new_dev\<rparr>)))"

definition fix_up_mountpoint :: "'k glue_sys \<Rightarrow> int \<Rightarrow> string \<Rightarrow> string \<Rightarrow> 'k glue \<Rightarrow> 'k glue option" where
  "fix_up_mountpoint sys point new_dev new_blkdev s =
     (if sceIoFindMountPoint s = 0 then None
      else
        (case call_find_mount_point sys (sceIoFindMountPoint s) point (kmem s) of
           None \<Rightarrow> Some s
         | Some part \<Rightarrow>
             (let h = fix_up_device (cstr new_dev) (cstr new_blkdev) (mp_dev part) (io_devices s);
                  h = fix_up_device (cstr new_dev) (cstr new_blkdev) (mp_dev2 part) h
              in Some (s\<lparr>io_devices := h\<rparr>))))"

definition kUndoneSd2VitaPatches :: "'k glue \<Rightarrow> bool" where
  "kUndoneSd2VitaPatches s = undone_sd2vita_patch s"

text \<open>Both versions are read from the module of files.\<close>

definition kUndoSd2Vita :: "'k glue_sys \<Rightarrow> 'k glue \<Rightarrow> 'k glue option" where
  "kUndoSd2Vita sys s =
     (if undone_sd2vita_patch s then Some s
      else
        (let s = s\<lparr>undone_sd2vita_patch := True\<rparr>;
             module_id = ksceKernelSearchModuleByName sys (cstr ''SceIofilemgr'') (kmem s);
             (iofilemgr_version, k) = check_module_version sys (cstr ''os0:/kd/iofilemgr.skprx'') (kmem s);
             s = s\<lparr>kmem := k\<rparr>;
             s = (if module_id > 0
                  then s\<lparr>sceIoFindMountPoint := snd (module_get_offset sys module_id 0
                         (if iofilemgr_version \<ge> 0x363 then 0x182f5 else 0x138c1) (sceIoFindMountPoint s) k)\<rparr>
                  else s);
             module_id = ksceKernelSearchModuleByName sys (cstr ''SceSysmem'') (kmem s);
             (sysmem_version, k) = check_module_version sys (cstr ''os0:/kd/iofilemgr.skprx'') (kmem s);
             k = (if module_id > 0 \<and> sysmem_version \<ge> 0x360
                  then snd (taiInjectDataForKernel sys module_id 0 0x21610 [0x00, 0x20] k) else k);
             s = s\<lparr>kmem := k\<rparr>
         in do { s \<leftarrow> fix_up_mountpoint sys 0x900 ''gro0:'' ''sdstor0:gcd-lp-ign-gamero'' s;
                 s \<leftarrow> fix_up_mountpoint sys 0xA00 ''grw0:'' ''sdstor0:gcd-lp-ign-gamerw'' s;
                 s \<leftarrow> fix_up_mountpoint sys 0xD00 ''imc0:'' ''sdstor0:int-lp-ign-userext'' s;
                 s \<leftarrow> fix_up_mountpoint sys 0xE00 ''xmc0:'' ''sdstor0:xmc-lp-ign-userext'' s;
                 fix_up_mountpoint sys 0xF00 ''uma0:'' ''sdstor0:uma-pp-act-a'' s }))"

section \<open>Storage on USB\<close>

definition ksceSysconGetMicroUsbInfo_patched :: "(u32 \<Rightarrow> int \<times> u32) \<Rightarrow> u32 \<Rightarrow> int \<times> u32" where
  "ksceSysconGetMicroUsbInfo_patched original pwr_val =
     (let (res, pwr_val) = original pwr_val in (res, if pwr_val = 0x700 then 0x200 else pwr_val))"

definition load_umass :: "'k glue_sys \<Rightarrow> 'k \<Rightarrow> int \<times> 'k" where
  "load_umass sys k =
     (if ksceKernelSearchModuleByName sys (cstr ''SceUsbMass'') k < 0 then
        (let (tmpHook, tmpHookRef, k) = taiHookFunctionExportForKernel sys 0x2ED7F97A 0x834439A7 k;
             (tmpHook2, tmpHook2Ref, k) = taiHookFunctionExportForKernel sys 0xFD00C69A 0x71608CA3 k;
             (umass_modid, k) = ksceKernelLoadStartModule sys (cstr ''ux0:VitaShell/module/umass.skprx'') k;
             k = (if tmpHook > 0 then taiHookReleaseForKernel sys tmpHook tmpHookRef k else k);
             k = (if tmpHook2 > 0 then taiHookReleaseForKernel sys tmpHook2 tmpHook2Ref k else k)
         in (if umass_modid < 0 then umass_modid else 0, k))
      else (0, k))"

definition otg_patch :: "'k glue_sys \<Rightarrow> 'k glue \<Rightarrow> 'k glue" where
  "otg_patch sys s =
     (let (safe, safe_ref, k) = taiHookFunctionImportForKernel sys 0x2ED7F97A 0x834439A7 (kmem s);
          (usb, usb_ref, k) = taiHookFunctionImportForKernel sys 0x60A35F64 0xD6F6D472 k;
          (_, k) = load_umass sys k
      in s\<lparr>kmem := k, ksceSysrootIsSafeModeHook := safe, ksceSysrootIsSafeModeRef := safe_ref,
           ksceSysconGetMicroUsbInfoHook := usb, ksceSysconGetMicroUsbInfoRef := usb_ref\<rparr>)"

definition otg_unpatch :: "'k glue_sys \<Rightarrow> 'k glue \<Rightarrow> 'k glue" where
  "otg_unpatch sys s =
     (let k = kmem s;
          k = (if ksceSysconGetMicroUsbInfoHook s \<ge> 0
               then taiHookReleaseForKernel sys (ksceSysconGetMicroUsbInfoHook s) (ksceSysconGetMicroUsbInfoRef s) k else k);
          k = (if ksceSysrootIsSafeModeHook s \<ge> 0
               then taiHookReleaseForKernel sys (ksceSysrootIsSafeModeHook s) (ksceSysrootIsSafeModeRef s) k else k)
      in s\<lparr>kmem := k\<rparr>)"

definition module_start :: "'k glue_sys \<Rightarrow> 'k glue \<Rightarrow> 'k glue" where
  "module_start sys s = get_interupt_location sys (get_format_functions sys (otg_patch sys s))"

definition module_stop :: "'k glue_sys \<Rightarrow> 'k glue \<Rightarrow> 'k glue" where
  "module_stop sys s = otg_unpatch sys s"

section \<open>The reset\<close>

text \<open>What a reset asks of the hardware, in its order; \<open>log\<close> is what has been asked so far.\<close>

datatype slot_event = SetFlag int nat | WaitFlag int nat nat | SdPower nat | Delay nat

definition logs :: "'k glue_sys \<Rightarrow> ('k \<Rightarrow> slot_event list) \<Rightarrow> bool" where
  "logs sys events \<longleftrightarrow>
     (\<forall>i b k. events (snd (ksceKernelSetEventFlag sys i b k)) = events k @ [SetFlag i b]) \<and>
     (\<forall>i b m k. events (snd (ksceKernelWaitEventFlag sys i b m k)) = events k @ [WaitFlag i b m]) \<and>
     (\<forall>n k. events (snd (ksceSysconCtrlSdPower sys n k)) = events k @ [SdPower n]) \<and>
     (\<forall>n k. events (ksceKernelDelayThread sys n k) = events k @ [Delay n])"

definition reset_events :: "GcInteruptInfo \<Rightarrow> slot_event list" where
  "reset_events slot =
     [SetFlag (request_id slot) 0x100, WaitFlag (op_sync_id slot) 0x100 WAIT_MODE, SdPower 0, Delay 10000, SdPower 1,
      SetFlag (request_id slot) 0x1000, WaitFlag (op_sync_id slot) 0x1000 WAIT_MODE]"

lemma logs_facts:
  assumes "logs sys events"
  shows "ksceKernelSetEventFlag sys i b k = (r, k') \<Longrightarrow> events k' = events k @ [SetFlag i b]"
    and "ksceKernelWaitEventFlag sys i b m k = (r, k') \<Longrightarrow> events k' = events k @ [WaitFlag i b m]"
    and "ksceSysconCtrlSdPower sys n k = (r, k') \<Longrightarrow> events k' = events k @ [SdPower n]"
    and "events (ksceKernelDelayThread sys n k) = events k @ [Delay n]"
  using assms unfolding logs_def by (metis snd_conv)+

lemma reset_slot_prefix:
  assumes "logs sys events" "reset_slot sys slot k = (res, k')"
  shows "\<exists>n. events k' = events k @ take n (reset_events slot) \<and> (if res < 0 then 0 < n else n = 7)"
proof -
  note l = logs_facts [OF assms(1)]
  obtain r1 k1 where 1: "ksceKernelSetEventFlag sys (request_id slot) 0x100 k = (r1, k1)" by fastforce
  obtain r2 k2 where 2: "ksceKernelWaitEventFlag sys (op_sync_id slot) 0x100 WAIT_MODE k1 = (r2, k2)" by fastforce
  obtain r3 k3 where 3: "ksceSysconCtrlSdPower sys 0 k2 = (r3, k3)" by fastforce
  define k4 where "k4 = ksceKernelDelayThread sys 10000 k3"
  obtain r5 k5 where 5: "ksceSysconCtrlSdPower sys 1 k4 = (r5, k5)" by fastforce
  obtain r6 k6 where 6: "ksceKernelSetEventFlag sys (request_id slot) 0x1000 k5 = (r6, k6)" by fastforce
  obtain r7 k7 where 7: "ksceKernelWaitEventFlag sys (op_sync_id slot) 0x1000 WAIT_MODE k6 = (r7, k7)" by fastforce
  have e: "events k1 = events k @ take 1 (reset_events slot)" "events k2 = events k @ take 2 (reset_events slot)"
    "events k3 = events k @ take 3 (reset_events slot)" "events k5 = events k @ take 5 (reset_events slot)"
    "events k6 = events k @ take 6 (reset_events slot)" "events k7 = events k @ take 7 (reset_events slot)"
    using l(1) [OF 1] l(2) [OF 2] l(3) [OF 3] l(4) [of 10000 k3] l(3) [OF 5] l(1) [OF 6] l(2) [OF 7]
    by (simp_all add: reset_events_def k4_def)
  have "reset_slot sys slot k = (if r1 < 0 then (r1, k1) else if r2 < 0 then (r2, k2) else if r3 < 0 then (r3, k3)
      else if r5 < 0 then (r5, k5) else if r6 < 0 then (r6, k6) else (r7, k7))"
    by (simp add: reset_slot_def 1 2 3 5 [simplified] 6 7 k4_def [symmetric])
  with e assms(2) show ?thesis by (auto split: if_splits)
qed

text \<open>C33: A reset of the card removes it, switches its power off and on and inserts it, in this order: every call that is
  made belongs to this sequence, and a reset that reports success has made all of them.
\<close>

theorem reset_follows_sequence:
  assumes "logs sys events" "kResetGc sys s = Some (res, s')"
  shows "\<exists>n. events (kmem s') = events (kmem s) @
      take n (reset_events (interupt_at sys (interupt_info s + sizeof_GcInteruptInfo) (kmem s))) \<and>
    (if res < 0 then 0 < n else n = 7)"
proof -
  let ?slot = "interupt_at sys (interupt_info s + sizeof_GcInteruptInfo) (kmem s)"
  obtain r k where r: "reset_slot sys ?slot (kmem s) = (r, k)" by fastforce
  then have "res = r" "kmem s' = k" using assms(2) by (auto simp: kResetGc_def split: if_splits)
  with reset_slot_prefix [OF assms(1) r] show ?thesis by simp
qed


section \<open>The mount points\<close>

definition named :: "SceIoDevice \<Rightarrow> string \<Rightarrow> string \<Rightarrow> bool" where
  "named d new_dev new_blkdev \<longleftrightarrow>
     map_option chars (iod_dev d) = Some (chars (cstr new_dev)) \<and> map_option chars (iod_blkdev d) = Some (chars (cstr new_blkdev))"

definition original_names :: "(int \<times> string \<times> string) list" where
  "original_names = [(0x900, ''gro0:'', ''sdstor0:gcd-lp-ign-gamero''), (0xA00, ''grw0:'', ''sdstor0:gcd-lp-ign-gamerw''),
     (0xD00, ''imc0:'', ''sdstor0:int-lp-ign-userext''), (0xE00, ''xmc0:'', ''sdstor0:xmc-lp-ign-userext''),
     (0xF00, ''uma0:'', ''sdstor0:uma-pp-act-a'')]"

text \<open>The places a mount point refers to.\<close>

definition places :: "SceIoMountPoint option \<Rightarrow> nat set" where
  "places m = (case m of None \<Rightarrow> {} | Some part \<Rightarrow> set_option (mp_dev part) \<union> set_option (mp_dev2 part))"

lemma renamed_chars: "map_option chars (renamed b new) = Some (chars new)"
  by (auto simp: renamed_def split: option.split)

lemma fix_up_device_named:
  "a \<in> set_option p \<Longrightarrow> named (fix_up_device (cstr d) (cstr b) p h a) d b"
  "a \<notin> set_option p \<Longrightarrow> fix_up_device d' b' p h a = h a"
  by (auto simp: fix_up_device_def named_def renamed_chars split: option.splits)

lemma fix_up_mountpoint_named:
  assumes "sceIoFindMountPoint s \<noteq> 0"
  obtains s' where "fix_up_mountpoint sys i d b s = Some s'"
    "kmem s' = kmem s" "sceIoFindMountPoint s' = sceIoFindMountPoint s" "undone_sd2vita_patch s' = undone_sd2vita_patch s"
    "\<And>a. a \<in> places (call_find_mount_point sys (sceIoFindMountPoint s) i (kmem s)) \<Longrightarrow> named (io_devices s' a) d b"
    "\<And>a. a \<notin> places (call_find_mount_point sys (sceIoFindMountPoint s) i (kmem s)) \<Longrightarrow> io_devices s' a = io_devices s a"
proof (cases "call_find_mount_point sys (sceIoFindMountPoint s) i (kmem s)")
  case None
  with assms that [of s] show ?thesis by (simp add: fix_up_mountpoint_def places_def)
next
  case (Some part)
  let ?h1 = "fix_up_device (cstr d) (cstr b) (mp_dev part) (io_devices s)"
  let ?h = "fix_up_device (cstr d) (cstr b) (mp_dev2 part) ?h1"
  have n: "named (?h a) d b" if "a \<in> places (Some part)" for a
    using that fix_up_device_named [of a "mp_dev2 part"] fix_up_device_named(1) [of a "mp_dev part"]
    by (cases "a \<in> set_option (mp_dev2 part)") (auto simp: places_def)
  have o: "?h a = io_devices s a" if "a \<notin> places (Some part)" for a
    using that fix_up_device_named(2) by (simp add: places_def)
  show ?thesis
    using that [of "s\<lparr>io_devices := ?h\<rparr>"] assms Some n o by (simp add: fix_up_mountpoint_def Let_def)
qed

text \<open>The repairs of \<^verbatim>\<open>kUndoSd2Vita\<close> as a list.\<close>

fun fix_all :: "'k glue_sys \<Rightarrow> (int \<times> string \<times> string) list \<Rightarrow> 'k glue \<Rightarrow> 'k glue option" where
  "fix_all sys [] s = Some s"
| "fix_all sys ((i, d, b) # xs) s = Option.bind (fix_up_mountpoint sys i d b s) (fix_all sys xs)"

lemma fix_all_fun:
  "fix_all sys [] = Some"
  "fix_all sys ((i, d, b) # xs) = (\<lambda>s. Option.bind (fix_up_mountpoint sys i d b s) (fix_all sys xs))"
  by (rule ext, simp)+

text \<open>All places of the points have their names, all others are as before.\<close>

definition repaired :: "(int \<Rightarrow> SceIoMountPoint option) \<Rightarrow> (int \<times> string \<times> string) list \<Rightarrow> 'k glue \<Rightarrow> 'k glue \<Rightarrow> bool" where
  "repaired points xs s s' \<longleftrightarrow>
     (\<forall>(i, d, b) \<in> set xs. \<forall>a \<in> places (points i). named (io_devices s' a) d b) \<and>
     (\<forall>a. (\<forall>(i, d, b) \<in> set xs. a \<notin> places (points i)) \<longrightarrow> io_devices s' a = io_devices s a)"

lemma repaired_Cons:
  assumes apart: "\<And>j. j \<noteq> i \<Longrightarrow> places (points i) \<inter> places (points j) = {}" and i: "i \<notin> fst ` set xs"
    and one: "\<And>a. a \<in> places (points i) \<Longrightarrow> named (io_devices s1 a) d b"
      "\<And>a. a \<notin> places (points i) \<Longrightarrow> io_devices s1 a = io_devices s a"
    and r: "repaired points xs s1 s'"
  shows "repaired points ((i, d, b) # xs) s s'"
proof -
  have "named (io_devices s' a) d b" if a: "a \<in> places (points i)" for a
  proof -
    have "\<forall>(j, d, b) \<in> set xs. a \<notin> places (points j)" using a apart i by force
    then have "io_devices s' a = io_devices s1 a" using r by (simp only: repaired_def)
    with one(1) [OF a] show ?thesis by simp
  qed
  with one(2) r show ?thesis by (simp add: repaired_def)
qed

lemma fix_all_repairs:
  assumes points: "\<And>f i k. call_find_mount_point sys f i k = points i"
    and apart: "\<And>i j. i \<noteq> j \<Longrightarrow> places (points i) \<inter> places (points j) = {}"
  shows "sceIoFindMountPoint s \<noteq> 0 \<Longrightarrow> distinct (map fst xs) \<Longrightarrow>
    \<exists>s'. fix_all sys xs s = Some s' \<and> undone_sd2vita_patch s' = undone_sd2vita_patch s \<and> repaired points xs s s'"
proof (induction xs arbitrary: s)
  case (Cons x xs)
  obtain i d b where x: "x = (i, d, b)" by (cases x)
  obtain s1 where 1: "fix_up_mountpoint sys i d b s = Some s1" "sceIoFindMountPoint s1 \<noteq> 0"
    "undone_sd2vita_patch s1 = undone_sd2vita_patch s" "\<And>a. a \<in> places (points i) \<Longrightarrow> named (io_devices s1 a) d b"
    "\<And>a. a \<notin> places (points i) \<Longrightarrow> io_devices s1 a = io_devices s a"
    using fix_up_mountpoint_named [OF Cons(2)] Cons(2) points by metis
  have "distinct (map fst xs)" and i: "i \<notin> fst ` set xs" using Cons(3) x by auto
  with Cons.IH [OF 1(2)] obtain s' where 2: "fix_all sys xs s1 = Some s'"
    "undone_sd2vita_patch s' = undone_sd2vita_patch s1" "repaired points xs s1 s'" by blast
  have "repaired points ((i, d, b) # xs) s s'"
    by (rule repaired_Cons [OF _ i 1(4,5) 2(3)]) (use apart in auto)
  with 1(1,3) 2(1,2) show ?case by (simp add: x)
qed (simp add: repaired_def)

lemma kUndoSd2Vita_repairs:
  assumes "\<not> undone_sd2vita_patch s" "\<And>s. 0 < ksceKernelSearchModuleByName sys (cstr ''SceIofilemgr'') s"
    and "\<And>m n off a k. snd (module_get_offset sys m n off a k) \<noteq> 0"
  obtains s0 where "kUndoSd2Vita sys s = fix_all sys original_names s0"
    "undone_sd2vita_patch s0" "sceIoFindMountPoint s0 \<noteq> 0" "io_devices s0 = io_devices s"
proof -
  obtain v1 k1 where 1: "check_module_version sys (cstr ''os0:/kd/iofilemgr.skprx'') (kmem s) = (v1, k1)" by fastforce
  obtain v2 k2 where 2: "check_module_version sys (cstr ''os0:/kd/iofilemgr.skprx'') k1 = (v2, k2)" by fastforce
  define f where "f = snd (module_get_offset sys (ksceKernelSearchModuleByName sys (cstr ''SceIofilemgr'') (kmem s)) 0
    (if v1 \<ge> 0x363 then 0x182f5 else 0x138c1) (sceIoFindMountPoint s) k1)"
  define m where "m = ksceKernelSearchModuleByName sys (cstr ''SceSysmem'') k1"
  define k3 where "k3 = (if m > 0 \<and> v2 \<ge> 0x360 then snd (taiInjectDataForKernel sys m 0 0x21610 [0x00, 0x20] k2) else k2)"
  have "kUndoSd2Vita sys s = fix_all sys original_names (s\<lparr>undone_sd2vita_patch := True, sceIoFindMountPoint := f, kmem := k3\<rparr>)"
    using assms(1,2) by (simp add: kUndoSd2Vita_def original_names_def fix_all_fun 1 2 f_def m_def k3_def Let_def)
  moreover have "f \<noteq> 0" unfolding f_def by (rule assms(3))
  ultimately show ?thesis using that by simp
qed

text \<open>C34: The mount points are given back their own devices: where the module of files is found and no place is shared by
  two mount points, all the names that the five of the console refer to are the original ones afterwards, all other
  devices are as before, and a second call changes nothing, whatever other plugins have done to them in between.
\<close>

theorem redirections_are_undone:
  assumes fresh: "\<not> undone_sd2vita_patch s"
    and found: "\<And>s. 0 < ksceKernelSearchModuleByName sys (cstr ''SceIofilemgr'') s"
    and address: "\<And>m n off a k. snd (module_get_offset sys m n off a k) \<noteq> 0"
    and points: "\<And>f i k. call_find_mount_point sys f i k = points i"
    and apart: "\<And>i j. i \<noteq> j \<Longrightarrow> places (points i) \<inter> places (points j) = {}"
  shows "\<exists>s'. kUndoSd2Vita sys s = Some s' \<and> kUndoneSd2VitaPatches s' \<and> repaired points original_names s s' \<and>
    (\<forall>h. kUndoSd2Vita sys (s'\<lparr>io_devices := h\<rparr>) = Some (s'\<lparr>io_devices := h\<rparr>))"
proof -
  obtain s0 where run: "kUndoSd2Vita sys s = fix_all sys original_names s0"
    and s0: "undone_sd2vita_patch s0" "sceIoFindMountPoint s0 \<noteq> 0" "io_devices s0 = io_devices s"
    using kUndoSd2Vita_repairs [OF fresh found address] by blast
  have "distinct (map fst original_names)" by (simp add: original_names_def)
  then obtain s' where s': "fix_all sys original_names s0 = Some s'"
    "undone_sd2vita_patch s' = undone_sd2vita_patch s0" "repaired points original_names s0 s'"
    using fix_all_repairs [OF points apart s0(2)] by blast
  then have "kUndoSd2Vita sys (s'\<lparr>io_devices := h\<rparr>) = Some (s'\<lparr>io_devices := h\<rparr>)" for h
    using s0(1) by (simp add: kUndoSd2Vita_def)
  with run s' s0 show ?thesis by (simp add: kUndoneSd2VitaPatches_def repaired_def)
qed

section \<open>The hooks\<close>

text \<open>
  What the system promises of hooks: a handle that is not negative is a new one, and is held until it is released.
\<close>

definition hooking :: "'k glue_sys \<Rightarrow> ('k \<Rightarrow> int set) \<Rightarrow> bool" where
  "hooking sys held \<longleftrightarrow>
     (\<forall>l f k h r k'. taiHookFunctionExportForKernel sys l f k = (h, r, k') \<longrightarrow>
        h \<noteq> 0 \<and> h \<notin> held k \<and> held k' = (if h < 0 then held k else insert h (held k))) \<and>
     (\<forall>l f k h r k'. taiHookFunctionImportForKernel sys l f k = (h, r, k') \<longrightarrow>
        h \<noteq> 0 \<and> h \<notin> held k \<and> held k' = (if h < 0 then held k else insert h (held k))) \<and>
     (\<forall>h r k. held (taiHookReleaseForKernel sys h r k) = held k - {h}) \<and>
     (\<forall>p k. held (snd (ksceKernelLoadStartModule sys p k)) = held k) \<and>
     (\<forall>p k. held (snd (ksceIoOpen sys p k)) = held k) \<and> (\<forall>fd n k. held (ksceIoLseek sys fd n k) = held k) \<and>
     (\<forall>fd b k. held (snd (snd (ksceIoRead sys fd b k))) = held k) \<and> (\<forall>fd k. held (ksceIoClose sys fd k) = held k)"

lemma hooking_facts:
  assumes "hooking sys held"
  shows "taiHookFunctionExportForKernel sys l f k = (h, r, k') \<Longrightarrow>
      h \<noteq> 0 \<and> h \<notin> held k \<and> held k' = (if h < 0 then held k else insert h (held k))"
    and "taiHookFunctionImportForKernel sys l f k = (h, r, k') \<Longrightarrow>
      h \<noteq> 0 \<and> h \<notin> held k \<and> held k' = (if h < 0 then held k else insert h (held k))"
    and "held (taiHookReleaseForKernel sys h r k) = held k - {h}"
    and "held (snd (ksceKernelLoadStartModule sys p k)) = held k"
    and "held (if b then taiHookReleaseForKernel sys h r k else k) = (if b then held k - {h} else held k)"
proof -
  note d = assms [unfolded hooking_def]
  show "taiHookFunctionExportForKernel sys l f k = (h, r, k') \<Longrightarrow>
      h \<noteq> 0 \<and> h \<notin> held k \<and> held k' = (if h < 0 then held k else insert h (held k))"
    by (rule d [THEN conjunct1, rule_format])
  show "taiHookFunctionImportForKernel sys l f k = (h, r, k') \<Longrightarrow>
      h \<noteq> 0 \<and> h \<notin> held k \<and> held k' = (if h < 0 then held k else insert h (held k))"
    by (rule d [THEN conjunct2, THEN conjunct1, rule_format])
  show r: "held (taiHookReleaseForKernel sys h r k) = held k - {h}"
    by (rule d [THEN conjunct2, THEN conjunct2, THEN conjunct1, rule_format])
  show "held (snd (ksceKernelLoadStartModule sys p k)) = held k"
    by (rule d [THEN conjunct2, THEN conjunct2, THEN conjunct2, THEN conjunct1, rule_format])
  show "held (if b then taiHookReleaseForKernel sys h r k else k) = (if b then held k - {h} else held k)"
    by (simp add: r)
qed

text \<open>Two hooks set one after the other and released, in either order.\<close>

lemma two_hooks:
  assumes "h \<noteq> 0 \<and> h \<notin> A \<and> B = (if h < 0 then A else insert h A)" "g \<noteq> 0 \<and> g \<notin> B \<and> C = (if g < 0 then B else insert g B)"
  shows "(if 0 < g then (if 0 < h then C - {h} else C) - {g} else if 0 < h then C - {h} else C) = (A :: int set)"
    and "(if 0 \<le> h then (if 0 \<le> g then C - {g} else C) - {h} else if 0 \<le> g then C - {g} else C) = A"
proof -
  have B: "(if 0 < h then B - {h} else B) = A" "(if 0 \<le> h then B - {h} else B) = A"
    using assms(1) by (cases "h < 0"; simp)+
  have C: "(if 0 < g then C - {g} else C) = B" "(if 0 \<le> g then C - {g} else C) = B"
    using assms(2) by (cases "g < 0"; simp)+
  have "(if 0 < g then (if 0 < h then C - {h} else C) - {g} else if 0 < h then C - {h} else C) =
    (if 0 < h then (if 0 < g then C - {g} else C) - {h} else if 0 < g then C - {g} else C)"
    by (simp add: Diff_insert2 [symmetric] insert_commute flip: Diff_insert)
  then show "(if 0 < g then (if 0 < h then C - {h} else C) - {g} else if 0 < h then C - {h} else C) = A"
    unfolding C B .
  show "(if 0 \<le> h then (if 0 \<le> g then C - {g} else C) - {h} else if 0 \<le> g then C - {g} else C) = A"
    unfolding C B ..
qed

lemma load_umass_held:
  assumes "hooking sys held"
  shows "held (snd (load_umass sys k)) = held k"
proof -
  obtain h r k1 where 1: "taiHookFunctionExportForKernel sys 0x2ED7F97A 0x834439A7 k = (h, r, k1)" by (metis prod_cases3)
  obtain h2 r2 k2 where 2: "taiHookFunctionExportForKernel sys 0xFD00C69A 0x71608CA3 k1 = (h2, r2, k2)" by (metis prod_cases3)
  obtain m k3 where 3: "ksceKernelLoadStartModule sys (cstr ''ux0:VitaShell/module/umass.skprx'') k2 = (m, k3)" by fastforce
  note f = hooking_facts [OF assms]
  have k3: "held k3 = held k2" using f(4) [of "cstr ''ux0:VitaShell/module/umass.skprx''" k2] 3 by simp
  have "held (snd (load_umass sys k)) = held k \<or>
    held (snd (load_umass sys k)) = (if 0 < h2 then (if 0 < h then held k3 - {h} else held k3) - {h2} else if 0 < h then held k3 - {h} else held k3)"
    by (simp only: load_umass_def 1 2 3 Let_def prod.case snd_conv f(5) if_cancel split: if_split) blast
  then show ?thesis unfolding k3 two_hooks(1) [OF f(1) [OF 1] f(1) [OF 2]] by simp
qed

lemma check_module_version_held: "hooking sys held \<Longrightarrow> held (snd (check_module_version sys m k)) = held k"
  by (simp add: check_module_version_def Let_def case_prod_unfold hooking_def)

text \<open>The module releases its hooks: when it is stopped in the state its start has left, the hooks that are held are
  those that were held before it was started, the temporary ones for the storage module included, whichever of them
  could not be set.
\<close>

theorem module_releases_hooks:
  assumes "hooking sys held"
  shows "held (kmem (module_stop sys (module_start sys s))) = held (kmem s)"
proof -
  obtain h r k1 where 1: "taiHookFunctionImportForKernel sys 0x2ED7F97A 0x834439A7 (kmem s) = (h, r, k1)" by (metis prod_cases3)
  obtain h2 r2 k2 where 2: "taiHookFunctionImportForKernel sys 0x60A35F64 0xD6F6D472 k1 = (h2, r2, k2)" by (metis prod_cases3)
  let ?k = "snd (check_module_version sys (cstr ''os0:/kd/bootimage.skprx'') (snd (load_umass sys k2)))"
  have s: "kmem (module_start sys s) = ?k" "ksceSysrootIsSafeModeHook (module_start sys s) = h"
    "ksceSysconGetMicroUsbInfoHook (module_start sys s) = h2"
    by (simp_all add: module_start_def get_interupt_location_def get_format_functions_def otg_patch_def 1 2 Let_def case_prod_unfold)
  note f = hooking_facts [OF assms]
  have k: "held ?k = held k2" by (simp add: check_module_version_held [OF assms] load_umass_held [OF assms])
  have "held (kmem (module_stop sys (module_start sys s))) =
    (if 0 \<le> h then (if 0 \<le> h2 then held ?k - {h2} else held ?k) - {h} else if 0 \<le> h2 then held ?k - {h2} else held ?k)"
    unfolding module_stop_def otg_unpatch_def s Let_def by (simp add: f(5))
  then show ?thesis unfolding k two_hooks(2) [OF f(2) [OF 1] f(2) [OF 2]] .
qed


section \<open>A kernel\<close>

text \<open>
  A kernel that keeps a log and the handles of its hooks; the storage module fails to load.  The game card's
  mount points are redirected, both names of the first in one place.
\<close>

definition new_handle :: "int list \<Rightarrow> int" where "new_handle hs = 1 + sum_list (map abs hs)"

lemma new_handle: "new_handle hs > 0" "new_handle hs \<noteq> 0" "\<not> new_handle hs < 0" "new_handle hs \<notin> set hs"
proof -
  have "h \<le> sum_list (map abs hs)" if "h \<in> set hs" for h
  proof -
    have "\<bar>h\<bar> \<le> sum_list (map abs hs)" by (rule member_le_sum_list) (use that in auto)
    then show ?thesis by simp
  qed
  then have "h < new_handle hs" if "h \<in> set hs" for h using that by (force simp: new_handle_def)
  moreover have "0 \<le> sum_list (map abs hs)" by (rule sum_list_nonneg) auto
  ultimately show "new_handle hs > 0" "new_handle hs \<noteq> 0" "\<not> new_handle hs < 0" "new_handle hs \<notin> set hs"
    by (auto simp: new_handle_def)
qed

definition two_points :: "int \<Rightarrow> SceIoMountPoint option" where
  "two_points i = (if i = 0x900 then Some \<lparr>mp_dev = Some 1, mp_dev2 = Some 1\<rparr>
     else if i = 0xA00 then Some \<lparr>mp_dev = Some 2, mp_dev2 = None\<rparr> else None)"

definition small_kernel_glue :: "(slot_event list \<times> int list) glue_sys" where
  "small_kernel_glue =
     \<lparr>ksceSdifGetSdContextPartValidateMmc = (\<lambda>i k. Some \<lparr>ctx_CID = [1], ctx_CSD = [2], ctx_EXT_CSD = [3]\<rparr>),
      ksceSdifGetSdContextPartValidateSd = (\<lambda>i k. False),
      ksceKernelSetEventFlag = (\<lambda>i b (l, h). (0, (l @ [SetFlag i b], h))),
      ksceKernelWaitEventFlag = (\<lambda>i b m (l, h). (0, (l @ [WaitFlag i b m], h))),
      ksceSysconCtrlSdPower = (\<lambda>n (l, h). (0, (l @ [SdPower n], h))),
      ksceKernelDelayThread = (\<lambda>n (l, h). (l @ [Delay n], h)),
      ksceKernelSearchModuleByName = (\<lambda>m k. if m = cstr ''SceUsbMass'' then -1 else 1),
      taiGetModuleInfoForKernel = (\<lambda>m k. (0, 1)), module_get_offset = (\<lambda>m n off a k. (0, Suc off)),
      ksceIoOpen = (\<lambda>p k. (1, k)), ksceIoLseek = (\<lambda>fd n k. k), ksceIoRead = (\<lambda>fd b k. (4, [0x65, 0x03, 0, 0], k)),
      ksceIoClose = (\<lambda>fd k. k), taiInjectDataForKernel = (\<lambda>m n off b k. (0, k)),
      taiHookFunctionExportForKernel = (\<lambda>a f (l, h). (new_handle h, f, (l, new_handle h # h))),
      taiHookFunctionImportForKernel = (\<lambda>a f (l, h). (new_handle h, f, (l, new_handle h # h))),
      taiHookReleaseForKernel = (\<lambda>x r (l, h). (l, removeAll x h)), ksceKernelLoadStartModule = (\<lambda>p k. (-1, k)),
      interupt_at = (\<lambda>a k. \<lparr>request_id = 7, op_sync_id = 8\<rparr>), call_find_mount_point = (\<lambda>f i k. two_points i)\<rparr>"

definition small_glue :: "(slot_event list \<times> int list) glue" where
  "small_glue = \<lparr>kmem = ([], [5]), io_devices = (\<lambda>a. \<lparr>iod_dev = None, iod_blkdev = Some (cstr ''sdstor0:ext-lp-act-entire'')\<rparr>),
     interupt_info = 1, sceIoFindMountPoint = 0, undone_sd2vita_patch = False, appmgr_functions = (0, 0),
     ksceSysconGetMicroUsbInfoHook = -1, ksceSysconGetMicroUsbInfoRef = 0, ksceSysrootIsSafeModeHook = -1,
     ksceSysrootIsSafeModeRef = 0\<rparr>"

theorem reset_follows_sequence_witness:
  "\<exists>s'. kResetGc small_kernel_glue small_glue = Some (0, s') \<and> fst (kmem s') = reset_events \<lparr>request_id = 7, op_sync_id = 8\<rparr>"
proof -
  have r: "kResetGc small_kernel_glue small_glue = Some (0, small_glue\<lparr>kmem := (reset_events \<lparr>request_id = 7, op_sync_id = 8\<rparr>, [5])\<rparr>)"
    by (simp add: kResetGc_def reset_slot_def small_kernel_glue_def small_glue_def reset_events_def WAIT_MODE_def)
  have "logs small_kernel_glue fst" by (auto simp: logs_def small_kernel_glue_def)
  from reset_follows_sequence [OF this r] r show ?thesis
    by (auto simp: small_kernel_glue_def small_glue_def reset_events_def)
qed

theorem redirections_are_undone_witness:
  "\<exists>s'. kUndoSd2Vita small_kernel_glue small_glue = Some s' \<and>
     named (io_devices s' 1) ''gro0:'' ''sdstor0:gcd-lp-ign-gamero'' \<and> named (io_devices s' 2) ''grw0:'' ''sdstor0:gcd-lp-ign-gamerw'' \<and>
     io_devices s' 3 = io_devices small_glue 3"
proof -
  have "\<exists>s'. kUndoSd2Vita small_kernel_glue small_glue = Some s' \<and> kUndoneSd2VitaPatches s' \<and>
      repaired two_points original_names small_glue s' \<and>
      (\<forall>h. kUndoSd2Vita small_kernel_glue (s'\<lparr>io_devices := h\<rparr>) = Some (s'\<lparr>io_devices := h\<rparr>))"
  proof (rule redirections_are_undone)
    show "\<not> undone_sd2vita_patch small_glue" by (simp add: small_glue_def)
    show "0 < ksceKernelSearchModuleByName small_kernel_glue (cstr ''SceIofilemgr'') k" for k
      by (simp add: small_kernel_glue_def cstr_def)
    show "snd (module_get_offset small_kernel_glue m n off a k) \<noteq> 0" for m n off a k by (simp add: small_kernel_glue_def)
    show "call_find_mount_point small_kernel_glue f i k = two_points i" for f i k by (simp add: small_kernel_glue_def)
    show "places (two_points i) \<inter> places (two_points j) = {}" if "i \<noteq> j" for i j
      using that by (auto simp: two_points_def places_def)
  qed
  then show ?thesis by (auto simp: repaired_def original_names_def two_points_def places_def)
qed

theorem module_releases_hooks_witness:
  "set (snd (kmem (module_stop small_kernel_glue (module_start small_kernel_glue small_glue)))) = {5}"
proof -
  have "hooking small_kernel_glue (\<lambda>k. set (snd k))"
    unfolding hooking_def by (intro conjI allI impI) (auto simp: small_kernel_glue_def new_handle)
  from module_releases_hooks [OF this, of small_glue] show ?thesis by (simp add: small_glue_def)
qed

end
