(* ===== verification/Layout.thy ===== *)
theory Layout
  imports KernGlue
begin

text \<open>
  The structures of the system that \<^verbatim>\<open>kern/gc.h\<close> declares, laid out as the compiler of the module does (ARM EABI,
  pointers of four bytes, 64-bit integers aligned to eight), and the partition table of \<^verbatim>\<open>app/mbr.h\<close>, which is packed.  A C type
  is its size and its alignment; a structure is the list of its members.  The names of members that say their
  offset, and the comments that say a size, are checked against the layout.
\<close>

section \<open>Layout\<close>

type_synonym ctype = "nat \<times> nat"
type_synonym members = "(string \<times> ctype) list"

definition char :: ctype where "char = (1, 1)"
definition uint8_t :: ctype where "uint8_t = (1, 1)"
definition uint16_t :: ctype where "uint16_t = (2, 2)"
definition uint32_t :: ctype where "uint32_t = (4, 4)"
definition int_t :: ctype where "int_t = (4, 4)"
definition SceUID :: ctype where "SceUID = (4, 4)"
definition SceInt64 :: ctype where "SceInt64 = (8, 8)"
definition pointer :: ctype where "pointer = (4, 4)"

definition array :: "ctype \<Rightarrow> nat \<Rightarrow> ctype" where
  "array t n = (n * fst t, snd t)"

definition align_up :: "nat \<Rightarrow> nat \<Rightarrow> nat" where
  "align_up pos a = (pos + a - 1) div a * a"

fun offsets :: "nat \<Rightarrow> members \<Rightarrow> (string \<times> nat) list" where
  "offsets pos [] = []"
| "offsets pos ((name, t) # ms) = (name, align_up pos (snd t)) # offsets (align_up pos (snd t) + fst t) ms"

fun end_of :: "nat \<Rightarrow> members \<Rightarrow> nat" where
  "end_of pos [] = pos"
| "end_of pos ((name, t) # ms) = end_of (align_up pos (snd t) + fst t) ms"

definition alignment :: "members \<Rightarrow> nat" where
  "alignment ms = foldr (\<lambda>m a. max (snd (snd m)) a) ms 1"

definition struct :: "members \<Rightarrow> ctype" where
  "struct ms = (align_up (end_of 0 ms) (alignment ms), alignment ms)"

definition union :: "members \<Rightarrow> ctype" where
  "union ms = (align_up (foldr (\<lambda>m a. max (fst (snd m)) a) ms 0) (alignment ms), alignment ms)"

definition packed :: "members \<Rightarrow> members" where
  "packed ms = map (\<lambda>(name, t). (name, fst t, 1)) ms"

abbreviation sizeof :: "members \<Rightarrow> nat" where "sizeof ms \<equiv> fst (struct ms)"

definition offsetof :: "members \<Rightarrow> string \<Rightarrow> nat option" where
  "offsetof ms name = map_of (offsets 0 ms) name"

section \<open>The structures of the host controller\<close>

definition sd_context_part_base :: members where
  "sd_context_part_base =
     [(''gctx_ptr'', pointer), (''unk_4'', uint32_t), (''def_sector_size_mmc'', uint32_t), (''def_sector_size_sd'', uint32_t),
      (''CID'', array uint8_t 0x10), (''CSD'', array uint8_t 0x10)]"

definition GcInteruptInfo_members :: members where
  "GcInteruptInfo_members = [(''request_id'', SceUID), (''op_sync_id'', SceUID), (''unk'', array char 0x20)]"

definition response :: members where
  "response =
     [(''db'', struct [(''data'', array char 0x10)]),
      (''dw'', struct [(''dw0'', uint32_t), (''dw1'', uint32_t), (''dw2'', uint32_t), (''dw3'', uint32_t)])]"

definition cmd_info :: members where
  "cmd_info =
     [(''state_flags'', uint32_t), (''command'', uint32_t), (''argument'', uint32_t), (''buffer'', pointer),
      (''resp_block_size'', uint16_t), (''resp_n_blocks'', uint16_t), (''response'', union response), (''error_code'', uint32_t)]"

definition host_info :: members where
  "host_info =
     [(''host_registers'', pointer), (''unk_4'', uint32_t), (''base_clock'', uint32_t), (''bus_width'', uint32_t),
      (''clock_frequency'', uint32_t), (''timeout_control_register'', uint8_t), (''specification_version_number'', uint8_t),
      (''vendor_version_number'', uint8_t), (''unk_17'', uint8_t), (''unk_18'', uint32_t), (''unk_1C'', uint32_t),
      (''unk_20'', uint32_t), (''unk_24'', uint32_t)]"

definition device_info :: members where
  "device_info = [(''dev_type_idx'', uint32_t), (''unk_4'', uint32_t), (''unk_8'', uint16_t)]"

definition sdif_context_general :: members where
  "sdif_context_general =
     [(''suspend_callback_id'', SceUID), (''max_array_index'', uint32_t), (''unk_8'', uint32_t), (''unk_C'', uint32_t),
      (''unk_10'', uint32_t), (''unk_14'', uint32_t), (''unk_18'', uint32_t), (''unk_1C'', uint32_t),
      (''unk_20'', uint32_t), (''unk_24'', uint32_t), (''unk_28'', uint32_t), (''unk_2C'', uint32_t),
      (''unk_30'', uint32_t), (''unk_34'', uint32_t), (''unk_38'', uint32_t), (''unk_3C'', uint32_t)]"

definition cmd_input :: members where
  "cmd_input =
     [(''size'', uint32_t), (''state_flags'', uint32_t), (''command'', uint32_t), (''argument'', uint32_t),
      (''response'', union response), (''buffer'', pointer), (''resp_block_size_24'', uint16_t), (''resp_n_blocks_26'', uint16_t),
      (''error_code'', uint32_t), (''unk_2C'', uint32_t), (''data0'', array uint8_t 0x30),
      (''next_cmd'', pointer), (''unk_64'', uint32_t), (''array_index'', uint32_t), (''set_event_flag_callback'', pointer),
      (''evid'', SceUID), (''secondary_cmd'', pointer), (''gctx_ptr'', pointer), (''unk_7C'', uint32_t),
      (''vaddr_80'', array char 0x80), (''vaddr_100'', pointer), (''data_104'', array uint8_t 0x7C),
      (''unk_180'', uint32_t), (''paddr_184'', pointer), (''mem_188'', SceUID), (''unk_18C'', uint32_t),
      (''unk_190'', uint32_t), (''unk_194'', uint32_t), (''base_198'', pointer), (''offset_19C'', uint32_t),
      (''size_1A0'', uint32_t), (''size_1A4'', uint32_t), (''paddr_1A8'', pointer), (''paddr_1AC'', pointer),
      (''wide_time1'', SceInt64), (''wide_time2'', SceInt64), (''vaddr_1C0'', array char 0x40), (''vaddr_200'', array char 0x40)]"

definition sd_context_data :: members where
  "sd_context_data =
     [(''cmd_ptr'', pointer), (''cmd_ptr_next'', pointer), (''unk_8'', uint32_t), (''unk_C'', uint32_t),
      (''dev_type_idx'', uint32_t), (''ctx'', pointer), (''voltages'', uint32_t), (''unk_1C'', uint32_t),
      (''array_idx'', uint32_t), (''unk_24'', uint8_t), (''unk_25'', uint8_t), (''unk_26'', uint8_t), (''unk_27'', uint8_t),
      (''cmd_28'', pointer), (''cmd_2C'', pointer), (''host_registers'', pointer), (''unk_34'', uint32_t),
      (''unk_38'', uint8_t), (''slow_mode'', uint8_t), (''unk_3A'', uint8_t), (''unk_3B'', uint8_t),
      (''host_registers_uid'', SceUID), (''evid'', SceUID), (''sdif_fast_mutex'', pointer),
      (''uid_10000'', SceUID), (''membase_10000'', pointer), (''unk_8C'', uint32_t),
      (''unk_90'', uint32_t), (''lockable_int'', int_t), (''unk_98'', uint32_t), (''unk_9C'', uint32_t),
      (''unk_A0'', uint32_t), (''unk_A4'', uint32_t), (''unk_A8'', uint32_t), (''unk_AC'', uint32_t),
      (''unk_B0'', uint32_t), (''unk_B4'', uint32_t), (''unk_B8'', uint32_t), (''unk_BC'', uint32_t)]"

definition sd_context_part_mmc :: members where
  "sd_context_part_mmc =
     [(''ctxb'', struct sd_context_part_base), (''EXT_CSD'', array uint8_t 0x200), (''data_230'', array uint8_t 0x160),
      (''unk_390'', pointer), (''unk_394'', uint32_t)]"

definition sd_context_part_sd :: members where
  "sd_context_part_sd = [(''ctxb'', struct sd_context_part_base), (''data'', array uint8_t 0x90)]"

definition sd_context_part_wlanbt :: members where
  "sd_context_part_wlanbt = [(''gctx_ptr'', pointer), (''data'', array uint8_t 0x394)]"

definition sd_context_global :: members where
  "sd_context_global = [(''commands'', array (struct cmd_input) 16), (''ctx_data'', struct sd_context_data)]"

definition bulk_transfer :: members where
  "bulk_transfer =
     [(''unk0'', uint32_t), (''unk1'', uint32_t), (''count'', uint32_t), (''unk2'', uint32_t), (''type'', uint32_t),
      (''unk3'', uint32_t), (''get_next'', pointer), (''unk4'', uint32_t)]"

section \<open>The partition table\<close>

datatype ScePartitionCode = Code_EMPTY | Code_IDSTORAGE | Code_SLB2 | Code_OS0 | Code_VS0 | Code_VD0 | Code_TM0 | Code_UR0
  | Code_UX0 | Code_GRO0 | Code_GRW0 | Code_UD0 | Code_SA0 | Code_MEDIAID | Code_PD0 | Code_UNUSED

fun partition_code :: "ScePartitionCode \<Rightarrow> u8" where
  "partition_code Code_EMPTY = 0x00" | "partition_code Code_IDSTORAGE = 0x01" | "partition_code Code_SLB2 = 0x02"
| "partition_code Code_OS0 = 0x03" | "partition_code Code_VS0 = 0x04" | "partition_code Code_VD0 = 0x05"
| "partition_code Code_TM0 = 0x06" | "partition_code Code_UR0 = 0x07" | "partition_code Code_UX0 = 0x08"
| "partition_code Code_GRO0 = 0x09" | "partition_code Code_GRW0 = 0x0A" | "partition_code Code_UD0 = 0x0B"
| "partition_code Code_SA0 = 0x0C" | "partition_code Code_MEDIAID = 0x0D" | "partition_code Code_PD0 = 0x0E"
| "partition_code Code_UNUSED = 0x0F"

datatype ScePartitionType = Type_FAT16 | Type_EXFAT | Type_RAW

fun partition_type :: "ScePartitionType \<Rightarrow> u8" where
  "partition_type Type_FAT16 = 0x06" | "partition_type Type_EXFAT = 0x07" | "partition_type Type_RAW = 0xDA"

definition ScePartiton :: members where
  "ScePartiton = packed
     [(''off'', uint32_t), (''sz'', uint32_t), (''code'', uint8_t), (''type'', uint8_t), (''active'', uint8_t),
      (''flags'', uint32_t), (''unk'', uint16_t)]"

definition SceMbr :: members where
  "SceMbr = packed
     [(''magic'', array char 0x20), (''version'', uint32_t), (''device_size'', uint32_t), (''unk1'', array char 0x28),
      (''partitions'', array (struct ScePartiton) 0x10), (''unk2'', array char 0x5e), (''unk3'', array char (0x10 * 4)),
      (''sig'', uint16_t)]"

section \<open>Sizes and offsets\<close>

lemmas ctypes = char_def uint8_t_def uint16_t_def uint32_t_def int_t_def SceUID_def SceInt64_def pointer_def array_def
lemmas layout = struct_def union_def align_up_def alignment_def packed_def offsetof_def ctypes

text \<open>Members lie one after the other inside the structure, each at a multiple of its alignment.\<close>

lemma align_up:
  assumes "0 < a"
  shows "pos \<le> align_up pos a" "a dvd align_up pos a" "align_up pos a < pos + a"
proof -
  have "pos + a - 1 = (pos + a - 1) div a * a + (pos + a - 1) mod a" by (metis div_mult_mod_eq)
  moreover have "(pos + a - 1) mod a < a" using assms by simp
  ultimately show "pos \<le> align_up pos a" "align_up pos a < pos + a"
    unfolding align_up_def using assms by linarith+
  show "a dvd align_up pos a" by (simp add: align_up_def)
qed

lemma member_sizes:
  "sizeof sd_context_part_base = 0x30" "sizeof GcInteruptInfo_members = 0x28" "union response = (0x10, 4)"
  "struct cmd_input = (0x240, 8)" "struct sd_context_data = (0x84, 4)" "struct ScePartiton = (0x11, 1)"
  "struct sd_context_part_base = (0x30, 4)"
proof -
  show "union response = (0x10, 4)" by (simp add: response_def layout)
  note r = this
  show "struct sd_context_part_base = (0x30, 4)" by (simp add: sd_context_part_base_def layout)
  then show "sizeof sd_context_part_base = 0x30" by simp
  show "sizeof GcInteruptInfo_members = 0x28" by (simp add: GcInteruptInfo_members_def layout)
  show "struct cmd_input = (0x240, 8)" unfolding cmd_input_def r by (simp add: layout)
  show "struct sd_context_data = (0x84, 4)" by (simp add: sd_context_data_def layout)
  show "struct ScePartiton = (0x11, 1)" by (simp add: ScePartiton_def layout)
qed

lemma members_in_order:
  assumes "\<forall>m \<in> set ms. 0 < snd (snd m)" "i < length ms"
  shows "pos \<le> snd (offsets pos ms ! i)" "snd (snd (ms ! i)) dvd snd (offsets pos ms ! i)"
    "snd (offsets pos ms ! i) + fst (snd (ms ! i)) \<le> end_of pos ms"
    "i < j \<Longrightarrow> j < length ms \<Longrightarrow> snd (offsets pos ms ! i) + fst (snd (ms ! i)) \<le> snd (offsets pos ms ! j)"
proof -
  have end_le: "pos \<le> end_of pos ms" if "\<forall>m \<in> set ms. 0 < snd (snd m)" for pos ms
    using that by (induction pos ms rule: end_of.induct) (auto intro: order_trans [OF align_up(1)] dest: add_leD1)
  have lens: "length (offsets pos ms) = length ms" for pos ms by (induction pos ms rule: offsets.induct) auto
  have all: "pos \<le> snd (offsets pos ms ! i) \<and> snd (snd (ms ! i)) dvd snd (offsets pos ms ! i) \<and>
      snd (offsets pos ms ! i) + fst (snd (ms ! i)) \<le> end_of pos ms"
    if "\<forall>m \<in> set ms. 0 < snd (snd m)" "i < length ms" for pos ms i
    using that
  proof (induction pos ms arbitrary: i rule: end_of.induct)
    case (2 pos name t ms)
    have le: "pos \<le> align_up pos (snd t)" using 2(2) by (simp add: align_up(1))
    show ?case
    proof (cases i)
      case 0
      then show ?thesis using le end_le 2(2) by (simp add: align_up(2))
    next
      case (Suc n)
      then show ?thesis using 2(1) [of n] 2(2,3) le by auto
    qed
  qed simp
  from all [OF assms] show "pos \<le> snd (offsets pos ms ! i)" "snd (snd (ms ! i)) dvd snd (offsets pos ms ! i)"
    "snd (offsets pos ms ! i) + fst (snd (ms ! i)) \<le> end_of pos ms" by simp_all
  show "snd (offsets pos ms ! i) + fst (snd (ms ! i)) \<le> snd (offsets pos ms ! j)" if "i < j" "j < length ms"
    using assms that
  proof (induction pos ms arbitrary: i j rule: end_of.induct)
    case (2 pos name t ms)
    from 2(4) obtain k where k: "j = Suc k" by (cases j) auto
    show ?case
    proof (cases i)
      case 0
      then show ?thesis using all [of ms k "align_up pos (snd t) + fst t"] 2(2,5) k by simp
    next
      case (Suc n)
      then show ?thesis using 2 k by simp
    qed
  qed simp
qed

text \<open>The offset that the name of a member says: what follows the last underscore, when it is a number of at most three
  hexadecimal digits.  (\<open>uid_10000\<close> and \<open>membase_10000\<close> say a size.)\<close>

definition hex_value :: "char \<Rightarrow> nat option" where
  "hex_value c =
     (let n = of_char c :: nat
      in if 48 \<le> n \<and> n \<le> 57 then Some (n - 48) else if 65 \<le> n \<and> n \<le> 70 then Some (n - 55) else None)"

definition said_offset :: "string \<Rightarrow> nat option" where
  "said_offset name =
     (let digits = rev (takeWhile (\<lambda>c. c \<noteq> CHR ''_'') (rev name))
      in if digits = name \<or> digits = [] \<or> length digits > 3 then None
         else foldl (\<lambda>n c. case (n, hex_value c) of (Some n, Some d) \<Rightarrow> Some (16 * n + d) | _ \<Rightarrow> None) (Some 0) digits)"

definition names_say_offsets :: "members \<Rightarrow> bool" where
  "names_say_offsets ms = list_all (\<lambda>(name, pos). said_offset name \<in> {None, Some pos}) (offsets 0 ms)"

text \<open>The context with the mutex itself in the place of a pointer to it.\<close>

definition with_mutex :: "members \<Rightarrow> members" where
  "with_mutex ms = map (\<lambda>(name, t). (name, if name = ''sdif_fast_mutex'' then array uint32_t 0x10 else t)) ms"

lemmas says_offsets = names_say_offsets_def said_offset_def hex_value_def Let_def layout

lemma controller_names:
  "names_say_offsets sd_context_part_base" "names_say_offsets host_info" "names_say_offsets device_info"
  "names_say_offsets sdif_context_general" "names_say_offsets sd_context_part_mmc"
  by (simp_all add: sd_context_part_base_def host_info_def device_info_def sdif_context_general_def sd_context_part_mmc_def
        member_sizes says_offsets)

lemma command_names: "names_say_offsets cmd_input"
  unfolding cmd_input_def member_sizes by (simp add: says_offsets)

lemma context_names: "\<not> names_say_offsets sd_context_data"
  unfolding sd_context_data_def by (simp add: says_offsets)

lemma mutex_names: "names_say_offsets (with_mutex sd_context_data)"
  unfolding sd_context_data_def with_mutex_def by (simp add: says_offsets)

lemma controller_sizes:
  "sizeof sdif_context_general = 0x40" "sizeof sd_context_part_mmc = 0x398" "sizeof sd_context_part_sd = 0xC0"
  "sizeof sd_context_part_wlanbt = 0x398" "sizeof sd_context_global = 0x2488"
  unfolding sdif_context_general_def sd_context_part_mmc_def sd_context_part_sd_def sd_context_part_wlanbt_def
    sd_context_global_def member_sizes
  by (simp_all add: layout)

lemma mutex_size: "sizeof (with_mutex sd_context_data) = 0xC0"
  unfolding sd_context_data_def with_mutex_def by (simp add: layout)

lemma register_offsets:
  "offsetof sd_context_part_base ''CID'' = Some 0x10" "offsetof sd_context_part_base ''CSD'' = Some 0x20"
  "offsetof sd_context_part_mmc ''ctxb'' = Some 0" "offsetof sd_context_part_mmc ''EXT_CSD'' = Some 0x30"
  by (simp_all add: sd_context_part_base_def sd_context_part_mmc_def member_sizes layout)

lemma partition_layout:
  "sizeof SceMbr = SECTOR_SIZE" "offsetof SceMbr ''magic'' = Some (fst mbr_magic)"
  "offsetof SceMbr ''version'' = Some (fst mbr_version)" "offsetof SceMbr ''partitions'' = Some mbr_partitions"
  "sizeof ScePartiton = sizeof_partition" "offsetof ScePartiton ''off'' = Some (fst part_off)"
  "offsetof ScePartiton ''sz'' = Some (fst part_sz)" "offsetof ScePartiton ''code'' = Some (fst part_code)"
  by (simp_all add: SceMbr_def ScePartiton_def layout struct_fields SECTOR_SIZE_def mbr_partitions_def sizeof_partition_def)

text \<open>The structures of the host controller are what their comments and the names of their members say: the members that
  the module reads (the registers of the card, the interrupts of its slot) lie where they are said to lie, and so does every
  member with an offset in its name; the sizes are the commented ones.  Only the per-slot context is not: it declares a
  pointer where the comment describes the 64 bytes of the mutex itself, so everything behind it lies 60 bytes too low; with the
  mutex in place of the pointer the names and the size 0xC0 are right.  The packed partition table is one sector, with its fields
  where the reader of the partitions expects them.
\<close>

theorem documented_layout:
  "names_say_offsets sd_context_part_base \<and> names_say_offsets host_info \<and> names_say_offsets device_info \<and>
   names_say_offsets sdif_context_general \<and> names_say_offsets cmd_input \<and> names_say_offsets sd_context_part_mmc \<and>
   offsetof sd_context_part_base ''CID'' = Some 0x10 \<and> offsetof sd_context_part_base ''CSD'' = Some 0x20 \<and>
   offsetof sd_context_part_mmc ''ctxb'' = Some 0 \<and> offsetof sd_context_part_mmc ''EXT_CSD'' = Some 0x30 \<and>
   sizeof GcInteruptInfo_members = sizeof_GcInteruptInfo \<and>
   sizeof sdif_context_general = 0x40 \<and> sizeof cmd_input = 0x240 \<and> sizeof sd_context_part_mmc = 0x398 \<and>
   sizeof sd_context_part_sd = 0xC0 \<and> sizeof sd_context_part_wlanbt = 0x398 \<and>
   \<not> names_say_offsets sd_context_data \<and> sizeof sd_context_data = 0x84 \<and> sizeof sd_context_global = 0x2488 \<and>
   names_say_offsets (with_mutex sd_context_data) \<and> sizeof (with_mutex sd_context_data) = 0xC0 \<and>
   sizeof SceMbr = SECTOR_SIZE \<and> offsetof SceMbr ''magic'' = Some (fst mbr_magic) \<and>
   offsetof SceMbr ''version'' = Some (fst mbr_version) \<and> offsetof SceMbr ''partitions'' = Some mbr_partitions \<and>
   sizeof ScePartiton = sizeof_partition \<and> offsetof ScePartiton ''off'' = Some (fst part_off) \<and>
   offsetof ScePartiton ''sz'' = Some (fst part_sz) \<and> offsetof ScePartiton ''code'' = Some (fst part_code)"
  by (simp add: controller_names command_names context_names mutex_names controller_sizes mutex_size register_offsets
        partition_layout [simplified member_sizes fst_conv] member_sizes sizeof_GcInteruptInfo_def)

end
