(* ===== verification/CardInfo.thy ===== *)
theory CardInfo
  imports AuthEmu Layout Pages
begin

text \<open>
  The path of a card's information: the registers in the context of the host controller and the keys that the module
  has captured, through its system calls and \<^verbatim>\<open>get_gc_info\<close>, to the lines of the screen.  The context is the memory that
  \<^verbatim>\<open>sd_context_part_mmc\<close> describes; the system calls are the definitions of \<open>KernGlue\<close> and \<open>AuthEmu\<close>.
\<close>

section \<open>The context in memory\<close>

definition member_bytes :: "members \<Rightarrow> string \<Rightarrow> bytes \<Rightarrow> bytes" where
  "member_bytes ms name mem =
     (case (offsetof ms name, map_of ms name) of (Some pos, Some t) \<Rightarrow> get_field (pos, fst t) mem | _ \<Rightarrow> [])"

definition mmc_context_at :: "bytes \<Rightarrow> mmc_context" where
  "mmc_context_at mem =
     (let ctxb = member_bytes sd_context_part_mmc ''ctxb'' mem
      in \<lparr>ctx_CID = member_bytes sd_context_part_base ''CID'' ctxb, ctx_CSD = member_bytes sd_context_part_base ''CSD'' ctxb,
          ctx_EXT_CSD = member_bytes sd_context_part_mmc ''EXT_CSD'' mem\<rparr>)"

section \<open>The system calls\<close>

definition module_calls :: "'k glue_sys \<Rightarrow> ('k glue \<times> 'e auth_state) ident_sys" where
  "module_calls sys =
     \<lparr>ident_sys.kGetCardId = (\<lambda>dev buf (g, s). KernGlue.kGetCardId sys dev buf g),
      kGetCardCsd = (\<lambda>dev buf (g, s). KernGlue.kGetCardCsd sys dev buf g),
      kGetCardExtCsd = (\<lambda>dev buf (g, s). KernGlue.kGetCardExtCsd sys dev buf g),
      kIsAuthenticated = (\<lambda>(g, s). AuthEmu.kIsAuthenticated s),
      kGetKeyId = (\<lambda>(g, s). AuthEmu.kGetKeyId s),
      kGetPerCartKeys = (\<lambda>keys (g, s). to_user keys (AuthEmu.kGetPerCartKeys s))\<rparr>"

section \<open>What is read and shown\<close>

lemma mmc_context_at_registers:
  assumes "sizeof sd_context_part_mmc \<le> length mem"
  shows "ctx_CID (mmc_context_at mem) = get_field (0x10, 0x10) mem" "ctx_CSD (mmc_context_at mem) = get_field (0x20, 0x10) mem"
    "ctx_EXT_CSD (mmc_context_at mem) = get_field (0x30, 0x200) mem"
proof -
  have t: "map_of sd_context_part_base ''CID'' = Some (0x10, 1)" "map_of sd_context_part_base ''CSD'' = Some (0x10, 1)"
    "map_of sd_context_part_mmc ''ctxb'' = Some (0x30, 4)" "map_of sd_context_part_mmc ''EXT_CSD'' = Some (0x200, 1)"
    unfolding sd_context_part_mmc_def member_sizes by (simp_all add: sd_context_part_base_def ctypes)
  show "ctx_CID (mmc_context_at mem) = get_field (0x10, 0x10) mem" "ctx_CSD (mmc_context_at mem) = get_field (0x20, 0x10) mem"
    "ctx_EXT_CSD (mmc_context_at mem) = get_field (0x30, 0x200) mem"
    using assms by (simp_all add: mmc_context_at_def member_bytes_def register_offsets t get_field.simps drop_take)
qed

lemma hex_line:
  assumes "n + 2 * length b < MAX_PATH - 1" "0 \<notin> set (map of_char label :: bytes)" "length label = n"
  shows "of_hex (drop n (chars (info_line (map of_char label @ hex_text b)))) = b"
proof -
  have h: "hex_text b = concat (map (\<lambda>b. hex2 (ucast b)) b)"
    using assms(1) unfolding hex_text_def by (intro chars_TO_HEX) simp
  have "0 \<notin> set (hex_text b)" unfolding hex_text_def using set_chars by blast
  with assms(2) have "chars (info_line (map of_char label @ hex_text b)) =
      take (MAX_PATH - 2) (map of_char label @ hex_text b)"
    unfolding info_line_def using assms(1,3) by (subst chars_snprintf) auto
  also have "\<dots> = map of_char label @ hex_text b" using assms(1,3) by (simp add: h length_hex)
  finally show ?thesis using assms(3) by (simp add: h of_hex_bytes)
qed

text \<open>What the application reads through the system calls.\<close>

lemma card_registers:
  assumes "ksceSdifGetSdContextPartValidateMmc sys 1 (kmem g) = Some (mmc_context_at mem)"
    and "sizeof sd_context_part_mmc \<le> length mem" "get_gc_info (module_calls sys) (g, s) = info"
  shows "card_id info = get_field (0x10, 0x10) mem" "card_descriptor info = get_field (0x20, 0x10) mem"
    "extra_card_descriptor info = get_field (0x30, 0x200) mem"
    "gi_key_set info = (if AuthEmu.kIsAuthenticated s = 0 then zeros 0x40 else to_user (zeros 0x40) (AuthEmu.kGetPerCartKeys s))"
proof -
  have l: "length (get_field (0x10, 0x10) mem) = 0x10" "length (get_field (0x20, 0x10) mem) = 0x10"
    "length (get_field (0x30, 0x200) mem) = 0x200"
    using assms(2) by (simp_all add: controller_sizes)
  have c: "to_user (zeros n) b = b" if "length b = n" for n b
    using that by (simp add: to_user_def put_field.simps zeros_def)
  note r = mmc_context_at_registers [OF assms(2)]
  show "card_id info = get_field (0x10, 0x10) mem" "card_descriptor info = get_field (0x20, 0x10) mem"
    "extra_card_descriptor info = get_field (0x30, 0x200) mem"
    "gi_key_set info = (if AuthEmu.kIsAuthenticated s = 0 then zeros 0x40 else to_user (zeros 0x40) (AuthEmu.kGetPerCartKeys s))"
    using assms(1,3) l
    by (auto simp: get_gc_info_def module_calls_def KernGlue.kGetCardId_def KernGlue.kGetCardCsd_def KernGlue.kGetCardExtCsd_def
        cleared_info_def CARD_ID_SIZE_def Let_def r c split: prod.splits if_splits)
qed

definition shown :: "GcInfo \<Rightarrow> nat \<Rightarrow> nat \<Rightarrow> bytes" where
  "shown info line column = of_hex (drop column (chars (device_info_lines info ! line)))"

lemma shown_lines:
  assumes "length (card_id info) = 0x10" "length (card_descriptor info) = 0x10" "length (gi_key_set info) = 0x40"
  shows "shown info 0 9 = card_id info" "shown info 1 9 = card_descriptor info"
    "shown info 11 13 = drop 0x20 (gi_key_set info)" "shown info 12 13 = take 0x20 (gi_key_set info)"
proof -
  have d: "device_info_lines info ! 0 = info_line (map of_char ''MMC CID: '' @ hex_text (card_id info))"
    "device_info_lines info ! 1 = info_line (map of_char ''MMC CSD: '' @ hex_text (card_descriptor info))"
    "device_info_lines info ! 11 = info_line (map of_char ''CMD56 Key18: '' @ hex_text (get_field (0x20, 0x20) (gi_key_set info)))"
    "device_info_lines info ! 12 = info_line (map of_char ''CMD56 Key20: '' @ hex_text (get_field (0, 0x20) (gi_key_set info)))"
    by (simp_all add: device_info_lines_def Let_def Screen.packet18_key_def Screen.packet20_key_def)
  have f: "get_field (0x20, 0x20) (gi_key_set info) = drop 0x20 (gi_key_set info)"
    "get_field (0, 0x20) (gi_key_set info) = take 0x20 (gi_key_set info)"
    using assms(3) by (simp_all add: get_field.simps)
  show "shown info 0 9 = card_id info" "shown info 1 9 = card_descriptor info"
    using hex_line [of 9 "card_id info" "''MMC CID: ''"] hex_line [of 9 "card_descriptor info" "''MMC CSD: ''"] assms(1,2)
    by (simp_all add: shown_def d [simplified] MAX_PATH_def)
  show "shown info 11 13 = drop 0x20 (gi_key_set info)" "shown info 12 13 = take 0x20 (gi_key_set info)"
    using hex_line [of 13 "drop 0x20 (gi_key_set info)" "''CMD56 Key18: ''"]
      hex_line [of 13 "take 0x20 (gi_key_set info)" "''CMD56 Key20: ''"] assms(3)
    by (simp_all add: shown_def d [simplified] f MAX_PATH_def)
qed

text \<open>C16: With a card of the library in the slot, the screen about the card shows the card: its CID and CSD, read back from
  their hexadecimal digits, are the bytes at their places in the host controller's context, before and after the
  authentication; its two keys are shown as zeros before, and after the authentication of the module, which succeeds, as the
  keys of that card.
\<close>

theorem screen_shows_the_card:
  assumes wire: "\<And>buf e. snd (ksceSdifWriteCmd56 sys ctx buf e) = wire_send buf e"
      "\<And>buf e. snd (ksceSdifReadCmd56 sys ctx buf e) = wire_recv cstk buf e"
    and ctx: "ctx \<noteq> 0"
      "auth_sys.ksceSdifGetSdContextPartValidateMmc sys 1 e0 = (ctx, \<lparr>ce_state = c, ce_rng = crng, ce_buffer = buf\<rparr>)"
    and card: "wf_gc c" "session_keyseed (uint (gc_key_id c)) \<noteq> None" "\<not> gc_key_id c > PROTOTYPE_KEY_ID1"
    and len: "length (au_rng s) = 16" "length crng = 16" "length cstk = 16" "length stk = 16"
    and hook: "0 \<le> authHook s" "\<And>e. 0 \<le> fst (auth_sys.taiHookReleaseForKernel sys (authHook s) e)"
    and slot: "glue_sys.ksceSdifGetSdContextPartValidateMmc gsys 1 (kmem g) = Some (mmc_context_at mem)"
      "sizeof sd_context_part_mmc \<le> length mem"
    and before: "AuthEmu.kIsAuthenticated s = 0"
  shows "\<exists>s' e'. k_run_authentication stk sys key_id (s, e0) = (0, s', e') \<and>
    (let info = get_gc_info (module_calls gsys) (g, s); info' = get_gc_info (module_calls gsys) (g, s')
     in shown info 0 9 = get_field (0x10, 0x10) mem \<and> shown info 1 9 = get_field (0x20, 0x10) mem \<and>
        shown info 11 13 = zeros 0x20 \<and> shown info 12 13 = zeros 0x20 \<and>
        shown info' 0 9 = get_field (0x10, 0x10) mem \<and> shown info' 1 9 = get_field (0x20, 0x10) mem \<and>
        shown info' 11 13 = cmd56_keys.packet18_key (gc_per_cart_keys c) \<and>
        shown info' 12 13 = cmd56_keys.packet20_key (gc_per_cart_keys c))"
proof -
  obtain s' e' where run: "k_run_authentication stk sys key_id (s, e0) = (0, s', e')" "is_authenticated s' = 1"
    "vita_per_cart_keys (vita_state s') = gc_per_cart_keys c"
    using run_captures_keys [OF wire ctx card len hook] by metis
  let ?info = "get_gc_info (module_calls gsys) (g, s)" and ?info' = "get_gc_info (module_calls gsys) (g, s')"
  have keys: "length (cmd56_keys.packet20_key (gc_per_cart_keys c)) = 0x20" "length (cmd56_keys.packet18_key (gc_per_cart_keys c)) = 0x20"
    using card(1) by (simp_all add: wf_gc_def)
  have l: "length (get_field (0x10, 0x10) mem) = 0x10" "length (get_field (0x20, 0x10) mem) = 0x10"
    using slot(2) by (simp_all add: controller_sizes)
  note i = card_registers [OF slot, of s ?info, OF refl] and i' = card_registers [OF slot, of s' ?info', OF refl]
  have k: "gi_key_set ?info = zeros 0x40" using i(4) before by simp
  have k': "gi_key_set ?info' = keys_bytes (gc_per_cart_keys c)"
    using i'(4) run(2,3) keys
    by (simp add: AuthEmu.kIsAuthenticated_def AuthEmu.kGetPerCartKeys_def keys_bytes_def to_user_def put_field.simps zeros_def)
  have "shown ?info 0 9 = get_field (0x10, 0x10) mem" "shown ?info 1 9 = get_field (0x20, 0x10) mem"
    "shown ?info 11 13 = zeros 0x20" "shown ?info 12 13 = zeros 0x20"
    using shown_lines [of ?info] i(1,2) l k by (simp_all add: zeros_def)
  moreover have "shown ?info' 0 9 = get_field (0x10, 0x10) mem" "shown ?info' 1 9 = get_field (0x20, 0x10) mem"
    "shown ?info' 11 13 = cmd56_keys.packet18_key (gc_per_cart_keys c)" "shown ?info' 12 13 = cmd56_keys.packet20_key (gc_per_cart_keys c)"
    using shown_lines [of ?info'] i'(1,2) l k' keys by (simp_all add: keys_bytes_def)
  ultimately show ?thesis using run(1) by (auto simp: Let_def)
qed

text \<open>A slot whose context holds the numbers of its bytes.\<close>

definition context_memory :: bytes where "context_memory = map of_nat [0..<0x398]"

definition context_glue :: "(slot_event list \<times> int list) glue_sys" where
  "context_glue = small_kernel_glue\<lparr>glue_sys.ksceSdifGetSdContextPartValidateMmc := \<lambda>dev k. Some (mmc_context_at context_memory)\<rparr>"

theorem screen_shows_the_card_witness:
  "\<exists>s' e'. k_run_authentication (zeros 16) card_slot 1
      (loaded_state, \<lparr>ce_state = retail_card, ce_rng = rand_state_init, ce_buffer = []\<rparr>) = (0, s', e') \<and>
    shown (get_gc_info (module_calls context_glue) (small_glue, loaded_state)) 0 9 =
      [16, 17, 18, 19, 20, 21, 22, 23, 24, 25, 26, 27, 28, 29, 30, 31] \<and>
    shown (get_gc_info (module_calls context_glue) (small_glue, loaded_state)) 11 13 = zeros 0x20 \<and>
    shown (get_gc_info (module_calls context_glue) (small_glue, s')) 11 13 = replicate 0x20 2 \<and>
    shown (get_gc_info (module_calls context_glue) (small_glue, s')) 12 13 = replicate 0x20 1"
proof -
  define env where "env = \<lparr>ce_state = retail_card, ce_rng = rand_state_init, ce_buffer = []\<rparr>"
  have "get_field (0x10, 0x10) context_memory = map of_nat [0x10..<0x20]"
    unfolding context_memory_def get_field.simps by (simp only: take_map drop_map drop_upt) (subst take_upt, simp_all del: upt_rec_numeral)
  moreover have "sizeof sd_context_part_mmc \<le> length context_memory"
    by (simp add: controller_sizes context_memory_def del: upt_rec_numeral)
  ultimately have mem: "sizeof sd_context_part_mmc \<le> length context_memory"
    "get_field (0x10, 0x10) context_memory = [16, 17, 18, 19, 20, 21, 22, 23, 24, 25, 26, 27, 28, 29, 30, 31]"
    by simp_all
  have "\<exists>s' e'. k_run_authentication (zeros 16) card_slot 1 (loaded_state, env) = (0, s', e') \<and>
    (let info = get_gc_info (module_calls context_glue) (small_glue, loaded_state);
         info' = get_gc_info (module_calls context_glue) (small_glue, s')
     in shown info 0 9 = get_field (0x10, 0x10) context_memory \<and> shown info 1 9 = get_field (0x20, 0x10) context_memory \<and>
        shown info 11 13 = zeros 0x20 \<and> shown info 12 13 = zeros 0x20 \<and>
        shown info' 0 9 = get_field (0x10, 0x10) context_memory \<and> shown info' 1 9 = get_field (0x20, 0x10) context_memory \<and>
        shown info' 11 13 = cmd56_keys.packet18_key (gc_per_cart_keys retail_card) \<and>
        shown info' 12 13 = cmd56_keys.packet20_key (gc_per_cart_keys retail_card))"
  proof (rule screen_shows_the_card)
    show "auth_sys.ksceSdifGetSdContextPartValidateMmc card_slot 1 env =
        (1, \<lparr>ce_state = retail_card, ce_rng = rand_state_init, ce_buffer = []\<rparr>)" by (simp add: card_slot_def env_def)
    show "wf_gc retail_card" by (simp add: wf_gc_def retail_card_def gc_zero_def AES_keyExpSize_def)
    show "snd (ksceSdifReadCmd56 card_slot 1 buf e) = wire_recv (zeros 16) buf e" for buf e by (simp add: card_slot_def)
    show "glue_sys.ksceSdifGetSdContextPartValidateMmc context_glue 1 (kmem small_glue) = Some (mmc_context_at context_memory)"
      by (simp add: context_glue_def)
  qed (simp_all add: mem card_slot_def retail_card_def loaded_state_def session_keyseed_def key_ids rand_state_init_def
      AuthEmu.kIsAuthenticated_def)
  then show ?thesis
    unfolding Let_def mem(2) env_def by (elim exE conjE, intro exI conjI) (assumption | simp add: retail_card_def)+
qed

end
