(* ===== verification/Spec2Isabelle.thy ===== *)
theory Spec2Isabelle
  imports NetDump InsertPrompt MenuScreen Fractions PowerLock Overlap CardInfo
begin

text \<open>
  A model of GcToolKit, which backs up and restores game cards of the PlayStation Vita, and the theorems that
  make it correct.  This theory imports all others and holds their guide.

  \<^bold>\<open>The program.\<close>  Three programs work together.  The kernel module \<^verbatim>\<open>src/kern\<close> emulates the security
  processor that authenticates a card, keeps the keys the authentication yields, and opens the block devices
  of cards to the application.  The application \<^verbatim>\<open>src/app\<close> shows menus, copies a card to an image, an image
  to a card, or zeros to a card, and sends images over the network.  The server \<^verbatim>\<open>src/pc\<close> runs on a computer and
  stores what it receives.  They meet at three interfaces: the system calls of the module (files \<^verbatim>\<open>inc/GcKernKit.h\<close>),
  the packets of \<^verbatim>\<open>inc/Packet.h\<close> and the image formats.

  \<^bold>\<open>How code becomes definitions.\<close>  A C function is a HOL function of the same name.  Buffers are lists of 8-bit
  words, structures are records or, where their bytes matter, lists with named fields (\<open>get_field\<close>, \<open>put_field\<close>
  of theory Prelude; theory Layout computes the places of members from the declarations); integers are words of the C width where they wrap, and \<open>int\<close> or \<open>nat\<close> where the code
  only compares or counts them.  Uninitialised memory is an argument.  What is not under \<^verbatim>\<open>src/\<close> -- system
  calls, sockets, the dialog, the card under the console side of the protocol -- is a record of functions over
  an arbitrary environment (\<open>dev_sys\<close>, \<open>io_sys\<close>, \<open>net_sys\<close>, \<open>kio_sys\<close>, \<open>auth_sys\<close>, \<open>ident_sys\<close>, \<open>glue_sys\<close>
  and, for the flows, \<open>app_sys\<close>, which joins them); what the theorems need of it is a hypothesis or a locale.
  Exits through \<^verbatim>\<open>goto error\<close> are functions applied to every path that leads there.  Loops over
  data are recursive functions; loops that may wait for ever (for the user, a card, the network) are
  \<open>partial_function (option)\<close>, whose value is then \<open>None\<close>, and theorems that they end say so.  A write that leaves
  its object goes where the source's memory layout sends it when that is an object of the model (the members behind
  the address in the settings), is recorded where a handler's buffer is followed by memory the source does not name
  (\<open>rs_overrun\<close> of the card's responses), and otherwise makes the run undefined, which is \<open>None\<close> too.

  \<^bold>\<open>Authentication.\<close>
  \<^item> Prelude: byte order, fields and the memory loops of \<^verbatim>\<open>cmd56/compiler_defs.h\<close>.
  \<^item> Aes, AesCmac: \<^verbatim>\<open>cmd56/crypto\<close>; key schedule against FIPS 197, blocks and CBC inverted, the MAC
    against RFC 4493, with the messages it differs on.
  \<^item> Cmd56, Cmd56Sm: packets, session keys and random numbers (\<^verbatim>\<open>cmd56.c\<close>, \<^verbatim>\<open>cmd56_sm.c\<close>).
  \<^item> GcCart: every handler of the card (\<^verbatim>\<open>cmd56/gc.c\<close>) with the state machine of its lock, what its answers
    depend on, and how far their bytes reach: every write and every encryption in the response is tracked, and only
    the error response leaves the buffer.
  \<^item> VitaHost: the console (\<^verbatim>\<open>cmd56/vita.c\<close>) against any peer; the keys it takes are those of the answers it
    received, after it has checked them.
  \<^item> Handshake: both run against each other, over the interface of a locale that the card interprets: the
    handshake ends with the same keys on both sides, for all random numbers and stack contents, and how it ends
    with a card whose key the console does not know.
  \<^item> AuthEmu: \<^verbatim>\<open>kern/auth_emu.c\<close>: the hook that runs the handshake with a real card, and the
    invariant of the module's secrets over every order of its calls.

  \<^bold>\<open>The kernel module.\<close>
  \<^item> KernIo: \<^verbatim>\<open>kern/io.c\<close> and \<^verbatim>\<open>kern/format.c\<close>; these calls refine the block driver the copies are proved over,
    and a dump through them; \<^verbatim>\<open>kGetDeviceSize\<close> ends without a return statement, so what its caller reads is an
    argument of the model.
  \<^item> KernGlue: \<^verbatim>\<open>kern/gc.c\<close>, \<^verbatim>\<open>module.c\<close>, \<^verbatim>\<open>sd2vita.c\<close>, \<^verbatim>\<open>otg.c\<close>, \<^verbatim>\<open>main.c\<close>:
    the order of a reset, the mount points other plugins have redirected, as a memory two mount points may share, and the hooks.
  \<^item> Layout: the structures of \<^verbatim>\<open>kern/gc.h\<close> and \<^verbatim>\<open>app/mbr.h\<close> with the offsets and sizes the compiler gives their
    members, against those their names and comments say.
  \<^item> CardInfo: from the memory of the controller and a card behind the protocol, through the system calls and
    \<^verbatim>\<open>get_gc_info\<close>, to the digits on the screen.

  \<^bold>\<open>Copies.\<close>
  \<^item> CString, Sha256 (\<^verbatim>\<open>app/sha256.c\<close>, against FIPS 180-4 for every way a message is cut).
  \<^item> Device: \<^verbatim>\<open>app/device.c\<close>; Dump: the locale \<open>block_driver\<close> says what a driver and files promise by
    a view of both; over it the image a dump makes in the formats that are not trimmed (of the trimmed ones it is
    shown that their size is never taken from the partition table: it is the card's or nothing), restores, wipes
    and what failures of any call leave.  The copy loop needs no fuel: it is partial, and ends for every card under the promises.
  \<^item> Fractions: what the copies, to files and over the network, tell the progress callback.
  \<^item> Packet, Net, PcServer, NetDump: \<^verbatim>\<open>app/net.c\<close> and \<^verbatim>\<open>pc/main.c\<close>; a network dump ends at the server
    with the image of a dump to a file, whatever the pieces in which the connections deliver it behind the first
    packet, and with no new file when the first packet comes in pieces.
    Overlap: the threads of the server beside each other, as steps in any order: the variable they are given, which
    the next connection overwrites, and the one buffer they share.

  \<^bold>\<open>The application.\<close>
  \<^item> Paths: \<^verbatim>\<open>app/io.c\<close>: partitions, directories, listings.  Sfo: \<^verbatim>\<open>app/sfo.c\<close> and \<^verbatim>\<open>gameinfo.c\<close>.
    Utf: \<^verbatim>\<open>app/ime.c\<close>.  Config: \<^verbatim>\<open>app/config.c\<close>.  Ident: \<^verbatim>\<open>app/gc_ident.c\<close> and \<^verbatim>\<open>err.c\<close>.
  \<^item> Menu: \<^verbatim>\<open>app/ctrl.c\<close> and the macros of \<^verbatim>\<open>app/menu.c\<close>: the machine that moves over the options refines a cursor.
  \<^item> Screen: the texts \<^verbatim>\<open>app/menu.c\<close> and \<^verbatim>\<open>app/draw.c\<close> put on the screen.  Canvas: \<^verbatim>\<open>app/draw.c\<close> as the list of calls it
    makes of the graphics library.  Single: rounding to single precision.  Pages: every screen of \<^verbatim>\<open>app/menu.c\<close>
    as what it draws.  PageLaws: a screen is one frame, what is highlighted is what the option machine of Menu has
    selected, the progress stays in its frame, texts stay on the overlay.
    MenuScreen: the menu loop with its screens: it answers what the machine of Menu answers, and what is
    confirmed is what the last frame highlights.
  \<^item> AppSys: the system of the flows, \<^verbatim>\<open>app/lock.c\<close>, \<^verbatim>\<open>auth.c\<close>, \<^verbatim>\<open>kernel.c\<close>.  Flows: the \<^verbatim>\<open>do_\<close>
    operations of \<^verbatim>\<open>app/menu.c\<close> on the state \<open>app\<close> (environment, settings, buffer of \<^verbatim>\<open>device.c\<close>, buttons).
    Handlers: \<^verbatim>\<open>app/main.c\<close> from the main menu down, and \<open>at_main_menu\<close>, the states of its endless loop.
    PowerLock: the threads of \<^verbatim>\<open>app/lock.c\<close> as steps that interleave with the calls that start and end them.
  \<^item> Frames, Safety: one lemma per operation on what it leaves alone, for an arbitrary view of the environment.
    Settings: the same for the settings, the overflow of the address included.  Naming: the names of backups.
    Console: a small console the flows are run on.  Turns: what holds of a turn, and in every state, of the main loop.
    InsertPrompt: the prompt for a card over the kernel module of AuthEmu: it ends with the card's keys.

  \<^bold>\<open>Bounds.\<close>  The number in the name of a backup is a \<open>nat\<close> where the code has 32 bits; the two agree below
  \<open>2 ^ 31\<close> files of one name.  Counts of files, sizes of buffers and the 30 looks at a partition are those of the code.

  The scheduler of threads is any order of their steps; a step is what the code does between two places where another thread can
  see or change what it works on.

  \<^bold>\<open>Not modelled.\<close>  Sound (\<^verbatim>\<open>app/bgm.cpp\<close>, C++ over an audio decoder) and logging, which is compiled out;
  the calls with which \<^verbatim>\<open>main\<close> starts graphics and network are definitions that its start does not make; the functions of the server for Windows;
  the PS3 mode of the protocol and the counter mode of AES, which are not compiled (the latter refers to a member
  of its context that the structure lacks).  Header files that declare functions, and the constants of the
  structures nothing reads, have no definitions.  Code of the system that the module finds by address is a parameter.
\<close>

end
